(* ===== verification/Storage.thy ===== *)
theory Storage
  imports Prelude "HOL-Library.Product_Lexorder"
begin

text \<open>
  \<open>internal/storage\<close>: the tables of the SQLite database and the operations of the package, one
  definition per Go function. A table is the list of its rows in rowid order; an SQL statement
  of the source is the list operation it denotes, with the constraints of
  \<open>migrations/0001_init.sql\<close> (unique indexes, foreign keys and their cascades) as branches. Every
  operation takes the database and returns its result with the database it leaves: a transaction
  that fails leaves the one it found. Times are Unix seconds, as the columns hold them; the
  clock is the argument \<open>now\<close>, SHA-256 the argument \<open>hash\<close>. Errors of the driver itself (I/O,
  a busy database) are not modelled.
\<close>

section \<open>Rows\<close>

datatype serror = ErrNotFound | ErrConflict | ErrConstraint | ErrInvalid

record user =
  u_ID :: int
  u_Username :: string
  u_DisplayName :: string
  u_Email :: string
  u_PasswordHash :: string
  u_IsAdmin :: bool
  u_CreatedAt :: int
  u_UpdatedAt :: int

abbreviation CollectionCalendar :: string where "CollectionCalendar \<equiv> ''calendar''"
abbreviation CollectionAddressBook :: string where "CollectionAddressBook \<equiv> ''addressbook''"

record collection =
  c_ID :: int
  c_OwnerID :: int
  c_Type :: string
  c_URI :: string
  c_DisplayName :: string
  c_Description :: string
  c_Color :: string
  c_Timezone :: string
  c_CTag :: string
  c_SyncSeq :: int
  c_CreatedAt :: int
  c_UpdatedAt :: int

datatype ChangeType = ChangeCreated | ChangeUpdated | ChangeDeleted

record object =
  o_ID :: int
  o_CollectionID :: int
  o_URI :: string
  o_ETag :: string
  o_Raw :: string
  o_UID :: string
  o_ComponentType :: string
  o_DisplayName :: string
  o_StartAt :: "int option"
  o_EndAt :: "int option"
  o_Recurring :: bool
  o_CreatedAt :: int
  o_UpdatedAt :: int

text \<open>A row of \<open>object_changes\<close>, and the part of it \<open>ChangesSince\<close> reports.\<close>

record change_row =
  ch_ID :: int
  ch_CollectionID :: int
  ch_Seq :: int
  ch_URI :: string
  ch_Type :: ChangeType
  ch_CreatedAt :: int

record Change =
  Change_Seq :: int
  Change_URI :: string
  Change_Type :: ChangeType

record session =
  s_Token :: string
  s_UserID :: int
  s_CSRFToken :: string
  s_CreatedAt :: int
  s_ExpiresAt :: int

record db =
  users :: "user list"
  collections :: "collection list"
  objects :: "object list"
  object_changes :: "change_row list"
  sessions :: "session list"

definition empty_db :: db where
  "empty_db = \<lparr>users = [], collections = [], objects = [], object_changes = [], sessions = []\<rparr>"

text \<open>The rowid SQLite gives a new row of an \<open>INTEGER PRIMARY KEY\<close> table: one more than the largest.\<close>

definition next_id :: "int list \<Rightarrow> int" where
  "next_id ids = foldr max ids 0 + 1"

definition checkAffected :: "nat \<Rightarrow> serror + unit" where
  "checkAffected n = (if n = 0 then Inl ErrNotFound else Inr ())"

section \<open>Users\<close>

text \<open>The collation NOCASE folds the ASCII letters.\<close>

definition nocase_eq :: "string \<Rightarrow> string \<Rightarrow> bool" where
  "nocase_eq a b = (ToLower a = ToLower b)"

definition UserByID :: "int \<Rightarrow> db \<Rightarrow> serror + user" where
  "UserByID i db = (case List.find (\<lambda>u. u_ID u = i) (users db) of None \<Rightarrow> Inl ErrNotFound | Some u \<Rightarrow> Inr u)"

definition UserByUsername :: "string \<Rightarrow> db \<Rightarrow> serror + user" where
  "UserByUsername name db =
     (case List.find (\<lambda>u. nocase_eq (u_Username u) name) (users db) of None \<Rightarrow> Inl ErrNotFound | Some u \<Rightarrow> Inr u)"

definition CreateUser :: "int \<Rightarrow> user \<Rightarrow> db \<Rightarrow> (serror + user) \<times> db" where
  "CreateUser now u db =
     (if list_ex (\<lambda>r. nocase_eq (u_Username r) (u_Username u)) (users db) then (Inl ErrConflict, db)
      else let i = next_id (map u_ID (users db));
               db' = db\<lparr>users := users db @ [u\<lparr>u_ID := i, u_CreatedAt := now, u_UpdatedAt := now\<rparr>]\<rparr>
           in (UserByID i db', db'))"

definition ListUsers :: "db \<Rightarrow> user list" where
  "ListUsers db = sort_key (\<lambda>u. ToLower (u_Username u)) (users db)"

definition UpdateUser :: "int \<Rightarrow> user \<Rightarrow> db \<Rightarrow> (serror + unit) \<times> db" where
  "UpdateUser now u db =
     (if list_ex (\<lambda>r. u_ID r = u_ID u) (users db) \<and>
         list_ex (\<lambda>r. u_ID r \<noteq> u_ID u \<and> nocase_eq (u_Username r) (u_Username u)) (users db)
      then (Inl ErrConflict, db)
      else (checkAffected (length (filter (\<lambda>r. u_ID r = u_ID u) (users db))),
            db\<lparr>users := map (\<lambda>r. if u_ID r = u_ID u
                      then r\<lparr>u_Username := u_Username u, u_DisplayName := u_DisplayName u,
                             u_Email := u_Email u, u_IsAdmin := u_IsAdmin u, u_UpdatedAt := now\<rparr>
                      else r) (users db)\<rparr>))"

definition SetPassword :: "int \<Rightarrow> int \<Rightarrow> string \<Rightarrow> db \<Rightarrow> (serror + unit) \<times> db" where
  "SetPassword now i h db =
     (checkAffected (length (filter (\<lambda>r. u_ID r = i) (users db))),
      db\<lparr>users := map (\<lambda>r. if u_ID r = i then r\<lparr>u_PasswordHash := h, u_UpdatedAt := now\<rparr> else r) (users db)\<rparr>)"

text \<open>Deleting collections cascades to their objects and change log; deleting a user also to the sessions.\<close>

definition drop_collections :: "(collection \<Rightarrow> bool) \<Rightarrow> db \<Rightarrow> db" where
  "drop_collections P db =
     (let gone = map c_ID (filter P (collections db))
      in db\<lparr>collections := filter (\<lambda>c. \<not> P c) (collections db),
            objects := filter (\<lambda>x. o_CollectionID x \<notin> set gone) (objects db),
            object_changes := filter (\<lambda>x. ch_CollectionID x \<notin> set gone) (object_changes db)\<rparr>)"

definition DeleteUser :: "int \<Rightarrow> db \<Rightarrow> (serror + unit) \<times> db" where
  "DeleteUser i db =
     (case checkAffected (length (filter (\<lambda>r. u_ID r = i) (users db))) of
        Inl e \<Rightarrow> (Inl e, db)
      | Inr _ \<Rightarrow>
          (Inr (), (drop_collections (\<lambda>c. c_OwnerID c = i) db)
             \<lparr>users := filter (\<lambda>r. u_ID r \<noteq> i) (users db),
              sessions := filter (\<lambda>s. s_UserID s \<noteq> i) (sessions db)\<rparr>))"

definition EnsureAdmin :: "int \<Rightarrow> string \<Rightarrow> string \<Rightarrow> db \<Rightarrow> (serror + user) \<times> db" where
  "EnsureAdmin now name h db =
     (case UserByUsername name db of
        Inl ErrNotFound \<Rightarrow>
          CreateUser now \<lparr>u_ID = 0, u_Username = name, u_DisplayName = name, u_Email = [],
            u_PasswordHash = h, u_IsAdmin = True, u_CreatedAt = 0, u_UpdatedAt = 0\<rparr> db
      | Inl e \<Rightarrow> (Inl e, db)
      | Inr u \<Rightarrow>
          if u_IsAdmin u then (Inr u, db)
          else (case UpdateUser now (u\<lparr>u_IsAdmin := True\<rparr>) db of
                  (Inl e, db') \<Rightarrow> (Inl e, db')
                | (Inr _, db') \<Rightarrow> (Inr (u\<lparr>u_IsAdmin := True\<rparr>), db')))"

section \<open>LIKE\<close>

definition escape_like_char :: "char \<Rightarrow> string" where
  "escape_like_char c =
     (if c = BACKSLASH then [BACKSLASH, BACKSLASH] else if c = CHR ''%'' then [BACKSLASH, CHR ''%'']
      else if c = CHR ''_'' then [BACKSLASH, CHR ''_''] else [c])"

definition escapeLike :: "string \<Rightarrow> string" where
  "escapeLike s = concat (map escape_like_char s)"

text \<open>SQLite's \<open>LIKE ... ESCAPE\<close> with the backslash as escape, case-insensitive on ASCII.\<close>

fun like :: "string \<Rightarrow> string \<Rightarrow> bool" where
  "like [] s = (s = [])"
| "like [c] s =
     (if c = BACKSLASH then False else if c = CHR ''%'' then True
      else if c = CHR ''_'' then length s = 1 else length s = 1 \<and> lower_char (hd s) = lower_char c)"
| "like (c # d # p) s =
     (if c = BACKSLASH then s \<noteq> [] \<and> lower_char (hd s) = lower_char d \<and> like p (tl s)
      else if c = CHR ''%'' then list_ex (\<lambda>k. like (d # p) (drop k s)) [0..<Suc (length s)]
      else s \<noteq> [] \<and> (c = CHR ''_'' \<or> lower_char (hd s) = lower_char c) \<and> like (d # p) (tl s))"

definition page :: "int \<Rightarrow> int \<Rightarrow> 'a list \<Rightarrow> 'a list" where
  "page limit offset xs = take (nat (if limit \<le> 0 then 100 else limit)) (drop (nat (max offset 0)) xs)"

definition SearchUsers :: "string \<Rightarrow> int \<Rightarrow> int \<Rightarrow> db \<Rightarrow> user list \<times> nat" where
  "SearchUsers query limit offset db =
     (let q = TrimSpace query; pattern = ''%'' @ escapeLike q @ ''%'';
          hits = (if q = [] then users db
                  else filter (\<lambda>u. like pattern (u_Username u) \<or> like pattern (u_DisplayName u) \<or>
                                   like pattern (u_Email u)) (users db))
      in (page limit offset (sort_key (\<lambda>u. ToLower (u_Username u)) hits), length hits))"

section \<open>Collections\<close>

definition ctagFor :: "int \<Rightarrow> string" where
  "ctagFor seq = FormatInt seq"

definition CollectionByID :: "int \<Rightarrow> db \<Rightarrow> serror + collection" where
  "CollectionByID i db =
     (case List.find (\<lambda>c. c_ID c = i) (collections db) of None \<Rightarrow> Inl ErrNotFound | Some c \<Rightarrow> Inr c)"

definition CollectionByURI :: "int \<Rightarrow> string \<Rightarrow> db \<Rightarrow> serror + collection" where
  "CollectionByURI owner uri db =
     (case List.find (\<lambda>c. c_OwnerID c = owner \<and> c_URI c = uri) (collections db) of
        None \<Rightarrow> Inl ErrNotFound | Some c \<Rightarrow> Inr c)"

definition CreateCollection :: "int \<Rightarrow> collection \<Rightarrow> db \<Rightarrow> (serror + collection) \<times> db" where
  "CreateCollection now c db =
     (if c_Type c \<noteq> CollectionCalendar \<and> c_Type c \<noteq> CollectionAddressBook then (Inl ErrInvalid, db)
      else if c_URI c = [] then (Inl ErrInvalid, db)
      else if list_ex (\<lambda>r. c_OwnerID r = c_OwnerID c \<and> c_URI r = c_URI c) (collections db) then (Inl ErrConflict, db)
      else if \<not> list_ex (\<lambda>u. u_ID u = c_OwnerID c) (users db) then (Inl ErrConstraint, db)
      else let i = next_id (map c_ID (collections db));
               db' = db\<lparr>collections := collections db @
                 [c\<lparr>c_ID := i, c_CTag := ctagFor 0, c_SyncSeq := 0, c_CreatedAt := now, c_UpdatedAt := now\<rparr>]\<rparr>
           in (CollectionByID i db', db'))"

definition ListCollections :: "int \<Rightarrow> string \<Rightarrow> db \<Rightarrow> collection list" where
  "ListCollections owner typ db =
     sort_key c_URI (filter (\<lambda>c. c_OwnerID c = owner \<and> (typ \<noteq> [] \<longrightarrow> c_Type c = typ)) (collections db))"

definition UpdateCollection :: "int \<Rightarrow> collection \<Rightarrow> db \<Rightarrow> (serror + unit) \<times> db" where
  "UpdateCollection now c db =
     (checkAffected (length (filter (\<lambda>r. c_ID r = c_ID c) (collections db))),
      db\<lparr>collections := map (\<lambda>r. if c_ID r = c_ID c
           then r\<lparr>c_DisplayName := c_DisplayName c, c_Description := c_Description c, c_Color := c_Color c,
                  c_Timezone := c_Timezone c, c_UpdatedAt := now\<rparr>
           else r) (collections db)\<rparr>)"

definition DeleteCollection :: "int \<Rightarrow> db \<Rightarrow> (serror + unit) \<times> db" where
  "DeleteCollection i db =
     (checkAffected (length (filter (\<lambda>r. c_ID r = i) (collections db))), drop_collections (\<lambda>c. c_ID c = i) db)"

section \<open>Objects and the change log\<close>

definition ETagFor :: "(string \<Rightarrow> string) \<Rightarrow> string \<Rightarrow> string" where
  "ETagFor hash raw = hash raw"

definition ObjectByURI :: "int \<Rightarrow> string \<Rightarrow> db \<Rightarrow> serror + object" where
  "ObjectByURI cid uri db =
     (case List.find (\<lambda>x. o_CollectionID x = cid \<and> o_URI x = uri) (objects db) of
        None \<Rightarrow> Inl ErrNotFound | Some x \<Rightarrow> Inr x)"

definition bump :: "int \<Rightarrow> int \<Rightarrow> collection \<Rightarrow> collection" where
  "bump cid now r =
     (if c_ID r = cid
      then r\<lparr>c_SyncSeq := c_SyncSeq r + 1, c_CTag := FormatInt (c_SyncSeq r + 1), c_UpdatedAt := now\<rparr>
      else r)"

text \<open>The statements of \<open>recordChange\<close>: bump the collection, prune the URI's row, append the new one.\<close>

definition recordChange :: "int \<Rightarrow> string \<Rightarrow> ChangeType \<Rightarrow> int \<Rightarrow> db \<Rightarrow> serror + db" where
  "recordChange cid uri change now db =
     (case List.find (\<lambda>c. c_ID c = cid) (collections db) of
        None \<Rightarrow> Inl ErrNotFound
      | Some c \<Rightarrow>
          let seq = c_SyncSeq c + 1;
              pruned = filter (\<lambda>r. \<not> (ch_CollectionID r = cid \<and> ch_URI r = uri)) (object_changes db);
              row = \<lparr>ch_ID = next_id (map ch_ID pruned), ch_CollectionID = cid, ch_Seq = seq,
                     ch_URI = uri, ch_Type = change, ch_CreatedAt = now\<rparr>
          in if list_ex (\<lambda>r. ch_CollectionID r = cid \<and> ch_Seq r = seq) pruned then Inl ErrConstraint
             else Inr (db\<lparr>collections := map (bump cid now) (collections db),
                          object_changes := pruned @ [row]\<rparr>))"

definition payload :: "(string \<Rightarrow> string) \<Rightarrow> int \<Rightarrow> object \<Rightarrow> object \<Rightarrow> object" where
  "payload hash now obj r =
     r\<lparr>o_ETag := ETagFor hash (o_Raw obj), o_Raw := o_Raw obj, o_UID := o_UID obj,
       o_ComponentType := o_ComponentType obj, o_DisplayName := o_DisplayName obj, o_StartAt := o_StartAt obj,
       o_EndAt := o_EndAt obj, o_Recurring := o_Recurring obj, o_UpdatedAt := now\<rparr>"

definition PutObject :: "(string \<Rightarrow> string) \<Rightarrow> int \<Rightarrow> object \<Rightarrow> db \<Rightarrow> (serror + object) \<times> db" where
  "PutObject hash now obj db =
     (let existing = List.find (\<lambda>x. o_CollectionID x = o_CollectionID obj \<and> o_URI x = o_URI obj) (objects db);
          commit = (\<lambda>change db'.
            case recordChange (o_CollectionID obj) (o_URI obj) change now db' of
              Inl e \<Rightarrow> (Inl e, db)
            | Inr db'' \<Rightarrow> (ObjectByURI (o_CollectionID obj) (o_URI obj) db'', db''))
      in case existing of
           Some x \<Rightarrow>
             if ETagFor hash (o_Raw obj) = o_ETag x then (ObjectByURI (o_CollectionID obj) (o_URI obj) db, db)
             else commit ChangeUpdated
                    (db\<lparr>objects := map (\<lambda>r. if o_ID r = o_ID x then payload hash now obj r else r) (objects db)\<rparr>)
         | None \<Rightarrow>
             if \<not> list_ex (\<lambda>c. c_ID c = o_CollectionID obj) (collections db) then (Inl ErrConstraint, db)
             else commit ChangeCreated
                    (db\<lparr>objects := objects db @
                       [(payload hash now obj obj)\<lparr>o_ID := next_id (map o_ID (objects db)), o_CreatedAt := now\<rparr>]\<rparr>))"

definition DeleteObject :: "int \<Rightarrow> int \<Rightarrow> string \<Rightarrow> db \<Rightarrow> (serror + unit) \<times> db" where
  "DeleteObject now cid uri db =
     (case checkAffected (length (filter (\<lambda>x. o_CollectionID x = cid \<and> o_URI x = uri) (objects db))) of
        Inl e \<Rightarrow> (Inl e, db)
      | Inr _ \<Rightarrow>
          (case recordChange cid uri ChangeDeleted now
                  (db\<lparr>objects := filter (\<lambda>x. \<not> (o_CollectionID x = cid \<and> o_URI x = uri)) (objects db)\<rparr>) of
             Inl e \<Rightarrow> (Inl e, db)
           | Inr db' \<Rightarrow> (Inr (), db')))"

definition ListObjects :: "int \<Rightarrow> db \<Rightarrow> object list" where
  "ListObjects cid db = sort_key o_URI (filter (\<lambda>x. o_CollectionID x = cid) (objects db))"

definition ObjectsInTimeRange :: "int \<Rightarrow> int \<Rightarrow> int \<Rightarrow> db \<Rightarrow> object list" where
  "ObjectsInTimeRange cid from to db =
     sort_key o_URI (filter (\<lambda>x. o_CollectionID x = cid \<and>
       (case o_StartAt x of None \<Rightarrow> True
        | Some s \<Rightarrow> s < to \<and> (case o_EndAt x of None \<Rightarrow> True | Some e \<Rightarrow> e > from))) (objects db))"

definition SearchObjects :: "int \<Rightarrow> string \<Rightarrow> int \<Rightarrow> int \<Rightarrow> db \<Rightarrow> object list \<times> nat" where
  "SearchObjects cid query limit offset db =
     (let q = TrimSpace query; pattern = ''%'' @ escapeLike q @ ''%'';
          hits = filter (\<lambda>x. o_CollectionID x = cid \<and>
                   (q \<noteq> [] \<longrightarrow> like pattern (o_DisplayName x) \<or> like pattern (o_URI x))) (objects db)
      in (page limit offset (sort_key (\<lambda>x. (ToLower (o_DisplayName x), o_URI x)) hits), length hits))"

definition ChangesSince :: "int \<Rightarrow> int \<Rightarrow> db \<Rightarrow> serror + (Change list \<times> int)" where
  "ChangesSince cid since db =
     (case CollectionByID cid db of
        Inl e \<Rightarrow> Inl e
      | Inr c \<Rightarrow>
          Inr (map (\<lambda>r. \<lparr>Change_Seq = ch_Seq r, Change_URI = ch_URI r, Change_Type = ch_Type r\<rparr>)
                 (sort_key ch_Seq (filter (\<lambda>r. ch_CollectionID r = cid \<and> ch_Seq r > since) (object_changes db))),
               c_SyncSeq c))"

section \<open>Sessions\<close>

definition CreateSession :: "session \<Rightarrow> db \<Rightarrow> (serror + unit) \<times> db" where
  "CreateSession s db =
     (if list_ex (\<lambda>r. s_Token r = s_Token s) (sessions db) then (Inl ErrConstraint, db)
      else if \<not> list_ex (\<lambda>u. u_ID u = s_UserID s) (users db) then (Inl ErrConstraint, db)
      else (Inr (), db\<lparr>sessions := sessions db @ [s]\<rparr>))"

definition DeleteSession :: "string \<Rightarrow> db \<Rightarrow> (serror + unit) \<times> db" where
  "DeleteSession token db =
     (checkAffected (length (filter (\<lambda>r. s_Token r = token) (sessions db))),
      db\<lparr>sessions := filter (\<lambda>r. s_Token r \<noteq> token) (sessions db)\<rparr>)"

text \<open>The join with \<open>users\<close> finds no row when the user is gone. An expired session is deleted on the way out.\<close>

definition SessionByToken :: "int \<Rightarrow> string \<Rightarrow> db \<Rightarrow> (serror + session \<times> user) \<times> db" where
  "SessionByToken now token db =
     (case List.find (\<lambda>s. s_Token s = token \<and> list_ex (\<lambda>u. u_ID u = s_UserID s) (users db)) (sessions db) of
        None \<Rightarrow> (Inl ErrNotFound, db)
      | Some s \<Rightarrow>
          (case UserByID (s_UserID s) db of
             Inl e \<Rightarrow> (Inl e, db)
           | Inr u \<Rightarrow>
               if \<not> now < s_ExpiresAt s then
                 (case DeleteSession token db of
                    (Inl e, db') \<Rightarrow> (Inl (if e \<noteq> ErrNotFound then e else ErrNotFound), db')
                  | (Inr _, db') \<Rightarrow> (Inl ErrNotFound, db'))
               else (Inr (s, u), db)))"

definition DeleteUserSessions :: "int \<Rightarrow> db \<Rightarrow> db" where
  "DeleteUserSessions uid db = db\<lparr>sessions := filter (\<lambda>s. s_UserID s \<noteq> uid) (sessions db)\<rparr>"

definition DeleteExpiredSessions :: "int \<Rightarrow> db \<Rightarrow> nat \<times> db" where
  "DeleteExpiredSessions now db =
     (length (filter (\<lambda>s. s_ExpiresAt s \<le> now) (sessions db)),
      db\<lparr>sessions := filter (\<lambda>s. \<not> s_ExpiresAt s \<le> now) (sessions db)\<rparr>)"

end
