(* ===== verification/Storage_Facts.thy ===== *)
theory Storage_Facts
  imports Storage
begin

text \<open>
  The integrity of the database: \<open>db_ok\<close> says what the schema and the change log promise, every
  operation keeps it. Then what the change log is for: the rows after a position name every URI
  whose contents changed since.
\<close>

section \<open>Generic facts\<close>

lemma next_id_greater: "x \<in> set xs \<Longrightarrow> x < next_id xs"
proof -
  have "x \<in> set xs \<Longrightarrow> x \<le> foldr max xs 0" by (induction xs) auto
  then show "x \<in> set xs \<Longrightarrow> x < next_id xs" by (simp add: next_id_def)
qed

lemma next_id_pos: "0 < next_id xs"
proof -
  have "0 \<le> foldr max xs 0" by (induction xs) auto
  then show ?thesis by (simp add: next_id_def)
qed

lemma next_id_fresh: "next_id xs \<notin> set xs"
  using next_id_greater by force

lemma distinct_map_filter_of: "distinct (map f xs) \<Longrightarrow> distinct (map f (filter P xs))"
  by (induction xs) auto

lemma distinct_map_cong:
  "distinct (map f xs) \<Longrightarrow> (\<And>x. x \<in> set xs \<Longrightarrow> f (g x) = f x) \<Longrightarrow> distinct (map f (map g xs))"
  by (simp cong: map_cong)

lemma find_unique:
  assumes "distinct (map f xs)" and "x \<in> set xs" and "\<And>y. y \<in> set xs \<Longrightarrow> P y \<longleftrightarrow> f y = f x"
  shows "List.find P xs = Some x"
  using assms
proof (induction xs)
  case (Cons a xs)
  show ?case
  proof (cases "P a")
    case True
    then have "f a = f x" using Cons.prems(3) by simp
    moreover have "x \<notin> set xs" if "f a = f x" using that Cons.prems(1) by (auto simp: image_iff)
    ultimately show ?thesis using True Cons.prems(2) by auto
  next
    case False
    then have "a \<noteq> x" using Cons.prems(3) by auto
    then show ?thesis using False Cons by auto
  qed
qed simp

lemma find_SomeD: "List.find P xs = Some x \<Longrightarrow> x \<in> set xs \<and> P x"
  by (auto simp: find_Some_iff)

lemma find_NoneD: "List.find P xs = None \<Longrightarrow> x \<in> set xs \<Longrightarrow> \<not> P x"
  by (auto simp: find_None_iff)

lemma checkAffected_Inr: "checkAffected (length (filter P xs)) = Inr () \<longleftrightarrow> (\<exists>x \<in> set xs. P x)"
  by (auto simp: checkAffected_def filter_empty_conv)

lemma checkAffected_Inl: "checkAffected (length (filter P xs)) = Inl e \<longleftrightarrow> e = ErrNotFound \<and> (\<forall>x \<in> set xs. \<not> P x)"
  by (auto simp: checkAffected_def filter_empty_conv)

section \<open>Integrity\<close>

definition users_ok :: "user list \<Rightarrow> bool" where
  "users_ok us = (distinct (map u_ID us) \<and> distinct (map (\<lambda>u. ToLower (u_Username u)) us) \<and> list_all (\<lambda>u. 0 < u_ID u) us)"

definition collections_ok :: "int set \<Rightarrow> collection list \<Rightarrow> bool" where
  "collections_ok owners cs =
     (distinct (map c_ID cs) \<and> distinct (map (\<lambda>c. (c_OwnerID c, c_URI c)) cs) \<and>
      list_all (\<lambda>c. 0 < c_ID c \<and> c_OwnerID c \<in> owners \<and> c_URI c \<noteq> [] \<and> 0 \<le> c_SyncSeq c \<and>
                    (c_Type c = CollectionCalendar \<or> c_Type c = CollectionAddressBook) \<and>
                    c_CTag c = ctagFor (c_SyncSeq c)) cs)"

definition objects_ok :: "(string \<Rightarrow> string) \<Rightarrow> int set \<Rightarrow> object list \<Rightarrow> bool" where
  "objects_ok hash cids xs =
     (distinct (map o_ID xs) \<and> distinct (map (\<lambda>x. (o_CollectionID x, o_URI x)) xs) \<and>
      list_all (\<lambda>x. 0 < o_ID x \<and> o_CollectionID x \<in> cids \<and> o_ETag x = ETagFor hash (o_Raw x)) xs)"

definition changes_ok :: "collection list \<Rightarrow> change_row list \<Rightarrow> bool" where
  "changes_ok cs rs =
     (distinct (map (\<lambda>r. (ch_CollectionID r, ch_URI r)) rs) \<and> distinct (map (\<lambda>r. (ch_CollectionID r, ch_Seq r)) rs) \<and>
      list_all (\<lambda>r. 1 \<le> ch_Seq r \<and> list_ex (\<lambda>c. c_ID c = ch_CollectionID r \<and> ch_Seq r \<le> c_SyncSeq c) cs) rs)"

text \<open>The change log describes the contents: a URI is stored iff its row does not say deleted.\<close>

definition live :: "change_row list \<Rightarrow> (int \<times> string) set" where
  "live rs = (\<lambda>r. (ch_CollectionID r, ch_URI r)) ` {r \<in> set rs. ch_Type r \<noteq> ChangeDeleted}"

definition stored :: "object list \<Rightarrow> (int \<times> string) set" where
  "stored xs = (\<lambda>x. (o_CollectionID x, o_URI x)) ` set xs"

definition sessions_ok :: "int set \<Rightarrow> session list \<Rightarrow> bool" where
  "sessions_ok uids ss = (distinct (map s_Token ss) \<and> list_all (\<lambda>s. s_UserID s \<in> uids) ss)"

abbreviation user_ids :: "db \<Rightarrow> int set" where "user_ids db \<equiv> u_ID ` set (users db)"
abbreviation coll_ids :: "db \<Rightarrow> int set" where "coll_ids db \<equiv> c_ID ` set (collections db)"

definition db_ok :: "(string \<Rightarrow> string) \<Rightarrow> db \<Rightarrow> bool" where
  "db_ok hash db =
     (users_ok (users db) \<and> collections_ok (user_ids db) (collections db) \<and>
      objects_ok hash (coll_ids db) (objects db) \<and> changes_ok (collections db) (object_changes db) \<and>
      stored (objects db) = live (object_changes db) \<and> sessions_ok (user_ids db) (sessions db))"

lemma db_ok_empty: "db_ok hash empty_db"
  by (simp add: db_ok_def empty_db_def users_ok_def collections_ok_def objects_ok_def changes_ok_def
      stored_def live_def sessions_ok_def)

lemma collections_ok_mono: "collections_ok A cs \<Longrightarrow> A \<subseteq> B \<Longrightarrow> collections_ok B cs"
  by (auto simp: collections_ok_def list_all_iff)

lemma sessions_ok_mono: "sessions_ok A ss \<Longrightarrow> A \<subseteq> B \<Longrightarrow> sessions_ok B ss"
  by (auto simp: sessions_ok_def list_all_iff)

section \<open>Users and sessions\<close>

lemma CreateUser_ok: "db_ok hash db \<Longrightarrow> db_ok hash (snd (CreateUser now u db))"
  using next_id_fresh [of "map u_ID (users db)"] next_id_pos [of "map u_ID (users db)"]
  by (auto simp: CreateUser_def db_ok_def users_ok_def Let_def nocase_eq_def list_ex_iff
      intro: collections_ok_mono sessions_ok_mono)

lemma map_user_ids:
  assumes "\<And>u. u_ID (f u) = u_ID u"
  shows "u_ID ` f ` set us = u_ID ` set us"
  using assms by (auto simp: image_image)

lemma UpdateUser_ok: "db_ok hash db \<Longrightarrow> db_ok hash (snd (UpdateUser now u db))"
proof (cases "list_ex (\<lambda>r. u_ID r = u_ID u) (users db) \<and>
    list_ex (\<lambda>r. u_ID r \<noteq> u_ID u \<and> nocase_eq (u_Username r) (u_Username u)) (users db)")
  case False
  assume ok: "db_ok hash db"
  let ?f = "\<lambda>r. if u_ID r = u_ID u then r\<lparr>u_Username := u_Username u, u_DisplayName := u_DisplayName u,
      u_Email := u_Email u, u_IsAdmin := u_IsAdmin u, u_UpdatedAt := now\<rparr> else r"
  have ids: "u_ID (?f r) = u_ID r" for r by simp
  have us: "users_ok (users db)" using ok by (simp add: db_ok_def)
  have names: "inj_on (\<lambda>r. ToLower (u_Username (?f r))) (set (users db))"
  proof (rule inj_onI)
    fix a b
    assume ab: "a \<in> set (users db)" "b \<in> set (users db)"
      and eq: "ToLower (u_Username (?f a)) = ToLower (u_Username (?f b))"
    have other: "ToLower (u_Username r) \<noteq> ToLower (u_Username u)"
      if "r \<in> set (users db)" "u_ID r \<noteq> u_ID u" "q \<in> set (users db)" "u_ID q = u_ID u" for r q
      using False that by (auto simp: list_ex_iff nocase_eq_def)
    have id_inj: "u_ID a = u_ID b \<Longrightarrow> a = b" and nm_inj: "ToLower (u_Username a) = ToLower (u_Username b) \<Longrightarrow> a = b"
      using us ab by (auto simp: users_ok_def distinct_map inj_on_def)
    show "a = b"
      using eq other [of a b] other [of b a] ab id_inj nm_inj by (auto split: if_splits)
  qed
  have "users_ok (map ?f (users db))"
    using us names by (auto simp: users_ok_def list_all_iff o_def distinct_map ids cong: map_cong)
  then show ?thesis
    using ok False map_user_ids [of ?f "users db"] by (auto simp: UpdateUser_def db_ok_def image_image)
qed (auto simp: UpdateUser_def)

lemma SetPassword_ok: "db_ok hash db \<Longrightarrow> db_ok hash (snd (SetPassword now i h db))"
  by (simp add: SetPassword_def db_ok_def users_ok_def list_all_iff o_def image_image
      if_distrib [of u_ID] if_distrib [of u_Username] cong: if_cong
      del: if_image_distrib)

lemma EnsureAdmin_ok: "db_ok hash db \<Longrightarrow> db_ok hash (snd (EnsureAdmin now n h db))"
  using CreateUser_ok UpdateUser_ok
  by (auto simp: EnsureAdmin_def split: sum.splits serror.splits prod.splits) (metis snd_conv)+

lemma session_ops_ok:
  "db_ok hash db \<Longrightarrow> db_ok hash (snd (CreateSession s db))"
  "db_ok hash db \<Longrightarrow> db_ok hash (snd (DeleteSession tok db))"
  "db_ok hash db \<Longrightarrow> db_ok hash (DeleteUserSessions i db)"
  "db_ok hash db \<Longrightarrow> db_ok hash (snd (DeleteExpiredSessions now db))"
  by (auto simp: CreateSession_def DeleteSession_def DeleteUserSessions_def DeleteExpiredSessions_def db_ok_def
      sessions_ok_def list_all_iff list_ex_iff distinct_map_filter_of) (metis image_eqI)

lemma SessionByToken_ok: "db_ok hash db \<Longrightarrow> db_ok hash (snd (SessionByToken now tok db))"
  using session_ops_ok(2) [of hash db tok]
  by (auto simp: SessionByToken_def split: option.splits sum.splits prod.splits)

section \<open>Collections\<close>

lemma CreateCollection_ok: "db_ok hash db \<Longrightarrow> db_ok hash (snd (CreateCollection now c db))"
proof (cases "(c_Type c = CollectionCalendar \<or> c_Type c = CollectionAddressBook) \<and> c_URI c \<noteq> [] \<and>
    \<not> list_ex (\<lambda>r. c_OwnerID r = c_OwnerID c \<and> c_URI r = c_URI c) (collections db) \<and>
    list_ex (\<lambda>u. u_ID u = c_OwnerID c) (users db)")
  case True
  assume ok: "db_ok hash db"
  let ?i = "next_id (map c_ID (collections db))"
  let ?c = "c\<lparr>c_ID := ?i, c_CTag := ctagFor 0, c_SyncSeq := 0, c_CreatedAt := now, c_UpdatedAt := now\<rparr>"
  have db': "snd (CreateCollection now c db) = db\<lparr>collections := collections db @ [?c]\<rparr>"
    using True by (auto simp: CreateCollection_def Let_def)
  have own: "c_OwnerID c \<in> user_ids db" using True by (auto simp: list_ex_iff) (metis imageI)+
  have "collections_ok (user_ids db) (collections db @ [?c])"
    using ok True own next_id_fresh [of "map c_ID (collections db)"] next_id_pos [of "map c_ID (collections db)"]
    by (auto simp: db_ok_def collections_ok_def list_all_iff list_ex_iff)
  moreover have "objects_ok hash (insert ?i (coll_ids db)) (objects db)"
    using ok by (auto simp: db_ok_def objects_ok_def list_all_iff)
  moreover have "changes_ok (collections db @ [?c]) (object_changes db)"
    using ok by (auto simp: db_ok_def changes_ok_def list_all_iff)
  ultimately show ?thesis using ok db' by (simp add: db_ok_def)
qed (auto simp: CreateCollection_def)

lemma UpdateCollection_ok: "db_ok hash db \<Longrightarrow> db_ok hash (snd (UpdateCollection now c db))"
proof -
  let ?f = "\<lambda>r. if c_ID r = c_ID c then r\<lparr>c_DisplayName := c_DisplayName c, c_Description := c_Description c,
    c_Color := c_Color c, c_Timezone := c_Timezone c, c_UpdatedAt := now\<rparr> else r"
  have f: "c_ID (?f r) = c_ID r" "c_OwnerID (?f r) = c_OwnerID r" "c_URI (?f r) = c_URI r"
    "c_SyncSeq (?f r) = c_SyncSeq r" "c_Type (?f r) = c_Type r" "c_CTag (?f r) = c_CTag r" for r by auto
  have "collections_ok A (map ?f cs) = collections_ok A cs" "changes_ok (map ?f cs) rs = changes_ok cs rs"
      "c_ID ` set (map ?f cs) = c_ID ` set cs" for A cs rs
    by (simp_all only: collections_ok_def changes_ok_def list_all_iff list_ex_iff o_def set_map image_image
        map_map ball_simps bex_simps f)
  then show "db_ok hash db \<Longrightarrow> db_ok hash (snd (UpdateCollection now c db))"
    by (simp add: UpdateCollection_def db_ok_def)
qed

lemma drop_collections_ok:
  assumes ok: "db_ok hash db"
  shows "db_ok hash (drop_collections P db)"
    "\<And>c. c \<in> set (collections (drop_collections P db)) \<longleftrightarrow> c \<in> set (collections db) \<and> \<not> P c"
    "users (drop_collections P db) = users db" "sessions (drop_collections P db) = sessions db"
proof -
  let ?gone = "c_ID ` {c \<in> set (collections db). P c}"
  let ?db = "drop_collections P db"
  have inj: "inj_on c_ID (set (collections db))"
    using ok by (simp add: db_ok_def collections_ok_def distinct_map)
  have ids: "coll_ids ?db = coll_ids db - ?gone"
    using inj by (auto simp: drop_collections_def inj_on_def)
  have "collections_ok (user_ids db) (collections ?db)"
    using ok by (auto simp: db_ok_def collections_ok_def drop_collections_def distinct_map_filter_of list_all_iff)
  moreover have "objects_ok hash (coll_ids ?db) (objects ?db)"
    unfolding ids using ok
    by (auto simp: db_ok_def objects_ok_def drop_collections_def distinct_map_filter_of list_all_iff)
  moreover have "changes_ok (collections ?db) (object_changes ?db)"
    using ok by (auto simp: db_ok_def changes_ok_def drop_collections_def distinct_map_filter_of list_all_iff list_ex_iff)
      (metis image_eqI mem_Collect_eq)
  moreover have "stored (objects ?db) = {k \<in> stored (objects db). fst k \<notin> ?gone}"
    by (auto simp: stored_def drop_collections_def)
  moreover have "live (object_changes ?db) = {k \<in> live (object_changes db). fst k \<notin> ?gone}"
    by (auto simp: live_def drop_collections_def)
  ultimately show "db_ok hash ?db"
    using ok by (simp add: db_ok_def drop_collections_def)
qed (auto simp: drop_collections_def)

lemma DeleteCollection_ok: "db_ok hash db \<Longrightarrow> db_ok hash (snd (DeleteCollection i db))"
  using drop_collections_ok by (simp add: DeleteCollection_def)

lemma DeleteUser_ok: "db_ok hash db \<Longrightarrow> db_ok hash (snd (DeleteUser i db))"
proof (cases "checkAffected (length (filter (\<lambda>r. u_ID r = i) (users db)))")
  case (Inr u)
  assume ok: "db_ok hash db"
  note d = drop_collections_ok [OF ok, where P = "\<lambda>c. c_OwnerID c = i"]
  let ?db = "drop_collections (\<lambda>c. c_OwnerID c = i) db"
  have "users_ok (filter (\<lambda>r. u_ID r \<noteq> i) (users db))"
    using ok by (auto simp: db_ok_def users_ok_def distinct_map_filter_of list_all_iff)
  moreover have "collections_ok (u_ID ` set (filter (\<lambda>r. u_ID r \<noteq> i) (users db))) (collections ?db)"
    using d(1,2,3) by (auto simp: db_ok_def collections_ok_def list_all_iff)
  moreover have "sessions_ok (u_ID ` set (filter (\<lambda>r. u_ID r \<noteq> i) (users db))) (filter (\<lambda>s. s_UserID s \<noteq> i) (sessions db))"
    using ok by (auto simp: db_ok_def sessions_ok_def list_all_iff distinct_map_filter_of)
  ultimately show ?thesis
    using d(1) Inr by (simp add: DeleteUser_def db_ok_def)
qed (simp add: DeleteUser_def)

section \<open>The change log\<close>

text \<open>The row of a URI in the log of a collection.\<close>

definition change_at :: "db \<Rightarrow> int \<Rightarrow> string \<Rightarrow> change_row option" where
  "change_at db cid uri = List.find (\<lambda>r. ch_CollectionID r = cid \<and> ch_URI r = uri) (object_changes db)"

lemma bump_simps [simp]:
  "c_ID (bump cid now r) = c_ID r" "c_OwnerID (bump cid now r) = c_OwnerID r" "c_URI (bump cid now r) = c_URI r"
  "c_Type (bump cid now r) = c_Type r"
  "c_SyncSeq (bump cid now r) = (if c_ID r = cid then c_SyncSeq r + 1 else c_SyncSeq r)"
  by (simp_all add: bump_def)

lemma bump_collections_ok: "collections_ok owners cs \<Longrightarrow> collections_ok owners (map (bump cid now) cs)"
  by (auto simp: collections_ok_def list_all_iff o_def bump_def ctagFor_def)
    (simp_all add: if_distrib cong: if_cong)

definition prune :: "int \<Rightarrow> string \<Rightarrow> change_row list \<Rightarrow> change_row list" where
  "prune cid uri rs = filter (\<lambda>r. \<not> (ch_CollectionID r = cid \<and> ch_URI r = uri)) rs"

definition new_row :: "int \<Rightarrow> string \<Rightarrow> ChangeType \<Rightarrow> int \<Rightarrow> int \<Rightarrow> change_row list \<Rightarrow> change_row" where
  "new_row cid uri t now n rs =
     \<lparr>ch_ID = next_id (map ch_ID (prune cid uri rs)), ch_CollectionID = cid, ch_Seq = n, ch_URI = uri,
      ch_Type = t, ch_CreatedAt = now\<rparr>"

lemma new_row_simps [simp]:
  "ch_CollectionID (new_row cid uri t now n rs) = cid" "ch_Seq (new_row cid uri t now n rs) = n"
  "ch_URI (new_row cid uri t now n rs) = uri" "ch_Type (new_row cid uri t now n rs) = t"
  by (simp_all add: new_row_def)

lemma changes_ok_seq:
  "changes_ok cs rs \<Longrightarrow> distinct (map c_ID cs) \<Longrightarrow> c \<in> set cs \<Longrightarrow> r \<in> set rs \<Longrightarrow> ch_CollectionID r = c_ID c \<Longrightarrow>
   ch_Seq r \<le> c_SyncSeq c"
  unfolding changes_ok_def list_all_iff list_ex_iff distinct_map inj_on_def by metis

lemma changes_ok_record:
  assumes rs: "changes_ok cs rs" and c: "c \<in> set cs" and dist: "distinct (map c_ID cs)" and pos: "0 \<le> c_SyncSeq c"
  shows "changes_ok (map (bump (c_ID c) now) cs) (prune (c_ID c) uri rs @ [new_row (c_ID c) uri t now (c_SyncSeq c + 1) rs])"
proof -
  let ?new = "new_row (c_ID c) uri t now (c_SyncSeq c + 1) rs"
  have fresh: "(c_ID c, c_SyncSeq c + 1) \<notin> (\<lambda>r. (ch_CollectionID r, ch_Seq r)) ` set rs"
    using changes_ok_seq [OF rs dist c] by fastforce
  have below: "list_ex (\<lambda>x. c_ID x = ch_CollectionID r \<and> ch_Seq r \<le> c_SyncSeq x) (map (bump (c_ID c) now) cs)"
    if mem: "r \<in> set rs" for r
  proof -
    obtain x where "x \<in> set cs" "c_ID x = ch_CollectionID r" "ch_Seq r \<le> c_SyncSeq x"
      using rs mem by (auto simp: changes_ok_def list_all_iff list_ex_iff)
    then show ?thesis by (auto simp: list_ex_iff intro!: bexI [of _ x])
  qed
  have "list_ex (\<lambda>x. c_ID x = c_ID c \<and> c_SyncSeq c + 1 \<le> c_SyncSeq x) (map (bump (c_ID c) now) cs)"
    using c by (auto simp: list_ex_iff intro!: bexI [of _ c])
  then show ?thesis
    using rs fresh below pos
    by (auto simp: changes_ok_def prune_def list_all_iff distinct_map_filter_of)
qed

lemma recordChange_ok:
  assumes cs: "collections_ok owners (collections db)" and rs: "changes_ok (collections db) (object_changes db)"
    and c: "c \<in> set (collections db)"
  shows "recordChange (c_ID c) uri t now db =
      Inr (db\<lparr>collections := map (bump (c_ID c) now) (collections db),
              object_changes := prune (c_ID c) uri (object_changes db) @
                [new_row (c_ID c) uri t now (c_SyncSeq c + 1) (object_changes db)]\<rparr>)"
    "collections_ok owners (map (bump (c_ID c) now) (collections db))"
    "changes_ok (map (bump (c_ID c) now) (collections db))
       (prune (c_ID c) uri (object_changes db) @ [new_row (c_ID c) uri t now (c_SyncSeq c + 1) (object_changes db)])"
proof -
  have dist: "distinct (map c_ID (collections db))" using cs by (simp add: collections_ok_def)
  have find: "List.find (\<lambda>x. c_ID x = c_ID c) (collections db) = Some c"
    using find_unique [OF dist c, of "\<lambda>x. c_ID x = c_ID c"] by simp
  have "\<not> list_ex (\<lambda>r. ch_CollectionID r = c_ID c \<and> ch_Seq r = c_SyncSeq c + 1) (prune (c_ID c) uri (object_changes db))"
    using changes_ok_seq [OF rs dist c] by (fastforce simp: list_ex_iff prune_def)
  then show "recordChange (c_ID c) uri t now db =
      Inr (db\<lparr>collections := map (bump (c_ID c) now) (collections db),
              object_changes := prune (c_ID c) uri (object_changes db) @
                [new_row (c_ID c) uri t now (c_SyncSeq c + 1) (object_changes db)]\<rparr>)"
    using find by (simp add: recordChange_def Let_def prune_def new_row_def)
  show "collections_ok owners (map (bump (c_ID c) now) (collections db))" using bump_collections_ok [OF cs] .
  have "0 \<le> c_SyncSeq c" using cs c by (auto simp: collections_ok_def list_all_iff)
  then show "changes_ok (map (bump (c_ID c) now) (collections db))
       (prune (c_ID c) uri (object_changes db) @ [new_row (c_ID c) uri t now (c_SyncSeq c + 1) (object_changes db)])"
    using changes_ok_record [OF rs c dist] by simp
qed

lemma live_append: "live (rs @ qs) = live rs \<union> live qs"
  by (auto simp: live_def)

lemma live_single: "live [r] = (if ch_Type r = ChangeDeleted then {} else {(ch_CollectionID r, ch_URI r)})"
  by (auto simp: live_def)

lemma live_prune: "live (prune cid uri rs) = live rs - {(cid, uri)}"
  by (auto simp: live_def prune_def)

lemma live_record:
  "live (prune cid uri rs @ [new_row cid uri t now n rs]) =
   (if t = ChangeDeleted then live rs - {(cid, uri)} else insert (cid, uri) (live rs))"
  by (auto simp: live_append live_single live_prune)

lemma payload_simps [simp]:
  "o_ID (payload hash now obj r) = o_ID r" "o_CollectionID (payload hash now obj r) = o_CollectionID r"
  "o_URI (payload hash now obj r) = o_URI r" "o_ETag (payload hash now obj r) = ETagFor hash (o_Raw obj)"
  "o_Raw (payload hash now obj r) = o_Raw obj"
  by (simp_all add: payload_def)

text \<open>What a successful write does to the object table.\<close>

definition put_row :: "(string \<Rightarrow> string) \<Rightarrow> int \<Rightarrow> object \<Rightarrow> object list \<Rightarrow> object list" where
  "put_row hash now obj xs =
     (case List.find (\<lambda>x. o_CollectionID x = o_CollectionID obj \<and> o_URI x = o_URI obj) xs of
        Some x \<Rightarrow> map (\<lambda>r. if o_ID r = o_ID x then payload hash now obj r else r) xs
      | None \<Rightarrow> xs @ [(payload hash now obj obj)\<lparr>o_ID := next_id (map o_ID xs), o_CreatedAt := now\<rparr>])"

lemma stored_put_row: "stored (put_row hash now obj xs) = insert (o_CollectionID obj, o_URI obj) (stored xs)"
proof (cases "List.find (\<lambda>x. o_CollectionID x = o_CollectionID obj \<and> o_URI x = o_URI obj) xs")
  case (Some x)
  have f: "o_CollectionID (if b then payload hash now obj r else r) = o_CollectionID r"
    "o_URI (if b then payload hash now obj r else r) = o_URI r" for b r by auto
  have "stored (put_row hash now obj xs) = stored xs"
    using Some by (simp only: put_row_def option.case stored_def set_map image_image f)
  moreover have "(o_CollectionID obj, o_URI obj) \<in> stored xs"
    unfolding stored_def image_iff using find_SomeD [OF Some] by (intro bexI [of _ x]) auto
  ultimately show ?thesis by auto
qed (auto simp: put_row_def stored_def)

lemma objects_ok_put_row:
  assumes ok: "objects_ok hash cids xs" and cid: "o_CollectionID obj \<in> cids"
  shows "objects_ok hash cids (put_row hash now obj xs)"
proof (cases "List.find (\<lambda>x. o_CollectionID x = o_CollectionID obj \<and> o_URI x = o_URI obj) xs")
  case None
  then have "(o_CollectionID obj, o_URI obj) \<notin> (\<lambda>x. (o_CollectionID x, o_URI x)) ` set xs"
    by (auto simp: find_None_iff)
  then show ?thesis
    using ok cid None next_id_fresh [of "map o_ID xs"] next_id_pos [of "map o_ID xs"]
    by (auto simp: put_row_def objects_ok_def list_all_iff)
next
  case (Some x)
  have f: "o_ID (if b then payload hash now obj r else r) = o_ID r"
    "o_CollectionID (if b then payload hash now obj r else r) = o_CollectionID r"
    "o_URI (if b then payload hash now obj r else r) = o_URI r" for b r by auto
  have "distinct (map o_ID (put_row hash now obj xs))"
    "distinct (map (\<lambda>x. (o_CollectionID x, o_URI x)) (put_row hash now obj xs))"
    using ok Some by (simp_all only: put_row_def option.case objects_ok_def map_map o_def f)
  moreover have "list_all (\<lambda>x. 0 < o_ID x \<and> o_CollectionID x \<in> cids \<and> o_ETag x = ETagFor hash (o_Raw x)) (put_row hash now obj xs)"
    using ok Some by (auto simp: put_row_def objects_ok_def list_all_iff)
  ultimately show ?thesis by (simp add: objects_ok_def)
qed

definition recorded :: "int \<Rightarrow> collection \<Rightarrow> string \<Rightarrow> ChangeType \<Rightarrow> object list \<Rightarrow> db \<Rightarrow> db" where
  "recorded now c uri t xs db =
     db\<lparr>objects := xs, collections := map (bump (c_ID c) now) (collections db),
        object_changes := prune (c_ID c) uri (object_changes db) @
          [new_row (c_ID c) uri t now (c_SyncSeq c + 1) (object_changes db)]\<rparr>"

lemma recorded_ok:
  assumes ok: "db_ok hash db" and c: "c \<in> set (collections db)"
    and xs: "objects_ok hash (coll_ids db) xs"
    and keys: "stored xs = (if t = ChangeDeleted then stored (objects db) - {(c_ID c, uri)}
                            else insert (c_ID c, uri) (stored (objects db)))"
  shows "db_ok hash (recorded now c uri t xs db)"
    "recordChange (c_ID c) uri t now (db\<lparr>objects := xs\<rparr>) = Inr (recorded now c uri t xs db)"
proof -
  note r = recordChange_ok [of "user_ids db" "db\<lparr>objects := xs\<rparr>" c]
  have "coll_ids (recorded now c uri t xs db) = coll_ids db"
    by (auto simp: recorded_def image_image)
  then show "db_ok hash (recorded now c uri t xs db)"
    using ok c xs keys r(2,3) by (simp add: db_ok_def recorded_def live_record)
  show "recordChange (c_ID c) uri t now (db\<lparr>objects := xs\<rparr>) = Inr (recorded now c uri t xs db)"
    using ok c r(1) by (simp add: db_ok_def recorded_def)
qed

definition lookup_object :: "int \<Rightarrow> string \<Rightarrow> db \<Rightarrow> object option" where
  "lookup_object cid uri db = List.find (\<lambda>x. o_CollectionID x = cid \<and> o_URI x = uri) (objects db)"

lemma ObjectByURI_lookup:
  "ObjectByURI cid uri db = (case lookup_object cid uri db of None \<Rightarrow> Inl ErrNotFound | Some x \<Rightarrow> Inr x)"
  by (simp add: ObjectByURI_def lookup_object_def)

lemma lookup_object_stored: "lookup_object cid uri db \<noteq> None \<longleftrightarrow> (cid, uri) \<in> stored (objects db)"
  by (auto simp: lookup_object_def stored_def find_None_iff image_iff)

lemma stored_cids: "objects_ok hash cids xs \<Longrightarrow> (cid, uri) \<in> stored xs \<Longrightarrow> cid \<in> cids"
  by (auto simp: objects_ok_def stored_def list_all_iff)

lemma put_row_change:
  "put_row hash now obj (objects db) =
   (case lookup_object (o_CollectionID obj) (o_URI obj) db of
      Some x \<Rightarrow> map (\<lambda>r. if o_ID r = o_ID x then payload hash now obj r else r) (objects db)
    | None \<Rightarrow> objects db @ [(payload hash now obj obj)\<lparr>o_ID := next_id (map o_ID (objects db)), o_CreatedAt := now\<rparr>])"
  by (simp add: put_row_def lookup_object_def)

lemma PutObject_orphan:
  assumes "db_ok hash db" and "o_CollectionID obj \<notin> coll_ids db"
  shows "PutObject hash now obj db = (Inl ErrConstraint, db)"
proof -
  have "lookup_object (o_CollectionID obj) (o_URI obj) db = None"
    using assms lookup_object_stored [of "o_CollectionID obj" "o_URI obj" db] stored_cids
    unfolding db_ok_def by blast
  moreover have "\<not> list_ex (\<lambda>c. c_ID c = o_CollectionID obj) (collections db)"
    unfolding list_ex_iff using assms(2) by (metis imageI)
  ultimately show ?thesis
    by (simp add: PutObject_def lookup_object_def)
qed

lemma PutObject_same:
  assumes "lookup_object (o_CollectionID obj) (o_URI obj) db = Some x" and "ETagFor hash (o_Raw obj) = o_ETag x"
  shows "PutObject hash now obj db = (Inr x, db)"
  using assms by (simp add: PutObject_def ObjectByURI_def lookup_object_def)

lemma PutObject_change:
  fixes now :: int
  assumes ok: "db_ok hash db" and c: "c \<in> set (collections db)" "o_CollectionID obj = c_ID c"
    and new: "\<And>x. lookup_object (o_CollectionID obj) (o_URI obj) db = Some x \<Longrightarrow> ETagFor hash (o_Raw obj) \<noteq> o_ETag x"
  defines "t \<equiv> (if lookup_object (o_CollectionID obj) (o_URI obj) db = None then ChangeCreated else ChangeUpdated)"
  defines "db' \<equiv> recorded now c (o_URI obj) t (put_row hash now obj (objects db)) db"
  shows "PutObject hash now obj db = (ObjectByURI (c_ID c) (o_URI obj) db', db')" "db_ok hash db'"
proof -
  have xs: "objects_ok hash (coll_ids db) (put_row hash now obj (objects db))"
    using ok c by (intro objects_ok_put_row) (auto simp: db_ok_def)
  have keys: "stored (put_row hash now obj (objects db)) = insert (c_ID c, o_URI obj) (stored (objects db))"
    using c(2) by (simp add: stored_put_row)
  note r = recorded_ok [OF ok c(1) xs, of t "o_URI obj" now]
  show "db_ok hash db'" using r(1) keys by (simp add: db'_def t_def)
  have rec: "recordChange (c_ID c) (o_URI obj) t now (db\<lparr>objects := put_row hash now obj (objects db)\<rparr>) = Inr db'"
    using r(2) keys by (simp add: db'_def t_def)
  have "list_ex (\<lambda>x. c_ID x = c_ID c) (collections db)" using c(1) by (auto simp: list_ex_iff)
  then show "PutObject hash now obj db = (ObjectByURI (c_ID c) (o_URI obj) db', db')"
    using rec new c(2)
    by (cases "lookup_object (o_CollectionID obj) (o_URI obj) db")
      (auto simp: PutObject_def put_row_def lookup_object_def t_def Let_def)
qed

lemma PutObject_ok: "db_ok hash db \<Longrightarrow> db_ok hash (snd (PutObject hash now obj db))"
proof -
  assume ok: "db_ok hash db"
  consider "o_CollectionID obj \<notin> coll_ids db"
    | x where "lookup_object (o_CollectionID obj) (o_URI obj) db = Some x" "ETagFor hash (o_Raw obj) = o_ETag x"
    | c where "c \<in> set (collections db)" "o_CollectionID obj = c_ID c"
        "\<And>x. lookup_object (o_CollectionID obj) (o_URI obj) db = Some x \<Longrightarrow> ETagFor hash (o_Raw obj) \<noteq> o_ETag x"
    by blast
  then show ?thesis
  proof cases
    case 1 then show ?thesis using PutObject_orphan [OF ok] ok by simp
  next
    case 2 then show ?thesis using PutObject_same ok by (metis snd_conv)
  next
    case 3 then show ?thesis using PutObject_change [OF ok 3(1,2)] by (metis snd_conv)
  qed
qed

lemma DeleteObject_change:
  fixes now :: int
  assumes ok: "db_ok hash db" and c: "c \<in> set (collections db)"
    and x: "lookup_object (c_ID c) uri db \<noteq> None"
  defines "db' \<equiv> recorded now c uri ChangeDeleted
      (filter (\<lambda>x. \<not> (o_CollectionID x = c_ID c \<and> o_URI x = uri)) (objects db)) db"
  shows "DeleteObject now (c_ID c) uri db = (Inr (), db')" "db_ok hash db'"
proof -
  let ?xs = "filter (\<lambda>x. \<not> (o_CollectionID x = c_ID c \<and> o_URI x = uri)) (objects db)"
  have "objects_ok hash (coll_ids db) ?xs"
    using ok by (auto simp: db_ok_def objects_ok_def distinct_map_filter_of list_all_iff)
  moreover have "stored ?xs = stored (objects db) - {(c_ID c, uri)}" by (auto simp: stored_def)
  ultimately have r: "db_ok hash db'" "recordChange (c_ID c) uri ChangeDeleted now (db\<lparr>objects := ?xs\<rparr>) = Inr db'"
    using recorded_ok [OF ok c, of ?xs ChangeDeleted uri now] by (simp_all add: db'_def)
  have "checkAffected (length (filter (\<lambda>x. o_CollectionID x = c_ID c \<and> o_URI x = uri) (objects db))) = Inr ()"
    using x by (auto simp: checkAffected_Inr lookup_object_def find_Some_iff)
  then show "DeleteObject now (c_ID c) uri db = (Inr (), db')" using r(2) by (simp add: DeleteObject_def)
  show "db_ok hash db'" using r(1) .
qed

lemma DeleteObject_missing: "lookup_object cid uri db = None \<Longrightarrow> DeleteObject now cid uri db = (Inl ErrNotFound, db)"
proof -
  assume "lookup_object cid uri db = None"
  then have "checkAffected (length (filter (\<lambda>x. o_CollectionID x = cid \<and> o_URI x = uri) (objects db))) = Inl ErrNotFound"
    by (auto simp: lookup_object_def find_None_iff checkAffected_def filter_empty_conv)
  then show ?thesis by (simp add: DeleteObject_def)
qed

lemma DeleteObject_ok: "db_ok hash db \<Longrightarrow> db_ok hash (snd (DeleteObject now cid uri db))"
proof (cases "lookup_object cid uri db")
  case (Some x)
  assume ok: "db_ok hash db"
  then obtain c where c: "c \<in> set (collections db)" "cid = c_ID c"
    using lookup_object_stored [of cid uri db] Some stored_cids [of hash "coll_ids db" "objects db" cid uri]
    by (auto simp: db_ok_def)
  then show ?thesis using DeleteObject_change [OF ok c(1), of uri now] Some by simp
qed (simp add: DeleteObject_missing)

end
