(* ===== verification/Storage_Trace.thy ===== *)
theory Storage_Trace
  imports Storage_Facts
begin

text \<open>
  The storage package as a state machine: \<open>db_op\<close> names every operation that writes, \<open>exec\<close> runs
  one. Every run from the empty database keeps the integrity of \<open>Storage_Facts\<close>; and a client
  that knows a collection at some point of a run is brought up to date by the changes recorded
  since.
\<close>

datatype db_op =
    OpCreateUser int user
  | OpUpdateUser int user
  | OpSetPassword int int string
  | OpDeleteUser int
  | OpEnsureAdmin int string string
  | OpCreateCollection int collection
  | OpUpdateCollection int collection
  | OpDeleteCollection int
  | OpPut int object
  | OpDelete int int string
  | OpCreateSession session
  | OpSessionByToken int string
  | OpDeleteSession string
  | OpDeleteUserSessions int
  | OpDeleteExpiredSessions int

fun exec :: "(string \<Rightarrow> string) \<Rightarrow> db_op \<Rightarrow> db \<Rightarrow> db" where
  "exec hash (OpCreateUser now u) db = snd (CreateUser now u db)"
| "exec hash (OpUpdateUser now u) db = snd (UpdateUser now u db)"
| "exec hash (OpSetPassword now i h) db = snd (SetPassword now i h db)"
| "exec hash (OpDeleteUser i) db = snd (DeleteUser i db)"
| "exec hash (OpEnsureAdmin now n h) db = snd (EnsureAdmin now n h db)"
| "exec hash (OpCreateCollection now c) db = snd (CreateCollection now c db)"
| "exec hash (OpUpdateCollection now c) db = snd (UpdateCollection now c db)"
| "exec hash (OpDeleteCollection i) db = snd (DeleteCollection i db)"
| "exec hash (OpPut now obj) db = snd (PutObject hash now obj db)"
| "exec hash (OpDelete now cid uri) db = snd (DeleteObject now cid uri db)"
| "exec hash (OpCreateSession s) db = snd (CreateSession s db)"
| "exec hash (OpSessionByToken now t) db = snd (SessionByToken now t db)"
| "exec hash (OpDeleteSession t) db = snd (DeleteSession t db)"
| "exec hash (OpDeleteUserSessions i) db = DeleteUserSessions i db"
| "exec hash (OpDeleteExpiredSessions now) db = snd (DeleteExpiredSessions now db)"

definition run :: "(string \<Rightarrow> string) \<Rightarrow> db_op list \<Rightarrow> db \<Rightarrow> db" where
  "run hash ops db = foldl (\<lambda>d op. exec hash op d) db ops"

lemmas op_ok = CreateUser_ok UpdateUser_ok SetPassword_ok DeleteUser_ok EnsureAdmin_ok CreateCollection_ok
  UpdateCollection_ok DeleteCollection_ok PutObject_ok DeleteObject_ok session_ops_ok SessionByToken_ok

lemma exec_ok: "db_ok hash db \<Longrightarrow> db_ok hash (exec hash op db)"
  by (cases op) (simp_all add: op_ok)

lemma run_ok: "db_ok hash db \<Longrightarrow> db_ok hash (run hash ops db)"
  unfolding run_def by (induction ops arbitrary: db) (simp_all add: exec_ok)

text \<open>
  C7. Integrity: whatever operations run, in whatever order and failing or not, the database keeps
  unique ids, user names (up to case) and URIs, no row refers to a row that is gone, every ETag is
  the hash of its object's bytes, every ctag is its collection's sync sequence, and the change log
  holds exactly one row per URI ever stored, numbered apart and up to the sequence, that says
  deleted iff the object is gone.
\<close>

theorem storage_integrity: "db_ok hash (run hash ops empty_db)"
  using run_ok [OF db_ok_empty] .

section \<open>The change log brings a client up to date\<close>

text \<open>What a client mirrors of a collection: the ETag behind each URI.\<close>

definition contents :: "int \<Rightarrow> db \<Rightarrow> string \<rightharpoonup> string" where
  "contents cid db uri = map_option o_ETag (lookup_object cid uri db)"

definition changed_since :: "int \<Rightarrow> int \<Rightarrow> string \<Rightarrow> db \<Rightarrow> bool" where
  "changed_since cid n uri db = list_ex (\<lambda>r. ch_CollectionID r = cid \<and> ch_URI r = uri \<and> ch_Seq r > n) (object_changes db)"

definition seq_of :: "int \<Rightarrow> db \<Rightarrow> int option" where
  "seq_of cid db = map_option c_SyncSeq (List.find (\<lambda>c. c_ID c = cid) (collections db))"

definition owner_of :: "int \<Rightarrow> db \<Rightarrow> int option" where
  "owner_of cid db = map_option c_OwnerID (List.find (\<lambda>c. c_ID c = cid) (collections db))"

text \<open>One step of a run as this collection sees it: the sequence never goes back, and a URI not in the log since is as it was.\<close>

definition advances :: "int \<Rightarrow> db \<Rightarrow> db \<Rightarrow> bool" where
  "advances cid db db' =
     (\<exists>n n'. seq_of cid db = Some n \<and> seq_of cid db' = Some n' \<and> n \<le> n' \<and> owner_of cid db' = owner_of cid db \<and>
        (\<forall>m uri. m \<le> n \<longrightarrow> \<not> changed_since cid m uri db' \<longrightarrow>
           \<not> changed_since cid m uri db \<and> contents cid db' uri = contents cid db uri))"

definition keeps_collection :: "int \<Rightarrow> int \<Rightarrow> db_op \<Rightarrow> bool" where
  "keeps_collection cid owner op = (op \<noteq> OpDeleteCollection cid \<and> op \<noteq> OpDeleteUser owner)"

lemma advances_refl: "seq_of cid db \<noteq> None \<Longrightarrow> advances cid db db"
  by (auto simp: advances_def)

lemma advances_trans: "advances cid a b \<Longrightarrow> advances cid b c \<Longrightarrow> advances cid a c"
  unfolding advances_def by (smt (verit, del_insts) option.inject order_trans)

lemma advances_same:
  "seq_of cid db' = seq_of cid db \<Longrightarrow> owner_of cid db' = owner_of cid db \<Longrightarrow> seq_of cid db \<noteq> None \<Longrightarrow>
   objects db' = objects db \<Longrightarrow> object_changes db' = object_changes db \<Longrightarrow> advances cid db db'"
  by (auto simp: advances_def contents_def lookup_object_def changed_since_def)

lemma seq_of_collections:
  "collections db' = collections db \<Longrightarrow> seq_of cid db' = seq_of cid db \<and> owner_of cid db' = owner_of cid db"
  by (simp add: seq_of_def owner_of_def)

lemma find_map_same:
  "(\<And>x. P (f x) = P x) \<Longrightarrow> (\<And>x. g (f x) = g x) \<Longrightarrow>
   map_option g (List.find P (map f xs)) = map_option g (List.find P xs)"
  by (induction xs) auto

lemma recorded_advances:
  assumes ok: "db_ok hash db" and c: "c \<in> set (collections db)" and s: "seq_of cid db \<noteq> None"
    and other: "\<And>k uri'. (k, uri') \<noteq> (c_ID c, uri) \<Longrightarrow>
      contents k (db\<lparr>objects := xs\<rparr>) uri' = contents k db uri'"
  shows "advances cid db (recorded now c uri t xs db)"
proof -
  let ?db = "recorded now c uri t xs db"
  obtain d where d: "List.find (\<lambda>c. c_ID c = cid) (collections db) = Some d" using s by (auto simp: seq_of_def)
  have d': "List.find (\<lambda>c. c_ID c = cid) (collections ?db) = Some (bump (c_ID c) now d)"
  proof -
    have "List.find (\<lambda>c. c_ID c = cid) (map (bump (c_ID c) now) cs) =
        map_option (bump (c_ID c) now) (List.find (\<lambda>c. c_ID c = cid) cs)" for cs
      by (induction cs) auto
    then show ?thesis using d by (simp add: recorded_def)
  qed
  have dist: "distinct (map c_ID (collections db))" using ok by (simp add: db_ok_def collections_ok_def)
  have dc: "d = c" if "c_ID c = cid"
    using find_SomeD [OF d] that c dist by (auto simp: distinct_map inj_on_def)
  have con: "contents k ?db u = contents k (db\<lparr>objects := xs\<rparr>) u" for k u
    by (simp add: contents_def lookup_object_def recorded_def)
  have "\<not> changed_since cid m u db \<and> contents cid ?db u = contents cid db u"
    if m: "m \<le> c_SyncSeq d" and no: "\<not> changed_since cid m u ?db" for m u
  proof (cases "c_ID c = cid \<and> u = uri")
    case True
    then have "changed_since cid m u ?db"
      using dc m by (auto simp: changed_since_def recorded_def list_ex_iff)
    then show ?thesis using no by simp
  next
    case False
    then have "changed_since cid m u db \<Longrightarrow> changed_since cid m u ?db"
      by (auto simp: changed_since_def recorded_def list_ex_iff prune_def)
    then show ?thesis using no con other [of cid u] False by auto
  qed
  then show ?thesis
    using d d' by (auto simp: advances_def seq_of_def owner_of_def)
qed

lemma find_filter: "(\<And>x. x \<in> set xs \<Longrightarrow> P x \<Longrightarrow> Q x) \<Longrightarrow> List.find P (filter Q xs) = List.find P xs"
  by (induction xs) auto

lemma find_app: "List.find P (xs @ ys) = (case List.find P xs of None \<Rightarrow> List.find P ys | Some x \<Rightarrow> Some x)"
  by (induction xs) auto

lemma contents_filter:
  "(k, u) \<noteq> (cid, uri) \<Longrightarrow>
   contents k (db\<lparr>objects := filter (\<lambda>x. \<not> (o_CollectionID x = cid \<and> o_URI x = uri)) (objects db)\<rparr>) u = contents k db u"
  by (auto simp: contents_def lookup_object_def intro!: arg_cong [where f = "map_option _"] find_filter)

lemma contents_put_row:
  assumes ok: "objects_ok hash cids (objects db)" and ne: "(k, u) \<noteq> (o_CollectionID obj, o_URI obj)"
  shows "contents k (db\<lparr>objects := put_row hash now obj (objects db)\<rparr>) u = contents k db u"
proof (cases "List.find (\<lambda>x. o_CollectionID x = o_CollectionID obj \<and> o_URI x = o_URI obj) (objects db)")
  case None
  then show ?thesis
    using ne by (auto simp: put_row_def contents_def lookup_object_def find_app payload_def split: option.splits)
next
  case (Some x)
  note x = find_SomeD [OF Some]
  let ?f = "\<lambda>r. if o_ID r = o_ID x then payload hash now obj r else r"
  have inj: "r = x" if "r \<in> set (objects db)" "o_ID r = o_ID x" for r
    using that x ok by (auto simp: objects_ok_def distinct_map inj_on_def)
  have "map_option o_ETag (List.find (\<lambda>x. o_CollectionID x = k \<and> o_URI x = u) (map ?f xs)) =
        map_option o_ETag (List.find (\<lambda>x. o_CollectionID x = k \<and> o_URI x = u) xs)"
    if "set xs \<subseteq> set (objects db)" for xs
    using that
  proof (induction xs)
    case (Cons a xs)
    then have "o_ID a = o_ID x \<Longrightarrow> a = x" using inj by auto
    then show ?case using Cons x ne by auto
  qed simp
  then show ?thesis using Some by (simp add: put_row_def contents_def lookup_object_def)
qed

lemma PutObject_advances:
  assumes ok: "db_ok hash db" and s: "seq_of cid db \<noteq> None"
  shows "advances cid db (snd (PutObject hash now obj db))"
proof -
  consider "o_CollectionID obj \<notin> coll_ids db"
    | x where "lookup_object (o_CollectionID obj) (o_URI obj) db = Some x" "ETagFor hash (o_Raw obj) = o_ETag x"
    | c where "c \<in> set (collections db)" "o_CollectionID obj = c_ID c"
        "\<And>x. lookup_object (o_CollectionID obj) (o_URI obj) db = Some x \<Longrightarrow> ETagFor hash (o_Raw obj) \<noteq> o_ETag x"
    by blast
  then show ?thesis
  proof cases
    case 1 then show ?thesis using PutObject_orphan [OF ok] advances_refl [OF s] by simp
  next
    case 2 then show ?thesis using PutObject_same advances_refl [OF s] by (metis snd_conv)
  next
    case (3 c)
    have xs: "objects_ok hash (coll_ids db) (objects db)" using ok by (simp add: db_ok_def)
    show ?thesis
      using PutObject_change(1) [OF ok 3] recorded_advances [OF ok 3(1) s] contents_put_row [OF xs] 3(2) by simp
  qed
qed

lemma DeleteObject_advances:
  assumes ok: "db_ok hash db" and s: "seq_of cid db \<noteq> None"
  shows "advances cid db (snd (DeleteObject now k uri db))"
proof (cases "lookup_object k uri db")
  case None
  then show ?thesis using advances_refl [OF s] by (simp add: DeleteObject_missing)
next
  case (Some x)
  then obtain c where c: "c \<in> set (collections db)" "k = c_ID c"
    using lookup_object_stored [of k uri db] stored_cids [of hash "coll_ids db" "objects db" k uri] ok
    by (auto simp: db_ok_def)
  have "advances cid db (recorded now c uri ChangeDeleted
      (filter (\<lambda>x. \<not> (o_CollectionID x = c_ID c \<and> o_URI x = uri)) (objects db)) db)"
    using contents_filter by (intro recorded_advances [OF ok c(1) s]) auto
  then show ?thesis using DeleteObject_change(1) [OF ok c(1), of uri now] Some c(2) by simp
qed

lemma drop_advances:
  assumes ok: "db_ok hash db" and s: "seq_of cid db \<noteq> None"
    and keep: "\<And>c. c \<in> set (collections db) \<Longrightarrow> c_ID c = cid \<Longrightarrow> \<not> P c"
    and same: "collections db' = collections (drop_collections P db)" "objects db' = objects (drop_collections P db)"
      "object_changes db' = object_changes (drop_collections P db)"
  shows "advances cid db db'"
proof -
  have f: "List.find (\<lambda>c. c_ID c = cid) (filter (\<lambda>c. \<not> P c) (collections db)) = List.find (\<lambda>c. c_ID c = cid) (collections db)"
    using keep by (intro find_filter) auto
  have "cid \<notin> set (map c_ID (filter P (collections db)))" using keep by auto
  then have "contents cid db' u = contents cid db u" "changed_since cid m u db' = changed_since cid m u db" for m u
    using same unfolding contents_def lookup_object_def changed_since_def drop_collections_def list_ex_iff Let_def
    by (auto intro!: arg_cong [where f = "map_option _"] find_filter)
  then show ?thesis
    using s f same by (auto simp: advances_def seq_of_def owner_of_def drop_collections_def Let_def)
qed

lemma exec_advances:
  assumes ok: "db_ok hash db" and s: "seq_of cid db \<noteq> None" and own: "owner_of cid db = Some owner"
    and keep: "keeps_collection cid owner op"
  shows "advances cid db (exec hash op db)"
proof (cases op)
  case (OpPut now obj) then show ?thesis using PutObject_advances [OF ok s] by simp
next
  case (OpDelete now k u) then show ?thesis using DeleteObject_advances [OF ok s] by simp
next
  case (OpDeleteCollection i)
  then have "i \<noteq> cid" using keep by (simp add: keeps_collection_def)
  then show ?thesis using OpDeleteCollection
    by (intro drop_advances [OF ok s, of "\<lambda>c. c_ID c = i"]) (auto simp: DeleteCollection_def)
next
  case (OpDeleteUser i)
  then have i: "i \<noteq> owner" using keep by (simp add: keeps_collection_def)
  have dist: "distinct (map c_ID (collections db))" using ok by (simp add: db_ok_def collections_ok_def)
  obtain d where d: "List.find (\<lambda>c. c_ID c = cid) (collections db) = Some d" "c_OwnerID d = owner"
    using own by (auto simp: owner_of_def)
  have "\<not> c_OwnerID c = i" if "c \<in> set (collections db)" "c_ID c = cid" for c
    using find_SomeD [OF d(1)] that dist d(2) i by (auto simp: distinct_map inj_on_def)
  then show ?thesis
    using OpDeleteUser advances_refl [OF s]
    by (cases "checkAffected (length (filter (\<lambda>r. u_ID r = i) (users db)))")
      (auto simp: DeleteUser_def intro!: drop_advances [OF ok s, of "\<lambda>c. c_OwnerID c = i"])
next
  case (OpCreateCollection now c)
  have new: "List.find (\<lambda>c. c_ID c = cid) (collections db @ [x]) = List.find (\<lambda>c. c_ID c = cid) (collections db)" for x
    using s by (auto simp: find_app seq_of_def split: option.splits)
  then show ?thesis
    using OpCreateCollection s
    by (intro advances_same) (auto simp: CreateCollection_def Let_def seq_of_def owner_of_def)
next
  case (OpUpdateCollection now c)
  have "seq_of cid (exec hash op db) = seq_of cid db" "owner_of cid (exec hash op db) = owner_of cid db"
    using OpUpdateCollection by (simp_all add: seq_of_def owner_of_def UpdateCollection_def find_map_same)
  then show ?thesis
    using OpUpdateCollection s by (intro advances_same) (auto simp: UpdateCollection_def)
qed (use s in \<open>auto simp: CreateUser_def UpdateUser_def SetPassword_def EnsureAdmin_def CreateSession_def
      DeleteSession_def DeleteUserSessions_def DeleteExpiredSessions_def SessionByToken_def Let_def seq_of_def owner_of_def
      split: sum.splits serror.splits option.splits prod.splits intro!: advances_same\<close>)

lemma advances_seq_of: "advances cid a b \<Longrightarrow> seq_of cid b \<noteq> None \<and> owner_of cid b = owner_of cid a"
  by (auto simp: advances_def)

lemma run_advances:
  "db_ok hash db \<Longrightarrow> seq_of cid db \<noteq> None \<Longrightarrow> owner_of cid db = Some owner \<Longrightarrow>
   list_all (keeps_collection cid owner) ops \<Longrightarrow> advances cid db (run hash ops db)"
proof (induction ops arbitrary: db)
  case Nil
  then show ?case by (simp add: run_def advances_refl)
next
  case (Cons op ops)
  have a: "advances cid db (exec hash op db)" using exec_advances Cons.prems by simp
  have "advances cid (exec hash op db) (run hash ops (exec hash op db))"
    using Cons.IH [of "exec hash op db"] Cons.prems advances_seq_of [OF a] exec_ok by simp
  then show ?case using advances_trans [OF a] by (simp add: run_def)
qed

text \<open>
  What a client does with the changes: it forgets what was deleted and fetches the rest anew from
  the server, whose contents are \<open>fresh\<close>.
\<close>

definition apply_change :: "(string \<rightharpoonup> string) \<Rightarrow> (string \<rightharpoonup> string) \<Rightarrow> Change \<Rightarrow> (string \<rightharpoonup> string)" where
  "apply_change fresh m ch =
     (if Change_Type ch = ChangeDeleted then m(Change_URI ch := None) else m(Change_URI ch := fresh (Change_URI ch)))"

lemma apply_changes_at:
  assumes "\<And>ch. ch \<in> set chs \<Longrightarrow> Change_Type ch = ChangeDeleted \<Longrightarrow> fresh (Change_URI ch) = None"
  shows "foldl (apply_change fresh) m chs u = (if u \<in> Change_URI ` set chs then fresh u else m u)"
  using assms by (induction chs arbitrary: m) (auto simp: apply_change_def)

lemma seq_of_CollectionByID: "seq_of cid db = Some n \<longleftrightarrow> (\<exists>c. CollectionByID cid db = Inr c \<and> c_SyncSeq c = n)"
  by (auto simp: seq_of_def CollectionByID_def split: option.splits)

lemma deleted_is_gone:
  assumes ok: "db_ok hash db" and r: "r \<in> set (object_changes db)" "ch_Type r = ChangeDeleted"
  shows "contents (ch_CollectionID r) db (ch_URI r) = None"
proof -
  have "(ch_CollectionID r, ch_URI r) \<notin> live (object_changes db)"
    using ok r by (auto simp: db_ok_def live_def changes_ok_def distinct_map inj_on_def)
  then show ?thesis
    using ok lookup_object_stored [of "ch_CollectionID r" "ch_URI r" db] by (auto simp: db_ok_def contents_def)
qed

lemma ChangesSince_sound:
  assumes ok: "db_ok hash db" and q: "ChangesSince cid n db = Inr (chs, n')"
  shows "Change_URI ` set chs = {u. changed_since cid n u db}"
    and "ch \<in> set chs \<Longrightarrow> Change_Type ch = ChangeDeleted \<Longrightarrow> contents cid db (Change_URI ch) = None"
    and "seq_of cid db = Some n'"
  using q deleted_is_gone [OF ok]
  by (auto simp: ChangesSince_def changed_since_def list_ex_iff seq_of_CollectionByID image_image
      split: sum.splits) blast

lemma changes_since_complete:
  assumes ok: "db_ok hash db" and col: "CollectionByID cid db = Inr c" and n: "n \<le> c_SyncSeq c"
    and keep: "list_all (keeps_collection cid (c_OwnerID c)) ops"
    and mirror: "\<And>u. \<not> changed_since cid n u db \<Longrightarrow> m u = contents cid db u"
    and q: "ChangesSince cid n (run hash ops db) = Inr (chs, n')"
  shows "foldl (apply_change (contents cid (run hash ops db))) m chs = contents cid (run hash ops db)"
proof
  fix u
  let ?db = "run hash ops db"
  have s: "seq_of cid db = Some (c_SyncSeq c)" "owner_of cid db = Some (c_OwnerID c)"
    using col by (auto simp: seq_of_def owner_of_def CollectionByID_def split: option.splits)
  have adv: "advances cid db ?db" using run_advances [OF ok _ s(2) keep] s(1) by simp
  note cs = ChangesSince_sound [OF run_ok [OF ok, of ops] q]
  have "foldl (apply_change (contents cid ?db)) m chs u = (if changed_since cid n u ?db then contents cid ?db u else m u)"
    using apply_changes_at [of chs "contents cid ?db" m u] cs(1,2) by auto
  moreover have "contents cid ?db u = m u" if "\<not> changed_since cid n u ?db"
    using adv s(1) n that mirror [of u] by (auto simp: advances_def)
  ultimately show "foldl (apply_change (contents cid ?db)) m chs u = contents cid ?db u" by simp
qed

text \<open>
  A client that held a collection as it was at its sequence \<open>n\<close>, and applies what
  \<open>ChangesSince\<close> reports after any further operations (on any collection, user or session, as
  long as the collection itself is not deleted), holds exactly what the server holds; and the
  sequence reported with them is again the collection's.
\<close>

theorem changes_since_brings_up_to_date:
  assumes "db_ok hash db" and "CollectionByID cid db = Inr c"
    and "list_all (keeps_collection cid (c_OwnerID c)) ops"
    and "ChangesSince cid (c_SyncSeq c) (run hash ops db) = Inr (chs, n')"
  shows "foldl (apply_change (contents cid (run hash ops db))) (contents cid db) chs = contents cid (run hash ops db) \<and>
    seq_of cid (run hash ops db) = Some n' \<and> c_SyncSeq c \<le> n'"
proof -
  have s: "seq_of cid db = Some (c_SyncSeq c)" "owner_of cid db = Some (c_OwnerID c)"
    using assms(2) by (auto simp: seq_of_def owner_of_def CollectionByID_def split: option.splits)
  have "advances cid db (run hash ops db)" using run_advances [OF assms(1) _ s(2) assms(3)] s(1) by simp
  moreover have "seq_of cid (run hash ops db) = Some n'"
    using ChangesSince_sound(3) [OF run_ok [OF assms(1), of ops] assms(4)] .
  ultimately show ?thesis
    using changes_since_complete [OF assms(1,2) order_refl assms(3) refl assms(4)] s(1) by (auto simp: advances_def)
qed

text \<open>A small run for the witnesses: a user, a calendar, two objects of which one is rewritten.\<close>

definition sample_user :: user where
  "sample_user = \<lparr>u_ID = 0, u_Username = ''ada'', u_DisplayName = [], u_Email = [], u_PasswordHash = ''h'',
     u_IsAdmin = False, u_CreatedAt = 0, u_UpdatedAt = 0\<rparr>"

definition sample_collection :: collection where
  "sample_collection = \<lparr>c_ID = 0, c_OwnerID = 1, c_Type = CollectionCalendar, c_URI = ''work'', c_DisplayName = [],
     c_Description = [], c_Color = [], c_Timezone = [], c_CTag = [], c_SyncSeq = 0, c_CreatedAt = 0, c_UpdatedAt = 0\<rparr>"

definition sample_object :: "string \<Rightarrow> string \<Rightarrow> object" where
  "sample_object uri raw = \<lparr>o_ID = 0, o_CollectionID = 1, o_URI = uri, o_ETag = [], o_Raw = raw, o_UID = uri,
     o_ComponentType = ''VEVENT'', o_DisplayName = [], o_StartAt = Some 10, o_EndAt = Some 20, o_Recurring = False,
     o_CreatedAt = 0, o_UpdatedAt = 0\<rparr>"

definition sample_db :: db where
  "sample_db = run (\<lambda>s. s) [OpCreateUser 5 sample_user, OpCreateCollection 6 sample_collection,
     OpPut 7 (sample_object ''a.ics'' ''A1''), OpPut 8 (sample_object ''b.ics'' ''B1'')] empty_db"

definition sample_ops :: "db_op list" where
  "sample_ops = [OpPut 9 (sample_object ''a.ics'' ''A2''), OpDelete 10 1 ''b.ics'', OpPut 11 (sample_object ''c.ics'' ''C1'')]"

theorem changes_since_brings_up_to_date_witness:
  "(case ChangesSince 1 2 (run (\<lambda>s. s) sample_ops sample_db) of
      Inl _ \<Rightarrow> False
    | Inr (chs, n') \<Rightarrow> length chs = 3 \<and> n' = 5 \<and>
        foldl (apply_change (contents 1 (run (\<lambda>s. s) sample_ops sample_db))) (contents 1 sample_db) chs =
        contents 1 (run (\<lambda>s. s) sample_ops sample_db))"
proof -
  obtain c where c: "CollectionByID 1 sample_db = Inr c" "c_SyncSeq c = 2" "c_OwnerID c = 1"
  proof -
    have "(case CollectionByID 1 sample_db of Inl _ \<Rightarrow> False | Inr c \<Rightarrow> c_SyncSeq c = 2 \<and> c_OwnerID c = 1)"
      by code_simp
    then show ?thesis using that by (auto split: sum.splits)
  qed
  obtain chs where q: "ChangesSince 1 2 (run (\<lambda>s. s) sample_ops sample_db) = Inr (chs, 5)" "length chs = 3"
  proof -
    have "(case ChangesSince 1 2 (run (\<lambda>s. s) sample_ops sample_db) of
        Inl _ \<Rightarrow> False | Inr (chs, n) \<Rightarrow> length chs = 3 \<and> n = 5)" by code_simp
    then show ?thesis using that by (auto split: sum.splits)
  qed
  have "db_ok (\<lambda>s. s) sample_db" unfolding sample_db_def using run_ok [OF db_ok_empty] .
  moreover have "list_all (keeps_collection 1 (c_OwnerID c)) sample_ops"
    unfolding c(3) by code_simp
  ultimately show ?thesis
    using changes_since_brings_up_to_date [OF _ c(1)] c(2) q by simp
qed

end
