(* ===== verification/Storage_Queries.thy ===== *)
theory Storage_Queries
  imports Storage_Trace
begin

text \<open>
  What the operations of the storage package answer: a write and what it leaves for the next read,
  the search of the administration pages, the accounts and the sessions.
\<close>

section \<open>Writes\<close>

lemma put_row_at_key:
  assumes ok: "objects_ok hash cids xs" and x: "x \<in> set (put_row hash now obj xs)"
    and key: "o_CollectionID x = o_CollectionID obj" "o_URI x = o_URI obj"
  shows "o_ETag x = ETagFor hash (o_Raw obj) \<and> o_Raw x = o_Raw obj"
proof (cases "List.find (\<lambda>x. o_CollectionID x = o_CollectionID obj \<and> o_URI x = o_URI obj) xs")
  case None
  have "x \<notin> set xs" using find_NoneD [OF None] key by blast
  moreover have "set (put_row hash now obj xs) =
      insert ((payload hash now obj obj)\<lparr>o_ID := next_id (map o_ID xs), o_CreatedAt := now\<rparr>) (set xs)"
    unfolding put_row_def None option.case by simp
  ultimately have "x = (payload hash now obj obj)\<lparr>o_ID := next_id (map o_ID xs), o_CreatedAt := now\<rparr>"
    using x by blast
  then show ?thesis by simp
next
  case (Some y)
  note y = find_SomeD [OF Some]
  have inj: "z = y" if "z \<in> set xs" "o_CollectionID z = o_CollectionID obj" "o_URI z = o_URI obj" for z
    using that y ok by (auto simp: objects_ok_def distinct_map inj_on_def)
  obtain z where "z \<in> set xs" "x = (if o_ID z = o_ID y then payload hash now obj z else z)"
    using x Some by (auto simp: put_row_def)
  then show ?thesis using inj [of z] key by (auto split: if_splits)
qed

lemma lookup_put_row:
  assumes ok: "objects_ok hash cids (objects db)"
  shows "\<exists>x. lookup_object (o_CollectionID obj) (o_URI obj) (db\<lparr>objects := put_row hash now obj (objects db)\<rparr>) = Some x \<and>
    o_ETag x = ETagFor hash (o_Raw obj) \<and> o_Raw x = o_Raw obj"
proof -
  let ?xs = "put_row hash now obj (objects db)"
  have "(o_CollectionID obj, o_URI obj) \<in> stored ?xs" by (simp add: stored_put_row)
  then obtain x where x: "lookup_object (o_CollectionID obj) (o_URI obj) (db\<lparr>objects := ?xs\<rparr>) = Some x"
    using lookup_object_stored [of "o_CollectionID obj" "o_URI obj" "db\<lparr>objects := ?xs\<rparr>"] by auto
  then have "x \<in> set ?xs" "o_CollectionID x = o_CollectionID obj" "o_URI x = o_URI obj"
    using find_SomeD [of _ ?xs x] by (auto simp: lookup_object_def)
  then show ?thesis using x put_row_at_key [OF ok] by blast
qed

lemma seq_of_find: "db_ok hash db \<Longrightarrow> c \<in> set (collections db) \<Longrightarrow> seq_of (c_ID c) db = Some (c_SyncSeq c)"
  using find_unique [of c_ID "collections db" c "\<lambda>x. c_ID x = c_ID c"]
  by (simp add: db_ok_def collections_ok_def seq_of_def)

lemma seq_of_recorded:
  "seq_of (c_ID c) db = Some n \<Longrightarrow> seq_of (c_ID c) (recorded now c uri t xs db) = Some (n + 1)"
proof -
  have "List.find (\<lambda>x. c_ID x = c_ID c) (map (bump (c_ID c) now) cs) =
      map_option (bump (c_ID c) now) (List.find (\<lambda>x. c_ID x = c_ID c) cs)" for cs
    by (induction cs) auto
  moreover assume "seq_of (c_ID c) db = Some n"
  ultimately show ?thesis by (auto simp: seq_of_def recorded_def dest: find_SomeD)
qed

lemma lookup_recorded: "lookup_object k u (recorded now c uri t xs db) = lookup_object k u (db\<lparr>objects := xs\<rparr>)"
  by (simp add: lookup_object_def recorded_def)

lemma contents_recorded: "contents k (recorded now c uri t xs db) u = contents k (db\<lparr>objects := xs\<rparr>) u"
  by (simp add: contents_def lookup_recorded)

lemma put_object_stores:
  assumes "db_ok hash db" and "c \<in> set (collections db)" and "o_CollectionID obj = c_ID c"
    and "PutObject hash now obj db = (r, db')"
  shows "(\<exists>x. r = Inr x \<and> ObjectByURI (c_ID c) (o_URI obj) db' = Inr x \<and> o_ETag x = ETagFor hash (o_Raw obj)) \<and>
    (\<forall>k u. contents k db' u = (if (k, u) = (c_ID c, o_URI obj) then Some (ETagFor hash (o_Raw obj)) else contents k db u)) \<and>
    seq_of (c_ID c) db' = Some (if contents (c_ID c) db (o_URI obj) = Some (ETagFor hash (o_Raw obj))
                                then c_SyncSeq c else c_SyncSeq c + 1)"
proof (cases "contents (c_ID c) db (o_URI obj) = Some (ETagFor hash (o_Raw obj))")
  case True
  then obtain x where x: "lookup_object (c_ID c) (o_URI obj) db = Some x" "o_ETag x = ETagFor hash (o_Raw obj)"
    by (auto simp: contents_def)
  then have "r = Inr x" "db' = db" using PutObject_same [of obj db x hash now] assms(3,4) by simp_all
  then show ?thesis
    using x True assms(3) seq_of_find [OF assms(1,2)] by (auto simp: ObjectByURI_lookup contents_def)
next
  case False
  let ?t = "if lookup_object (o_CollectionID obj) (o_URI obj) db = None then ChangeCreated else ChangeUpdated"
  let ?xs = "put_row hash now obj (objects db)"
  have new: "ETagFor hash (o_Raw obj) \<noteq> o_ETag x"
    if "lookup_object (o_CollectionID obj) (o_URI obj) db = Some x" for x
    using False that assms(3) by (auto simp: contents_def)
  have put: "r = ObjectByURI (c_ID c) (o_URI obj) db'" "db' = recorded now c (o_URI obj) ?t ?xs db"
    using PutObject_change(1) [OF assms(1-3) new, of now] assms(4) by auto
  have ok: "objects_ok hash (coll_ids db) (objects db)" using assms(1) by (simp add: db_ok_def)
  obtain x where x: "lookup_object (c_ID c) (o_URI obj) db' = Some x" "o_ETag x = ETagFor hash (o_Raw obj)"
    using lookup_put_row [OF ok, of obj now] put(2) assms(3) by (auto simp: lookup_recorded)
  have "contents k db' u = (if (k, u) = (c_ID c, o_URI obj) then Some (ETagFor hash (o_Raw obj)) else contents k db u)" for k u
  proof (cases "(k, u) = (c_ID c, o_URI obj)")
    case True
    then show ?thesis using x by (simp add: contents_def)
  next
    case other: False
    then show ?thesis using contents_put_row [OF ok, of k u obj now] put(2) assms(3) by (auto simp: contents_recorded)
  qed
  then show ?thesis
    using x put False seq_of_recorded [OF seq_of_find [OF assms(1,2)]] by (auto simp: ObjectByURI_lookup)
qed

text \<open>
  Storing an object in an existing collection succeeds; the URI then holds the ETag of the
  bytes that were sent and every other object of every collection is as it was; the sync sequence
  moves by one exactly when the ETag changed.
\<close>

theorem put_object_effect:
  assumes "db_ok hash db" and "c \<in> set (collections db)" and "o_CollectionID obj = c_ID c"
    and "PutObject hash now obj db = (r, db')"
  shows "(\<exists>x. r = Inr x \<and> ObjectByURI (c_ID c) (o_URI obj) db' = Inr x \<and> o_ETag x = ETagFor hash (o_Raw obj)) \<and>
    (\<forall>k u. contents k db' u = (if (k, u) = (c_ID c, o_URI obj) then Some (ETagFor hash (o_Raw obj)) else contents k db u)) \<and>
    seq_of (c_ID c) db' = Some (if contents (c_ID c) db (o_URI obj) = Some (ETagFor hash (o_Raw obj))
                                then c_SyncSeq c else c_SyncSeq c + 1)"
  by (rule put_object_stores [OF assms])

lemma sample_db_ok: "db_ok (\<lambda>s. s) sample_db"
  unfolding sample_db_def using run_ok [OF db_ok_empty] .

theorem put_object_effect_witness:
  "contents 1 (snd (PutObject (\<lambda>s. s) 9 (sample_object ''a.ics'' ''A2'') sample_db)) ''a.ics'' = Some ''A2'' \<and>
   seq_of 1 (snd (PutObject (\<lambda>s. s) 9 (sample_object ''a.ics'' ''A2'') sample_db)) = Some 3"
proof -
  let ?c = "hd (collections sample_db)" and ?o = "sample_object ''a.ics'' ''A2''"
  have c: "?c \<in> set (collections sample_db)" "c_ID ?c = 1" "c_SyncSeq ?c = 2"
    "contents 1 sample_db ''a.ics'' = Some ''A1''" by code_simp+
  have o: "o_CollectionID ?o = 1" "o_URI ?o = ''a.ics''" "o_Raw ?o = ''A2''" by (simp_all add: sample_object_def)
  obtain r db' where p: "PutObject (\<lambda>s. s) 9 ?o sample_db = (r, db')" by fastforce
  have o1: "o_CollectionID ?o = c_ID ?c" using c o by simp
  show ?thesis
    using put_object_effect [OF sample_db_ok c(1) o1 p] c o p by (simp add: ETagFor_def)
qed

lemma delete_object_removes:
  assumes "db_ok hash db" and "c \<in> set (collections db)" and "DeleteObject now (c_ID c) uri db = (r, db')"
  shows "if contents (c_ID c) db uri = None then r = Inl ErrNotFound \<and> db' = db
    else r = Inr () \<and> seq_of (c_ID c) db' = Some (c_SyncSeq c + 1) \<and>
      (\<forall>k u. contents k db' u = (if (k, u) = (c_ID c, uri) then None else contents k db u))"
proof (cases "lookup_object (c_ID c) uri db")
  case None
  then show ?thesis using DeleteObject_missing [OF None, of now] assms(3) by (simp add: contents_def)
next
  case (Some x)
  let ?xs = "filter (\<lambda>x. \<not> (o_CollectionID x = c_ID c \<and> o_URI x = uri)) (objects db)"
  have d: "r = Inr ()" "db' = recorded now c uri ChangeDeleted ?xs db"
    using DeleteObject_change(1) [OF assms(1,2), of uri now] Some assms(3) by auto
  have "contents k db' u = (if (k, u) = (c_ID c, uri) then None else contents k db u)" for k u
  proof (cases "(k, u) = (c_ID c, uri)")
    case True
    then show ?thesis using d(2) by (auto simp: contents_recorded) (simp add: contents_def lookup_object_def find_None_iff)
  next
    case False
    then show ?thesis using d(2) contents_filter [of k u "c_ID c" uri db] by (auto simp: contents_recorded)
  qed
  then show ?thesis
    using d Some seq_of_recorded [OF seq_of_find [OF assms(1,2)]] by (auto simp: contents_def)
qed

text \<open>
  Deleting an object that is there removes that URI and nothing else and moves the sync
  sequence by one; deleting one that is not there is the error \<open>ErrNotFound\<close> and changes nothing.
\<close>

theorem delete_object_effect:
  assumes "db_ok hash db" and "c \<in> set (collections db)" and "DeleteObject now (c_ID c) uri db = (r, db')"
  shows "if contents (c_ID c) db uri = None then r = Inl ErrNotFound \<and> db' = db
    else r = Inr () \<and> seq_of (c_ID c) db' = Some (c_SyncSeq c + 1) \<and>
      (\<forall>k u. contents k db' u = (if (k, u) = (c_ID c, uri) then None else contents k db u))"
  by (rule delete_object_removes [OF assms])

theorem delete_object_effect_witness:
  "contents 1 (snd (DeleteObject 9 1 ''a.ics'' sample_db)) ''b.ics'' = Some ''B1''"
proof -
  let ?c = "hd (collections sample_db)"
  have c: "?c \<in> set (collections sample_db)" "c_ID ?c = 1" "contents 1 sample_db ''a.ics'' = Some ''A1''"
    "contents 1 sample_db ''b.ics'' = Some ''B1''" by code_simp+
  obtain r db' where p: "DeleteObject 9 (c_ID ?c) ''a.ics'' sample_db = (r, db')" by fastforce
  show ?thesis using delete_object_effect [OF sample_db_ok c(1) p] c p by simp
qed

section \<open>Search\<close>

lemma escapeLike_Cons: "escapeLike (c # s) = escape_like_char c @ escapeLike s"
  by (simp add: escapeLike_def)

lemma ToLower_Cons: "ToLower (c # s) = lower_char c # ToLower s"
  by (simp add: ToLower_def)

lemma like_percent_end: "like (escapeLike q @ ''%'') s \<longleftrightarrow> HasPrefix (ToLower s) (ToLower q)"
proof (induction q arbitrary: s)
  case Nil
  then show ?case by (simp add: escapeLike_def ToLower_def)
next
  case (Cons c q)
  obtain d p where dp: "escapeLike q @ ''%'' = d # p" by (cases "escapeLike q @ ''%''") auto
  have "like (escapeLike (c # q) @ ''%'') s \<longleftrightarrow> s \<noteq> [] \<and> lower_char (hd s) = lower_char c \<and> like (escapeLike q @ ''%'') (tl s)"
    using dp by (auto simp: escapeLike_Cons escape_like_char_def)
  also have "\<dots> \<longleftrightarrow> HasPrefix (ToLower s) (ToLower (c # q))"
    unfolding Cons.IH by (cases s) (auto simp: HasPrefix_def ToLower_def)
  finally show ?case .
qed

lemma Contains_drop: "Contains s p \<longleftrightarrow> (\<exists>k \<le> length s. HasPrefix (drop k s) p)"
proof
  assume "Contains s p"
  then obtain a b where "s = a @ p @ b" by (auto simp: Contains_iff)
  then show "\<exists>k \<le> length s. HasPrefix (drop k s) p" by (intro exI [of _ "length a"]) auto
next
  assume "\<exists>k \<le> length s. HasPrefix (drop k s) p"
  then obtain k t where "drop k s = p @ t" by (auto simp: HasPrefix_iff)
  then have "s = take k s @ p @ t" by (metis append_take_drop_id)
  then show "Contains s p" by (auto simp: Contains_iff)
qed

lemma like_contains: "like (''%'' @ escapeLike q @ ''%'') s \<longleftrightarrow> Contains (ToLower s) (ToLower q)"
proof -
  obtain d p where dp: "escapeLike q @ ''%'' = d # p" by (cases "escapeLike q @ ''%''") auto
  have drop: "drop k (ToLower s) = ToLower (drop k s)" for k by (simp add: ToLower_def drop_map)
  have "like (''%'' @ escapeLike q @ ''%'') s \<longleftrightarrow> list_ex (\<lambda>k. like (escapeLike q @ ''%'') (drop k s)) [0..<Suc (length s)]"
    using dp by (simp add: numeral_eq_Suc)
  also have "\<dots> \<longleftrightarrow> Contains (ToLower s) (ToLower q)"
    unfolding Contains_drop like_percent_end list_ex_iff drop by (auto simp: ToLower_def less_Suc_eq_le simp del: upt_Suc)
  finally show ?thesis .
qed

text \<open>
  The search matches the text literally: an object is a hit iff its name or its URI contains the
  trimmed query, up to case, whatever \<open>%\<close>, \<open>_\<close> or backslash the query holds; the total counts all
  hits and the page is a slice of them sorted by name.
\<close>

theorem search_objects_literal:
  "SearchObjects cid query limit offset db =
    (let q = ToLower (TrimSpace query);
         hits = filter (\<lambda>x. o_CollectionID x = cid \<and>
                   (Contains (ToLower (o_DisplayName x)) q \<or> Contains (ToLower (o_URI x)) q)) (objects db)
     in (page limit offset (sort_key (\<lambda>x. (ToLower (o_DisplayName x), o_URI x)) hits), length hits))"
proof -
  have nil: "Contains s []" for s by (cases s) auto
  have "(o_CollectionID x = cid \<and> (TrimSpace query \<noteq> [] \<longrightarrow>
          like (''%'' @ escapeLike (TrimSpace query) @ ''%'') (o_DisplayName x) \<or>
          like (''%'' @ escapeLike (TrimSpace query) @ ''%'') (o_URI x))) =
        (o_CollectionID x = cid \<and> (Contains (ToLower (o_DisplayName x)) (ToLower (TrimSpace query)) \<or>
          Contains (ToLower (o_URI x)) (ToLower (TrimSpace query))))" for x :: object
    unfolding like_contains using nil by (cases "TrimSpace query = []") (auto simp: ToLower_def)
  then show ?thesis by (simp only: SearchObjects_def Let_def)
qed

end
