(* ===== verification/Sync.thy ===== *)
theory Sync
  imports Storage_Queries
begin

text \<open>
  \<open>internal/dav/sync.go\<close>: the sync tokens and the gathering of what changed since one. The client
  side of RFC 6578 is \<open>apply_sync\<close>: take the ETags of the updated members, forget the deleted ones.
\<close>

datatype sync_error = InvalidSyncToken string | SyncStorage serror

definition syncTokenPrefix :: string where
  "syncTokenPrefix = ''urn:edav:sync:''"

definition encodeSyncToken :: "int \<Rightarrow> string" where
  "encodeSyncToken seq = syncTokenPrefix @ FormatInt seq"

definition decodeSyncToken :: "string \<Rightarrow> int \<Rightarrow> sync_error + int" where
  "decodeSyncToken token current =
     (if token = [] then Inr 0
      else (case CutPrefix token syncTokenPrefix of
              None \<Rightarrow> Inl (InvalidSyncToken token)
            | Some digits \<Rightarrow>
                (case ParseInt digits of
                   None \<Rightarrow> Inl (InvalidSyncToken token)
                 | Some seq \<Rightarrow>
                     if seq < 0 then Inl (InvalidSyncToken token)
                     else if seq > current then Inl (InvalidSyncToken token)
                     else Inr seq)))"

record syncChanges =
  Updated :: "object list"
  Deleted :: "string list"
  Token :: string

text \<open>The loop over the changes; the limit counts what was gathered so far.\<close>

fun collect_loop :: "int \<Rightarrow> int \<Rightarrow> db \<Rightarrow> Change list \<Rightarrow> syncChanges \<Rightarrow> sync_error + syncChanges" where
  "collect_loop cid limit db [] out = Inr out"
| "collect_loop cid limit db (ch # chs) out =
     (if limit > 0 \<and> int (length (Updated out) + length (Deleted out)) \<ge> limit then Inr out
      else (case ObjectByURI cid (Change_URI ch) db of
              Inl ErrNotFound \<Rightarrow> collect_loop cid limit db chs (out\<lparr>Deleted := Deleted out @ [Change_URI ch]\<rparr>)
            | Inl e \<Rightarrow> Inl (SyncStorage e)
            | Inr obj \<Rightarrow> collect_loop cid limit db chs (out\<lparr>Updated := Updated out @ [obj]\<rparr>)))"

definition collectSync :: "collection \<Rightarrow> string \<Rightarrow> int \<Rightarrow> db \<Rightarrow> sync_error + syncChanges" where
  "collectSync c token limit db =
     (case decodeSyncToken token (c_SyncSeq c) of
        Inl e \<Rightarrow> Inl e
      | Inr since \<Rightarrow>
          (case ChangesSince (c_ID c) since db of
             Inl e \<Rightarrow> Inl (SyncStorage e)
           | Inr (changes, current) \<Rightarrow>
               collect_loop (c_ID c) limit db changes \<lparr>Updated = [], Deleted = [], Token = encodeSyncToken current\<rparr>))"

section \<open>Tokens\<close>

lemma decode_encode:
  "0 \<le> n \<Longrightarrow> n < 2 ^ 63 \<Longrightarrow>
   decodeSyncToken (encodeSyncToken n) current =
     (if n \<le> current then Inr n else Inl (InvalidSyncToken (encodeSyncToken n)))"
  by (simp add: decodeSyncToken_def encodeSyncToken_def ParseInt_FormatInt) (simp add: syncTokenPrefix_def)

interpretation sync_token: codec encodeSyncToken
    "\<lambda>t. case decodeSyncToken t (2 ^ 63) of Inr n \<Rightarrow> Some n | Inl _ \<Rightarrow> None" "\<lambda>n. 0 \<le> n \<and> n < 2 ^ 63"
  by unfold_locales (auto simp: decode_encode)

text \<open>
  A token the server issued decodes to the position it was issued for as long as the collection
  has reached it, and is refused as invalid when it has not; tokens of different positions differ;
  and a string without the server's prefix is refused whatever the collection.
\<close>

theorem sync_token_round_trip:
  assumes "0 \<le> n" and "n < 2 ^ 63" and "0 \<le> m" and "m < 2 ^ 63"
  shows "decodeSyncToken (encodeSyncToken n) current =
      (if n \<le> current then Inr n else Inl (InvalidSyncToken (encodeSyncToken n))) \<and>
    (encodeSyncToken n = encodeSyncToken m \<longleftrightarrow> n = m) \<and>
    (t \<noteq> [] \<longrightarrow> \<not> HasPrefix t syncTokenPrefix \<longrightarrow> decodeSyncToken t current = Inl (InvalidSyncToken t))"
  using decode_encode [OF assms(1,2)] sync_token.enc_eq_iff [of n m] assms
  by (auto simp: decodeSyncToken_def CutPrefix_def)

theorem sync_token_round_trip_witness: "decodeSyncToken ''urn:edav:sync:42'' 50 = Inr 42"
proof -
  have "encodeSyncToken 42 = ''urn:edav:sync:42''" by code_simp
  then show ?thesis using sync_token_round_trip [of 42 1 50 "[]"] by simp
qed

section \<open>Synchronising\<close>

definition apply_sync :: "(string \<rightharpoonup> string) \<Rightarrow> syncChanges \<Rightarrow> (string \<rightharpoonup> string)" where
  "apply_sync m r =
     foldl (\<lambda>m u. m(u := None)) (foldl (\<lambda>m x. m(o_URI x \<mapsto> o_ETag x)) m (Updated r)) (Deleted r)"

lemma foldl_delete: "foldl (\<lambda>m u. m(u := None)) m us v = (if v \<in> set us then None else m v)"
  by (induction us arbitrary: m) auto

lemma foldl_update:
  "(\<And>x. x \<in> set xs \<Longrightarrow> f (o_URI x) = Some (o_ETag x)) \<Longrightarrow>
   foldl (\<lambda>m x. m(o_URI x \<mapsto> o_ETag x)) m xs v = (if v \<in> o_URI ` set xs then f v else m v)"
  by (induction xs arbitrary: m) auto

lemma ObjectByURI_Inl: "ObjectByURI cid u db = Inl e \<Longrightarrow> e = ErrNotFound"
  by (auto simp: ObjectByURI_def split: option.splits)

text \<open>Without a limit the loop sorts every change by whether the object is there.\<close>

lemma collect_loop_all:
  assumes "limit \<le> 0"
  shows "collect_loop cid limit db chs out =
    Inr (out\<lparr>Updated := Updated out @ List.map_filter (\<lambda>ch. lookup_object cid (Change_URI ch) db) chs,
             Deleted := Deleted out @ map Change_URI (filter (\<lambda>ch. lookup_object cid (Change_URI ch) db = None) chs)\<rparr>)"
  using assms
  by (induction cid limit db chs out rule: collect_loop.induct)
    (auto simp: ObjectByURI_lookup List.map_filter_simps split: option.splits)

lemma lookup_uri: "lookup_object cid u db = Some x \<Longrightarrow> o_URI x = u"
  by (auto simp: lookup_object_def dest: find_SomeD)

lemma map_filter_mem: "y \<in> set (List.map_filter f xs) \<longleftrightarrow> (\<exists>x \<in> set xs. f x = Some y)"
  by (force simp: List.map_filter_def)

lemma apply_sync_at:
  assumes "Updated r = List.map_filter (\<lambda>ch. lookup_object cid (Change_URI ch) db) chs"
    and "Deleted r = map Change_URI (filter (\<lambda>ch. lookup_object cid (Change_URI ch) db = None) chs)"
  shows "apply_sync m r u = (if u \<in> Change_URI ` set chs then contents cid db u else m u)"
proof -
  have upd: "x \<in> set (Updated r) \<longleftrightarrow> o_URI x \<in> Change_URI ` set chs \<and> lookup_object cid (o_URI x) db = Some x" for x
  proof
    assume "x \<in> set (Updated r)"
    then obtain ch where ch: "ch \<in> set chs" "lookup_object cid (Change_URI ch) db = Some x"
      unfolding assms(1) map_filter_mem by blast
    then show "o_URI x \<in> Change_URI ` set chs \<and> lookup_object cid (o_URI x) db = Some x"
      using lookup_uri [OF ch(2)] by simp
  next
    assume "o_URI x \<in> Change_URI ` set chs \<and> lookup_object cid (o_URI x) db = Some x"
    then obtain ch where "ch \<in> set chs" "lookup_object cid (Change_URI ch) db = Some x" by auto
    then show "x \<in> set (Updated r)" unfolding assms(1) map_filter_mem by blast
  qed
  have f: "foldl (\<lambda>m x. m(o_URI x \<mapsto> o_ETag x)) m (Updated r) v = (if v \<in> o_URI ` set (Updated r) then contents cid db v else m v)" for m v
    by (rule foldl_update) (use upd in \<open>simp add: contents_def\<close>)
  have mem: "u \<in> o_URI ` set (Updated r) \<longleftrightarrow> u \<in> Change_URI ` set chs \<and> lookup_object cid u db \<noteq> None"
  proof
    assume "u \<in> Change_URI ` set chs \<and> lookup_object cid u db \<noteq> None"
    then obtain x where x: "lookup_object cid u db = Some x" "u \<in> Change_URI ` set chs" by auto
    then show "u \<in> o_URI ` set (Updated r)" using upd [of x] lookup_uri [OF x(1)] by auto
  qed (use upd in auto)
  have "u \<in> set (Deleted r) \<longleftrightarrow> u \<in> Change_URI ` set chs \<and> lookup_object cid u db = None"
    using assms(2) by auto
  then show ?thesis
    unfolding apply_sync_def foldl_delete f using mem by (auto simp: contents_def)
qed

lemma collectSync_all:
  assumes "collectSync c token limit db = Inr r" and "limit \<le> 0"
  obtains since chs n where "decodeSyncToken token (c_SyncSeq c) = Inr since" "ChangesSince (c_ID c) since db = Inr (chs, n)"
    "Token r = encodeSyncToken n" "\<And>m u. apply_sync m r u = (if u \<in> Change_URI ` set chs then contents (c_ID c) db u else m u)"
proof -
  obtain since chs n where q: "decodeSyncToken token (c_SyncSeq c) = Inr since" "ChangesSince (c_ID c) since db = Inr (chs, n)"
    "collect_loop (c_ID c) limit db chs \<lparr>Updated = [], Deleted = [], Token = encodeSyncToken n\<rparr> = Inr r"
    using assms(1) by (auto simp: collectSync_def split: sum.splits)
  then show thesis
    using that [OF q(1,2)] apply_sync_at [of r "c_ID c" db chs] q(3) [unfolded collect_loop_all [OF assms(2)]] by auto
qed

text \<open>
  C4. Synchronisation is complete. A client that holds a collection as it was when the server gave
  it a token, and later sends that token without a limit, is answered with exactly what it needs:
  after taking the updates and dropping the deletions it holds what the server holds, however the
  collection, the others, the users and the sessions were changed in between, as long as neither the
  collection nor its owner was deleted (a collection that is built anew is the subject of
  \<open>sync_token_survives_rebuild\<close>); and the token it is given is again the one of the state it now has.
\<close>

theorem sync_complete:
  assumes "db_ok hash db" and "CollectionByID cid db = Inr c" and "list_all (keeps_collection cid (c_OwnerID c)) ops"
    and "c_SyncSeq c < 2 ^ 63" and "CollectionByID cid (run hash ops db) = Inr c'"
    and "collectSync c' (encodeSyncToken (c_SyncSeq c)) 0 (run hash ops db) = Inr r"
  shows "apply_sync (contents cid db) r = contents cid (run hash ops db) \<and> Token r = encodeSyncToken (c_SyncSeq c')"
proof -
  let ?db = "run hash ops db"
  have ok: "db_ok hash ?db" using run_ok [OF assms(1)] .
  have s: "seq_of cid db = Some (c_SyncSeq c)" "owner_of cid db = Some (c_OwnerID c)" "seq_of cid ?db = Some (c_SyncSeq c')"
    and c': "c_ID c' = cid"
    using assms(2,5) find_SomeD by (fastforce simp: seq_of_def owner_of_def CollectionByID_def split: option.splits)+
  have adv: "advances cid db ?db" using run_advances [OF assms(1) _ s(2) assms(3)] s(1) by simp
  have "c \<in> set (collections db)"
    using assms(2) find_SomeD by (fastforce simp: CollectionByID_def split: option.splits)
  then have "0 \<le> c_SyncSeq c"
    using assms(1) by (auto simp: db_ok_def collections_ok_def list_all_iff)
  then have dec: "decodeSyncToken (encodeSyncToken (c_SyncSeq c)) (c_SyncSeq c') = Inr (c_SyncSeq c)"
    using decode_encode [OF _ assms(4)] adv s(1,3) by (auto simp: advances_def)
  obtain chs n where q: "ChangesSince cid (c_SyncSeq c) ?db = Inr (chs, n)" "Token r = encodeSyncToken n"
    "\<And>m u. apply_sync m r u = (if u \<in> Change_URI ` set chs then contents cid ?db u else m u)"
  proof (rule collectSync_all [OF assms(6) order_refl])
    fix since chs n
    assume "decodeSyncToken (encodeSyncToken (c_SyncSeq c)) (c_SyncSeq c') = Inr since"
      "ChangesSince (c_ID c') since ?db = Inr (chs, n)" "Token r = encodeSyncToken n"
      "\<And>m u. apply_sync m r u = (if u \<in> Change_URI ` set chs then contents (c_ID c') ?db u else m u)"
    then show thesis using that [of chs n] dec c' by simp
  qed
  note sound = ChangesSince_sound [OF ok q(1)]
  have "apply_sync (contents cid db) r u = contents cid ?db u" for u
    using q(3) [of "contents cid db" u] sound(1) adv s(1) by (auto simp: advances_def)
  moreover have "n = c_SyncSeq c'" using sound(3) s(3) by simp
  ultimately show ?thesis using q(2) by auto
qed

theorem sync_complete_witness:
  "(case CollectionByID 1 (run (\<lambda>s. s) sample_ops sample_db) of
      Inl _ \<Rightarrow> False
    | Inr c' \<Rightarrow> (case collectSync c' ''urn:edav:sync:2'' 0 (run (\<lambda>s. s) sample_ops sample_db) of
        Inl _ \<Rightarrow> False
      | Inr r \<Rightarrow> map o_ETag (Updated r) = [''A2'', ''C1''] \<and> Deleted r = [''b.ics''] \<and>
          apply_sync (contents 1 sample_db) r = contents 1 (run (\<lambda>s. s) sample_ops sample_db)))"
proof -
  let ?db = "run (\<lambda>s. s) sample_ops sample_db"
  have "(case CollectionByID 1 sample_db of Inl _ \<Rightarrow> False | Inr c \<Rightarrow> c_SyncSeq c = 2 \<and> c_OwnerID c = 1)"
    by code_simp
  then obtain c where c: "CollectionByID 1 sample_db = Inr c" "c_SyncSeq c = 2" "c_OwnerID c = 1"
    by (auto split: sum.splits)
  have "(case CollectionByID 1 ?db of Inl _ \<Rightarrow> False | Inr c' \<Rightarrow>
      (case collectSync c' ''urn:edav:sync:2'' 0 ?db of Inl _ \<Rightarrow> False
       | Inr r \<Rightarrow> map o_ETag (Updated r) = [''A2'', ''C1''] \<and> Deleted r = [''b.ics'']))" by code_simp
  then obtain c' r where q: "CollectionByID 1 ?db = Inr c'" "collectSync c' ''urn:edav:sync:2'' 0 ?db = Inr r"
      "map o_ETag (Updated r) = [''A2'', ''C1'']" "Deleted r = [''b.ics'']"
    by (auto split: sum.splits)
  have tok: "encodeSyncToken 2 = ''urn:edav:sync:2''" by code_simp
  have keep: "list_all (keeps_collection 1 (c_OwnerID c)) sample_ops" unfolding c(3) by code_simp
  have "c_SyncSeq c < 2 ^ 63" using c(2) by simp
  then show ?thesis
    using sync_complete [OF sample_db_ok c(1) keep _ q(1), of r] q c(2) tok by simp
qed

text \<open>
  With a limit the synchronisation loses changes: the answer is cut, but its token is that of
  the collection's last change. Here two objects are new, the client asks for one at a time, is
  given one and then, with the token it was given, nothing more.
\<close>

theorem sync_limit_loses_changes:
  "(case CollectionByID 1 sample_db of
      Inl _ \<Rightarrow> False
    | Inr c \<Rightarrow> (case collectSync c [] 1 sample_db of
        Inl _ \<Rightarrow> False
      | Inr r \<Rightarrow> (case collectSync c (Token r) 1 sample_db of
          Inl _ \<Rightarrow> False
        | Inr r' \<Rightarrow> map o_URI (Updated r) = [''a.ics''] \<and> Updated r' = [] \<and> Deleted r' = [] \<and>
            Token r' = Token r \<and>
            apply_sync (apply_sync (\<lambda>_. None) r) r' ''b.ics'' = None \<and> contents 1 sample_db ''b.ics'' \<noteq> None)))"
  by code_simp

definition rebuild_ops :: "db_op list" where
  "rebuild_ops = [OpDeleteCollection 1, OpCreateCollection 20 sample_collection,
     OpPut 21 (sample_object ''c.ics'' ''C1''), OpPut 22 (sample_object ''d.ics'' ''D1'')]"

text \<open>
  A token does not name the collection it is a position in. When a collection is deleted and one
  of the same URI is filled anew, a client with a token of the old one is not told to start over:
  once the new sequence has caught up, the token is accepted, and the client keeps objects the
  server no longer has and never hears of the ones it has.
\<close>

theorem sync_token_survives_rebuild:
  "(case CollectionByURI 1 ''work'' (run (\<lambda>s. s) rebuild_ops sample_db) of
      Inl _ \<Rightarrow> False
    | Inr c \<Rightarrow> (case collectSync c (encodeSyncToken 2) 0 (run (\<lambda>s. s) rebuild_ops sample_db) of
        Inl _ \<Rightarrow> False
      | Inr r \<Rightarrow> Updated r = [] \<and> Deleted r = [] \<and>
          apply_sync (contents 1 sample_db) r ''a.ics'' = Some ''A1'' \<and>
          contents (c_ID c) (run (\<lambda>s. s) rebuild_ops sample_db) ''a.ics'' = None \<and>
          contents (c_ID c) (run (\<lambda>s. s) rebuild_ops sample_db) ''c.ics'' = Some ''C1''))"
  by code_simp

end
