(* ===== verification/Paths.thy ===== *)
theory Paths
  imports Prelude
begin

text \<open>
  \<open>internal/dav/path.go\<close>: the layout of the DAV tree. \<open>Paths\<close> holds the prefix; one function per
  kind of resource renders a path and \<open>parse_path\<close> reads one back (\<open>None\<close> is its error).
\<close>

datatype ResourceKind =
    KindUnknown | KindRoot | KindPrincipal | KindAddressBookHome | KindAddressBook | KindAddressObject
  | KindCalendarHome | KindCalendar | KindCalendarObject

abbreviation principalsSegment :: string where "principalsSegment \<equiv> ''principals''"
abbreviation addressBooksSegment :: string where "addressBooksSegment \<equiv> ''addressbooks''"
abbreviation calendarsSegment :: string where "calendarsSegment \<equiv> ''calendars''"

record Resource =
  r_Kind :: ResourceKind
  r_User :: string
  r_Collection :: string
  r_Object :: string

record Paths =
  Prefix :: string

definition Root :: "Paths \<Rightarrow> string" where
  "Root p = Prefix p @ ''/''"

definition Principal :: "Paths \<Rightarrow> string \<Rightarrow> string" where
  "Principal p user = Prefix p @ ''/'' @ principalsSegment @ ''/'' @ user @ ''/''"

definition AddressBookHome :: "Paths \<Rightarrow> string \<Rightarrow> string" where
  "AddressBookHome p user = Prefix p @ ''/'' @ addressBooksSegment @ ''/'' @ user @ ''/''"

definition AddressBook :: "Paths \<Rightarrow> string \<Rightarrow> string \<Rightarrow> string" where
  "AddressBook p user coll = AddressBookHome p user @ coll @ ''/''"

definition AddressObject :: "Paths \<Rightarrow> string \<Rightarrow> string \<Rightarrow> string \<Rightarrow> string" where
  "AddressObject p user coll obj = AddressBook p user coll @ obj"

definition CalendarHome :: "Paths \<Rightarrow> string \<Rightarrow> string" where
  "CalendarHome p user = Prefix p @ ''/'' @ calendarsSegment @ ''/'' @ user @ ''/''"

definition Calendar :: "Paths \<Rightarrow> string \<Rightarrow> string \<Rightarrow> string" where
  "Calendar p user coll = CalendarHome p user @ coll @ ''/''"

definition CalendarObject :: "Paths \<Rightarrow> string \<Rightarrow> string \<Rightarrow> string \<Rightarrow> string" where
  "CalendarObject p user coll obj = Calendar p user coll @ obj"

definition splitPath :: "string \<Rightarrow> string list" where
  "splitPath path = filter (\<lambda>s. s \<noteq> []) (Split (CHR ''/'') path)"

definition resource :: "ResourceKind \<Rightarrow> string \<Rightarrow> string \<Rightarrow> string \<Rightarrow> Resource" where
  "resource k u c x = \<lparr>r_Kind = k, r_User = u, r_Collection = c, r_Object = x\<rparr>"

definition parse_path :: "Paths \<Rightarrow> string \<Rightarrow> Resource option" where
  "parse_path p path =
     (case CutPrefix path (Prefix p) of
        None \<Rightarrow> None
      | Some rest \<Rightarrow>
          (case splitPath rest of
             [] \<Rightarrow> Some (resource KindRoot [] [] [])
           | s # ss \<Rightarrow>
               if s = principalsSegment then
                 (case ss of [u] \<Rightarrow> Some (resource KindPrincipal u [] []) | _ \<Rightarrow> None)
               else if s = addressBooksSegment then
                 (case ss of
                    [u] \<Rightarrow> Some (resource KindAddressBookHome u [] [])
                  | [u, c] \<Rightarrow> Some (resource KindAddressBook u c [])
                  | [u, c, x] \<Rightarrow> Some (resource KindAddressObject u c x)
                  | _ \<Rightarrow> None)
               else if s = calendarsSegment then
                 (case ss of
                    [u] \<Rightarrow> Some (resource KindCalendarHome u [] [])
                  | [u, c] \<Rightarrow> Some (resource KindCalendar u c [])
                  | [u, c, x] \<Rightarrow> Some (resource KindCalendarObject u c x)
                  | _ \<Rightarrow> None)
               else None))"

section \<open>Round trip\<close>

text \<open>A name that can be a path segment, and the resources the server itself builds paths for.\<close>

definition segment :: "string \<Rightarrow> bool" where
  "segment s = (s \<noteq> [] \<and> CHR ''/'' \<notin> set s)"

definition valid_resource :: "Resource \<Rightarrow> bool" where
  "valid_resource r =
     (case r_Kind r of
        KindUnknown \<Rightarrow> False
      | KindRoot \<Rightarrow> r_User r = [] \<and> r_Collection r = [] \<and> r_Object r = []
      | KindPrincipal \<Rightarrow> segment (r_User r) \<and> r_Collection r = [] \<and> r_Object r = []
      | KindAddressBookHome \<Rightarrow> segment (r_User r) \<and> r_Collection r = [] \<and> r_Object r = []
      | KindCalendarHome \<Rightarrow> segment (r_User r) \<and> r_Collection r = [] \<and> r_Object r = []
      | KindAddressBook \<Rightarrow> segment (r_User r) \<and> segment (r_Collection r) \<and> r_Object r = []
      | KindCalendar \<Rightarrow> segment (r_User r) \<and> segment (r_Collection r) \<and> r_Object r = []
      | KindAddressObject \<Rightarrow> segment (r_User r) \<and> segment (r_Collection r) \<and> segment (r_Object r)
      | KindCalendarObject \<Rightarrow> segment (r_User r) \<and> segment (r_Collection r) \<and> segment (r_Object r))"

text \<open>The path the server writes for a resource.\<close>

definition render_path :: "Paths \<Rightarrow> Resource \<Rightarrow> string" where
  "render_path p r =
     (case r_Kind r of
        KindUnknown \<Rightarrow> []
      | KindRoot \<Rightarrow> Root p
      | KindPrincipal \<Rightarrow> Principal p (r_User r)
      | KindAddressBookHome \<Rightarrow> AddressBookHome p (r_User r)
      | KindAddressBook \<Rightarrow> AddressBook p (r_User r) (r_Collection r)
      | KindAddressObject \<Rightarrow> AddressObject p (r_User r) (r_Collection r) (r_Object r)
      | KindCalendarHome \<Rightarrow> CalendarHome p (r_User r)
      | KindCalendar \<Rightarrow> Calendar p (r_User r) (r_Collection r)
      | KindCalendarObject \<Rightarrow> CalendarObject p (r_User r) (r_Collection r) (r_Object r))"

lemma splitPath_slash [simp]: "splitPath (CHR ''/'' # s) = splitPath s"
  by (simp add: splitPath_def)

lemma splitPath_Nil [simp]: "splitPath [] = []"
  by (simp add: splitPath_def)

lemma splitPath_segment [simp]: "segment s \<Longrightarrow> splitPath s = [s]"
  by (simp add: splitPath_def segment_def Split_no_sep)

lemma splitPath_segment_slash [simp]: "segment s \<Longrightarrow> splitPath (s @ CHR ''/'' # t) = s # splitPath t"
  by (simp add: splitPath_def segment_def Split_append_sep)

lemma segment_names [simp]: "segment principalsSegment" "segment addressBooksSegment" "segment calendarsSegment"
  by (simp_all add: segment_def)

lemma splitPath_name:
  "splitPath (principalsSegment @ CHR ''/'' # t) = principalsSegment # splitPath t"
  "splitPath (addressBooksSegment @ CHR ''/'' # t) = addressBooksSegment # splitPath t"
  "splitPath (calendarsSegment @ CHR ''/'' # t) = calendarsSegment # splitPath t"
  by (simp_all only: splitPath_segment_slash segment_names)

lemmas splitPath_names = splitPath_name [simplified append.simps]

lemma Split_snoc_sep: "Split c (s @ [c]) = Split c s @ [[]]"
proof (induction s)
  case (Cons x s)
  then show ?case by (cases "Split c s") auto
qed simp

lemma splitPath_trailing_slash: "splitPath (s @ ''/'') = splitPath s"
  by (simp add: splitPath_def Split_snoc_sep)

lemma parse_render: "valid_resource r \<Longrightarrow> parse_path p (render_path p r) = Some r"
  by (cases r; cases "r_Kind r")
    (auto simp: valid_resource_def render_path_def parse_path_def resource_def Root_def Principal_def AddressBookHome_def
      AddressBook_def AddressObject_def CalendarHome_def Calendar_def CalendarObject_def splitPath_names)

interpretation path: codec "render_path p" "parse_path p" valid_resource for p
  by unfold_locales (rule parse_render)

text \<open>
  The server reads back every path it writes: parsing the path of a resource gives that
  resource, for every kind and prefix, so two resources never share a path; and the slash at the
  end of a path does not matter.
\<close>

theorem paths_read_back:
  assumes "valid_resource r" and "valid_resource r'"
  shows "parse_path p (render_path p r) = Some r \<and> (render_path p r = render_path p r' \<longleftrightarrow> r = r') \<and>
    parse_path p (Prefix p @ s @ ''/'') = parse_path p (Prefix p @ s)"
  using path.dec_enc [OF assms(1)] path.enc_eq_iff [OF assms]
  by (simp add: parse_path_def splitPath_trailing_slash)

theorem paths_read_back_witness:
  "parse_path \<lparr>Prefix = ''/dav''\<rparr> ''/dav/calendars/ada/work/a.ics'' = Some (resource KindCalendarObject ''ada'' ''work'' ''a.ics'')"
proof -
  let ?r = "resource KindCalendarObject ''ada'' ''work'' ''a.ics''"
  have v: "valid_resource ?r" by code_simp
  have "render_path \<lparr>Prefix = ''/dav''\<rparr> ?r = ''/dav/calendars/ada/work/a.ics''" by code_simp
  then show ?thesis using paths_read_back [OF v v, of "\<lparr>Prefix = ''/dav''\<rparr>"] by simp
qed

end
