(* ===== verification/Http.thy ===== *)
theory Http
  imports Prelude
begin

text \<open>
  The HTTP vocabulary of the DAV layer: \<open>internal/dav/internal/internal.go\<close> (errors that carry a
  status, the Depth and Overwrite headers), the ETag and Status elements of
  \<open>internal/dav/internal/elements.go\<close> and \<open>ConditionalMatch\<close> of \<open>internal/dav/webdav/webdav.go\<close>, with
  the quoting of Go strings (\<open>strconv.Quote\<close>, \<open>strconv.Unquote\<close>) they rest on. A byte of a
  multi-byte UTF-8 sequence is quoted as itself.
\<close>

section \<open>Errors\<close>

text \<open>
  An error of the server: one that carries an HTTP status, possibly with the DAV error element it
  is rendered as, or any other error, which \<open>HTTPErrorFromError\<close> and \<open>ServeError\<close> answer with 500.
\<close>

datatype http_error = HTTPError nat | DAVError nat string | PlainError

abbreviation "StatusOK \<equiv> 200 :: nat"
abbreviation "StatusCreated \<equiv> 201 :: nat"
abbreviation "StatusNoContent \<equiv> 204 :: nat"
abbreviation "StatusMultiStatus \<equiv> 207 :: nat"
abbreviation "StatusMovedPermanently \<equiv> 301 :: nat"
abbreviation "StatusBadRequest \<equiv> 400 :: nat"
abbreviation "StatusUnauthorized \<equiv> 401 :: nat"
abbreviation "StatusForbidden \<equiv> 403 :: nat"
abbreviation "StatusNotFound \<equiv> 404 :: nat"
abbreviation "StatusMethodNotAllowed \<equiv> 405 :: nat"
abbreviation "StatusConflict \<equiv> 409 :: nat"
abbreviation "StatusPreconditionFailed \<equiv> 412 :: nat"
abbreviation "StatusRequestEntityTooLarge \<equiv> 413 :: nat"
abbreviation "StatusUnsupportedMediaType \<equiv> 415 :: nat"
abbreviation "StatusTooManyRequests \<equiv> 429 :: nat"
abbreviation "StatusInternalServerError \<equiv> 500 :: nat"

definition HTTPErrorFromError :: "http_error \<Rightarrow> nat" where
  "HTTPErrorFromError e = (case e of HTTPError c \<Rightarrow> c | DAVError c _ \<Rightarrow> c | PlainError \<Rightarrow> StatusInternalServerError)"

definition IsNotFound :: "http_error \<Rightarrow> bool" where
  "IsNotFound e = (case e of HTTPError c \<Rightarrow> c = StatusNotFound | DAVError c _ \<Rightarrow> c = StatusNotFound | PlainError \<Rightarrow> False)"

section \<open>Depth and Overwrite\<close>

datatype Depth = DepthZero | DepthOne | DepthInfinity

definition ParseDepth :: "string \<Rightarrow> Depth option" where
  "ParseDepth s =
     (if s = ''0'' then Some DepthZero else if s = ''1'' then Some DepthOne
      else if s = ''infinity'' then Some DepthInfinity else None)"

fun Depth_String :: "Depth \<Rightarrow> string" where
  "Depth_String DepthZero = ''0''"
| "Depth_String DepthOne = ''1''"
| "Depth_String DepthInfinity = ''infinity''"

definition ParseOverwrite :: "string \<Rightarrow> bool option" where
  "ParseOverwrite s = (if s = ''T'' then Some True else if s = ''F'' then Some False else None)"

definition FormatOverwrite :: "bool \<Rightarrow> string" where
  "FormatOverwrite b = (if b then ''T'' else ''F'')"

interpretation depth: codec Depth_String ParseDepth "\<lambda>_. True"
  by unfold_locales (case_tac x; simp add: ParseDepth_def)

interpretation overwrite: codec FormatOverwrite ParseOverwrite "\<lambda>_. True"
  by unfold_locales (simp add: ParseOverwrite_def FormatOverwrite_def)

section \<open>Quoted strings\<close>

definition hex_digit :: "nat \<Rightarrow> char" where
  "hex_digit n = (if n < 10 then char_of (48 + n) else char_of (87 + n))"

definition hex_val :: "char \<Rightarrow> nat option" where
  "hex_val c = (let n = (of_char c :: nat) in
     if 48 \<le> n \<and> n \<le> 57 then Some (n - 48)
     else if 97 \<le> n \<and> n \<le> 102 then Some (n - 87)
     else if 65 \<le> n \<and> n \<le> 70 then Some (n - 55) else None)"

definition oct_val :: "char \<Rightarrow> nat option" where
  "oct_val c = (let n = (of_char c :: nat) in if 48 \<le> n \<and> n \<le> 55 then Some (n - 48) else None)"

text \<open>\<open>utf8.AppendRune\<close>; \<open>None\<close> for a surrogate or a value past the last code point.\<close>

definition utf8_rune :: "nat \<Rightarrow> string option" where
  "utf8_rune n =
     (if n < 0x80 then Some [char_of n]
      else if n < 0x800 then Some [char_of (0xC0 + n div 64), char_of (0x80 + n mod 64)]
      else if 0xD800 \<le> n \<and> n < 0xE000 then None
      else if n < 0x10000 then
        Some [char_of (0xE0 + n div 4096), char_of (0x80 + n div 64 mod 64), char_of (0x80 + n mod 64)]
      else if n < 0x110000 then
        Some [char_of (0xF0 + n div 262144), char_of (0x80 + n div 4096 mod 64),
              char_of (0x80 + n div 64 mod 64), char_of (0x80 + n mod 64)]
      else None)"

text \<open>The number written by the first \<open>k\<close> digits of a string, and the rest.\<close>

fun digits_of :: "(char \<Rightarrow> nat option) \<Rightarrow> nat \<Rightarrow> nat \<Rightarrow> nat \<Rightarrow> string \<Rightarrow> (nat \<times> string) option" where
  "digits_of val base 0 acc s = Some (acc, s)"
| "digits_of val base (Suc k) acc [] = None"
| "digits_of val base (Suc k) acc (c # s) =
     (case val c of None \<Rightarrow> None | Some d \<Rightarrow> digits_of val base k (base * acc + d) s)"

lemma digits_of_length: "digits_of val base k acc s = Some (n, r) \<Longrightarrow> length r \<le> length s"
  by (induction val base k acc s rule: digits_of.induct) (auto split: option.splits)

text \<open>\<open>strconv.UnquoteChar\<close> after a backslash: the bytes denoted and the rest.\<close>

definition simple_escape :: "char \<Rightarrow> char option" where
  "simple_escape c =
     (if c = CHR ''a'' then Some (CHR 0x07) else if c = CHR ''b'' then Some (CHR 0x08)
      else if c = CHR ''f'' then Some (CHR 0x0C) else if c = CHR ''n'' then Some LF
      else if c = CHR ''r'' then Some CR else if c = CHR ''t'' then Some TAB
      else if c = CHR ''v'' then Some (CHR 0x0B) else if c = BACKSLASH then Some BACKSLASH else None)"

definition unquote_escape :: "char \<Rightarrow> string \<Rightarrow> (string \<times> string) option" where
  "unquote_escape quote s =
     (case s of
        [] \<Rightarrow> None
      | c # t \<Rightarrow>
          (case simple_escape c of
             Some d \<Rightarrow> Some ([d], t)
           | None \<Rightarrow>
               if c = CHR ''x'' then map_option (\<lambda>(n, r). ([char_of n], r)) (digits_of hex_val 16 2 0 t)
               else if c = CHR ''u'' then
                 (case digits_of hex_val 16 4 0 t of None \<Rightarrow> None | Some (n, r) \<Rightarrow> map_option (\<lambda>b. (b, r)) (utf8_rune n))
               else if c = CHR ''U'' then
                 (case digits_of hex_val 16 8 0 t of None \<Rightarrow> None | Some (n, r) \<Rightarrow> map_option (\<lambda>b. (b, r)) (utf8_rune n))
               else if oct_val c \<noteq> None then
                 (case digits_of oct_val 8 3 0 s of
                    None \<Rightarrow> None | Some (n, r) \<Rightarrow> if n > 255 then None else Some ([char_of n], r))
               else if (c = DQUOTE \<or> c = CHR 0x27) \<and> c = quote then Some ([c], t)
               else None))"

lemma unquote_escape_length: "unquote_escape quote s = Some (b, r) \<Longrightarrow> length r \<le> length s"
  by (auto simp: unquote_escape_def split: list.splits option.splits if_splits dest!: digits_of_length)

text \<open>The loop of \<open>unquote\<close> up to the closing quote; nothing may follow it.\<close>

function unquote_loop :: "char \<Rightarrow> string \<Rightarrow> string option" where
  "unquote_loop quote [] = None"
| "unquote_loop quote (c # s) =
     (if c = quote then (if s = [] then Some [] else None)
      else if c = LF then None
      else if c = BACKSLASH then
        (case unquote_escape quote s of
           None \<Rightarrow> None
         | Some (b, r) \<Rightarrow> map_option (\<lambda>t. b @ t) (unquote_loop quote r))
      else map_option (\<lambda>t. c # t) (unquote_loop quote s))"
  by pat_completeness auto
termination
  by (relation "measure (\<lambda>(q, s). length s)") (auto dest: unquote_escape_length)

definition Unquote :: "string \<Rightarrow> string option" where
  "Unquote s =
     (case s of
        [] \<Rightarrow> None
      | q # t \<Rightarrow>
          if q = CHR 0x60 then
            (if t \<noteq> [] \<and> last t = CHR 0x60 \<and> CHR 0x60 \<notin> set (butlast t)
             then Some (filter (\<lambda>c. c \<noteq> CR) (butlast t)) else None)
          else if q = DQUOTE then unquote_loop q t
          else if q = CHR 0x27 then
            (case t of
               c # r \<Rightarrow>
                 if c = BACKSLASH then
                   (case unquote_escape q r of Some (b, e) \<Rightarrow> if e = [q] then Some b else None | None \<Rightarrow> None)
                 else if c \<noteq> q \<and> c \<noteq> LF \<and> r = [q] then Some [c] else None
             | [] \<Rightarrow> None)
          else None)"

definition escape_name :: "char \<Rightarrow> char option" where
  "escape_name c =
     (if c = CHR 0x07 then Some (CHR ''a'') else if c = CHR 0x08 then Some (CHR ''b'')
      else if c = CHR 0x0C then Some (CHR ''f'') else if c = LF then Some (CHR ''n'')
      else if c = CR then Some (CHR ''r'') else if c = TAB then Some (CHR ''t'')
      else if c = CHR 0x0B then Some (CHR ''v'') else None)"

definition quote_char :: "char \<Rightarrow> string" where
  "quote_char c =
     (let n = (of_char c :: nat) in
      if c = DQUOTE \<or> c = BACKSLASH then [BACKSLASH, c]
      else if 0x20 \<le> n \<and> n \<noteq> 0x7F then [c]
      else (case escape_name c of
              Some e \<Rightarrow> [BACKSLASH, e]
            | None \<Rightarrow> [BACKSLASH, CHR ''x'', hex_digit (n div 16), hex_digit (n mod 16)]))"

definition Quote :: "string \<Rightarrow> string" where
  "Quote s = [DQUOTE] @ concat (map quote_char s) @ [DQUOTE]"

lemma hex_val_digit: "n < 16 \<Longrightarrow> hex_val (hex_digit n) = Some n"
  by (auto simp: hex_val_def hex_digit_def)

lemma unquote_loop_simps [simp]:
  "unquote_loop DQUOTE (BACKSLASH # s) =
     (case unquote_escape DQUOTE s of None \<Rightarrow> None | Some (b, r) \<Rightarrow> map_option (\<lambda>t. b @ t) (unquote_loop DQUOTE r))"
  "c \<noteq> DQUOTE \<Longrightarrow> c \<noteq> LF \<Longrightarrow> c \<noteq> BACKSLASH \<Longrightarrow> unquote_loop DQUOTE (c # s) = map_option (\<lambda>t. c # t) (unquote_loop DQUOTE s)"
  by simp_all

lemma unquote_escape_simple [simp]: "simple_escape c = Some d \<Longrightarrow> unquote_escape q (c # s) = Some ([d], s)"
  by (simp add: unquote_escape_def)

lemma unquote_escape_quote [simp]: "unquote_escape DQUOTE (DQUOTE # s) = Some ([DQUOTE], s)"
  by (simp add: unquote_escape_def simple_escape_def oct_val_def)

lemma unquote_escape_hex [simp]:
  "n < 256 \<Longrightarrow> unquote_escape q (CHR ''x'' # hex_digit (n div 16) # hex_digit (n mod 16) # s) = Some ([char_of n], s)"
  by (simp add: unquote_escape_def simple_escape_def hex_val_digit numeral_2_eq_2 less_mult_imp_div_less)

lemma prepend_single [simp]: "map_option ((@) [c]) x = map_option ((#) c) x"
  by (cases x) simp_all

lemma escape_name_simple: "escape_name c = Some e \<Longrightarrow> simple_escape e = Some c"
  by (auto simp: escape_name_def simple_escape_def split: if_splits)

lemma quote_char_unquote: "unquote_loop DQUOTE (quote_char c @ s) = map_option (\<lambda>t. c # t) (unquote_loop DQUOTE s)"
proof -
  let ?n = "of_char c :: nat"
  let ?printable = "0x20 \<le> ?n \<and> ?n \<noteq> 0x7F"
  have q: "quote_char c = (if c = DQUOTE \<or> c = BACKSLASH then [BACKSLASH, c] else if ?printable then [c]
      else (case escape_name c of Some e \<Rightarrow> [BACKSLASH, e]
            | None \<Rightarrow> [BACKSLASH, CHR ''x'', hex_digit (?n div 16), hex_digit (?n mod 16)]))"
    by (simp only: quote_char_def Let_def)
  consider "c = DQUOTE \<or> c = BACKSLASH" | "c \<noteq> DQUOTE" "c \<noteq> BACKSLASH" ?printable
    | e where "c \<noteq> DQUOTE" "c \<noteq> BACKSLASH" "\<not> ?printable" "escape_name c = Some e"
    | "c \<noteq> DQUOTE" "c \<noteq> BACKSLASH" "\<not> ?printable" "escape_name c = None"
    by (cases "escape_name c") blast+
  then show ?thesis
  proof cases
    case 1
    then show ?thesis
      by (elim disjE) (simp_all add: quote_char_def simple_escape_def del: unquote_loop.simps)
  next
    case 2
    then have "quote_char c = [c]" "c \<noteq> LF" by (auto simp: quote_char_def)
    then show ?thesis using 2 by (simp del: unquote_loop.simps)
  next
    case (3 e)
    then have "quote_char c = [BACKSLASH, e]" "simple_escape e = Some c"
      using q escape_name_simple by simp_all
    then show ?thesis by (simp del: unquote_loop.simps)
  next
    case 4
    then have "quote_char c = [BACKSLASH, CHR ''x'', hex_digit (?n div 16), hex_digit (?n mod 16)]"
      using q by simp
    moreover have "?n < 256" by simp
    ultimately show ?thesis by (simp del: unquote_loop.simps)
  qed
qed

lemma Unquote_Quote: "Unquote (Quote s) = Some s"
proof -
  have "unquote_loop DQUOTE (concat (map quote_char s) @ [DQUOTE]) = Some s"
    by (induction s) (auto simp: quote_char_unquote)
  then show ?thesis by (simp add: Unquote_def Quote_def)
qed

section \<open>ETags and conditional headers\<close>

definition ETag_String :: "string \<Rightarrow> string" where
  "ETag_String etag = Quote etag"

definition ETag_UnmarshalText :: "string \<Rightarrow> string option" where
  "ETag_UnmarshalText b = Unquote b"

interpretation etag: codec ETag_String ETag_UnmarshalText "\<lambda>_. True"
  by unfold_locales (simp add: ETag_String_def ETag_UnmarshalText_def Unquote_Quote)

type_synonym ConditionalMatch = string

definition IsSet :: "ConditionalMatch \<Rightarrow> bool" where
  "IsSet val = (val \<noteq> [])"

definition IsWildcard :: "ConditionalMatch \<Rightarrow> bool" where
  "IsWildcard val = (val = ''*'')"

definition cond_ETag :: "ConditionalMatch \<Rightarrow> string option" where
  "cond_ETag val = ETag_UnmarshalText val"

text \<open>\<open>MatchETag\<close>: \<open>Inl\<close> a malformed value, \<open>Inr\<close> whether it matches.\<close>

definition MatchETag :: "ConditionalMatch \<Rightarrow> string \<Rightarrow> unit + bool" where
  "MatchETag val etag =
     (if etag = [] then Inr False
      else if IsWildcard val then Inr True
      else (case cond_ETag val of None \<Rightarrow> Inl () | Some t \<Rightarrow> Inr (t = etag)))"

lemma MatchETag_own: "e \<noteq> [] \<Longrightarrow> MatchETag (ETag_String e) e = Inr True"
  by (simp add: MatchETag_def cond_ETag_def etag.dec_enc)

section \<open>Status lines\<close>

record Status =
  st_Code :: int
  st_Text :: string

text \<open>\<open>Atoi\<close> is \<open>ParseInt\<close> on a 64-bit machine. The status text of a code is a parameter.\<close>

definition Status_MarshalText :: "(int \<Rightarrow> string) \<Rightarrow> Status \<Rightarrow> string" where
  "Status_MarshalText StatusText s =
     ''HTTP/1.1 '' @ FormatInt (st_Code s) @ '' '' @ (if st_Text s = [] then StatusText (st_Code s) else st_Text s)"

definition Status_UnmarshalText :: "Status \<Rightarrow> string \<Rightarrow> Status option" where
  "Status_UnmarshalText s b =
     (if b = [] then Some s
      else (case Cut SP b of
              None \<Rightarrow> None
            | Some (_, rest) \<Rightarrow>
                (case Cut SP rest of
                   None \<Rightarrow> None
                 | Some (code, text) \<Rightarrow> map_option (\<lambda>n. \<lparr>st_Code = n, st_Text = text\<rparr>) (ParseInt code))))"

definition Status_Err :: "Status option \<Rightarrow> http_error option" where
  "Status_Err s =
     (case s of None \<Rightarrow> None | Some s \<Rightarrow> if st_Code s \<noteq> 200 then Some (HTTPError (nat (st_Code s))) else None)"

lemma Cut_append: "c \<notin> set a \<Longrightarrow> Cut c (a @ c # b) = Some (a, b)"
proof -
  assume "c \<notin> set a"
  then have "dropWhile (\<lambda>x. x \<noteq> c) (a @ c # b) = c # b" "takeWhile (\<lambda>x. x \<noteq> c) (a @ c # b) = a"
    by (induction a) auto
  then show ?thesis by (simp add: Cut_def)
qed

lemma FormatInt_no_space: "SP \<notin> set (FormatInt i)"
proof -
  have "SP \<notin> set (itoa n)" for n using digit_char_range [of SP n] by auto
  then show ?thesis by (simp add: FormatInt_def)
qed

text \<open>
  A status line reads back as the status it was written for, with the standard text filled in
  where it had none.
\<close>

theorem status_round_trip:
  assumes "- (2 ^ 63) \<le> st_Code s" and "st_Code s < 2 ^ 63"
  shows "Status_UnmarshalText s0 (Status_MarshalText StatusText s) =
    Some \<lparr>st_Code = st_Code s, st_Text = (if st_Text s = [] then StatusText (st_Code s) else st_Text s)\<rparr>"
proof -
  let ?t = "if st_Text s = [] then StatusText (st_Code s) else st_Text s"
  have "Cut SP (''HTTP/1.1 '' @ FormatInt (st_Code s) @ '' '' @ ?t) = Some (''HTTP/1.1'', FormatInt (st_Code s) @ '' '' @ ?t)"
    using Cut_append [of SP "''HTTP/1.1''"] by simp
  moreover have "Cut SP (FormatInt (st_Code s) @ '' '' @ ?t) = Some (FormatInt (st_Code s), ?t)"
    using Cut_append [OF FormatInt_no_space] by simp
  ultimately show ?thesis
    using ParseInt_FormatInt [OF assms] by (simp add: Status_UnmarshalText_def Status_MarshalText_def)
qed

theorem status_round_trip_witness:
  "Status_UnmarshalText \<lparr>st_Code = 0, st_Text = []\<rparr> (Status_MarshalText (\<lambda>_. ''Not Found'') \<lparr>st_Code = 404, st_Text = []\<rparr>) =
   Some \<lparr>st_Code = 404, st_Text = ''Not Found''\<rparr>"
  using status_round_trip [of "\<lparr>st_Code = 404, st_Text = []\<rparr>"] by simp

end
