(* ===== verification/GoTime.thy ===== *)
theory GoTime
  imports Prelude
begin

text \<open>
  The part of Go's \<open>time\<close> package the server uses: a time in UTC is its Unix seconds, dates are
  proleptic Gregorian. \<open>Date\<close> normalises months and days out of range, as Go's does, which is what
  \<open>AddDate\<close> rests on. Then the three layouts of iCalendar and the arithmetic of durations.
\<close>

type_synonym time = int

abbreviation zeroTime :: time where "zeroTime \<equiv> -62135596800"

definition IsZero :: "time \<Rightarrow> bool" where
  "IsZero t = (t = zeroTime)"

text \<open>Where fractions matter an instant is its nanoseconds; a \<open>Duration\<close> is nanoseconds too, at 64 bits.\<close>

type_synonym instant = int

abbreviation second :: int where "second \<equiv> 1000000000"

text \<open>Days since 1 January 1970 of a year, month (1 to 12) and day, and back.\<close>

definition days_of_civil :: "int \<Rightarrow> int \<Rightarrow> int \<Rightarrow> int" where
  "days_of_civil y m d =
     (let y = (if m \<le> 2 then y - 1 else y);
          era = y div 400;
          yoe = y mod 400;
          doy = (153 * (if m > 2 then m - 3 else m + 9) + 2) div 5 + d - 1;
          doe = yoe * 365 + yoe div 4 - yoe div 100 + doy
      in era * 146097 + doe - 719468)"

text \<open>The March-based year of an era and the day in it, by centuries, four-year cycles and years.\<close>

definition year_of_era :: "int \<Rightarrow> int \<times> int" where
  "year_of_era doe =
     (let c = min (doe div 36524) 3;
          r1 = doe - c * 36524;
          q = r1 div 1461;
          r2 = r1 mod 1461;
          k = min (r2 div 365) 3
      in (100 * c + 4 * q + k, r2 - k * 365))"

definition civil_of_days :: "int \<Rightarrow> int \<times> int \<times> int" where
  "civil_of_days n =
     (let z = n + 719468;
          era = z div 146097;
          (yoe, doy) = year_of_era (z mod 146097);
          mp = (5 * doy + 2) div 153;
          d = doy - (153 * mp + 2) div 5 + 1;
          m = (if mp < 10 then mp + 3 else mp - 9);
          y = yoe + era * 400 + (if m \<le> 2 then 1 else 0)
      in (y, m, d))"

lemma div_bounds: "0 < (b::int) \<Longrightarrow> b * (a div b) \<le> a \<and> a < b * (a div b) + b"
  using pos_mod_bound [of b a] pos_mod_sign [of b a] mult_div_mod_eq [of b a] by linarith

lemma year_of_era_facts:
  assumes "year_of_era doe = (yoe, doy)" and "0 \<le> doe" and "doe \<le> 146096"
  shows "0 \<le> yoe" "yoe \<le> 399" "0 \<le> doy" "doy \<le> 365" "doe = yoe * 365 + yoe div 4 - yoe div 100 + doy"
proof -
  define c where "c = min (doe div 36524) 3"
  define r1 where "r1 = doe - c * 36524"
  define q where "q = r1 div 1461"
  define r2 where "r2 = r1 mod 1461"
  define k where "k = min (r2 div 365) 3"
  have e: "yoe = 100 * c + 4 * q + k" "doy = r2 - k * 365"
    using assms(1) by (simp_all add: year_of_era_def c_def r1_def q_def r2_def k_def Let_def)
  have c: "0 \<le> c" "c \<le> 3" "0 \<le> r1" "r1 \<le> 36524"
  proof -
    have "36524 * (doe div 36524) \<le> doe" "doe < 36524 * (doe div 36524) + 36524" using div_bounds [of 36524 doe] by simp_all
    then show "0 \<le> c" "c \<le> 3" "0 \<le> r1" "r1 \<le> 36524"
      unfolding r1_def c_def min_def using assms(2,3) by (auto split: if_splits)
  qed
  have "1461 * q \<le> r1" "r1 < 1461 * q + 1461" unfolding q_def using div_bounds [of 1461 r1] by simp_all
  moreover have "r2 = r1 - 1461 * q" unfolding q_def r2_def by (simp add: minus_mult_div_eq_mod)
  ultimately have q: "0 \<le> q" "q \<le> 24" "0 \<le> r2" "r2 \<le> 1460" "r1 = 1461 * q + r2"
    using c(3,4) by linarith+
  have k: "0 \<le> k" "k \<le> 3" "0 \<le> doy" "doy \<le> 365"
  proof -
    have "365 * (r2 div 365) \<le> r2" "r2 < 365 * (r2 div 365) + 365" using div_bounds [of 365 r2] by simp_all
    then show "0 \<le> k" "k \<le> 3" "0 \<le> doy" "doy \<le> 365"
      unfolding e(2) k_def min_def using q(3,4) by (auto split: if_splits)
  qed
  show "0 \<le> yoe" "yoe \<le> 399" using e(1) c q k by linarith+
  show "0 \<le> doy" "doy \<le> 365" using k by simp_all
  have "yoe div 4 = 25 * c + q" using e(1) k(1,2) by (intro int_div_pos_eq [where r = k]) auto
  moreover have "yoe div 100 = c" using e(1) q(1,2) k(1,2) by (intro int_div_pos_eq [where r = "4 * q + k"]) auto
  ultimately show "doe = yoe * 365 + yoe div 4 - yoe div 100 + doy"
    using e q(5) r1_def by (simp add: algebra_simps)
qed

text \<open>
  The calendar arithmetic is exact: every day number has a valid month and day, and turning it
  into a date and back gives the same day.
\<close>

theorem civil_round_trip:
  "(case civil_of_days n of (y, m, d) \<Rightarrow> days_of_civil y m d = n \<and> 1 \<le> m \<and> m \<le> 12 \<and> 1 \<le> d \<and> d \<le> 31)"
proof -
  define z where "z = n + 719468"
  obtain yoe doy where yd: "year_of_era (z mod 146097) = (yoe, doy)" by fastforce
  have "0 \<le> z mod 146097" "z mod 146097 \<le> 146096" by simp_all
  note f = year_of_era_facts [OF yd this]
  define mp where "mp = (5 * doy + 2) div 153"
  define m where "m = (if mp < 10 then mp + 3 else mp - 9)"
  define d where "d = doy - (153 * mp + 2) div 5 + 1"
  define y where "y = yoe + (z div 146097) * 400 + (if m \<le> 2 then 1 else 0)"
  have civ: "civil_of_days n = (y, m, d)"
    using yd by (simp add: civil_of_days_def z_def y_def m_def d_def mp_def Let_def)
  have b: "153 * mp \<le> 5 * doy + 2" "5 * doy + 2 < 153 * mp + 153" unfolding mp_def using div_bounds [of 153] by simp_all
  then have mp: "0 \<le> mp" "mp \<le> 11" using f(3,4) by linarith+
  define s where "s = (153 * mp + 2) div 5"
  have "5 * s \<le> 153 * mp + 2" "153 * mp + 2 < 5 * s + 5" unfolding s_def using div_bounds [of 5] by simp_all
  with b have "s \<le> doy" "doy \<le> s + 30" by linarith+
  then have d: "1 \<le> d" "d \<le> 31" by (simp_all add: d_def s_def)
  have m: "1 \<le> m" "m \<le> 12" "(if m > 2 then m - 3 else m + 9) = mp" "m \<le> 2 \<longleftrightarrow> 10 \<le> mp"
    using mp by (auto simp: m_def)
  have yy: "(if m \<le> 2 then y - 1 else y) = yoe + (z div 146097) * 400" by (simp add: y_def)
  have era: "(yoe + (z div 146097) * 400) div 400 = z div 146097" "(yoe + (z div 146097) * 400) mod 400 = yoe"
    using f(1,2) by simp_all
  have "(153 * mp + 2) div 5 + d - 1 = doy" by (simp add: d_def)
  then have "days_of_civil y m d = (z div 146097) * 146097 + (yoe * 365 + yoe div 4 - yoe div 100 + doy) - 719468"
    unfolding days_of_civil_def Let_def yy era m(3) by simp
  also have "\<dots> = n" using f(5) mult_div_mod_eq [of 146097 z] by (simp add: z_def)
  finally show ?thesis using civ m d by simp
qed

definition Date :: "int \<Rightarrow> int \<Rightarrow> int \<Rightarrow> int \<Rightarrow> time" where
  "Date y m d secs = days_of_civil (y + (m - 1) div 12) ((m - 1) mod 12 + 1) 1 * 86400 + (d - 1) * 86400 + secs"

definition AddDate :: "time \<Rightarrow> int \<Rightarrow> int \<Rightarrow> int \<Rightarrow> time" where
  "AddDate t years months days =
     (case civil_of_days (t div 86400) of (y, m, d) \<Rightarrow> Date (y + years) (m + months) (d + days) (t mod 86400))"

fun pad :: "nat \<Rightarrow> string \<Rightarrow> string" where
  "pad w s = replicate (w - length s) (CHR ''0'') @ s"

definition year_text :: "int \<Rightarrow> string" where
  "year_text y = (if y < 0 then ''-'' @ pad 4 (FormatInt (- y)) else pad 4 (FormatInt y))"

text \<open>The layouts \<open>20060102\<close>, \<open>20060102T150405\<close> and \<open>20060102T150405Z\<close>.\<close>

definition format_date :: "time \<Rightarrow> string" where
  "format_date t = (case civil_of_days (t div 86400) of (y, m, d) \<Rightarrow> year_text y @ pad 2 (FormatInt m) @ pad 2 (FormatInt d))"

definition format_clock :: "time \<Rightarrow> string" where
  "format_clock t =
     (let s = t mod 86400 in
      pad 2 (FormatInt (s div 3600)) @ pad 2 (FormatInt (s div 60 mod 60)) @ pad 2 (FormatInt (s mod 60)))"

definition format_wall :: "time \<Rightarrow> string" where
  "format_wall t = format_date t @ ''T'' @ format_clock t"

definition format_utc :: "time \<Rightarrow> string" where
  "format_utc t = format_wall t @ ''Z''"

text \<open>A \<open>Duration\<close> wraps around; the difference of two times saturates.\<close>

definition wrap64 :: "int \<Rightarrow> int" where
  "wrap64 d = (d + 2 ^ 63) mod 2 ^ 64 - 2 ^ 63"

definition Sub :: "instant \<Rightarrow> instant \<Rightarrow> int" where
  "Sub a b = max (- (2 ^ 63)) (min (2 ^ 63 - 1) (a - b))"

lemma wrap64_id: "- (2 ^ 63) \<le> d \<Longrightarrow> d < 2 ^ 63 \<Longrightarrow> wrap64 d = d"
  by (simp add: wrap64_def)

lemma AddDate_zero: "AddDate t 0 0 0 = t"
proof -
  obtain y m d where c: "civil_of_days (t div 86400) = (y, m, d)" by (cases "civil_of_days (t div 86400)")
  have r: "days_of_civil y m d = t div 86400" "1 \<le> m" "m \<le> 12"
    using civil_round_trip [of "t div 86400"] c by auto
  have "days_of_civil y m 1 + (d - 1) = days_of_civil y m d" by (simp add: days_of_civil_def Let_def)
  moreover have "(m - 1) div 12 = 0" "(m - 1) mod 12 + 1 = m" using r(2,3) by auto
  moreover have "(days_of_civil y m 1 + (d - 1)) * 86400 + t mod 86400 = t"
    using calculation(1) r(1) by (simp only: div_mult_mod_eq)
  ultimately show ?thesis using c by (simp add: AddDate_def Date_def algebra_simps)
qed

end
