(* ===== verification/CalMatch.thy ===== *)
theory CalMatch
  imports GoTime
begin

text \<open>
  \<open>internal/dav/caldav/match.go\<close> with the query types of \<open>caldav.go\<close>. A parsed calendar is what
  the go-ical library lets the code see of it: a component is its name, the answers of its
  accessors and its children. Times are Unix seconds; Go's zero time is \<open>zeroTime\<close>. The panic on
  an object without parsed data is \<open>Inl MatchPanic\<close>.
\<close>

datatype match_error = MatchPanic | MatchError

text \<open>\<open>ical.Prop\<close>: the value, \<open>Params.Get\<close> and \<open>DateTime\<close>.\<close>

record Prop =
  p_Value :: string
  p_Param :: "string \<Rightarrow> string"
  p_DateTime :: "match_error + time"

text \<open>
  \<open>ical.Component\<close>: name, \<open>Props.Get\<close>, the result of \<open>RecurrenceSet\<close> (the occurrences between two
  times, when the component recurs), \<open>DateTimeStart\<close>, \<open>DateTimeEnd\<close>, children.
\<close>

datatype comp = Comp (comp_Name: string) (comp_Prop: "string \<Rightarrow> Prop option")
    (comp_RSet: "match_error + (time \<Rightarrow> time \<Rightarrow> time list) option")
    (comp_Start: "match_error + time") (comp_End: "match_error + time") (comp_Children: "comp list")

record TextMatch =
  tm_Text :: string
  tm_NegateCondition :: bool

record ParamFilter =
  paf_Name :: string
  paf_IsNotDefined :: bool
  paf_TextMatch :: "TextMatch option"

record PropFilter =
  pf_Name :: string
  pf_IsNotDefined :: bool
  pf_Start :: time
  pf_End :: time
  pf_TextMatch :: "TextMatch option"
  pf_ParamFilter :: "ParamFilter list"

datatype CompFilter = CompFilter (cf_Name: string) (cf_IsNotDefined: bool) (cf_Start: time) (cf_End: time)
    (cf_Props: "PropFilter list") (cf_Comps: "CompFilter list")

datatype CalendarCompRequest = CalendarCompRequest (cr_Name: string) (cr_AllProps: bool) (cr_Props: "string list")
    (cr_AllComps: bool) (cr_Comps: "CalendarCompRequest list") (cr_Expand: "(time \<times> time) option")

record CalendarQuery =
  cq_CompRequest :: CalendarCompRequest
  cq_CompFilter :: CompFilter

record CalendarObject =
  co_Path :: string
  co_ModTime :: time
  co_ContentLength :: nat
  co_ETag :: string
  co_Raw :: string
  co_Data :: "comp option"

section \<open>Leaves\<close>

definition matchTextMatch :: "TextMatch \<Rightarrow> string \<Rightarrow> bool" where
  "matchTextMatch txt v = (let m = Contains v (tm_Text txt) in if tm_NegateCondition txt then \<not> m else m)"

definition matchParamFilter :: "ParamFilter \<Rightarrow> Prop \<Rightarrow> bool" where
  "matchParamFilter flt field =
     (let v = p_Param field (paf_Name flt)
      in if v = [] then paf_IsNotDefined flt
         else if paf_IsNotDefined flt then False
         else (case paf_TextMatch flt of Some t \<Rightarrow> matchTextMatch t v | None \<Rightarrow> True))"

definition matchPropTimeRange :: "time \<Rightarrow> time \<Rightarrow> Prop \<Rightarrow> match_error + bool" where
  "matchPropTimeRange start end field =
     (case p_DateTime field of
        Inl e \<Rightarrow> Inl e
      | Inr t \<Rightarrow> Inr (t > start \<and> (end = zeroTime \<or> t < end)))"

definition matchCompTimeRange :: "time \<Rightarrow> time \<Rightarrow> comp \<Rightarrow> match_error + bool" where
  "matchCompTimeRange start end c =
     (case comp_RSet c of
        Inl e \<Rightarrow> Inl e
      | Inr (Some between) \<Rightarrow> Inr (between start end \<noteq> [])
      | Inr None \<Rightarrow>
          if comp_Name c \<noteq> ''VEVENT'' then Inr False
          else (case comp_Start c of
                  Inl e \<Rightarrow> Inl e
                | Inr s \<Rightarrow>
                    (case comp_End c of
                       Inl e \<Rightarrow> Inl e
                     | Inr t \<Rightarrow>
                         Inr (if s > start \<and> (end = zeroTime \<or> s < end) then True
                              else if t > start \<and> (end = zeroTime \<or> t < end) then True
                              else if s < start \<and> (end \<noteq> zeroTime \<and> t > end) then True
                              else False))))"

definition matchPropFilter :: "PropFilter \<Rightarrow> comp \<Rightarrow> match_error + bool" where
  "matchPropFilter flt c =
     (case comp_Prop c (pf_Name flt) of
        None \<Rightarrow> Inr (pf_IsNotDefined flt)
      | Some field \<Rightarrow>
          if list_ex (\<lambda>pa. \<not> matchParamFilter pa field) (pf_ParamFilter flt) then Inr False
          else if pf_Start flt \<noteq> zeroTime then
            (case matchPropTimeRange (pf_Start flt) (pf_End flt) field of
               Inl e \<Rightarrow> Inl e | Inr b \<Rightarrow> if \<not> b then Inr False else Inr True)
          else (case pf_TextMatch flt of
                  Some t \<Rightarrow> if \<not> matchTextMatch t (p_Value field) then Inr False else Inr True
                | None \<Rightarrow> Inr True))"

section \<open>Components\<close>

text \<open>
  \<open>match\<close> and \<open>matchCompFilter\<close>, with the loops as list loops that stop on an error. The loop over
  the children runs to the end; \<open>matches\<close> counts how many matched.
\<close>

function match_comp :: "CompFilter \<Rightarrow> comp \<Rightarrow> match_error + bool" and
  matchCompFilter :: "CompFilter \<Rightarrow> comp \<Rightarrow> match_error + bool" where
  "match_comp flt c =
     (if comp_Name c \<noteq> cf_Name flt then Inr (cf_IsNotDefined flt)
      else
        (case (if cf_Start flt \<noteq> zeroTime then matchCompTimeRange (cf_Start flt) (cf_End flt) c else Inr True) of
           Inl e \<Rightarrow> Inl e
         | Inr b \<Rightarrow>
             if \<not> b then Inr False
             else (case all_ok (\<lambda>f. matchCompFilter f c) (cf_Comps flt) of
                     Inl e \<Rightarrow> Inl e
                   | Inr b \<Rightarrow>
                       if \<not> b then Inr False else all_ok (\<lambda>p. matchPropFilter p c) (cf_Props flt))))"
| "matchCompFilter flt c =
     (case map_ok (\<lambda>child. match_comp flt child) (comp_Children c) of
        Inl e \<Rightarrow> Inl e
      | Inr bs \<Rightarrow> let matches = length (List.filter id bs) in if matches = 0 then Inr (cf_IsNotDefined flt) else Inr True)"
  by pat_completeness auto
termination
proof (relation "measure (\<lambda>x. case x of Inl (f, c) \<Rightarrow> 2 * size f + 2 * size c
                               | Inr (f, c) \<Rightarrow> 2 * size f + 2 * size c + 1)", goal_cases)
  case 1 show ?case by simp
next
  case (2 flt c b x)
  have "size x < size flt" using 2 by (cases flt) (auto dest!: size_list_estimation' [where f = size, OF _ order_refl])
  then show ?case by simp
next
  case (3 flt c child)
  have "size child < size c" using 3 by (cases c) (auto dest!: size_list_estimation' [where f = size, OF _ order_refl])
  then show ?case by simp
qed

declare match_comp.simps [simp del] matchCompFilter.simps [simp del]

definition cal_Match :: "CompFilter \<Rightarrow> CalendarObject \<Rightarrow> match_error + bool" where
  "cal_Match query co = (case co_Data co of None \<Rightarrow> Inl MatchPanic | Some c \<Rightarrow> match_comp query c)"

fun filter_loop :: "('a \<Rightarrow> match_error + bool) \<Rightarrow> 'a list \<Rightarrow> match_error + 'a list" where
  "filter_loop f [] = Inr []"
| "filter_loop f (x # xs) =
     (case f x of Inl e \<Rightarrow> Inl e
      | Inr b \<Rightarrow> (case filter_loop f xs of Inl e \<Rightarrow> Inl e | Inr ys \<Rightarrow> Inr (if b then x # ys else ys)))"

definition cal_Filter :: "CalendarQuery option \<Rightarrow> CalendarObject list \<Rightarrow> match_error + CalendarObject list" where
  "cal_Filter query cos = (case query of None \<Rightarrow> Inr cos | Some q \<Rightarrow> filter_loop (cal_Match (cq_CompFilter q)) cos)"

section \<open>What a filter means\<close>

text \<open>
  RFC 4791 9.7 for filters that ask for presence: the component has the name, every nested
  component filter is met by some child, every property filter by the property.
\<close>

definition sat_prop :: "PropFilter \<Rightarrow> comp \<Rightarrow> bool" where
  "sat_prop p c =
     (case comp_Prop c (pf_Name p) of
        None \<Rightarrow> False
      | Some field \<Rightarrow>
          list_all (\<lambda>pa. matchParamFilter pa field) (pf_ParamFilter p) \<and>
          (case pf_TextMatch p of None \<Rightarrow> True | Some t \<Rightarrow> matchTextMatch t (p_Value field)))"

fun sat_comp :: "CompFilter \<Rightarrow> comp \<Rightarrow> bool" where
  "sat_comp (CompFilter n nd s e ps fs) c =
     (comp_Name c = n \<and> list_all (\<lambda>f. list_ex (sat_comp f) (comp_Children c)) fs \<and> list_all (\<lambda>p. sat_prop p c) ps)"

fun presence_filter :: "CompFilter \<Rightarrow> bool" where
  "presence_filter (CompFilter n nd s e ps fs) =
     (\<not> nd \<and> s = zeroTime \<and> list_all (\<lambda>p. \<not> pf_IsNotDefined p \<and> pf_Start p = zeroTime) ps \<and> list_all presence_filter fs)"

lemma matchPropFilter_sat: "\<not> pf_IsNotDefined p \<Longrightarrow> pf_Start p = zeroTime \<Longrightarrow> matchPropFilter p c = Inr (sat_prop p c)"
  by (auto simp: matchPropFilter_def sat_prop_def list_ex_iff list_all_iff split: option.splits)

lemma length_filter_id: "(length (List.filter id (map P xs)) = 0) = (\<not> list_ex P xs)"
  by (auto simp: filter_empty_conv list_ex_iff)

lemma match_presence:
  "presence_filter f \<Longrightarrow> match_comp f c = Inr (sat_comp f c)"
proof (induction f arbitrary: c)
  case (CompFilter n nd s e ps fs)
  have sub: "matchCompFilter f c = Inr (list_ex (sat_comp f) (comp_Children c))" if "f \<in> set fs" for f
  proof -
    have pf: "presence_filter f" using CompFilter.prems that by (auto simp: list_all_iff)
    then have nd: "\<not> cf_IsNotDefined f" by (cases f) auto
    have "map_ok (match_comp f) (comp_Children c) = Inr (map (sat_comp f) (comp_Children c))"
      using CompFilter.IH [OF that pf] by (intro map_ok_Inr) auto
    then show ?thesis
      using nd length_filter_id [of "sat_comp f" "comp_Children c"]
      by (simp add: matchCompFilter.simps Let_def)
  qed
  have "all_ok (\<lambda>f. matchCompFilter f c) fs = Inr (list_all (\<lambda>f. list_ex (sat_comp f) (comp_Children c)) fs)"
    using sub by (rule all_ok_Inr)
  moreover have "all_ok (\<lambda>p. matchPropFilter p c) ps = Inr (list_all (\<lambda>p. sat_prop p c) ps)"
    using CompFilter.prems by (intro all_ok_Inr matchPropFilter_sat) (auto simp: list_all_iff)
  ultimately show ?case using CompFilter.prems by (subst match_comp.simps) auto
qed

text \<open>
  A calendar-query whose filters ask for presence (no is-not-defined, no time range) keeps
  exactly the objects RFC 4791 says: every nested filter met by some child component, every
  property filter by the property; no object makes it fail.
\<close>

theorem cal_filter_presence:
  assumes "presence_filter (cq_CompFilter q)" and "list_all (\<lambda>co. co_Data co \<noteq> None) cos"
  shows "cal_Filter (Some q) cos = Inr (filter (\<lambda>co. sat_comp (cq_CompFilter q) (the (co_Data co))) cos)"
proof -
  have "filter_loop (cal_Match (cq_CompFilter q)) cos =
      Inr (filter (\<lambda>co. sat_comp (cq_CompFilter q) (the (co_Data co))) cos)"
    using assms(2)
  proof (induction cos)
    case (Cons co cos)
    then obtain c where "co_Data co = Some c" by auto
    then show ?case using Cons match_presence [OF assms(1), of c] by (simp add: cal_Match_def)
  qed simp
  then show ?thesis by (simp add: cal_Filter_def)
qed

definition sample_comp :: comp where
  "sample_comp = Comp ''VCALENDAR'' (\<lambda>_. None) (Inr None) (Inl MatchError) (Inl MatchError)
     [Comp ''VEVENT'' (\<lambda>n. if n = ''SUMMARY'' then Some \<lparr>p_Value = ''Lunch'', p_Param = (\<lambda>_. []), p_DateTime = Inl MatchError\<rparr> else None)
        (Inr None) (Inr 100) (Inr 200) []]"

definition sample_query :: CalendarQuery where
  "sample_query = \<lparr>cq_CompRequest = CalendarCompRequest ''VCALENDAR'' True [] True [] None,
     cq_CompFilter = CompFilter ''VCALENDAR'' False zeroTime zeroTime []
       [CompFilter ''VEVENT'' False zeroTime zeroTime
         [\<lparr>pf_Name = ''SUMMARY'', pf_IsNotDefined = False, pf_Start = zeroTime, pf_End = zeroTime,
           pf_TextMatch = Some \<lparr>tm_Text = ''unch'', tm_NegateCondition = False\<rparr>, pf_ParamFilter = []\<rparr>] []]\<rparr>"

definition sample_co :: CalendarObject where
  "sample_co = \<lparr>co_Path = ''/a'', co_ModTime = 0, co_ContentLength = 0, co_ETag = ''e'', co_Raw = [], co_Data = Some sample_comp\<rparr>"

theorem cal_filter_presence_witness: "cal_Filter (Some sample_query) [sample_co] = Inr [sample_co]"
proof -
  have "presence_filter (cq_CompFilter sample_query)"
    by (simp add: sample_query_def)
  moreover have "list_all (\<lambda>co. co_Data co \<noteq> None) [sample_co]" by (simp add: sample_co_def)
  moreover have "sat_comp (cq_CompFilter sample_query) (the (co_Data sample_co))"
    by (simp add: sample_query_def sample_co_def sample_comp_def sat_prop_def matchTextMatch_def HasPrefix_def)
  ultimately show ?thesis
    using cal_filter_presence [of sample_query "[sample_co]"] by simp
qed

text \<open>
  C40. The negative filters do not work: a component filter or a property filter that asks for
  something not to be defined accepts every component, whether it is defined or not.
\<close>

theorem cal_is_not_defined_accepts_all:
  "matchCompFilter (CompFilter n True zeroTime e [] []) c = Inr True \<and>
   matchPropFilter \<lparr>pf_Name = n, pf_IsNotDefined = True, pf_Start = zeroTime, pf_End = e, pf_TextMatch = None,
     pf_ParamFilter = []\<rparr> c = Inr True"
proof -
  have "match_comp (CompFilter n True zeroTime e [] []) d = Inr True" for d
    by (simp add: match_comp.simps)
  then have "map_ok (match_comp (CompFilter n True zeroTime e [] [])) ds = Inr (map (\<lambda>_. True) ds)" for ds
    by (intro map_ok_Inr) simp
  then show ?thesis
    by (simp add: matchCompFilter.simps matchPropFilter_def Let_def split: option.splits)
qed

end
