(* ===== verification/CardMatch.thy ===== *)
theory CardMatch
  imports Prelude "HOL-Library.AList"
begin

text \<open>
  \<open>internal/dav/carddav/match.go\<close> with the query types of \<open>carddav.go\<close>. A parsed card
  (\<open>vcard.Card\<close>) is the association list of its property names and their fields; \<open>Card.Get\<close> is
  the first field of a name. The panic of \<open>filterProperties\<close> on an empty card is an error value.
\<close>

datatype card_error = CardPanic | UnknownTest string

record Field =
  f_Value :: string
  f_Params :: "(string \<times> string list) list"
  f_Group :: string

type_synonym Card = "(string \<times> Field list) list"

definition Card_Get :: "Card \<Rightarrow> string \<Rightarrow> Field option" where
  "Card_Get vc name = (case map_of vc name of Some (f # _) \<Rightarrow> Some f | _ \<Rightarrow> None)"

record CardTextMatch =
  ct_Text :: string
  ct_NegateCondition :: bool
  ct_MatchType :: string

record CardParamFilter =
  cpa_Name :: string
  cpa_IsNotDefined :: bool
  cpa_TextMatch :: "CardTextMatch option"

record CardPropFilter =
  cp_Name :: string
  cp_Test :: string
  cp_IsNotDefined :: bool
  cp_TextMatches :: "CardTextMatch list"
  cp_Params :: "CardParamFilter list"

record AddressDataRequest =
  dr_Props :: "string list"
  dr_AllProp :: bool

record AddressBookQuery =
  aq_DataRequest :: AddressDataRequest
  aq_PropFilters :: "CardPropFilter list"
  aq_FilterTest :: string
  aq_Limit :: int

record AddressObject =
  ao_Path :: string
  ao_ModTime :: int
  ao_ContentLength :: nat
  ao_ETag :: string
  ao_Raw :: string
  ao_Card :: Card

abbreviation FilterAnyOf :: string where "FilterAnyOf \<equiv> ''anyof''"
abbreviation FilterAllOf :: string where "FilterAllOf \<equiv> ''allof''"
abbreviation MatchEquals :: string where "MatchEquals \<equiv> ''equals''"
abbreviation MatchContains :: string where "MatchContains \<equiv> ''contains''"
abbreviation MatchStartsWith :: string where "MatchStartsWith \<equiv> ''starts-with''"
abbreviation MatchEndsWith :: string where "MatchEndsWith \<equiv> ''ends-with''"

definition card_matchTextMatch :: "CardTextMatch \<Rightarrow> Field \<Rightarrow> card_error + bool" where
  "card_matchTextMatch txt field =
     (let t = ct_MatchType txt;
          ok = (if t = MatchEquals then Inr (ct_Text txt = f_Value field)
                else if t = MatchContains \<or> t = [] then Inr (Contains (f_Value field) (ct_Text txt))
                else if t = MatchStartsWith then Inr (HasPrefix (f_Value field) (ct_Text txt))
                else if t = MatchEndsWith then Inr (HasSuffix (f_Value field) (ct_Text txt))
                else Inl (UnknownTest t))
      in case ok of Inl e \<Rightarrow> Inl e | Inr b \<Rightarrow> Inr (if ct_NegateCondition txt then \<not> b else b))"

definition card_matchPropFilter :: "CardPropFilter \<Rightarrow> AddressObject \<Rightarrow> card_error + bool" where
  "card_matchPropFilter p ao =
     (case Card_Get (ao_Card ao) (cp_Name p) of
        None \<Rightarrow> Inr (cp_IsNotDefined p)
      | Some field \<Rightarrow>
          if cp_IsNotDefined p then Inr False
          else if cp_TextMatches p = [] then Inr True
          else if cp_Test p = FilterAnyOf \<or> cp_Test p = [] then
            any_ok (\<lambda>t. card_matchTextMatch t field) (cp_TextMatches p)
          else if cp_Test p = FilterAllOf then
            all_ok (\<lambda>t. card_matchTextMatch t field) (cp_TextMatches p)
          else Inl (UnknownTest (cp_Test p)))"

definition card_Match :: "AddressBookQuery option \<Rightarrow> AddressObject \<Rightarrow> card_error + bool" where
  "card_Match query ao =
     (case query of
        None \<Rightarrow> Inr True
      | Some q \<Rightarrow>
          if aq_FilterTest q = FilterAnyOf \<or> aq_FilterTest q = [] then
            any_ok (\<lambda>p. card_matchPropFilter p ao) (aq_PropFilters q)
          else if aq_FilterTest q = FilterAllOf then
            all_ok (\<lambda>p. card_matchPropFilter p ao) (aq_PropFilters q)
          else Inl (UnknownTest (aq_FilterTest q)))"

text \<open>
  The reduced card: VERSION, whatever it holds, and the requested properties that exist.
  \<open>result.Card[VERSION] = ao.Card[VERSION]\<close> writes an entry even where the card has none.
\<close>

fun pick_props :: "Card \<Rightarrow> string list \<Rightarrow> Card \<Rightarrow> Card" where
  "pick_props vc [] acc = acc"
| "pick_props vc (p # ps) acc =
     (case map_of vc p of Some fs \<Rightarrow> pick_props vc ps (AList.update p fs acc) | None \<Rightarrow> pick_props vc ps acc)"

definition filterProperties :: "AddressDataRequest \<Rightarrow> AddressObject \<Rightarrow> card_error + AddressObject" where
  "filterProperties req ao =
     (if dr_AllProp req \<or> dr_Props req = [] then Inr ao
      else if ao_Card ao = [] then Inl CardPanic
      else let version = (case map_of (ao_Card ao) ''VERSION'' of Some fs \<Rightarrow> fs | None \<Rightarrow> [])
           in Inr \<lparr>ao_Path = ao_Path ao, ao_ModTime = ao_ModTime ao, ao_ContentLength = 0, ao_ETag = ao_ETag ao,
                   ao_Raw = [], ao_Card = pick_props (ao_Card ao) (dr_Props req) [(''VERSION'', version)]\<rparr>)"

text \<open>The loop of \<open>Filter\<close>: \<open>n\<close> objects at most, \<open>out\<close> gathers them.\<close>

fun card_filter_loop :: "AddressBookQuery \<Rightarrow> nat \<Rightarrow> AddressObject list \<Rightarrow> AddressObject list \<Rightarrow> card_error + AddressObject list" where
  "card_filter_loop q n out [] = Inr out"
| "card_filter_loop q n out (ao # aos) =
     (case card_Match (Some q) ao of
        Inl e \<Rightarrow> Inl e
      | Inr b \<Rightarrow>
          if \<not> b then card_filter_loop q n out aos
          else (case filterProperties (aq_DataRequest q) ao of
                  Inl e \<Rightarrow> Inl e
                | Inr r \<Rightarrow>
                    if length (out @ [r]) \<ge> n then Inr (out @ [r]) else card_filter_loop q n (out @ [r]) aos))"

definition card_Filter :: "AddressBookQuery option \<Rightarrow> AddressObject list \<Rightarrow> card_error + AddressObject list" where
  "card_Filter query aos =
     (case query of
        None \<Rightarrow> Inr aos
      | Some q \<Rightarrow>
          let n = (if aq_Limit q \<le> 0 \<or> aq_Limit q > int (length aos) then length aos else nat (aq_Limit q))
          in card_filter_loop q n [] aos)"

section \<open>What a query means\<close>

definition known_test :: "string \<Rightarrow> bool" where
  "known_test t = (t \<in> {[], FilterAnyOf, FilterAllOf})"

definition known_query :: "AddressBookQuery \<Rightarrow> bool" where
  "known_query q =
     (known_test (aq_FilterTest q) \<and>
      list_all (\<lambda>p. known_test (cp_Test p) \<and>
        list_all (\<lambda>t. ct_MatchType t \<in> {[], MatchEquals, MatchContains, MatchStartsWith, MatchEndsWith}) (cp_TextMatches p))
        (aq_PropFilters q))"

definition quantify :: "string \<Rightarrow> ('a \<Rightarrow> bool) \<Rightarrow> 'a list \<Rightarrow> bool" where
  "quantify test P xs = (if test = FilterAllOf then list_all P xs else list_ex P xs)"

definition text_sat :: "CardTextMatch \<Rightarrow> string \<Rightarrow> bool" where
  "text_sat t v =
     ((if ct_MatchType t = MatchEquals then v = ct_Text t
       else if ct_MatchType t = MatchStartsWith then \<exists>r. v = ct_Text t @ r
       else if ct_MatchType t = MatchEndsWith then \<exists>r. v = r @ ct_Text t
       else \<exists>a b. v = a @ ct_Text t @ b) \<noteq> ct_NegateCondition t)"

definition prop_sat :: "CardPropFilter \<Rightarrow> Card \<Rightarrow> bool" where
  "prop_sat p vc =
     (case Card_Get vc (cp_Name p) of
        None \<Rightarrow> cp_IsNotDefined p
      | Some f \<Rightarrow> \<not> cp_IsNotDefined p \<and>
          (cp_TextMatches p = [] \<or> quantify (cp_Test p) (\<lambda>t. text_sat t (f_Value f)) (cp_TextMatches p)))"

definition query_sat :: "AddressBookQuery \<Rightarrow> Card \<Rightarrow> bool" where
  "query_sat q vc = quantify (aq_FilterTest q) (\<lambda>p. prop_sat p vc) (aq_PropFilters q)"

lemma card_matchTextMatch_sat:
  "ct_MatchType t \<in> {[], MatchEquals, MatchContains, MatchStartsWith, MatchEndsWith} \<Longrightarrow>
   card_matchTextMatch t f = Inr (text_sat t (f_Value f))"
  by (auto simp: card_matchTextMatch_def text_sat_def Contains_iff HasPrefix_iff HasSuffix_iff)

lemma card_matchPropFilter_sat:
  assumes "known_test (cp_Test p)"
    and "list_all (\<lambda>t. ct_MatchType t \<in> {[], MatchEquals, MatchContains, MatchStartsWith, MatchEndsWith}) (cp_TextMatches p)"
  shows "card_matchPropFilter p ao = Inr (prop_sat p (ao_Card ao))"
proof -
  have t: "card_matchTextMatch t f = Inr (text_sat t (f_Value f))" if "t \<in> set (cp_TextMatches p)" for t f
    using assms(2) that by (intro card_matchTextMatch_sat) (auto simp: list_all_iff)
  have "any_ok (\<lambda>t. card_matchTextMatch t f) (cp_TextMatches p) = Inr (list_ex (\<lambda>t. text_sat t (f_Value f)) (cp_TextMatches p))"
    "all_ok (\<lambda>t. card_matchTextMatch t f) (cp_TextMatches p) = Inr (list_all (\<lambda>t. text_sat t (f_Value f)) (cp_TextMatches p))" for f
    by (rule any_ok_Inr, erule t) (rule all_ok_Inr, erule t)
  then show ?thesis
    using assms(1) by (auto simp: card_matchPropFilter_def prop_sat_def known_test_def quantify_def split: option.splits)
qed

lemma card_Match_sat: "known_query q \<Longrightarrow> card_Match (Some q) ao = Inr (query_sat q (ao_Card ao))"
proof -
  assume k: "known_query q"
  then have t: "card_matchPropFilter p ao = Inr (prop_sat p (ao_Card ao))" if "p \<in> set (aq_PropFilters q)" for p
    using that by (intro card_matchPropFilter_sat) (auto simp: known_query_def list_all_iff)
  have "any_ok (\<lambda>p. card_matchPropFilter p ao) (aq_PropFilters q) = Inr (list_ex (\<lambda>p. prop_sat p (ao_Card ao)) (aq_PropFilters q))"
    "all_ok (\<lambda>p. card_matchPropFilter p ao) (aq_PropFilters q) = Inr (list_all (\<lambda>p. prop_sat p (ao_Card ao)) (aq_PropFilters q))"
    by (rule any_ok_Inr, erule t) (rule all_ok_Inr, erule t)
  then show ?thesis
    using k by (auto simp: card_Match_def query_sat_def quantify_def known_query_def known_test_def)
qed

lemma card_filter_loop_sat:
  assumes "known_query q" and "\<And>ao. ao \<in> set aos \<Longrightarrow> filterProperties (aq_DataRequest q) ao = Inr (g ao)" and "length out < n"
  shows "card_filter_loop q n out aos = Inr (out @ take (n - length out) (map g (filter (\<lambda>ao. query_sat q (ao_Card ao)) aos)))"
  using assms(2,3)
proof (induction aos arbitrary: out)
  case (Cons ao aos)
  show ?case
  proof (cases "query_sat q (ao_Card ao)")
    case False
    then show ?thesis using Cons card_Match_sat [OF assms(1), of ao] by simp
  next
    case True
    let ?rest = "map g (filter (\<lambda>ao. query_sat q (ao_Card ao)) aos)"
    have m: "card_Match (Some q) ao = Inr True" "filterProperties (aq_DataRequest q) ao = Inr (g ao)"
      using True card_Match_sat [OF assms(1), of ao] Cons.prems(1) by simp_all
    show ?thesis
    proof (cases "length (out @ [g ao]) \<ge> n")
      case stop: True
      then have "n - length out = 1" using Cons.prems(2) by simp
      then show ?thesis using m stop True by simp
    next
      case go: False
      then have "card_filter_loop q n (out @ [g ao]) aos = Inr ((out @ [g ao]) @ take (n - length (out @ [g ao])) ?rest)"
        using Cons by (intro Cons.IH) auto
      moreover have "n - length out = Suc (n - length (out @ [g ao]))" using go by simp
      ultimately show ?thesis using m go True by simp
    qed
  qed
qed simp

text \<open>
  What a client gets of a card it asks some properties of: the same resource and ETag, no bytes, and a card that has the properties
  asked for, each with all its fields, where the card has them, and VERSION, without a field where the card has none.
\<close>

definition picks :: "string list \<Rightarrow> AddressObject \<Rightarrow> AddressObject \<Rightarrow> bool" where
  "picks ps ao r =
     (ao_Path r = ao_Path ao \<and> ao_ModTime r = ao_ModTime ao \<and> ao_ETag r = ao_ETag ao \<and> ao_Raw r = [] \<and> ao_ContentLength r = 0 \<and>
        distinct (map fst (ao_Card r)) \<and> fst ` set (ao_Card r) = insert ''VERSION'' (set ps \<inter> fst ` set (ao_Card ao)) \<and>
        (\<forall>(p, fs) \<in> set (ao_Card r). map_of (ao_Card ao) p = Some fs \<or> p = ''VERSION'' \<and> fs = [] \<and> p \<notin> fst ` set (ao_Card ao)))"

definition reduced_to :: "AddressDataRequest \<Rightarrow> AddressObject \<Rightarrow> AddressObject \<Rightarrow> bool" where
  "reduced_to req ao r = (if dr_AllProp req \<or> dr_Props req = [] then r = ao else picks (dr_Props req) ao r)"

lemma pick_props_map:
  "distinct (map fst acc) \<Longrightarrow> distinct (map fst (pick_props vc ps acc)) \<and>
   map_of (pick_props vc ps acc) = (\<lambda>p. if p \<in> set ps \<and> map_of vc p \<noteq> None then map_of vc p else map_of acc p)"
proof (induction vc ps acc rule: pick_props.induct)
  case (2 vc p ps acc)
  show ?case
  proof (cases "map_of vc p")
    case None
    then show ?thesis using "2.IH"(1) [OF None] "2.prems" by (auto simp: fun_eq_iff)
  next
    case (Some fs)
    have "distinct (map fst (AList.update p fs acc))" using "2.prems" by (rule AList.distinct_update)
    then show ?thesis using "2.IH"(2) [OF Some] Some by (auto simp: fun_eq_iff AList.update_conv')
  qed
qed auto

lemma filterProperties_reduced:
  assumes "ao_Card ao \<noteq> []"
  shows "\<exists>r. filterProperties req ao = Inr r \<and> reduced_to req ao r"
proof (cases "dr_AllProp req \<or> dr_Props req = []")
  case True
  then show ?thesis by (simp add: filterProperties_def reduced_to_def)
next
  case False
  let ?v = "case map_of (ao_Card ao) ''VERSION'' of Some fs \<Rightarrow> fs | None \<Rightarrow> []"
  let ?c = "pick_props (ao_Card ao) (dr_Props req) [(''VERSION'', ?v)]"
  have m: "distinct (map fst ?c)" "map_of ?c = (\<lambda>p. if p \<in> set (dr_Props req) \<and> map_of (ao_Card ao) p \<noteq> None then map_of (ao_Card ao) p
      else map_of [(''VERSION'', ?v)] p)"
    using pick_props_map [of "[(''VERSION'', ?v)]" "ao_Card ao" "dr_Props req"] by simp_all
  have "fst ` set ?c = dom (map_of ?c)" by (simp add: dom_map_of_conv_image_fst)
  also have "\<dots> = insert ''VERSION'' (set (dr_Props req) \<inter> fst ` set (ao_Card ao))"
    unfolding m(2) dom_map_of_conv_image_fst [symmetric] by (auto simp: dom_def)
  finally have keys: "fst ` set ?c = \<dots>" .
  have "map_of (ao_Card ao) p = Some fs \<or> p = ''VERSION'' \<and> fs = [] \<and> p \<notin> fst ` set (ao_Card ao)" if "(p, fs) \<in> set ?c" for p fs
  proof -
    have "map_of ?c p = Some fs" using that m(1) by simp
    then show ?thesis unfolding m(2) by (auto simp: map_of_eq_None_iff split: if_splits option.splits)
  qed
  then show ?thesis using False assms m(1) keys by (auto simp: filterProperties_def reduced_to_def picks_def Let_def)
qed

text \<open>
  C31. An addressbook-query whose tests are known answers with exactly the cards that satisfy it, in order and cut to the limit when
  there is one, each reduced to the properties asked for; it neither fails nor panics as long as every card was parsed. A
  property filter looks at the first occurrence of its property alone, and its parameter filters and collations are not looked
  at, as the comments in the code say.
\<close>

theorem card_filter_meaning:
  assumes "known_query q" and "list_all (\<lambda>ao. ao_Card ao \<noteq> []) aos"
  shows "\<exists>rs. card_Filter (Some q) aos = Inr rs \<and>
    list_all2 (reduced_to (aq_DataRequest q))
      (let hits = filter (\<lambda>ao. query_sat q (ao_Card ao)) aos in if aq_Limit q \<le> 0 then hits else take (nat (aq_Limit q)) hits) rs"
proof (cases "aos = []")
  case True
  then show ?thesis by (simp add: card_Filter_def)
next
  case False
  let ?g = "\<lambda>ao. SOME r. filterProperties (aq_DataRequest q) ao = Inr r \<and> reduced_to (aq_DataRequest q) ao r"
  let ?n = "if aq_Limit q \<le> 0 \<or> aq_Limit q > int (length aos) then length aos else nat (aq_Limit q)"
  let ?sat = "filter (\<lambda>ao. query_sat q (ao_Card ao)) aos"
  have g: "filterProperties (aq_DataRequest q) ao = Inr (?g ao)" "reduced_to (aq_DataRequest q) ao (?g ao)" if "ao \<in> set aos" for ao
    using someI_ex [OF filterProperties_reduced] assms(2) that by (auto simp: list_all_iff)
  have "0 < ?n" using False by auto
  then have "card_filter_loop q ?n [] aos = Inr (take ?n (map ?g ?sat))"
    using card_filter_loop_sat [OF assms(1), of aos ?g "[]" ?n] g(1) by simp
  moreover have "list_all2 (reduced_to (aq_DataRequest q)) (take ?n ?sat) (take ?n (map ?g ?sat))"
    using g(2) by (auto simp: take_map list_all2_map2 list.rel_refl_strong dest!: in_set_takeD intro!: list.rel_refl_strong)
  moreover have "take ?n ?sat = (if aq_Limit q \<le> 0 then ?sat else take (nat (aq_Limit q)) ?sat)"
  proof -
    have l: "length ?sat \<le> length aos" by simp
    then have "take (length aos) ?sat = ?sat" by (rule take_all)
    moreover have "take (nat (aq_Limit q)) ?sat = ?sat" if "int (length aos) < aq_Limit q"
      using that l by (intro take_all) linarith
    ultimately show ?thesis by auto
  qed
  ultimately show ?thesis by (simp add: card_Filter_def Let_def)
qed

text \<open>Two cards with a note, a query for the name of the one, and the name is all that is asked for.\<close>

definition text_field :: "string \<Rightarrow> Field" where
  "text_field v = \<lparr>f_Value = v, f_Params = [], f_Group = []\<rparr>"

definition sample_ao :: "string \<Rightarrow> string \<Rightarrow> AddressObject" where
  "sample_ao path fn = \<lparr>ao_Path = path, ao_ModTime = 0, ao_ContentLength = 0, ao_ETag = ''e'', ao_Raw = [],
     ao_Card = [(''VERSION'', [text_field ''3.0'']), (''FN'', [text_field fn]), (''NOTE'', [text_field ''x''])]\<rparr>"

definition sample_card_query :: AddressBookQuery where
  "sample_card_query = \<lparr>aq_DataRequest = \<lparr>dr_Props = [''FN'', ''TEL''], dr_AllProp = False\<rparr>,
     aq_PropFilters = [\<lparr>cp_Name = ''FN'', cp_Test = [], cp_IsNotDefined = False,
       cp_TextMatches = [\<lparr>ct_Text = ''Lov'', ct_NegateCondition = False, ct_MatchType = MatchContains\<rparr>], cp_Params = []\<rparr>],
     aq_FilterTest = FilterAllOf, aq_Limit = 1\<rparr>"

lemma sample_hits:
  "known_query sample_card_query"
  "filter (\<lambda>ao. query_sat sample_card_query (ao_Card ao)) [sample_ao ''/b'' ''Babbage'', sample_ao ''/a'' ''Ada Lovelace''] =
    [sample_ao ''/a'' ''Ada Lovelace'']"
proof -
  show k: "known_query sample_card_query" by code_simp
  have sat: "query_sat sample_card_query (ao_Card ao) = (case card_Match (Some sample_card_query) ao of Inr b \<Rightarrow> b | Inl _ \<Rightarrow> False)" for ao
    using card_Match_sat [OF k, of ao] by simp
  have "map (\<lambda>ao. query_sat sample_card_query (ao_Card ao)) [sample_ao ''/b'' ''Babbage'', sample_ao ''/a'' ''Ada Lovelace''] = [False, True]"
    unfolding sat by code_simp
  then show "filter (\<lambda>ao. query_sat sample_card_query (ao_Card ao)) [sample_ao ''/b'' ''Babbage'', sample_ao ''/a'' ''Ada Lovelace''] =
      [sample_ao ''/a'' ''Ada Lovelace'']" by simp
qed

lemma picks_parts:
  assumes "picks ps ao r"
  shows "ao_Path r = ao_Path ao" "fst ` set (ao_Card r) = insert ''VERSION'' (set ps \<inter> fst ` set (ao_Card ao))"
    "(p, fs) \<in> set (ao_Card r) \<Longrightarrow> p \<noteq> ''VERSION'' \<Longrightarrow> map_of (ao_Card ao) p = Some fs"
proof -
  note c = assms [unfolded picks_def]
  show "ao_Path r = ao_Path ao" using c by (elim conjE)
  show "fst ` set (ao_Card r) = insert ''VERSION'' (set ps \<inter> fst ` set (ao_Card ao))" using c by (elim conjE)
  assume m: "(p, fs) \<in> set (ao_Card r)" "p \<noteq> ''VERSION''"
  from c have "\<forall>(p, fs) \<in> set (ao_Card r). map_of (ao_Card ao) p = Some fs \<or> p = ''VERSION'' \<and> fs = [] \<and> p \<notin> fst ` set (ao_Card ao)"
    by (elim conjE)
  from bspec [OF this m(1)] m(2) show "map_of (ao_Card ao) p = Some fs" unfolding prod.case by blast
qed

lemma sample_reduced:
  assumes "reduced_to (aq_DataRequest sample_card_query) (sample_ao ''/a'' ''Ada Lovelace'') r"
  shows "ao_Path r = ''/a''" "fst ` set (ao_Card r) = {''VERSION'', ''FN''}" "(''FN'', [text_field ''Ada Lovelace'']) \<in> set (ao_Card r)"
proof -
  let ?a = "sample_ao ''/a'' ''Ada Lovelace''"
  have c: "fst ` set (ao_Card ?a) = {''VERSION'', ''FN'', ''NOTE''}" "map_of (ao_Card ?a) ''FN'' = Some [text_field ''Ada Lovelace'']"
    "ao_Path ?a = ''/a''" by (simp_all add: sample_ao_def)
  have q: "\<not> dr_AllProp (aq_DataRequest sample_card_query)" "dr_Props (aq_DataRequest sample_card_query) = [''FN'', ''TEL'']"
    by (simp_all add: sample_card_query_def)
  have "picks (dr_Props (aq_DataRequest sample_card_query)) ?a r"
    using assms q(1) unfolding reduced_to_def q(2) by (simp only: list.distinct simp_thms if_False)
  note r = picks_parts [OF this]
  show "ao_Path r = ''/a''" using r(1) c(3) by (rule trans)
  have own: "set [''FN'', ''TEL''] \<inter> {''VERSION'', ''FN'', ''NOTE''} = {''FN''}" by auto
  show k: "fst ` set (ao_Card r) = {''VERSION'', ''FN''}" using r(2) unfolding q(2) c(1) own .
  have "''FN'' \<in> fst ` set (ao_Card r)" unfolding k by (rule insertI2, rule singletonI)
  then have "\<exists>fs. (''FN'', fs) \<in> set (ao_Card r)" by (elim imageE) (metis prod.collapse)
  then obtain fs where fs: "(''FN'', fs) \<in> set (ao_Card r)" ..
  have "''FN'' \<noteq> ''VERSION''" by simp
  from r(3) [OF fs this] have "fs = [text_field ''Ada Lovelace'']" unfolding c(2) by simp
  then show "(''FN'', [text_field ''Ada Lovelace'']) \<in> set (ao_Card r)" using fs by simp
qed

theorem card_filter_meaning_witness:
  "\<exists>r. card_Filter (Some sample_card_query) [sample_ao ''/b'' ''Babbage'', sample_ao ''/a'' ''Ada Lovelace''] = Inr [r] \<and>
     ao_Path r = ''/a'' \<and> fst ` set (ao_Card r) = {''VERSION'', ''FN''} \<and> (''FN'', [text_field ''Ada Lovelace'']) \<in> set (ao_Card r)"
proof -
  let ?a = "sample_ao ''/a'' ''Ada Lovelace''"
  have n: "list_all (\<lambda>ao. ao_Card ao \<noteq> []) [sample_ao ''/b'' ''Babbage'', ?a]" by (simp add: sample_ao_def)
  have one: "aq_Limit sample_card_query = 1" by (simp add: sample_card_query_def)
  have hits: "(if (1::int) \<le> 0 then [x] else take (nat 1) [x]) = [x]" for x :: AddressObject by simp
  have "\<exists>rs. card_Filter (Some sample_card_query) [sample_ao ''/b'' ''Babbage'', ?a] = Inr rs \<and>
      list_all2 (reduced_to (aq_DataRequest sample_card_query)) [?a] rs"
    using card_filter_meaning [OF sample_hits(1) n] unfolding sample_hits(2) one Let_def hits .
  then obtain rs where rs: "card_Filter (Some sample_card_query) [sample_ao ''/b'' ''Babbage'', ?a] = Inr rs"
    "list_all2 (reduced_to (aq_DataRequest sample_card_query)) [?a] rs" by (elim exE conjE)
  have "\<exists>r. rs = [r] \<and> P x r" if "list_all2 P [x] rs" for P and x :: AddressObject using that by (cases rs) auto
  from this [OF rs(2)] obtain r where r: "rs = [r]" "reduced_to (aq_DataRequest sample_card_query) ?a r" by (elim exE conjE)
  note q = sample_reduced [OF r(2)]
  show ?thesis by (intro exI [of _ r] conjI q) (rule rs(1) [unfolded r(1)])
qed

end
