(* ===== verification/Backends.thy ===== *)
theory Backends
  imports Sync Paths Http CalMatch CardMatch
begin

text \<open>
  \<open>internal/dav/carddav.go\<close>, \<open>caldav.go\<close> and \<open>vcard.go\<close>: the two backends that answer the protocol
  handlers from the storage layer. The authenticated user of the request context is an option; an
  operation that writes returns its result and the database it leaves. What the code takes from
  the go-ical and go-vcard libraries and from the recurrence package is the record \<open>lib\<close>.
\<close>

text \<open>The columns derived from a calendar object (\<open>recurrence.Bounds\<close>).\<close>

record Bounds =
  b_UID :: string
  b_ComponentType :: string
  b_Summary :: string
  b_Start :: "time option"
  b_End :: "time option"
  b_Recurring :: bool

text \<open>
  SHA-256, the two decoders (\<open>None\<close> is a parse error), \<open>Summarise\<close> and \<open>Overlaps\<close> of an expander.
\<close>

record lib =
  l_hash :: "string \<Rightarrow> string"
  l_dec_cal :: "string \<Rightarrow> comp option"
  l_dec_card :: "string \<Rightarrow> Card option"
  l_summarise :: "comp \<Rightarrow> Bounds option"
  l_overlaps :: "comp \<Rightarrow> time \<Rightarrow> time \<Rightarrow> bool option"

text \<open>The header values of a PUT (\<open>PutAddressObjectOptions\<close>, \<open>PutCalendarObjectOptions\<close>).\<close>

record PutOptions =
  IfNoneMatch :: ConditionalMatch
  IfMatch :: ConditionalMatch

section \<open>Shared by both backends\<close>

definition userFrom :: "user option \<Rightarrow> http_error + user" where
  "userFrom ctx = (case ctx of None \<Rightarrow> Inl (HTTPError StatusUnauthorized) | Some u \<Rightarrow> Inr u)"

definition notFoundIfMissing :: "serror \<Rightarrow> http_error" where
  "notFoundIfMissing e = (if e = ErrNotFound then HTTPError StatusNotFound else PlainError)"

definition resolve :: "Paths \<Rightarrow> user option \<Rightarrow> string \<Rightarrow> http_error + user \<times> Resource" where
  "resolve p ctx path =
     bindE (userFrom ctx) (\<lambda>u.
       case parse_path p path of
         None \<Rightarrow> Inl (HTTPError StatusNotFound)
       | Some res \<Rightarrow>
           if r_User res \<noteq> [] \<and> \<not> EqualFold (r_User res) (u_Username u) then Inl (HTTPError StatusForbidden)
           else Inr (u, res))"

definition collectionOfType :: "int \<Rightarrow> string \<Rightarrow> string \<Rightarrow> db \<Rightarrow> http_error + collection" where
  "collectionOfType owner uri typ db =
     bindE (mapE notFoundIfMissing (CollectionByURI owner uri db)) (\<lambda>c.
       if c_Type c \<noteq> typ then Inl (HTTPError StatusNotFound) else Inr c)"

definition checkPreconditions :: "PutOptions option \<Rightarrow> object option \<Rightarrow> http_error + unit" where
  "checkPreconditions opts existing =
     (case opts of
        None \<Rightarrow> Inr ()
      | Some opts \<Rightarrow>
          if IsSet (IfNoneMatch opts) then
            (if existing \<noteq> None then Inl (HTTPError StatusPreconditionFailed) else Inr ())
          else if IsSet (IfMatch opts) then
            (case existing of
               None \<Rightarrow> Inl (HTTPError StatusPreconditionFailed)
             | Some obj \<Rightarrow>
                 (case MatchETag (IfMatch opts) (o_ETag obj) of
                    Inl _ \<Rightarrow> Inl (HTTPError StatusBadRequest)
                  | Inr ok \<Rightarrow> if \<not> ok then Inl (HTTPError StatusPreconditionFailed) else Inr ()))
          else Inr ())"

definition existing_object :: "int \<Rightarrow> string \<Rightarrow> db \<Rightarrow> http_error + object option" where
  "existing_object cid uri db =
     (case ObjectByURI cid uri db of
        Inr x \<Rightarrow> Inr (Some x) | Inl e \<Rightarrow> if e \<noteq> ErrNotFound then Inl PlainError else Inr None)"

definition syncTokenError :: "sync_error \<Rightarrow> http_error" where
  "syncTokenError e = (case e of InvalidSyncToken _ \<Rightarrow> DAVError StatusForbidden ''valid-sync-token'' | SyncStorage _ \<Rightarrow> PlainError)"

definition CurrentUserPrincipal :: "Paths \<Rightarrow> user option \<Rightarrow> http_error + string" where
  "CurrentUserPrincipal p ctx = bindE (userFrom ctx) (\<lambda>u. Inr (Principal p (u_Username u)))"

definition AddressBookHomeSetPath :: "Paths \<Rightarrow> user option \<Rightarrow> http_error + string" where
  "AddressBookHomeSetPath p ctx = bindE (userFrom ctx) (\<lambda>u. Inr (AddressBookHome p (u_Username u)))"

definition CalendarHomeSetPath :: "Paths \<Rightarrow> user option \<Rightarrow> http_error + string" where
  "CalendarHomeSetPath p ctx = bindE (userFrom ctx) (\<lambda>u. Inr (CalendarHome p (u_Username u)))"

section \<open>CardDAV\<close>

record BookInfo =
  bk_Path :: string
  bk_Name :: string
  bk_Description :: string
  bk_MaxResourceSize :: int
  bk_SyncToken :: string

definition card_MaxResourceSize :: int where "card_MaxResourceSize = 1048576"

definition addressBook :: "Paths \<Rightarrow> string \<Rightarrow> collection \<Rightarrow> BookInfo" where
  "addressBook p username c =
     \<lparr>bk_Path = AddressBook p username (c_URI c), bk_Name = c_DisplayName c, bk_Description = c_Description c,
      bk_MaxResourceSize = card_MaxResourceSize, bk_SyncToken = encodeSyncToken (c_SyncSeq c)\<rparr>"

definition addressObject ::
    "lib \<Rightarrow> Paths \<Rightarrow> string \<Rightarrow> collection \<Rightarrow> object \<Rightarrow> AddressDataRequest option \<Rightarrow> bool \<Rightarrow> http_error + AddressObject" where
  "addressObject L p username c obj req withCard =
     (let ao = \<lparr>ao_Path = AddressObject p username (c_URI c) (o_URI obj), ao_ModTime = o_UpdatedAt obj,
                ao_ContentLength = length (o_Raw obj), ao_ETag = o_ETag obj, ao_Raw = o_Raw obj, ao_Card = []\<rparr>
      in if withCard \<or> (case req of None \<Rightarrow> False | Some r \<Rightarrow> dr_AllProp r \<or> dr_Props r \<noteq> []) then
           (case l_dec_card L (o_Raw obj) of None \<Rightarrow> Inl PlainError | Some vc \<Rightarrow> Inr (ao\<lparr>ao_Card := vc\<rparr>))
         else Inr ao)"

definition ListAddressBooks :: "Paths \<Rightarrow> user option \<Rightarrow> db \<Rightarrow> http_error + BookInfo list" where
  "ListAddressBooks p ctx db =
     bindE (userFrom ctx) (\<lambda>u.
       Inr (map (addressBook p (u_Username u)) (ListCollections (u_ID u) CollectionAddressBook db)))"

definition resolveAddressBook :: "Paths \<Rightarrow> user option \<Rightarrow> string \<Rightarrow> db \<Rightarrow> http_error + user \<times> collection" where
  "resolveAddressBook p ctx path db =
     bindE (resolve p ctx path) (\<lambda>(u, res).
       if r_Kind res \<noteq> KindAddressBook then Inl (HTTPError StatusNotFound)
       else bindE (collectionOfType (u_ID u) (r_Collection res) CollectionAddressBook db) (\<lambda>c. Inr (u, c)))"

definition GetAddressBook :: "Paths \<Rightarrow> user option \<Rightarrow> string \<Rightarrow> db \<Rightarrow> http_error + BookInfo" where
  "GetAddressBook p ctx path db =
     bindE (resolveAddressBook p ctx path db) (\<lambda>(u, c). Inr (addressBook p (u_Username u) c))"

definition CreateAddressBook :: "Paths \<Rightarrow> int \<Rightarrow> user option \<Rightarrow> BookInfo \<Rightarrow> db \<Rightarrow> (http_error + unit) \<times> db" where
  "CreateAddressBook p now ctx ab db =
     (case resolve p ctx (bk_Path ab) of
        Inl e \<Rightarrow> (Inl e, db)
      | Inr (u, res) \<Rightarrow>
          if r_Kind res \<noteq> KindAddressBook then (Inl (HTTPError StatusForbidden), db)
          else (case CreateCollection now
                  \<lparr>c_ID = 0, c_OwnerID = u_ID u, c_Type = CollectionAddressBook, c_URI = r_Collection res,
                   c_DisplayName = bk_Name ab, c_Description = bk_Description ab, c_Color = [], c_Timezone = [],
                   c_CTag = [], c_SyncSeq = 0, c_CreatedAt = 0, c_UpdatedAt = 0\<rparr> db of
                  (Inl ErrConflict, db') \<Rightarrow> (Inl (HTTPError StatusMethodNotAllowed), db')
                | (Inl _, db') \<Rightarrow> (Inl PlainError, db')
                | (Inr _, db') \<Rightarrow> (Inr (), db')))"

definition DeleteAddressBook :: "Paths \<Rightarrow> user option \<Rightarrow> string \<Rightarrow> db \<Rightarrow> (http_error + unit) \<times> db" where
  "DeleteAddressBook p ctx path db =
     (case resolveAddressBook p ctx path db of
        Inl e \<Rightarrow> (Inl e, db)
      | Inr (u, c) \<Rightarrow> (case DeleteCollection (c_ID c) db of (r, db') \<Rightarrow> (mapE (\<lambda>_. PlainError) r, db')))"

definition GetAddressObject ::
    "lib \<Rightarrow> Paths \<Rightarrow> user option \<Rightarrow> string \<Rightarrow> AddressDataRequest option \<Rightarrow> db \<Rightarrow> http_error + AddressObject" where
  "GetAddressObject L p ctx path req db =
     bindE (resolve p ctx path) (\<lambda>(u, res).
       if r_Kind res \<noteq> KindAddressObject then Inl (HTTPError StatusNotFound)
       else bindE (collectionOfType (u_ID u) (r_Collection res) CollectionAddressBook db) (\<lambda>c.
         bindE (mapE notFoundIfMissing (ObjectByURI (c_ID c) (r_Object res) db)) (\<lambda>obj.
           addressObject L p (u_Username u) c obj req False)))"

definition listAddressObjects ::
    "lib \<Rightarrow> Paths \<Rightarrow> user option \<Rightarrow> string \<Rightarrow> AddressDataRequest option \<Rightarrow> bool \<Rightarrow> db \<Rightarrow> http_error + AddressObject list" where
  "listAddressObjects L p ctx path req withCard db =
     bindE (resolveAddressBook p ctx path db) (\<lambda>(u, c).
       map_ok (\<lambda>obj. addressObject L p (u_Username u) c obj req withCard) (ListObjects (c_ID c) db))"

definition ListAddressObjects ::
    "lib \<Rightarrow> Paths \<Rightarrow> user option \<Rightarrow> string \<Rightarrow> AddressDataRequest option \<Rightarrow> db \<Rightarrow> http_error + AddressObject list" where
  "ListAddressObjects L p ctx path req db = listAddressObjects L p ctx path req False db"

definition QueryAddressObjects ::
    "lib \<Rightarrow> Paths \<Rightarrow> user option \<Rightarrow> string \<Rightarrow> AddressBookQuery option \<Rightarrow> db \<Rightarrow> http_error + AddressObject list" where
  "QueryAddressObjects L p ctx path query db =
     bindE (listAddressObjects L p ctx path (map_option aq_DataRequest query) True db) (\<lambda>aos.
       mapE (\<lambda>_. PlainError) (card_Filter query aos))"

definition Card_Value :: "Card \<Rightarrow> string \<Rightarrow> string" where
  "Card_Value vc name = (case Card_Get vc name of None \<Rightarrow> [] | Some f \<Rightarrow> f_Value f)"

definition cardIndex :: "lib \<Rightarrow> string \<Rightarrow> (string \<times> string) option" where
  "cardIndex L raw =
     (case l_dec_card L raw of
        None \<Rightarrow> None
      | Some vc \<Rightarrow>
          if Card_Value vc ''UID'' = [] then None else Some (Card_Value vc ''UID'', Card_Value vc ''FN''))"

definition PutAddressObject ::
    "lib \<Rightarrow> Paths \<Rightarrow> int \<Rightarrow> user option \<Rightarrow> string \<Rightarrow> string \<Rightarrow> PutOptions option \<Rightarrow> db \<Rightarrow> (http_error + AddressObject) \<times> db" where
  "PutAddressObject L p now ctx path raw opts db =
     (case bindE (resolve p ctx path) (\<lambda>(u, res).
             if r_Kind res \<noteq> KindAddressObject then Inl (HTTPError StatusForbidden)
             else bindE (collectionOfType (u_ID u) (r_Collection res) CollectionAddressBook db) (\<lambda>c.
               bindE (existing_object (c_ID c) (r_Object res) db) (\<lambda>existing.
                 bindE (checkPreconditions opts existing) (\<lambda>_.
                   case cardIndex L raw of
                     None \<Rightarrow> Inl (HTTPError StatusBadRequest)
                   | Some (uid, fn) \<Rightarrow> Inr (u, res, c, uid, fn))))) of
        Inl e \<Rightarrow> (Inl e, db)
      | Inr (u, res, c, uid, fn) \<Rightarrow>
          (case PutObject (l_hash L) now
                  \<lparr>o_ID = 0, o_CollectionID = c_ID c, o_URI = r_Object res, o_ETag = [], o_Raw = raw, o_UID = uid,
                   o_ComponentType = ''VCARD'', o_DisplayName = fn, o_StartAt = None, o_EndAt = None,
                   o_Recurring = False, o_CreatedAt = 0, o_UpdatedAt = 0\<rparr> db of
             (Inl e, db') \<Rightarrow> (Inl PlainError, db')
           | (Inr obj, db') \<Rightarrow> (addressObject L p (u_Username u) c obj None False, db')))"

definition DeleteAddressObject :: "Paths \<Rightarrow> int \<Rightarrow> user option \<Rightarrow> string \<Rightarrow> db \<Rightarrow> (http_error + unit) \<times> db" where
  "DeleteAddressObject p now ctx path db =
     (case bindE (resolve p ctx path) (\<lambda>(u, res).
             if r_Kind res \<noteq> KindAddressObject then Inl (HTTPError StatusForbidden)
             else bindE (collectionOfType (u_ID u) (r_Collection res) CollectionAddressBook db) (\<lambda>c. Inr (res, c))) of
        Inl e \<Rightarrow> (Inl e, db)
      | Inr (res, c) \<Rightarrow>
          (case DeleteObject now (c_ID c) (r_Object res) db of (r, db') \<Rightarrow> (mapE notFoundIfMissing r, db')))"

datatype ResourceType = ResourceTypeRoot | ResourceTypeUserPrincipal | ResourceTypeHomeSet | ResourceTypeCollection | ResourceTypeObject

definition card_ResourceTypeAtPath :: "Paths \<Rightarrow> string \<Rightarrow> ResourceType option" where
  "card_ResourceTypeAtPath p path =
     (case parse_path p path of
        None \<Rightarrow> None
      | Some res \<Rightarrow>
          (case r_Kind res of
             KindRoot \<Rightarrow> Some ResourceTypeRoot
           | KindPrincipal \<Rightarrow> Some ResourceTypeUserPrincipal
           | KindAddressBookHome \<Rightarrow> Some ResourceTypeHomeSet
           | KindAddressBook \<Rightarrow> Some ResourceTypeCollection
           | KindAddressObject \<Rightarrow> Some ResourceTypeObject
           | _ \<Rightarrow> None))"

record CardSyncQuery =
  csq_DataRequest :: AddressDataRequest
  csq_SyncToken :: string
  csq_Limit :: int

record CardSyncResponse =
  csr_SyncToken :: string
  csr_Updated :: "AddressObject list"
  csr_Deleted :: "string list"

definition card_SyncCollection ::
    "lib \<Rightarrow> Paths \<Rightarrow> user option \<Rightarrow> string \<Rightarrow> CardSyncQuery option \<Rightarrow> db \<Rightarrow> http_error + CardSyncResponse" where
  "card_SyncCollection L p ctx path query db =
     bindE (resolveAddressBook p ctx path db) (\<lambda>(u, c).
       let (token, limit, req) = (case query of None \<Rightarrow> ([], 0, None)
                                  | Some q \<Rightarrow> (csq_SyncToken q, csq_Limit q, Some (csq_DataRequest q)))
       in bindE (mapE syncTokenError (collectSync c token limit db)) (\<lambda>changes.
            bindE (map_ok (\<lambda>obj. addressObject L p (u_Username u) c obj req False) (Updated changes)) (\<lambda>aos.
              Inr \<lparr>csr_SyncToken = Token changes, csr_Updated = aos,
                   csr_Deleted = map (AddressObject p (u_Username u) (c_URI c)) (Deleted changes)\<rparr>)))"

end
