(* ===== verification/CalBackend.thy ===== *)
theory CalBackend
  imports Backends
begin

text \<open>
  \<open>internal/dav/caldav.go\<close>: the CalDAV backend, on the operations it shares with the CardDAV one
  (\<open>Backends\<close>): its \<open>resolve\<close> is the CardDAV backend's, as in the code.
\<close>

record CalendarInfo =
  ca_Path :: string
  ca_Name :: string
  ca_Description :: string
  ca_MaxResourceSize :: int
  ca_SupportedComponentSet :: "string list"
  ca_SyncToken :: string
  ca_Timezone :: string

definition cal_MaxResourceSize :: int where "cal_MaxResourceSize = 10485760"

definition calendar :: "Paths \<Rightarrow> string \<Rightarrow> collection \<Rightarrow> CalendarInfo" where
  "calendar p username c =
     \<lparr>ca_Path = Calendar p username (c_URI c), ca_Name = c_DisplayName c, ca_Description = c_Description c,
      ca_MaxResourceSize = cal_MaxResourceSize, ca_SupportedComponentSet = [''VEVENT'', ''VTODO''],
      ca_SyncToken = encodeSyncToken (c_SyncSeq c), ca_Timezone = c_Timezone c\<rparr>"

definition calendarObject ::
    "lib \<Rightarrow> Paths \<Rightarrow> string \<Rightarrow> collection \<Rightarrow> object \<Rightarrow> CalendarCompRequest option \<Rightarrow> http_error + CalendarObject" where
  "calendarObject L p username c obj req =
     (let co = \<lparr>co_Path = CalendarObject p username (c_URI c) (o_URI obj), co_ModTime = o_UpdatedAt obj,
                co_ContentLength = length (o_Raw obj), co_ETag = o_ETag obj, co_Raw = o_Raw obj, co_Data = None\<rparr>
      in if req \<noteq> None then
           (case l_dec_cal L (o_Raw obj) of None \<Rightarrow> Inl PlainError | Some cal \<Rightarrow> Inr (co\<lparr>co_Data := Some cal\<rparr>))
         else Inr co)"

definition calendarObjects ::
    "lib \<Rightarrow> Paths \<Rightarrow> string \<Rightarrow> collection \<Rightarrow> object list \<Rightarrow> CalendarCompRequest option \<Rightarrow> http_error + CalendarObject list" where
  "calendarObjects L p username c objs req = map_ok (\<lambda>obj. calendarObject L p username c obj req) objs"

definition resolveCalendar :: "Paths \<Rightarrow> user option \<Rightarrow> string \<Rightarrow> db \<Rightarrow> http_error + user \<times> collection" where
  "resolveCalendar p ctx path db =
     bindE (resolve p ctx path) (\<lambda>(u, res).
       if r_Kind res \<noteq> KindCalendar then Inl (HTTPError StatusNotFound)
       else bindE (collectionOfType (u_ID u) (r_Collection res) CollectionCalendar db) (\<lambda>c. Inr (u, c)))"

definition cal_ResourceTypeAtPath :: "Paths \<Rightarrow> string \<Rightarrow> ResourceType option" where
  "cal_ResourceTypeAtPath p path =
     (case parse_path p path of
        None \<Rightarrow> None
      | Some res \<Rightarrow>
          (case r_Kind res of
             KindRoot \<Rightarrow> Some ResourceTypeRoot
           | KindPrincipal \<Rightarrow> Some ResourceTypeUserPrincipal
           | KindCalendarHome \<Rightarrow> Some ResourceTypeHomeSet
           | KindCalendar \<Rightarrow> Some ResourceTypeCollection
           | KindCalendarObject \<Rightarrow> Some ResourceTypeObject
           | _ \<Rightarrow> None))"

definition ListCalendars :: "Paths \<Rightarrow> user option \<Rightarrow> db \<Rightarrow> http_error + CalendarInfo list" where
  "ListCalendars p ctx db =
     bindE (userFrom ctx) (\<lambda>u. Inr (map (calendar p (u_Username u)) (ListCollections (u_ID u) CollectionCalendar db)))"

definition GetCalendar :: "Paths \<Rightarrow> user option \<Rightarrow> string \<Rightarrow> db \<Rightarrow> http_error + CalendarInfo" where
  "GetCalendar p ctx path db = bindE (resolveCalendar p ctx path db) (\<lambda>(u, c). Inr (calendar p (u_Username u) c))"

definition CreateCalendar :: "Paths \<Rightarrow> int \<Rightarrow> user option \<Rightarrow> CalendarInfo \<Rightarrow> db \<Rightarrow> (http_error + unit) \<times> db" where
  "CreateCalendar p now ctx cal db =
     (case resolve p ctx (ca_Path cal) of
        Inl e \<Rightarrow> (Inl e, db)
      | Inr (u, res) \<Rightarrow>
          if r_Kind res \<noteq> KindCalendar then (Inl (HTTPError StatusForbidden), db)
          else (case CreateCollection now
                  \<lparr>c_ID = 0, c_OwnerID = u_ID u, c_Type = CollectionCalendar, c_URI = r_Collection res,
                   c_DisplayName = ca_Name cal, c_Description = ca_Description cal, c_Color = [],
                   c_Timezone = ca_Timezone cal, c_CTag = [], c_SyncSeq = 0, c_CreatedAt = 0, c_UpdatedAt = 0\<rparr> db of
                  (Inl ErrConflict, db') \<Rightarrow> (Inl (HTTPError StatusMethodNotAllowed), db')
                | (Inl _, db') \<Rightarrow> (Inl PlainError, db')
                | (Inr _, db') \<Rightarrow> (Inr (), db')))"

definition GetCalendarObject ::
    "lib \<Rightarrow> Paths \<Rightarrow> user option \<Rightarrow> string \<Rightarrow> CalendarCompRequest option \<Rightarrow> db \<Rightarrow> http_error + CalendarObject" where
  "GetCalendarObject L p ctx path req db =
     bindE (resolve p ctx path) (\<lambda>(u, res).
       if r_Kind res \<noteq> KindCalendarObject then Inl (HTTPError StatusNotFound)
       else bindE (collectionOfType (u_ID u) (r_Collection res) CollectionCalendar db) (\<lambda>c.
         bindE (mapE notFoundIfMissing (ObjectByURI (c_ID c) (r_Object res) db)) (\<lambda>obj.
           calendarObject L p (u_Username u) c obj req)))"

definition ListCalendarObjects ::
    "lib \<Rightarrow> Paths \<Rightarrow> user option \<Rightarrow> string \<Rightarrow> CalendarCompRequest option \<Rightarrow> db \<Rightarrow> http_error + CalendarObject list" where
  "ListCalendarObjects L p ctx path req db =
     bindE (resolveCalendar p ctx path db) (\<lambda>(u, c).
       calendarObjects L p (u_Username u) c (ListObjects (c_ID c) db) req)"

section \<open>Queries\<close>

text \<open>The first range found, from the outside in, component by component.\<close>

fun compFilterRange :: "CompFilter \<Rightarrow> (time \<times> time) option" and
  compFilterRanges :: "CompFilter list \<Rightarrow> (time \<times> time) option" where
  "compFilterRange (CompFilter n nd s e ps fs) =
     (if \<not> IsZero s \<or> \<not> IsZero e then
        let from = (if IsZero s then 0 else s);
            to = (if IsZero e then AddDate from 100 0 0 else e)
        in Some (from, to)
      else compFilterRanges fs)"
| "compFilterRanges [] = None"
| "compFilterRanges (f # fs) = (case compFilterRange f of Some r \<Rightarrow> Some r | None \<Rightarrow> compFilterRanges fs)"

definition timeRangeOf :: "CalendarQuery option \<Rightarrow> (time \<times> time) option" where
  "timeRangeOf query = (case query of None \<Rightarrow> None | Some q \<Rightarrow> compFilterRange (cq_CompFilter q))"

fun stripCompRange :: "CompFilter \<Rightarrow> CompFilter" where
  "stripCompRange (CompFilter n nd s e ps fs) = CompFilter n nd zeroTime zeroTime ps (map stripCompRange fs)"

definition stripTimeRange :: "CalendarQuery option \<Rightarrow> bool \<Rightarrow> CalendarQuery option" where
  "stripTimeRange query applied =
     (case query of
        None \<Rightarrow> None
      | Some q \<Rightarrow> if \<not> applied then query else Some (q\<lparr>cq_CompFilter := stripCompRange (cq_CompFilter q)\<rparr>))"

definition occursInRange :: "lib \<Rightarrow> string \<Rightarrow> time \<Rightarrow> time \<Rightarrow> bool option" where
  "occursInRange L raw from to =
     (case l_dec_cal L raw of None \<Rightarrow> None | Some cal \<Rightarrow> l_overlaps L cal from to)"

definition QueryCalendarObjects ::
    "lib \<Rightarrow> Paths \<Rightarrow> user option \<Rightarrow> string \<Rightarrow> CalendarQuery option \<Rightarrow> db \<Rightarrow> http_error + CalendarObject list" where
  "QueryCalendarObjects L p ctx path query db =
     bindE (resolveCalendar p ctx path db) (\<lambda>(u, c).
       let req = map_option cq_CompRequest query;
           objs = (case timeRangeOf query of
                     Some (from, to) \<Rightarrow>
                       filter (\<lambda>obj. occursInRange L (o_Raw obj) from to = Some True) (ObjectsInTimeRange (c_ID c) from to db)
                   | None \<Rightarrow> ListObjects (c_ID c) db)
       in bindE (calendarObjects L p (u_Username u) c objs req) (\<lambda>cos.
            mapE (\<lambda>_. PlainError) (cal_Filter (stripTimeRange query (timeRangeOf query \<noteq> None)) cos)))"

section \<open>Writes\<close>

definition CalendarIndex :: "lib \<Rightarrow> string \<Rightarrow> Bounds option" where
  "CalendarIndex L raw =
     (case l_dec_cal L raw of
        None \<Rightarrow> None
      | Some cal \<Rightarrow>
          (case l_summarise L cal of None \<Rightarrow> None | Some b \<Rightarrow> if b_UID b = [] then None else Some b))"

definition checkCalendarPreconditions :: "PutOptions option \<Rightarrow> object option \<Rightarrow> http_error + unit" where
  "checkCalendarPreconditions opts existing =
     (case opts of
        None \<Rightarrow> Inr ()
      | Some opts \<Rightarrow>
          if IsSet (IfNoneMatch opts) then
            (if existing \<noteq> None then Inl (HTTPError StatusPreconditionFailed) else Inr ())
          else if IsSet (IfMatch opts) then
            (case existing of
               None \<Rightarrow> Inl (HTTPError StatusPreconditionFailed)
             | Some obj \<Rightarrow>
                 (case MatchETag (IfMatch opts) (o_ETag obj) of
                    Inl _ \<Rightarrow> Inl (HTTPError StatusBadRequest)
                  | Inr ok \<Rightarrow> if \<not> ok then Inl (HTTPError StatusPreconditionFailed) else Inr ()))
          else Inr ())"

definition PutCalendarObject ::
    "lib \<Rightarrow> Paths \<Rightarrow> int \<Rightarrow> user option \<Rightarrow> string \<Rightarrow> string \<Rightarrow> PutOptions option \<Rightarrow> db \<Rightarrow> (http_error + CalendarObject) \<times> db" where
  "PutCalendarObject L p now ctx path raw opts db =
     (case bindE (resolve p ctx path) (\<lambda>(u, res).
             if r_Kind res \<noteq> KindCalendarObject then Inl (HTTPError StatusForbidden)
             else bindE (collectionOfType (u_ID u) (r_Collection res) CollectionCalendar db) (\<lambda>c.
               bindE (existing_object (c_ID c) (r_Object res) db) (\<lambda>existing.
                 bindE (checkCalendarPreconditions opts existing) (\<lambda>_.
                   case CalendarIndex L raw of
                     None \<Rightarrow> Inl (HTTPError StatusBadRequest)
                   | Some b \<Rightarrow> Inr (u, res, c, b))))) of
        Inl e \<Rightarrow> (Inl e, db)
      | Inr (u, res, c, b) \<Rightarrow>
          (case PutObject (l_hash L) now
                  \<lparr>o_ID = 0, o_CollectionID = c_ID c, o_URI = r_Object res, o_ETag = [], o_Raw = raw, o_UID = b_UID b,
                   o_ComponentType = b_ComponentType b, o_DisplayName = b_Summary b, o_StartAt = b_Start b,
                   o_EndAt = b_End b, o_Recurring = b_Recurring b, o_CreatedAt = 0, o_UpdatedAt = 0\<rparr> db of
             (Inl e, db') \<Rightarrow> (Inl PlainError, db')
           | (Inr obj, db') \<Rightarrow> (calendarObject L p (u_Username u) c obj None, db')))"

definition DeleteCalendarObject :: "Paths \<Rightarrow> int \<Rightarrow> user option \<Rightarrow> string \<Rightarrow> db \<Rightarrow> (http_error + unit) \<times> db" where
  "DeleteCalendarObject p now ctx path db =
     (case resolve p ctx path of
        Inl e \<Rightarrow> (Inl e, db)
      | Inr (u, res) \<Rightarrow>
          if r_Kind res = KindCalendar then
            (case collectionOfType (u_ID u) (r_Collection res) CollectionCalendar db of
               Inl e \<Rightarrow> (Inl e, db)
             | Inr c \<Rightarrow> (case DeleteCollection (c_ID c) db of (r, db') \<Rightarrow> (mapE (\<lambda>_. PlainError) r, db')))
          else if r_Kind res = KindCalendarObject then
            (case collectionOfType (u_ID u) (r_Collection res) CollectionCalendar db of
               Inl e \<Rightarrow> (Inl e, db)
             | Inr c \<Rightarrow> (case DeleteObject now (c_ID c) (r_Object res) db of (r, db') \<Rightarrow> (mapE notFoundIfMissing r, db')))
          else (Inl (HTTPError StatusForbidden), db))"

record CalSyncQuery =
  lsq_CompRequest :: CalendarCompRequest
  lsq_SyncToken :: string
  lsq_Limit :: int

record CalSyncResponse =
  lsr_SyncToken :: string
  lsr_Updated :: "CalendarObject list"
  lsr_Deleted :: "string list"

definition cal_SyncCollection ::
    "lib \<Rightarrow> Paths \<Rightarrow> user option \<Rightarrow> string \<Rightarrow> CalSyncQuery option \<Rightarrow> db \<Rightarrow> http_error + CalSyncResponse" where
  "cal_SyncCollection L p ctx path query db =
     bindE (resolveCalendar p ctx path db) (\<lambda>(u, c).
       let (token, limit, req) = (case query of None \<Rightarrow> ([], 0, None)
                                  | Some q \<Rightarrow> (lsq_SyncToken q, lsq_Limit q, Some (lsq_CompRequest q)))
       in bindE (mapE syncTokenError (collectSync c token limit db)) (\<lambda>changes.
            bindE (calendarObjects L p (u_Username u) c (Updated changes) req) (\<lambda>cos.
              Inr \<lparr>lsr_SyncToken = Token changes, lsr_Updated = cos,
                   lsr_Deleted = map (CalendarObject p (u_Username u) (c_URI c)) (Deleted changes)\<rparr>)))"

end
