(* ===== verification/Isolation.thy ===== *)
theory Isolation
  imports CalBackend
begin

text \<open>
  What the two DAV backends do to the data of the other users: nothing, and they show nothing of
  it either. \<open>serve_write\<close> and \<open>serve_read\<close> name every operation of the two backends; a write by one
  user keeps every row of the others (\<open>others_kept\<close>), and the answer to a read is determined by the
  rows of the user who asks.
\<close>

section \<open>The rows of the others\<close>

definition theirs :: "int \<Rightarrow> db \<Rightarrow> int set" where
  "theirs i db = c_ID ` set (filter (\<lambda>c. c_OwnerID c \<noteq> i) (collections db))"

definition others_kept :: "int \<Rightarrow> db \<Rightarrow> db \<Rightarrow> bool" where
  "others_kept i db db' =
     (users db' = users db \<and> sessions db' = sessions db \<and>
      filter (\<lambda>c. c_OwnerID c \<noteq> i) (collections db') = filter (\<lambda>c. c_OwnerID c \<noteq> i) (collections db) \<and>
      filter (\<lambda>x. o_CollectionID x \<in> theirs i db) (objects db') = filter (\<lambda>x. o_CollectionID x \<in> theirs i db) (objects db) \<and>
      filter (\<lambda>r. ch_CollectionID r \<in> theirs i db) (object_changes db') =
        filter (\<lambda>r. ch_CollectionID r \<in> theirs i db) (object_changes db))"

lemma others_kept_refl [simp]: "others_kept i db db"
  by (simp add: others_kept_def)

lemma others_kept_theirs: "others_kept i db db' \<Longrightarrow> theirs i db' = theirs i db"
  by (simp only: others_kept_def theirs_def)

lemma others_kept_trans: "others_kept i a b \<Longrightarrow> others_kept i b c \<Longrightarrow> others_kept i a c"
  using others_kept_theirs [of i a b] by (simp add: others_kept_def)

lemma mine_not_theirs:
  assumes "db_ok hash db" and "c \<in> set (collections db)" and "c_OwnerID c = i"
  shows "c_ID c \<notin> theirs i db"
  using assms by (auto simp: theirs_def db_ok_def collections_ok_def distinct_map inj_on_def)

lemma filter_filter_other: "(\<And>x. P x \<Longrightarrow> Q x) \<Longrightarrow> filter P (filter Q xs) = filter P xs"
  by (induction xs) auto

lemma filter_map_other: "(\<And>x. x \<in> set xs \<Longrightarrow> P (f x) = P x) \<Longrightarrow> (\<And>x. x \<in> set xs \<Longrightarrow> P x \<Longrightarrow> f x = x) \<Longrightarrow> filter P (map f xs) = filter P xs"
  by (induction xs) auto

lemma CreateCollection_kept: "c_OwnerID c = i \<Longrightarrow> others_kept i db (snd (CreateCollection now c db))"
  by (auto simp: CreateCollection_def others_kept_def Let_def)

lemma DeleteCollection_kept:
  assumes ok: "db_ok hash db" and c: "c \<in> set (collections db)" "c_OwnerID c = i"
  shows "others_kept i db (snd (DeleteCollection (c_ID c) db))"
proof -
  have own: "c_OwnerID d = i" if "d \<in> set (collections db)" "c_ID d = c_ID c" for d
    using that ok c by (auto simp: db_ok_def collections_ok_def distinct_map inj_on_def)
  have gone: "k \<notin> theirs i db" if "k \<in> set (map c_ID (filter (\<lambda>d. c_ID d = c_ID c) (collections db)))" for k
    using that mine_not_theirs [OF ok c] by auto
  have "filter (\<lambda>d. c_OwnerID d \<noteq> i) (filter (\<lambda>d. c_ID d \<noteq> c_ID c) ds) = filter (\<lambda>d. c_OwnerID d \<noteq> i) ds"
    if "set ds \<subseteq> set (collections db)" for ds
    using that own by (induction ds) auto
  then show ?thesis
    using gone unfolding DeleteCollection_def drop_collections_def others_kept_def Let_def
    by (auto intro!: filter_cong)
qed

lemma recorded_kept:
  assumes ok: "db_ok hash db" and c: "c \<in> set (collections db)" "c_OwnerID c = i"
    and xs: "filter (\<lambda>x. o_CollectionID x \<in> theirs i db) xs = filter (\<lambda>x. o_CollectionID x \<in> theirs i db) (objects db)"
  shows "others_kept i db (recorded now c uri t xs db)"
proof -
  note mine = mine_not_theirs [OF ok c]
  have own: "c_OwnerID d = i" if "d \<in> set (collections db)" "c_ID d = c_ID c" for d
    using that ok c by (auto simp: db_ok_def collections_ok_def distinct_map inj_on_def)
  have "filter (\<lambda>d. c_OwnerID d \<noteq> i) (map (bump (c_ID c) now) (collections db)) = filter (\<lambda>d. c_OwnerID d \<noteq> i) (collections db)"
    by (rule filter_map_other) (use own in \<open>auto simp: bump_def\<close>)
  moreover have "filter (\<lambda>r. ch_CollectionID r \<in> theirs i db) (prune (c_ID c) uri (object_changes db)) =
      filter (\<lambda>r. ch_CollectionID r \<in> theirs i db) (object_changes db)"
    unfolding prune_def by (rule filter_filter_other) (use mine in auto)
  ultimately show ?thesis
    using xs mine by (simp add: others_kept_def recorded_def)
qed

lemma put_row_kept:
  assumes ok: "db_ok hash db" and c: "c \<in> set (collections db)" "c_OwnerID c = i" and o: "o_CollectionID obj = c_ID c"
  shows "filter (\<lambda>x. o_CollectionID x \<in> theirs i db) (put_row hash now obj (objects db)) =
    filter (\<lambda>x. o_CollectionID x \<in> theirs i db) (objects db)"
proof (cases "List.find (\<lambda>x. o_CollectionID x = o_CollectionID obj \<and> o_URI x = o_URI obj) (objects db)")
  case None
  then show ?thesis using mine_not_theirs [OF ok c] o by (simp add: put_row_def payload_def)
next
  case (Some x)
  note x = find_SomeD [OF Some]
  have "o_CollectionID r \<notin> theirs i db" if "r \<in> set (objects db)" "o_ID r = o_ID x" for r
  proof -
    have "r = x" using that x ok by (auto simp: db_ok_def objects_ok_def distinct_map inj_on_def)
    then show ?thesis using x o mine_not_theirs [OF ok c] by simp
  qed
  then show ?thesis
    unfolding put_row_def Some option.case
    by (intro filter_map_other) auto
qed

lemma PutObject_kept:
  assumes ok: "db_ok hash db" and c: "c \<in> set (collections db)" "c_OwnerID c = i" and o: "o_CollectionID obj = c_ID c"
  shows "others_kept i db (snd (PutObject hash now obj db))"
proof (cases "\<exists>x. lookup_object (o_CollectionID obj) (o_URI obj) db = Some x \<and> ETagFor hash (o_Raw obj) = o_ETag x")
  case True
  then show ?thesis using PutObject_same [of obj db _ hash now] by auto
next
  case False
  then show ?thesis
    using PutObject_change(1) [OF ok c(1) o, of now] recorded_kept [OF ok c put_row_kept [OF ok c o, of now]] by auto
qed

lemma DeleteObject_kept:
  assumes ok: "db_ok hash db" and c: "c \<in> set (collections db)" "c_OwnerID c = i"
  shows "others_kept i db (snd (DeleteObject now (c_ID c) uri db))"
proof (cases "lookup_object (c_ID c) uri db = None")
  case True
  then show ?thesis by (simp add: DeleteObject_missing)
next
  case False
  have "filter (\<lambda>x. o_CollectionID x \<in> theirs i db) (filter (\<lambda>x. \<not> (o_CollectionID x = c_ID c \<and> o_URI x = uri)) (objects db)) =
      filter (\<lambda>x. o_CollectionID x \<in> theirs i db) (objects db)"
    by (rule filter_filter_other) (use mine_not_theirs [OF ok c] in auto)
  then show ?thesis
    using DeleteObject_change(1) [OF ok c(1) False, of now] recorded_kept [OF ok c] by simp
qed

section \<open>Requests that write\<close>

datatype dav_write =
    MkBook BookInfo
  | RmBook string
  | PutCard string string "PutOptions option"
  | RmCard string
  | MkCal CalendarInfo
  | PutCal string string "PutOptions option"
  | RmCal string

text \<open>The status of the outcome and the database left behind.\<close>

fun serve_write :: "lib \<Rightarrow> Paths \<Rightarrow> int \<Rightarrow> user option \<Rightarrow> dav_write \<Rightarrow> db \<Rightarrow> (http_error + unit) \<times> db" where
  "serve_write L p now ctx (MkBook ab) db = CreateAddressBook p now ctx ab db"
| "serve_write L p now ctx (RmBook path) db = DeleteAddressBook p ctx path db"
| "serve_write L p now ctx (PutCard path raw opts) db =
     (case PutAddressObject L p now ctx path raw opts db of (r, db') \<Rightarrow> (map_sum id (\<lambda>_. ()) r, db'))"
| "serve_write L p now ctx (RmCard path) db = DeleteAddressObject p now ctx path db"
| "serve_write L p now ctx (MkCal cal) db = CreateCalendar p now ctx cal db"
| "serve_write L p now ctx (PutCal path raw opts) db =
     (case PutCalendarObject L p now ctx path raw opts db of (r, db') \<Rightarrow> (map_sum id (\<lambda>_. ()) r, db'))"
| "serve_write L p now ctx (RmCal path) db = DeleteCalendarObject p now ctx path db"

lemma resolve_Inr: "resolve p ctx path = Inr (u, res) \<longleftrightarrow>
    ctx = Some u \<and> parse_path p path = Some res \<and> (r_User res = [] \<or> EqualFold (r_User res) (u_Username u))"
  by (auto simp: resolve_def userFrom_def split: option.splits)

lemma collectionOfType_Inr: "collectionOfType i uri ty db = Inr c \<longleftrightarrow>
    CollectionByURI i uri db = Inr c \<and> c_Type c = ty"
  by (auto simp: collectionOfType_def bindE_Inr mapE_Inr)

lemma CollectionByURI_Inr: "CollectionByURI i uri db = Inr c \<Longrightarrow>
    c \<in> set (collections db) \<and> c_OwnerID c = i \<and> c_URI c = uri"
  by (auto simp: CollectionByURI_def dest: find_SomeD split: option.splits)

lemma resolved_owner:
  "collectionOfType i uri ty db = Inr c \<Longrightarrow> c \<in> set (collections db)"
  "collectionOfType i uri ty db = Inr c \<Longrightarrow> c_OwnerID c = i"
  using CollectionByURI_Inr unfolding collectionOfType_Inr by blast+

text \<open>
  A write is one of four storage operations on a collection of the user who asks, or leaves the
  database alone. Everything below follows from this.
\<close>

inductive owner_step :: "(string \<Rightarrow> string) \<Rightarrow> int \<Rightarrow> user \<Rightarrow> db \<Rightarrow> db \<Rightarrow> bool" for hash now u where
  nothing: "owner_step hash now u db db"
| creates: "c_OwnerID c = u_ID u \<Longrightarrow> owner_step hash now u db (snd (CreateCollection now c db))"
| drops: "c \<in> set (collections db) \<Longrightarrow> c_OwnerID c = u_ID u \<Longrightarrow> owner_step hash now u db (snd (DeleteCollection (c_ID c) db))"
| puts: "c \<in> set (collections db) \<Longrightarrow> c_OwnerID c = u_ID u \<Longrightarrow> o_CollectionID obj = c_ID c \<Longrightarrow>
    owner_step hash now u db (snd (PutObject hash now obj db))"
| deletes: "c \<in> set (collections db) \<Longrightarrow> c_OwnerID c = u_ID u \<Longrightarrow> owner_step hash now u db (snd (DeleteObject now (c_ID c) uri db))"

lemma owner_step_kept: "owner_step hash now u db db' \<Longrightarrow> db_ok hash db \<Longrightarrow> others_kept (u_ID u) db db'"
  by (induction rule: owner_step.induct)
    (auto intro: CreateCollection_kept DeleteCollection_kept PutObject_kept DeleteObject_kept)

lemma owner_step_ok: "owner_step hash now u db db' \<Longrightarrow> db_ok hash db \<Longrightarrow> db_ok hash db'"
  by (induction rule: owner_step.induct)
    (auto simp: CreateCollection_ok DeleteCollection_ok PutObject_ok DeleteObject_ok)

lemma snd_case_simps [simp]:
  "snd (case x of (r, db') \<Rightarrow> (f r, db')) = snd x"
  "snd (case y of (Inl e, db') \<Rightarrow> (g e, db') | (Inr z, db') \<Rightarrow> (h z, db')) = snd y"
  "snd (case w of (Inl ErrConflict, db') \<Rightarrow> (k1, db') | (Inl _, db') \<Rightarrow> (k2, db') | (Inr _, db') \<Rightarrow> (k3, db')) = snd w"
  by (simp_all split: prod.split sum.split serror.split)

lemma create_owner_step:
  "owner_step (l_hash L) now u db (snd (CreateAddressBook p now (Some u) ab db))"
  "owner_step (l_hash L) now u db (snd (CreateCalendar p now (Some u) cal db))"
  unfolding CreateAddressBook_def CreateCalendar_def
  by (auto simp: resolve_Inr intro!: owner_step.creates owner_step.nothing split: sum.split)

lemma delete_owner_step:
  "owner_step (l_hash L) now u db (snd (DeleteAddressBook p (Some u) path db))"
  "owner_step (l_hash L) now u db (snd (DeleteAddressObject p now (Some u) path db))"
  "owner_step (l_hash L) now u db (snd (DeleteCalendarObject p now (Some u) path db))"
  unfolding DeleteAddressBook_def DeleteAddressObject_def DeleteCalendarObject_def resolveAddressBook_def
  by (auto simp: bindE_Inr resolve_Inr intro!: owner_step.drops owner_step.deletes owner_step.nothing
      intro: resolved_owner split: sum.split if_splits)

lemma put_owner_step:
  "owner_step (l_hash L) now u db (snd (PutAddressObject L p now (Some u) path raw opts db))"
  "owner_step (l_hash L) now u db (snd (PutCalendarObject L p now (Some u) path raw opts db))"
  unfolding PutAddressObject_def PutCalendarObject_def
  by (auto simp: bindE_Inr resolve_Inr intro!: owner_step.puts owner_step.nothing
      intro: resolved_owner split: sum.split option.splits if_splits)

lemma serve_write_step: "owner_step (l_hash L) now u db (snd (serve_write L p now (Some u) w db))"
  by (cases w) (simp_all add: create_owner_step delete_owner_step put_owner_step)

section \<open>Requests that read\<close>

datatype dav_read =
    ListBooks
  | GetBook string
  | GetCard string "AddressDataRequest option"
  | ListCards string "AddressDataRequest option"
  | QueryCards string "AddressBookQuery option"
  | SyncCards string "CardSyncQuery option"
  | ListCals
  | GetCal string
  | GetEvent string "CalendarCompRequest option"
  | ListEvents string "CalendarCompRequest option"
  | QueryEvents string "CalendarQuery option"
  | SyncEvents string "CalSyncQuery option"

datatype dav_answer =
    Books "BookInfo list" | Cards "AddressObject list" | CardSync CardSyncResponse
  | Cals "CalendarInfo list" | Events "CalendarObject list" | CalSync CalSyncResponse

fun serve_read :: "lib \<Rightarrow> Paths \<Rightarrow> user option \<Rightarrow> dav_read \<Rightarrow> db \<Rightarrow> http_error + dav_answer" where
  "serve_read L p ctx ListBooks db = bindE (ListAddressBooks p ctx db) (\<lambda>x. Inr (Books x))"
| "serve_read L p ctx (GetBook path) db = bindE (GetAddressBook p ctx path db) (\<lambda>x. Inr (Books [x]))"
| "serve_read L p ctx (GetCard path req) db = bindE (GetAddressObject L p ctx path req db) (\<lambda>x. Inr (Cards [x]))"
| "serve_read L p ctx (ListCards path req) db = bindE (ListAddressObjects L p ctx path req db) (\<lambda>x. Inr (Cards x))"
| "serve_read L p ctx (QueryCards path q) db = bindE (QueryAddressObjects L p ctx path q db) (\<lambda>x. Inr (Cards x))"
| "serve_read L p ctx (SyncCards path q) db = bindE (card_SyncCollection L p ctx path q db) (\<lambda>x. Inr (CardSync x))"
| "serve_read L p ctx ListCals db = bindE (ListCalendars p ctx db) (\<lambda>x. Inr (Cals x))"
| "serve_read L p ctx (GetCal path) db = bindE (GetCalendar p ctx path db) (\<lambda>x. Inr (Cals [x]))"
| "serve_read L p ctx (GetEvent path req) db = bindE (GetCalendarObject L p ctx path req db) (\<lambda>x. Inr (Events [x]))"
| "serve_read L p ctx (ListEvents path req) db = bindE (ListCalendarObjects L p ctx path req db) (\<lambda>x. Inr (Events x))"
| "serve_read L p ctx (QueryEvents path q) db = bindE (QueryCalendarObjects L p ctx path q db) (\<lambda>x. Inr (Events x))"
| "serve_read L p ctx (SyncEvents path q) db = bindE (cal_SyncCollection L p ctx path q db) (\<lambda>x. Inr (CalSync x))"

text \<open>
  Two databases look the same to a user when every storage operation of a read, asked about that
  user or about a collection of that user, answers the same on both.
\<close>

definition same_for :: "int \<Rightarrow> db \<Rightarrow> db \<Rightarrow> bool" where
  "same_for i db db' =
     (filter (\<lambda>c. c_OwnerID c = i) (collections db') = filter (\<lambda>c. c_OwnerID c = i) (collections db) \<and>
      (\<forall>c. c \<in> set (collections db) \<longrightarrow> c_OwnerID c = i \<longrightarrow>
         CollectionByID (c_ID c) db' = CollectionByID (c_ID c) db \<and>
         filter (\<lambda>x. o_CollectionID x = c_ID c) (objects db') = filter (\<lambda>x. o_CollectionID x = c_ID c) (objects db) \<and>
         filter (\<lambda>r. ch_CollectionID r = c_ID c) (object_changes db') = filter (\<lambda>r. ch_CollectionID r = c_ID c) (object_changes db)))"

lemma find_by_filter: "(\<And>x. P x \<Longrightarrow> Q x) \<Longrightarrow> List.find P xs = List.find P (filter Q xs)"
  by (induction xs) auto

lemma filter_by_filter: "(\<And>x. P x \<Longrightarrow> Q x) \<Longrightarrow> filter P xs = filter P (filter Q xs)"
  by (induction xs) auto

lemma same_CollectionByURI: "same_for i db db' \<Longrightarrow> CollectionByURI i uri db' = CollectionByURI i uri db"
  unfolding CollectionByURI_def same_for_def
  by (subst (1 2) find_by_filter [where Q = "\<lambda>c. c_OwnerID c = i"]) auto

lemma same_ListCollections: "same_for i db db' \<Longrightarrow> ListCollections i ty db' = ListCollections i ty db"
  unfolding ListCollections_def same_for_def
  by (subst (1 2) filter_by_filter [where Q = "\<lambda>c. c_OwnerID c = i"]) auto

lemma same_collectionOfType: "same_for i db db' \<Longrightarrow> collectionOfType i uri ty db' = collectionOfType i uri ty db"
  by (simp add: collectionOfType_def same_CollectionByURI)

lemma same_objects:
  assumes "same_for i db db'" and "collectionOfType i uri ty db = Inr c"
  shows "ObjectByURI (c_ID c) o_uri db' = ObjectByURI (c_ID c) o_uri db"
    "ListObjects (c_ID c) db' = ListObjects (c_ID c) db"
    "ObjectsInTimeRange (c_ID c) from to db' = ObjectsInTimeRange (c_ID c) from to db"
    "ChangesSince (c_ID c) n db' = ChangesSince (c_ID c) n db"
proof -
  have q: "filter (\<lambda>x. o_CollectionID x = c_ID c) (objects db') = filter (\<lambda>x. o_CollectionID x = c_ID c) (objects db)"
    "filter (\<lambda>r. ch_CollectionID r = c_ID c) (object_changes db') = filter (\<lambda>r. ch_CollectionID r = c_ID c) (object_changes db)"
    "CollectionByID (c_ID c) db' = CollectionByID (c_ID c) db"
    using assms resolved_owner [OF assms(2)] by (auto simp: same_for_def)
  show "ObjectByURI (c_ID c) o_uri db' = ObjectByURI (c_ID c) o_uri db"
    unfolding ObjectByURI_def by (subst (1 2) find_by_filter [where Q = "\<lambda>x. o_CollectionID x = c_ID c"]) (auto simp: q)
  show "ListObjects (c_ID c) db' = ListObjects (c_ID c) db" by (simp add: ListObjects_def q)
  show "ObjectsInTimeRange (c_ID c) from to db' = ObjectsInTimeRange (c_ID c) from to db"
    unfolding ObjectsInTimeRange_def by (subst (1 2) filter_by_filter [where Q = "\<lambda>x. o_CollectionID x = c_ID c"]) (auto simp: q)
  have "filter (\<lambda>r. ch_CollectionID r = c_ID c \<and> ch_Seq r > n) (object_changes db') =
      filter (\<lambda>r. ch_CollectionID r = c_ID c \<and> ch_Seq r > n) (object_changes db)"
    by (subst (1 2) filter_by_filter [where Q = "\<lambda>r. ch_CollectionID r = c_ID c"]) (auto simp: q)
  then show "ChangesSince (c_ID c) n db' = ChangesSince (c_ID c) n db"
    unfolding ChangesSince_def q(3) by (simp split: sum.split)
qed

lemma same_collect_loop:
  "same_for i db db' \<Longrightarrow> collectionOfType i uri ty db = Inr c \<Longrightarrow>
   collect_loop (c_ID c) limit db' chs out = collect_loop (c_ID c) limit db chs out"
  by (induction chs arbitrary: out) (simp_all add: same_objects(1) split: sum.split serror.split)

lemma same_collectSync:
  "same_for i db db' \<Longrightarrow> collectionOfType i uri ty db = Inr c \<Longrightarrow> collectSync c token limit db' = collectSync c token limit db"
  by (simp add: collectSync_def same_objects(4) same_collect_loop split: sum.split)

lemma bindE_cong: "x = y \<Longrightarrow> (\<And>a. y = Inr a \<Longrightarrow> f a = g a) \<Longrightarrow> bindE x f = bindE y g"
  by (cases y) auto

lemma same_resolveAddressBook: "same_for (u_ID u) db db' \<Longrightarrow> resolveAddressBook p (Some u) path db' = resolveAddressBook p (Some u) path db"
  unfolding resolveAddressBook_def by (intro bindE_cong) (auto simp: resolve_Inr same_collectionOfType)

lemma same_resolveCalendar: "same_for (u_ID u) db db' \<Longrightarrow> resolveCalendar p (Some u) path db' = resolveCalendar p (Some u) path db"
  unfolding resolveCalendar_def by (intro bindE_cong) (auto simp: resolve_Inr same_collectionOfType)

lemma resolveAddressBook_Inr: "resolveAddressBook p ctx path db = Inr (u, c) \<Longrightarrow>
    ctx = Some u \<and> (\<exists>uri. collectionOfType (u_ID u) uri CollectionAddressBook db = Inr c)"
  by (auto simp: resolveAddressBook_def bindE_Inr resolve_Inr split: if_splits)

lemma resolveCalendar_Inr: "resolveCalendar p ctx path db = Inr (u, c) \<Longrightarrow>
    ctx = Some u \<and> (\<exists>uri. collectionOfType (u_ID u) uri CollectionCalendar db = Inr c)"
  by (auto simp: resolveCalendar_def bindE_Inr resolve_Inr split: if_splits)

lemma same_reads_cards:
  assumes "same_for (u_ID u) db db'"
  shows "GetAddressObject L p (Some u) path req db' = GetAddressObject L p (Some u) path req db"
    "listAddressObjects L p (Some u) path req wc db' = listAddressObjects L p (Some u) path req wc db"
    "card_SyncCollection L p (Some u) path sq db' = card_SyncCollection L p (Some u) path sq db"
proof -
  note same = same_collectionOfType [OF assms] same_resolveAddressBook [OF assms]
  show "GetAddressObject L p (Some u) path req db' = GetAddressObject L p (Some u) path req db"
    unfolding GetAddressObject_def same
    by (auto intro!: bindE_cong simp: resolve_Inr same same_objects(1) [OF assms])
  show "listAddressObjects L p (Some u) path req wc db' = listAddressObjects L p (Some u) path req wc db"
    unfolding listAddressObjects_def same
    by (auto intro!: bindE_cong dest!: resolveAddressBook_Inr simp: same_objects(2) [OF assms])
  show "card_SyncCollection L p (Some u) path sq db' = card_SyncCollection L p (Some u) path sq db"
    unfolding card_SyncCollection_def same
    by (auto intro!: bindE_cong dest!: resolveAddressBook_Inr simp: same_collectSync [OF assms] split: option.split)
qed

lemma same_reads_events:
  assumes "same_for (u_ID u) db db'"
  shows "GetCalendarObject L p (Some u) path req db' = GetCalendarObject L p (Some u) path req db"
    "ListCalendarObjects L p (Some u) path req db' = ListCalendarObjects L p (Some u) path req db"
    "QueryCalendarObjects L p (Some u) path q db' = QueryCalendarObjects L p (Some u) path q db"
    "cal_SyncCollection L p (Some u) path sq db' = cal_SyncCollection L p (Some u) path sq db"
proof -
  note same = same_collectionOfType [OF assms] same_resolveCalendar [OF assms]
  show "GetCalendarObject L p (Some u) path req db' = GetCalendarObject L p (Some u) path req db"
    unfolding GetCalendarObject_def same
    by (auto intro!: bindE_cong simp: resolve_Inr same same_objects(1) [OF assms])
  show "ListCalendarObjects L p (Some u) path req db' = ListCalendarObjects L p (Some u) path req db"
    unfolding ListCalendarObjects_def same
    by (auto intro!: bindE_cong dest!: resolveCalendar_Inr simp: same_objects(2) [OF assms])
  show "QueryCalendarObjects L p (Some u) path q db' = QueryCalendarObjects L p (Some u) path q db"
    unfolding QueryCalendarObjects_def same
    by (auto intro!: bindE_cong dest!: resolveCalendar_Inr simp: same_objects(2,3) [OF assms] split: option.split)
  show "cal_SyncCollection L p (Some u) path sq db' = cal_SyncCollection L p (Some u) path sq db"
    unfolding cal_SyncCollection_def same
    by (auto intro!: bindE_cong dest!: resolveCalendar_Inr simp: same_collectSync [OF assms] split: option.split)
qed

lemma same_serve_read: "same_for (u_ID u) db db' \<Longrightarrow> serve_read L p (Some u) rd db' = serve_read L p (Some u) rd db"
  by (cases rd)
    (simp_all add: same_reads_cards same_reads_events same_resolveAddressBook same_resolveCalendar same_ListCollections
      ListAddressBooks_def GetAddressBook_def ListAddressObjects_def QueryAddressObjects_def ListCalendars_def GetCalendar_def
      userFrom_def)

section \<open>Isolation\<close>

lemma others_kept_same:
  assumes ok: "db_ok hash db" "db_ok hash db'" and kept: "others_kept j db db'" and ne: "i \<noteq> j"
  shows "same_for i db db'"
proof -
  have cols: "filter (\<lambda>c. c_OwnerID c \<noteq> j) (collections db') = filter (\<lambda>c. c_OwnerID c \<noteq> j) (collections db)"
    using kept by (simp add: others_kept_def)
  have mine: "filter (\<lambda>c. c_OwnerID c = i) (collections db') = filter (\<lambda>c. c_OwnerID c = i) (collections db)"
    by (subst (1 2) filter_by_filter [where Q = "\<lambda>c. c_OwnerID c \<noteq> j"]) (use ne cols in auto)
  have each: "CollectionByID (c_ID c) db' = CollectionByID (c_ID c) db \<and>
      filter (\<lambda>x. o_CollectionID x = c_ID c) (objects db') = filter (\<lambda>x. o_CollectionID x = c_ID c) (objects db) \<and>
      filter (\<lambda>r. ch_CollectionID r = c_ID c) (object_changes db') = filter (\<lambda>r. ch_CollectionID r = c_ID c) (object_changes db)"
    if c: "c \<in> set (collections db)" "c_OwnerID c = i" for c
  proof (intro conjI)
    have th: "c_ID c \<in> theirs j db" using c ne by (auto simp: theirs_def)
    have "c \<in> set (filter (\<lambda>c. c_OwnerID c = i) (collections db'))" unfolding mine using c by simp
    then have c': "c \<in> set (collections db')" by simp
    have "List.find (\<lambda>d. c_ID d = c_ID c) (collections d) = Some c" if "db_ok hash d" "c \<in> set (collections d)" for d
      using that find_unique [of c_ID "collections d" c "\<lambda>d. c_ID d = c_ID c"] by (simp add: db_ok_def collections_ok_def)
    then show "CollectionByID (c_ID c) db' = CollectionByID (c_ID c) db"
      using ok c(1) c' by (simp add: CollectionByID_def)
    show "filter (\<lambda>x. o_CollectionID x = c_ID c) (objects db') = filter (\<lambda>x. o_CollectionID x = c_ID c) (objects db)"
      by (subst (1 2) filter_by_filter [where Q = "\<lambda>x. o_CollectionID x \<in> theirs j db"])
        (use th kept in \<open>auto simp: others_kept_def\<close>)
    show "filter (\<lambda>r. ch_CollectionID r = c_ID c) (object_changes db') = filter (\<lambda>r. ch_CollectionID r = c_ID c) (object_changes db)"
      by (subst (1 2) filter_by_filter [where Q = "\<lambda>r. ch_CollectionID r \<in> theirs j db"])
        (use th kept in \<open>auto simp: others_kept_def\<close>)
  qed
  then show ?thesis using mine by (simp add: same_for_def)
qed

definition serve_writes :: "lib \<Rightarrow> Paths \<Rightarrow> (int \<times> user \<times> dav_write) list \<Rightarrow> db \<Rightarrow> db" where
  "serve_writes L p reqs db = foldl (\<lambda>d (now, v, w). snd (serve_write L p now (Some v) w d)) db reqs"

lemma serve_writes_same:
  "db_ok (l_hash L) db \<Longrightarrow> list_all (\<lambda>(now, v, w). u_ID v \<noteq> i) reqs \<Longrightarrow>
   db_ok (l_hash L) (serve_writes L p reqs db) \<and>
   (\<forall>u rd. u_ID u = i \<longrightarrow> serve_read L p (Some u) rd (serve_writes L p reqs db) = serve_read L p (Some u) rd db)"
proof (induction reqs arbitrary: db)
  case Nil
  then show ?case by (simp add: serve_writes_def)
next
  case (Cons r reqs)
  obtain now v w where r: "r = (now, v, w)" by (cases r) auto
  let ?db = "snd (serve_write L p now (Some v) w db)"
  note step = serve_write_step [of L now v db p w]
  have ok: "db_ok (l_hash L) ?db" using owner_step_ok [OF step Cons.prems(1)] .
  have "same_for i db ?db"
    using others_kept_same [OF Cons.prems(1) ok owner_step_kept [OF step Cons.prems(1)]] Cons.prems(2) r by auto
  then have "serve_read L p (Some u) rd ?db = serve_read L p (Some u) rd db" if "u_ID u = i" for u rd
    using same_serve_read [of u db ?db] that by simp
  then show ?case using Cons.IH [OF ok] Cons.prems(2) r by (simp add: serve_writes_def)
qed

text \<open>
  C6. Tenants are isolated. Whatever requests other users send, in any number and order, to any path
  (including paths that name this user), on both protocols, every request of this user is answered as
  if they had never been sent: lists, objects, queries and synchronisation alike.
\<close>

theorem tenant_isolation:
  assumes "db_ok (l_hash L) db" and "list_all (\<lambda>(now, v, w). u_ID v \<noteq> u_ID u) reqs"
  shows "serve_read L p (Some u) rd (serve_writes L p reqs db) = serve_read L p (Some u) rd db"
  using serve_writes_same [OF assms] by simp

text \<open>A server for the witnesses: the objects of the storage sample, and decoders that read any bytes as an object of that UID.\<close>

definition sample_lib :: lib where
  "sample_lib = \<lparr>l_hash = (\<lambda>s. s), l_dec_cal = (\<lambda>s. if s = [] then None else Some (Comp s (\<lambda>_. None) (Inr None) (Inr 0) (Inr 0) [])),
     l_dec_card = (\<lambda>s. if s = [] then None else Some [(''UID'', [\<lparr>f_Value = s, f_Params = [], f_Group = []\<rparr>])]),
     l_summarise = (\<lambda>c. Some \<lparr>b_UID = comp_Name c, b_ComponentType = ''VEVENT'', b_Summary = [], b_Start = None,
        b_End = None, b_Recurring = False\<rparr>),
     l_overlaps = (\<lambda>_ _ _. Some True)\<rparr>"

definition sample_paths :: Paths where "sample_paths = \<lparr>Prefix = ''/dav''\<rparr>"

definition user_named :: "int \<Rightarrow> string \<Rightarrow> user" where
  "user_named i name = sample_user\<lparr>u_ID := i, u_Username := name\<rparr>"

definition two_users :: db where
  "two_users = run (\<lambda>s. s) [OpCreateUser 9 (sample_user\<lparr>u_Username := ''bob''\<rparr>)] sample_db"

lemma two_users_ok: "db_ok (l_hash sample_lib) two_users"
  unfolding two_users_def using run_ok [OF sample_db_ok] by (simp add: sample_lib_def)

theorem tenant_isolation_witness:
  "serve_read sample_lib sample_paths (Some (user_named 1 ''ada'')) (GetEvent ''/dav/calendars/ada/work/a.ics'' None)
     (serve_writes sample_lib sample_paths
        [(20, user_named 2 ''bob'', PutCal ''/dav/calendars/ada/work/a.ics'' ''X'' None),
         (21, user_named 2 ''bob'', RmCal ''/dav/calendars/ada/work'')] two_users) =
   serve_read sample_lib sample_paths (Some (user_named 1 ''ada'')) (GetEvent ''/dav/calendars/ada/work/a.ics'' None) two_users \<and>
   (case serve_read sample_lib sample_paths (Some (user_named 1 ''ada'')) (GetEvent ''/dav/calendars/ada/work/a.ics'' None) two_users of
      Inr (Events [x]) \<Rightarrow> co_Raw x = ''A1'' | _ \<Rightarrow> False)"
proof
  show "case serve_read sample_lib sample_paths (Some (user_named 1 ''ada'')) (GetEvent ''/dav/calendars/ada/work/a.ics'' None) two_users of
      Inr (Events [x]) \<Rightarrow> co_Raw x = ''A1'' | _ \<Rightarrow> False" by code_simp
qed (rule tenant_isolation [OF two_users_ok], code_simp)

section \<open>Access\<close>

fun write_path :: "dav_write \<Rightarrow> string" where
  "write_path (MkBook ab) = bk_Path ab"
| "write_path (RmBook path) = path"
| "write_path (PutCard path raw opts) = path"
| "write_path (RmCard path) = path"
| "write_path (MkCal cal) = ca_Path cal"
| "write_path (PutCal path raw opts) = path"
| "write_path (RmCal path) = path"

fun read_path :: "dav_read \<Rightarrow> string option" where
  "read_path ListBooks = None"
| "read_path (GetBook path) = Some path"
| "read_path (GetCard path req) = Some path"
| "read_path (ListCards path req) = Some path"
| "read_path (QueryCards path q) = Some path"
| "read_path (SyncCards path q) = Some path"
| "read_path ListCals = None"
| "read_path (GetCal path) = Some path"
| "read_path (GetEvent path req) = Some path"
| "read_path (ListEvents path req) = Some path"
| "read_path (QueryEvents path q) = Some path"
| "read_path (SyncEvents path q) = Some path"

text \<open>Who may not address a path, and the status that says so.\<close>

definition denied :: "Paths \<Rightarrow> user option \<Rightarrow> string \<Rightarrow> nat option" where
  "denied p ctx path =
     (case ctx of
        None \<Rightarrow> Some StatusUnauthorized
      | Some u \<Rightarrow>
          (case parse_path p path of
             None \<Rightarrow> Some StatusNotFound
           | Some res \<Rightarrow>
               if r_User res = [] \<or> ToLower (r_User res) = ToLower (u_Username u) then None else Some StatusForbidden))"

lemma resolve_denied: "denied p ctx path = Some code \<Longrightarrow> resolve p ctx path = Inl (HTTPError code)"
  by (auto simp: denied_def resolve_def userFrom_def EqualFold_def split: option.splits if_splits)

text \<open>
  A request nobody is logged in for is answered 401, one for a path that names nothing 404 and one
  for a path under another user's name 403: every operation of both backends, and the database is as
  it was.
\<close>

theorem access_denied:
  assumes "denied p ctx path = Some code"
  shows "(write_path w = path \<longrightarrow> serve_write L p now ctx w db = (Inl (HTTPError code), db)) \<and>
    (read_path rd = Some path \<longrightarrow> serve_read L p ctx rd db = Inl (HTTPError code))"
proof -
  note r = resolve_denied [OF assms]
  have "serve_write L p now ctx w db = (Inl (HTTPError code), db)" if "write_path w = path"
    using r that
    by (cases w) (simp_all add: CreateAddressBook_def CreateCalendar_def DeleteAddressBook_def DeleteAddressObject_def
        DeleteCalendarObject_def PutAddressObject_def PutCalendarObject_def resolveAddressBook_def)
  moreover have "serve_read L p ctx rd db = Inl (HTTPError code)" if "read_path rd = Some path"
    using r that
    by (cases rd) (simp_all add: GetAddressBook_def GetAddressObject_def ListAddressObjects_def listAddressObjects_def
        QueryAddressObjects_def card_SyncCollection_def GetCalendar_def GetCalendarObject_def ListCalendarObjects_def
        QueryCalendarObjects_def cal_SyncCollection_def resolveAddressBook_def resolveCalendar_def)
  ultimately show ?thesis by simp
qed

theorem access_denied_witness:
  "serve_write sample_lib sample_paths 20 (Some (user_named 2 ''bob'')) (PutCal ''/dav/calendars/ada/work/a.ics'' ''X'' None) two_users =
     (Inl (HTTPError StatusForbidden), two_users) \<and>
   serve_read sample_lib sample_paths None (GetEvent ''/dav/calendars/ada/work/a.ics'' None) two_users = Inl (HTTPError StatusUnauthorized)"
proof -
  have "denied sample_paths (Some (user_named 2 ''bob'')) ''/dav/calendars/ada/work/a.ics'' = Some StatusForbidden"
    "denied sample_paths None ''/dav/calendars/ada/work/a.ics'' = Some StatusUnauthorized" by code_simp+
  note access_denied [OF this(1), of "PutCal ''/dav/calendars/ada/work/a.ics'' ''X'' None" sample_lib 20 two_users]
    access_denied [OF this(2), where rd = "GetEvent ''/dav/calendars/ada/work/a.ics'' None" and L = sample_lib and db = two_users]
  then show ?thesis by simp
qed

end
