(* ===== verification/Object_Store.thy ===== *)
theory Object_Store
  imports Isolation
begin

text \<open>
  The contract of the object operations of a backend (\<open>PUT\<close>, \<open>GET\<close>, \<open>DELETE\<close> on one path) as a locale,
  what clients that race each other may rely on from it alone, and its two providers: the CardDAV and
  the CalDAV backend.
\<close>

section \<open>The contract\<close>

locale object_store =
  fixes put :: "int \<Rightarrow> string \<Rightarrow> string \<Rightarrow> PutOptions option \<Rightarrow> db \<Rightarrow> (http_error + 'a) \<times> db"
    and del :: "int \<Rightarrow> string \<Rightarrow> db \<Rightarrow> (http_error + unit) \<times> db"
    and get :: "string \<Rightarrow> db \<Rightarrow> http_error + 'a"
    and etag :: "'a \<Rightarrow> string"
    and hash :: "string \<Rightarrow> string"
  assumes put_error: "db_ok hash db \<Longrightarrow> put now path raw opts db = (Inl e, db') \<Longrightarrow> db' = db"
    and put_get: "db_ok hash db \<Longrightarrow> put now path raw opts db = (Inr x, db') \<Longrightarrow>
      db_ok hash db' \<and> get path db' = Inr x \<and> etag x = hash raw"
    and put_create: "get path db = Inr x \<Longrightarrow> IsSet (IfNoneMatch cond) \<Longrightarrow>
      put now path raw (Some cond) db = (Inl (HTTPError StatusPreconditionFailed), db)"
    and put_match: "get path db = Inr x \<Longrightarrow> \<not> IsSet (IfNoneMatch cond) \<Longrightarrow> IfMatch cond = ETag_String tag \<Longrightarrow> etag x \<noteq> tag \<Longrightarrow>
      put now path raw (Some cond) db = (Inl (HTTPError StatusPreconditionFailed), db)"
    and put_same: "get path db = Inr x \<Longrightarrow> put now path raw None db = (Inr y, db') \<Longrightarrow> etag x = hash raw \<Longrightarrow> db' = db \<and> y = x"
    and del_error: "db_ok hash db \<Longrightarrow> del now path db = (Inl e, db') \<Longrightarrow> db' = db"
    and del_gone: "db_ok hash db \<Longrightarrow> del now path db = (Inr (), db') \<Longrightarrow> get path db = Inr x \<Longrightarrow>
      db_ok hash db' \<and> get path db' = Inl (HTTPError StatusNotFound) \<and> del now' path db' = (Inl (HTTPError StatusNotFound), db')"
begin

text \<open>Of two clients that both saw the ETag \<open>e\<close> and replace the object if it still has it, the second is refused.\<close>

lemma second_writer_refused:
  assumes "db_ok hash db" and "put now path raw opts db = (Inr x, db')" and "hash raw \<noteq> e"
    and "\<not> IsSet (IfNoneMatch opts')" and "IfMatch opts' = ETag_String e"
  shows "put now' path raw' (Some opts') db' = (Inl (HTTPError StatusPreconditionFailed), db') \<and> get path db' = Inr x"
  using put_get [OF assms(1,2)] put_match [OF _ assms(4,5)] assms(3) by simp

text \<open>Of two clients that both create the object, the second is refused.\<close>

lemma created_once:
  assumes "db_ok hash db" and "put now path raw opts db = (Inr x, db')" and "IsSet (IfNoneMatch opts')"
  shows "put now' path raw' (Some opts') db' = (Inl (HTTPError StatusPreconditionFailed), db') \<and> get path db' = Inr x"
  using put_get [OF assms(1,2)] put_create [OF _ assms(3)] by simp

text \<open>Sending the same bytes again is no change.\<close>

lemma put_idempotent:
  assumes "db_ok hash db" and "put now path raw opts db = (Inr x, db')" and "put now' path raw None db' = (Inr y, db'')"
  shows "db'' = db' \<and> y = x"
  using put_get [OF assms(1,2)] put_same [OF _ assms(3)] by simp

end

section \<open>What the providers share\<close>

lemma MatchETag_other: "e \<noteq> e' \<Longrightarrow> e' \<noteq> [] \<Longrightarrow> MatchETag (ETag_String e) e' = Inr False"
proof -
  have "ETag_String e \<noteq> ''*''" by (simp add: ETag_String_def Quote_def)
  then show "e \<noteq> e' \<Longrightarrow> e' \<noteq> [] \<Longrightarrow> MatchETag (ETag_String e) e' = Inr False"
    by (simp add: MatchETag_def cond_ETag_def etag.dec_enc IsWildcard_def)
qed

lemma existing_lookup: "existing_object cid uri db = Inr (lookup_object cid uri db)"
  by (simp add: existing_object_def ObjectByURI_lookup split: option.split)

lemma check_create: "IsSet (IfNoneMatch opts) \<Longrightarrow> checkPreconditions (Some opts) (Some x) = Inl (HTTPError StatusPreconditionFailed)"
  by (simp add: checkPreconditions_def)

lemma check_match:
  assumes "\<not> IsSet (IfNoneMatch opts)" and "IfMatch opts = ETag_String e" and "o_ETag x \<noteq> e"
  shows "checkPreconditions (Some opts) (Some x) = Inl (HTTPError StatusPreconditionFailed)"
proof -
  have "IsSet (IfMatch opts)" using assms(2) by (simp add: IsSet_def ETag_String_def Quote_def)
  moreover have "MatchETag (IfMatch opts) (o_ETag x) = Inr False"
    using assms(2,3) MatchETag_other [of e "o_ETag x"] by (cases "o_ETag x = []") (auto simp: MatchETag_def)
  ultimately show ?thesis using assms(1) by (simp add: checkPreconditions_def)
qed

lemma collection_recorded:
  "collectionOfType i uri ty db = Inr d \<Longrightarrow> \<exists>d'. collectionOfType i uri ty (recorded now c u t xs db) = Inr d' \<and>
     c_ID d' = c_ID d \<and> c_URI d' = c_URI d"
proof -
  have "List.find (\<lambda>c. c_OwnerID c = i \<and> c_URI c = uri) (map (bump (c_ID c) now) cs) =
      map_option (bump (c_ID c) now) (List.find (\<lambda>c. c_OwnerID c = i \<and> c_URI c = uri) cs)" for cs
    by (induction cs) auto
  then show "collectionOfType i uri ty db = Inr d \<Longrightarrow> ?thesis"
    by (auto simp: collectionOfType_Inr CollectionByURI_def recorded_def split: option.splits)
qed

lemma checkCalendarPreconditions_same: "checkCalendarPreconditions = checkPreconditions"
  by (intro ext) (simp add: checkCalendarPreconditions_def checkPreconditions_def)

text \<open>Storing in a collection of the user: what a lookup by URI finds afterwards.\<close>

lemma put_finds:
  assumes ok: "db_ok hash db" and c: "collectionOfType i uri ty db = Inr c" and o: "o_CollectionID obj = c_ID c"
    and p: "PutObject hash now obj db = (r, db')"
  shows "\<exists>x c'. r = Inr x \<and> db_ok hash db' \<and> ObjectByURI (c_ID c) (o_URI obj) db' = Inr x \<and> o_ETag x = hash (o_Raw obj) \<and>
    collectionOfType i uri ty db' = Inr c' \<and> c_ID c' = c_ID c \<and> c_URI c' = c_URI c"
proof -
  note mem = resolved_owner [OF c]
  obtain x where x: "r = Inr x" "ObjectByURI (c_ID c) (o_URI obj) db' = Inr x" "o_ETag x = hash (o_Raw obj)"
    using put_object_stores [OF ok mem(1) o p] by (auto simp: ETagFor_def)
  have ok': "db_ok hash db'" using PutObject_ok [OF ok, of now obj] p by simp
  have "\<exists>c'. collectionOfType i uri ty db' = Inr c' \<and> c_ID c' = c_ID c \<and> c_URI c' = c_URI c"
  proof (cases "\<exists>x. lookup_object (o_CollectionID obj) (o_URI obj) db = Some x \<and> ETagFor hash (o_Raw obj) = o_ETag x")
    case True
    then have "db' = db" using PutObject_same [of obj db _ hash now] p by auto
    then show ?thesis using c by simp
  next
    case False
    then have "\<exists>t. db' = recorded now c (o_URI obj) t (put_row hash now obj (objects db)) db"
      using PutObject_change(1) [OF ok mem(1) o, of now] p by auto
    then show ?thesis using collection_recorded [OF c] by auto
  qed
  then show ?thesis using x ok' by auto
qed

text \<open>Deleting from a collection of the user.\<close>

lemma delete_finds:
  assumes ok: "db_ok hash db" and c: "collectionOfType i uri ty db = Inr c"
    and d: "DeleteObject now (c_ID c) o_uri db = (Inr (), db')"
  shows "db_ok hash db' \<and> lookup_object (c_ID c) o_uri db' = None \<and>
    (\<exists>c'. collectionOfType i uri ty db' = Inr c' \<and> c_ID c' = c_ID c)"
proof (cases "lookup_object (c_ID c) o_uri db")
  case None
  then show ?thesis using d by (simp add: DeleteObject_missing)
next
  case (Some x)
  note mem = resolved_owner(1) [OF c]
  have "db_ok hash db'" using DeleteObject_ok [OF ok, of now "c_ID c" o_uri] d by simp
  moreover have "lookup_object (c_ID c) o_uri db' = None"
    using delete_object_removes [OF ok mem d] Some by (auto simp: contents_def split: if_splits)
  moreover have "\<exists>xs. db' = recorded now c o_uri ChangeDeleted xs db"
    using DeleteObject_change(1) [OF ok mem, of o_uri now] Some d by auto
  ultimately show ?thesis using collection_recorded [OF c] by blast
qed

lemma delete_error: "DeleteObject now cid uri db = (Inl e, db') \<Longrightarrow> db_ok hash db \<Longrightarrow> db' = db \<and> e = ErrNotFound"
proof (cases "lookup_object cid uri db")
  case (Some x)
  assume d: "DeleteObject now cid uri db = (Inl e, db')" and ok: "db_ok hash db"
  obtain c where c: "c \<in> set (collections db)" "cid = c_ID c"
    using lookup_object_stored [of cid uri db] Some stored_cids [of hash "coll_ids db" "objects db" cid uri] ok
    by (auto simp: db_ok_def)
  then show ?thesis using DeleteObject_change(1) [OF ok c(1), of uri now] Some d by simp
qed (simp add: DeleteObject_missing)

section \<open>CardDAV\<close>

abbreviation card_get :: "lib \<Rightarrow> Paths \<Rightarrow> user option \<Rightarrow> string \<Rightarrow> db \<Rightarrow> http_error + AddressObject" where
  "card_get L p ctx path db \<equiv> GetAddressObject L p ctx path None db"

lemma addressObject_plain:
  "addressObject L p name c x None False = Inr \<lparr>ao_Path = AddressObject p name (c_URI c) (o_URI x), ao_ModTime = o_UpdatedAt x,
     ao_ContentLength = length (o_Raw x), ao_ETag = o_ETag x, ao_Raw = o_Raw x, ao_Card = []\<rparr>"
  by (simp add: addressObject_def)

text \<open>A GET that finds something, and a PUT that is let through, spelled out.\<close>

lemma card_get_Inr:
  assumes "card_get L p ctx path db = Inr a"
  obtains u res c x where "resolve p ctx path = Inr (u, res)" "r_Kind res = KindAddressObject"
    "collectionOfType (u_ID u) (r_Collection res) CollectionAddressBook db = Inr c"
    "lookup_object (c_ID c) (r_Object res) db = Some x" "addressObject L p (u_Username u) c x None False = Inr a" "ao_ETag a = o_ETag x"
  using assms that
  by (fastforce simp: GetAddressObject_def bindE_Inr mapE_Inr ObjectByURI_lookup addressObject_plain
      split: if_splits option.splits)

lemma card_put_allowed:
  assumes "PutAddressObject L p now ctx path raw opts db = (Inr a, db')"
  obtains u res c obj x where "resolve p ctx path = Inr (u, res)" "r_Kind res = KindAddressObject"
    "collectionOfType (u_ID u) (r_Collection res) CollectionAddressBook db = Inr c"
    "PutObject (l_hash L) now obj db = (Inr x, db')" "addressObject L p (u_Username u) c x None False = Inr a"
    "o_CollectionID obj = c_ID c" "o_URI obj = r_Object res" "o_Raw obj = raw"
  using assms unfolding PutAddressObject_def
  by (auto simp: bindE_Inr split: sum.splits prod.splits if_splits option.splits intro!: that)

lemma card_put_error:
  assumes "db_ok (l_hash L) db" and "PutAddressObject L p now ctx path raw opts db = (Inl e, db')"
  shows "db' = db"
proof -
  have stores: "fst (PutObject (l_hash L) now obj db) \<noteq> Inl e'"
    if "collectionOfType i uri ty db = Inr c" "o_CollectionID obj = c_ID c" for i uri ty c obj e'
    using put_finds [OF assms(1) that] by (metis Inl_Inr_False prod.collapse)
  then show ?thesis
    using assms(2) unfolding PutAddressObject_def
    by (auto simp: bindE_Inr addressObject_plain split: sum.splits prod.splits if_splits option.splits)
      (metis fst_conv object.select_convs(2))+
qed

lemma card_put_get:
  assumes "db_ok (l_hash L) db" and "PutAddressObject L p now ctx path raw opts db = (Inr a, db')"
  shows "db_ok (l_hash L) db' \<and> card_get L p ctx path db' = Inr a \<and> ao_ETag a = l_hash L raw"
  using assms(2)
proof (rule card_put_allowed)
  fix u res c obj x
  assume r: "resolve p ctx path = Inr (u, res)" "r_Kind res = KindAddressObject"
    and c: "collectionOfType (u_ID u) (r_Collection res) CollectionAddressBook db = Inr c"
    and q: "PutObject (l_hash L) now obj db = (Inr x, db')" and a: "addressObject L p (u_Username u) c x None False = Inr a"
    and o: "o_CollectionID obj = c_ID c" "o_URI obj = r_Object res" "o_Raw obj = raw"
  show ?thesis
    using put_finds [OF assms(1) c o(1) q] r a o by (auto simp: GetAddressObject_def addressObject_plain)
qed

lemma card_put_refused:
  assumes "card_get L p ctx path db = Inr a" and "\<And>x. o_ETag x = ao_ETag a \<Longrightarrow> checkPreconditions opts (Some x) = Inl e"
  shows "PutAddressObject L p now ctx path raw opts db = (Inl e, db)"
  using assms(1)
proof (rule card_get_Inr)
  fix u res c x
  assume "resolve p ctx path = Inr (u, res)" "r_Kind res = KindAddressObject"
    "collectionOfType (u_ID u) (r_Collection res) CollectionAddressBook db = Inr c"
    "lookup_object (c_ID c) (r_Object res) db = Some x" "ao_ETag a = o_ETag x"
  then show ?thesis using assms(2) by (simp add: PutAddressObject_def existing_lookup)
qed

lemma card_put_same:
  assumes "card_get L p ctx path db = Inr a" and "PutAddressObject L p now ctx path raw None db = (Inr b, db')" and "ao_ETag a = l_hash L raw"
  shows "db' = db \<and> b = a"
  using assms(2)
proof (rule card_put_allowed)
  fix u res c obj x
  assume r: "resolve p ctx path = Inr (u, res)" "collectionOfType (u_ID u) (r_Collection res) CollectionAddressBook db = Inr c"
    and q: "PutObject (l_hash L) now obj db = (Inr x, db')" "addressObject L p (u_Username u) c x None False = Inr b"
      "o_CollectionID obj = c_ID c" "o_URI obj = r_Object res" "o_Raw obj = raw"
  from assms(1) show ?thesis
  proof (rule card_get_Inr)
    fix u' res' c' y
    assume "resolve p ctx path = Inr (u', res')" "collectionOfType (u_ID u') (r_Collection res') CollectionAddressBook db = Inr c'"
      and y: "lookup_object (c_ID c') (r_Object res') db = Some y" "addressObject L p (u_Username u') c' y None False = Inr a" "ao_ETag a = o_ETag y"
    then have same: "u' = u" "res' = res" "c' = c" using r by auto
    then show ?thesis
      using PutObject_same [of obj db y "l_hash L" now] q y assms(3) by (auto simp: ETagFor_def)
  qed
qed

lemma card_del_error:
  assumes "db_ok (l_hash L) db" and "DeleteAddressObject p now ctx path db = (Inl e, db')"
  shows "db' = db"
  using assms(2) delete_error [OF _ assms(1)] unfolding DeleteAddressObject_def
  by (auto simp: bindE_Inr mapE_def split: sum.splits prod.splits if_splits)

lemma card_del_gone:
  assumes "db_ok (l_hash L) db" and "DeleteAddressObject p now ctx path db = (Inr (), db')" and "card_get L p ctx path db = Inr a"
  shows "db_ok (l_hash L) db' \<and> card_get L p ctx path db' = Inl (HTTPError StatusNotFound) \<and>
    DeleteAddressObject p now' ctx path db' = (Inl (HTTPError StatusNotFound), db')"
  using assms(3)
proof (rule card_get_Inr)
  fix u res c x
  assume r: "resolve p ctx path = Inr (u, res)" "r_Kind res = KindAddressObject"
    and c: "collectionOfType (u_ID u) (r_Collection res) CollectionAddressBook db = Inr c"
  have d: "DeleteObject now (c_ID c) (r_Object res) db = (Inr (), db')"
    using assms(2) r c by (auto simp: DeleteAddressObject_def mapE_Inr split: prod.splits)
  then obtain c' where c': "collectionOfType (u_ID u) (r_Collection res) CollectionAddressBook db' = Inr c'" "c_ID c' = c_ID c"
    and gone: "db_ok (l_hash L) db'" "lookup_object (c_ID c) (r_Object res) db' = None"
    using delete_finds [OF assms(1) c d] by auto
  then show ?thesis
    using r c' DeleteObject_missing [OF gone(2), of now']
    by (simp add: GetAddressObject_def DeleteAddressObject_def ObjectByURI_lookup notFoundIfMissing_def)
qed

interpretation card: object_store "\<lambda>now. PutAddressObject L p now ctx" "\<lambda>now. DeleteAddressObject p now ctx" "card_get L p ctx" ao_ETag "l_hash L"
  for L p ctx
proof (unfold_locales, goal_cases)
  case 1 then show ?case by (rule card_put_error)
next
  case 2 then show ?case by (rule card_put_get)
next
  case 3 then show ?case by (auto intro: card_put_refused check_create)
next
  case 4 then show ?case by (intro card_put_refused [OF 4(1)] check_match) auto
next
  case 5 then show ?case by (rule card_put_same)
next
  case 6 then show ?case by (rule card_del_error)
next
  case 7 then show ?case by (rule card_del_gone)
qed

section \<open>CalDAV\<close>

abbreviation cal_get :: "lib \<Rightarrow> Paths \<Rightarrow> user option \<Rightarrow> string \<Rightarrow> db \<Rightarrow> http_error + CalendarObject" where
  "cal_get L p ctx path db \<equiv> GetCalendarObject L p ctx path None db"

lemma calendarObject_plain:
  "calendarObject L p name c x None = Inr \<lparr>co_Path = CalendarObject p name (c_URI c) (o_URI x), co_ModTime = o_UpdatedAt x,
     co_ContentLength = length (o_Raw x), co_ETag = o_ETag x, co_Raw = o_Raw x, co_Data = None\<rparr>"
  by (simp add: calendarObject_def)

lemma cal_get_Inr:
  assumes "cal_get L p ctx path db = Inr a"
  obtains u res c x where "resolve p ctx path = Inr (u, res)" "r_Kind res = KindCalendarObject"
    "collectionOfType (u_ID u) (r_Collection res) CollectionCalendar db = Inr c"
    "lookup_object (c_ID c) (r_Object res) db = Some x" "calendarObject L p (u_Username u) c x None = Inr a" "co_ETag a = o_ETag x"
  using assms that
  by (fastforce simp: GetCalendarObject_def bindE_Inr mapE_Inr ObjectByURI_lookup calendarObject_plain
      split: if_splits option.splits)

lemma cal_put_allowed:
  assumes "PutCalendarObject L p now ctx path raw opts db = (Inr a, db')"
  obtains u res c obj x where "resolve p ctx path = Inr (u, res)" "r_Kind res = KindCalendarObject"
    "collectionOfType (u_ID u) (r_Collection res) CollectionCalendar db = Inr c"
    "PutObject (l_hash L) now obj db = (Inr x, db')" "calendarObject L p (u_Username u) c x None = Inr a"
    "o_CollectionID obj = c_ID c" "o_URI obj = r_Object res" "o_Raw obj = raw"
  using assms unfolding PutCalendarObject_def
  by (auto simp: bindE_Inr split: sum.splits prod.splits if_splits option.splits intro!: that)

lemma delete_collection_error: "collectionOfType j uri ty db = Inr c \<Longrightarrow> DeleteCollection (c_ID c) db \<noteq> (Inl e, db')"
  using resolved_owner(1) [of j uri ty db c] by (auto simp: DeleteCollection_def checkAffected_Inl)

lemma cal_put_error:
  assumes "db_ok (l_hash L) db" and "PutCalendarObject L p now ctx path raw opts db = (Inl e, db')"
  shows "db' = db"
proof -
  have stores: "fst (PutObject (l_hash L) now obj db) \<noteq> Inl e'"
    if "collectionOfType i uri ty db = Inr c" "o_CollectionID obj = c_ID c" for i uri ty c obj e'
    using put_finds [OF assms(1) that] by (metis Inl_Inr_False prod.collapse)
  then show ?thesis
    using assms(2) unfolding PutCalendarObject_def
    by (auto simp: bindE_Inr calendarObject_plain split: sum.splits prod.splits if_splits option.splits)
      (metis fst_conv object.select_convs(2))+
qed

lemma cal_put_get:
  assumes "db_ok (l_hash L) db" and "PutCalendarObject L p now ctx path raw opts db = (Inr a, db')"
  shows "db_ok (l_hash L) db' \<and> cal_get L p ctx path db' = Inr a \<and> co_ETag a = l_hash L raw"
  using assms(2)
proof (rule cal_put_allowed)
  fix u res c obj x
  assume r: "resolve p ctx path = Inr (u, res)" "r_Kind res = KindCalendarObject"
    and c: "collectionOfType (u_ID u) (r_Collection res) CollectionCalendar db = Inr c"
    and q: "PutObject (l_hash L) now obj db = (Inr x, db')" and a: "calendarObject L p (u_Username u) c x None = Inr a"
    and o: "o_CollectionID obj = c_ID c" "o_URI obj = r_Object res" "o_Raw obj = raw"
  show ?thesis
    using put_finds [OF assms(1) c o(1) q] r a o by (auto simp: GetCalendarObject_def calendarObject_plain)
qed

lemma cal_put_refused:
  assumes "cal_get L p ctx path db = Inr a" and "\<And>x. o_ETag x = co_ETag a \<Longrightarrow> checkPreconditions opts (Some x) = Inl e"
  shows "PutCalendarObject L p now ctx path raw opts db = (Inl e, db)"
  using assms(1)
proof (rule cal_get_Inr)
  fix u res c x
  assume "resolve p ctx path = Inr (u, res)" "r_Kind res = KindCalendarObject"
    "collectionOfType (u_ID u) (r_Collection res) CollectionCalendar db = Inr c"
    "lookup_object (c_ID c) (r_Object res) db = Some x" "co_ETag a = o_ETag x"
  then show ?thesis using assms(2) by (simp add: PutCalendarObject_def existing_lookup checkCalendarPreconditions_same)
qed

lemma cal_put_same:
  assumes "cal_get L p ctx path db = Inr a" and "PutCalendarObject L p now ctx path raw None db = (Inr b, db')" and "co_ETag a = l_hash L raw"
  shows "db' = db \<and> b = a"
  using assms(2)
proof (rule cal_put_allowed)
  fix u res c obj x
  assume r: "resolve p ctx path = Inr (u, res)" "collectionOfType (u_ID u) (r_Collection res) CollectionCalendar db = Inr c"
    and q: "PutObject (l_hash L) now obj db = (Inr x, db')" "calendarObject L p (u_Username u) c x None = Inr b"
      "o_CollectionID obj = c_ID c" "o_URI obj = r_Object res" "o_Raw obj = raw"
  from assms(1) show ?thesis
  proof (rule cal_get_Inr)
    fix u' res' c' y
    assume "resolve p ctx path = Inr (u', res')" "collectionOfType (u_ID u') (r_Collection res') CollectionCalendar db = Inr c'"
      and y: "lookup_object (c_ID c') (r_Object res') db = Some y" "calendarObject L p (u_Username u') c' y None = Inr a" "co_ETag a = o_ETag y"
    then have same: "u' = u" "res' = res" "c' = c" using r by auto
    then show ?thesis
      using PutObject_same [of obj db y "l_hash L" now] q y assms(3) by (auto simp: ETagFor_def)
  qed
qed

lemma cal_del_error:
  assumes "db_ok (l_hash L) db" and "DeleteCalendarObject p now ctx path db = (Inl e, db')"
  shows "db' = db"
  using assms(2) delete_error [OF _ assms(1)] unfolding DeleteCalendarObject_def
  by (auto simp: bindE_Inr mapE_def delete_collection_error split: sum.splits prod.splits if_splits)

lemma cal_del_gone:
  assumes "db_ok (l_hash L) db" and "DeleteCalendarObject p now ctx path db = (Inr (), db')" and "cal_get L p ctx path db = Inr a"
  shows "db_ok (l_hash L) db' \<and> cal_get L p ctx path db' = Inl (HTTPError StatusNotFound) \<and>
    DeleteCalendarObject p now' ctx path db' = (Inl (HTTPError StatusNotFound), db')"
  using assms(3)
proof (rule cal_get_Inr)
  fix u res c x
  assume r: "resolve p ctx path = Inr (u, res)" "r_Kind res = KindCalendarObject"
    and c: "collectionOfType (u_ID u) (r_Collection res) CollectionCalendar db = Inr c"
  have d: "DeleteObject now (c_ID c) (r_Object res) db = (Inr (), db')"
    using assms(2) r c by (auto simp: DeleteCalendarObject_def mapE_Inr split: prod.splits)
  then obtain c' where c': "collectionOfType (u_ID u) (r_Collection res) CollectionCalendar db' = Inr c'" "c_ID c' = c_ID c"
    and gone: "db_ok (l_hash L) db'" "lookup_object (c_ID c) (r_Object res) db' = None"
    using delete_finds [OF assms(1) c d] by auto
  then show ?thesis
    using r c' DeleteObject_missing [OF gone(2), of now']
    by (simp add: GetCalendarObject_def DeleteCalendarObject_def ObjectByURI_lookup notFoundIfMissing_def)
qed

interpretation cal: object_store "\<lambda>now. PutCalendarObject L p now ctx" "\<lambda>now. DeleteCalendarObject p now ctx" "cal_get L p ctx" co_ETag "l_hash L"
  for L p ctx
proof (unfold_locales, goal_cases)
  case 1 then show ?case by (rule cal_put_error)
next
  case 2 then show ?case by (rule cal_put_get)
next
  case 3 then show ?case by (auto intro: cal_put_refused check_create)
next
  case 4 then show ?case by (intro cal_put_refused [OF 4(1)] check_match) auto
next
  case 5 then show ?case by (rule cal_put_same)
next
  case 6 then show ?case by (rule cal_del_error)
next
  case 7 then show ?case by (rule cal_del_gone)
qed

section \<open>What clients may rely on\<close>

lemma CreateCollection_error: "CreateCollection now c db = (Inl e, db') \<Longrightarrow> db' = db"
  by (auto simp: CreateCollection_def CollectionByID_def Let_def find_None_iff split: if_splits option.splits)

lemma CreateCollection_cases:
  "CreateCollection now c db = (r, db') \<Longrightarrow> db' = db \<or> (\<exists>x. r = Inr x)"
  using CreateCollection_error [of now c db] by (cases r) auto

text \<open>
  C39. A request that fails has changed nothing: when any write of either backend answers with an
  error, whichever, the database is exactly as it was.
\<close>

theorem failed_write_changes_nothing:
  assumes "db_ok (l_hash L) db" and "serve_write L p now ctx w db = (Inl e, db')"
  shows "db' = db"
proof (cases w)
  case (MkBook ab)
  then show ?thesis using assms(2) CreateCollection_error
    by (auto simp: CreateAddressBook_def split: sum.splits prod.splits serror.splits if_splits)
next
  case (RmBook path)
  then show ?thesis using assms(2)
    by (auto simp: DeleteAddressBook_def mapE_def delete_collection_error dest!: resolveAddressBook_Inr split: sum.splits prod.splits)
next
  case (PutCard path raw opts)
  then show ?thesis using assms(2) card_put_error [OF assms(1)] by (auto simp: map_sum_def split: prod.splits sum.splits)
next
  case (RmCard path)
  then show ?thesis using assms(2) card_del_error [OF assms(1)] by simp
next
  case (MkCal cal)
  then show ?thesis using assms(2) CreateCollection_error
    by (auto simp: CreateCalendar_def split: sum.splits prod.splits serror.splits if_splits)
next
  case (PutCal path raw opts)
  then show ?thesis using assms(2) cal_put_error [OF assms(1)] by (auto simp: map_sum_def split: prod.splits sum.splits)
next
  case (RmCal path)
  then show ?thesis using assms(2) cal_del_error [OF assms(1)] by simp
qed

theorem failed_write_changes_nothing_witness:
  "snd (serve_write sample_lib sample_paths 20 (Some (user_named 1 ''ada'')) (PutCal ''/dav/calendars/ada/work/c.ics'' [] None) two_users) = two_users \<and>
   fst (serve_write sample_lib sample_paths 20 (Some (user_named 1 ''ada'')) (PutCal ''/dav/calendars/ada/work/c.ics'' [] None) two_users) =
     Inl (HTTPError StatusBadRequest)"
proof -
  let ?w = "serve_write sample_lib sample_paths 20 (Some (user_named 1 ''ada'')) (PutCal ''/dav/calendars/ada/work/c.ics'' [] None) two_users"
  have e: "fst ?w = Inl (HTTPError StatusBadRequest)" by code_simp
  then have "?w = (Inl (HTTPError StatusBadRequest), snd ?w)" by (metis prod.collapse)
  then show ?thesis using failed_write_changes_nothing [OF two_users_ok] e by blast
qed

text \<open>A server with an address book beside the calendar.\<close>

definition sample_server :: db where
  "sample_server = serve_writes sample_lib sample_paths
     [(30, user_named 1 ''ada'', MkBook \<lparr>bk_Path = ''/dav/addressbooks/ada/friends/'', bk_Name = [], bk_Description = [],
         bk_MaxResourceSize = 0, bk_SyncToken = []\<rparr>),
      (31, user_named 1 ''ada'', PutCard ''/dav/addressbooks/ada/friends/x.vcf'' ''X1'' None)] two_users"

lemma serve_writes_ok: "db_ok (l_hash L) db \<Longrightarrow> db_ok (l_hash L) (serve_writes L p reqs db)"
  using owner_step_ok [OF serve_write_step] unfolding serve_writes_def
  by (induction reqs arbitrary: db) auto

lemma sample_server_ok: "db_ok (l_hash sample_lib) sample_server"
  unfolding sample_server_def by (rule serve_writes_ok [OF two_users_ok])

text \<open>
  C28. What was stored is read back: after a PUT that is answered with an object, on either protocol,
  a GET of the same path answers with that very object, whose ETag is the hash of the bytes that were
  sent; the database is still consistent, and repeating the PUT without conditions changes nothing.
\<close>

theorem put_then_get:
  assumes "db_ok (l_hash L) db"
  shows "(PutAddressObject L p now ctx path raw opts db = (Inr a, db') \<longrightarrow>
      GetAddressObject L p ctx path None db' = Inr a \<and> ao_ETag a = l_hash L raw \<and> db_ok (l_hash L) db' \<and>
      snd (PutAddressObject L p now' ctx path raw None db') = db') \<and>
    (PutCalendarObject L p now ctx path raw opts db = (Inr b, db') \<longrightarrow>
      GetCalendarObject L p ctx path None db' = Inr b \<and> co_ETag b = l_hash L raw \<and> db_ok (l_hash L) db' \<and>
      snd (PutCalendarObject L p now' ctx path raw None db') = db')"
proof (intro conjI impI)
  assume p: "PutAddressObject L p now ctx path raw opts db = (Inr a, db')"
  note g = card.put_get [OF assms p]
  then show "GetAddressObject L p ctx path None db' = Inr a" "ao_ETag a = l_hash L raw" "db_ok (l_hash L) db'" by auto
  obtain r d where again: "PutAddressObject L p now' ctx path raw None db' = (r, d)" by fastforce
  show "snd (PutAddressObject L p now' ctx path raw None db') = db'"
  proof (cases r)
    case (Inl e) then show ?thesis using card.put_error [of L db'] g again by auto
  next
    case (Inr y) then show ?thesis using card.put_idempotent [OF assms p] again by auto
  qed
next
  assume p: "PutCalendarObject L p now ctx path raw opts db = (Inr b, db')"
  note g = cal.put_get [OF assms p]
  then show "GetCalendarObject L p ctx path None db' = Inr b" "co_ETag b = l_hash L raw" "db_ok (l_hash L) db'" by auto
  obtain r d where again: "PutCalendarObject L p now' ctx path raw None db' = (r, d)" by fastforce
  show "snd (PutCalendarObject L p now' ctx path raw None db') = db'"
  proof (cases r)
    case (Inl e) then show ?thesis using cal.put_error [of L db'] g again by auto
  next
    case (Inr y) then show ?thesis using cal.put_idempotent [OF assms p] again by auto
  qed
qed

abbreviation ada :: "user option" where "ada \<equiv> Some (user_named 1 ''ada'')"

theorem put_then_get_witness:
  "(case PutAddressObject sample_lib sample_paths 40 ada ''/dav/addressbooks/ada/friends/x.vcf'' ''X2'' None sample_server of
      (Inr a, db') \<Rightarrow> GetAddressObject sample_lib sample_paths ada ''/dav/addressbooks/ada/friends/x.vcf'' None db' = Inr a \<and> ao_Raw a = ''X2''
    | _ \<Rightarrow> False) \<and>
   (case PutCalendarObject sample_lib sample_paths 40 ada ''/dav/calendars/ada/work/a.ics'' ''A2'' None sample_server of
      (Inr a, db') \<Rightarrow> GetCalendarObject sample_lib sample_paths ada ''/dav/calendars/ada/work/a.ics'' None db' = Inr a \<and> co_Raw a = ''A2''
    | _ \<Rightarrow> False)"
proof -
  have "case PutAddressObject sample_lib sample_paths 40 ada ''/dav/addressbooks/ada/friends/x.vcf'' ''X2'' None sample_server of
      (Inr a, db') \<Rightarrow> ao_Raw a = ''X2'' | _ \<Rightarrow> False" by code_simp
  moreover have "case PutCalendarObject sample_lib sample_paths 40 ada ''/dav/calendars/ada/work/a.ics'' ''A2'' None sample_server of
      (Inr a, db') \<Rightarrow> co_Raw a = ''A2'' | _ \<Rightarrow> False" by code_simp
  ultimately show ?thesis
    using put_then_get [OF sample_server_ok] by (fastforce split: prod.splits sum.splits)
qed

text \<open>
  C9. Conditional requests protect a client from overwriting what it has not seen. A PUT that must find
  the ETag \<open>e\<close>, sent after another client's PUT of other bytes was accepted, is answered 412 and the
  first one's object stays; so is a PUT that must create the object. Both on either protocol.
\<close>

theorem no_lost_update:
  assumes "db_ok (l_hash L) db"
    and "IsSet (IfNoneMatch cond) \<or> IfMatch cond = ETag_String e \<and> l_hash L raw \<noteq> e"
  shows "(PutAddressObject L p now ctx path raw opts db = (Inr a, db') \<longrightarrow>
      PutAddressObject L p now' ctx path raw' (Some cond) db' = (Inl (HTTPError StatusPreconditionFailed), db') \<and>
      GetAddressObject L p ctx path None db' = Inr a) \<and>
    (PutCalendarObject L p now ctx path raw opts db = (Inr b, db') \<longrightarrow>
      PutCalendarObject L p now' ctx path raw' (Some cond) db' = (Inl (HTTPError StatusPreconditionFailed), db') \<and>
      GetCalendarObject L p ctx path None db' = Inr b)"
proof (cases "IsSet (IfNoneMatch cond)")
  case True
  then show ?thesis using card.created_once [OF assms(1) _ True] cal.created_once [OF assms(1) _ True] by simp
next
  case False
  then have e: "l_hash L raw \<noteq> e" "IfMatch cond = ETag_String e" using assms(2) by auto
  show ?thesis
    using card.second_writer_refused [OF assms(1) _ e(1) False e(2)] cal.second_writer_refused [OF assms(1) _ e(1) False e(2)] by simp
qed

theorem no_lost_update_witness:
  "(case PutCalendarObject sample_lib sample_paths 40 ada ''/dav/calendars/ada/work/a.ics'' ''A2'' None sample_server of
      (Inr a, db') \<Rightarrow> PutCalendarObject sample_lib sample_paths 41 ada ''/dav/calendars/ada/work/a.ics'' ''A3''
        (Some \<lparr>IfNoneMatch = [], IfMatch = ETag_String ''A1''\<rparr>) db' = (Inl (HTTPError StatusPreconditionFailed), db')
    | _ \<Rightarrow> False)"
proof -
  have "case PutCalendarObject sample_lib sample_paths 40 ada ''/dav/calendars/ada/work/a.ics'' ''A2'' None sample_server of
      (Inr a, db') \<Rightarrow> True | _ \<Rightarrow> False" by code_simp
  moreover have "IsSet (IfNoneMatch \<lparr>IfNoneMatch = [], IfMatch = ETag_String ''A1''\<rparr>) \<or>
      IfMatch \<lparr>IfNoneMatch = [], IfMatch = ETag_String ''A1''\<rparr> = ETag_String ''A1'' \<and> l_hash sample_lib ''A2'' \<noteq> ''A1''"
    by (simp add: sample_lib_def)
  ultimately show ?thesis
    using no_lost_update [OF sample_server_ok, of "\<lparr>IfNoneMatch = [], IfMatch = ETag_String ''A1''\<rparr>" "''A1''" "''A2''"]
    by (fastforce split: prod.splits sum.splits)
qed

end
