(* ===== verification/Throttle.thy ===== *)
theory Throttle
  imports Storage GoTime "HOL-Library.AList"
begin

text \<open>
  \<open>internal/auth/throttle.go\<close>: the table of recent failures per submitted name. Go's map is an
  association list with distinct keys; instants and durations are counted in nanoseconds. A mutex
  makes each operation one step; what happens between \<open>allow\<close> and \<open>fail\<close> of one request is another
  request's step.
\<close>

definition maxFailures :: int where "maxFailures = 8"
definition failureWindow :: int where "failureWindow = 15 * 60 * second"
definition maxThrottleKey :: nat where "maxThrottleKey = 4096"

record failureRecord =
  fr_count :: int
  fr_first :: instant

record throttle =
  failures :: "(string \<times> failureRecord) list"
  th_max :: int
  th_window :: int

definition newThrottle :: "int \<Rightarrow> int \<Rightarrow> throttle" where
  "newThrottle mx window = \<lparr>failures = [], th_max = mx, th_window = window\<rparr>"

definition allow :: "string \<Rightarrow> instant \<Rightarrow> throttle \<Rightarrow> (int \<times> bool) \<times> throttle" where
  "allow key now t =
     (case map_of (failures t) key of
        None \<Rightarrow> ((0, True), t)
      | Some r \<Rightarrow>
          if now - fr_first r \<ge> th_window t then ((0, True), t\<lparr>failures := AList.delete key (failures t)\<rparr>)
          else if fr_count r < th_max t then ((0, True), t)
          else ((fr_first r + th_window t - now, False), t))"

definition sweepLocked :: "instant \<Rightarrow> throttle \<Rightarrow> throttle" where
  "sweepLocked now t =
     (let live = filter (\<lambda>(k, r). \<not> now - fr_first r \<ge> th_window t) (failures t)
      in t\<lparr>failures := (if length live \<ge> maxThrottleKey then [] else live)\<rparr>)"

definition fail :: "string \<Rightarrow> instant \<Rightarrow> throttle \<Rightarrow> throttle" where
  "fail key now t =
     (case map_of (failures t) key of
        Some r \<Rightarrow>
          if now - fr_first r \<ge> th_window t then
            (let t = (if length (failures t) \<ge> maxThrottleKey then sweepLocked now t else t)
             in t\<lparr>failures := AList.update key \<lparr>fr_count = 1, fr_first = now\<rparr> (failures t)\<rparr>)
          else t\<lparr>failures := AList.update key (r\<lparr>fr_count := fr_count r + 1\<rparr>) (failures t)\<rparr>
      | None \<Rightarrow>
          (let t = (if length (failures t) \<ge> maxThrottleKey then sweepLocked now t else t)
           in t\<lparr>failures := AList.update key \<lparr>fr_count = 1, fr_first = now\<rparr> (failures t)\<rparr>))"

definition succeed :: "string \<Rightarrow> throttle \<Rightarrow> throttle" where
  "succeed key t = t\<lparr>failures := AList.delete key (failures t)\<rparr>"

definition throttle_len :: "throttle \<Rightarrow> nat" where
  "throttle_len t = length (failures t)"

definition NewLoginThrottle :: throttle where
  "NewLoginThrottle = newThrottle maxFailures failureWindow"

lemma update_keys: "fst ` set (AList.update k w xs) = insert k (fst ` set xs)"
  by (induction xs) (auto split: prod.splits if_splits)

lemma update_key_in: "(j, v) \<in> set (AList.update k w xs) \<Longrightarrow> j = k \<or> j \<in> fst ` set xs"
  using update_keys [of k w xs] by force

lemma delete_subset: "set (AList.delete k xs) \<subseteq> set xs"
  by (auto simp: AList.delete_eq)

lemma delete_keys: "fst ` set (AList.delete k xs) = fst ` set xs - {k}"
  by (force simp: AList.delete_eq image_iff)

section \<open>The table stays bounded\<close>

text \<open>Distinct names, at least one failure each, and never more than the cap.\<close>

definition throttle_ok :: "throttle \<Rightarrow> bool" where
  "throttle_ok t = (distinct (map fst (failures t)) \<and> length (failures t) \<le> maxThrottleKey \<and>
     list_all (\<lambda>(k, r). 1 \<le> fr_count r) (failures t))"

datatype throttle_op = OpAllow string instant | OpFail string instant | OpSucceed string

fun throttle_step :: "throttle_op \<Rightarrow> throttle \<Rightarrow> throttle" where
  "throttle_step (OpAllow k now) t = snd (allow k now t)"
| "throttle_step (OpFail k now) t = fail k now t"
| "throttle_step (OpSucceed k) t = succeed k t"

definition throttle_run :: "throttle_op list \<Rightarrow> throttle \<Rightarrow> throttle" where
  "throttle_run ops t = foldl (\<lambda>t op. throttle_step op t) t ops"

lemma delete_ok: "throttle_ok t \<Longrightarrow> throttle_ok (t\<lparr>failures := AList.delete k (failures t)\<rparr>)"
  using length_delete_le [of k "failures t"]
  by (auto simp: throttle_ok_def distinct_delete list_all_iff dest: subsetD [OF delete_subset])

lemma sweep_ok: "throttle_ok t \<Longrightarrow> throttle_ok (sweepLocked now t) \<and> length (failures (sweepLocked now t)) < maxThrottleKey"
  by (auto simp: throttle_ok_def sweepLocked_def Let_def list_all_iff distinct_map_filter maxThrottleKey_def)

lemma update_length: "length (AList.update k v xs) \<le> Suc (length xs)"
  by (induction xs) (auto split: prod.splits)

lemma update_same_length: "map_of xs k \<noteq> None \<Longrightarrow> length (AList.update k v xs) = length xs"
  by (induction xs) (auto split: prod.splits if_splits)

lemma update_set: "(j, w) \<in> set (AList.update k v xs) \<Longrightarrow> w = v \<or> (j, w) \<in> set xs"
  by (induction xs) (auto split: prod.splits if_splits)

lemma update_ok:
  "throttle_ok t \<Longrightarrow> 1 \<le> fr_count r \<Longrightarrow> length (failures t) < maxThrottleKey \<or> map_of (failures t) k \<noteq> None \<Longrightarrow>
   throttle_ok (t\<lparr>failures := AList.update k r (failures t)\<rparr>)"
  using update_length [of k r "failures t"] update_same_length [of "failures t" k r]
  by (fastforce simp: throttle_ok_def list_all_iff distinct_update dest!: update_set)

lemma fail_ok: "throttle_ok t \<Longrightarrow> throttle_ok (fail k now t)"
proof -
  assume ok: "throttle_ok t"
  let ?t = "if length (failures t) \<ge> maxThrottleKey then sweepLocked now t else t"
  have t': "throttle_ok ?t" "length (failures ?t) < maxThrottleKey" using ok sweep_ok [OF ok, of now] by auto
  have new: "throttle_ok (?t\<lparr>failures := AList.update k \<lparr>fr_count = 1, fr_first = now\<rparr> (failures ?t)\<rparr>)"
    using update_ok [OF t'(1)] t'(2) by simp
  show ?thesis
  proof (cases "map_of (failures t) k")
    case None
    then show ?thesis using new by (simp add: fail_def Let_def)
  next
    case (Some r)
    then have "1 \<le> fr_count r" using ok map_of_SomeD [OF Some] by (auto simp: throttle_ok_def list_all_iff)
    then have "throttle_ok (t\<lparr>failures := AList.update k (r\<lparr>fr_count := fr_count r + 1\<rparr>) (failures t)\<rparr>)"
      using update_ok [OF ok] Some by simp
    then show ?thesis using Some new by (simp add: fail_def Let_def)
  qed
qed

lemma throttle_step_ok: "throttle_ok t \<Longrightarrow> throttle_ok (throttle_step op t)"
  by (cases op) (auto simp: allow_def succeed_def fail_ok delete_ok split: option.split)

lemma throttle_run_ok: "throttle_ok t \<Longrightarrow> throttle_ok (throttle_run ops t)"
  unfolding throttle_run_def by (induction ops arbitrary: t) (simp_all add: throttle_step_ok)

lemma newThrottle_ok: "throttle_ok (newThrottle mx w)"
  by (simp add: throttle_ok_def newThrottle_def maxThrottleKey_def)

text \<open>
  Names are chosen by whoever knocks, but the table does not grow with them: after any operations
  it holds at most 4096 records, one per name, each of at least one failure.
\<close>

theorem throttle_bounded: "throttle_ok (throttle_run ops NewLoginThrottle)"
  unfolding NewLoginThrottle_def using throttle_run_ok [OF newThrottle_ok] .

section \<open>How often a password may be guessed\<close>

text \<open>A request with a wrong password: it is let through or not, and when it is, it counts.\<close>

definition attempt :: "string \<Rightarrow> instant \<Rightarrow> throttle \<Rightarrow> bool \<times> throttle" where
  "attempt key now t = (case allow key now t of ((_, ok), t') \<Rightarrow> (ok, if ok then fail key now t' else t'))"

fun guesses :: "throttle \<Rightarrow> (string \<times> instant) list \<Rightarrow> (string \<times> instant) list" where
  "guesses t [] = []"
| "guesses t ((k, now) # as) =
     (case attempt k now t of (ok, t') \<Rightarrow> (if ok then [(k, now)] else []) @ guesses t' as)"

text \<open>The same for one name, on its record alone.\<close>

definition key_attempt :: "int \<Rightarrow> int \<Rightarrow> failureRecord option \<Rightarrow> instant \<Rightarrow> bool \<times> failureRecord option" where
  "key_attempt mx w r now =
     (case r of
        None \<Rightarrow> (True, Some \<lparr>fr_count = 1, fr_first = now\<rparr>)
      | Some r \<Rightarrow>
          if now - fr_first r \<ge> w then (True, Some \<lparr>fr_count = 1, fr_first = now\<rparr>)
          else if fr_count r < mx then (True, Some (r\<lparr>fr_count := fr_count r + 1\<rparr>))
          else (False, Some r))"

fun key_guesses :: "int \<Rightarrow> int \<Rightarrow> failureRecord option \<Rightarrow> instant list \<Rightarrow> instant list" where
  "key_guesses mx w r [] = []"
| "key_guesses mx w r (n # ns) =
     (case key_attempt mx w r n of (ok, r') \<Rightarrow> (if ok then [n] else []) @ key_guesses mx w r' ns)"

lemma attempt_key:
  assumes "length (failures t) < maxThrottleKey" and "attempt k now t = (ok, t')"
  shows "key_attempt (th_max t) (th_window t) (map_of (failures t) k) now = (ok, map_of (failures t') k)"
    "x \<noteq> k \<Longrightarrow> map_of (failures t') x = map_of (failures t) x"
    "th_max t' = th_max t" "th_window t' = th_window t"
    "fst ` set (failures t') \<subseteq> insert k (fst ` set (failures t))"
proof -
  have sh: "length (AList.delete k (failures t)) < maxThrottleKey"
    using length_delete_le [of k "failures t"] assms(1) by linarith
  have *: "key_attempt (th_max t) (th_window t) (map_of (failures t) k) now = (ok, map_of (failures t') k) \<and>
    (x \<noteq> k \<longrightarrow> map_of (failures t') x = map_of (failures t) x) \<and> th_max t' = th_max t \<and> th_window t' = th_window t \<and>
    fst ` set (failures t') \<subseteq> insert k (fst ` set (failures t))"
  proof (cases "map_of (failures t) k")
    case None
    then show ?thesis
      using assms by (auto simp: attempt_def allow_def fail_def key_attempt_def update_conv' Let_def dest!: update_key_in)
  next
    case (Some r)
    then show ?thesis
      using assms sh
      by (auto simp: attempt_def allow_def fail_def key_attempt_def update_conv' delete_conv' delete_keys Let_def
          split: if_splits dest!: update_key_in subsetD [OF delete_subset])
  qed
  then show "key_attempt (th_max t) (th_window t) (map_of (failures t) k) now = (ok, map_of (failures t') k)"
    "x \<noteq> k \<Longrightarrow> map_of (failures t') x = map_of (failures t) x"
    "th_max t' = th_max t" "th_window t' = th_window t"
    "fst ` set (failures t') \<subseteq> insert k (fst ` set (failures t))" by auto
qed

lemma guesses_key:
  "finite K \<Longrightarrow> card K < maxThrottleKey \<Longrightarrow> fst ` set (failures t) \<subseteq> K \<Longrightarrow> fst ` set as \<subseteq> K \<Longrightarrow>
   distinct (map fst (failures t)) \<Longrightarrow>
   map snd (filter (\<lambda>a. fst a = x) (guesses t as)) =
   key_guesses (th_max t) (th_window t) (map_of (failures t) x) (map snd (filter (\<lambda>a. fst a = x) as))"
proof (induction as arbitrary: t)
  case (Cons a as)
  obtain k now where a: "a = (k, now)" by (cases a)
  obtain ok t' where at: "attempt k now t = (ok, t')" by fastforce
  have "length (failures t) = card (fst ` set (failures t))"
    using Cons.prems(5) by (metis distinct_card length_map list.set_map)
  then have small: "length (failures t) < maxThrottleKey"
    using Cons.prems(1-3) card_mono [of K "fst ` set (failures t)"] by simp
  note step = attempt_key [OF small at]
  have keys: "fst ` set (failures t') \<subseteq> K" using step(5) Cons.prems(3,4) a by auto
  have "distinct (map fst (failures t'))"
    using at Cons.prems(5)
    by (auto simp: attempt_def allow_def fail_def sweepLocked_def Let_def distinct_update distinct_delete distinct_map_filter
        split: option.splits if_splits)
  note IH = Cons.IH [OF Cons.prems(1,2) keys _ this]
  show ?case
    using a at IH step(1-4) Cons.prems(4) by (cases "k = x") auto
qed simp

text \<open>How many of the instants lie in the window that starts at \<open>a\<close>.\<close>

definition in_window :: "instant \<Rightarrow> int \<Rightarrow> instant list \<Rightarrow> int" where
  "in_window a w ns = int (length (filter (\<lambda>n. a \<le> n \<and> n < a + w) ns))"

lemma in_window_append: "in_window a w (xs @ ys) = in_window a w xs + in_window a w ys"
  by (simp add: in_window_def)

lemma in_window_single: "in_window a w (if b then [n] else []) = (if b \<and> a \<le> n \<and> n < a + w then 1 else 0)"
  by (simp add: in_window_def)

lemma key_guesses_subset: "set (key_guesses mx w r ns) \<subseteq> set ns"
  by (induction ns arbitrary: r) (auto split: prod.splits if_splits)

lemma in_window_late: "\<forall>n \<in> set ns. a + w \<le> n \<Longrightarrow> in_window a w (key_guesses mx w r ns) = 0"
  using key_guesses_subset [of mx w r ns] by (fastforce simp: in_window_def filter_empty_conv)

text \<open>
  What is left to a name whose record began at \<open>f\<close> with \<open>c\<close> failures: within a window that began
  before it, within one that began after it, and in general.
\<close>

lemma key_guesses_bound:
  assumes "sorted ns" and "\<forall>n \<in> set ns. f \<le> n" and "1 \<le> c" and "c \<le> mx" and "0 < w"
  shows "a \<le> f \<Longrightarrow> in_window a w (key_guesses mx w (Some \<lparr>fr_count = c, fr_first = f\<rparr>) ns) \<le> mx - c"
    and "f < a \<Longrightarrow> \<forall>n \<in> set ns. a \<le> n \<Longrightarrow> in_window a w (key_guesses mx w (Some \<lparr>fr_count = c, fr_first = f\<rparr>) ns) \<le> 2 * mx - c"
    and "f < a \<Longrightarrow> in_window a w (key_guesses mx w (Some \<lparr>fr_count = c, fr_first = f\<rparr>) ns) \<le> 2 * mx - 1"
  using assms
proof (induction ns arbitrary: f c)
  case Nil
  { case 1 then show ?case by (simp add: in_window_def) }
  { case 2 then show ?case by (simp add: in_window_def) }
  { case 3 then show ?case by (simp add: in_window_def) }
next
  case (Cons n ns)
  note IH = Cons.IH
  let ?new = "Some \<lparr>fr_count = 1, fr_first = n\<rparr>"
  have late: "in_window a w (key_guesses mx w r ns) = 0" if "a + w \<le> n" "sorted (n # ns)" for r
    using that by (intro in_window_late) auto
  { case 1
    then show ?case
      using IH(1) [of f "c + 1"] IH(1) [of f c] late [of ?new]
      by (cases "n - f \<ge> w"; cases "c < mx") (auto simp: key_attempt_def in_window_append in_window_def)
  next
    case 2
    then show ?case
      using IH(2) [of f "c + 1"] IH(2) [of f c] IH(1) [of n 1]
      by (cases "n - f \<ge> w"; cases "c < mx") (auto simp: key_attempt_def in_window_def)
  next
    case 3
    show ?case
    proof (cases "a \<le> n")
      case True
      then have "\<forall>m \<in> set (n # ns). a \<le> m" using 3 by auto
      then show ?thesis
        using 3 IH(2) [of f "c + 1"] IH(2) [of f c] IH(1) [of n 1] True
        by (cases "n - f \<ge> w"; cases "c < mx") (auto simp: key_attempt_def in_window_def)
    next
      case False
      then show ?thesis
        using 3 IH(3) [of f "c + 1"] IH(3) [of f c] IH(3) [of n 1]
        by (cases "n - f \<ge> w"; cases "c < mx") (auto simp: key_attempt_def in_window_def)
    qed }
qed

lemma key_guesses_fresh:
  assumes "sorted ns" and "1 \<le> mx" and "0 < w"
  shows "in_window a w (key_guesses mx w None ns) \<le> 2 * mx - 1"
proof (cases ns)
  case Nil
  then show ?thesis using assms by (simp add: in_window_def)
next
  case (Cons n ns')
  then show ?thesis
    using assms key_guesses_bound(1) [of ns' n 1 mx w a] key_guesses_bound(3) [of ns' n 1 mx w a]
    by (cases "a \<le> n") (auto simp: key_attempt_def in_window_def)
qed


definition fifteen_guesses :: "(string \<times> instant) list" where
  "fifteen_guesses = (''ada'', 0) # map (\<lambda>i. (''ada'', 899 * second + int i)) [0..<7] @ map (\<lambda>i. (''ada'', 900 * second + int i)) [0..<12]"


text \<open>
  The ration is per spelling, not per account: the table compares names byte by byte, the users
  table without regard to case. After eight failures a ninth guess at the same account is refused under
  the name that was used, and let through with one letter in the other case.
\<close>

theorem throttle_by_spelling:
  "(let t = snd (foldl (\<lambda>(n, t) k. (n + 1, snd (attempt k n t))) (0, NewLoginThrottle) (replicate 8 ''ada''))
    in fst (attempt ''ada'' 9 t) = False \<and> fst (attempt ''Ada'' 9 t) = True) \<and>
   UserByUsername ''Ada'' db = UserByUsername ''ada'' db"
proof
  show "let t = snd (foldl (\<lambda>(n, t) k. (n + 1, snd (attempt k n t))) (0, NewLoginThrottle) (replicate 8 ''ada''))
    in fst (attempt ''ada'' 9 t) = False \<and> fst (attempt ''Ada'' 9 t) = True" by code_simp
  have "ToLower ''Ada'' = ToLower ''ada''" by code_simp
  then show "UserByUsername ''Ada'' db = UserByUsername ''ada'' db"
    by (simp add: UserByUsername_def nocase_eq_def EqualFold_def)
qed

end
