(* ===== verification/Scan.thy ===== *)
theory Scan
  imports Prelude
begin

text \<open>
  \<open>fmt.Sscanf\<close> with the verb \<open>%d\<close>: spaces are skipped, a line feed is an error, the operand ends at the
  first character that is no digit. Spaces outside ASCII are left out.
\<close>

fun skip_space :: "string \<Rightarrow> string option" where
  "skip_space [] = Some []"
| "skip_space (c # s) = (if c = LF then None else if is_space c then skip_space s else Some (c # s))"

text \<open>An unsigned operand of the given width: the value and the rest of the input.\<close>

definition scan_uint :: "nat \<Rightarrow> string \<Rightarrow> (nat \<times> string) option" where
  "scan_uint bits s =
     (case skip_space s of
        None \<Rightarrow> None
      | Some s \<Rightarrow>
          let tok = takeWhile is_digit s in
          if tok = [] then None
          else (case digits_val 0 tok of
                  None \<Rightarrow> None
                | Some n \<Rightarrow> if n < 2 ^ bits then Some (n, dropWhile is_digit s) else None))"

definition scan_int :: "string \<Rightarrow> (int \<times> string) option" where
  "scan_int s =
     (case skip_space s of
        None \<Rightarrow> None
      | Some s \<Rightarrow>
          let sgn = takeWhile (\<lambda>c. c = CHR ''-'' \<or> c = CHR ''+'') (take 1 s);
              digits = drop (length sgn) s;
              tok = takeWhile is_digit digits in
          if tok = [] then None
          else (case ParseInt (sgn @ tok) of None \<Rightarrow> None | Some i \<Rightarrow> Some (i, dropWhile is_digit digits)))"

lemma is_digit_itoa: "c \<in> set (itoa n) \<Longrightarrow> is_digit c"
  using itoa_digits [of c n] by (auto simp: is_digit_def)

lemma takeWhile_itoa: "s = [] \<or> \<not> is_digit (hd s) \<Longrightarrow> takeWhile is_digit (itoa n @ s) = itoa n \<and> dropWhile is_digit (itoa n @ s) = s"
  using is_digit_itoa [of _ n] by (cases s) (auto simp: takeWhile_append2 dropWhile_append2)

lemma digit_not_space: "is_digit c \<Longrightarrow> \<not> is_space c \<and> c \<noteq> LF \<and> c \<noteq> CHR ''-'' \<and> c \<noteq> CHR ''+''"
  by (auto simp: is_digit_def is_space_def digit_val_def Let_def)

lemma skip_space_itoa: "skip_space (itoa n @ s) = Some (itoa n @ s)"
proof -
  obtain c t where ct: "itoa n = c # t" by (cases "itoa n") auto
  then have "is_digit c" using is_digit_itoa [of c n] by simp
  then show ?thesis using ct digit_not_space [of c] by simp
qed

end
