(* ===== verification/Password.thy ===== *)
theory Password
  imports Scan Prelude
begin

text \<open>
  \<open>internal/auth/password.go\<close>: the PHC string of an Argon2id hash, written, read back and checked.
  Argon2 itself is a parameter (\<open>golang.org/x/crypto\<close>); base64 and the verb \<open>%d\<close> of
  \<open>fmt.Sscanf\<close> are Go's own and spelled out.
\<close>

section \<open>Base64 without padding\<close>

definition b64_digit :: "char \<Rightarrow> char \<Rightarrow> nat \<Rightarrow> char" where
  "b64_digit c62 c63 n =
     (if n < 26 then char_of (65 + n) else if n < 52 then char_of (71 + n) else if n < 62 then char_of (n - 4)
      else if n = 62 then c62 else c63)"

definition b64_val :: "char \<Rightarrow> char \<Rightarrow> char \<Rightarrow> nat option" where
  "b64_val c62 c63 c =
     (let n = (of_char c :: nat) in
      if 65 \<le> n \<and> n \<le> 90 then Some (n - 65) else if 97 \<le> n \<and> n \<le> 122 then Some (n - 71)
      else if 48 \<le> n \<and> n \<le> 57 then Some (n + 4) else if c = c62 then Some 62 else if c = c63 then Some 63 else None)"

fun b64_groups :: "nat list \<Rightarrow> nat list" where
  "b64_groups [] = []"
| "b64_groups [a] = [a div 4, (a mod 4) * 16]"
| "b64_groups [a, b] = [a div 4, (a mod 4) * 16 + b div 16, (b mod 16) * 4]"
| "b64_groups (a # b # c # bs) = a div 4 # ((a mod 4) * 16 + b div 16) # ((b mod 16) * 4 + c div 64) # c mod 64 # b64_groups bs"

fun b64_bytes :: "nat list \<Rightarrow> nat list option" where
  "b64_bytes [] = Some []"
| "b64_bytes [x] = None"
| "b64_bytes [x, y] = Some [x * 4 + y div 16]"
| "b64_bytes [x, y, z] = Some [x * 4 + y div 16, (y mod 16) * 16 + z div 4]"
| "b64_bytes (x # y # z # w # ds) =
     map_option (\<lambda>bs. (x * 4 + y div 16) # ((y mod 16) * 16 + z div 4) # ((z mod 4) * 64 + w) # bs) (b64_bytes ds)"

definition b64_encode :: "char \<Rightarrow> char \<Rightarrow> string \<Rightarrow> string" where
  "b64_encode c62 c63 s = map (b64_digit c62 c63) (b64_groups (map of_char s))"

text \<open>The decoder skips line breaks and fails on any other character outside the alphabet.\<close>

definition b64_decode :: "char \<Rightarrow> char \<Rightarrow> string \<Rightarrow> string option" where
  "b64_decode c62 c63 s =
     (let vs = map (b64_val c62 c63) (filter (\<lambda>c. c \<noteq> CR \<and> c \<noteq> LF) s)
      in if None \<in> set vs then None else map_option (map char_of) (b64_bytes (map the vs)))"

abbreviation raw_std_encode :: "string \<Rightarrow> string" where "raw_std_encode \<equiv> b64_encode (CHR ''+'') (CHR ''/'')"
abbreviation raw_std_decode :: "string \<Rightarrow> string option" where "raw_std_decode \<equiv> b64_decode (CHR ''+'') (CHR ''/'')"
abbreviation raw_url_encode :: "string \<Rightarrow> string" where "raw_url_encode \<equiv> b64_encode (CHR ''-'') (CHR ''_'')"

lemma div_mod_pack: "k < 16 \<Longrightarrow> (x * 16 + k) div 16 = (x :: nat)" "k < 16 \<Longrightarrow> (x * 16 + k) mod 16 = (k :: nat)"
  "k < 4 \<Longrightarrow> (x * 4 + k) div 4 = (x :: nat)" "k < 4 \<Longrightarrow> (x * 4 + k) mod 4 = (k :: nat)"
  by presburger+

lemma byte_parts: "b < 256 \<Longrightarrow> b div 16 < (16 :: nat)" "b < 256 \<Longrightarrow> b div 64 < (4 :: nat)" "b mod 16 < (16 :: nat)"
  by auto

lemma b64_groups_bytes: "list_all (\<lambda>b. b < 256) bs \<Longrightarrow> b64_bytes (b64_groups bs) = Some bs"
  by (induction bs rule: b64_groups.induct) (auto simp: div_mod_pack byte_parts)

lemma digit_range: "b < 256 \<Longrightarrow> a mod 4 * 16 + b div 16 < (64 :: nat)" "c < 256 \<Longrightarrow> b mod 16 * 4 + c div 64 < (64 :: nat)"
  using byte_parts [of b] byte_parts [of c] mod_less_divisor [of 4 a] by linarith+

lemma b64_groups_range: "list_all (\<lambda>b. b < 256) bs \<Longrightarrow> list_all (\<lambda>d. d < 64) (b64_groups bs)"
  by (induction bs rule: b64_groups.induct) (auto simp: digit_range)

lemma b64_val_digit: "n < 64 \<Longrightarrow> b64_val (CHR ''+'') (CHR ''/'') (b64_digit (CHR ''+'') (CHR ''/'') n) = Some n"
proof -
  assume n: "n < 64"
  have oc: "(of_char (char_of m :: char) :: nat) = m" if "m < 256" for m using that by simp
  consider "n < 26" | "26 \<le> n" "n < 52" | "52 \<le> n" "n < 62" | "n = 62" | "n = 63" using n by linarith
  then show ?thesis
  proof cases
    case 3
    then have "48 \<le> n - 4" "n - 4 \<le> 57" "\<not> 65 \<le> n - 4" "\<not> 97 \<le> n - 4" by linarith+
    then show ?thesis using 3 by (simp add: b64_digit_def b64_val_def Let_def oc del: of_char_of)
  qed (simp_all add: b64_digit_def b64_val_def Let_def oc del: of_char_of)
qed

lemma b64_digit_plain: "n < 64 \<Longrightarrow> b64_digit (CHR ''+'') (CHR ''/'') n \<notin> {CR, LF, CHR ''$''}"
proof -
  assume n: "n < 64"
  have "b64_val (CHR ''+'') (CHR ''/'') CR = None" "b64_val (CHR ''+'') (CHR ''/'') LF = None"
    "b64_val (CHR ''+'') (CHR ''/'') (CHR ''$'') = None" by (simp_all add: b64_val_def)
  then show ?thesis using b64_val_digit [OF n] by (metis empty_iff insert_iff option.distinct(1))
qed

lemma b64_encode_plain: "c \<in> set (raw_std_encode s) \<Longrightarrow> c \<notin> {CR, LF, CHR ''$''}"
  using b64_groups_range [of "map of_char s"] b64_digit_plain by (auto simp: b64_encode_def list_all_iff)

lemma b64_encode_no_NUL: "CHR 0x00 \<notin> set (raw_std_encode s)"
proof
  assume "CHR 0x00 \<in> set (raw_std_encode s)"
  then obtain n where n: "n \<in> set (b64_groups (map of_char s))" "b64_digit (CHR ''+'') (CHR ''/'') n = CHR 0x00"
    by (auto simp: b64_encode_def)
  then have "n < 64" using b64_groups_range [of "map of_char s"] by (simp add: list_all_iff)
  then have "b64_val (CHR ''+'') (CHR ''/'') (CHR 0x00) = Some n" using b64_val_digit n(2) by metis
  then show False by (simp add: b64_val_def)
qed

lemma raw_std_decode_encode: "raw_std_decode (raw_std_encode s) = Some s"
proof -
  have small: "list_all (\<lambda>b. b < 256) (map of_char s :: nat list)" by (simp add: list_all_iff)
  have f: "filter (\<lambda>c. c \<noteq> CR \<and> c \<noteq> LF) (raw_std_encode s) = raw_std_encode s"
    using b64_encode_plain [of _ s] by (auto simp: filter_id_conv)
  have "map (b64_val (CHR ''+'') (CHR ''/'')) (raw_std_encode s) = map Some (b64_groups (map of_char s))"
    unfolding b64_encode_def map_map
    using b64_groups_range [OF small] b64_val_digit by (auto simp: list_all_iff)
  then show ?thesis
    by (auto simp: b64_decode_def Let_def f b64_groups_bytes [OF small] o_def)
qed

interpretation b64: codec raw_std_encode raw_std_decode "\<lambda>_. True"
  by unfold_locales (rule raw_std_decode_encode)

lemma scan_uint_itoa: "s = [] \<or> \<not> is_digit (hd s) \<Longrightarrow> n < 2 ^ bits \<Longrightarrow> scan_uint bits (itoa n @ s) = Some (n, s)"
  by (simp add: scan_uint_def skip_space_itoa takeWhile_itoa digits_val_itoa_acc Let_def)

section \<open>Hashes\<close>

datatype hash_error = ErrMismatch | ErrInvalidHash

record Params =
  p_Memory :: nat
  p_Time :: nat
  p_Parallelism :: nat
  p_SaltLength :: nat
  p_KeyLength :: nat

definition DefaultParams :: Params where
  "DefaultParams = \<lparr>p_Memory = 19 * 1024, p_Time = 2, p_Parallelism = 1, p_SaltLength = 16, p_KeyLength = 32\<rparr>"

definition maxMemory :: nat where "maxMemory = 2 ^ 21"
definition maxTime :: nat where "maxTime = 16"
definition maxParallelism :: nat where "maxParallelism = 16"
definition maxSaltLength :: nat where "maxSaltLength = 64"
definition maxKeyLength :: nat where "maxKeyLength = 64"

definition argon2_Version :: int where "argon2_Version = 19"

text \<open>\<open>argon2.IDKey\<close>: password, salt, time, memory, threads and key length to the key.\<close>

type_synonym idkey = "string \<Rightarrow> string \<Rightarrow> nat \<Rightarrow> nat \<Rightarrow> nat \<Rightarrow> nat \<Rightarrow> string"

definition format_hash :: "Params \<Rightarrow> string \<Rightarrow> string \<Rightarrow> string" where
  "format_hash p salt key =
     ''$argon2id$v='' @ FormatInt argon2_Version @ ''$m='' @ itoa (p_Memory p) @ '',t='' @ itoa (p_Time p) @
     '',p='' @ itoa (p_Parallelism p) @ ''$'' @ raw_std_encode salt @ ''$'' @ raw_std_encode key"

text \<open>The salt is drawn by the caller of the model.\<close>

definition hashPasswordWith :: "idkey \<Rightarrow> string \<Rightarrow> string \<Rightarrow> Params \<Rightarrow> string" where
  "hashPasswordWith idk salt password p =
     format_hash p salt (idk password salt (p_Time p) (p_Memory p) (p_Parallelism p) (p_KeyLength p))"

definition HashPassword :: "idkey \<Rightarrow> string \<Rightarrow> string \<Rightarrow> string" where
  "HashPassword idk salt password = hashPasswordWith idk salt password DefaultParams"

definition scan_params :: "string \<Rightarrow> (nat \<times> nat \<times> nat) option" where
  "scan_params s =
     (case CutPrefix s ''m='' of None \<Rightarrow> None | Some s \<Rightarrow>
      case scan_uint 32 s of None \<Rightarrow> None | Some (m, s) \<Rightarrow>
      case CutPrefix s '',t='' of None \<Rightarrow> None | Some s \<Rightarrow>
      case scan_uint 32 s of None \<Rightarrow> None | Some (t, s) \<Rightarrow>
      case CutPrefix s '',p='' of None \<Rightarrow> None | Some s \<Rightarrow>
      case scan_uint 8 s of None \<Rightarrow> None | Some (p, s) \<Rightarrow> Some (m, t, p))"

definition decodeHash :: "string \<Rightarrow> hash_error + Params \<times> string \<times> string" where
  "decodeHash encoded =
     (case Split (CHR ''$'') encoded of
        [e, alg, ver, par, slt, ky] \<Rightarrow>
          if e \<noteq> [] \<or> alg \<noteq> ''argon2id'' then Inl ErrInvalidHash
          else (case CutPrefix ver ''v='' of None \<Rightarrow> Inl ErrInvalidHash | Some v \<Rightarrow>
                case scan_int v of None \<Rightarrow> Inl ErrInvalidHash | Some (version, _) \<Rightarrow>
                if version \<noteq> argon2_Version then Inl ErrInvalidHash
                else (case scan_params par of None \<Rightarrow> Inl ErrInvalidHash | Some (m, t, p) \<Rightarrow>
                      if m = 0 \<or> m > maxMemory \<or> t = 0 \<or> t > maxTime \<or> p = 0 \<or> p > maxParallelism then Inl ErrInvalidHash
                      else (case raw_std_decode slt of None \<Rightarrow> Inl ErrInvalidHash | Some salt \<Rightarrow>
                            case raw_std_decode ky of None \<Rightarrow> Inl ErrInvalidHash | Some key \<Rightarrow>
                            if salt = [] \<or> length salt > maxSaltLength \<or> key = [] \<or> length key > maxKeyLength
                            then Inl ErrInvalidHash
                            else Inr (\<lparr>p_Memory = m, p_Time = t, p_Parallelism = p, p_SaltLength = length salt,
                                       p_KeyLength = length key\<rparr>, salt, key))))
      | _ \<Rightarrow> Inl ErrInvalidHash)"

definition VerifyPassword :: "idkey \<Rightarrow> string \<Rightarrow> string \<Rightarrow> hash_error + unit" where
  "VerifyPassword idk encoded password =
     (case decodeHash encoded of
        Inl e \<Rightarrow> Inl e
      | Inr (p, salt, want) \<Rightarrow>
          if idk password salt (p_Time p) (p_Memory p) (p_Parallelism p) (p_KeyLength p) \<noteq> want then Inl ErrMismatch
          else Inr ())"

section \<open>Round trip\<close>

text \<open>The parameters the reader accepts, with salt and key of accepted lengths.\<close>

definition acceptable :: "Params \<Rightarrow> string \<Rightarrow> string \<Rightarrow> bool" where
  "acceptable p salt key =
     (0 < p_Memory p \<and> p_Memory p \<le> maxMemory \<and> 0 < p_Time p \<and> p_Time p \<le> maxTime \<and>
      0 < p_Parallelism p \<and> p_Parallelism p \<le> maxParallelism \<and>
      salt \<noteq> [] \<and> length salt \<le> maxSaltLength \<and> key \<noteq> [] \<and> length key \<le> maxKeyLength \<and>
      p_SaltLength p = length salt \<and> p_KeyLength p = length key)"

lemma itoa_no_dollar: "CHR ''$'' \<notin> set (itoa n)"
  using digit_char_range [of "CHR ''$''" n] by auto

lemma format_hash_split:
  "Split (CHR ''$'') (format_hash p salt key) =
   [[], ''argon2id'', ''v=19'', ''m='' @ itoa (p_Memory p) @ '',t='' @ itoa (p_Time p) @ '',p='' @ itoa (p_Parallelism p),
    raw_std_encode salt, raw_std_encode key]"
proof -
  let ?ps = "[[], ''argon2id'', ''v=19'', ''m='' @ itoa (p_Memory p) @ '',t='' @ itoa (p_Time p) @ '',p='' @ itoa (p_Parallelism p),
    raw_std_encode salt, raw_std_encode key]"
  have v: "FormatInt argon2_Version = ''19''" by code_simp
  have "format_hash p salt key = Join ''$'' ?ps" by (simp add: format_hash_def v)
  moreover have "CHR ''$'' \<notin> set q" if "q \<in> set ?ps" for q
    using that itoa_no_dollar b64_encode_plain by auto
  ultimately show ?thesis using Split_Join [of ?ps "CHR ''$''"] by simp
qed

lemma scan_params_format:
  assumes "p_Memory p < 2 ^ 32" "p_Time p < 2 ^ 32" "p_Parallelism p < 2 ^ 8"
  shows "scan_params (''m='' @ itoa (p_Memory p) @ '',t='' @ itoa (p_Time p) @ '',p='' @ itoa (p_Parallelism p)) =
    Some (p_Memory p, p_Time p, p_Parallelism p)"
proof -
  have comma: "\<not> is_digit (CHR '','')" by (simp add: is_digit_def digit_val_def)
  have "scan_uint 32 (itoa (p_Memory p) @ '',t='' @ r) = Some (p_Memory p, '',t='' @ r)"
    "scan_uint 32 (itoa (p_Time p) @ '',p='' @ r) = Some (p_Time p, '',p='' @ r)"
    "scan_uint 8 (itoa (p_Parallelism p)) = Some (p_Parallelism p, [])" for r
    using scan_uint_itoa [of "'',t='' @ r" "p_Memory p" 32] scan_uint_itoa [of "'',p='' @ r" "p_Time p" 32]
      scan_uint_itoa [of "[]" "p_Parallelism p" 8] assms comma by simp_all
  then show ?thesis by (simp add: scan_params_def CutPrefix_def HasPrefix_def)
qed

lemma decode_format: "acceptable p salt key \<Longrightarrow> decodeHash (format_hash p salt key) = Inr (p, salt, key)"
proof -
  assume a: "acceptable p salt key"
  have "scan_int ''19'' = Some (argon2_Version, [])" by code_simp
  moreover have "CutPrefix ''v=19'' ''v='' = Some ''19''" by code_simp
  moreover have "scan_params (''m='' @ itoa (p_Memory p) @ '',t='' @ itoa (p_Time p) @ '',p='' @ itoa (p_Parallelism p)) =
      Some (p_Memory p, p_Time p, p_Parallelism p)"
    using a by (intro scan_params_format) (simp_all add: acceptable_def maxMemory_def maxTime_def maxParallelism_def)
  ultimately show ?thesis
    using a unfolding decodeHash_def format_hash_split
    by (simp add: raw_std_decode_encode acceptable_def)
qed

text \<open>
  C24. A password hash reads back: what \<open>hashPasswordWith\<close> writes for acceptable parameters decodes to
  those parameters, the salt and the key, and verifies exactly the passwords that give the same
  Argon2 key.
\<close>

theorem password_round_trip:
  assumes "acceptable p salt (idk password salt (p_Time p) (p_Memory p) (p_Parallelism p) (p_KeyLength p))"
  shows "decodeHash (hashPasswordWith idk salt password p) =
      Inr (p, salt, idk password salt (p_Time p) (p_Memory p) (p_Parallelism p) (p_KeyLength p)) \<and>
    VerifyPassword idk (hashPasswordWith idk salt password p) password = Inr () \<and>
    (VerifyPassword idk (hashPasswordWith idk salt password p) other = Inr () \<longleftrightarrow>
      idk other salt (p_Time p) (p_Memory p) (p_Parallelism p) (p_KeyLength p) =
      idk password salt (p_Time p) (p_Memory p) (p_Parallelism p) (p_KeyLength p))"
  using decode_format [OF assms] by (simp add: hashPasswordWith_def VerifyPassword_def)

definition sample_idkey :: idkey where
  "sample_idkey password salt t m p n = take n (password @ replicate n (CHR ''.''))"

theorem password_round_trip_witness:
  "VerifyPassword sample_idkey (HashPassword sample_idkey ''0123456789abcdef'' ''secret'') ''secret'' = Inr () \<and>
   VerifyPassword sample_idkey (HashPassword sample_idkey ''0123456789abcdef'' ''secret'') ''Secret'' \<noteq> Inr ()"
proof -
  have "acceptable DefaultParams ''0123456789abcdef''
      (sample_idkey ''secret'' ''0123456789abcdef'' (p_Time DefaultParams) (p_Memory DefaultParams) (p_Parallelism DefaultParams) (p_KeyLength DefaultParams))"
    by (simp add: acceptable_def DefaultParams_def sample_idkey_def maxMemory_def maxTime_def maxParallelism_def
        maxSaltLength_def maxKeyLength_def)
  moreover have "sample_idkey ''Secret'' ''0123456789abcdef'' 2 19456 1 32 \<noteq> sample_idkey ''secret'' ''0123456789abcdef'' 2 19456 1 32"
    by (simp add: sample_idkey_def)
  ultimately show ?thesis
    using password_round_trip [of DefaultParams "''0123456789abcdef''" sample_idkey "''secret''" "''Secret''"]
    by (simp add: HashPassword_def DefaultParams_def)
qed

end
