(* ===== verification/Basic_Auth.thy ===== *)
theory Basic_Auth
  imports Throttle Password Storage_Facts
begin

text \<open>
  \<open>internal/auth/cache.go\<close> and \<open>basic.go\<close>: the cache of verified credentials and the handler that
  authenticates DAV clients from it, the throttle and the users table. The keyed hash of the cache
  (HMAC-SHA256 with the key of the process) is the parameter \<open>mac\<close> on the bytes that are written to
  it; whether a verification slot was granted before the request was cancelled is an input.
\<close>

section \<open>The credential cache\<close>

definition DefaultCredentialTTL :: int where "DefaultCredentialTTL = 5 * 60 * second"
definition maxCredentialEntries :: nat where "maxCredentialEntries = 1024"

record credentialCache =
  entries :: "(string \<times> instant) list"
  cc_ttl :: int

definition newCredentialCache :: "int \<Rightarrow> credentialCache" where
  "newCredentialCache ttl = \<lparr>entries = [], cc_ttl = (if ttl \<le> 0 then DefaultCredentialTTL else ttl)\<rparr>"

abbreviation NUL :: char where "NUL \<equiv> CHR 0x00"

definition frame :: "string \<Rightarrow> string \<Rightarrow> string \<Rightarrow> string" where
  "frame username password hashed = concat (map (\<lambda>part. part @ [NUL]) [username, password, hashed])"

definition cache_id :: "(string \<Rightarrow> string) \<Rightarrow> string \<Rightarrow> string \<Rightarrow> string \<Rightarrow> string" where
  "cache_id mac username password hashed = mac (frame username password hashed)"

definition verified :: "(string \<Rightarrow> string) \<Rightarrow> string \<Rightarrow> string \<Rightarrow> string \<Rightarrow> instant \<Rightarrow> credentialCache \<Rightarrow> bool \<times> credentialCache" where
  "verified mac username password hashed now c =
     (let i = cache_id mac username password hashed in
      case map_of (entries c) i of
        None \<Rightarrow> (False, c)
      | Some expires \<Rightarrow> if \<not> now < expires then (False, c\<lparr>entries := AList.delete i (entries c)\<rparr>) else (True, c))"

definition cache_sweep :: "instant \<Rightarrow> credentialCache \<Rightarrow> credentialCache" where
  "cache_sweep now c = c\<lparr>entries := filter (\<lambda>(i, expires). \<not> \<not> now < expires) (entries c)\<rparr>"

definition remember :: "(string \<Rightarrow> string) \<Rightarrow> string \<Rightarrow> string \<Rightarrow> string \<Rightarrow> instant \<Rightarrow> credentialCache \<Rightarrow> credentialCache" where
  "remember mac username password hashed now c =
     (let i = cache_id mac username password hashed;
          c = (if length (entries c) \<ge> maxCredentialEntries then
                 (let c = cache_sweep now c
                  in if length (entries c) \<ge> maxCredentialEntries then c\<lparr>entries := []\<rparr> else c)
               else c)
      in c\<lparr>entries := AList.update i (now + cc_ttl c) (entries c)\<rparr>)"

definition cache_len :: "credentialCache \<Rightarrow> nat" where
  "cache_len c = length (entries c)"

section \<open>Authentication\<close>

datatype auth_error = AuthHash hash_error | AuthStorage serror | AuthCancelled

definition withVerificationSlot :: "bool \<Rightarrow> hash_error + unit \<Rightarrow> auth_error + unit" where
  "withVerificationSlot granted fn = (if granted then mapE AuthHash fn else Inl AuthCancelled)"

text \<open>\<open>authenticate\<close>, without a cache and with one.\<close>

definition Authenticate :: "idkey \<Rightarrow> db \<Rightarrow> string \<Rightarrow> string \<Rightarrow> bool \<Rightarrow> auth_error + user" where
  "Authenticate idk db username password granted =
     bindE (mapE AuthStorage (UserByUsername username db)) (\<lambda>u.
       bindE (withVerificationSlot granted (VerifyPassword idk (u_PasswordHash u) password)) (\<lambda>_. Inr u))"

definition authenticate ::
    "idkey \<Rightarrow> (string \<Rightarrow> string) \<Rightarrow> db \<Rightarrow> string \<Rightarrow> string \<Rightarrow> instant \<Rightarrow> bool \<Rightarrow> credentialCache \<Rightarrow> (auth_error + user) \<times> credentialCache" where
  "authenticate idk mac db username password now granted c =
     (case UserByUsername username db of
        Inl e \<Rightarrow> (Inl (AuthStorage e), c)
      | Inr u \<Rightarrow>
          (case verified mac username password (u_PasswordHash u) now c of (hit, c) \<Rightarrow>
             if hit then (Inr u, c)
             else (case withVerificationSlot granted (VerifyPassword idk (u_PasswordHash u) password) of
                     Inl e \<Rightarrow> (Inl e, c)
                   | Inr _ \<Rightarrow> (Inr u, remember mac username password (u_PasswordHash u) now c))))"

text \<open>The answer of the middleware: a challenge, a refusal with the seconds to wait, or the next handler's with a user.\<close>

datatype basic_answer = Challenge | TooManyAttempts int | ServeNext user

definition tooManyAttempts :: "int \<Rightarrow> basic_answer" where
  "tooManyAttempts retry = (let seconds = retry div second in TooManyAttempts (if seconds < 1 then 1 else seconds))"

record basic_request =
  br_Credentials :: "(string \<times> string) option"
  br_Now :: instant
  br_Granted :: bool

definition RequireBasicAuth ::
    "idkey \<Rightarrow> (string \<Rightarrow> string) \<Rightarrow> db \<Rightarrow> basic_request \<Rightarrow> credentialCache \<times> throttle \<Rightarrow> basic_answer \<times> credentialCache \<times> throttle" where
  "RequireBasicAuth idk mac db r s =
     (case s of (c, t) \<Rightarrow>
      case br_Credentials r of
        None \<Rightarrow> (Challenge, c, t)
      | Some (username, password) \<Rightarrow>
          (case allow username (br_Now r) t of ((retry, ok), t) \<Rightarrow>
             if \<not> ok then (tooManyAttempts retry, c, t)
             else (case authenticate idk mac db username password (br_Now r) (br_Granted r) c of
                     (Inl e, c) \<Rightarrow> (Challenge, c, fail username (br_Now r) t)
                   | (Inr u, c) \<Rightarrow> (ServeNext u, c, succeed username t))))"

section \<open>The cache is transparent\<close>

text \<open>Names and hashes as the database holds them: free of the byte that separates them in a frame.\<close>

definition names_ok :: "db \<Rightarrow> bool" where
  "names_ok db = list_all (\<lambda>u. NUL \<notin> set (u_Username u) \<and> NUL \<notin> set (u_PasswordHash u)) (users db)"

definition cache_sound :: "idkey \<Rightarrow> (string \<Rightarrow> string) \<Rightarrow> credentialCache \<Rightarrow> bool" where
  "cache_sound idk mac c =
     (\<forall>i \<in> fst ` set (entries c). \<exists>u p h. i = cache_id mac u p h \<and> NUL \<notin> set u \<and> NUL \<notin> set h \<and> VerifyPassword idk h p = Inr ())"

lemma append_NUL_inj: "NUL \<notin> set a \<Longrightarrow> NUL \<notin> set b \<Longrightarrow> a @ NUL # x = b @ NUL # y \<Longrightarrow> a = b \<and> x = y"
  by (induction a arbitrary: b) (auto simp: Cons_eq_append_conv append_eq_Cons_conv)

lemma frame_inj:
  assumes "NUL \<notin> set u" "NUL \<notin> set h" "NUL \<notin> set u'" "NUL \<notin> set h'" and "frame u p h = frame u' p' h'"
  shows "u = u' \<and> p = p' \<and> h = h'"
proof -
  have e: "u = u'" "p @ NUL # h @ [NUL] = p' @ NUL # h' @ [NUL]"
    using append_NUL_inj [of u u' "p @ NUL # h @ [NUL]" "p' @ NUL # h' @ [NUL]"] assms(1,3,5) by (auto simp: frame_def)
  then have "rev (p @ NUL # h @ [NUL]) = rev (p' @ NUL # h' @ [NUL])" by (simp only:)
  then have "rev h @ NUL # rev p = rev h' @ NUL # rev p'" by simp
  then show ?thesis using e(1) append_NUL_inj [of "rev h" "rev h'"] assms(2,4) by auto
qed

lemma verified_hit: "verified mac u p h now c = (True, c') \<Longrightarrow> c' = c \<and> cache_id mac u p h \<in> fst ` set (entries c)"
  by (auto simp: verified_def Let_def dest!: map_of_SomeD split: option.splits if_splits) force

lemma verified_keys: "verified mac u p h now c = (b, c') \<Longrightarrow> fst ` set (entries c') \<subseteq> fst ` set (entries c)"
  using delete_subset [of "cache_id mac u p h" "entries c"]
  by (auto simp: verified_def Let_def split: option.splits if_splits)

lemma sweep_keys: "fst ` set (entries (cache_sweep now c)) \<subseteq> fst ` set (entries c)"
  by (auto simp: cache_sweep_def)

lemma remember_keys: "fst ` set (entries (remember mac u p h now c)) \<subseteq> insert (cache_id mac u p h) (fst ` set (entries c))"
  using sweep_keys [of now c] unfolding remember_def Let_def by (simp add: update_keys subset_insertI2)

lemma cache_sound_mono: "cache_sound idk mac c \<Longrightarrow> fst ` set (entries c') \<subseteq> fst ` set (entries c) \<Longrightarrow> cache_sound idk mac c'"
  unfolding cache_sound_def by (rule ballI) (drule bspec, erule subsetD, assumption+)

text \<open>The user a name finds has that name up to case, so the name itself has no separator in it.\<close>

lemma lower_char_NUL: "lower_char c = NUL \<longleftrightarrow> c = NUL"
proof -
  have "c = NUL" if l: "lower_char c = NUL"
  proof (rule ccontr)
    assume "c \<noteq> NUL"
    then have n: "65 \<le> (of_char c :: nat)" "(of_char c :: nat) \<le> 90" "char_of ((of_char c :: nat) + 32) = NUL"
      using l by (auto simp: lower_char_def Let_def split: if_splits)
    then have "(of_char (char_of ((of_char c :: nat) + 32) :: char) :: nat) = of_char NUL" by (simp only:)
    then show False using n(1,2) by simp
  qed
  then show ?thesis by (auto simp: lower_char_def)
qed

lemma NUL_ToLower: "NUL \<in> set (ToLower s) \<longleftrightarrow> NUL \<in> set s"
  unfolding ToLower_def set_map image_iff using lower_char_NUL by metis

lemma found_user_ok:
  assumes "names_ok db" and "UserByUsername name db = Inr u"
  shows "NUL \<notin> set name" "NUL \<notin> set (u_PasswordHash u)"
proof -
  have "List.find (\<lambda>u. nocase_eq (u_Username u) name) (users db) = Some u"
    using assms(2) by (simp add: UserByUsername_def split: option.splits)
  note f = find_SomeD [OF this]
  have u: "u \<in> set (users db)" "ToLower (u_Username u) = ToLower name" using f by (simp_all add: nocase_eq_def)
  then have "NUL \<notin> set (u_Username u)" "NUL \<notin> set (u_PasswordHash u)"
    using assms(1) u(1) by (simp_all add: names_ok_def list_all_iff)
  then show "NUL \<notin> set name" "NUL \<notin> set (u_PasswordHash u)"
    using NUL_ToLower [of name] NUL_ToLower [of "u_Username u"] u(2) by simp_all
qed

lemma hit_is_valid:
  assumes "cache_sound idk mac c" and "inj mac" and "NUL \<notin> set u" and "NUL \<notin> set h"
    and "cache_id mac u p h \<in> fst ` set (entries c)"
  shows "VerifyPassword idk h p = Inr ()"
proof -
  obtain u' p' h' where x: "cache_id mac u p h = cache_id mac u' p' h'" "NUL \<notin> set u'" "NUL \<notin> set h'"
      "VerifyPassword idk h' p' = Inr ()"
    using assms(1,5) unfolding cache_sound_def by blast
  then have "frame u p h = frame u' p' h'" using assms(2) by (simp add: cache_id_def inj_eq)
  then show ?thesis using frame_inj [OF assms(3,4) x(2,3)] x(4) by blast
qed

lemma sound_remember:
  "cache_sound idk mac c \<Longrightarrow> NUL \<notin> set u \<Longrightarrow> NUL \<notin> set h \<Longrightarrow> VerifyPassword idk h p = Inr () \<Longrightarrow>
   cache_sound idk mac (remember mac u p h now c)"
  unfolding cache_sound_def by (rule ballI) (drule subsetD [OF remember_keys], erule insertE, blast, erule bspec)

lemma authenticate_transparent:
  assumes "cache_sound idk mac c" and "inj mac" and "names_ok db" and "authenticate idk mac db name p now True c = (r, c')"
  shows "r = Authenticate idk db name p True \<and> cache_sound idk mac c'"
proof (cases "UserByUsername name db")
  case (Inl e)
  then show ?thesis using assms by (auto simp: authenticate_def Authenticate_def)
next
  case (Inr u)
  note ok = found_user_ok [OF assms(3) Inr]
  obtain hit d where v: "verified mac name p (u_PasswordHash u) now c = (hit, d)" by fastforce
  have d: "cache_sound idk mac d" using cache_sound_mono [OF assms(1) verified_keys [OF v]] .
  show ?thesis
  proof (cases hit)
    case True
    then have "cache_id mac name p (u_PasswordHash u) \<in> fst ` set (entries c)"
      using verified_hit [of mac name p "u_PasswordHash u" now c d] v by simp
    then have "VerifyPassword idk (u_PasswordHash u) p = Inr ()"
      by (rule hit_is_valid [OF assms(1,2) ok])
    then show ?thesis
      using assms(4) Inr v True d by (auto simp: authenticate_def Authenticate_def withVerificationSlot_def)
  next
    case False
    then show ?thesis
      using assms(4) Inr v d sound_remember [OF d ok, of p now]
      by (cases "VerifyPassword idk (u_PasswordHash u) p") (auto simp: authenticate_def Authenticate_def withVerificationSlot_def)
  qed
qed

text \<open>The middleware without a cache, and runs of both against databases that change under them.\<close>

definition uncached_step :: "idkey \<Rightarrow> db \<Rightarrow> basic_request \<Rightarrow> throttle \<Rightarrow> basic_answer \<times> throttle" where
  "uncached_step idk db r t =
     (case br_Credentials r of
        None \<Rightarrow> (Challenge, t)
      | Some (username, password) \<Rightarrow>
          (case allow username (br_Now r) t of ((retry, ok), t) \<Rightarrow>
             if \<not> ok then (tooManyAttempts retry, t)
             else (case Authenticate idk db username password (br_Granted r) of
                     Inl e \<Rightarrow> (Challenge, fail username (br_Now r) t)
                   | Inr u \<Rightarrow> (ServeNext u, succeed username t))))"

fun cached_run :: "idkey \<Rightarrow> (string \<Rightarrow> string) \<Rightarrow> (db \<times> basic_request) list \<Rightarrow> credentialCache \<times> throttle \<Rightarrow> basic_answer list" where
  "cached_run idk mac [] s = []"
| "cached_run idk mac ((db, r) # rs) s = (case RequireBasicAuth idk mac db r s of (a, s') \<Rightarrow> a # cached_run idk mac rs s')"

fun uncached_run :: "idkey \<Rightarrow> (db \<times> basic_request) list \<Rightarrow> throttle \<Rightarrow> basic_answer list" where
  "uncached_run idk [] t = []"
| "uncached_run idk ((db, r) # rs) t = (case uncached_step idk db r t of (a, t') \<Rightarrow> a # uncached_run idk rs t')"

lemma step_transparent:
  assumes "cache_sound idk mac c" and "inj mac" and "names_ok db" and "br_Granted r"
    and "RequireBasicAuth idk mac db r (c, t) = (a, c', t')"
  shows "uncached_step idk db r t = (a, t') \<and> cache_sound idk mac c'"
proof (cases "br_Credentials r")
  case None
  then show ?thesis using assms by (simp add: RequireBasicAuth_def uncached_step_def)
next
  case (Some np)
  obtain name p where np: "np = (name, p)" by (cases np)
  obtain retry ok t1 where al: "allow name (br_Now r) t = ((retry, ok), t1)" by (metis prod.collapse)
  obtain x d where au: "authenticate idk mac db name p (br_Now r) True c = (x, d)" by fastforce
  note tr = authenticate_transparent [OF assms(1-3) au]
  show ?thesis
    using assms(1,4,5) Some np al au tr
    by (cases ok; cases "Authenticate idk db name p True") (auto simp: RequireBasicAuth_def uncached_step_def)
qed

lemma run_transparent:
  "inj mac \<Longrightarrow> list_all (\<lambda>(db, r). names_ok db \<and> br_Granted r) rs \<Longrightarrow> cache_sound idk mac c \<Longrightarrow>
   cached_run idk mac rs (c, t) = uncached_run idk rs t"
proof (induction rs arbitrary: c t)
  case (Cons x rs)
  obtain db r where x: "x = (db, r)" by (cases x)
  obtain a c' t' where s: "RequireBasicAuth idk mac db r (c, t) = (a, c', t')" by (metis prod.collapse)
  have "uncached_step idk db r t = (a, t') \<and> cache_sound idk mac c'"
    using step_transparent [OF Cons.prems(3,1) _ _ s] Cons.prems(2) x by simp
  then show ?case using Cons.IH [of c' t'] Cons.prems(1,2) x s by simp
qed simp

lemma uncached_serves:
  "list_all2 (\<lambda>(db, r) a. \<forall>u. a = ServeNext u \<longrightarrow> (\<exists>name p. br_Credentials r = Some (name, p) \<and>
     u \<in> set (users db) \<and> EqualFold (u_Username u) name \<and> VerifyPassword idk (u_PasswordHash u) p = Inr ())) rs (uncached_run idk rs t)"
proof (induction rs arbitrary: t)
  case (Cons x rs)
  obtain db r where x: "x = (db, r)" by (cases x)
  obtain a t' where s: "uncached_step idk db r t = (a, t')" by fastforce
  have find: "u \<in> set (users db) \<and> EqualFold (u_Username u) name" if "UserByUsername name db = Inr u" for u name
    using that find_SomeD [of "\<lambda>u. nocase_eq (u_Username u) name" "users db" u]
    by (simp add: UserByUsername_def nocase_eq_def EqualFold_def split: option.splits)
  have "\<exists>name p. br_Credentials r = Some (name, p) \<and> u \<in> set (users db) \<and> EqualFold (u_Username u) name \<and>
      VerifyPassword idk (u_PasswordHash u) p = Inr ()" if "a = ServeNext u" for u
    using s that find
    by (auto simp: uncached_step_def tooManyAttempts_def Let_def Authenticate_def bindE_Inr mapE_Inr withVerificationSlot_def
        split: option.splits prod.splits if_splits sum.splits)
  then show ?case using Cons.IH [of t'] x s by simp
qed simp

text \<open>
  C15. The credential cache is invisible: over any run of requests, one after the other and with users and passwords changing
  in between, the middleware answers exactly as if it verified the password every time. In particular it
  hands on a request only with a user whose current hash verifies the password of that request. This takes that
  no request is cancelled while it waits for a verification slot (with the cache it may not have to wait), that no two credentials
  have the same keyed hash, and that the stored names and hashes hold no NUL, which separates them in it.
\<close>

theorem basic_auth_cache_transparent:
  assumes "inj mac" and "list_all (\<lambda>(db, r). names_ok db \<and> br_Granted r) rs"
  shows "cached_run idk mac rs (newCredentialCache ttl, NewLoginThrottle) = uncached_run idk rs NewLoginThrottle \<and>
    list_all2 (\<lambda>(db, r) a. \<forall>u. a = ServeNext u \<longrightarrow> (\<exists>name p. br_Credentials r = Some (name, p) \<and>
      u \<in> set (users db) \<and> EqualFold (u_Username u) name \<and> VerifyPassword idk (u_PasswordHash u) p = Inr ())) rs
      (cached_run idk mac rs (newCredentialCache ttl, NewLoginThrottle))"
proof -
  have "cache_sound idk mac (newCredentialCache ttl)" by (simp add: cache_sound_def newCredentialCache_def)
  then show ?thesis using run_transparent [OF assms] uncached_serves by simp
qed

text \<open>Two requests with the same password, and a third after it was changed.\<close>

definition user_db :: "string \<Rightarrow> db" where
  "user_db password = empty_db\<lparr>users := [\<lparr>u_ID = 1, u_Username = ''Ada'', u_DisplayName = [], u_Email = [],
     u_PasswordHash = HashPassword sample_idkey ''0123456789abcdef'' password, u_IsAdmin = False, u_CreatedAt = 0, u_UpdatedAt = 0\<rparr>]\<rparr>"

definition login :: "string \<Rightarrow> instant \<Rightarrow> basic_request" where
  "login password now = \<lparr>br_Credentials = Some (''ada'', password), br_Now = now, br_Granted = True\<rparr>"

definition changed_password :: "(db \<times> basic_request) list" where
  "changed_password = [(user_db ''old'', login ''old'' 1), (user_db ''old'', login ''old'' 2), (user_db ''new'', login ''old'' 3)]"

lemma sample_verify:
  "VerifyPassword sample_idkey (HashPassword sample_idkey ''0123456789abcdef'' p) q =
   (if sample_idkey q [] 2 19456 1 32 = sample_idkey p [] 2 19456 1 32 then Inr () else Inl ErrMismatch)"
proof -
  let ?k = "sample_idkey p ''0123456789abcdef'' (p_Time DefaultParams) (p_Memory DefaultParams) (p_Parallelism DefaultParams) (p_KeyLength DefaultParams)"
  have "acceptable DefaultParams ''0123456789abcdef'' ?k"
    by (simp add: acceptable_def DefaultParams_def sample_idkey_def maxMemory_def maxTime_def maxParallelism_def
        maxSaltLength_def maxKeyLength_def min_def)
  note decode_format [OF this]
  then show ?thesis
    by (simp add: VerifyPassword_def HashPassword_def hashPasswordWith_def DefaultParams_def sample_idkey_def)
qed

lemma format_hash_no_NUL: "NUL \<notin> set (format_hash p salt key)"
proof -
  have "NUL \<notin> set (itoa n)" for n using digit_char_range [of NUL n] by auto
  moreover have "NUL \<notin> set (raw_std_encode s)" for s
    using b64_encode_no_NUL by blast
  moreover have "FormatInt argon2_Version = ''19''" by code_simp
  ultimately show ?thesis by (simp add: format_hash_def)
qed

theorem basic_auth_cache_transparent_witness:
  "(case cached_run sample_idkey (\<lambda>s. s) changed_password (newCredentialCache 0, NewLoginThrottle) of
      [ServeNext u, ServeNext v, Challenge] \<Rightarrow> u_ID u = 1 \<and> u_ID v = 1 | _ \<Rightarrow> False)"
proof -
  have ok: "list_all (\<lambda>(db, r). names_ok db \<and> br_Granted r) changed_password"
    by (simp add: changed_password_def names_ok_def user_db_def login_def HashPassword_def hashPasswordWith_def format_hash_no_NUL)
  have low: "ToLower ''Ada'' = ToLower ''ada''" by code_simp
  have "case uncached_run sample_idkey changed_password NewLoginThrottle of
      [ServeNext u, ServeNext v, Challenge] \<Rightarrow> u_ID u = 1 \<and> u_ID v = 1 | _ \<Rightarrow> False"
    by (simp add: changed_password_def uncached_step_def user_db_def login_def NewLoginThrottle_def newThrottle_def allow_def
        succeed_def Authenticate_def UserByUsername_def nocase_eq_def low withVerificationSlot_def sample_verify sample_idkey_def)
  then show ?thesis
    using basic_auth_cache_transparent [OF _ ok, of "\<lambda>s. s" sample_idkey 0] by (simp only: inj_on_id2 simp_thms)
qed

end
