(* ===== verification/Session_Auth.thy ===== *)
theory Session_Auth
  imports Basic_Auth Storage_Trace
begin

text \<open>
  \<open>internal/auth/session.go\<close>: the cookie sessions of the administration pages. The bytes of a random
  token are an input; the database keeps whole seconds, so an instant is stored as its \<open>unix\<close> value.
\<close>

definition unix :: "instant \<Rightarrow> int" where
  "unix now = now div second"

definition DefaultSessionLifetime :: int where "DefaultSessionLifetime = 30 * 24 * 60 * 60 * second"
definition tokenBytes :: nat where "tokenBytes = 32"

record Sessions =
  ss_Lifetime :: int
  ss_Secure :: bool
  ss_Path :: string

definition lifetime :: "Sessions \<Rightarrow> int" where
  "lifetime s = (if ss_Lifetime s \<le> 0 then DefaultSessionLifetime else ss_Lifetime s)"

definition cookie_path :: "Sessions \<Rightarrow> string" where
  "cookie_path s = (if ss_Path s = [] then ''/'' else ss_Path s)"

record cookie =
  ck_Value :: string
  ck_Path :: string
  ck_MaxAge :: int
  ck_HttpOnly :: bool
  ck_Secure :: bool

definition randomToken :: "string \<Rightarrow> string" where
  "randomToken b = raw_url_encode (take tokenBytes b)"

definition session_Create ::
    "Sessions \<Rightarrow> string \<Rightarrow> string \<Rightarrow> instant \<Rightarrow> int \<Rightarrow> db \<Rightarrow> (serror + session \<times> cookie) \<times> db" where
  "session_Create s b1 b2 now uid db =
     (let sess = \<lparr>s_Token = randomToken b1, s_UserID = uid, s_CSRFToken = randomToken b2, s_CreatedAt = unix now,
                  s_ExpiresAt = unix (now + lifetime s)\<rparr>
      in case CreateSession sess db of
           (Inl e, db') \<Rightarrow> (Inl e, db')
         | (Inr _, db') \<Rightarrow>
             (Inr (sess, \<lparr>ck_Value = randomToken b1, ck_Path = cookie_path s, ck_MaxAge = lifetime s div second,
                          ck_HttpOnly = True, ck_Secure = ss_Secure s\<rparr>), db'))"

datatype session_error = ErrNoSession | SessionStorage serror

definition session_Get :: "instant \<Rightarrow> string option \<Rightarrow> db \<Rightarrow> (session_error + session \<times> user) \<times> db" where
  "session_Get now ck db =
     (case ck of
        None \<Rightarrow> (Inl ErrNoSession, db)
      | Some v \<Rightarrow>
          (case SessionByToken (unix now) v db of
             (Inl e, db') \<Rightarrow> (Inl (if e = ErrNotFound then ErrNoSession else SessionStorage e), db')
           | (Inr su, db') \<Rightarrow> (Inr su, db')))"

definition session_Clear :: "Sessions \<Rightarrow> cookie" where
  "session_Clear s = \<lparr>ck_Value = [], ck_Path = cookie_path s, ck_MaxAge = -1, ck_HttpOnly = True, ck_Secure = ss_Secure s\<rparr>"

definition session_Destroy :: "Sessions \<Rightarrow> string option \<Rightarrow> db \<Rightarrow> (serror + cookie) \<times> db" where
  "session_Destroy s ck db =
     (case ck of
        None \<Rightarrow> (Inr (session_Clear s), db)
      | Some v \<Rightarrow>
          (case DeleteSession v db of
             (Inl e, db') \<Rightarrow> (if e \<noteq> ErrNotFound then Inl e else Inr (session_Clear s), db')
           | (Inr _, db') \<Rightarrow> (Inr (session_Clear s), db')))"

section \<open>The middleware\<close>

record admin_request =
  ar_Method :: string
  ar_Cookie :: "string option"
  ar_CSRFHeader :: string
  ar_CSRFForm :: string
  ar_HXRequest :: string

definition isMutating :: "string \<Rightarrow> bool" where
  "isMutating m = (\<not> (m = ''GET'' \<or> m = ''HEAD'' \<or> m = ''OPTIONS''))"

definition requestCSRFToken :: "admin_request \<Rightarrow> string" where
  "requestCSRFToken r = (if ar_CSRFHeader r \<noteq> [] then ar_CSRFHeader r else ar_CSRFForm r)"

definition EqualStrings :: "string \<Rightarrow> string \<Rightarrow> bool" where
  "EqualStrings a b = (a = b)"

datatype session_answer =
    HXRedirect string
  | SeeOther string
  | InvalidCSRF
  | NextWith session user

definition redirectToLogin :: "admin_request \<Rightarrow> string \<Rightarrow> session_answer" where
  "redirectToLogin r loginPath = (if ar_HXRequest r = ''true'' then HXRedirect loginPath else SeeOther loginPath)"

definition RequireSession :: "string \<Rightarrow> instant \<Rightarrow> admin_request \<Rightarrow> db \<Rightarrow> session_answer \<times> db" where
  "RequireSession loginPath now r db =
     (case session_Get now (ar_Cookie r) db of
        (Inl e, db') \<Rightarrow> (redirectToLogin r loginPath, db')
      | (Inr (sess, u), db') \<Rightarrow>
          if isMutating (ar_Method r) \<and> \<not> EqualStrings (requestCSRFToken r) (s_CSRFToken sess) then (InvalidCSRF, db')
          else (NextWith sess u, db'))"

section \<open>What a session is good for\<close>

lemma SessionByToken_Inr:
  assumes "SessionByToken now tok db = (Inr (s, u), db')"
  shows "s \<in> set (sessions db) \<and> s_Token s = tok \<and> u \<in> set (users db) \<and> u_ID u = s_UserID s \<and> now < s_ExpiresAt s \<and> db' = db"
proof -
  obtain r where f: "List.find (\<lambda>s. s_Token s = tok \<and> list_ex (\<lambda>u. u_ID u = s_UserID s) (users db)) (sessions db) = Some r"
    using assms by (auto simp: SessionByToken_def split: option.splits)
  obtain v where v: "UserByID (s_UserID r) db = Inr v"
    using assms f by (auto simp: SessionByToken_def split: sum.splits)
  have e: "now < s_ExpiresAt r" "s = r" "u = v" "db' = db"
    using assms f v by (auto simp: SessionByToken_def split: if_splits prod.splits sum.splits)
  have "v \<in> set (users db)" "u_ID v = s_UserID r"
    using v find_SomeD [of "\<lambda>u. u_ID u = s_UserID r" "users db" v] by (auto simp: UserByID_def split: option.splits)
  then show ?thesis using find_SomeD [OF f] e by auto
qed

lemma RequireSession_NextWith:
  assumes "RequireSession loginPath now r db = (NextWith s u, db')"
  shows "s \<in> set (sessions db) \<and> u \<in> set (users db) \<and> u_ID u = s_UserID s \<and> ar_Cookie r = Some (s_Token s) \<and>
    unix now < s_ExpiresAt s \<and> (isMutating (ar_Method r) \<longrightarrow> requestCSRFToken r = s_CSRFToken s) \<and> db' = db"
proof -
  obtain v where v: "ar_Cookie r = Some v" "SessionByToken (unix now) v db = (Inr (s, u), db')"
    "isMutating (ar_Method r) \<longrightarrow> requestCSRFToken r = s_CSRFToken s"
    using assms
    by (auto simp: RequireSession_def session_Get_def redirectToLogin_def EqualStrings_def split: prod.splits sum.splits option.splits if_splits)
  then show ?thesis using SessionByToken_Inr [OF v(2)] by auto
qed

text \<open>
  C16. A request reaches an administration page only with the cookie of a stored, unexpired session of an
  existing user, and one that may change anything only with that session's CSRF token as well; the
  page is given that session and that user.
\<close>

theorem session_guards_pages:
  assumes "RequireSession loginPath now r db = (NextWith s u, db')"
  shows "s \<in> set (sessions db) \<and> u \<in> set (users db) \<and> u_ID u = s_UserID s \<and> ar_Cookie r = Some (s_Token s) \<and>
    unix now < s_ExpiresAt s \<and> (isMutating (ar_Method r) \<longrightarrow> requestCSRFToken r = s_CSRFToken s) \<and> db' = db"
  using RequireSession_NextWith [OF assms] .

definition session_db :: db where
  "session_db = snd (session_Create \<lparr>ss_Lifetime = 0, ss_Secure = True, ss_Path = []\<rparr> ''abc'' ''def'' (7 * second) 1 sample_db)"

definition admin_post :: "string \<Rightarrow> admin_request" where
  "admin_post token = \<lparr>ar_Method = ''POST'', ar_Cookie = Some (randomToken ''abc''), ar_CSRFHeader = [], ar_CSRFForm = token, ar_HXRequest = []\<rparr>"

theorem session_guards_pages_witness:
  "(case RequireSession ''/login'' (8 * second) (admin_post (randomToken ''def'')) session_db of
      (NextWith s u, _) \<Rightarrow> s \<in> set (sessions session_db) \<and> u_ID u = 1 \<and> unix (8 * second) < s_ExpiresAt s | _ \<Rightarrow> False) \<and>
   fst (RequireSession ''/login'' (8 * second) (admin_post ''forged'') session_db) = InvalidCSRF"
proof
  have "case RequireSession ''/login'' (8 * second) (admin_post (randomToken ''def'')) session_db of
      (NextWith s u, _) \<Rightarrow> s_UserID s = 1 | _ \<Rightarrow> False" by code_simp
  then obtain s u d where r: "RequireSession ''/login'' (8 * second) (admin_post (randomToken ''def'')) session_db = (NextWith s u, d)"
    "s_UserID s = 1" by (auto split: prod.splits session_answer.splits)
  show "case RequireSession ''/login'' (8 * second) (admin_post (randomToken ''def'')) session_db of
      (NextWith s u, _) \<Rightarrow> s \<in> set (sessions session_db) \<and> u_ID u = 1 \<and> unix (8 * second) < s_ExpiresAt s | _ \<Rightarrow> False"
    using session_guards_pages [OF r(1)] r by simp
  show "fst (RequireSession ''/login'' (8 * second) (admin_post ''forged'') session_db) = InvalidCSRF" by code_simp
qed

section \<open>The life of a session\<close>

lemma find_session:
  assumes "db_ok hash db" and "s \<in> set (sessions db)"
  shows "List.find (\<lambda>r. s_Token r = s_Token s \<and> list_ex (\<lambda>u. u_ID u = s_UserID r) (users db)) (sessions db) = Some s"
proof -
  have d: "distinct (map s_Token (sessions db))" and o: "\<And>r. r \<in> set (sessions db) \<Longrightarrow> s_UserID r \<in> u_ID ` set (users db)"
    using assms by (auto simp: db_ok_def sessions_ok_def list_all_iff)
  show ?thesis by (rule find_unique [OF d assms(2)]) (use o in \<open>force simp: list_ex_iff\<close>)
qed

lemma stored_session:
  assumes ok: "db_ok hash db" and s: "s \<in> set (sessions db)"
  shows "\<exists>u. UserByID (s_UserID s) db = Inr u \<and> SessionByToken now (s_Token s) db =
    (if now < s_ExpiresAt s then (Inr (s, u), db) else (Inl ErrNotFound, snd (DeleteSession (s_Token s) db)))"
proof -
  have "s_UserID s \<in> u_ID ` set (users db)" using ok s by (auto simp: db_ok_def sessions_ok_def list_all_iff)
  then have "List.find (\<lambda>u. u_ID u = s_UserID s) (users db) \<noteq> None" by (auto simp: find_None_iff)
  then obtain u where u: "UserByID (s_UserID s) db = Inr u" by (auto simp: UserByID_def)
  have "\<exists>e. DeleteSession (s_Token s) db = (Inr (), e)"
    using s by (auto simp: DeleteSession_def checkAffected_Inr)
  then show ?thesis using u find_session [OF ok s] by (auto simp: SessionByToken_def)
qed

text \<open>
  C25. A session lives from the login to the logout or its expiry: the cookie a login sets is good for its
  user at every instant before the expiry, and after the logout, or from the expiry on, it is good for
  nobody.
\<close>

theorem session_lifecycle:
  assumes "db_ok hash db" and "session_Create cfg b1 b2 now uid db = (Inr (s, ck), db')"
  shows "(\<exists>u. UserByID uid db = Inr u \<and>
      (\<forall>t. fst (session_Get t (Some (ck_Value ck)) db') =
        (if unix t < unix (now + lifetime cfg) then Inr (s, u) else Inl ErrNoSession))) \<and>
    fst (session_Get t' (Some (ck_Value ck)) (snd (session_Destroy cfg (Some (ck_Value ck)) db'))) = Inl ErrNoSession"
proof -
  have c: "CreateSession s db = (Inr (), db')" "ck_Value ck = s_Token s" "s_UserID s = uid" "s_ExpiresAt s = unix (now + lifetime cfg)"
    using assms(2) by (auto simp: session_Create_def Let_def split: prod.splits sum.splits)
  then have d: "db' = db\<lparr>sessions := sessions db @ [s]\<rparr>" by (auto simp: CreateSession_def split: if_splits)
  have ok: "db_ok hash db'" using session_ops_ok(1) [OF assms(1), of s] c(1) by simp
  have mem: "s \<in> set (sessions db')" using d by simp
  have "\<exists>u. UserByID (s_UserID s) db' = Inr u \<and> (\<forall>t. SessionByToken t (s_Token s) db' =
      (if t < s_ExpiresAt s then (Inr (s, u), db') else (Inl ErrNotFound, snd (DeleteSession (s_Token s) db'))))"
    using stored_session [OF ok mem] by (metis Inr_inject)
  then obtain u where u: "UserByID (s_UserID s) db' = Inr u"
    "\<And>t. SessionByToken t (s_Token s) db' =
      (if t < s_ExpiresAt s then (Inr (s, u), db') else (Inl ErrNotFound, snd (DeleteSession (s_Token s) db')))" by auto
  have "UserByID uid db = Inr u" using u(1) c(3) d by (simp add: UserByID_def)
  moreover have "fst (session_Get t (Some (ck_Value ck)) db') =
      (if unix t < unix (now + lifetime cfg) then Inr (s, u) else Inl ErrNoSession)" for t
    using u(2) c by (simp add: session_Get_def)
  moreover have "SessionByToken t (s_Token s) (snd (session_Destroy cfg (Some (s_Token s)) db')) =
      (Inl ErrNotFound, snd (session_Destroy cfg (Some (s_Token s)) db'))" for t
  proof -
    let ?gone = "db'\<lparr>sessions := filter (\<lambda>r. s_Token r \<noteq> s_Token s) (sessions db')\<rparr>"
    have "snd (session_Destroy cfg (Some (s_Token s)) db') = ?gone"
      by (auto simp: session_Destroy_def DeleteSession_def split: sum.split)
    moreover have "List.find (\<lambda>r. s_Token r = s_Token s \<and> list_ex (\<lambda>u. u_ID u = s_UserID r) (users db')) (sessions ?gone) = None"
      by (auto simp: find_None_iff)
    ultimately show ?thesis by (simp add: SessionByToken_def)
  qed
  ultimately show ?thesis using c(2) by (auto simp: session_Get_def)
qed

theorem session_lifecycle_witness:
  "fst (session_Get (9 * second) (Some (randomToken ''abc'')) session_db) \<noteq> Inl ErrNoSession \<and>
   fst (session_Get (7 * second + DefaultSessionLifetime) (Some (randomToken ''abc'')) session_db) = Inl ErrNoSession"
proof -
  let ?cfg = "\<lparr>ss_Lifetime = 0, ss_Secure = True, ss_Path = []\<rparr>"
  have "case session_Create ?cfg ''abc'' ''def'' (7 * second) 1 sample_db of
      (Inr (s, ck), d) \<Rightarrow> ck_Value ck = randomToken ''abc'' | _ \<Rightarrow> False" by code_simp
  then obtain s ck d where c: "session_Create ?cfg ''abc'' ''def'' (7 * second) 1 sample_db = (Inr (s, ck), d)"
    "ck_Value ck = randomToken ''abc''" by (auto split: prod.splits sum.splits)
  have d: "d = session_db" using c(1) by (simp add: session_db_def)
  have ok: "db_ok (\<lambda>s. s) sample_db" unfolding sample_db_def using run_ok [OF db_ok_empty] .
  obtain u where "\<forall>t. fst (session_Get t (Some (ck_Value ck)) d) =
      (if unix t < unix (7 * second + lifetime ?cfg) then Inr (s, u) else Inl ErrNoSession)"
    using session_lifecycle [OF ok c(1), of 0] by blast
  then show ?thesis
    using c(2) d by (simp add: unix_def lifetime_def DefaultSessionLifetime_def)
qed

end
