(* ===== verification/Xml.thy ===== *)
theory Xml
  imports Prelude
begin

text \<open>
  \<open>internal/dav/internal/xml.go\<close>: XML values whose decoding is put off. A document is the list of
  tokens \<open>encoding/xml\<close> reads from it or is asked to write; the end of the list is where the decoder
  reports an error. \<open>RawXMLValue\<close> is a tree of such tokens. A value that is only there to be written
  (\<open>out\<close>) is represented by the element \<open>encoding/xml\<close> writes for it. \<open>valueXMLName\<close> is reflection: the
  name of a Go type is the constant in its tag.
\<close>

type_synonym xname = "string \<times> string"
type_synonym xattrs = "(xname \<times> string) list"

datatype leaf = CharData string | Comment string | ProcInst string string | Directive string

datatype xtok = StartElement xname xattrs | EndElement xname | Leaf leaf

text \<open>\<open>tok\<close> is never an end element, which the constructors say.\<close>

datatype raw = Elem xname xattrs "raw list" | Tok leaf | Out raw

definition NewRawXMLElement :: "xname \<Rightarrow> xattrs \<Rightarrow> raw list \<Rightarrow> raw" where
  "NewRawXMLElement name attr children = Elem name attr children"

definition EncodeRawXMLElement :: "raw \<Rightarrow> raw" where
  "EncodeRawXMLElement v = Out v"

fun XMLName :: "raw \<Rightarrow> xname option" where
  "XMLName (Elem n a cs) = Some n"
| "XMLName (Tok t) = None"
| "XMLName (Out v) = None"

section \<open>Reading and writing\<close>

text \<open>The loop of \<open>UnmarshalXML\<close>: the children up to the end element, and what follows it.\<close>

function unmarshal_loop :: "xtok list \<Rightarrow> (raw list \<times> xtok list) option" where
  "unmarshal_loop [] = None"
| "unmarshal_loop (StartElement n a # ts) =
     (case unmarshal_loop ts of
        None \<Rightarrow> None
      | Some (cs, ts') \<Rightarrow>
          (case unmarshal_loop ts' of None \<Rightarrow> None | Some (more, r) \<Rightarrow> Some (Elem n a cs # more, r)))"
| "unmarshal_loop (EndElement n # ts) = Some ([], ts)"
| "unmarshal_loop (Leaf l # ts) =
     (case unmarshal_loop ts of None \<Rightarrow> None | Some (more, r) \<Rightarrow> Some (Tok l # more, r))"
  by pat_completeness auto

lemma unmarshal_loop_consumes:
  "unmarshal_loop_dom ts \<Longrightarrow> unmarshal_loop ts = Some (cs, r) \<Longrightarrow> length r < length ts"
proof (induction arbitrary: cs r rule: unmarshal_loop.pinduct)
  case (2 n a ts)
  then obtain cs1 ts' more where "unmarshal_loop ts = Some (cs1, ts')" "unmarshal_loop ts' = Some (more, r)"
    by (auto simp: unmarshal_loop.psimps split: option.splits)
  then show ?case using 2 by fastforce
next
  case (4 l ts)
  then obtain more where "unmarshal_loop ts = Some (more, r)"
    by (auto simp: unmarshal_loop.psimps split: option.splits)
  then show ?case using 4 by fastforce
qed (simp_all add: unmarshal_loop.psimps)

termination unmarshal_loop
  by (relation "measure length") (auto dest: unmarshal_loop_consumes)

fun UnmarshalXML :: "xtok list \<Rightarrow> (raw \<times> xtok list) option" where
  "UnmarshalXML (StartElement n a # ts) = map_option (\<lambda>(cs, r). (Elem n a cs, r)) (unmarshal_loop ts)"
| "UnmarshalXML _ = None"

fun MarshalXML :: "raw \<Rightarrow> xtok list" where
  "MarshalXML (Elem n a cs) = StartElement n a # concat (map MarshalXML cs) @ [EndElement n]"
| "MarshalXML (Tok t) = [Leaf t]"
| "MarshalXML (Out v) = MarshalXML v"

text \<open>What a client sees of a value that is written.\<close>

fun written :: "raw \<Rightarrow> raw" where
  "written (Elem n a cs) = Elem n a (map written cs)"
| "written (Tok t) = Tok t"
| "written (Out v) = written v"

section \<open>The token reader\<close>

datatype reader = Reader (rd_val: raw) (rd_start: bool) (rd_end: bool) (rd_child: nat) (rd_childReader: "reader option")

text \<open>\<open>None\<close> is the panic on a value that can only be written.\<close>

fun TokenReader :: "raw \<Rightarrow> reader option" where
  "TokenReader (Out v) = None"
| "TokenReader (Elem n a cs) = Some (Reader (Elem n a cs) False False 0 None)"
| "TokenReader (Tok t) = Some (Reader (Tok t) False False 0 None)"

fun nodes :: "raw \<Rightarrow> nat" where
  "nodes (Elem n a cs) = Suc (sum_list (map nodes cs))"
| "nodes (Tok t) = 1"
| "nodes (Out v) = 1"

fun work :: "reader \<Rightarrow> nat" where
  "work (Reader v s e c cr) =
     (let later = (\<lambda>n. case v of Elem _ _ cs \<Rightarrow> sum_list (map nodes (drop n cs)) | _ \<Rightarrow> 0)
      in case cr of None \<Rightarrow> later c | Some r \<Rightarrow> Suc (work r) + later (Suc c))"

lemma work_fresh: "TokenReader v = Some r \<Longrightarrow> work r < nodes v"
  by (cases v) auto

lemma nodes_pos [simp]: "0 < nodes v"
  by (cases v) auto

lemma later_drop: "c < length cs \<Longrightarrow> sum_list (map f (drop c cs)) = f (cs ! c) + sum_list (map f (drop (Suc c) cs))"
  for f :: "raw \<Rightarrow> nat"
  by (metis Cons_nth_drop_Suc list.simps(9) sum_list.Cons)

text \<open>
  One call of \<open>Token\<close>: \<open>Some (None, _)\<close> is \<open>io.EOF\<close>. A child that is exhausted sends the loop on to the
  next one.
\<close>

function Token :: "reader \<Rightarrow> (xtok option \<times> reader) option" where
  "Token (Reader v s e c cr) =
     (if e then Some (None, Reader v s e c cr)
      else case v of
        Out _ \<Rightarrow> None
      | Tok t \<Rightarrow> Some (Some (Leaf t), Reader v s True c cr)
      | Elem n a cs \<Rightarrow>
          if \<not> s then Some (Some (StartElement n a), Reader v True e c cr)
          else if c < length cs then
            (case (case cr of Some r \<Rightarrow> Some r | None \<Rightarrow> TokenReader (cs ! c)) of
               None \<Rightarrow> None
             | Some r \<Rightarrow>
                 (case Token r of
                    None \<Rightarrow> None
                  | Some (None, _) \<Rightarrow> Token (Reader v s e (Suc c) None)
                  | Some (Some t, r') \<Rightarrow> Some (Some t, Reader v s e c (Some r'))))
          else Some (Some (EndElement n), Reader v s True c cr))"
  by pat_completeness auto
termination
proof (relation "measure work")
  fix v s e c cr n a cs r
  assume v: "v = Elem n a cs" and c: "c < length cs"
    and r: "(case cr of None \<Rightarrow> TokenReader (cs ! c) | Some r \<Rightarrow> Some r) = Some r"
  show "(r, Reader v s e c cr) \<in> measure work"
    using v c r work_fresh [of "cs ! c" r] by (cases cr) (auto simp: later_drop)
next
  fix v s e c cr n a cs r
  assume v: "v = Elem n a cs" and c: "c < length cs"
  show "(Reader v s e (Suc c) None, Reader v s e c cr) \<in> measure work"
    using v c nodes_pos [of "cs ! c"] by (cases cr) (auto simp: later_drop)
qed simp

declare Token.simps [simp del]

text \<open>Reading to the end, with a bound on the number of calls.\<close>

fun drain :: "nat \<Rightarrow> reader \<Rightarrow> xtok list option" where
  "drain 0 r = None"
| "drain (Suc n) r =
     (case Token r of
        None \<Rightarrow> None
      | Some (None, _) \<Rightarrow> Some []
      | Some (Some t, r') \<Rightarrow> map_option ((#) t) (drain n r'))"

section \<open>The reader yields what would be written\<close>

fun readable :: "raw \<Rightarrow> bool" where
  "readable (Elem n a cs) = list_all readable cs"
| "readable (Tok t) = True"
| "readable (Out v) = False"

text \<open>The tokens a reader has still to deliver, and the states it goes through.\<close>

fun remaining :: "reader \<Rightarrow> xtok list" where
  "remaining (Reader v s e c cr) =
     (if e then []
      else case v of
        Elem n a cs \<Rightarrow>
          if \<not> s then MarshalXML v
          else (case cr of None \<Rightarrow> concat (map MarshalXML (drop c cs))
                | Some r \<Rightarrow> remaining r @ concat (map MarshalXML (drop (Suc c) cs))) @ [EndElement n]
      | _ \<Rightarrow> MarshalXML v)"

fun reader_ok :: "reader \<Rightarrow> bool" where
  "reader_ok (Reader v s e c cr) =
     (readable v \<and> (\<not> s \<longrightarrow> c = 0 \<and> cr = None) \<and>
      (case cr of None \<Rightarrow> True | Some r \<Rightarrow> reader_ok r \<and> (case v of Elem n a cs \<Rightarrow> c < length cs | _ \<Rightarrow> False)))"

lemma fresh_reader:
  "readable v \<Longrightarrow> \<exists>r. TokenReader v = Some r \<and> reader_ok r \<and> remaining r = MarshalXML v"
  by (cases v) auto

lemma Token_step:
  "reader_ok r \<Longrightarrow>
   (case remaining r of [] \<Rightarrow> Token r = Some (None, r)
    | t # ts \<Rightarrow> \<exists>r'. Token r = Some (Some t, r') \<and> reader_ok r' \<and> remaining r' = ts)"
proof (induction r rule: Token.induct)
  case (1 v s e c cr)
  show ?case
  proof (cases "e \<or> (\<forall>n a cs. v \<noteq> Elem n a cs) \<or> \<not> s")
    case True
    then show ?thesis using 1(3) by (cases v) (auto simp: Token.simps split: if_splits)
  next
    case False
    then obtain n a cs where v: "v = Elem n a cs" and s: "\<not> e" "s" by blast
    show ?thesis
    proof (cases "c < length cs")
      case c: True
      obtain r where r: "(case cr of Some r \<Rightarrow> Some r | None \<Rightarrow> TokenReader (cs ! c)) = Some r" "reader_ok r"
        "remaining (Reader v s e c cr) = remaining r @ concat (map MarshalXML (drop (Suc c) cs)) @ [EndElement n]"
      proof (cases cr)
        case None
        have "readable (cs ! c)" using 1(3) c v by (auto simp: list_all_length)
        from fresh_reader [OF this] obtain r where "TokenReader (cs ! c) = Some r" "reader_ok r" "remaining r = MarshalXML (cs ! c)"
          by blast
        moreover have "drop c cs = cs ! c # drop (Suc c) cs" using c by (simp add: Cons_nth_drop_Suc)
        ultimately show ?thesis using that None v s by simp
      next
        case (Some r)
        then show ?thesis using that 1(3) v s by simp
      qed
      note IH1 = 1(1) [OF s(1) v _ c r(1) r(2)] and IH2 = 1(2) [OF s(1) v _ c r(1)]
      show ?thesis
      proof (cases "remaining r")
        case Nil
        then have "Token r = Some (None, r)" using IH1 s by simp
        moreover have "Token (Reader v s e c cr) = Token (Reader v s e (Suc c) None)"
          using calculation r v s c by (subst Token.simps) simp
        moreover have "remaining (Reader v s e (Suc c) None) = remaining (Reader v s e c cr)"
          using r(3) Nil v s by simp
        moreover have "reader_ok (Reader v s e (Suc c) None)" using 1(3) v s by simp
        moreover obtain t ts where "remaining (Reader v s e (Suc c) None) = t # ts"
          using v s by (cases "remaining (Reader v s e (Suc c) None)") auto
        ultimately show ?thesis using IH2 s by (simp del: remaining.simps reader_ok.simps)
      next
        case (Cons t ts)
        then obtain r' where r': "Token r = Some (Some t, r')" "reader_ok r'" "remaining r' = ts"
          using IH1 s by auto
        then have "Token (Reader v s e c cr) = Some (Some t, Reader v s e c (Some r'))"
          using r v s c by (subst Token.simps) simp
        then show ?thesis using r(3) r' Cons 1(3) v s c by simp
      qed
    next
      case c: False
      then have "cr = None" using 1(3) v by (cases cr) auto
      then show ?thesis using 1(3) v s c by (simp add: Token.simps)
    qed
  qed
qed

lemma drain_remaining: "reader_ok r \<Longrightarrow> length (remaining r) < n \<Longrightarrow> drain n r = Some (remaining r)"
proof (induction n arbitrary: r)
  case (Suc n)
  then show ?case using Token_step [of r] by (cases "remaining r") auto
qed simp

definition reads_back :: "raw \<Rightarrow> bool" where
  "reads_back v = (\<forall>ts. unmarshal_loop (MarshalXML v @ ts) =
     (case unmarshal_loop ts of None \<Rightarrow> None | Some (more, r) \<Rightarrow> Some (v # more, r)))"

lemma children_read_back:
  "list_all reads_back vs \<Longrightarrow> unmarshal_loop (concat (map MarshalXML vs) @ EndElement n # ts) = Some (vs, ts)"
  by (induction vs) (simp_all add: reads_back_def)

lemma unmarshal_marshal: "readable v \<Longrightarrow> reads_back v"
proof (induction v)
  case (Elem n a cs)
  then have "list_all reads_back cs" by (simp add: list_all_iff)
  from children_read_back [OF this] show ?case by (simp add: reads_back_def)
qed (simp_all add: reads_back_def)

text \<open>
  C27. Putting off the decoding of an element loses nothing: what its token reader delivers is, token for
  token, what the element would be written as, followed by the end of file, and reading those tokens
  gives the element back and leaves what follows it alone.
\<close>

theorem raw_value_round_trip:
  assumes "readable v" and "v = Elem n a cs"
  shows "(\<exists>r. TokenReader v = Some r \<and> drain (Suc (length (MarshalXML v))) r = Some (MarshalXML v)) \<and>
    UnmarshalXML (MarshalXML v @ ts) = Some (v, ts)"
proof
  show "\<exists>r. TokenReader v = Some r \<and> drain (Suc (length (MarshalXML v))) r = Some (MarshalXML v)"
    using fresh_reader [OF assms(1)] drain_remaining by fastforce
  have "list_all reads_back cs" using assms by (simp add: list_all_iff unmarshal_marshal)
  from children_read_back [OF this] show "UnmarshalXML (MarshalXML v @ ts) = Some (v, ts)" by (simp add: assms(2))
qed

definition sample_prop :: raw where
  "sample_prop = Elem (''DAV:'', ''prop'') []
     [Tok (CharData [LF]), Elem (''DAV:'', ''getetag'') [] [], Elem (''DAV:'', ''displayname'') [(([], ''x''), ''1'')] [Tok (CharData ''a'')]]"

theorem raw_value_round_trip_witness:
  "(case TokenReader sample_prop of Some r \<Rightarrow> drain 9 r = Some (MarshalXML sample_prop) | None \<Rightarrow> False) \<and>
   UnmarshalXML (MarshalXML sample_prop @ [EndElement (''DAV:'', ''propfind'')]) =
     Some (sample_prop, [EndElement (''DAV:'', ''propfind'')])"
proof -
  have l: "length (MarshalXML sample_prop) = 8" by code_simp
  have r: "readable sample_prop" by code_simp
  from raw_value_round_trip [OF r sample_prop_def, of "[EndElement (''DAV:'', ''propfind'')]"]
  obtain rd where "TokenReader sample_prop = Some rd" "drain (Suc 8) rd = Some (MarshalXML sample_prop)"
    "UnmarshalXML (MarshalXML sample_prop @ [EndElement (''DAV:'', ''propfind'')]) =
       Some (sample_prop, [EndElement (''DAV:'', ''propfind'')])"
    unfolding l by blast
  then show ?thesis by (simp del: drain.simps)
qed

end
