(* ===== verification/NetUrl.thy ===== *)
theory NetUrl
  imports Http
begin

text \<open>
  The part of Go's \<open>net/url\<close> package that the DAV layer rests on: \<open>Href\<close> of
  \<open>internal/dav/internal/elements.go\<close> is a URL of which the server only uses the path. Whether the
  authority of an absolute URL is well-formed is left to the predicate \<open>authority\<close>.
\<close>

section \<open>Percent encoding\<close>

definition is_alnum :: "char \<Rightarrow> bool" where
  "is_alnum c = (let n = (of_char c :: nat) in
     (48 \<le> n \<and> n \<le> 57) \<or> (65 \<le> n \<and> n \<le> 90) \<or> (97 \<le> n \<and> n \<le> 122))"

text \<open>\<open>shouldEscape\<close> in the mode of a path.\<close>

definition shouldEscape :: "char \<Rightarrow> bool" where
  "shouldEscape c = (\<not> (is_alnum c \<or> c \<in> set ''-_.~$&+,/:;=@''))"

definition upper_hex :: "nat \<Rightarrow> char" where
  "upper_hex n = (if n < 10 then char_of (48 + n) else char_of (55 + n))"

definition escape_path_char :: "char \<Rightarrow> string" where
  "escape_path_char c =
     (if shouldEscape c then [CHR ''%'', upper_hex (of_char c div 16), upper_hex (of_char c mod 16)] else [c])"

definition EscapedPath :: "string \<Rightarrow> string" where
  "EscapedPath p = (if p = ''*'' then ''*'' else concat (map escape_path_char p))"

fun unescape_path :: "string \<Rightarrow> string option" where
  "unescape_path [] = Some []"
| "unescape_path (c # s) =
     (if c = CHR ''%'' then
        (case s of
           a # b # t \<Rightarrow>
             (case (hex_val a, hex_val b) of
                (Some x, Some y) \<Rightarrow> map_option ((#) (char_of (16 * x + y))) (unescape_path t)
              | _ \<Rightarrow> None)
         | _ \<Rightarrow> None)
      else map_option ((#) c) (unescape_path s))"

section \<open>Hrefs\<close>

definition before :: "char \<Rightarrow> string \<Rightarrow> string" where
  "before c s = takeWhile (\<lambda>x. x \<noteq> c) s"

definition after_first :: "char \<Rightarrow> string \<Rightarrow> string" where
  "after_first c s = drop 1 (dropWhile (\<lambda>x. x \<noteq> c) s)"

text \<open>\<open>URL.String\<close> of a URL that has a path only.\<close>

definition Href_String :: "string \<Rightarrow> string" where
  "Href_String p =
     (let e = EscapedPath p in if CHR '':'' \<in> set (before (CHR ''/'') e) then ''./'' @ e else e)"

text \<open>\<open>getScheme\<close>: \<open>None\<close> is the error of a leading colon.\<close>

definition scheme_char :: "char \<Rightarrow> bool" where
  "scheme_char c = (is_alnum c \<or> c \<in> set ''+-.'')"

definition is_letter :: "char \<Rightarrow> bool" where
  "is_letter c = (let n = (of_char c :: nat) in (65 \<le> n \<and> n \<le> 90) \<or> (97 \<le> n \<and> n \<le> 122))"

definition getScheme :: "string \<Rightarrow> (string \<times> string) option" where
  "getScheme s =
     (let pre = takeWhile scheme_char s; rest = dropWhile scheme_char s in
      case rest of
        [] \<Rightarrow> Some ([], s)
      | c # t \<Rightarrow>
          if c = CHR '':'' then
            (if pre = [] then None else if \<not> is_letter (hd pre) then Some ([], s) else Some (pre, t))
          else Some ([], s))"

definition is_ctl :: "char \<Rightarrow> bool" where
  "is_ctl c = (let n = (of_char c :: nat) in n < 32 \<or> n = 127)"

text \<open>The path of \<open>url.Parse\<close>: an opaque URL has none.\<close>

definition url_Parse :: "(string \<Rightarrow> bool) \<Rightarrow> string \<Rightarrow> string option" where
  "url_Parse authority raw =
     (let u = before (CHR ''#'') raw; frag = after_first (CHR ''#'') raw in
      if list_ex is_ctl u then None
      else if u = ''*'' then (if unescape_path frag = None then None else Some ''*'')
      else case getScheme u of
             None \<Rightarrow> None
           | Some (scheme, rest) \<Rightarrow>
               (let rest = before (CHR ''?'') rest in
                if unescape_path frag = None then None
                else if \<not> HasPrefix rest ''/'' \<and> scheme \<noteq> [] then Some []
                else if \<not> HasPrefix rest ''/'' \<and> CHR '':'' \<in> set (before (CHR ''/'') rest) then None
                else if (scheme \<noteq> [] \<or> \<not> HasPrefix rest ''///'') \<and> HasPrefix rest ''//'' then
                  (let auth = before (CHR ''/'') (drop 2 rest); path = dropWhile (\<lambda>x. x \<noteq> CHR ''/'') (drop 2 rest)
                   in if authority auth then unescape_path path else None)
                else unescape_path rest))"

definition Href_MarshalText :: "string \<Rightarrow> string" where
  "Href_MarshalText p = Href_String p"

definition Href_UnmarshalText :: "(string \<Rightarrow> bool) \<Rightarrow> string \<Rightarrow> string option" where
  "Href_UnmarshalText authority b = url_Parse authority b"

section \<open>An absolute path reads back\<close>

lemma hex_val_upper [simp]: "n < 16 \<Longrightarrow> hex_val (upper_hex n) = Some n"
  by (auto simp: hex_val_def upper_hex_def Let_def)

lemma unescape_escape_char:
  "unescape_path (escape_path_char c @ s) = map_option ((#) c) (unescape_path s)"
proof (cases "shouldEscape c")
  case True
  have "of_char c < (256 :: nat)" by simp
  then have "of_char c div 16 < (16 :: nat)" by (simp add: less_mult_imp_div_less)
  then show ?thesis using True by (simp add: escape_path_char_def)
next
  case False
  then have "c \<noteq> CHR ''%''" by (auto simp: shouldEscape_def is_alnum_def)
  then show ?thesis using False by (simp add: escape_path_char_def)
qed

lemma unescape_escape_path: "unescape_path (concat (map escape_path_char p)) = Some p"
  by (induction p) (simp_all add: unescape_escape_char)

lemma upper_hex_alnum: "n < 16 \<Longrightarrow> is_alnum (upper_hex n)"
  by (auto simp: is_alnum_def upper_hex_def Let_def)

lemma of_char_256: "of_char c < (256 :: nat)"
  by simp

lemma escaped_chars: "x \<in> set (escape_path_char c) \<Longrightarrow> is_alnum x \<or> x = CHR ''%'' \<or> x \<in> set ''-_.~$&+,/:;=@''"
  using of_char_256 [of c] upper_hex_alnum [of "of_char c div 16"] upper_hex_alnum [of "of_char c mod 16"]
  by (auto simp: escape_path_char_def shouldEscape_def less_mult_imp_div_less split: if_splits)

lemma escaped_no:
  "x \<in> set (concat (map escape_path_char p)) \<Longrightarrow> x \<noteq> CHR ''#'' \<and> x \<noteq> CHR ''?'' \<and> \<not> is_ctl x"
  by (auto simp: is_alnum_def is_ctl_def Let_def dest!: escaped_chars)

lemma before_absent: "c \<notin> set s \<Longrightarrow> before c s = s"
  unfolding before_def by (rule takeWhile_eq_all_conv [THEN iffD2]) auto

lemma after_first_absent: "c \<notin> set s \<Longrightarrow> after_first c s = []"
  unfolding after_first_def by (metis (mono_tags, lifting) drop_Nil dropWhile_eq_Nil_conv)

text \<open>
  A path that starts with one slash, the kind the server writes into its answers, comes back
  unchanged from the URL it is written as, whatever bytes it holds.
\<close>

theorem href_round_trip:
  assumes "p = CHR ''/'' # q" and "\<not> HasPrefix q ''/''"
  shows "Href_UnmarshalText authority (Href_MarshalText p) = Some p"
proof -
  define e where "e = concat (map escape_path_char p)"
  have ne: "p \<noteq> ''*''" using assms(1) by simp
  have e: "e = CHR ''/'' # concat (map escape_path_char q)"
    by (simp add: e_def assms(1) escape_path_char_def shouldEscape_def)
  have s: "Href_MarshalText p = e"
    using ne e by (simp add: Href_MarshalText_def Href_String_def EscapedPath_def Let_def before_def flip: e_def)
  have no: "CHR ''#'' \<notin> set e" "CHR ''?'' \<notin> set e" "\<not> list_ex is_ctl e"
    using escaped_no [of _ p] unfolding e_def list_ex_iff by blast+
  have g: "getScheme e = Some ([], e)" by (simp add: e getScheme_def scheme_char_def is_alnum_def)
  have q: "\<not> HasPrefix (concat (map escape_path_char q)) ''/''"
  proof (cases q)
    case (Cons c q')
    then have "c \<noteq> CHR ''/''" using assms(2) by (auto simp: HasPrefix_def)
    then have "hd (escape_path_char c) \<noteq> CHR ''/''" "escape_path_char c \<noteq> []" by (simp_all add: escape_path_char_def)
    then show ?thesis by (cases "escape_path_char c") (auto simp: Cons HasPrefix_def)
  qed (simp add: HasPrefix_def)
  have p: "HasPrefix e ''/''" "\<not> HasPrefix e ''//''" using q by (simp_all add: e HasPrefix_def)
  have "e \<noteq> ''*''" by (simp add: e)
  then show ?thesis
    using no g p unescape_escape_path [of p]
    by (simp add: Href_UnmarshalText_def s url_Parse_def before_absent after_first_absent Let_def e_def [symmetric])
qed

text \<open>A multiget for an object whose name needs escapes.\<close>

theorem href_round_trip_witness:
  "Href_MarshalText ''/dav/calendars/ada/home/50% off?.ics'' = ''/dav/calendars/ada/home/50%25%20off%3F.ics'' \<and>
   Href_UnmarshalText (\<lambda>_. False) (Href_MarshalText ''/dav/calendars/ada/home/50% off?.ics'') =
     Some ''/dav/calendars/ada/home/50% off?.ics''"
proof
  show "Href_MarshalText ''/dav/calendars/ada/home/50% off?.ics'' = ''/dav/calendars/ada/home/50%25%20off%3F.ics''"
    by code_simp
  show "Href_UnmarshalText (\<lambda>_. False) (Href_MarshalText ''/dav/calendars/ada/home/50% off?.ics'') =
      Some ''/dav/calendars/ada/home/50% off?.ics''"
    by (rule href_round_trip [where q = "''dav/calendars/ada/home/50% off?.ics''"]) (simp_all add: HasPrefix_def)
qed

end
