(* ===== verification/DateFormat.thy ===== *)
theory DateFormat
  imports GoTime
begin

text \<open>
  The two time layouts of the DAV layer: \<open>http.TimeFormat\<close>, which dates are written in, and
  \<open>20060102T150405Z\<close>, which the bounds of a time range are read in, as \<open>time.Parse\<close> reads it: a
  fraction after the seconds is accepted, and dropped where a time is counted in seconds.
\<close>

definition month_names :: "string list" where
  "month_names = [''Jan'', ''Feb'', ''Mar'', ''Apr'', ''May'', ''Jun'', ''Jul'', ''Aug'', ''Sep'', ''Oct'', ''Nov'', ''Dec'']"

definition weekday_names :: "string list" where
  "weekday_names = [''Sun'', ''Mon'', ''Tue'', ''Wed'', ''Thu'', ''Fri'', ''Sat'']"

definition http_time :: "time \<Rightarrow> string" where
  "http_time t =
     (case civil_of_days (t div 86400) of (y, m, d) \<Rightarrow>
        let s = t mod 86400 in
        weekday_names ! nat ((t div 86400 + 4) mod 7) @ '', '' @ pad 2 (FormatInt d) @ '' '' @
        month_names ! nat (m - 1) @ '' '' @ year_text y @ '' '' @
        pad 2 (FormatInt (s div 3600)) @ '':'' @ pad 2 (FormatInt (s div 60 mod 60)) @ '':'' @
        pad 2 (FormatInt (s mod 60)) @ '' GMT'')"

definition is_leap :: "int \<Rightarrow> bool" where
  "is_leap y = (y mod 4 = 0 \<and> (y mod 100 \<noteq> 0 \<or> y mod 400 = 0))"

definition daysIn :: "int \<Rightarrow> int \<Rightarrow> int" where
  "daysIn m y = (if m = 2 then (if is_leap y then 29 else 28) else if m \<in> {4, 6, 9, 11} then 30 else 31)"

text \<open>Exactly \<open>n\<close> digits, and \<open>getnum\<close> without the fixed width: one or two.\<close>

definition take_digits :: "nat \<Rightarrow> string \<Rightarrow> (int \<times> string) option" where
  "take_digits n s = (if length s < n then None else map_option (\<lambda>v. (int v, drop n s)) (digits_val 0 (take n s)))"

definition getnum :: "string \<Rightarrow> (int \<times> string) option" where
  "getnum s =
     (case s of
        [] \<Rightarrow> None
      | c # t \<Rightarrow>
          (case digit_val c of
             None \<Rightarrow> None
           | Some a \<Rightarrow>
               (case t of
                  [] \<Rightarrow> Some (int a, [])
                | d # u \<Rightarrow> (case digit_val d of None \<Rightarrow> Some (int a, t) | Some b \<Rightarrow> Some (int (10 * a + b), u)))))"

text \<open>The nanoseconds of a fraction after the seconds, of which nine digits count, and the rest.\<close>

definition take_fraction :: "string \<Rightarrow> int \<times> string" where
  "take_fraction s =
     (case s of
        c # d # t \<Rightarrow>
          if (c = CHR ''.'' \<or> c = CHR '','') \<and> is_digit d then
            (let ds = take 9 (takeWhile is_digit (d # t))
             in (foldl (\<lambda>a c. 10 * a + int (the (digit_val c))) 0 (ds @ replicate (9 - length ds) (CHR ''0'')), dropWhile is_digit (d # t)))
          else (0, s)
      | _ \<Rightarrow> (0, s))"

definition parse_instant :: "string \<Rightarrow> instant option" where
  "parse_instant s =
     (case take_digits 4 s of None \<Rightarrow> None | Some (y, s) \<Rightarrow>
      case take_digits 2 s of None \<Rightarrow> None | Some (mo, s) \<Rightarrow>
      case take_digits 2 s of None \<Rightarrow> None | Some (d, s) \<Rightarrow>
      case CutPrefix s ''T'' of None \<Rightarrow> None | Some s \<Rightarrow>
      case getnum s of None \<Rightarrow> None | Some (h, s) \<Rightarrow>
      case take_digits 2 s of None \<Rightarrow> None | Some (mi, s) \<Rightarrow>
      case take_digits 2 s of None \<Rightarrow> None | Some (sec, s) \<Rightarrow>
        (case take_fraction s of (ns, s) \<Rightarrow>
         if s = ''Z'' \<and> 1 \<le> mo \<and> mo \<le> 12 \<and> h < 24 \<and> mi < 60 \<and> sec < 60 \<and> 1 \<le> d \<and> d \<le> daysIn mo y
         then Some (Date y mo d (h * 3600 + mi * 60 + sec) * second + ns) else None))"

definition parse_utc :: "string \<Rightarrow> time option" where
  "parse_utc s = map_option (\<lambda>t. t div second) (parse_instant s)"

text \<open>Samples of both layouts: the epoch, a leap day, a fraction of a second.\<close>

lemma http_time_samples:
  "http_time 0 = ''Thu, 01 Jan 1970 00:00:00 GMT''"
  "http_time 1709210096 = ''Thu, 29 Feb 2024 12:34:56 GMT''"
  by code_simp+

lemma parse_utc_samples:
  "parse_utc ''20240229T123456Z'' = Some 1709210096"
  "parse_utc ''20230229T123456Z'' = None"
  "parse_utc ''20240229T093456.5Z'' = Some 1709199296"
  "parse_utc (format_utc 1709210096) = Some 1709210096"
  by code_simp+

end
