(* ===== verification/Elements.thy ===== *)
theory Elements
  imports Xml NetUrl DateFormat
begin

text \<open>
  \<open>internal/dav/internal/elements.go\<close>: the elements of WebDAV. A type that is only written is the
  function from its fields to the element \<open>encoding/xml\<close> writes for it; a type that is read is a record
  with a function that reads it, field by field as \<open>encoding/xml\<close> does: the attributes first, then the
  children in order, each handed to the field of its name, which it overwrites (a string) or extends
  (a slice, a pointer). \<open>None\<close> is a decoding error. A tag without a name space is written without one, so
  that the element is in that of the element around it; when read it matches in any name space, but a
  type that declares its own name refuses an element of another.
\<close>

section \<open>How encoding/xml reads and writes a struct\<close>

fun read_fields :: "('f \<Rightarrow> 'a \<Rightarrow> 'a option) \<Rightarrow> 'f list \<Rightarrow> 'a \<Rightarrow> 'a option" where
  "read_fields f [] a = Some a"
| "read_fields f (x # xs) a = (case f x a of None \<Rightarrow> None | Some b \<Rightarrow> read_fields f xs b)"

lemma read_fields_cong [fundef_cong]:
  "xs = ys \<Longrightarrow> a = b \<Longrightarrow> (\<And>x c. x \<in> set ys \<Longrightarrow> f x c = g x c) \<Longrightarrow> read_fields f xs a = read_fields g ys b"
proof -
  assume "\<And>x c. x \<in> set ys \<Longrightarrow> f x c = g x c"
  then have "read_fields f ys c = read_fields g ys c" for c by (induction ys arbitrary: c) (auto split: option.splits)
  then show "xs = ys \<Longrightarrow> a = b \<Longrightarrow> read_fields f xs a = read_fields g ys b" by simp
qed

text \<open>The character data directly inside an element; the element children, which \<open>,any\<close> collects.\<close>

fun char_data :: "raw list \<Rightarrow> string" where
  "char_data [] = []"
| "char_data (Tok (CharData s) # cs) = s @ char_data cs"
| "char_data (_ # cs) = char_data cs"

definition any_elements :: "raw list \<Rightarrow> raw list" where
  "any_elements cs = filter (\<lambda>c. XMLName c \<noteq> None) cs"

fun raw_children :: "raw \<Rightarrow> raw list" where
  "raw_children (Elem n a cs) = cs"
| "raw_children _ = []"

fun raw_attrs :: "raw \<Rightarrow> xattrs" where
  "raw_attrs (Elem n a cs) = a"
| "raw_attrs _ = []"

fun local_name :: "raw \<Rightarrow> string option" where
  "local_name (Elem n a cs) = Some (snd n)"
| "local_name _ = None"

definition in_ns :: "string \<Rightarrow> raw \<Rightarrow> bool" where
  "in_ns ns c = (case XMLName c of None \<Rightarrow> False | Some n \<Rightarrow> fst n = ns)"

text \<open>\<open>strconv.ParseUint\<close> of a \<open>uint\<close> field: no text is zero.\<close>

definition read_uint :: "string \<Rightarrow> int option" where
  "read_uint s =
     (if s = [] then Some 0
      else let t = TrimSpace s in
        if t = [] then None
        else case digits_val 0 t of None \<Rightarrow> None | Some n \<Rightarrow> if int n < 2 ^ 64 then Some (int n) else None)"

text \<open>Text is left out where it is empty.\<close>

definition text_of :: "string \<Rightarrow> raw list" where
  "text_of s = (if s = [] then [] else [Tok (CharData s)])"

lemma char_data_text [simp]: "char_data (text_of s) = s"
  by (simp add: text_of_def)

section \<open>Names\<close>

definition Namespace :: string where "Namespace = ''DAV:''"

abbreviation dav :: "string \<Rightarrow> xname" where "dav l \<equiv> (Namespace, l)"

abbreviation ResourceTypeName where "ResourceTypeName \<equiv> dav ''resourcetype''"
abbreviation DisplayNameName where "DisplayNameName \<equiv> dav ''displayname''"
abbreviation GetContentLengthName where "GetContentLengthName \<equiv> dav ''getcontentlength''"
abbreviation GetContentTypeName where "GetContentTypeName \<equiv> dav ''getcontenttype''"
abbreviation GetLastModifiedName where "GetLastModifiedName \<equiv> dav ''getlastmodified''"
abbreviation GetETagName where "GetETagName \<equiv> dav ''getetag''"
abbreviation CollectionName where "CollectionName \<equiv> dav ''collection''"
abbreviation PrincipalName where "PrincipalName \<equiv> dav ''principal''"
abbreviation SyncCollectionName where "SyncCollectionName \<equiv> dav ''sync-collection''"
abbreviation SyncTokenName where "SyncTokenName \<equiv> dav ''sync-token''"
abbreviation SupportedReportSetName where "SupportedReportSetName \<equiv> dav ''supported-report-set''"
abbreviation CurrentUserPrincipalName where "CurrentUserPrincipalName \<equiv> dav ''current-user-principal''"
abbreviation CurrentUserPrivilegeSetName where "CurrentUserPrivilegeSetName \<equiv> dav ''current-user-privilege-set''"

section \<open>Property values\<close>

definition xmlNamesToRaw :: "xname list \<Rightarrow> raw list" where
  "xmlNamesToRaw names = map (\<lambda>n. NewRawXMLElement n [] []) names"

definition Href_el :: "xname \<Rightarrow> string \<Rightarrow> raw" where
  "Href_el n path = Elem n [] (text_of (Href_MarshalText path))"

definition NewResourceType :: "xname list \<Rightarrow> raw" where
  "NewResourceType names = Elem ResourceTypeName [] (xmlNamesToRaw names)"

definition GetContentLength :: "int \<Rightarrow> raw" where
  "GetContentLength n = Elem GetContentLengthName [] (text_of (FormatInt n))"

definition GetContentType :: "string \<Rightarrow> raw" where
  "GetContentType t = Elem GetContentTypeName [] (text_of t)"

definition Time_MarshalText :: "time \<Rightarrow> string" where
  "Time_MarshalText t = http_time t"

definition GetLastModified :: "time \<Rightarrow> raw" where
  "GetLastModified t = Elem GetLastModifiedName [] (text_of (Time_MarshalText t))"

definition GetETag :: "string \<Rightarrow> raw" where
  "GetETag e = Elem GetETagName [] (text_of (ETag_String e))"

definition DisplayName :: "string \<Rightarrow> raw" where
  "DisplayName n = Elem DisplayNameName [] (text_of n)"

definition CurrentUserPrincipal_el :: "string \<Rightarrow> raw" where
  "CurrentUserPrincipal_el path = Elem CurrentUserPrincipalName [] [Href_el (dav ''href'') path]"

definition Privilege :: "bool \<Rightarrow> bool \<Rightarrow> raw" where
  "Privilege read write =
     Elem (dav ''privilege'') []
       ((if read then [Elem (dav ''read'') [] []] else []) @ (if write then [Elem (dav ''write'') [] []] else []))"

definition CurrentUserPrivilegeSet :: "raw list \<Rightarrow> raw" where
  "CurrentUserPrivilegeSet ps = Elem CurrentUserPrivilegeSetName [] ps"

definition SyncToken :: "string \<Rightarrow> raw" where
  "SyncToken t = Elem SyncTokenName [] (text_of t)"

definition ReportContainer :: "raw list \<Rightarrow> raw" where
  "ReportContainer rs = Elem (dav ''report'') [] rs"

definition SupportedReport :: "raw \<Rightarrow> raw" where
  "SupportedReport r = Elem (dav ''supported-report'') [] [r]"

definition NewSupportedReportSet :: "xname list \<Rightarrow> raw" where
  "NewSupportedReportSet names =
     Elem SupportedReportSetName []
       (map (\<lambda>n. SupportedReport (ReportContainer [NewRawXMLElement n [] []])) names)"

definition Error_el :: "raw list \<Rightarrow> raw" where
  "Error_el rs = Elem (dav ''error'') [] rs"

definition Location_el :: "string \<Rightarrow> raw" where
  "Location_el path = Elem (dav ''location'') [] [Href_el (dav ''href'') path]"

section \<open>Properties by name\<close>

fun Prop_Get :: "raw list \<Rightarrow> xname \<Rightarrow> raw option" where
  "Prop_Get [] name = None"
| "Prop_Get (r # rs) name = (if XMLName r = Some name then Some r else Prop_Get rs name)"

text \<open>\<open>Prop.Decode\<close>: a value that is not there is a 404, one that does not decode a plain error.\<close>

definition Prop_Decode :: "xname \<Rightarrow> (raw \<Rightarrow> 'a option) \<Rightarrow> raw list \<Rightarrow> http_error + 'a" where
  "Prop_Decode name dec p =
     (case Prop_Get p name of
        None \<Rightarrow> Inl (HTTPError StatusNotFound)
      | Some r \<Rightarrow> (case dec r of None \<Rightarrow> Inl PlainError | Some a \<Rightarrow> Inr a))"

definition ResourceType_Is :: "raw list \<Rightarrow> xname \<Rightarrow> bool" where
  "ResourceType_Is rs name = list_ex (\<lambda>r. XMLName r = Some name) rs"

section \<open>Responses\<close>

record PropStat =
  ps_Prop :: "raw list"
  ps_Status :: Status
  ps_ResponseDescription :: string
  ps_Error :: "raw list option"

record Response =
  rs_Hrefs :: "string list"
  rs_PropStats :: "PropStat list"
  rs_ResponseDescription :: string
  rs_Status :: "Status option"
  rs_Error :: "raw list option"
  rs_Location :: "string option"

record MultiStatus =
  ms_Responses :: "Response list"
  ms_ResponseDescription :: string
  ms_SyncToken :: string

definition NewMultiStatus :: "Response list \<Rightarrow> MultiStatus" where
  "NewMultiStatus resps = \<lparr>ms_Responses = resps, ms_ResponseDescription = [], ms_SyncToken = []\<rparr>"

definition status_of :: "nat \<Rightarrow> Status" where
  "status_of code = \<lparr>st_Code = int code, st_Text = []\<rparr>"

definition bare_response :: "string \<Rightarrow> Response" where
  "bare_response path =
     \<lparr>rs_Hrefs = [path], rs_PropStats = [], rs_ResponseDescription = [], rs_Status = None, rs_Error = None, rs_Location = None\<rparr>"

definition NewOKResponse :: "string \<Rightarrow> Response" where
  "NewOKResponse path = (bare_response path)\<lparr>rs_Status := Some (status_of StatusOK)\<rparr>"

text \<open>The element an error is rendered as, when it carries one; its text is the parameter \<open>txt\<close>.\<close>

fun error_element :: "http_error \<Rightarrow> raw list option" where
  "error_element (DAVError c name) = Some [NewRawXMLElement (dav name) [] []]"
| "error_element _ = None"

definition NewErrorResponse :: "(http_error \<Rightarrow> string) \<Rightarrow> string \<Rightarrow> http_error \<Rightarrow> Response" where
  "NewErrorResponse txt path err =
     (bare_response path)\<lparr>rs_Status := Some (status_of (HTTPErrorFromError err)),
       rs_ResponseDescription := txt err, rs_Error := error_element err\<rparr>"

text \<open>A value joins the first group of its status, or starts a new one at the end.\<close>

fun encode_prop :: "nat \<Rightarrow> raw \<Rightarrow> PropStat list \<Rightarrow> PropStat list" where
  "encode_prop code v [] =
     [\<lparr>ps_Prop = [EncodeRawXMLElement v], ps_Status = status_of code, ps_ResponseDescription = [], ps_Error = None\<rparr>]"
| "encode_prop code v (p # ps) =
     (if st_Code (ps_Status p) = int code then p\<lparr>ps_Prop := ps_Prop p @ [EncodeRawXMLElement v]\<rparr> # ps
      else p # encode_prop code v ps)"

definition EncodeProp :: "nat \<Rightarrow> raw \<Rightarrow> Response \<Rightarrow> Response" where
  "EncodeProp code v resp = resp\<lparr>rs_PropStats := encode_prop code v (rs_PropStats resp)\<rparr>"

text \<open>The error a response reports: its status and its error element; \<open>Path\<close> and \<open>DecodeProp\<close> rest on it.\<close>

definition Response_Err :: "Response \<Rightarrow> (int \<times> raw list option) option" where
  "Response_Err resp =
     (case rs_Status resp of
        None \<Rightarrow> None
      | Some s \<Rightarrow> if st_Code s div 100 = 2 then None else Some (st_Code s, rs_Error resp))"

datatype client_error = ResponseError "int \<times> raw list option" | MalformedResponse | StatusError int | MissingProperty | DecodeFailed

definition Response_Path :: "Response \<Rightarrow> string \<times> client_error option" where
  "Response_Path resp =
     (let err = map_option ResponseError (Response_Err resp) in
      case rs_Hrefs resp of
        [h] \<Rightarrow> (h, err)
      | _ \<Rightarrow> ([], Some (case err of None \<Rightarrow> MalformedResponse | Some e \<Rightarrow> e)))"

fun decode_propstats :: "xname \<Rightarrow> (raw \<Rightarrow> 'a option) \<Rightarrow> PropStat list \<Rightarrow> client_error + 'a" where
  "decode_propstats name dec [] = Inl MissingProperty"
| "decode_propstats name dec (p # ps) =
     (case Prop_Get (ps_Prop p) name of
        None \<Rightarrow> decode_propstats name dec ps
      | Some r \<Rightarrow>
          if Status_Err (Some (ps_Status p)) \<noteq> None then Inl (StatusError (st_Code (ps_Status p)))
          else (case dec r of None \<Rightarrow> Inl DecodeFailed | Some a \<Rightarrow> Inr a))"

text \<open>The loop over the values returns after the first of them; the others stay as they were.\<close>

definition DecodeProp :: "(xname \<times> (raw \<Rightarrow> 'a option)) list \<Rightarrow> Response \<Rightarrow> client_error + 'a list" where
  "DecodeProp wanted resp =
     (case wanted of
        [] \<Rightarrow> Inr []
      | (name, dec) # _ \<Rightarrow>
          (case Response_Err resp of
             Some e \<Rightarrow> Inl (ResponseError e)
           | None \<Rightarrow> mapE id (map_ok (\<lambda>ps. decode_propstats name dec ps) [rs_PropStats resp])))"

section \<open>What is written of a response\<close>

definition opt_text :: "string \<Rightarrow> string \<Rightarrow> raw list" where
  "opt_text name s = (if s = [] then [] else [Elem (dav name) [] (text_of s)])"

definition Status_el :: "(int \<Rightarrow> string) \<Rightarrow> Status \<Rightarrow> raw" where
  "Status_el StatusText s = Elem (dav ''status'') [] (text_of (Status_MarshalText StatusText s))"

definition PropStat_el :: "(int \<Rightarrow> string) \<Rightarrow> PropStat \<Rightarrow> raw" where
  "PropStat_el StatusText p =
     Elem (dav ''propstat'') []
       ([Elem (dav ''prop'') [] (ps_Prop p), Status_el StatusText (ps_Status p)] @
        opt_text ''responsedescription'' (ps_ResponseDescription p) @
        (case ps_Error p of None \<Rightarrow> [] | Some e \<Rightarrow> [Error_el e]))"

definition Response_el :: "(int \<Rightarrow> string) \<Rightarrow> Response \<Rightarrow> raw" where
  "Response_el StatusText r =
     Elem (dav ''response'') []
       (map (Href_el (dav ''href'')) (rs_Hrefs r) @ map (PropStat_el StatusText) (rs_PropStats r) @
        opt_text ''responsedescription'' (rs_ResponseDescription r) @
        (case rs_Status r of None \<Rightarrow> [] | Some s \<Rightarrow> [Status_el StatusText s]) @
        (case rs_Error r of None \<Rightarrow> [] | Some e \<Rightarrow> [Error_el e]) @
        (case rs_Location r of None \<Rightarrow> [] | Some l \<Rightarrow> [Location_el l]))"

definition MultiStatus_el :: "(int \<Rightarrow> string) \<Rightarrow> MultiStatus \<Rightarrow> raw" where
  "MultiStatus_el StatusText ms =
     Elem (dav ''multistatus'') []
       (map (Response_el StatusText) (ms_Responses ms) @
        opt_text ''responsedescription'' (ms_ResponseDescription ms) @ opt_text ''sync-token'' (ms_SyncToken ms))"

end
