(* ===== verification/Mime.thy ===== *)
theory Mime
  imports Prelude
begin

text \<open>
  \<open>mime.ParseMediaType\<close> of Go's standard library, which decides how the body of a request is read:
  the media type it returns and whether it also returns an error. A malformed parameter is an error
  that still yields the type; a parameter given twice with different values is one that does not.
\<close>

definition is_tspecial :: "char \<Rightarrow> bool" where
  "is_tspecial c = (c \<in> set ''()<>@,;:/[]?='' \<or> c = DQUOTE \<or> c = BACKSLASH)"

definition is_token_char :: "char \<Rightarrow> bool" where
  "is_token_char c = (let n = (of_char c :: nat) in 32 < n \<and> n < 127 \<and> \<not> is_tspecial c)"

definition consumeToken :: "string \<Rightarrow> string \<times> string" where
  "consumeToken v = (takeWhile is_token_char v, dropWhile is_token_char v)"

text \<open>The inside of a quoted string, up to its closing quote; \<open>None\<close> when there is none.\<close>

fun quoted :: "string \<Rightarrow> (string \<times> string) option" where
  "quoted [] = None"
| "quoted (c # s) =
     (if c = DQUOTE then Some ([], s)
      else case s of
        d # t \<Rightarrow>
          if c = BACKSLASH \<and> is_tspecial d then map_option (\<lambda>(v, r). (d # v, r)) (quoted t)
          else if is_crlf c then None
          else map_option (\<lambda>(v, r). (c # v, r)) (quoted s)
      | [] \<Rightarrow> None)"

definition consumeValue :: "string \<Rightarrow> string \<times> string" where
  "consumeValue v =
     (case v of
        [] \<Rightarrow> ([], [])
      | c # s \<Rightarrow> if c \<noteq> DQUOTE then consumeToken v else (case quoted s of None \<Rightarrow> ([], v) | Some vr \<Rightarrow> vr))"

text \<open>One \<open>; key=value\<close>; \<open>None\<close> is the empty key of the code.\<close>

definition consumeMediaParam :: "string \<Rightarrow> (string \<times> string \<times> string) option" where
  "consumeMediaParam v =
     (case dropWhile is_space v of
        c # s \<Rightarrow>
          if c \<noteq> CHR '';'' then None
          else (case consumeToken (dropWhile is_space s) of (param, s) \<Rightarrow>
             if param = [] then None
             else (case dropWhile is_space s of
                d # s \<Rightarrow>
                  if d \<noteq> CHR ''='' then None
                  else (let s = dropWhile is_space s; (value', rest) = consumeValue s
                        in if value' = [] \<and> rest = s then None else Some (ToLower param, value', rest))
              | [] \<Rightarrow> None))
      | [] \<Rightarrow> None)"

datatype media_error = MediaDuplicate | MediaInvalid

text \<open>The loop over the parameters; every turn consumes at least the semicolon, so the length is fuel enough.\<close>

fun media_params :: "nat \<Rightarrow> (string \<times> string) list \<Rightarrow> string \<Rightarrow> media_error option" where
  "media_params 0 seen v = None"
| "media_params (Suc n) seen v =
     (let v = dropWhile is_space v in
      if v = [] then None
      else case consumeMediaParam v of
             None \<Rightarrow> if TrimSpace v = '';'' then None else Some MediaInvalid
           | Some (key, value', rest) \<Rightarrow>
               (case map_of seen key of
                  Some w \<Rightarrow> if w \<noteq> value' then Some MediaDuplicate else media_params n seen rest
                | None \<Rightarrow> media_params n ((key, value') # seen) rest))"

definition checkMediaType :: "string \<Rightarrow> bool" where
  "checkMediaType s =
     (case consumeToken s of (typ, rest) \<Rightarrow>
        typ \<noteq> [] \<and>
        (rest = [] \<or>
         (HasPrefix rest ''/'' \<and>
          (case consumeToken (drop 1 rest) of (sub, rest) \<Rightarrow> sub \<noteq> [] \<and> rest = []))))"

definition ParseMediaType :: "string \<Rightarrow> string \<times> bool" where
  "ParseMediaType v =
     (let base = takeWhile (\<lambda>c. c \<noteq> CHR '';'') v;
          params = dropWhile (\<lambda>c. c \<noteq> CHR '';'') v;
          mediatype = TrimSpace (ToLower base)
      in if \<not> checkMediaType mediatype then ([], True)
         else case media_params (Suc (length params)) [] params of
                None \<Rightarrow> (mediatype, False)
              | Some MediaInvalid \<Rightarrow> (mediatype, True)
              | Some MediaDuplicate \<Rightarrow> ([], True))"

lemma quoted_length: "quoted s = Some (v, r) \<Longrightarrow> length r < length s"
proof (induction s arbitrary: v r rule: quoted.induct)
  case (2 c s)
  show ?case
  proof (cases "c = DQUOTE")
    case True
    then show ?thesis using 2(3) by simp
  next
    case False
    then obtain d t where s: "s = d # t" using 2(3) by (cases s) auto
    show ?thesis
    proof (cases "c = BACKSLASH \<and> is_tspecial d")
      case True
      then obtain v' where "quoted t = Some (v', r)" using 2(3) False s by auto
      then show ?thesis using 2(1) [OF False s True] s by fastforce
    next
      case no: False
      then obtain v' where "quoted s = Some (v', r)" "\<not> is_crlf c" using 2(3) False s by (auto split: if_splits)
      then show ?thesis using 2(2) [OF False s no] by fastforce
    qed
  qed
qed simp

lemma consumeValue_length: "consumeValue v = (x, r) \<Longrightarrow> length r \<le> length v"
proof (cases v)
  case (Cons c s)
  moreover assume "consumeValue v = (x, r)"
  ultimately show ?thesis
    using quoted_length [of s x r] length_dropWhile_le [of is_token_char v]
    by (auto simp: consumeValue_def consumeToken_def simp del: dropWhile.simps split: if_splits option.splits)
qed (auto simp: consumeValue_def)

lemma consumeMediaParam_length: "consumeMediaParam v = Some (k, x, r) \<Longrightarrow> length r < length v"
proof -
  assume a: "consumeMediaParam v = Some (k, x, r)"
  then obtain c s where s: "dropWhile is_space v = c # s"
    by (auto simp: consumeMediaParam_def split: list.splits)
  obtain d t where t: "dropWhile is_space (dropWhile is_token_char (dropWhile is_space s)) = d # t"
    using a s by (auto simp: consumeMediaParam_def consumeToken_def split: list.splits if_splits)
  have "consumeValue (dropWhile is_space t) = (x, r)"
    using a s t by (auto simp: consumeMediaParam_def consumeToken_def Let_def split: list.splits if_splits prod.splits)
  then have "length r \<le> length t" using consumeValue_length length_dropWhile_le le_trans by blast
  moreover have "Suc (length t) \<le> length s" using t length_dropWhile_le le_trans length_Cons by metis
  moreover have "Suc (length s) \<le> length v" using s length_dropWhile_le length_Cons by metis
  ultimately show ?thesis by simp
qed

text \<open>More fuel than the bytes of the parameters changes nothing.\<close>

lemma media_params_fuel: "length v < n \<Longrightarrow> length v < m \<Longrightarrow> media_params n seen v = media_params m seen v"
proof (induction n arbitrary: m seen v)
  case (Suc n)
  then obtain k where m: "m = Suc k" by (cases m) auto
  have "length r < length v" if "consumeMediaParam (dropWhile is_space v) = Some (key, x, r)" for key x r
    using consumeMediaParam_length [OF that] length_dropWhile_le [of is_space v] by simp
  then have "media_params n seen' r = media_params k seen' r"
    if "consumeMediaParam (dropWhile is_space v) = Some (key, x, r)" for key x r seen'
    using Suc m that by (metis Suc_less_eq less_trans_Suc less_SucE not_less_eq)
  then show ?case by (simp add: m Let_def split: option.splits)
qed simp

lemma media_type_xml [simp]: "ParseMediaType ''text/xml; charset=utf-8'' = (''text/xml'', False)"
  by code_simp

end
