(* ===== verification/Webdav.thy ===== *)
theory Webdav
  imports Elements Mime
begin

text \<open>
  \<open>internal/dav/internal/server.go\<close>: one WebDAV request from its headers and body to the answer, over
  a backend that is a record of functions. A backend reads a state \<open>'s\<close>; the operations that may write
  return it. The request carries whatever its context holds (\<open>'c\<close>). What the code takes from
  \<open>encoding/xml\<close> and \<open>net/http\<close> beyond the definitions of this library is the record \<open>env\<close>: what the XML
  decoder makes of a document, which URL authorities are well-formed, the text of a status and of an
  error.
\<close>

section \<open>Requests and answers\<close>

datatype xml_read = Doc raw | Malformed | Truncated

record env =
  e_xml :: "string \<Rightarrow> xml_read"
  e_authority :: "string \<Rightarrow> bool"
  e_StatusText :: "int \<Rightarrow> string"
  e_txt :: "http_error \<Rightarrow> string"

text \<open>\<open>net/http\<close> hands the handler canonical header names, and \<open>http.NoBody\<close> where there is no body.\<close>

record 'c request =
  rq_Method :: string
  rq_Path :: string
  rq_Header :: "(string \<times> string) list"
  rq_Body :: "string option"
  rq_Context :: 'c

definition Get :: "string \<Rightarrow> 'c request \<Rightarrow> string" where
  "Get k r = (case map_of (rq_Header r) k of None \<Rightarrow> [] | Some v \<Rightarrow> v)"

text \<open>
  \<open>http.ResponseWriter\<close>: the header map, and, from the first \<open>WriteHeader\<close> on, the status and the copy
  of the header map that go out. A body is a list of chunks.
\<close>

datatype chunk = XmlHeader | Document raw | Text string

record rw =
  rw_Header :: "(string \<times> string) list"
  rw_Status :: "nat option"
  rw_Sent :: "(string \<times> string) list"
  rw_Body :: "chunk list"

definition new_rw :: rw where
  "new_rw = \<lparr>rw_Header = [], rw_Status = None, rw_Sent = [], rw_Body = []\<rparr>"

definition header_Add :: "string \<Rightarrow> string \<Rightarrow> rw \<Rightarrow> rw" where
  "header_Add k v w = w\<lparr>rw_Header := rw_Header w @ [(k, v)]\<rparr>"

definition header_Del :: "string \<Rightarrow> rw \<Rightarrow> rw" where
  "header_Del k w = w\<lparr>rw_Header := filter (\<lambda>h. fst h \<noteq> k) (rw_Header w)\<rparr>"

definition header_Set :: "string \<Rightarrow> string \<Rightarrow> rw \<Rightarrow> rw" where
  "header_Set k v w = header_Add k v (header_Del k w)"

definition WriteHeader :: "nat \<Rightarrow> rw \<Rightarrow> rw" where
  "WriteHeader code w = (if rw_Status w = None then w\<lparr>rw_Status := Some code, rw_Sent := rw_Header w\<rparr> else w)"

definition Write :: "chunk \<Rightarrow> rw \<Rightarrow> rw" where
  "Write b w = (let w = WriteHeader StatusOK w in w\<lparr>rw_Body := rw_Body w @ [b]\<rparr>)"

definition http_Error :: "string \<Rightarrow> nat \<Rightarrow> rw \<Rightarrow> rw" where
  "http_Error msg code w =
     Write (Text msg) (WriteHeader code
       (header_Set ''X-Content-Type-Options'' ''nosniff''
         (header_Set ''Content-Type'' ''text/plain; charset=utf-8'' (header_Del ''Content-Length'' w))))"

text \<open>The encoder refuses an element without a name; then nothing of the document is written.\<close>

fun encodable :: "raw \<Rightarrow> bool" where
  "encodable (Elem n a cs) = (snd n \<noteq> [] \<and> list_all encodable cs)"
| "encodable (Tok t) = True"
| "encodable (Out v) = encodable v"

definition ServeXML :: "raw \<Rightarrow> rw \<Rightarrow> (http_error + unit) \<times> rw" where
  "ServeXML v w =
     (let w = Write XmlHeader (header_Add ''Content-Type'' ''application/xml; charset=\"utf-8\"'' w)
      in if encodable v then (Inr (), Write (Document (written v)) w) else (Inl PlainError, w))"

definition ServeError :: "env \<Rightarrow> http_error \<Rightarrow> rw \<Rightarrow> rw" where
  "ServeError E err w =
     (case error_element err of
        Some els \<Rightarrow> snd (ServeXML (Error_el els) (WriteHeader (HTTPErrorFromError err) w))
      | None \<Rightarrow> http_Error (e_txt E err) (HTTPErrorFromError err) w)"

definition ServeMultiStatus :: "env \<Rightarrow> MultiStatus \<Rightarrow> rw \<Rightarrow> (http_error + unit) \<times> rw" where
  "ServeMultiStatus E ms w = ServeXML (MultiStatus_el (e_StatusText E) ms) (WriteHeader StatusMultiStatus w)"

section \<open>Request bodies\<close>

definition isContentXML :: "'c request \<Rightarrow> bool" where
  "isContentXML r = (let t = fst (ParseMediaType (Get ''Content-Type'' r)) in t = ''application/xml'' \<or> t = ''text/xml'')"

definition MaxRequestBody :: nat where "MaxRequestBody = 8388608"

definition IsRequestBodyEmpty :: "'c request \<Rightarrow> bool" where
  "IsRequestBodyEmpty r = (rq_Body r = None)"

text \<open>
  The decoder reads as far as the end of the document element; it meets the limit only when that
  lies beyond it.
\<close>

definition DecodeXMLRequest :: "env \<Rightarrow> (raw \<Rightarrow> 'a option) \<Rightarrow> 'c request \<Rightarrow> http_error + 'a" where
  "DecodeXMLRequest E dec r =
     (if \<not> isContentXML r then Inl (HTTPError StatusBadRequest)
      else let body = (case rq_Body r of None \<Rightarrow> [] | Some b \<Rightarrow> b) in
        case e_xml E (take MaxRequestBody body) of
          Malformed \<Rightarrow> Inl (HTTPError StatusBadRequest)
        | Truncated \<Rightarrow>
            if length body > MaxRequestBody then Inl (HTTPError StatusRequestEntityTooLarge)
            else Inl (HTTPError StatusBadRequest)
        | Doc d \<Rightarrow> (case dec d of None \<Rightarrow> Inl (HTTPError StatusBadRequest) | Some a \<Rightarrow> Inr a))"

text \<open>\<open>PropFind\<close>; the elements without content are flags.\<close>

record PropFind =
  fd_Prop :: "raw list option"
  fd_AllProp :: bool
  fd_Include :: "raw list option"
  fd_PropName :: bool

definition no_propfind :: PropFind where
  "no_propfind = \<lparr>fd_Prop = None, fd_AllProp = False, fd_Include = None, fd_PropName = False\<rparr>"

definition extend_prop :: "raw list option \<Rightarrow> raw \<Rightarrow> raw list option" where
  "extend_prop old c = Some ((case old of None \<Rightarrow> [] | Some l \<Rightarrow> l) @ any_elements (raw_children c))"

definition PropFind_field :: "raw \<Rightarrow> PropFind \<Rightarrow> PropFind option" where
  "PropFind_field c pf =
     (let n = local_name c in
      if n = Some ''prop'' then (if in_ns Namespace c then Some (pf\<lparr>fd_Prop := extend_prop (fd_Prop pf) c\<rparr>) else None)
      else if n = Some ''allprop'' then Some (pf\<lparr>fd_AllProp := True\<rparr>)
      else if n = Some ''include'' then
        (if in_ns Namespace c then Some (pf\<lparr>fd_Include := extend_prop (fd_Include pf) c\<rparr>) else None)
      else if n = Some ''propname'' then Some (pf\<lparr>fd_PropName := True\<rparr>)
      else Some pf)"

definition PropFind_Unmarshal :: "raw \<Rightarrow> PropFind option" where
  "PropFind_Unmarshal r =
     (if XMLName r = Some (dav ''propfind'') then read_fields PropFind_field (raw_children r) no_propfind else None)"

definition NewPropNamePropFind :: "xname list \<Rightarrow> PropFind" where
  "NewPropNamePropFind names = no_propfind\<lparr>fd_Prop := Some (xmlNamesToRaw names)\<rparr>"

text \<open>A \<open>Prop\<close> field with the name of its element, which stays empty when the element is missing.\<close>

type_synonym prop_fields = "xname \<times> raw list"

definition prop_field :: "raw \<Rightarrow> prop_fields \<Rightarrow> prop_fields option" where
  "prop_field c p =
     (if local_name c = Some ''prop'' then
        (if in_ns Namespace c then Some (dav ''prop'', snd p @ any_elements (raw_children c)) else None)
      else Some p)"

record PropertyUpdate =
  up_Remove :: "prop_fields list"
  up_Set :: "prop_fields list"

definition update_entry :: "raw \<Rightarrow> prop_fields option" where
  "update_entry c = (if in_ns Namespace c then read_fields prop_field (raw_children c) (([], []), []) else None)"

definition PropertyUpdate_field :: "raw \<Rightarrow> PropertyUpdate \<Rightarrow> PropertyUpdate option" where
  "PropertyUpdate_field c u =
     (let n = local_name c in
      if n = Some ''remove'' then map_option (\<lambda>p. u\<lparr>up_Remove := up_Remove u @ [p]\<rparr>) (update_entry c)
      else if n = Some ''set'' then map_option (\<lambda>p. u\<lparr>up_Set := up_Set u @ [p]\<rparr>) (update_entry c)
      else Some u)"

definition PropertyUpdate_Unmarshal :: "raw \<Rightarrow> PropertyUpdate option" where
  "PropertyUpdate_Unmarshal r =
     (if XMLName r = Some (dav ''propertyupdate'')
      then read_fields PropertyUpdate_field (raw_children r) \<lparr>up_Remove = [], up_Set = []\<rparr> else None)"

record SyncCollectionQuery =
  sc_SyncToken :: string
  sc_Limit :: "int option"
  sc_SyncLevel :: string
  sc_Prop :: "raw list option"

text \<open>\<open>Limit\<close>, of the name space \<open>ns\<close>: its \<open>nresults\<close>.\<close>

definition limit_field :: "raw \<Rightarrow> int \<Rightarrow> int option" where
  "limit_field c n = (if local_name c = Some ''nresults'' then read_uint (char_data (raw_children c)) else Some n)"

definition read_limit :: "string \<Rightarrow> raw \<Rightarrow> int option \<Rightarrow> int option option" where
  "read_limit ns c old =
     (if in_ns ns c then map_option Some (read_fields limit_field (raw_children c) (case old of None \<Rightarrow> 0 | Some l \<Rightarrow> l))
      else None)"

definition SyncCollectionQuery_field :: "raw \<Rightarrow> SyncCollectionQuery \<Rightarrow> SyncCollectionQuery option" where
  "SyncCollectionQuery_field c q =
     (let n = local_name c in
      if n = Some ''sync-token'' then Some (q\<lparr>sc_SyncToken := char_data (raw_children c)\<rparr>)
      else if n = Some ''limit'' then map_option (\<lambda>l. q\<lparr>sc_Limit := l\<rparr>) (read_limit Namespace c (sc_Limit q))
      else if n = Some ''sync-level'' then Some (q\<lparr>sc_SyncLevel := char_data (raw_children c)\<rparr>)
      else if n = Some ''prop'' then
        (if in_ns Namespace c then Some (q\<lparr>sc_Prop := extend_prop (sc_Prop q) c\<rparr>) else None)
      else Some q)"

definition SyncCollectionQuery_Unmarshal :: "raw \<Rightarrow> SyncCollectionQuery option" where
  "SyncCollectionQuery_Unmarshal r =
     (if XMLName r = Some SyncCollectionName
      then read_fields SyncCollectionQuery_field (raw_children r)
        \<lparr>sc_SyncToken = [], sc_Limit = None, sc_SyncLevel = [], sc_Prop = None\<rparr>
      else None)"

section \<open>The answer to a PROPFIND\<close>

type_synonym PropFindFunc = "raw \<Rightarrow> http_error + raw"

definition PropFindValue :: "raw \<Rightarrow> PropFindFunc" where
  "PropFindValue v = (\<lambda>_. Inr v)"

text \<open>
  The map of the properties a resource has is the list of its entries in the order Go happens to
  iterate over them. An answer is a status and a value.
\<close>

definition with_resourcetype :: "(xname \<times> PropFindFunc) list \<Rightarrow> (xname \<times> PropFindFunc) list" where
  "with_resourcetype props =
     (if map_of props ResourceTypeName = None then props @ [(ResourceTypeName, PropFindValue (NewResourceType []))] else props)"

definition all_answer :: "xname \<times> PropFindFunc \<Rightarrow> nat \<times> raw" where
  "all_answer p =
     (let emptyVal = NewRawXMLElement (fst p) [] [] in
      case snd p emptyVal of Inl e \<Rightarrow> (HTTPErrorFromError e, emptyVal) | Inr v \<Rightarrow> (StatusOK, v))"

definition prop_answer :: "(xname \<times> PropFindFunc) list \<Rightarrow> raw \<Rightarrow> xname \<Rightarrow> nat \<times> raw" where
  "prop_answer props r name =
     (let emptyVal = NewRawXMLElement name [] [] in
      case map_of props name of
        None \<Rightarrow> (StatusNotFound, emptyVal)
      | Some f \<Rightarrow> (case f r of Inl e \<Rightarrow> (HTTPErrorFromError e, emptyVal) | Inr v \<Rightarrow> (StatusOK, v)))"

fun encode_all :: "(nat \<times> raw) list \<Rightarrow> Response \<Rightarrow> Response" where
  "encode_all [] resp = resp"
| "encode_all ((code, v) # as) resp = encode_all as (EncodeProp code v resp)"

fun requested :: "(xname \<times> PropFindFunc) list \<Rightarrow> raw list \<Rightarrow> (nat \<times> raw) list" where
  "requested props [] = []"
| "requested props (r # rs) =
     (case XMLName r of None \<Rightarrow> requested props rs | Some name \<Rightarrow> prop_answer props r name # requested props rs)"

definition NewPropFindResponse ::
    "string \<Rightarrow> PropFind \<Rightarrow> (xname \<times> PropFindFunc) list \<Rightarrow> http_error + Response" where
  "NewPropFindResponse path pf props =
     (let resp = bare_response path; props = with_resourcetype props in
      if fd_PropName pf then
        Inr (encode_all (map (\<lambda>p. (StatusOK, NewRawXMLElement (fst p) [] [])) props) resp)
      else if fd_AllProp pf then Inr (encode_all (map all_answer props) resp)
      else case fd_Prop pf of
             Some raws \<Rightarrow> Inr (encode_all (requested props raws) resp)
           | None \<Rightarrow> Inl (HTTPError StatusBadRequest))"

section \<open>The handler\<close>

record ('c, 's) backend =
  b_Options :: "'c request \<Rightarrow> 's \<Rightarrow> http_error + string list \<times> string list"
  b_HeadGet :: "'c request \<Rightarrow> rw \<Rightarrow> 's \<Rightarrow> (http_error + unit) \<times> rw"
  b_PropFind :: "'c request \<Rightarrow> PropFind \<Rightarrow> Depth \<Rightarrow> 's \<Rightarrow> http_error + MultiStatus"
  b_PropPatch :: "'c request \<Rightarrow> PropertyUpdate \<Rightarrow> 's \<Rightarrow> http_error + Response"
  b_Put :: "'c request \<Rightarrow> rw \<Rightarrow> 's \<Rightarrow> ((http_error + unit) \<times> rw) \<times> 's"
  b_Delete :: "'c request \<Rightarrow> 's \<Rightarrow> (http_error + unit) \<times> 's"
  b_Mkcol :: "'c request \<Rightarrow> 's \<Rightarrow> (http_error + unit) \<times> 's"
  b_Copy :: "'c request \<Rightarrow> string \<Rightarrow> bool \<Rightarrow> bool \<Rightarrow> 's \<Rightarrow> (http_error + bool) \<times> 's"
  b_Move :: "'c request \<Rightarrow> string \<Rightarrow> bool \<Rightarrow> 's \<Rightarrow> (http_error + bool) \<times> 's"

definition handleOptions :: "('c, 's) backend \<Rightarrow> 'c request \<Rightarrow> rw \<Rightarrow> 's \<Rightarrow> (http_error + unit) \<times> rw" where
  "handleOptions B r w s =
     (case b_Options B r s of
        Inl e \<Rightarrow> (Inl e, w)
      | Inr (caps, allow) \<Rightarrow>
          (Inr (), WriteHeader StatusNoContent
             (header_Add ''Allow'' (Join '', '' allow) (header_Add ''DAV'' (Join '', '' ([''1'', ''3''] @ caps)) w))))"

definition header_depth :: "'c request \<Rightarrow> Depth option" where
  "header_depth r = (let s = Get ''Depth'' r in if s \<noteq> [] then ParseDepth s else Some DepthInfinity)"

definition handlePropfind :: "env \<Rightarrow> ('c, 's) backend \<Rightarrow> 'c request \<Rightarrow> rw \<Rightarrow> 's \<Rightarrow> (http_error + unit) \<times> rw" where
  "handlePropfind E B r w s =
     (case bindE (if IsRequestBodyEmpty r then Inr (no_propfind\<lparr>fd_AllProp := True\<rparr>)
                  else if isContentXML r then DecodeXMLRequest E PropFind_Unmarshal r
                  else Inl (HTTPError StatusBadRequest)) (\<lambda>pf.
             case header_depth r of
               None \<Rightarrow> Inl (HTTPError StatusBadRequest)
             | Some depth \<Rightarrow> b_PropFind B r pf depth s) of
        Inl e \<Rightarrow> (Inl e, w)
      | Inr ms \<Rightarrow> ServeMultiStatus E ms w)"

definition handleProppatch :: "env \<Rightarrow> ('c, 's) backend \<Rightarrow> 'c request \<Rightarrow> rw \<Rightarrow> 's \<Rightarrow> (http_error + unit) \<times> rw" where
  "handleProppatch E B r w s =
     (case bindE (DecodeXMLRequest E PropertyUpdate_Unmarshal r) (\<lambda>u. b_PropPatch B r u s) of
        Inl e \<Rightarrow> (Inl e, w)
      | Inr resp \<Rightarrow> ServeMultiStatus E (NewMultiStatus [resp]) w)"

definition parseDestination :: "env \<Rightarrow> 'c request \<Rightarrow> http_error + string" where
  "parseDestination E r =
     (let h = Get ''Destination'' r in
      if h = [] then Inl (HTTPError StatusBadRequest)
      else case url_Parse (e_authority E) h of None \<Rightarrow> Inl (HTTPError StatusBadRequest) | Some p \<Rightarrow> Inr p)"

text \<open>The errors of the two header parsers are returned as they are, without a status.\<close>

definition handleCopyMove ::
    "env \<Rightarrow> ('c, 's) backend \<Rightarrow> 'c request \<Rightarrow> rw \<Rightarrow> 's \<Rightarrow> ((http_error + unit) \<times> rw) \<times> 's" where
  "handleCopyMove E B r w s =
     (case bindE (parseDestination E r) (\<lambda>dest.
             bindE (let o' = Get ''Overwrite'' r in
                    if o' \<noteq> [] then (case ParseOverwrite o' of None \<Rightarrow> Inl PlainError | Some b \<Rightarrow> Inr b) else Inr True) (\<lambda>overwrite.
               case header_depth r of None \<Rightarrow> Inl PlainError | Some depth \<Rightarrow> Inr (dest, overwrite, depth))) of
        Inl e \<Rightarrow> ((Inl e, w), s)
      | Inr (dest, overwrite, depth) \<Rightarrow>
          (case (if rq_Method r = ''COPY'' then
                   (case depth of
                      DepthZero \<Rightarrow> b_Copy B r dest False overwrite s
                    | DepthOne \<Rightarrow> (Inl (HTTPError StatusBadRequest), s)
                    | DepthInfinity \<Rightarrow> b_Copy B r dest True overwrite s)
                 else if depth \<noteq> DepthInfinity then (Inl (HTTPError StatusBadRequest), s)
                 else b_Move B r dest overwrite s) of
             (Inl e, s) \<Rightarrow> ((Inl e, w), s)
           | (Inr created, s) \<Rightarrow> ((Inr (), WriteHeader (if created then StatusCreated else StatusNoContent) w), s)))"

definition ok_status :: "nat \<Rightarrow> (http_error + unit) \<times> 's \<Rightarrow> rw \<Rightarrow> ((http_error + unit) \<times> rw) \<times> 's" where
  "ok_status code res w =
     (case res of (Inl e, s) \<Rightarrow> ((Inl e, w), s) | (Inr _, s) \<Rightarrow> ((Inr (), WriteHeader code w), s))"

definition dispatch ::
    "env \<Rightarrow> ('c, 's) backend \<Rightarrow> 'c request \<Rightarrow> rw \<Rightarrow> 's \<Rightarrow> ((http_error + unit) \<times> rw) \<times> 's" where
  "dispatch E B r w s =
     (let m = rq_Method r in
      if m = ''OPTIONS'' then (handleOptions B r w s, s)
      else if m = ''GET'' \<or> m = ''HEAD'' then (b_HeadGet B r w s, s)
      else if m = ''PUT'' then b_Put B r w s
      else if m = ''DELETE'' then ok_status StatusNoContent (b_Delete B r s) w
      else if m = ''PROPFIND'' then (handlePropfind E B r w s, s)
      else if m = ''PROPPATCH'' then (handleProppatch E B r w s, s)
      else if m = ''MKCOL'' then ok_status StatusCreated (b_Mkcol B r s) w
      else if m = ''COPY'' \<or> m = ''MOVE'' then handleCopyMove E B r w s
      else ((Inl (HTTPError StatusMethodNotAllowed), w), s))"

definition ServeHTTP :: "env \<Rightarrow> ('c, 's) backend option \<Rightarrow> 'c request \<Rightarrow> rw \<Rightarrow> 's \<Rightarrow> rw \<times> 's" where
  "ServeHTTP E B r w s =
     (case B of
        None \<Rightarrow> (ServeError E PlainError w, s)
      | Some B \<Rightarrow>
          (case dispatch E B r w s of
             ((Inl e, w), s) \<Rightarrow> (ServeError E e w, s)
           | ((Inr _, w), s) \<Rightarrow> (w, s)))"

end
