(* ===== verification/ServerBase.thy ===== *)
theory ServerBase
  imports Webdav CalBackend
begin

text \<open>
  What the two protocol handlers (\<open>internal/dav/caldav/server.go\<close>, \<open>internal/dav/carddav/server.go\<close>)
  share: the server they belong to, with the parameters of the model gathered in a record, the request
  context, \<open>path.Clean\<close>, the limit on a body and the redirect of \<open>net/http\<close>.
\<close>

text \<open>
  The environment, the libraries of the backends, the paths, the time of the request, the encoders
  of go-ical and go-vcard for an object that carries no bytes.
\<close>

record server =
  sv_env :: env
  sv_lib :: lib
  sv_paths :: Paths
  sv_now :: int
  sv_enc_cal :: "comp option \<Rightarrow> string option"
  sv_enc_card :: "Card \<Rightarrow> string option"

type_synonym dav_request = "user option request"

text \<open>\<open>path.Clean\<close>: the stack of segments is kept in reverse.\<close>

fun clean_segments :: "bool \<Rightarrow> string list \<Rightarrow> string list \<Rightarrow> string list" where
  "clean_segments rooted acc [] = rev acc"
| "clean_segments rooted acc (s # ss) =
     (if s = [] \<or> s = ''.'' then clean_segments rooted acc ss
      else if s = ''..'' then
        (case acc of
           [] \<Rightarrow> clean_segments rooted (if rooted then [] else [''..'']) ss
         | t # acc' \<Rightarrow> if t = ''..'' then clean_segments rooted (''..'' # acc) ss else clean_segments rooted acc' ss)
      else clean_segments rooted (s # acc) ss)"

definition path_Clean :: "string \<Rightarrow> string" where
  "path_Clean p =
     (let rooted = HasPrefix p ''/''; segs = clean_segments rooted [] (Split (CHR ''/'') p);
          body = Join ''/'' segs
      in if rooted then ''/'' @ body else if body = [] then ''.'' else body)"

lemma path_Clean_samples:
  "path_Clean ''/dav//calendars/./ada/../bob/'' = ''/dav/calendars/bob''"
  "path_Clean ''/../..'' = ''/''" "path_Clean [] = ''.''" "path_Clean ''../a/../../b'' = ''../../b''"
  by code_simp+

text \<open>The classification of a path that the backend does not know: by the number of its segments.\<close>

definition rt_num :: "ResourceType \<Rightarrow> nat" where
  "rt_num t = (case t of ResourceTypeRoot \<Rightarrow> 0 | ResourceTypeUserPrincipal \<Rightarrow> 1 | ResourceTypeHomeSet \<Rightarrow> 2
     | ResourceTypeCollection \<Rightarrow> 3 | ResourceTypeObject \<Rightarrow> 4)"

definition by_segments :: "string \<Rightarrow> string \<Rightarrow> nat" where
  "by_segments prefix reqPath =
     (let p = TrimPrefix (path_Clean reqPath) prefix;
          p = (if HasPrefix p ''/'' then p else ''/'' @ p)
      in if p = ''/'' then 0 else length (Split (CHR ''/'') p) - 1)"

definition handler_prefix :: "server \<Rightarrow> string" where
  "handler_prefix S = TrimSuffix (Prefix (sv_paths S)) ''/''"

text \<open>\<open>io.ReadAll\<close> of a body behind \<open>http.MaxBytesReader\<close>; \<open>None\<close> is the limit.\<close>

definition read_body :: "int \<Rightarrow> 'c request \<Rightarrow> string option" where
  "read_body limit r =
     (let b = (case rq_Body r of None \<Rightarrow> [] | Some b \<Rightarrow> b) in if int (length b) > limit then None else Some b)"

text \<open>\<open>http.Redirect\<close> to a target that starts with a slash.\<close>

definition hexEscapeNonASCII :: "string \<Rightarrow> string" where
  "hexEscapeNonASCII s =
     concat (map (\<lambda>c. if of_char c < (128 :: nat) then [c]
                      else [CHR ''%'', hex_digit (of_char c div 16), hex_digit (of_char c mod 16)]) s)"

definition redirect_target :: "env \<Rightarrow> string \<Rightarrow> string" where
  "redirect_target E url =
     (if url_Parse (e_authority E) url = None \<or> HasPrefix url ''//'' then url
      else let p = before (CHR ''?'') url; query = dropWhile (\<lambda>c. c \<noteq> CHR ''?'') url; c = path_Clean p
           in (if HasSuffix p ''/'' \<and> \<not> HasSuffix c ''/'' then c @ ''/'' else c) @ query)"

definition http_Redirect :: "env \<Rightarrow> 'c request \<Rightarrow> string \<Rightarrow> nat \<Rightarrow> rw \<Rightarrow> rw" where
  "http_Redirect E r url code w =
     (let target = hexEscapeNonASCII (redirect_target E url);
          hadCT = (map_of (rw_Header w) ''Content-Type'' \<noteq> None);
          w = header_Set ''Location'' target w;
          w = (if \<not> hadCT \<and> (rq_Method r = ''GET'' \<or> rq_Method r = ''HEAD'')
               then header_Set ''Content-Type'' ''text/html; charset=utf-8'' w else w);
          w = WriteHeader code w
      in if \<not> hadCT \<and> rq_Method r = ''GET'' then Write (Text (redirect_target E url)) w else w)"

abbreviation StatusPermanentRedirect where "StatusPermanentRedirect \<equiv> 308 :: nat"
abbreviation StatusNotImplemented where "StatusNotImplemented \<equiv> 501 :: nat"

text \<open>The header fields of an object, set where the object has them.\<close>

definition set_if :: "bool \<Rightarrow> string \<Rightarrow> string \<Rightarrow> rw \<Rightarrow> rw" where
  "set_if b k v w = (if b then header_Set k v w else w)"

text \<open>The conversion \<open>int(x)\<close> of a \<open>uint\<close>.\<close>

definition go_int :: "int \<Rightarrow> int" where
  "go_int n = (if n < 2 ^ 63 then n else n - 2 ^ 64)"

end
