(* ===== verification/CalElements.thy ===== *)
theory CalElements
  imports Webdav CalMatch
begin

text \<open>
  \<open>internal/dav/caldav/elements.go\<close>: the elements of CalDAV, written and read as in \<open>Elements\<close>. The
  bodies of the three reports and of MKCOL are read into records of the same fields; what is repeated
  extends or overwrites as it does in Go.
\<close>

definition caldav_ns :: string where "caldav_ns = ''urn:ietf:params:xml:ns:caldav''"
definition carddav_ns :: string where "carddav_ns = ''urn:ietf:params:xml:ns:carddav''"

abbreviation cal :: "string \<Rightarrow> xname" where "cal l \<equiv> (caldav_ns, l)"

abbreviation calendarHomeSetName where "calendarHomeSetName \<equiv> cal ''calendar-home-set''"
abbreviation calendarDescriptionName where "calendarDescriptionName \<equiv> cal ''calendar-description''"
abbreviation calendarTimezoneName where "calendarTimezoneName \<equiv> cal ''calendar-timezone''"
abbreviation supportedCalendarDataName where "supportedCalendarDataName \<equiv> cal ''supported-calendar-data''"
abbreviation supportedCalendarComponentSetName where "supportedCalendarComponentSetName \<equiv> cal ''supported-calendar-component-set''"
abbreviation cal_maxResourceSizeName where "cal_maxResourceSizeName \<equiv> cal ''max-resource-size''"
abbreviation calendarQueryName where "calendarQueryName \<equiv> cal ''calendar-query''"
abbreviation calendarMultigetName where "calendarMultigetName \<equiv> cal ''calendar-multiget''"
abbreviation calendarName where "calendarName \<equiv> cal ''calendar''"
abbreviation calendarDataName where "calendarDataName \<equiv> cal ''calendar-data''"
abbreviation addressBookHomeSetName where "addressBookHomeSetName \<equiv> (carddav_ns, ''addressbook-home-set'')"

section \<open>Property values\<close>

text \<open>The tag of the address book home set names no name space for its \<open>href\<close>, so it has the one around it.\<close>

definition cal_addressbookHomeSet :: "string \<Rightarrow> raw" where
  "cal_addressbookHomeSet path = Elem addressBookHomeSetName [] [Href_el (carddav_ns, ''href'') path]"

definition calendarHomeSet :: "string \<Rightarrow> raw" where
  "calendarHomeSet path = Elem calendarHomeSetName [] [Href_el (dav ''href'') path]"

definition calendarTimezone :: "string \<Rightarrow> raw" where
  "calendarTimezone z = Elem calendarTimezoneName [] (text_of z)"

definition calendarDescription :: "string \<Rightarrow> raw" where
  "calendarDescription d = Elem calendarDescriptionName [] (text_of d)"

definition calendarDataType :: "string \<Rightarrow> string \<Rightarrow> raw" where
  "calendarDataType typ version =
     Elem calendarDataName [(([], ''content-type''), typ), (([], ''version''), version)] []"

definition supportedCalendarData :: "raw list \<Rightarrow> raw" where
  "supportedCalendarData types = Elem supportedCalendarDataName [] types"

definition comp_el :: "string \<Rightarrow> raw" where
  "comp_el name = Elem (cal ''comp'') [(([], ''name''), name)] []"

definition supportedCalendarComponentSet :: "raw list \<Rightarrow> raw" where
  "supportedCalendarComponentSet comps = Elem supportedCalendarComponentSetName [] comps"

definition cal_maxResourceSize :: "int \<Rightarrow> raw" where
  "cal_maxResourceSize n = Elem cal_maxResourceSizeName [] (text_of (FormatInt n))"

definition calendarDataResp :: "string \<Rightarrow> raw" where
  "calendarDataResp data = Elem calendarDataName [] (text_of data)"

section \<open>Filters\<close>

definition negateCondition :: "string \<Rightarrow> bool option" where
  "negateCondition s = (if s = ''yes'' then Some True else if s = ''no'' then Some False else None)"

definition dateWithUTCTime :: "string \<Rightarrow> time option" where
  "dateWithUTCTime b = parse_utc b"

record textMatch =
  tx_Text :: string
  tx_Collation :: string
  tx_NegateCondition :: bool

definition textMatch_attr :: "xname \<times> string \<Rightarrow> textMatch \<Rightarrow> textMatch option" where
  "textMatch_attr a t =
     (if snd (fst a) = ''collation'' then Some (t\<lparr>tx_Collation := snd a\<rparr>)
      else if snd (fst a) = ''negate-condition'' then map_option (\<lambda>b. t\<lparr>tx_NegateCondition := b\<rparr>) (negateCondition (snd a))
      else Some t)"

definition read_textMatch :: "raw \<Rightarrow> textMatch option \<Rightarrow> textMatch option option" where
  "read_textMatch c old =
     (if in_ns caldav_ns c then
        map_option (\<lambda>t. Some (t\<lparr>tx_Text := char_data (raw_children c)\<rparr>))
          (read_fields textMatch_attr (raw_attrs c)
            (case old of None \<Rightarrow> \<lparr>tx_Text = [], tx_Collation = [], tx_NegateCondition = False\<rparr> | Some t \<Rightarrow> t))
      else None)"

record timeRange =
  tr_Start :: time
  tr_End :: time

definition timeRange_attr :: "xname \<times> string \<Rightarrow> timeRange \<Rightarrow> timeRange option" where
  "timeRange_attr a t =
     (if snd (fst a) = ''start'' then map_option (\<lambda>v. t\<lparr>tr_Start := v\<rparr>) (dateWithUTCTime (snd a))
      else if snd (fst a) = ''end'' then map_option (\<lambda>v. t\<lparr>tr_End := v\<rparr>) (dateWithUTCTime (snd a))
      else Some t)"

definition read_timeRange :: "raw \<Rightarrow> timeRange option \<Rightarrow> timeRange option option" where
  "read_timeRange c old =
     (if in_ns caldav_ns c then
        map_option Some (read_fields timeRange_attr (raw_attrs c)
          (case old of None \<Rightarrow> \<lparr>tr_Start = zeroTime, tr_End = zeroTime\<rparr> | Some t \<Rightarrow> t))
      else None)"

record paramFilter =
  pr_Name :: string
  pr_IsNotDefined :: bool
  pr_TextMatch :: "textMatch option"

definition paramFilter_field :: "raw \<Rightarrow> paramFilter \<Rightarrow> paramFilter option" where
  "paramFilter_field c p =
     (let n = local_name c in
      if n = Some ''is-not-defined'' then Some (p\<lparr>pr_IsNotDefined := True\<rparr>)
      else if n = Some ''text-match'' then map_option (\<lambda>t. p\<lparr>pr_TextMatch := t\<rparr>) (read_textMatch c (pr_TextMatch p))
      else Some p)"

text \<open>\<open>name,attr\<close>: the last attribute of that local name, in whatever name space.\<close>

definition name_attr :: "raw \<Rightarrow> string" where
  "name_attr c = (case filter (\<lambda>a. snd (fst a) = ''name'') (raw_attrs c) of [] \<Rightarrow> [] | as \<Rightarrow> snd (last as))"

definition read_paramFilter :: "raw \<Rightarrow> paramFilter option" where
  "read_paramFilter c =
     (if in_ns caldav_ns c then
        read_fields paramFilter_field (raw_children c) \<lparr>pr_Name = name_attr c, pr_IsNotDefined = False, pr_TextMatch = None\<rparr>
      else None)"

record propFilter =
  pl_Name :: string
  pl_IsNotDefined :: bool
  pl_TimeRange :: "timeRange option"
  pl_TextMatch :: "textMatch option"
  pl_ParamFilter :: "paramFilter list"

definition propFilter_field :: "raw \<Rightarrow> propFilter \<Rightarrow> propFilter option" where
  "propFilter_field c p =
     (let n = local_name c in
      if n = Some ''is-not-defined'' then Some (p\<lparr>pl_IsNotDefined := True\<rparr>)
      else if n = Some ''time-range'' then map_option (\<lambda>t. p\<lparr>pl_TimeRange := t\<rparr>) (read_timeRange c (pl_TimeRange p))
      else if n = Some ''text-match'' then map_option (\<lambda>t. p\<lparr>pl_TextMatch := t\<rparr>) (read_textMatch c (pl_TextMatch p))
      else if n = Some ''param-filter'' then
        map_option (\<lambda>f. p\<lparr>pl_ParamFilter := pl_ParamFilter p @ [f]\<rparr>) (read_paramFilter c)
      else Some p)"

definition read_propFilter :: "raw \<Rightarrow> propFilter option" where
  "read_propFilter c =
     (if in_ns caldav_ns c then
        read_fields propFilter_field (raw_children c)
          \<lparr>pl_Name = name_attr c, pl_IsNotDefined = False, pl_TimeRange = None, pl_TextMatch = None, pl_ParamFilter = []\<rparr>
      else None)"

datatype compFilter = compFilter (ce_Name: string) (ce_IsNotDefined: bool) (ce_TimeRange: "timeRange option")
    (ce_PropFilters: "propFilter list") (ce_CompFilters: "compFilter list")

definition zero_compFilter :: compFilter where
  "zero_compFilter = compFilter [] False None [] []"

text \<open>Reading into a filter that may have been read into before: the field of the enclosing type is not a pointer.\<close>

fun read_compFilter :: "raw \<Rightarrow> compFilter \<Rightarrow> compFilter option" where
  "read_compFilter (Elem n a cs) f =
     (if fst n \<noteq> caldav_ns then None
      else read_fields (\<lambda>c f.
        case f of compFilter nm nd tr pfs cfs \<Rightarrow>
          (let l = local_name c in
           if l = Some ''is-not-defined'' then Some (compFilter nm True tr pfs cfs)
           else if l = Some ''time-range'' then map_option (\<lambda>t. compFilter nm nd t pfs cfs) (read_timeRange c tr)
           else if l = Some ''prop-filter'' then map_option (\<lambda>p. compFilter nm nd tr (pfs @ [p]) cfs) (read_propFilter c)
           else if l = Some ''comp-filter'' then
             map_option (\<lambda>g. compFilter nm nd tr pfs (cfs @ [g])) (read_compFilter c zero_compFilter)
           else Some f)) cs
        (case f of compFilter nm nd tr pfs cfs \<Rightarrow>
           compFilter (if list_ex (\<lambda>x. snd (fst x) = ''name'') a then name_attr (Elem n a cs) else nm) nd tr pfs cfs))"
| "read_compFilter _ f = None"

section \<open>Reports\<close>

record calendarQuery =
  qy_Prop :: "raw list option"
  qy_AllProp :: bool
  qy_PropName :: bool
  qy_CompFilter :: compFilter

definition filter_field :: "raw \<Rightarrow> compFilter \<Rightarrow> compFilter option" where
  "filter_field c f = (if local_name c = Some ''comp-filter'' then read_compFilter c f else Some f)"

definition calendarQuery_field :: "raw \<Rightarrow> calendarQuery \<Rightarrow> calendarQuery option" where
  "calendarQuery_field c q =
     (let n = XMLName c in
      if n = Some (dav ''prop'') then Some (q\<lparr>qy_Prop := extend_prop (qy_Prop q) c\<rparr>)
      else if n = Some (dav ''allprop'') then Some (q\<lparr>qy_AllProp := True\<rparr>)
      else if n = Some (dav ''propname'') then Some (q\<lparr>qy_PropName := True\<rparr>)
      else if local_name c = Some ''filter'' then
        (if in_ns caldav_ns c then
           map_option (\<lambda>f. q\<lparr>qy_CompFilter := f\<rparr>) (read_fields filter_field (raw_children c) (qy_CompFilter q))
         else None)
      else Some q)"

definition read_calendarQuery :: "raw \<Rightarrow> calendarQuery option" where
  "read_calendarQuery r =
     read_fields calendarQuery_field (raw_children r)
       \<lparr>qy_Prop = None, qy_AllProp = False, qy_PropName = False, qy_CompFilter = zero_compFilter\<rparr>"

record calendarMultiget =
  mg_Hrefs :: "string list"
  mg_Prop :: "raw list option"
  mg_AllProp :: bool
  mg_PropName :: bool

definition calendarMultiget_field :: "(string \<Rightarrow> bool) \<Rightarrow> raw \<Rightarrow> calendarMultiget \<Rightarrow> calendarMultiget option" where
  "calendarMultiget_field authority c q =
     (let n = XMLName c in
      if n = Some (dav ''href'') then
        map_option (\<lambda>h. q\<lparr>mg_Hrefs := mg_Hrefs q @ [h]\<rparr>) (Href_UnmarshalText authority (char_data (raw_children c)))
      else if n = Some (dav ''prop'') then Some (q\<lparr>mg_Prop := extend_prop (mg_Prop q) c\<rparr>)
      else if n = Some (dav ''allprop'') then Some (q\<lparr>mg_AllProp := True\<rparr>)
      else if n = Some (dav ''propname'') then Some (q\<lparr>mg_PropName := True\<rparr>)
      else Some q)"

definition read_calendarMultiget :: "(string \<Rightarrow> bool) \<Rightarrow> raw \<Rightarrow> calendarMultiget option" where
  "read_calendarMultiget authority r =
     read_fields (calendarMultiget_field authority) (raw_children r)
       \<lparr>mg_Hrefs = [], mg_Prop = None, mg_AllProp = False, mg_PropName = False\<rparr>"

record cal_reportReq =
  rr_Query :: "calendarQuery option"
  rr_Multiget :: "calendarMultiget option"
  rr_Sync :: "SyncCollectionQuery option"

definition cal_reportReq_Unmarshal :: "(string \<Rightarrow> bool) \<Rightarrow> raw \<Rightarrow> cal_reportReq option" where
  "cal_reportReq_Unmarshal authority r =
     (let none = \<lparr>rr_Query = None, rr_Multiget = None, rr_Sync = None\<rparr>; n = XMLName r in
      if n = Some calendarQueryName then map_option (\<lambda>q. none\<lparr>rr_Query := Some q\<rparr>) (read_calendarQuery r)
      else if n = Some calendarMultigetName then map_option (\<lambda>q. none\<lparr>rr_Multiget := Some q\<rparr>) (read_calendarMultiget authority r)
      else if n = Some SyncCollectionName then map_option (\<lambda>q. none\<lparr>rr_Sync := Some q\<rparr>) (SyncCollectionQuery_Unmarshal r)
      else None)"

section \<open>The calendar-data of a request\<close>

datatype comp_req = comp_req (cm_Name: string) (cm_Allprop: bool) (cm_Prop: "string list") (cm_Allcomp: bool) (cm_Comp: "comp_req list")

definition zero_comp_req :: comp_req where
  "zero_comp_req = comp_req [] False [] False []"

fun read_comp :: "raw \<Rightarrow> comp_req \<Rightarrow> comp_req option" where
  "read_comp (Elem n a cs) r =
     (if fst n \<noteq> caldav_ns then None
      else read_fields (\<lambda>c r.
        case r of comp_req nm ap ps ac comps \<Rightarrow>
          (let l = local_name c in
           if l = Some ''allprop'' then Some (comp_req nm True ps ac comps)
           else if l = Some ''prop'' then
             (if in_ns caldav_ns c then Some (comp_req nm ap (ps @ [name_attr c]) ac comps) else None)
           else if l = Some ''allcomp'' then Some (comp_req nm ap ps True comps)
           else if l = Some ''comp'' then
             map_option (\<lambda>x. comp_req nm ap ps ac (comps @ [x])) (read_comp c zero_comp_req)
           else Some r)) cs
        (case r of comp_req nm ap ps ac comps \<Rightarrow>
           comp_req (if list_ex (\<lambda>x. snd (fst x) = ''name'') a then name_attr (Elem n a cs) else nm) ap ps ac comps))"
| "read_comp _ r = None"

record calendarDataReq =
  dq_Comp :: "comp_req option"
  dq_Expand :: "timeRange option"

definition no_calendarDataReq :: calendarDataReq where
  "no_calendarDataReq = \<lparr>dq_Comp = None, dq_Expand = None\<rparr>"

definition calendarDataReq_field :: "raw \<Rightarrow> calendarDataReq \<Rightarrow> calendarDataReq option" where
  "calendarDataReq_field c d =
     (let n = local_name c in
      if n = Some ''comp'' then
        map_option (\<lambda>x. d\<lparr>dq_Comp := Some x\<rparr>) (read_comp c (case dq_Comp d of None \<Rightarrow> zero_comp_req | Some x \<Rightarrow> x))
      else if n = Some ''expand'' then map_option (\<lambda>x. d\<lparr>dq_Expand := x\<rparr>) (read_timeRange c (dq_Expand d))
      else Some d)"

definition calendarDataReq_Unmarshal :: "raw \<Rightarrow> calendarDataReq option" where
  "calendarDataReq_Unmarshal r = read_fields calendarDataReq_field (raw_children r) no_calendarDataReq"

section \<open>MKCOL\<close>

text \<open>The two fields are reached through \<open>set\<close> and \<open>prop\<close>, in whatever name space.\<close>

record cal_mkcolReq =
  mk_ResourceType :: "raw list"
  mk_DisplayName :: string

definition mkcol_field :: "raw \<Rightarrow> cal_mkcolReq \<Rightarrow> cal_mkcolReq option" where
  "mkcol_field c m =
     (let n = local_name c in
      if n = Some ''resourcetype'' then
        (if in_ns Namespace c then Some (m\<lparr>mk_ResourceType := mk_ResourceType m @ any_elements (raw_children c)\<rparr>) else None)
      else if n = Some ''displayname'' then Some (m\<lparr>mk_DisplayName := char_data (raw_children c)\<rparr>)
      else Some m)"

definition inside :: "string \<Rightarrow> (raw \<Rightarrow> 'a \<Rightarrow> 'a option) \<Rightarrow> raw \<Rightarrow> 'a \<Rightarrow> 'a option" where
  "inside l f c a = (if local_name c = Some l then read_fields f (raw_children c) a else Some a)"

definition cal_mkcolReq_Unmarshal :: "raw \<Rightarrow> cal_mkcolReq option" where
  "cal_mkcolReq_Unmarshal r =
     (if XMLName r = Some (dav ''mkcol'') then
        read_fields (inside ''set'' (inside ''prop'' mkcol_field)) (raw_children r) \<lparr>mk_ResourceType = [], mk_DisplayName = []\<rparr>
      else None)"

end
