(* ===== verification/CalServer.thy ===== *)
theory CalServer
  imports ServerBase CalElements "HOL-Library.AList"
begin

text \<open>
  \<open>internal/dav/caldav/server.go\<close>: the CalDAV handler. It decodes the three reports, classifies paths,
  and is the backend of the WebDAV handler (\<open>cal_backend\<close>), on the operations of the CalDAV backend of
  \<open>CalBackend\<close>. A call's context is the authenticated user.
\<close>

abbreviation ical_MIMEType :: string where "ical_MIMEType \<equiv> ''text/calendar''"

definition cal_PutOptions :: "'c request \<Rightarrow> PutOptions" where
  "cal_PutOptions r = \<lparr>IfNoneMatch = Get ''If-None-Match'' r, IfMatch = Get ''If-Match'' r\<rparr>"

section \<open>Decoding a report\<close>

definition cal_decodeParamFilter :: "paramFilter \<Rightarrow> http_error + ParamFilter" where
  "cal_decodeParamFilter el =
     (if pr_IsNotDefined el \<and> pr_TextMatch el \<noteq> None then Inl PlainError
      else Inr \<lparr>paf_Name = pr_Name el, paf_IsNotDefined = pr_IsNotDefined el,
                paf_TextMatch = map_option (\<lambda>t. \<lparr>tm_Text = tx_Text t, tm_NegateCondition = False\<rparr>) (pr_TextMatch el)\<rparr>)"

definition cal_decodePropFilter :: "propFilter \<Rightarrow> http_error + PropFilter" where
  "cal_decodePropFilter el =
     (if pl_IsNotDefined el \<and> (pl_TextMatch el \<noteq> None \<or> pl_TimeRange el \<noteq> None \<or> pl_ParamFilter el \<noteq> []) then Inl PlainError
      else bindE (map_ok cal_decodeParamFilter (pl_ParamFilter el)) (\<lambda>pfs.
        Inr \<lparr>pf_Name = pl_Name el, pf_IsNotDefined = pl_IsNotDefined el,
             pf_Start = (case pl_TimeRange el of None \<Rightarrow> zeroTime | Some t \<Rightarrow> tr_Start t),
             pf_End = (case pl_TimeRange el of None \<Rightarrow> zeroTime | Some t \<Rightarrow> tr_End t),
             pf_TextMatch = map_option (\<lambda>t. \<lparr>tm_Text = tx_Text t, tm_NegateCondition = False\<rparr>) (pl_TextMatch el),
             pf_ParamFilter = pfs\<rparr>))"

lemma bindE_fcong [fundef_cong]: "x = y \<Longrightarrow> (\<And>a. y = Inr a \<Longrightarrow> f a = g a) \<Longrightarrow> bindE x f = bindE y g"
  by (cases y) auto

fun decodeCompFilter :: "compFilter \<Rightarrow> http_error + CompFilter" where
  "decodeCompFilter (compFilter nm nd tr pfs cfs) =
     (if nd \<and> (tr \<noteq> None \<or> pfs \<noteq> [] \<or> cfs \<noteq> []) then Inl PlainError
      else bindE (map_ok cal_decodePropFilter pfs) (\<lambda>ps.
           bindE (map_ok decodeCompFilter cfs) (\<lambda>cs.
             Inr (CompFilter nm nd (case tr of None \<Rightarrow> zeroTime | Some t \<Rightarrow> tr_Start t)
                    (case tr of None \<Rightarrow> zeroTime | Some t \<Rightarrow> tr_End t) ps cs))))"

fun decodeComp :: "comp_req \<Rightarrow> http_error + CalendarCompRequest" where
  "decodeComp (comp_req nm allprop ps allcomp comps) =
     (if allprop \<and> ps \<noteq> [] then Inl (HTTPError StatusBadRequest)
      else if allcomp \<and> comps \<noteq> [] then Inl (HTTPError StatusBadRequest)
      else bindE (map_ok decodeComp comps) (\<lambda>cs. Inr (CalendarCompRequest [] allprop ps allcomp cs None)))"

definition decodeCalendarDataReq :: "calendarDataReq \<Rightarrow> http_error + CalendarCompRequest" where
  "decodeCalendarDataReq d =
     (case dq_Comp d of None \<Rightarrow> Inr (CalendarCompRequest [] True [] True [] None) | Some c \<Rightarrow> decodeComp c)"

definition zero_CompRequest :: CalendarCompRequest where
  "zero_CompRequest = CalendarCompRequest [] False [] False [] None"

text \<open>The calendar-data a report asks for; a \<open>prop\<close> without one asks for everything.\<close>

definition cal_dataReq :: "raw list option \<Rightarrow> http_error + CalendarCompRequest" where
  "cal_dataReq prop =
     (case prop of
        None \<Rightarrow> Inr zero_CompRequest
      | Some p \<Rightarrow>
          (case Prop_Decode calendarDataName calendarDataReq_Unmarshal p of
             Inr d \<Rightarrow> decodeCalendarDataReq d
           | Inl e \<Rightarrow> if \<not> IsNotFound e then Inl e else decodeCalendarDataReq no_calendarDataReq))"

section \<open>The properties of a resource\<close>

definition principal_prop :: "server \<Rightarrow> user option \<Rightarrow> xname \<times> PropFindFunc" where
  "principal_prop S ctx =
     (CurrentUserPrincipalName,
      (\<lambda>_. bindE (CurrentUserPrincipal (sv_paths S) ctx) (\<lambda>path. Inr (CurrentUserPrincipal_el path))))"

definition cal_propFindRoot :: "server \<Rightarrow> user option \<Rightarrow> PropFind \<Rightarrow> http_error + Response" where
  "cal_propFindRoot S ctx pf =
     bindE (CurrentUserPrincipal (sv_paths S) ctx) (\<lambda>principalPath.
       NewPropFindResponse principalPath pf
         [(CurrentUserPrincipalName, PropFindValue (CurrentUserPrincipal_el principalPath)),
          (ResourceTypeName, PropFindValue (NewResourceType [CollectionName]))])"

definition cal_propFindUserPrincipal :: "server \<Rightarrow> user option \<Rightarrow> PropFind \<Rightarrow> http_error + Response" where
  "cal_propFindUserPrincipal S ctx pf =
     bindE (CurrentUserPrincipal (sv_paths S) ctx) (\<lambda>principalPath.
     bindE (CalendarHomeSetPath (sv_paths S) ctx) (\<lambda>homeSetPath.
       let props =
             [(CurrentUserPrincipalName, PropFindValue (CurrentUserPrincipal_el principalPath)),
              (calendarHomeSetName, PropFindValue (calendarHomeSet homeSetPath)),
              (ResourceTypeName, PropFindValue (NewResourceType [CollectionName, PrincipalName]))];
           props =
             (case AddressBookHomeSetPath (sv_paths S) ctx of
                Inr path \<Rightarrow>
                  if path \<noteq> [] then AList.update addressBookHomeSetName (PropFindValue (cal_addressbookHomeSet path)) props
                  else props
              | Inl _ \<Rightarrow> props)
       in NewPropFindResponse principalPath pf props))"

definition cal_propFindHomeSet :: "server \<Rightarrow> user option \<Rightarrow> PropFind \<Rightarrow> http_error + Response" where
  "cal_propFindHomeSet S ctx pf =
     bindE (CurrentUserPrincipal (sv_paths S) ctx) (\<lambda>principalPath.
     bindE (CalendarHomeSetPath (sv_paths S) ctx) (\<lambda>homeSetPath.
       NewPropFindResponse homeSetPath pf
         [(CurrentUserPrincipalName, PropFindValue (CurrentUserPrincipal_el principalPath)),
          (ResourceTypeName, PropFindValue (NewResourceType [CollectionName]))]))"

text \<open>\<open>props[name] = value\<close> under a condition.\<close>

definition set_prop :: "bool \<Rightarrow> xname \<Rightarrow> raw \<Rightarrow> (xname \<times> PropFindFunc) list \<Rightarrow> (xname \<times> PropFindFunc) list" where
  "set_prop b name v props = (if b then AList.update name (PropFindValue v) props else props)"

definition cal_collection_props :: "server \<Rightarrow> user option \<Rightarrow> CalendarInfo \<Rightarrow> (xname \<times> PropFindFunc) list" where
  "cal_collection_props S ctx ca =
     set_prop (ca_MaxResourceSize ca > 0) cal_maxResourceSizeName (cal_maxResourceSize (ca_MaxResourceSize ca))
    (set_prop (ca_Description ca \<noteq> []) calendarDescriptionName (calendarDescription (ca_Description ca))
    (set_prop (ca_Name ca \<noteq> []) DisplayNameName (DisplayName (ca_Name ca))
    (set_prop (ca_Timezone ca \<noteq> []) calendarTimezoneName (calendarTimezone (ca_Timezone ca))
    (set_prop (ca_SyncToken ca \<noteq> []) SyncTokenName (SyncToken (ca_SyncToken ca))
       [principal_prop S ctx,
        (ResourceTypeName, PropFindValue (NewResourceType [CollectionName, calendarName])),
        (calendarDescriptionName, PropFindValue (calendarDescription (ca_Description ca))),
        (supportedCalendarDataName, PropFindValue (supportedCalendarData [calendarDataType ical_MIMEType ''2.0''])),
        (supportedCalendarComponentSetName,
         (\<lambda>_. Inr (supportedCalendarComponentSet
            (if ca_SupportedComponentSet ca \<noteq> [] then map comp_el (ca_SupportedComponentSet ca) else [comp_el ''VEVENT''])))),
        (CurrentUserPrivilegeSetName, PropFindValue (CurrentUserPrivilegeSet [Privilege True True])),
        (SupportedReportSetName,
         PropFindValue (NewSupportedReportSet [SyncCollectionName, calendarQueryName, calendarMultigetName]))]))))"

definition propFindCalendar :: "server \<Rightarrow> user option \<Rightarrow> PropFind \<Rightarrow> CalendarInfo \<Rightarrow> http_error + Response" where
  "propFindCalendar S ctx pf ca = NewPropFindResponse (ca_Path ca) pf (cal_collection_props S ctx ca)"

definition cal_object_props :: "server \<Rightarrow> user option \<Rightarrow> CalendarObject \<Rightarrow> (xname \<times> PropFindFunc) list" where
  "cal_object_props S ctx co =
     set_prop (co_ETag co \<noteq> []) GetETagName (GetETag (co_ETag co))
    (set_prop (\<not> IsZero (co_ModTime co)) GetLastModifiedName (GetLastModified (co_ModTime co))
    (set_prop (co_ContentLength co > 0) GetContentLengthName (GetContentLength (int (co_ContentLength co)))
       [principal_prop S ctx,
        (GetContentTypeName, PropFindValue (GetContentType ical_MIMEType)),
        (calendarDataName,
         (\<lambda>_. if co_Raw co \<noteq> [] then Inr (calendarDataResp (co_Raw co))
              else (case sv_enc_cal S (co_Data co) of None \<Rightarrow> Inl PlainError | Some b \<Rightarrow> Inr (calendarDataResp b))))]))"

definition propFindCalendarObject :: "server \<Rightarrow> user option \<Rightarrow> PropFind \<Rightarrow> CalendarObject \<Rightarrow> http_error + Response" where
  "propFindCalendarObject S ctx pf co = NewPropFindResponse (co_Path co) pf (cal_object_props S ctx co)"

definition propFindAllCalendarObjects ::
    "server \<Rightarrow> user option \<Rightarrow> PropFind \<Rightarrow> CalendarInfo \<Rightarrow> db \<Rightarrow> http_error + Response list" where
  "propFindAllCalendarObjects S ctx pf ca db =
     bindE (ListCalendarObjects (sv_lib S) (sv_paths S) ctx (ca_Path ca) (Some zero_CompRequest) db) (\<lambda>cos.
       map_ok (propFindCalendarObject S ctx pf) cos)"

definition propFindAllCalendars :: "server \<Rightarrow> user option \<Rightarrow> PropFind \<Rightarrow> bool \<Rightarrow> db \<Rightarrow> http_error + Response list" where
  "propFindAllCalendars S ctx pf recurse db =
     bindE (ListCalendars (sv_paths S) ctx db) (\<lambda>cas.
     bindE (map_ok (\<lambda>ca.
        bindE (propFindCalendar S ctx pf ca) (\<lambda>resp.
          if recurse then bindE (propFindAllCalendarObjects S ctx pf ca db) (\<lambda>resps. Inr (resp # resps)) else Inr [resp])) cas) (\<lambda>rss.
       Inr (concat rss)))"

section \<open>Reports\<close>

definition report_propfind :: "raw list option \<Rightarrow> bool \<Rightarrow> bool \<Rightarrow> PropFind" where
  "report_propfind prop allprop propname = \<lparr>fd_Prop = prop, fd_AllProp = allprop, fd_Include = None, fd_PropName = propname\<rparr>"

definition cal_handleQuery :: "server \<Rightarrow> dav_request \<Rightarrow> calendarQuery \<Rightarrow> db \<Rightarrow> http_error + MultiStatus" where
  "cal_handleQuery S r query db =
     bindE (decodeCompFilter (qy_CompFilter query)) (\<lambda>cf.
     bindE (QueryCalendarObjects (sv_lib S) (sv_paths S) (rq_Context r) (rq_Path r)
              (Some \<lparr>cq_CompRequest = zero_CompRequest, cq_CompFilter = cf\<rparr>) db) (\<lambda>cos.
     bindE (map_ok (propFindCalendarObject S (rq_Context r)
              (report_propfind (qy_Prop query) (qy_AllProp query) (qy_PropName query))) cos) (\<lambda>resps.
       Inr (NewMultiStatus resps))))"

text \<open>A removed member is a response of status 404 without properties.\<close>

definition gone_response :: "string \<Rightarrow> Response" where
  "gone_response path = (bare_response path)\<lparr>rs_Status := Some (status_of StatusNotFound)\<rparr>"

definition cal_handleSyncCollection :: "server \<Rightarrow> dav_request \<Rightarrow> SyncCollectionQuery \<Rightarrow> db \<Rightarrow> http_error + MultiStatus" where
  "cal_handleSyncCollection S r sync db =
     bindE (cal_dataReq (sc_Prop sync)) (\<lambda>dataReq.
     bindE (cal_SyncCollection (sv_lib S) (sv_paths S) (rq_Context r) (rq_Path r)
              (Some \<lparr>lsq_CompRequest = dataReq, lsq_SyncToken = sc_SyncToken sync,
                     lsq_Limit = (case sc_Limit sync of None \<Rightarrow> 0 | Some n \<Rightarrow> go_int n)\<rparr>) db) (\<lambda>resp.
     bindE (map_ok (propFindCalendarObject S (rq_Context r) (report_propfind (sc_Prop sync) False False)) (lsr_Updated resp)) (\<lambda>resps.
       Inr ((NewMultiStatus (resps @ map gone_response (lsr_Deleted resp)))\<lparr>ms_SyncToken := lsr_SyncToken resp\<rparr>))))"

definition cal_multiget_one ::
    "server \<Rightarrow> user option \<Rightarrow> calendarMultiget \<Rightarrow> CalendarCompRequest \<Rightarrow> db \<Rightarrow> string \<Rightarrow> http_error + Response" where
  "cal_multiget_one S ctx multiget dataReq db path =
     (case GetCalendarObject (sv_lib S) (sv_paths S) ctx path (Some dataReq) db of
        Inl e \<Rightarrow> Inr (NewErrorResponse (e_txt (sv_env S)) path e)
      | Inr co \<Rightarrow>
          propFindCalendarObject S ctx (report_propfind (mg_Prop multiget) (mg_AllProp multiget) (mg_PropName multiget)) co)"

definition cal_handleMultiget :: "server \<Rightarrow> dav_request \<Rightarrow> calendarMultiget \<Rightarrow> db \<Rightarrow> http_error + MultiStatus" where
  "cal_handleMultiget S r multiget db =
     bindE (cal_dataReq (mg_Prop multiget)) (\<lambda>dataReq.
     bindE (map_ok (cal_multiget_one S (rq_Context r) multiget dataReq db) (mg_Hrefs multiget)) (\<lambda>resps.
       Inr (NewMultiStatus resps)))"

definition cal_handleReport :: "server \<Rightarrow> dav_request \<Rightarrow> rw \<Rightarrow> db \<Rightarrow> (http_error + unit) \<times> rw" where
  "cal_handleReport S r w db =
     (case bindE (DecodeXMLRequest (sv_env S) (cal_reportReq_Unmarshal (e_authority (sv_env S))) r) (\<lambda>report.
             case rr_Query report of
               Some q \<Rightarrow> cal_handleQuery S r q db
             | None \<Rightarrow>
                 (case rr_Multiget report of
                    Some m \<Rightarrow> cal_handleMultiget S r m db
                  | None \<Rightarrow>
                      (case rr_Sync report of
                         Some s \<Rightarrow> cal_handleSyncCollection S r s db
                       | None \<Rightarrow> Inl (HTTPError StatusBadRequest)))) of
        Inl e \<Rightarrow> (Inl e, w)
      | Inr ms \<Rightarrow> ServeMultiStatus (sv_env S) ms w)"

section \<open>The backend of the WebDAV handler\<close>

definition cal_resourceTypeAtPath :: "server \<Rightarrow> string \<Rightarrow> nat" where
  "cal_resourceTypeAtPath S reqPath =
     (case cal_ResourceTypeAtPath (sv_paths S) reqPath of
        Some t \<Rightarrow> rt_num t
      | None \<Rightarrow> by_segments (handler_prefix S) reqPath)"

definition cal_Options :: "server \<Rightarrow> dav_request \<Rightarrow> db \<Rightarrow> http_error + string list \<times> string list" where
  "cal_Options S r db =
     (let caps = [''calendar-access''] in
      if cal_resourceTypeAtPath S (rq_Path r) \<noteq> rt_num ResourceTypeObject then
        Inr (caps, [''OPTIONS'', ''PROPFIND'', ''REPORT'', ''DELETE'', ''MKCOL''])
      else case GetCalendarObject (sv_lib S) (sv_paths S) (rq_Context r) (rq_Path r) (Some zero_CompRequest) db of
             Inl e \<Rightarrow> if IsNotFound e then Inr (caps, [''OPTIONS'', ''PUT'']) else Inl e
           | Inr _ \<Rightarrow> Inr (caps, [''OPTIONS'', ''HEAD'', ''GET'', ''PUT'', ''DELETE'', ''PROPFIND'']))"

definition cal_HeadGet :: "server \<Rightarrow> dav_request \<Rightarrow> rw \<Rightarrow> db \<Rightarrow> (http_error + unit) \<times> rw" where
  "cal_HeadGet S r w db =
     (let req = CalendarCompRequest [] (rq_Method r \<noteq> ''HEAD'') [] False [] None in
      case GetCalendarObject (sv_lib S) (sv_paths S) (rq_Context r) (rq_Path r) (Some req) db of
        Inl e \<Rightarrow> (Inl e, w)
      | Inr co \<Rightarrow>
          let w = header_Set ''Content-Type'' ical_MIMEType w;
              w = set_if (co_ContentLength co > 0) ''Content-Length'' (FormatInt (int (co_ContentLength co))) w;
              w = set_if (co_ETag co \<noteq> []) ''Etag'' (ETag_String (co_ETag co)) w;
              w = set_if (\<not> IsZero (co_ModTime co)) ''Last-Modified'' (http_time (co_ModTime co)) w
          in (Inr (), if rq_Method r \<noteq> ''HEAD'' then Write (Text (co_Raw co)) w else w))"

definition cal_PropFind :: "server \<Rightarrow> dav_request \<Rightarrow> PropFind \<Rightarrow> Depth \<Rightarrow> db \<Rightarrow> http_error + MultiStatus" where
  "cal_PropFind S r pf depth db =
     (let ctx = rq_Context r; t = cal_resourceTypeAtPath S (rq_Path r) in
      bindE
       (if t = rt_num ResourceTypeRoot then bindE (cal_propFindRoot S ctx pf) (\<lambda>resp. Inr [resp])
        else if t = rt_num ResourceTypeUserPrincipal then
          bindE (CurrentUserPrincipal (sv_paths S) ctx) (\<lambda>principalPath.
            if rq_Path r = principalPath then
              bindE (cal_propFindUserPrincipal S ctx pf) (\<lambda>resp.
                if depth \<noteq> DepthZero then
                  bindE (cal_propFindHomeSet S ctx pf) (\<lambda>home.
                    if depth = DepthInfinity then
                      bindE (propFindAllCalendars S ctx pf True db) (\<lambda>resps. Inr (resp # home # resps))
                    else Inr [resp, home])
                else Inr [resp])
            else Inr [])
        else if t = rt_num ResourceTypeHomeSet then
          bindE (CalendarHomeSetPath (sv_paths S) ctx) (\<lambda>homeSetPath.
            if rq_Path r = homeSetPath then
              bindE (cal_propFindHomeSet S ctx pf) (\<lambda>resp.
                if depth \<noteq> DepthZero then
                  bindE (propFindAllCalendars S ctx pf (depth = DepthInfinity) db) (\<lambda>resps. Inr (resp # resps))
                else Inr [resp])
            else Inr [])
        else if t = rt_num ResourceTypeCollection then
          bindE (GetCalendar (sv_paths S) ctx (rq_Path r) db) (\<lambda>ca.
          bindE (propFindCalendar S ctx pf ca) (\<lambda>resp.
            if depth \<noteq> DepthZero then bindE (propFindAllCalendarObjects S ctx pf ca db) (\<lambda>resps. Inr (resp # resps))
            else Inr [resp]))
        else if t = rt_num ResourceTypeObject then
          bindE (GetCalendarObject (sv_lib S) (sv_paths S) ctx (rq_Path r) (Some zero_CompRequest) db) (\<lambda>co.
          bindE (propFindCalendarObject S ctx pf co) (\<lambda>resp. Inr [resp]))
        else Inr []) (\<lambda>resps. Inr (NewMultiStatus resps)))"

definition cal_Put :: "server \<Rightarrow> dav_request \<Rightarrow> rw \<Rightarrow> db \<Rightarrow> ((http_error + unit) \<times> rw) \<times> db" where
  "cal_Put S r w db =
     (case ParseMediaType (Get ''Content-Type'' r) of (t, err) \<Rightarrow>
      if err then ((Inl (HTTPError StatusBadRequest), w), db)
      else if t \<noteq> ical_MIMEType then ((Inl (HTTPError StatusBadRequest), w), db)
      else case read_body cal_MaxResourceSize r of
             None \<Rightarrow> ((Inl (HTTPError StatusRequestEntityTooLarge), w), db)
           | Some raw \<Rightarrow>
               if l_dec_cal (sv_lib S) raw = None then ((Inl (HTTPError StatusBadRequest), w), db)
               else case PutCalendarObject (sv_lib S) (sv_paths S) (sv_now S) (rq_Context r) (rq_Path r) raw (Some (cal_PutOptions r)) db of
                      (Inl e, db') \<Rightarrow> ((Inl e, w), db')
                    | (Inr co, db') \<Rightarrow>
                        let w = set_if (co_ETag co \<noteq> []) ''Etag'' (ETag_String (co_ETag co)) w;
                            w = set_if (\<not> IsZero (co_ModTime co)) ''Last-Modified'' (http_time (co_ModTime co)) w;
                            w = set_if (co_Path co \<noteq> []) ''Location'' (co_Path co) w
                        in ((Inr (), WriteHeader StatusCreated w), db'))"

definition cal_Delete :: "server \<Rightarrow> dav_request \<Rightarrow> db \<Rightarrow> (http_error + unit) \<times> db" where
  "cal_Delete S r db = DeleteCalendarObject (sv_paths S) (sv_now S) (rq_Context r) (rq_Path r) db"

definition cal_Mkcol :: "server \<Rightarrow> dav_request \<Rightarrow> db \<Rightarrow> (http_error + unit) \<times> db" where
  "cal_Mkcol S r db =
     (if cal_resourceTypeAtPath S (rq_Path r) \<noteq> rt_num ResourceTypeCollection then (Inl (HTTPError StatusForbidden), db)
      else case (if IsRequestBodyEmpty r then Inr []
                 else case DecodeXMLRequest (sv_env S) cal_mkcolReq_Unmarshal r of
                        Inl _ \<Rightarrow> Inl (HTTPError StatusBadRequest)
                      | Inr m \<Rightarrow>
                          if \<not> ResourceType_Is (mk_ResourceType m) CollectionName \<or> \<not> ResourceType_Is (mk_ResourceType m) calendarName
                          then Inl (HTTPError StatusBadRequest)
                          else Inr (mk_DisplayName m)) of
             Inl e \<Rightarrow> (Inl e, db)
           | Inr name \<Rightarrow>
               CreateCalendar (sv_paths S) (sv_now S) (rq_Context r)
                 \<lparr>ca_Path = rq_Path r, ca_Name = name, ca_Description = [], ca_MaxResourceSize = 0,
                  ca_SupportedComponentSet = [], ca_SyncToken = [], ca_Timezone = []\<rparr> db)"

definition not_implemented :: "'s \<Rightarrow> (http_error + bool) \<times> 's" where
  "not_implemented s = (Inl (HTTPError StatusNotImplemented), s)"

definition cal_backend :: "server \<Rightarrow> (user option, db) backend" where
  "cal_backend S =
     \<lparr>b_Options = cal_Options S, b_HeadGet = cal_HeadGet S, b_PropFind = cal_PropFind S,
      b_PropPatch = (\<lambda>r u s. Inl (HTTPError StatusNotImplemented)), b_Put = cal_Put S, b_Delete = cal_Delete S,
      b_Mkcol = cal_Mkcol S, b_Copy = (\<lambda>r dest rec ov. not_implemented), b_Move = (\<lambda>r dest ov. not_implemented)\<rparr>"

definition cal_ServeHTTP :: "server \<Rightarrow> dav_request \<Rightarrow> rw \<Rightarrow> db \<Rightarrow> rw \<times> db" where
  "cal_ServeHTTP S r w db =
     (if rq_Path r = ''/.well-known/caldav'' then
        (case CurrentUserPrincipal (sv_paths S) (rq_Context r) of
           Inl _ \<Rightarrow> (http_Error ''caldav: failed to determine current user principal'' StatusInternalServerError w, db)
         | Inr principalPath \<Rightarrow> (http_Redirect (sv_env S) r principalPath StatusPermanentRedirect w, db))
      else if rq_Method r = ''REPORT'' then
        (case cal_handleReport S r w db of
           (Inl e, w) \<Rightarrow> (ServeError (sv_env S) e w, db)
         | (Inr _, w) \<Rightarrow> (w, db))
      else ServeHTTP (sv_env S) (Some (cal_backend S)) r w db)"

end
