(* ===== verification/CardElements.thy ===== *)
theory CardElements
  imports CalElements CardMatch
begin

text \<open>
  \<open>internal/dav/carddav/elements.go\<close>: the elements of CardDAV, written and read as in \<open>Elements\<close>. Unlike
  CalDAV's, a text match keeps its negation and its type, and the values of both are checked when read.
\<close>

abbreviation card_el :: "string \<Rightarrow> xname" where "card_el l \<equiv> (carddav_ns, l)"

abbreviation addressBookName where "addressBookName \<equiv> card_el ''addressbook''"
abbreviation addressBookDescriptionName where "addressBookDescriptionName \<equiv> card_el ''addressbook-description''"
abbreviation supportedAddressDataName where "supportedAddressDataName \<equiv> card_el ''supported-address-data''"
abbreviation card_maxResourceSizeName where "card_maxResourceSizeName \<equiv> card_el ''max-resource-size''"
abbreviation addressBookQueryName where "addressBookQueryName \<equiv> card_el ''addressbook-query''"
abbreviation addressBookMultigetName where "addressBookMultigetName \<equiv> card_el ''addressbook-multiget''"
abbreviation addressDataName where "addressDataName \<equiv> card_el ''address-data''"

section \<open>Property values\<close>

definition addressbookHomeSet :: "string \<Rightarrow> raw" where
  "addressbookHomeSet path = Elem addressBookHomeSetName [] [Href_el (dav ''href'') path]"

definition addressbookDescription :: "string \<Rightarrow> raw" where
  "addressbookDescription d = Elem addressBookDescriptionName [] (text_of d)"

definition addressDataType :: "string \<Rightarrow> string \<Rightarrow> raw" where
  "addressDataType typ version =
     Elem (card_el ''address-data-type'') [(([], ''content-type''), typ), (([], ''version''), version)] []"

definition supportedAddressData :: "raw list \<Rightarrow> raw" where
  "supportedAddressData types = Elem supportedAddressDataName [] types"

definition card_maxResourceSize :: "int \<Rightarrow> raw" where
  "card_maxResourceSize n = Elem card_maxResourceSizeName [] (text_of (FormatInt n))"

definition addressDataResp :: "string \<Rightarrow> raw" where
  "addressDataResp data = Elem addressDataName [] (text_of data)"

definition newProp :: "string \<Rightarrow> bool \<Rightarrow> raw" where
  "newProp name noValue =
     (let attrs = [(card_el ''name'', name)] @ (if noValue then [(card_el ''novalue'', ''yes'')] else [])
      in NewRawXMLElement (card_el ''prop'') attrs [])"

section \<open>Filters\<close>

definition filterTest :: "string \<Rightarrow> string option" where
  "filterTest b = (if b = FilterAnyOf \<or> b = FilterAllOf then Some b else None)"

definition card_negateCondition :: "string \<Rightarrow> bool option" where
  "card_negateCondition s = (if s = ''yes'' then Some True else if s = ''no'' then Some False else None)"

definition matchType :: "string \<Rightarrow> string option" where
  "matchType b =
     (if b = MatchEquals \<or> b = MatchContains \<or> b = MatchStartsWith \<or> b = MatchEndsWith then Some b else None)"

record card_textMatch =
  xt_Text :: string
  xt_Collation :: string
  xt_NegateCondition :: bool
  xt_MatchType :: string

definition card_textMatch_attr :: "xname \<times> string \<Rightarrow> card_textMatch \<Rightarrow> card_textMatch option" where
  "card_textMatch_attr a t =
     (let n = snd (fst a); v = snd a in
      if n = ''collation'' then Some (t\<lparr>xt_Collation := v\<rparr>)
      else if n = ''negate-condition'' then map_option (\<lambda>b. t\<lparr>xt_NegateCondition := b\<rparr>) (card_negateCondition v)
      else if n = ''match-type'' then map_option (\<lambda>m. t\<lparr>xt_MatchType := m\<rparr>) (matchType v)
      else Some t)"

definition card_read_textMatch :: "raw \<Rightarrow> card_textMatch option \<Rightarrow> card_textMatch option" where
  "card_read_textMatch c old =
     (if in_ns carddav_ns c then
        map_option (\<lambda>t. t\<lparr>xt_Text := char_data (raw_children c)\<rparr>)
          (read_fields card_textMatch_attr (raw_attrs c)
            (case old of None \<Rightarrow> \<lparr>xt_Text = [], xt_Collation = [], xt_NegateCondition = False, xt_MatchType = []\<rparr> | Some t \<Rightarrow> t))
      else None)"

record card_paramFilter =
  xp_Name :: string
  xp_IsNotDefined :: bool
  xp_TextMatch :: "card_textMatch option"

definition card_paramFilter_field :: "raw \<Rightarrow> card_paramFilter \<Rightarrow> card_paramFilter option" where
  "card_paramFilter_field c p =
     (let n = local_name c in
      if n = Some ''is-not-defined'' then Some (p\<lparr>xp_IsNotDefined := True\<rparr>)
      else if n = Some ''text-match'' then
        map_option (\<lambda>t. p\<lparr>xp_TextMatch := Some t\<rparr>) (card_read_textMatch c (xp_TextMatch p))
      else Some p)"

definition card_read_paramFilter :: "raw \<Rightarrow> card_paramFilter option" where
  "card_read_paramFilter c =
     (if in_ns carddav_ns c then
        read_fields card_paramFilter_field (raw_children c) \<lparr>xp_Name = name_attr c, xp_IsNotDefined = False, xp_TextMatch = None\<rparr>
      else None)"

text \<open>\<open>test,attr\<close>: every attribute of that local name is checked, the last one stays.\<close>

definition test_attr :: "xname \<times> string \<Rightarrow> string \<Rightarrow> string option" where
  "test_attr a t = (if snd (fst a) = ''test'' then filterTest (snd a) else Some t)"

record card_propFilter =
  xf_Name :: string
  xf_Test :: string
  xf_IsNotDefined :: bool
  xf_TextMatches :: "card_textMatch list"
  xf_Params :: "card_paramFilter list"

definition card_propFilter_field :: "raw \<Rightarrow> card_propFilter \<Rightarrow> card_propFilter option" where
  "card_propFilter_field c p =
     (let n = local_name c in
      if n = Some ''is-not-defined'' then Some (p\<lparr>xf_IsNotDefined := True\<rparr>)
      else if n = Some ''text-match'' then
        map_option (\<lambda>t. p\<lparr>xf_TextMatches := xf_TextMatches p @ [t]\<rparr>) (card_read_textMatch c None)
      else if n = Some ''param-filter'' then
        map_option (\<lambda>f. p\<lparr>xf_Params := xf_Params p @ [f]\<rparr>) (card_read_paramFilter c)
      else Some p)"

definition card_read_propFilter :: "raw \<Rightarrow> card_propFilter option" where
  "card_read_propFilter c =
     (if in_ns carddav_ns c then
        (case read_fields test_attr (raw_attrs c) [] of
           None \<Rightarrow> None
         | Some test \<Rightarrow>
             read_fields card_propFilter_field (raw_children c)
               \<lparr>xf_Name = name_attr c, xf_Test = test, xf_IsNotDefined = False, xf_TextMatches = [], xf_Params = []\<rparr>)
      else None)"

record card_filter =
  xl_Test :: string
  xl_Props :: "card_propFilter list"

definition card_filter_field :: "raw \<Rightarrow> card_filter \<Rightarrow> card_filter option" where
  "card_filter_field c f =
     (if local_name c = Some ''prop-filter'' then
        map_option (\<lambda>p. f\<lparr>xl_Props := xl_Props f @ [p]\<rparr>) (card_read_propFilter c)
      else Some f)"

definition read_card_filter :: "raw \<Rightarrow> card_filter \<Rightarrow> card_filter option" where
  "read_card_filter c f =
     (if in_ns carddav_ns c then
        (case read_fields test_attr (raw_attrs c) (xl_Test f) of
           None \<Rightarrow> None
         | Some test \<Rightarrow> read_fields card_filter_field (raw_children c) (f\<lparr>xl_Test := test\<rparr>))
      else None)"

section \<open>Reports\<close>

record addressbookQuery =
  aq_Prop :: "raw list option"
  aq_AllProp :: bool
  aq_PropName :: bool
  aq_Filter :: card_filter
  aq_LimitEl :: "int option"

definition addressbookQuery_field :: "raw \<Rightarrow> addressbookQuery \<Rightarrow> addressbookQuery option" where
  "addressbookQuery_field c q =
     (let n = XMLName c; l = local_name c in
      if n = Some (dav ''prop'') then Some (q\<lparr>aq_Prop := extend_prop (aq_Prop q) c\<rparr>)
      else if n = Some (dav ''allprop'') then Some (q\<lparr>aq_AllProp := True\<rparr>)
      else if n = Some (dav ''propname'') then Some (q\<lparr>aq_PropName := True\<rparr>)
      else if l = Some ''filter'' then map_option (\<lambda>f. q\<lparr>aq_Filter := f\<rparr>) (read_card_filter c (aq_Filter q))
      else if l = Some ''limit'' then map_option (\<lambda>x. q\<lparr>aq_LimitEl := x\<rparr>) (read_limit carddav_ns c (aq_LimitEl q))
      else Some q)"

definition read_addressbookQuery :: "raw \<Rightarrow> addressbookQuery option" where
  "read_addressbookQuery r =
     read_fields addressbookQuery_field (raw_children r)
       \<lparr>aq_Prop = None, aq_AllProp = False, aq_PropName = False, aq_Filter = \<lparr>xl_Test = [], xl_Props = []\<rparr>, aq_LimitEl = None\<rparr>"

text \<open>The multiget has the fields of CalDAV's; the record is shared.\<close>

definition read_addressbookMultiget :: "(string \<Rightarrow> bool) \<Rightarrow> raw \<Rightarrow> calendarMultiget option" where
  "read_addressbookMultiget authority r =
     read_fields (calendarMultiget_field authority) (raw_children r)
       \<lparr>mg_Hrefs = [], mg_Prop = None, mg_AllProp = False, mg_PropName = False\<rparr>"

record card_reportReq =
  cr_Query :: "addressbookQuery option"
  cr_Multiget :: "calendarMultiget option"
  cr_Sync :: "SyncCollectionQuery option"

definition card_reportReq_Unmarshal :: "(string \<Rightarrow> bool) \<Rightarrow> raw \<Rightarrow> card_reportReq option" where
  "card_reportReq_Unmarshal authority r =
     (let none = \<lparr>cr_Query = None, cr_Multiget = None, cr_Sync = None\<rparr>; n = XMLName r in
      if n = Some addressBookQueryName then map_option (\<lambda>q. none\<lparr>cr_Query := Some q\<rparr>) (read_addressbookQuery r)
      else if n = Some addressBookMultigetName then
        map_option (\<lambda>q. none\<lparr>cr_Multiget := Some q\<rparr>) (read_addressbookMultiget authority r)
      else if n = Some SyncCollectionName then map_option (\<lambda>q. none\<lparr>cr_Sync := Some q\<rparr>) (SyncCollectionQuery_Unmarshal r)
      else None)"

section \<open>The address-data of a request\<close>

record addressDataReq =
  ar_Props :: "string list"
  ar_Allprop :: bool

definition no_addressDataReq :: addressDataReq where
  "no_addressDataReq = \<lparr>ar_Props = [], ar_Allprop = False\<rparr>"

definition addressDataReq_field :: "raw \<Rightarrow> addressDataReq \<Rightarrow> addressDataReq option" where
  "addressDataReq_field c d =
     (let n = local_name c in
      if n = Some ''prop'' then (if in_ns carddav_ns c then Some (d\<lparr>ar_Props := ar_Props d @ [name_attr c]\<rparr>) else None)
      else if n = Some ''allprop'' then Some (d\<lparr>ar_Allprop := True\<rparr>)
      else Some d)"

definition addressDataReq_Unmarshal :: "raw \<Rightarrow> addressDataReq option" where
  "addressDataReq_Unmarshal r = read_fields addressDataReq_field (raw_children r) no_addressDataReq"

section \<open>MKCOL\<close>

record card_mkcolReq =
  xm_ResourceType :: "raw list"
  xm_DisplayName :: string
  xm_Description :: string

definition card_mkcol_field :: "raw \<Rightarrow> card_mkcolReq \<Rightarrow> card_mkcolReq option" where
  "card_mkcol_field c m =
     (let n = local_name c in
      if n = Some ''resourcetype'' then
        (if in_ns Namespace c then Some (m\<lparr>xm_ResourceType := xm_ResourceType m @ any_elements (raw_children c)\<rparr>) else None)
      else if n = Some ''displayname'' then Some (m\<lparr>xm_DisplayName := char_data (raw_children c)\<rparr>)
      else if n = Some ''addressbook-description'' then
        (if in_ns carddav_ns c then Some (m\<lparr>xm_Description := char_data (raw_children c)\<rparr>) else None)
      else Some m)"

definition card_mkcolReq_Unmarshal :: "raw \<Rightarrow> card_mkcolReq option" where
  "card_mkcolReq_Unmarshal r =
     (if XMLName r = Some (dav ''mkcol'') then
        read_fields (inside ''set'' (inside ''prop'' card_mkcol_field)) (raw_children r)
          \<lparr>xm_ResourceType = [], xm_DisplayName = [], xm_Description = []\<rparr>
      else None)"

end
