(* ===== verification/CardServer.thy ===== *)
theory CardServer
  imports CalServer CardElements
begin

text \<open>
  \<open>internal/dav/carddav/server.go\<close>: the CardDAV handler, the counterpart of \<open>CalServer\<close> on the
  operations of the CardDAV backend.
\<close>

abbreviation vcard_MIMEType :: string where "vcard_MIMEType \<equiv> ''text/vcard''"

definition card_PutOptions :: "'c request \<Rightarrow> PutOptions" where
  "card_PutOptions r = \<lparr>IfNoneMatch = Get ''If-None-Match'' r, IfMatch = Get ''If-Match'' r\<rparr>"

section \<open>Decoding a report\<close>

definition decodeTextMatch :: "card_textMatch \<Rightarrow> CardTextMatch" where
  "decodeTextMatch tm =
     \<lparr>ct_Text = xt_Text tm, ct_NegateCondition = xt_NegateCondition tm, ct_MatchType = xt_MatchType tm\<rparr>"

definition card_decodeParamFilter :: "card_paramFilter \<Rightarrow> http_error + CardParamFilter" where
  "card_decodeParamFilter el =
     (if xp_IsNotDefined el \<and> xp_TextMatch el \<noteq> None then Inl PlainError
      else Inr \<lparr>cpa_Name = xp_Name el, cpa_IsNotDefined = xp_IsNotDefined el,
                cpa_TextMatch = map_option decodeTextMatch (xp_TextMatch el)\<rparr>)"

definition card_decodePropFilter :: "card_propFilter \<Rightarrow> http_error + CardPropFilter" where
  "card_decodePropFilter el =
     (if xf_IsNotDefined el \<and> (xf_TextMatches el \<noteq> [] \<or> xf_Params el \<noteq> []) then Inl PlainError
      else bindE (map_ok card_decodeParamFilter (xf_Params el)) (\<lambda>ps.
        Inr \<lparr>cp_Name = xf_Name el, cp_Test = xf_Test el, cp_IsNotDefined = xf_IsNotDefined el,
             cp_TextMatches = map decodeTextMatch (xf_TextMatches el), cp_Params = ps\<rparr>))"

definition decodeAddressDataReq :: "addressDataReq \<Rightarrow> http_error + AddressDataRequest" where
  "decodeAddressDataReq d =
     (if ar_Allprop d \<and> ar_Props d \<noteq> [] then Inl (HTTPError StatusBadRequest)
      else Inr \<lparr>dr_Props = ar_Props d, dr_AllProp = ar_Allprop d\<rparr>)"

definition zero_DataRequest :: AddressDataRequest where
  "zero_DataRequest = \<lparr>dr_Props = [], dr_AllProp = False\<rparr>"

definition card_dataReq :: "raw list option \<Rightarrow> http_error + AddressDataRequest" where
  "card_dataReq prop =
     (case prop of
        None \<Rightarrow> Inr zero_DataRequest
      | Some p \<Rightarrow>
          (case Prop_Decode addressDataName addressDataReq_Unmarshal p of
             Inr d \<Rightarrow> decodeAddressDataReq d
           | Inl e \<Rightarrow> if \<not> IsNotFound e then Inl e else decodeAddressDataReq no_addressDataReq))"

section \<open>The properties of a resource\<close>

definition card_propFindRoot :: "server \<Rightarrow> user option \<Rightarrow> PropFind \<Rightarrow> http_error + Response" where
  "card_propFindRoot S ctx pf =
     bindE (CurrentUserPrincipal (sv_paths S) ctx) (\<lambda>principalPath.
       NewPropFindResponse principalPath pf
         [(CurrentUserPrincipalName, PropFindValue (CurrentUserPrincipal_el principalPath)),
          (ResourceTypeName, PropFindValue (NewResourceType [CollectionName]))])"

definition card_propFindUserPrincipal :: "server \<Rightarrow> user option \<Rightarrow> PropFind \<Rightarrow> http_error + Response" where
  "card_propFindUserPrincipal S ctx pf =
     bindE (CurrentUserPrincipal (sv_paths S) ctx) (\<lambda>principalPath.
       NewPropFindResponse principalPath pf
         [(CurrentUserPrincipalName, PropFindValue (CurrentUserPrincipal_el principalPath)),
          (addressBookHomeSetName,
           (\<lambda>_. bindE (AddressBookHomeSetPath (sv_paths S) ctx) (\<lambda>homeSetPath. Inr (addressbookHomeSet homeSetPath)))),
          (ResourceTypeName, PropFindValue (NewResourceType [CollectionName, PrincipalName]))])"

definition card_propFindHomeSet :: "server \<Rightarrow> user option \<Rightarrow> PropFind \<Rightarrow> http_error + Response" where
  "card_propFindHomeSet S ctx pf =
     bindE (AddressBookHomeSetPath (sv_paths S) ctx) (\<lambda>homeSetPath.
       NewPropFindResponse homeSetPath pf
         [principal_prop S ctx, (ResourceTypeName, PropFindValue (NewResourceType [CollectionName]))])"

definition card_collection_props :: "server \<Rightarrow> user option \<Rightarrow> BookInfo \<Rightarrow> (xname \<times> PropFindFunc) list" where
  "card_collection_props S ctx ab =
     set_prop (bk_MaxResourceSize ab > 0) card_maxResourceSizeName (card_maxResourceSize (bk_MaxResourceSize ab))
    (set_prop (bk_Description ab \<noteq> []) addressBookDescriptionName (addressbookDescription (bk_Description ab))
    (set_prop (bk_Name ab \<noteq> []) DisplayNameName (DisplayName (bk_Name ab))
    (set_prop (bk_SyncToken ab \<noteq> []) SyncTokenName (SyncToken (bk_SyncToken ab))
       [principal_prop S ctx,
        (ResourceTypeName, PropFindValue (NewResourceType [CollectionName, addressBookName])),
        (supportedAddressDataName,
         PropFindValue (supportedAddressData [addressDataType vcard_MIMEType ''3.0'', addressDataType vcard_MIMEType ''4.0''])),
        (CurrentUserPrivilegeSetName, PropFindValue (CurrentUserPrivilegeSet [Privilege True True])),
        (SupportedReportSetName,
         PropFindValue (NewSupportedReportSet [SyncCollectionName, addressBookQueryName, addressBookMultigetName]))])))"

definition propFindAddressBook :: "server \<Rightarrow> user option \<Rightarrow> PropFind \<Rightarrow> BookInfo \<Rightarrow> http_error + Response" where
  "propFindAddressBook S ctx pf ab = NewPropFindResponse (bk_Path ab) pf (card_collection_props S ctx ab)"

text \<open>An object without bytes is one that a filter has reduced; its card is encoded again.\<close>

definition card_object_props :: "server \<Rightarrow> user option \<Rightarrow> AddressObject \<Rightarrow> (xname \<times> PropFindFunc) list" where
  "card_object_props S ctx ao =
     set_prop (ao_ETag ao \<noteq> []) GetETagName (GetETag (ao_ETag ao))
    (set_prop (\<not> IsZero (ao_ModTime ao)) GetLastModifiedName (GetLastModified (ao_ModTime ao))
    (set_prop (ao_ContentLength ao > 0) GetContentLengthName (GetContentLength (int (ao_ContentLength ao)))
       [principal_prop S ctx,
        (GetContentTypeName, PropFindValue (GetContentType vcard_MIMEType)),
        (addressDataName,
         (\<lambda>_. if ao_Raw ao \<noteq> [] then Inr (addressDataResp (ao_Raw ao))
              else (case sv_enc_card S (ao_Card ao) of None \<Rightarrow> Inl PlainError | Some b \<Rightarrow> Inr (addressDataResp b))))]))"

definition propFindAddressObject :: "server \<Rightarrow> user option \<Rightarrow> PropFind \<Rightarrow> AddressObject \<Rightarrow> http_error + Response" where
  "propFindAddressObject S ctx pf ao = NewPropFindResponse (ao_Path ao) pf (card_object_props S ctx ao)"

definition propFindAllAddressObjects ::
    "server \<Rightarrow> user option \<Rightarrow> PropFind \<Rightarrow> BookInfo \<Rightarrow> db \<Rightarrow> http_error + Response list" where
  "propFindAllAddressObjects S ctx pf ab db =
     bindE (ListAddressObjects (sv_lib S) (sv_paths S) ctx (bk_Path ab) (Some zero_DataRequest) db) (\<lambda>aos.
       map_ok (propFindAddressObject S ctx pf) aos)"

definition propFindAllAddressBooks :: "server \<Rightarrow> user option \<Rightarrow> PropFind \<Rightarrow> bool \<Rightarrow> db \<Rightarrow> http_error + Response list" where
  "propFindAllAddressBooks S ctx pf recurse db =
     bindE (ListAddressBooks (sv_paths S) ctx db) (\<lambda>abs.
     bindE (map_ok (\<lambda>ab.
        bindE (propFindAddressBook S ctx pf ab) (\<lambda>resp.
          if recurse then bindE (propFindAllAddressObjects S ctx pf ab db) (\<lambda>resps. Inr (resp # resps)) else Inr [resp])) abs) (\<lambda>rss.
       Inr (concat rss)))"

section \<open>Reports\<close>

text \<open>A filter that does not decode is the client's error here; a limit of zero is answered without a query.\<close>

definition card_handleQuery :: "server \<Rightarrow> dav_request \<Rightarrow> addressbookQuery \<Rightarrow> db \<Rightarrow> http_error + MultiStatus" where
  "card_handleQuery S r query db =
     bindE (card_dataReq (aq_Prop query)) (\<lambda>dataReq.
     bindE (mapE (\<lambda>_. HTTPError StatusBadRequest) (map_ok card_decodePropFilter (xl_Props (aq_Filter query)))) (\<lambda>pfs.
       let limit = (case aq_LimitEl query of None \<Rightarrow> 0 | Some n \<Rightarrow> go_int n) in
       if aq_LimitEl query \<noteq> None \<and> limit \<le> 0 then Inr (NewMultiStatus [])
       else
         bindE (QueryAddressObjects (sv_lib S) (sv_paths S) (rq_Context r) (rq_Path r)
                  (Some \<lparr>aq_DataRequest = dataReq, aq_PropFilters = pfs, aq_FilterTest = xl_Test (aq_Filter query), aq_Limit = limit\<rparr>) db) (\<lambda>aos.
         bindE (map_ok (propFindAddressObject S (rq_Context r)
                  (report_propfind (aq_Prop query) (aq_AllProp query) (aq_PropName query))) aos) (\<lambda>resps.
           Inr (NewMultiStatus resps)))))"

definition card_handleSyncCollection :: "server \<Rightarrow> dav_request \<Rightarrow> SyncCollectionQuery \<Rightarrow> db \<Rightarrow> http_error + MultiStatus" where
  "card_handleSyncCollection S r sync db =
     bindE (card_dataReq (sc_Prop sync)) (\<lambda>dataReq.
     bindE (card_SyncCollection (sv_lib S) (sv_paths S) (rq_Context r) (rq_Path r)
              (Some \<lparr>csq_DataRequest = dataReq, csq_SyncToken = sc_SyncToken sync,
                     csq_Limit = (case sc_Limit sync of None \<Rightarrow> 0 | Some n \<Rightarrow> go_int n)\<rparr>) db) (\<lambda>resp.
     bindE (map_ok (propFindAddressObject S (rq_Context r) (report_propfind (sc_Prop sync) False False)) (csr_Updated resp)) (\<lambda>resps.
       Inr ((NewMultiStatus (resps @ map gone_response (csr_Deleted resp)))\<lparr>ms_SyncToken := csr_SyncToken resp\<rparr>))))"

definition card_multiget_one ::
    "server \<Rightarrow> user option \<Rightarrow> calendarMultiget \<Rightarrow> AddressDataRequest \<Rightarrow> db \<Rightarrow> string \<Rightarrow> http_error + Response" where
  "card_multiget_one S ctx multiget dataReq db path =
     (case GetAddressObject (sv_lib S) (sv_paths S) ctx path (Some dataReq) db of
        Inl e \<Rightarrow> Inr (NewErrorResponse (e_txt (sv_env S)) path e)
      | Inr ao \<Rightarrow>
          propFindAddressObject S ctx (report_propfind (mg_Prop multiget) (mg_AllProp multiget) (mg_PropName multiget)) ao)"

definition card_handleMultiget :: "server \<Rightarrow> dav_request \<Rightarrow> calendarMultiget \<Rightarrow> db \<Rightarrow> http_error + MultiStatus" where
  "card_handleMultiget S r multiget db =
     bindE (card_dataReq (mg_Prop multiget)) (\<lambda>dataReq.
     bindE (map_ok (card_multiget_one S (rq_Context r) multiget dataReq db) (mg_Hrefs multiget)) (\<lambda>resps.
       Inr (NewMultiStatus resps)))"

definition card_handleReport :: "server \<Rightarrow> dav_request \<Rightarrow> rw \<Rightarrow> db \<Rightarrow> (http_error + unit) \<times> rw" where
  "card_handleReport S r w db =
     (case bindE (DecodeXMLRequest (sv_env S) (card_reportReq_Unmarshal (e_authority (sv_env S))) r) (\<lambda>report.
             case cr_Query report of
               Some q \<Rightarrow> card_handleQuery S r q db
             | None \<Rightarrow>
                 (case cr_Multiget report of
                    Some m \<Rightarrow> card_handleMultiget S r m db
                  | None \<Rightarrow>
                      (case cr_Sync report of
                         Some s \<Rightarrow> card_handleSyncCollection S r s db
                       | None \<Rightarrow> Inl (HTTPError StatusBadRequest)))) of
        Inl e \<Rightarrow> (Inl e, w)
      | Inr ms \<Rightarrow> ServeMultiStatus (sv_env S) ms w)"

section \<open>The backend of the WebDAV handler\<close>

definition card_resourceTypeAtPath :: "server \<Rightarrow> string \<Rightarrow> nat" where
  "card_resourceTypeAtPath S reqPath =
     (case card_ResourceTypeAtPath (sv_paths S) reqPath of
        Some t \<Rightarrow> rt_num t
      | None \<Rightarrow> by_segments (handler_prefix S) reqPath)"

definition card_Options :: "server \<Rightarrow> dav_request \<Rightarrow> db \<Rightarrow> http_error + string list \<times> string list" where
  "card_Options S r db =
     (let caps = [''addressbook''] in
      if card_resourceTypeAtPath S (rq_Path r) \<noteq> rt_num ResourceTypeObject then
        Inr (caps, [''OPTIONS'', ''PROPFIND'', ''REPORT'', ''DELETE'', ''MKCOL''])
      else case GetAddressObject (sv_lib S) (sv_paths S) (rq_Context r) (rq_Path r) (Some zero_DataRequest) db of
             Inl e \<Rightarrow> if IsNotFound e then Inr (caps, [''OPTIONS'', ''PUT'']) else Inl e
           | Inr _ \<Rightarrow> Inr (caps, [''OPTIONS'', ''HEAD'', ''GET'', ''PUT'', ''DELETE'', ''PROPFIND'']))"

definition card_HeadGet :: "server \<Rightarrow> dav_request \<Rightarrow> rw \<Rightarrow> db \<Rightarrow> (http_error + unit) \<times> rw" where
  "card_HeadGet S r w db =
     (let req = \<lparr>dr_Props = [], dr_AllProp = (rq_Method r \<noteq> ''HEAD'')\<rparr> in
      case GetAddressObject (sv_lib S) (sv_paths S) (rq_Context r) (rq_Path r) (Some req) db of
        Inl e \<Rightarrow> (Inl e, w)
      | Inr ao \<Rightarrow>
          let w = header_Set ''Content-Type'' vcard_MIMEType w;
              w = set_if (ao_ContentLength ao > 0) ''Content-Length'' (FormatInt (int (ao_ContentLength ao))) w;
              w = set_if (ao_ETag ao \<noteq> []) ''Etag'' (ETag_String (ao_ETag ao)) w;
              w = set_if (\<not> IsZero (ao_ModTime ao)) ''Last-Modified'' (http_time (ao_ModTime ao)) w
          in (Inr (), if rq_Method r \<noteq> ''HEAD'' then Write (Text (ao_Raw ao)) w else w))"

definition card_PropFind :: "server \<Rightarrow> dav_request \<Rightarrow> PropFind \<Rightarrow> Depth \<Rightarrow> db \<Rightarrow> http_error + MultiStatus" where
  "card_PropFind S r pf depth db =
     (let ctx = rq_Context r; t = card_resourceTypeAtPath S (rq_Path r) in
      bindE
       (if t = rt_num ResourceTypeRoot then bindE (card_propFindRoot S ctx pf) (\<lambda>resp. Inr [resp])
        else if t = rt_num ResourceTypeUserPrincipal then
          bindE (CurrentUserPrincipal (sv_paths S) ctx) (\<lambda>principalPath.
            if rq_Path r = principalPath then
              bindE (card_propFindUserPrincipal S ctx pf) (\<lambda>resp.
                if depth \<noteq> DepthZero then
                  bindE (card_propFindHomeSet S ctx pf) (\<lambda>home.
                    if depth = DepthInfinity then
                      bindE (propFindAllAddressBooks S ctx pf True db) (\<lambda>resps. Inr (resp # home # resps))
                    else Inr [resp, home])
                else Inr [resp])
            else Inr [])
        else if t = rt_num ResourceTypeHomeSet then
          bindE (AddressBookHomeSetPath (sv_paths S) ctx) (\<lambda>homeSetPath.
            if rq_Path r = homeSetPath then
              bindE (card_propFindHomeSet S ctx pf) (\<lambda>resp.
                if depth \<noteq> DepthZero then
                  bindE (propFindAllAddressBooks S ctx pf (depth = DepthInfinity) db) (\<lambda>resps. Inr (resp # resps))
                else Inr [resp])
            else Inr [])
        else if t = rt_num ResourceTypeCollection then
          bindE (GetAddressBook (sv_paths S) ctx (rq_Path r) db) (\<lambda>ab.
          bindE (propFindAddressBook S ctx pf ab) (\<lambda>resp.
            if depth \<noteq> DepthZero then bindE (propFindAllAddressObjects S ctx pf ab db) (\<lambda>resps. Inr (resp # resps))
            else Inr [resp]))
        else if t = rt_num ResourceTypeObject then
          bindE (GetAddressObject (sv_lib S) (sv_paths S) ctx (rq_Path r) (Some zero_DataRequest) db) (\<lambda>ao.
          bindE (propFindAddressObject S ctx pf ao) (\<lambda>resp. Inr [resp]))
        else Inr []) (\<lambda>resps. Inr (NewMultiStatus resps)))"

text \<open>Each \<open>remove\<close> and \<open>set\<close> is answered with the name of its \<open>prop\<close> element, not of the properties in it.\<close>

definition card_PropPatch :: "server \<Rightarrow> dav_request \<Rightarrow> PropertyUpdate \<Rightarrow> db \<Rightarrow> http_error + Response" where
  "card_PropPatch S r update db =
     bindE (AddressBookHomeSetPath (sv_paths S) (rq_Context r)) (\<lambda>homeSetPath.
       let code = (if rq_Path r = homeSetPath then StatusNotImplemented else StatusMethodNotAllowed)
       in Inr (encode_all (map (\<lambda>p. (code, NewRawXMLElement (fst p) [] [])) (up_Remove update @ up_Set update))
                 (NewOKResponse (rq_Path r))))"

definition card_Put :: "server \<Rightarrow> dav_request \<Rightarrow> rw \<Rightarrow> db \<Rightarrow> ((http_error + unit) \<times> rw) \<times> db" where
  "card_Put S r w db =
     (case ParseMediaType (Get ''Content-Type'' r) of (t, err) \<Rightarrow>
      if err then ((Inl (HTTPError StatusBadRequest), w), db)
      else if t \<noteq> vcard_MIMEType then ((Inl (HTTPError StatusBadRequest), w), db)
      else case read_body card_MaxResourceSize r of
             None \<Rightarrow> ((Inl (HTTPError StatusRequestEntityTooLarge), w), db)
           | Some raw \<Rightarrow>
               if l_dec_card (sv_lib S) raw = None then ((Inl (HTTPError StatusBadRequest), w), db)
               else case PutAddressObject (sv_lib S) (sv_paths S) (sv_now S) (rq_Context r) (rq_Path r) raw (Some (card_PutOptions r)) db of
                      (Inl e, db') \<Rightarrow> ((Inl e, w), db')
                    | (Inr ao, db') \<Rightarrow>
                        let w = set_if (ao_ETag ao \<noteq> []) ''Etag'' (ETag_String (ao_ETag ao)) w;
                            w = set_if (\<not> IsZero (ao_ModTime ao)) ''Last-Modified'' (http_time (ao_ModTime ao)) w;
                            w = set_if (ao_Path ao \<noteq> []) ''Location'' (ao_Path ao) w
                        in ((Inr (), WriteHeader StatusCreated w), db'))"

definition card_Delete :: "server \<Rightarrow> dav_request \<Rightarrow> db \<Rightarrow> (http_error + unit) \<times> db" where
  "card_Delete S r db =
     (let t = card_resourceTypeAtPath S (rq_Path r) in
      if t = rt_num ResourceTypeCollection then DeleteAddressBook (sv_paths S) (rq_Context r) (rq_Path r) db
      else if t = rt_num ResourceTypeObject then DeleteAddressObject (sv_paths S) (sv_now S) (rq_Context r) (rq_Path r) db
      else (Inl (HTTPError StatusForbidden), db))"

definition card_Mkcol :: "server \<Rightarrow> dav_request \<Rightarrow> db \<Rightarrow> (http_error + unit) \<times> db" where
  "card_Mkcol S r db =
     (if card_resourceTypeAtPath S (rq_Path r) \<noteq> rt_num ResourceTypeCollection then (Inl (HTTPError StatusForbidden), db)
      else case (if IsRequestBodyEmpty r then Inr ([], [])
                 else case DecodeXMLRequest (sv_env S) card_mkcolReq_Unmarshal r of
                        Inl _ \<Rightarrow> Inl (HTTPError StatusBadRequest)
                      | Inr m \<Rightarrow>
                          if \<not> ResourceType_Is (xm_ResourceType m) CollectionName \<or> \<not> ResourceType_Is (xm_ResourceType m) addressBookName
                          then Inl (HTTPError StatusBadRequest)
                          else Inr (xm_DisplayName m, xm_Description m)) of
             Inl e \<Rightarrow> (Inl e, db)
           | Inr (name, descr) \<Rightarrow>
               CreateAddressBook (sv_paths S) (sv_now S) (rq_Context r)
                 \<lparr>bk_Path = rq_Path r, bk_Name = name, bk_Description = descr, bk_MaxResourceSize = 0, bk_SyncToken = []\<rparr> db)"

definition card_backend :: "server \<Rightarrow> (user option, db) backend" where
  "card_backend S =
     \<lparr>b_Options = card_Options S, b_HeadGet = card_HeadGet S, b_PropFind = card_PropFind S,
      b_PropPatch = card_PropPatch S, b_Put = card_Put S, b_Delete = card_Delete S,
      b_Mkcol = card_Mkcol S, b_Copy = (\<lambda>r dest rec ov. not_implemented), b_Move = (\<lambda>r dest ov. not_implemented)\<rparr>"

definition card_ServeHTTP :: "server \<Rightarrow> dav_request \<Rightarrow> rw \<Rightarrow> db \<Rightarrow> rw \<times> db" where
  "card_ServeHTTP S r w db =
     (if rq_Path r = ''/.well-known/carddav'' then
        (case CurrentUserPrincipal (sv_paths S) (rq_Context r) of
           Inl _ \<Rightarrow> (http_Error ''carddav: failed to determine current user principal'' StatusInternalServerError w, db)
         | Inr principalPath \<Rightarrow> (http_Redirect (sv_env S) r principalPath StatusPermanentRedirect w, db))
      else if rq_Method r = ''REPORT'' then
        (case card_handleReport S r w db of
           (Inl e, w) \<Rightarrow> (ServeError (sv_env S) e w, db)
         | (Inr _, w) \<Rightarrow> (w, db))
      else ServeHTTP (sv_env S) (Some (card_backend S)) r w db)"

end
