(* ===== verification/Routing.thy ===== *)
theory Routing
  imports CardServer Basic_Auth
begin

text \<open>
  \<open>internal/dav/server.go\<close>: which handler answers which path, behind which middleware, and with it one
  request to the DAV endpoints from the credentials to the answer. \<open>http.ServeMux\<close> is modelled for the
  patterns that are registered: a pattern that ends in a slash matches every path below it, the longest
  match wins, a path that is not clean is redirected. The credentials of the Authorization header, the
  clock and the slot of the verifier are the \<open>basic_request\<close> of \<open>Basic_Auth\<close>. A path is taken without
  escapes that hide a slash or a dot.
\<close>

definition Realm :: string where "Realm = ''edav''"

record dav_server =
  ds_Server :: server
  ds_CardDAVEnabled :: bool
  ds_CalDAVEnabled :: bool

definition server_paths :: "server \<Rightarrow> Paths" where
  "server_paths S = \<lparr>Prefix = TrimSuffix (Prefix (sv_paths S)) ''/''\<rparr>"

definition mounted_server :: "dav_server \<Rightarrow> server" where
  "mounted_server D = (ds_Server D)\<lparr>sv_paths := server_paths (ds_Server D)\<rparr>"

text \<open>The two protocol handlers behind the middleware, and the well-known redirect in front of it.\<close>

datatype mounted = WellKnown string | CardHandler | CalHandler

definition principalHandler :: "dav_server \<Rightarrow> mounted" where
  "principalHandler D = (if ds_CalDAVEnabled D then CalHandler else CardHandler)"

definition Register :: "dav_server \<Rightarrow> (string \<times> mounted) list" where
  "Register D =
     (let p = server_paths (ds_Server D) in
      (if ds_CardDAVEnabled D then [(''/.well-known/carddav'', WellKnown (Root p))] else []) @
      (if ds_CalDAVEnabled D then [(''/.well-known/caldav'', WellKnown (Root p))] else []) @
      (if ds_CardDAVEnabled D then [(Prefix p @ ''/'' @ addressBooksSegment @ ''/'', CardHandler)] else []) @
      (if ds_CalDAVEnabled D then [(Prefix p @ ''/'' @ calendarsSegment @ ''/'', CalHandler)] else []) @
      [(Prefix p @ ''/'', principalHandler D)])"

section \<open>The mux\<close>

definition pattern_matches :: "string \<Rightarrow> string \<Rightarrow> bool" where
  "pattern_matches pat path = (if HasSuffix pat ''/'' then HasPrefix path pat else path = pat)"

fun longest :: "(string \<times> 'a) list \<Rightarrow> (string \<times> 'a) option" where
  "longest [] = None"
| "longest (x # xs) =
     (case longest xs of None \<Rightarrow> Some x | Some y \<Rightarrow> Some (if length (fst x) \<ge> length (fst y) then x else y))"

definition mux_match :: "(string \<times> 'a) list \<Rightarrow> string \<Rightarrow> 'a option" where
  "mux_match routes path = map_option snd (longest (filter (\<lambda>x. pattern_matches (fst x) path) routes))"

definition mux_clean :: "string \<Rightarrow> string" where
  "mux_clean p =
     (if p = [] then ''/''
      else let p = (if HasPrefix p ''/'' then p else ''/'' @ p); np = path_Clean p
           in if HasSuffix p ''/'' \<and> np \<noteq> ''/'' then np @ ''/'' else np)"

datatype 'a mux_answer = MuxRedirect string | MuxNotFound | MuxHandler 'a

text \<open>
  A path without a trailing slash that no pattern matches in full, while the path with a slash is a pattern, is sent there, even
  where a shorter pattern matches it. Then a path that was not clean is sent to the clean one.
\<close>

definition mux_Handler :: "(string \<times> 'a) list \<Rightarrow> string \<Rightarrow> string \<Rightarrow> 'a mux_answer" where
  "mux_Handler routes m reqPath =
     (let path = (if m = ''CONNECT'' then reqPath else mux_clean reqPath) in
      if \<not> HasSuffix path ''/'' \<and> \<not> list_ex (\<lambda>x. fst x = path) routes \<and> list_ex (\<lambda>x. fst x = path @ ''/'') routes
      then MuxRedirect (mux_clean reqPath @ ''/'')
      else if path \<noteq> reqPath then MuxRedirect path
      else case mux_match routes path of None \<Rightarrow> MuxNotFound | Some h \<Rightarrow> MuxHandler h)"

section \<open>One request\<close>

type_synonym auth_state = "credentialCache \<times> throttle"

definition challenge :: "string \<Rightarrow> rw \<Rightarrow> rw" where
  "challenge realm w =
     http_Error ''unauthorized'' StatusUnauthorized
       (header_Set ''Www-Authenticate'' (''Basic realm=\"'' @ realm @ ''\", charset=\"UTF-8\"'') w)"

definition refuse :: "int \<Rightarrow> rw \<Rightarrow> rw" where
  "refuse seconds w =
     http_Error ''too many authentication attempts'' StatusTooManyRequests (header_Set ''Retry-After'' (FormatInt seconds) w)"

definition serve_protocol :: "dav_server \<Rightarrow> mounted \<Rightarrow> dav_request \<Rightarrow> rw \<Rightarrow> db \<Rightarrow> rw \<times> db" where
  "serve_protocol D h r w db =
     (case h of
        CardHandler \<Rightarrow> card_ServeHTTP (mounted_server D) r w db
      | CalHandler \<Rightarrow> cal_ServeHTTP (mounted_server D) r w db
      | WellKnown target \<Rightarrow> (http_Redirect (sv_env (mounted_server D)) r target StatusMovedPermanently w, db))"

text \<open>The redirects of the mux carry a status that depends on the version of Go.\<close>

definition dav_handle ::
    "idkey \<Rightarrow> (string \<Rightarrow> string) \<Rightarrow> dav_server \<Rightarrow> nat \<Rightarrow> basic_request \<Rightarrow> dav_request \<Rightarrow> rw \<Rightarrow> db \<times> auth_state \<Rightarrow> rw \<times> db \<times> auth_state" where
  "dav_handle idk mac D muxStatus br r w st =
     (case st of (db, s) \<Rightarrow>
      case mux_Handler (Register D) (rq_Method r) (rq_Path r) of
        MuxRedirect path \<Rightarrow> (http_Redirect (sv_env (ds_Server D)) r path muxStatus w, db, s)
      | MuxNotFound \<Rightarrow> (http_Error ''404 page not found'' StatusNotFound w, db, s)
      | MuxHandler h \<Rightarrow>
          (case h of
             WellKnown _ \<Rightarrow> (case serve_protocol D h r w db of (w, db') \<Rightarrow> (w, db', s))
           | _ \<Rightarrow>
               (case RequireBasicAuth idk mac db br s of
                  (Challenge, s') \<Rightarrow> (challenge Realm w, db, s')
                | (TooManyAttempts n, s') \<Rightarrow> (refuse n w, db, s')
                | (ServeNext u, s') \<Rightarrow>
                    (case serve_protocol D h (r\<lparr>rq_Context := Some u\<rparr>) w db of (w, db') \<Rightarrow> (w, db', s')))))"

definition dav_serve ::
    "idkey \<Rightarrow> (string \<Rightarrow> string) \<Rightarrow> dav_server \<Rightarrow> nat \<Rightarrow> basic_request \<Rightarrow> dav_request \<Rightarrow> db \<times> auth_state \<Rightarrow> rw \<times> db \<times> auth_state" where
  "dav_serve idk mac D muxStatus br r st = dav_handle idk mac D muxStatus br r new_rw st"

definition dav_run ::
    "idkey \<Rightarrow> (string \<Rightarrow> string) \<Rightarrow> dav_server \<Rightarrow> nat \<Rightarrow> (basic_request \<times> dav_request) list \<Rightarrow> db \<times> auth_state \<Rightarrow> db \<times> auth_state" where
  "dav_run idk mac D muxStatus reqs st = foldl (\<lambda>st (br, r). snd (dav_serve idk mac D muxStatus br r st)) st reqs"

text \<open>The routes of a server with both protocols under \<open>/dav\<close>, and where some paths go.\<close>

lemma Register_both:
  "Prefix (sv_paths S) = ''/dav'' \<Longrightarrow>
   Register \<lparr>ds_Server = S, ds_CardDAVEnabled = True, ds_CalDAVEnabled = True\<rparr> =
     [(''/.well-known/carddav'', WellKnown ''/dav/''), (''/.well-known/caldav'', WellKnown ''/dav/''),
      (''/dav/addressbooks/'', CardHandler), (''/dav/calendars/'', CalHandler), (''/dav/'', CalHandler)]"
  by (simp add: Register_def server_paths_def TrimSuffix_def HasSuffix_def Let_def Root_def principalHandler_def)

definition both_routes :: "(string \<times> mounted) list" where
  "both_routes =
     [(''/.well-known/carddav'', WellKnown ''/dav/''), (''/.well-known/caldav'', WellKnown ''/dav/''),
      (''/dav/addressbooks/'', CardHandler), (''/dav/calendars/'', CalHandler), (''/dav/'', CalHandler)]"

lemma mux_samples:
  "mux_Handler both_routes ''PUT'' ''/dav/addressbooks/ada/friends/x.vcf'' = MuxHandler CardHandler"
  "mux_Handler both_routes ''PROPFIND'' ''/dav/principals/ada/'' = MuxHandler CalHandler"
  "mux_Handler both_routes ''GET'' ''/davx/y'' = MuxNotFound"
  "mux_Handler both_routes ''GET'' ''/dav/calendars/../x'' = MuxRedirect ''/dav/x''"
  "mux_Handler both_routes ''PROPFIND'' ''/dav'' = MuxRedirect ''/dav/''"
  "mux_Handler both_routes ''PROPFIND'' ''/dav/addressbooks'' = MuxRedirect ''/dav/addressbooks/''"
  by code_simp+

end
