(* ===== verification/Webdav_Facts.thy ===== *)
theory Webdav_Facts
  imports Webdav "HOL-Library.Multiset"
begin

text \<open>
  What a PROPFIND answer holds (every requested property once, under the status it deserves), and
  what reaches the client of an answer that is served.
\<close>

section \<open>Grouping by status\<close>

text \<open>The entries of a response, as written, each with the status of its group.\<close>

definition group_entries :: "PropStat \<Rightarrow> (int \<times> raw) list" where
  "group_entries p = map (\<lambda>v. (st_Code (ps_Status p), written v)) (ps_Prop p)"

definition entries :: "Response \<Rightarrow> (int \<times> raw) list" where
  "entries resp = concat (map group_entries (rs_PropStats resp))"

definition group_codes :: "Response \<Rightarrow> int list" where
  "group_codes resp = map (\<lambda>p. st_Code (ps_Status p)) (rs_PropStats resp)"

lemma encode_prop_entries:
  "mset (concat (map group_entries (encode_prop code v ps))) = add_mset (int code, written v) (mset (concat (map group_entries ps)))"
  by (induction code v ps rule: encode_prop.induct)
     (auto simp: group_entries_def status_of_def EncodeRawXMLElement_def)

lemma encode_prop_codes:
  "map (\<lambda>p. st_Code (ps_Status p)) (encode_prop code v ps) =
     (let cs = map (\<lambda>p. st_Code (ps_Status p)) ps in if int code \<in> set cs then cs else cs @ [int code])"
  by (induction code v ps rule: encode_prop.induct) (auto simp: status_of_def Let_def)

lemma encode_prop_nonempty: "list_all (\<lambda>p. ps_Prop p \<noteq> []) ps \<Longrightarrow> list_all (\<lambda>p. ps_Prop p \<noteq> []) (encode_prop code v ps)"
  by (induction code v ps rule: encode_prop.induct) auto

lemma encode_all_entries:
  "mset (entries (encode_all as resp)) = mset (map (\<lambda>(c, v). (int c, written v)) as) + mset (entries resp)"
  by (induction as resp rule: encode_all.induct) (simp_all add: EncodeProp_def entries_def encode_prop_entries)

lemma encode_all_groups:
  "distinct (group_codes resp) \<Longrightarrow> list_all (\<lambda>p. ps_Prop p \<noteq> []) (rs_PropStats resp) \<Longrightarrow>
   distinct (group_codes (encode_all as resp)) \<and> list_all (\<lambda>p. ps_Prop p \<noteq> []) (rs_PropStats (encode_all as resp)) \<and>
   rs_Hrefs (encode_all as resp) = rs_Hrefs resp \<and> rs_Status (encode_all as resp) = rs_Status resp"
proof (induction as resp rule: encode_all.induct)
  case (2 code v as resp)
  then have "distinct (group_codes (EncodeProp code v resp))"
    using encode_prop_codes [of code v "rs_PropStats resp"] by (simp add: EncodeProp_def group_codes_def Let_def)
  moreover have "list_all (\<lambda>p. ps_Prop p \<noteq> []) (rs_PropStats (EncodeProp code v resp))"
    using 2 encode_prop_nonempty by (simp add: EncodeProp_def)
  ultimately show ?case using 2(1) by (simp add: EncodeProp_def)
qed simp

lemma bare_groups [simp]:
  "entries (bare_response path) = []" "group_codes (bare_response path) = []" "rs_PropStats (bare_response path) = []"
  "rs_Hrefs (bare_response path) = [path]" "rs_Status (bare_response path) = None"
  by (simp_all add: entries_def group_codes_def bare_response_def)

section \<open>Every requested property is answered once\<close>

text \<open>A resource's properties are named as their values are.\<close>

definition well_named :: "(xname \<times> PropFindFunc) list \<Rightarrow> bool" where
  "well_named props = (\<forall>(n, f) \<in> set props. \<forall>r v. f r = Inr v \<longrightarrow> XMLName (written v) = Some n)"

text \<open>The answer to one requested element: its value, or the empty element under the status that says why not.\<close>

definition right_answer :: "(xname \<times> PropFindFunc) list \<Rightarrow> raw \<Rightarrow> int \<times> raw \<Rightarrow> bool" where
  "right_answer props r a =
     (\<exists>name. XMLName r = Some name \<and> XMLName (snd a) = Some name \<and>
        (case map_of props name of
           None \<Rightarrow> a = (404, Elem name [] [])
         | Some f \<Rightarrow> (case f r of Inl e \<Rightarrow> a = (int (HTTPErrorFromError e), Elem name [] []) | Inr v \<Rightarrow> a = (200, written v))))"

lemma well_named_resourcetype: "well_named props \<Longrightarrow> well_named (with_resourcetype props)"
  by (auto simp: well_named_def with_resourcetype_def PropFindValue_def NewResourceType_def)

lemma prop_answer_right:
  assumes "well_named props" and "XMLName r = Some name" and "prop_answer props r name = (c, v)"
  shows "right_answer props r (int c, written v)"
proof (cases "map_of props name")
  case None
  then show ?thesis using assms by (auto simp: right_answer_def prop_answer_def NewRawXMLElement_def)
next
  case (Some f)
  then have "(name, f) \<in> set props" by (rule map_of_SomeD)
  then show ?thesis
    using Some assms by (cases "f r") (fastforce simp: right_answer_def prop_answer_def NewRawXMLElement_def well_named_def)+
qed

lemma requested_right:
  "well_named props \<Longrightarrow>
   list_all2 (right_answer props) (any_elements raws) (map (\<lambda>(c, v). (int c, written v)) (requested props raws))"
proof (induction raws)
  case (Cons r raws)
  then show ?case
    using prop_answer_right [of props r] by (cases "XMLName r") (auto simp: any_elements_def split: prod.splits)
qed (simp add: any_elements_def)

text \<open>
  C26. A PROPFIND that names properties is answered with one entry for each of them: its value under 200,
  the empty element under 404 where the resource does not have it, under the status of the error where
  computing it failed. The entries are grouped by status, no two groups share one and none is empty.
\<close>

theorem propfind_answers_each_once:
  assumes "NewPropFindResponse path pf props = Inr resp" and "well_named props"
    and "fd_Prop pf = Some raws" and "\<not> fd_PropName pf" and "\<not> fd_AllProp pf"
  shows "(\<exists>as. list_all2 (right_answer (with_resourcetype props)) (any_elements raws) as \<and> mset (entries resp) = mset as) \<and>
    distinct (group_codes resp) \<and> (\<forall>p \<in> set (rs_PropStats resp). ps_Prop p \<noteq> []) \<and> rs_Hrefs resp = [path]"
proof -
  have r: "resp = encode_all (requested (with_resourcetype props) raws) (bare_response path)"
    using assms by (simp add: NewPropFindResponse_def Let_def)
  show ?thesis
    using requested_right [OF well_named_resourcetype [OF assms(2)], of raws]
      encode_all_groups [of "bare_response path" "requested (with_resourcetype props) raws"]
      encode_all_entries [of "requested (with_resourcetype props) raws" "bare_response path"]
    unfolding r by (auto simp: list_all_iff)
qed

definition sample_props :: "(xname \<times> PropFindFunc) list" where
  "sample_props =
     [(GetETagName, PropFindValue (GetETag ''abc'')), (CurrentUserPrincipalName, (\<lambda>_. Inl (HTTPError StatusUnauthorized)))]"

definition sample_request :: PropFind where
  "sample_request = NewPropNamePropFind [DisplayNameName, GetETagName, CurrentUserPrincipalName, dav ''owner'', ResourceTypeName]"

theorem propfind_answers_each_once_witness:
  "(case NewPropFindResponse ''/x'' sample_request sample_props of
      Inr resp \<Rightarrow> group_codes resp = [404, 200, 401] \<and> length (entries resp) = 5 \<and> distinct (group_codes resp) | _ \<Rightarrow> False)"
proof -
  have "case NewPropFindResponse ''/x'' sample_request sample_props of
      Inr resp \<Rightarrow> group_codes resp = [404, 200, 401] \<and> length (entries resp) = 5 | _ \<Rightarrow> False" by code_simp
  then obtain resp where r: "NewPropFindResponse ''/x'' sample_request sample_props = Inr resp"
    "group_codes resp = [404, 200, 401]" "length (entries resp) = 5"
    by (auto split: sum.splits)
  have "well_named sample_props"
    by (simp add: well_named_def sample_props_def PropFindValue_def GetETag_def)
  from propfind_answers_each_once [OF r(1) this] r show ?thesis
    by (simp add: sample_request_def NewPropNamePropFind_def no_propfind_def)
qed

section \<open>What is sent\<close>

text \<open>
  A multistatus answer goes out without the content type it sets: \<open>ServeMultiStatus\<close> writes the status
  line, and with it the header, before \<open>ServeXML\<close> adds the field. Whatever the handler had set before
  is sent; the document itself is sent whole.
\<close>

theorem multistatus_content_type_lost:
  "rw_Status w = None \<Longrightarrow> encodable (MultiStatus_el (e_StatusText E) ms) \<Longrightarrow>
   (case ServeMultiStatus E ms w of (r, w') \<Rightarrow>
      r = Inr () \<and> rw_Status w' = Some StatusMultiStatus \<and> rw_Sent w' = rw_Header w \<and>
      (''Content-Type'', ''application/xml; charset=\"utf-8\"'') \<in> set (rw_Header w') \<and>
      rw_Body w' = rw_Body w @ [XmlHeader, Document (written (MultiStatus_el (e_StatusText E) ms))])"
  by (simp add: ServeMultiStatus_def ServeXML_def WriteHeader_def Write_def header_Add_def Let_def)

definition sample_env :: env where
  "sample_env = \<lparr>e_xml = (\<lambda>_. Malformed), e_authority = (\<lambda>_. True), e_StatusText = (\<lambda>_. ''OK''), e_txt = (\<lambda>_. ''error'')\<rparr>"

theorem multistatus_content_type_lost_witness:
  "(case ServeMultiStatus sample_env (NewMultiStatus [NewOKResponse ''/x'']) new_rw of (r, w') \<Rightarrow>
      rw_Status w' = Some StatusMultiStatus \<and> rw_Sent w' = [])"
proof -
  have "encodable (MultiStatus_el (e_StatusText sample_env) (NewMultiStatus [NewOKResponse ''/x'']))" by code_simp
  from multistatus_content_type_lost [OF _ this, of new_rw] show ?thesis
    by (simp add: new_rw_def split: prod.splits)
qed

text \<open>A malformed Depth or Overwrite header is the client's error to a PROPFIND and the server's to a COPY.\<close>

lemma copy_bad_depth_is_500:
  assumes "rq_Method r = ''COPY''" and "parseDestination E r = Inr dest" and "Get ''Overwrite'' r = []"
    and "Get ''Depth'' r = ''two''" and "e_txt E PlainError = msg"
  shows "rw_Status (fst (ServeHTTP E (Some B) r new_rw s)) = Some StatusInternalServerError"
  using assms
  by (simp add: ServeHTTP_def dispatch_def handleCopyMove_def header_depth_def ParseDepth_def ServeError_def
      http_Error_def WriteHeader_def Write_def header_Set_def header_Add_def header_Del_def new_rw_def
      HTTPErrorFromError_def Let_def)

end
