(* ===== verification/Server_Facts.thy ===== *)
theory Server_Facts
  imports Routing Object_Store Webdav_Facts
begin

text \<open>
  What the DAV endpoints as a whole guarantee. The contract of a WebDAV backend is a locale: a request
  moves the state by a step its context allows, one that fails leaves it alone, one that succeeds is
  answered 201 or 204. Both protocol backends satisfy it; with the middleware, the mux and the storage
  invariants it gives the two theorems at the end, about any run of the server.
\<close>

section \<open>Backends that keep their word\<close>

text \<open>A COPY or MOVE is refused by its headers, or does what the backend does.\<close>

lemma handleCopyMove_cases:
  assumes "handleCopyMove E B r w s = ((x, w'), s')"
  obtains (refused) e where "x = Inl e" "s' = s"
  | (through) dest rec ov y where "b_Copy B r dest rec ov s = (y, s') \<or> b_Move B r dest ov s = (y, s')"
      "x = map_sum id (\<lambda>_. ()) y" "\<And>b. y = Inr b \<Longrightarrow> w' = WriteHeader (if b then StatusCreated else StatusNoContent) w"
proof -
  let ?head = "bindE (parseDestination E r) (\<lambda>dest.
      bindE (let o' = Get ''Overwrite'' r in
             if o' \<noteq> [] then (case ParseOverwrite o' of None \<Rightarrow> Inl PlainError | Some b \<Rightarrow> Inr b) else Inr True) (\<lambda>overwrite.
        case header_depth r of None \<Rightarrow> Inl PlainError | Some depth \<Rightarrow> Inr (dest, overwrite, depth)))"
  show thesis
  proof (cases ?head)
    case (Inl e)
    then show thesis using assms refused [of e] by (auto simp: handleCopyMove_def)
  next
    case (Inr h)
    obtain dest ov depth where h: "h = (dest, ov, depth)" by (cases h)
    define op where "op = (if rq_Method r = ''COPY'' then
        (case depth of
           DepthZero \<Rightarrow> b_Copy B r dest False ov s
         | DepthOne \<Rightarrow> (Inl (HTTPError StatusBadRequest), s)
         | DepthInfinity \<Rightarrow> b_Copy B r dest True ov s)
      else if depth \<noteq> DepthInfinity then (Inl (HTTPError StatusBadRequest), s)
      else b_Move B r dest ov s)"
    obtain y t where y: "op = (y, t)" by (cases op)
    have res: "((x, w'), s') = (case (y, t) of
        (Inl e, s) \<Rightarrow> ((Inl e, w), s)
      | (Inr created, s) \<Rightarrow> ((Inr (), WriteHeader (if created then StatusCreated else StatusNoContent) w), s))"
      using assms unfolding handleCopyMove_def Inr h by (simp flip: op_def y)
    then have x: "s' = t" "x = map_sum id (\<lambda>_. ()) y"
      "\<And>b. y = Inr b \<Longrightarrow> w' = WriteHeader (if b then StatusCreated else StatusNoContent) w"
      by (cases y; simp)+
    have "y = Inl (HTTPError StatusBadRequest) \<and> t = s \<or> (\<exists>rec. b_Copy B r dest rec ov s = (y, t)) \<or> b_Move B r dest ov s = (y, t)"
      using y unfolding op_def by (cases depth) (auto split: if_splits)
    then consider "y = Inl (HTTPError StatusBadRequest)" "t = s" | rec where "b_Copy B r dest rec ov s = (y, t)"
      | "b_Move B r dest ov s = (y, t)" by blast
    then show thesis
    proof cases
      case 1
      then show thesis using x refused [of "HTTPError StatusBadRequest"] by simp
    next
      case (2 rec)
      then show thesis using through [of dest rec ov y] x by simp
    next
      case 3
      then show thesis using through [of dest True ov y] x by simp
    qed
  qed
qed

locale careful_backend =
  fixes B :: "('c, 's) backend" and inv :: "'s \<Rightarrow> bool" and allowed :: "'c \<Rightarrow> 's \<Rightarrow> 's \<Rightarrow> bool"
  assumes stays: "allowed c s s"
    and put_allowed: "inv s \<Longrightarrow> allowed (rq_Context r) s (snd (b_Put B r w s))"
    and del_allowed: "inv s \<Longrightarrow> allowed (rq_Context r) s (snd (b_Delete B r s))"
    and mkcol_allowed: "inv s \<Longrightarrow> allowed (rq_Context r) s (snd (b_Mkcol B r s))"
    and copy_allowed: "inv s \<Longrightarrow> allowed (rq_Context r) s (snd (b_Copy B r dest rec ov s))"
    and move_allowed: "inv s \<Longrightarrow> allowed (rq_Context r) s (snd (b_Move B r dest ov s))"
    and put_failed: "inv s \<Longrightarrow> b_Put B r w s = ((Inl e, w'), s') \<Longrightarrow> s' = s"
    and del_failed: "inv s \<Longrightarrow> b_Delete B r s = (Inl e, s') \<Longrightarrow> s' = s"
    and mkcol_failed: "inv s \<Longrightarrow> b_Mkcol B r s = (Inl e, s') \<Longrightarrow> s' = s"
    and copy_failed: "inv s \<Longrightarrow> b_Copy B r dest rec ov s = (Inl e, s') \<Longrightarrow> s' = s"
    and move_failed: "inv s \<Longrightarrow> b_Move B r dest ov s = (Inl e, s') \<Longrightarrow> s' = s"
    and put_created: "b_Put B r w s = ((Inr x, w'), s') \<Longrightarrow> rw_Status w = None \<Longrightarrow> rw_Status w' = Some StatusCreated"
begin

text \<open>The methods that go to the backend with the state.\<close>

lemma dispatch_cases:
  assumes "dispatch E B r w s = ((x, w'), s')"
  obtains (reads) "s' = s" "rq_Method r \<notin> {''PUT'', ''DELETE'', ''MKCOL'', ''COPY'', ''MOVE''}"
  | (put) "rq_Method r = ''PUT''" "b_Put B r w s = ((x, w'), s')"
  | (delete) "rq_Method r = ''DELETE''" "ok_status StatusNoContent (b_Delete B r s) w = ((x, w'), s')"
  | (mkcol) "rq_Method r = ''MKCOL''" "ok_status StatusCreated (b_Mkcol B r s) w = ((x, w'), s')"
  | (copymove) "rq_Method r \<in> {''COPY'', ''MOVE''}" "handleCopyMove E B r w s = ((x, w'), s')"
  using assms unfolding dispatch_def Let_def by (auto split: if_splits)

lemma ok_status_Inl: "ok_status code res w = ((Inl e, w'), s') \<Longrightarrow> res = (Inl e, s')"
  by (auto simp: ok_status_def split: prod.splits sum.splits)

lemma ok_status_Inr: "ok_status code res w = ((Inr x, w'), s') \<Longrightarrow> w' = WriteHeader code w"
  by (auto simp: ok_status_def split: prod.splits sum.splits)

lemma ok_status_snd: "snd (ok_status code res w) = snd res"
  by (auto simp: ok_status_def split: prod.splits sum.splits)

lemma dispatch_allowed: "inv s \<Longrightarrow> allowed (rq_Context r) s (snd (dispatch E B r w s))"
proof -
  assume i: "inv s"
  obtain x w' s' where d: "dispatch E B r w s = ((x, w'), s')" by (metis prod.collapse)
  have "allowed (rq_Context r) s s'"
    using d
  proof (cases rule: dispatch_cases)
    case reads
    then show ?thesis using stays by simp
  next
    case put
    then show ?thesis using put_allowed [OF i, of r w] by simp
  next
    case delete
    then have "s' = snd (b_Delete B r s)" using ok_status_snd by (metis snd_conv)
    then show ?thesis using del_allowed [OF i] by simp
  next
    case mkcol
    then have "s' = snd (b_Mkcol B r s)" using ok_status_snd by (metis snd_conv)
    then show ?thesis using mkcol_allowed [OF i] by simp
  next
    case copymove
    from copymove(2) show ?thesis
    proof (cases rule: handleCopyMove_cases)
      case refused
      then show ?thesis using stays by simp
    next
      case (through dest rec ov y)
      then show ?thesis using copy_allowed [OF i, of r dest rec ov] move_allowed [OF i, of r dest ov] by auto
    qed
  qed
  then show ?thesis using d by simp
qed

lemma ServeHTTP_allowed: "inv s \<Longrightarrow> allowed (rq_Context r) s (snd (ServeHTTP E (Some B) r w s))"
  using dispatch_allowed [of s r E w] by (auto simp: ServeHTTP_def split: prod.split sum.split)

lemma dispatch_failed: "inv s \<Longrightarrow> dispatch E B r w s = ((Inl e, w'), s') \<Longrightarrow> s' = s"
  by (erule dispatch_cases)
    (auto dest!: ok_status_Inl dest: put_failed del_failed mkcol_failed copy_failed move_failed
      elim!: handleCopyMove_cases simp: map_sum_def split: sum.splits)

lemma dispatch_changed:
  assumes "inv s" and "dispatch E B r w s = ((x, w'), s')" and "s' \<noteq> s" and "rw_Status w = None"
  shows "rq_Method r \<in> {''PUT'', ''DELETE'', ''MKCOL'', ''COPY'', ''MOVE''} \<and> x = Inr () \<and>
    rw_Status w' \<in> {Some StatusCreated, Some StatusNoContent}"
proof -
  have x: "x = Inr ()" using dispatch_failed [OF assms(1), of E r w _ w' s'] assms(2,3) by (cases x) auto
  show ?thesis
    using assms(2)
  proof (cases rule: dispatch_cases)
    case reads
    then show ?thesis using assms(3) by simp
  next
    case put
    then show ?thesis using put_created assms(4) x by blast
  next
    case delete
    then show ?thesis using ok_status_Inr x assms(4) by (fastforce simp: WriteHeader_def)
  next
    case mkcol
    then show ?thesis using ok_status_Inr x assms(4) by (fastforce simp: WriteHeader_def)
  next
    case copymove
    from copymove(2) show ?thesis
    proof (cases rule: handleCopyMove_cases)
      case refused
      then show ?thesis using x by simp
    next
      case (through dest rec ov y)
      then obtain b where "y = Inr b" using x by (cases y) auto
      then show ?thesis using through(3) x copymove(1) assms(4) by (auto simp: WriteHeader_def)
    qed
  qed
qed

lemma ServeHTTP_changed:
  assumes "inv s" and "ServeHTTP E (Some B) r w s = (w', s')" and "s' \<noteq> s" and "rw_Status w = None"
  shows "rq_Method r \<in> {''PUT'', ''DELETE'', ''MKCOL'', ''COPY'', ''MOVE''} \<and>
    rw_Status w' \<in> {Some StatusCreated, Some StatusNoContent}"
proof -
  obtain x w1 s1 where d: "dispatch E B r w s = ((x, w1), s1)" by (metis prod.collapse)
  then have "s1 = s'" using assms(2) by (auto simp: ServeHTTP_def split: sum.splits)
  with dispatch_changed [OF assms(1) d _ assms(4)] assms(3)
  show ?thesis using assms(2) d by (auto simp: ServeHTTP_def)
qed

end

section \<open>The two protocols\<close>

text \<open>What a request may do: nothing without a user, one step on the collections of the user otherwise.\<close>

definition ctx_step :: "server \<Rightarrow> user option \<Rightarrow> db \<Rightarrow> db \<Rightarrow> bool" where
  "ctx_step S ctx db db' =
     (case ctx of None \<Rightarrow> db' = db | Some u \<Rightarrow> owner_step (l_hash (sv_lib S)) (sv_now S) u db db')"

lemma ctx_step_refl [simp]: "ctx_step S ctx db db"
  by (simp add: ctx_step_def owner_step.nothing split: option.split)

lemma no_user_no_write:
  "snd (CreateAddressBook p now None ab db) = db" "snd (DeleteAddressBook p None path db) = db"
  "snd (PutAddressObject L p now None path raw opts db) = db" "snd (DeleteAddressObject p now None path db) = db"
  "snd (CreateCalendar p now None ca db) = db" "snd (PutCalendarObject L p now None path raw opts db) = db"
  "snd (DeleteCalendarObject p now None path db) = db"
  by (simp_all add: CreateAddressBook_def DeleteAddressBook_def PutAddressObject_def DeleteAddressObject_def
      CreateCalendar_def PutCalendarObject_def DeleteCalendarObject_def resolveAddressBook_def resolve_def userFrom_def)

lemma ctx_step_ops:
  "ctx_step S ctx db (snd (CreateAddressBook p (sv_now S) ctx ab db))"
  "ctx_step S ctx db (snd (DeleteAddressBook p ctx path db))"
  "ctx_step S ctx db (snd (PutAddressObject (sv_lib S) p (sv_now S) ctx path raw opts db))"
  "ctx_step S ctx db (snd (DeleteAddressObject p (sv_now S) ctx path db))"
  "ctx_step S ctx db (snd (CreateCalendar p (sv_now S) ctx ca db))"
  "ctx_step S ctx db (snd (PutCalendarObject (sv_lib S) p (sv_now S) ctx path raw opts db))"
  "ctx_step S ctx db (snd (DeleteCalendarObject p (sv_now S) ctx path db))"
  by (simp_all add: ctx_step_def no_user_no_write create_owner_step delete_owner_step put_owner_step split: option.split)

lemma ctx_step_writes:
  "PutAddressObject (sv_lib S) p (sv_now S) ctx path raw opts db = (x, db') \<Longrightarrow> ctx_step S ctx db db'"
  "PutCalendarObject (sv_lib S) p (sv_now S) ctx path raw opts db = (y, db') \<Longrightarrow> ctx_step S ctx db db'"
  "CreateAddressBook p (sv_now S) ctx ab db = (z, db') \<Longrightarrow> ctx_step S ctx db db'"
  "CreateCalendar p (sv_now S) ctx ca db = (z, db') \<Longrightarrow> ctx_step S ctx db db'"
  using ctx_step_ops(1,3,5,6) by (metis snd_conv)+

lemma create_failed:
  "CreateAddressBook p now ctx ab db = (Inl e, db') \<Longrightarrow> db' = db"
  "CreateCalendar p now ctx ca db = (Inl e, db') \<Longrightarrow> db' = db"
  by (auto simp: CreateAddressBook_def CreateCalendar_def dest: CreateCollection_error
      split: sum.splits prod.splits serror.splits if_splits)

lemma delete_book_failed: "DeleteAddressBook p ctx path db = (Inl e, db') \<Longrightarrow> db' = db"
  by (auto simp: DeleteAddressBook_def mapE_def delete_collection_error dest!: resolveAddressBook_Inr split: sum.splits prod.splits)

text \<open>
  A PUT is refused before it reaches the backend, or is the backend's; only then is it answered 201.
\<close>

lemma cal_Put_cases:
  assumes "cal_Put S r w db = ((x, w'), db')"
  obtains (refused) e where "x = Inl e" "db' = db"
  | (through) raw y where
      "PutCalendarObject (sv_lib S) (sv_paths S) (sv_now S) (rq_Context r) (rq_Path r) raw (Some (cal_PutOptions r)) db = (y, db')"
      "x = map_sum id (\<lambda>_. ()) y" "\<And>co. y = Inr co \<Longrightarrow> rw_Status w = None \<Longrightarrow> rw_Status w' = Some StatusCreated"
proof -
  have sts: "rw_Status (set_if b k v w1) = rw_Status w1" for b k v w1
    by (simp add: set_if_def header_Set_def header_Add_def header_Del_def)
  show thesis
  proof (cases "\<exists>e. x = Inl e \<and> db' = db")
    case False
    then obtain raw where "read_body cal_MaxResourceSize r = Some raw" "l_dec_cal (sv_lib S) raw \<noteq> None"
      "snd (ParseMediaType (Get ''Content-Type'' r)) = False" "fst (ParseMediaType (Get ''Content-Type'' r)) = ical_MIMEType"
      using assms by (auto simp: cal_Put_def split: prod.splits option.splits if_splits)
    then show thesis
      using assms through [of raw "fst (PutCalendarObject (sv_lib S) (sv_paths S) (sv_now S) (rq_Context r) (rq_Path r) raw (Some (cal_PutOptions r)) db)"]
      by (auto simp: cal_Put_def Let_def WriteHeader_def sts split: prod.splits sum.splits)
  qed (use refused in blast)
qed

lemma card_Put_cases:
  assumes "card_Put S r w db = ((x, w'), db')"
  obtains (refused) e where "x = Inl e" "db' = db"
  | (through) raw y where
      "PutAddressObject (sv_lib S) (sv_paths S) (sv_now S) (rq_Context r) (rq_Path r) raw (Some (card_PutOptions r)) db = (y, db')"
      "x = map_sum id (\<lambda>_. ()) y" "\<And>ao. y = Inr ao \<Longrightarrow> rw_Status w = None \<Longrightarrow> rw_Status w' = Some StatusCreated"
proof -
  have sts: "rw_Status (set_if b k v w1) = rw_Status w1" for b k v w1
    by (simp add: set_if_def header_Set_def header_Add_def header_Del_def)
  show thesis
  proof (cases "\<exists>e. x = Inl e \<and> db' = db")
    case False
    then obtain raw where "read_body card_MaxResourceSize r = Some raw" "l_dec_card (sv_lib S) raw \<noteq> None"
      "snd (ParseMediaType (Get ''Content-Type'' r)) = False" "fst (ParseMediaType (Get ''Content-Type'' r)) = vcard_MIMEType"
      using assms by (auto simp: card_Put_def split: prod.splits option.splits if_splits)
    then show thesis
      using assms through [of raw "fst (PutAddressObject (sv_lib S) (sv_paths S) (sv_now S) (rq_Context r) (rq_Path r) raw (Some (card_PutOptions r)) db)"]
      by (auto simp: card_Put_def Let_def WriteHeader_def sts split: prod.splits sum.splits)
  qed (use refused in blast)
qed

lemma map_sum_Inl: "Inl e = map_sum id (\<lambda>_. ()) y \<longleftrightarrow> y = Inl e"
  by (cases y) auto

lemma map_sum_Inr: "Inr u = map_sum id (\<lambda>_. ()) y \<longleftrightarrow> (\<exists>a. y = Inr a)"
  by (cases y) auto

lemma Mkcol_cases:
  assumes "cal_Mkcol S r db = (x, db')"
  obtains (refused) e where "x = Inl e" "db' = db"
  | (through) ca where "CreateCalendar (sv_paths S) (sv_now S) (rq_Context r) ca db = (x, db')"
  using assms unfolding cal_Mkcol_def by (auto split: if_splits sum.splits)

lemma card_Mkcol_cases:
  assumes "card_Mkcol S r db = (x, db')"
  obtains (refused) e where "x = Inl e" "db' = db"
  | (through) ab where "CreateAddressBook (sv_paths S) (sv_now S) (rq_Context r) ab db = (x, db')"
  using assms unfolding card_Mkcol_def by (auto split: if_splits sum.splits prod.splits)

interpretation cal: careful_backend "cal_backend S" "db_ok (l_hash (sv_lib S))" "ctx_step S" for S
proof (unfold_locales, goal_cases)
  case (2 db r w)
  obtain x w' db' where p: "cal_Put S r w db = ((x, w'), db')" by (metis prod.collapse)
  have "ctx_step S (rq_Context r) db db'"
    using p by (cases rule: cal_Put_cases) (auto dest: ctx_step_writes)
  then show ?case using p by (simp add: cal_backend_def)
next
  case (3 db r)
  then show ?case using ctx_step_ops(7) [of S] by (simp add: cal_backend_def cal_Delete_def)
next
  case (4 db r)
  obtain x db' where p: "cal_Mkcol S r db = (x, db')" by fastforce
  have "ctx_step S (rq_Context r) db db'"
    using p by (cases rule: Mkcol_cases) (auto dest: ctx_step_writes)
  then show ?case using p by (simp add: cal_backend_def)
next
  case (7 db r w e w' db')
  then have "cal_Put S r w db = ((Inl e, w'), db')" by (simp add: cal_backend_def)
  then show ?case by (cases rule: cal_Put_cases) (auto simp: map_sum_Inl dest: cal_put_error [OF 7(1)])
next
  case (8 db r e db')
  then show ?case using cal_del_error by (fastforce simp: cal_backend_def cal_Delete_def)
next
  case (9 db r e db')
  then have "cal_Mkcol S r db = (Inl e, db')" by (simp add: cal_backend_def)
  then show ?case by (cases rule: Mkcol_cases) (auto dest: create_failed)
next
  case (12 r w db x w' db')
  then have "cal_Put S r w db = ((Inr x, w'), db')" by (simp add: cal_backend_def)
  then show ?case using 12(2) by (cases rule: cal_Put_cases) (auto simp: map_sum_Inr)
qed (simp_all add: cal_backend_def not_implemented_def)

interpretation card: careful_backend "card_backend S" "db_ok (l_hash (sv_lib S))" "ctx_step S" for S
proof (unfold_locales, goal_cases)
  case (2 db r w)
  obtain x w' db' where p: "card_Put S r w db = ((x, w'), db')" by (metis prod.collapse)
  have "ctx_step S (rq_Context r) db db'"
    using p by (cases rule: card_Put_cases) (auto dest: ctx_step_writes)
  then show ?case using p by (simp add: card_backend_def)
next
  case (3 db r)
  then show ?case using ctx_step_ops(2,4) [of S] by (simp add: card_backend_def card_Delete_def Let_def)
next
  case (4 db r)
  obtain x db' where p: "card_Mkcol S r db = (x, db')" by fastforce
  have "ctx_step S (rq_Context r) db db'"
    using p by (cases rule: card_Mkcol_cases) (auto dest: ctx_step_writes)
  then show ?case using p by (simp add: card_backend_def)
next
  case (7 db r w e w' db')
  then have "card_Put S r w db = ((Inl e, w'), db')" by (simp add: card_backend_def)
  then show ?case by (cases rule: card_Put_cases) (auto simp: map_sum_Inl dest: card_put_error [OF 7(1)])
next
  case (8 db r e db')
  then show ?case using card_del_error delete_book_failed
    by (fastforce simp: card_backend_def card_Delete_def Let_def split: if_splits)
next
  case (9 db r e db')
  then have "card_Mkcol S r db = (Inl e, db')" by (simp add: card_backend_def)
  then show ?case by (cases rule: card_Mkcol_cases) (auto dest: create_failed)
next
  case (12 r w db x w' db')
  then have "card_Put S r w db = ((Inr x, w'), db')" by (simp add: card_backend_def)
  then show ?case using 12(2) by (cases rule: card_Put_cases) (auto simp: map_sum_Inr)
qed (simp_all add: card_backend_def not_implemented_def)

section \<open>What a user sees\<close>

text \<open>The answers that do not depend on the rows of others: all but those of the methods that write.\<close>

definition writing :: "string \<Rightarrow> bool" where
  "writing m = (m \<in> {''PUT'', ''DELETE'', ''MKCOL'', ''COPY'', ''MOVE''})"

lemma reads_same:
  assumes o: "b_Options B r s' = b_Options B r s" and g: "b_HeadGet B r w s' = b_HeadGet B r w s"
    and f: "\<And>pf d. b_PropFind B r pf d s' = b_PropFind B r pf d s" and p: "\<And>u. b_PropPatch B r u s' = b_PropPatch B r u s"
    and m: "\<not> writing (rq_Method r)"
  shows "fst (ServeHTTP E (Some B) r w s') = fst (ServeHTTP E (Some B) r w s)"
proof -
  have h: "handleOptions B r w s' = handleOptions B r w s" "handlePropfind E B r w s' = handlePropfind E B r w s"
    "handleProppatch E B r w s' = handleProppatch E B r w s"
    unfolding handleOptions_def handlePropfind_def handleProppatch_def o f p by (rule refl)+
  have ne: "rq_Method r \<noteq> ''PUT''" "rq_Method r \<noteq> ''DELETE''" "rq_Method r \<noteq> ''MKCOL''"
    "\<not> (rq_Method r = ''COPY'' \<or> rq_Method r = ''MOVE'')"
    using m by (auto simp: writing_def)
  have d: "fst (dispatch E B r w s') = fst (dispatch E B r w s)"
    unfolding dispatch_def Let_def if_not_P [OF ne(1)] if_not_P [OF ne(2)] if_not_P [OF ne(3)] if_not_P [OF ne(4)] h g
    by (simp only: fst_conv if_distrib [where f = fst])
  have "fst (ServeHTTP E (Some B) r w t) =
      (case fst (dispatch E B r w t) of (Inl e, w) \<Rightarrow> ServeError E e w | (Inr _, w) \<Rightarrow> w)" for t
    by (simp add: ServeHTTP_def split: prod.split sum.split)
  then show ?thesis using d by simp
qed

lemma same_lists:
  assumes "same_for (u_ID u) db db'"
  shows "ListCalendars p (Some u) db' = ListCalendars p (Some u) db"
    "GetCalendar p (Some u) path db' = GetCalendar p (Some u) path db"
    "ListAddressBooks p (Some u) db' = ListAddressBooks p (Some u) db"
    "GetAddressBook p (Some u) path db' = GetAddressBook p (Some u) path db"
    "ListAddressObjects L p (Some u) path req db' = ListAddressObjects L p (Some u) path req db"
    "QueryAddressObjects L p (Some u) path q db' = QueryAddressObjects L p (Some u) path q db"
  by (simp_all add: ListCalendars_def GetCalendar_def ListAddressBooks_def GetAddressBook_def ListAddressObjects_def
      QueryAddressObjects_def userFrom_def same_ListCollections [OF assms] same_resolveCalendar [OF assms]
      same_resolveAddressBook [OF assms] same_reads_cards [OF assms])

lemma cal_same_answer:
  assumes same: "same_for (u_ID u) db db'" and ctx: "rq_Context r = Some u" and m: "\<not> writing (rq_Method r)"
  shows "fst (cal_ServeHTTP S r w db') = fst (cal_ServeHTTP S r w db)"
proof -
  note eqs = same_lists [OF same] same_reads_events [OF same]
  have objs: "propFindAllCalendarObjects S (Some u) pf ca db' = propFindAllCalendarObjects S (Some u) pf ca db" for pf ca
    by (simp add: propFindAllCalendarObjects_def eqs)
  have cals: "propFindAllCalendars S (Some u) pf rec db' = propFindAllCalendars S (Some u) pf rec db" for pf rec
    by (simp add: propFindAllCalendars_def eqs objs cong: if_cong)
  have one: "cal_multiget_one S (Some u) mg dr db' = cal_multiget_one S (Some u) mg dr db" for mg dr
    by (simp add: cal_multiget_one_def eqs fun_eq_iff)
  have "cal_handleQuery S r q db' = cal_handleQuery S r q db" "cal_handleMultiget S r mg db' = cal_handleMultiget S r mg db"
    "cal_handleSyncCollection S r sy db' = cal_handleSyncCollection S r sy db" for q mg sy
    unfolding cal_handleQuery_def cal_handleMultiget_def cal_handleSyncCollection_def ctx eqs one by (rule refl)+
  note reports = this
  have "cal_handleReport S r w db' = cal_handleReport S r w db"
    unfolding cal_handleReport_def reports by (rule refl)
  note report = this
  have "cal_Options S r db' = cal_Options S r db" "cal_HeadGet S r w db' = cal_HeadGet S r w db"
    "cal_PropFind S r pf depth db' = cal_PropFind S r pf depth db" for pf depth
    by (simp_all add: cal_Options_def cal_HeadGet_def cal_PropFind_def ctx eqs objs cals cong: if_cong)
  then have "fst (ServeHTTP E (Some (cal_backend S)) r w db') = fst (ServeHTTP E (Some (cal_backend S)) r w db)" for E
    by (intro reads_same m) (simp_all add: cal_backend_def)
  then show ?thesis unfolding cal_ServeHTTP_def report by (simp split: sum.split prod.split)
qed

lemma card_same_answer:
  assumes same: "same_for (u_ID u) db db'" and ctx: "rq_Context r = Some u" and m: "\<not> writing (rq_Method r)"
  shows "fst (card_ServeHTTP S r w db') = fst (card_ServeHTTP S r w db)"
proof -
  note eqs = same_lists [OF same] same_reads_cards [OF same]
  have objs: "propFindAllAddressObjects S (Some u) pf ab db' = propFindAllAddressObjects S (Some u) pf ab db" for pf ab
    by (simp add: propFindAllAddressObjects_def eqs)
  have books: "propFindAllAddressBooks S (Some u) pf rec db' = propFindAllAddressBooks S (Some u) pf rec db" for pf rec
    by (simp add: propFindAllAddressBooks_def eqs objs cong: if_cong)
  have one: "card_multiget_one S (Some u) mg dr db' = card_multiget_one S (Some u) mg dr db" for mg dr
    by (simp add: card_multiget_one_def eqs fun_eq_iff)
  have "card_handleQuery S r q db' = card_handleQuery S r q db" "card_handleMultiget S r mg db' = card_handleMultiget S r mg db"
    "card_handleSyncCollection S r sy db' = card_handleSyncCollection S r sy db" for q mg sy
    unfolding card_handleQuery_def card_handleMultiget_def card_handleSyncCollection_def ctx eqs one by (rule refl)+
  note reports = this
  have "card_handleReport S r w db' = card_handleReport S r w db"
    unfolding card_handleReport_def reports by (rule refl)
  note report = this
  have "card_Options S r db' = card_Options S r db" "card_HeadGet S r w db' = card_HeadGet S r w db"
    "card_PropFind S r pf depth db' = card_PropFind S r pf depth db"
    "card_PropPatch S r up db' = card_PropPatch S r up db" for pf depth up
    by (simp_all add: card_Options_def card_HeadGet_def card_PropFind_def card_PropPatch_def ctx eqs objs books cong: if_cong)
  then have "fst (ServeHTTP E (Some (card_backend S)) r w db') = fst (ServeHTTP E (Some (card_backend S)) r w db)" for E
    by (intro reads_same m) (simp_all add: card_backend_def)
  then show ?thesis unfolding card_ServeHTTP_def report by (simp split: sum.split prod.split)
qed

section \<open>One request of the server\<close>

lemma protocol_step:
  assumes ok: "db_ok (l_hash (sv_lib (ds_Server D))) db" and s: "serve_protocol D h r w0 db = (w, db')"
    and new: "rw_Status w0 = None"
  shows "ctx_step (ds_Server D) (rq_Context r) db db'"
    and "db' \<noteq> db \<Longrightarrow> writing (rq_Method r) \<and> rw_Status w \<in> {Some StatusCreated, Some StatusNoContent}"
proof -
  let ?S = "mounted_server D"
  have lib: "sv_lib ?S = sv_lib (ds_Server D)" "sv_now ?S = sv_now (ds_Server D)" by (simp_all add: mounted_server_def)
  have st: "ctx_step (ds_Server D) = ctx_step ?S" by (simp add: ctx_step_def lib fun_eq_iff cong: option.case_cong)
  have ok': "db_ok (l_hash (sv_lib ?S)) db" using ok lib by simp
  have cal: "ctx_step ?S (rq_Context r) db d \<and> (d \<noteq> db \<longrightarrow> writing (rq_Method r) \<and> rw_Status v \<in> {Some StatusCreated, Some StatusNoContent})"
    if "cal_ServeHTTP ?S r w0 db = (v, d)" for v d
    using that cal.ServeHTTP_allowed [where S = ?S, OF ok', of r "sv_env ?S" w0]
      cal.ServeHTTP_changed [where S = ?S, OF ok' _ _ new, of "sv_env ?S" r v d]
    by (auto simp: cal_ServeHTTP_def writing_def split: if_splits sum.splits prod.splits)
  have card: "ctx_step ?S (rq_Context r) db d \<and> (d \<noteq> db \<longrightarrow> writing (rq_Method r) \<and> rw_Status v \<in> {Some StatusCreated, Some StatusNoContent})"
    if "card_ServeHTTP ?S r w0 db = (v, d)" for v d
    using that card.ServeHTTP_allowed [where S = ?S, OF ok', of r "sv_env ?S" w0]
      card.ServeHTTP_changed [where S = ?S, OF ok' _ _ new, of "sv_env ?S" r v d]
    by (auto simp: card_ServeHTTP_def writing_def split: if_splits sum.splits prod.splits)
  show "ctx_step (ds_Server D) (rq_Context r) db db'"
    and "db' \<noteq> db \<Longrightarrow> writing (rq_Method r) \<and> rw_Status w \<in> {Some StatusCreated, Some StatusNoContent}"
    using s cal card unfolding st by (cases h; auto simp: serve_protocol_def)+
qed

text \<open>A request carries the credentials of \<open>u\<close>.\<close>

definition proves :: "idkey \<Rightarrow> basic_request \<Rightarrow> user \<Rightarrow> bool" where
  "proves idk br u =
     (case br_Credentials br of
        None \<Rightarrow> False
      | Some (name, p) \<Rightarrow> EqualFold (u_Username u) name \<and> VerifyPassword idk (u_PasswordHash u) p = Inr ())"

definition server_inv :: "idkey \<Rightarrow> (string \<Rightarrow> string) \<Rightarrow> dav_server \<Rightarrow> db \<times> auth_state \<Rightarrow> bool" where
  "server_inv idk mac D st =
     (case st of (db, c, t) \<Rightarrow> db_ok (l_hash (sv_lib (ds_Server D))) db \<and> names_ok db \<and> cache_sound idk mac c)"

lemma middleware_proves:
  assumes "cache_sound idk mac c" and "inj mac" and "names_ok db" and "br_Granted br"
    and "RequireBasicAuth idk mac db br (c, t) = (ServeNext u, c', t')"
  shows "u \<in> set (users db) \<and> proves idk br u"
proof -
  from step_transparent [OF assms] have "uncached_step idk db br t = (ServeNext u, t')" by simp
  with uncached_serves [of idk "[(db, br)]" t] show ?thesis
    by (simp add: proves_def) (auto split: prod.splits option.splits)
qed

lemma dav_handle_step:
  assumes inv: "server_inv idk mac D (db, c, t)" and mac: "inj mac" and g: "br_Granted br"
    and w0: "rw_Status w0 = None" and s: "dav_handle idk mac D ms br r w0 (db, c, t) = (w, db', c', t')"
  shows "cache_sound idk mac c' \<and>
    (db' = db \<or> (\<exists>u. u \<in> set (users db) \<and> proves idk br u \<and>
       owner_step (l_hash (sv_lib (ds_Server D))) (sv_now (ds_Server D)) u db db' \<and>
       writing (rq_Method r) \<and> rw_Status w \<in> {Some StatusCreated, Some StatusNoContent}))"
proof -
  have i: "db_ok (l_hash (sv_lib (ds_Server D))) db" "names_ok db" "cache_sound idk mac c"
    using inv by (simp_all add: server_inv_def)
  obtain a c1 t1 where a: "RequireBasicAuth idk mac db br (c, t) = (a, c1, t1)" by (metis prod.collapse)
  have c1: "cache_sound idk mac c1" using step_transparent [OF i(3) mac i(2) g a] by simp
  show ?thesis
  proof (cases "mux_Handler (Register D) (rq_Method r) (rq_Path r)")
    case (MuxHandler h)
    show ?thesis
    proof (cases "\<exists>u. a = ServeNext u \<and> (\<forall>x. h \<noteq> WellKnown x)")
      case True
      then obtain u where u: "a = ServeNext u" "\<And>x. h \<noteq> WellKnown x" by blast
      have p: "serve_protocol D h (r\<lparr>rq_Context := Some u\<rparr>) w0 db = (w, db')" "c' = c1"
        using s u a MuxHandler by (cases h; auto simp: dav_handle_def split: prod.splits)+
      have "u \<in> set (users db) \<and> proves idk br u" using middleware_proves [OF i(3) mac i(2) g] a u(1) by blast
      then show ?thesis using protocol_step [OF i(1) p(1) w0] c1 p(2) by (auto simp: ctx_step_def)
    next
      case False
      then have "db' = db \<and> (c' = c1 \<or> c' = c)"
        using s a MuxHandler by (cases h; cases a) (auto simp: dav_handle_def serve_protocol_def)
      then show ?thesis using c1 i(3) by auto
    qed
  qed (use s i(3) in \<open>auto simp: dav_handle_def\<close>)
qed

lemma new_rw_open: "rw_Status new_rw = None"
  by (simp add: new_rw_def)

lemmas dav_serve_step = dav_handle_step [OF _ _ _ new_rw_open, folded dav_serve_def]

lemma dav_serve_inv:
  assumes inv: "server_inv idk mac D st" and "inj mac" and "br_Granted br"
  shows "server_inv idk mac D (snd (dav_serve idk mac D ms br r st))"
proof -
  obtain db c t where st: "st = (db, c, t)" by (cases st)
  obtain w db' c' t' where s: "dav_serve idk mac D ms br r (db, c, t) = (w, db', c', t')" by (metis prod.collapse)
  have i: "db_ok (l_hash (sv_lib (ds_Server D))) db" "names_ok db" using inv st by (simp_all add: server_inv_def)
  have "db_ok (l_hash (sv_lib (ds_Server D))) db' \<and> names_ok db' \<and> cache_sound idk mac c'"
    using dav_serve_step [OF inv [unfolded st] assms(2,3) s] i owner_step_ok owner_step_kept
    by (auto simp: names_ok_def others_kept_def)
  then show ?thesis using s st by (simp add: server_inv_def)
qed

section \<open>Runs of the server\<close>

definition fresh_auth :: auth_state where
  "fresh_auth = (newCredentialCache DefaultCredentialTTL, NewLoginThrottle)"

lemma fresh_inv:
  "db_ok (l_hash (sv_lib (ds_Server D))) db \<Longrightarrow> names_ok db \<Longrightarrow> server_inv idk mac D (db, fresh_auth)"
  by (simp add: server_inv_def fresh_auth_def cache_sound_def newCredentialCache_def)

lemma dav_run_inv:
  "inj mac \<Longrightarrow> list_all (\<lambda>(br, r). br_Granted br) reqs \<Longrightarrow> server_inv idk mac D st \<Longrightarrow>
   server_inv idk mac D (dav_run idk mac D ms reqs st)"
proof (induction reqs arbitrary: st)
  case (Cons x reqs)
  then show ?case using dav_serve_inv [of idk mac D st "fst x" ms "snd x"] by (cases x) (simp add: dav_run_def)
qed (simp add: dav_run_def)

lemma same_answer:
  "same_for (u_ID u) db db' \<Longrightarrow> rq_Context r = Some u \<Longrightarrow> \<not> writing (rq_Method r) \<Longrightarrow>
   fst (serve_protocol D h r new_rw db') = fst (serve_protocol D h r new_rw db)"
  by (cases h) (simp_all add: serve_protocol_def cal_same_answer card_same_answer)

lemma same_user:
  assumes "db_ok hash db" and "u \<in> set (users db)" and "v \<in> set (users db)" and "u_ID u = u_ID v"
  shows "u = v"
  using assms by (auto simp: db_ok_def users_ok_def distinct_map inj_on_def)

lemma others_request_same:
  assumes inv: "server_inv idk mac D (db, c, t)" and mac: "inj mac" and g: "br_Granted br" and np: "\<not> proves idk br u"
    and u: "u \<in> set (users db)" and s: "dav_serve idk mac D ms br r0 (db, c, t) = (w, db', c', t')"
  shows "same_for (u_ID u) db db' \<and> users db' = users db"
proof (cases "db' = db")
  case True
  then show ?thesis by (simp add: same_for_def)
next
  case False
  let ?h = "l_hash (sv_lib (ds_Server D))" and ?now = "sv_now (ds_Server D)"
  have ok: "db_ok ?h db" using inv by (simp add: server_inv_def)
  obtain v where v: "v \<in> set (users db)" "proves idk br v" "owner_step ?h ?now v db db'"
    using dav_serve_step [OF inv mac g s] False by blast
  have "u_ID u \<noteq> u_ID v" using same_user [OF ok u v(1)] np v(2) by blast
  then show ?thesis
    using others_kept_same [OF ok owner_step_ok [OF v(3) ok] owner_step_kept [OF v(3) ok]] owner_step_kept [OF v(3) ok]
    by (simp add: others_kept_def)
qed

lemma dav_run_users:
  "inj mac \<Longrightarrow> server_inv idk mac D st \<Longrightarrow> list_all (\<lambda>(br, r). br_Granted br) reqs \<Longrightarrow>
   users (fst (dav_run idk mac D ms reqs st)) = users (fst st)"
proof (induction reqs arbitrary: st)
  case (Cons x reqs)
  obtain br r where x: "x = (br, r)" by (cases x)
  obtain db c t where st: "st = (db, c, t)" by (cases st)
  obtain w1 db1 c1 t1 where s1: "dav_serve idk mac D ms br r (db, c, t) = (w1, db1, c1, t1)" by (metis prod.collapse)
  have ok: "db_ok (l_hash (sv_lib (ds_Server D))) db" using Cons.prems(2) st by (simp add: server_inv_def)
  have "users db1 = users db"
    using dav_serve_step [OF _ Cons.prems(1) _ s1] Cons.prems x st owner_step_kept [OF _ ok] by (fastforce simp: others_kept_def)
  moreover have "server_inv idk mac D (db1, c1, t1)"
    using dav_serve_inv [OF Cons.prems(2,1), of br ms r] Cons.prems(3) x st s1 by simp
  ultimately show ?case using Cons.IH [of "(db1, c1, t1)"] Cons.prems(1,3) x st s1 by (simp add: dav_run_def)
qed (simp add: dav_run_def)

section \<open>A server for the witnesses\<close>

text \<open>Two users with the password ''secret'', an address book of Ada's; Bob and a guesser try to delete her card.\<close>

definition secret_hash :: string where
  "secret_hash = HashPassword sample_idkey ''0123456789abcdef'' ''secret''"

definition with_hash :: "string \<Rightarrow> db" where
  "with_hash h = sample_server\<lparr>users := [(user_named 1 ''ada'')\<lparr>u_PasswordHash := h\<rparr>, (user_named 2 ''bob'')\<lparr>u_PasswordHash := h\<rparr>]\<rparr>"

definition sample_dav :: dav_server where
  "sample_dav = \<lparr>ds_Server = \<lparr>sv_env = sample_env, sv_lib = sample_lib, sv_paths = sample_paths, sv_now = 50,
     sv_enc_cal = (\<lambda>_. None), sv_enc_card = (\<lambda>_. None)\<rparr>, ds_CardDAVEnabled = True, ds_CalDAVEnabled = True\<rparr>"

definition card_request :: "string \<Rightarrow> user option \<Rightarrow> dav_request" where
  "card_request m ctx = \<lparr>rq_Method = m, rq_Path = ''/dav/addressbooks/ada/friends/x.vcf'', rq_Header = [], rq_Body = None, rq_Context = ctx\<rparr>"

definition as_user :: "string \<Rightarrow> string \<Rightarrow> basic_request" where
  "as_user name p = \<lparr>br_Credentials = Some (name, p), br_Now = 1, br_Granted = True\<rparr>"

lemma secret_verifies:
  "VerifyPassword sample_idkey secret_hash ''secret'' = Inr ()" "VerifyPassword sample_idkey secret_hash ''guess'' \<noteq> Inr ()"
  by (simp_all add: secret_hash_def sample_verify sample_idkey_def)

lemma with_hash_inv:
  "db_ok (l_hash (sv_lib (ds_Server sample_dav))) (with_hash h)" "NUL \<notin> set h \<Longrightarrow> names_ok (with_hash h)"
proof -
  have ids: "map u_ID (users sample_server) = [1, 2]" by code_simp
  have ab: "lower_char (CHR ''a'') \<noteq> lower_char (CHR ''b'')" by code_simp
  have "u_ID ` set (users sample_server) = {1, 2}" by (simp only: ids flip: set_map) simp
  then show "db_ok (l_hash (sv_lib (ds_Server sample_dav))) (with_hash h)"
    using sample_server_ok by (simp add: sample_dav_def db_ok_def users_ok_def with_hash_def user_named_def ToLower_def ab)
  show "NUL \<notin> set h \<Longrightarrow> names_ok (with_hash h)"
    by (simp add: names_ok_def with_hash_def user_named_def)
qed

lemma secret_hash_no_NUL: "NUL \<notin> set secret_hash"
  by (simp add: secret_hash_def HashPassword_def hashPasswordWith_def format_hash_no_NUL)

lemma sample_login:
  "RequireBasicAuth sample_idkey (\<lambda>s. s) (with_hash secret_hash) (as_user ''ada'' ''secret'') fresh_auth =
   (ServeNext ((user_named 1 ''ada'')\<lparr>u_PasswordHash := secret_hash\<rparr>),
    snd (RequireBasicAuth sample_idkey (\<lambda>s. s) (with_hash secret_hash) (as_user ''ada'' ''secret'') fresh_auth))"
  by (simp add: RequireBasicAuth_def fresh_auth_def as_user_def authenticate_def with_hash_def user_named_def newCredentialCache_def
     NewLoginThrottle_def newThrottle_def allow_def Authenticate_def UserByUsername_def nocase_eq_def withVerificationSlot_def verified_def secret_verifies)

lemma sample_delete:
  "(case serve_protocol sample_dav CardHandler (card_request ''DELETE'' (Some ((user_named 1 ''ada'')\<lparr>u_PasswordHash := h\<rparr>))) new_rw (with_hash h) of
     (w, db') \<Rightarrow> rw_Status w = Some StatusNoContent \<and> length (objects db') < length (objects (with_hash h)))"
  by code_simp

text \<open>
  C1. The whole server, from the credentials to the database. Whatever requests came before, a request
  that changes anything is a PUT, DELETE, MKCOL, COPY or MOVE that is answered 201 or 204, it carried a
  name and a password that verify for a user of the database, and it kept every row of every other user.
\<close>

theorem dav_change_authorised:
  assumes "inj mac" and "db_ok (l_hash (sv_lib (ds_Server D))) db0" and "names_ok db0"
    and "list_all (\<lambda>(br, r). br_Granted br) reqs" and "br_Granted br"
    and "dav_serve idk mac D ms br r (dav_run idk mac D ms reqs (db0, fresh_auth)) = (w, db', s')"
    and "db' \<noteq> fst (dav_run idk mac D ms reqs (db0, fresh_auth))"
  shows "\<exists>u. u \<in> set (users db0) \<and> proves idk br u \<and>
    others_kept (u_ID u) (fst (dav_run idk mac D ms reqs (db0, fresh_auth))) db' \<and>
    writing (rq_Method r) \<and> rw_Status w \<in> {Some StatusCreated, Some StatusNoContent}"
proof -
  obtain db c t where run: "dav_run idk mac D ms reqs (db0, fresh_auth) = (db, c, t)" by (metis prod.collapse)
  note i0 = fresh_inv [OF assms(2,3), of idk mac]
  have i: "server_inv idk mac D (db, c, t)" using dav_run_inv [OF assms(1,4) i0, of ms] run by simp
  obtain c' t' where s': "s' = (c', t')" by (cases s')
  have "db_ok (l_hash (sv_lib (ds_Server D))) db" using i by (simp add: server_inv_def)
  moreover have "users db = users db0" using dav_run_users [OF assms(1) i0 assms(4), of ms] run by simp
  ultimately show ?thesis
    using dav_serve_step [OF i assms(1,5), of ms r w db' c' t'] assms(6,7) run s' owner_step_kept by fastforce
qed

theorem dav_change_authorised_witness:
  "(case dav_serve sample_idkey (\<lambda>s. s) sample_dav 301 (as_user ''ada'' ''secret'') (card_request ''DELETE'' None)
      (with_hash secret_hash, fresh_auth) of (w, db', s') \<Rightarrow>
     \<exists>u. proves sample_idkey (as_user ''ada'' ''secret'') u \<and> others_kept (u_ID u) (with_hash secret_hash) db' \<and>
       rw_Status w \<in> {Some StatusCreated, Some StatusNoContent} \<and> db' \<noteq> with_hash secret_hash)"
proof -
  obtain w db' s' where s: "dav_serve sample_idkey (\<lambda>s. s) sample_dav 301 (as_user ''ada'' ''secret'') (card_request ''DELETE'' None)
      (dav_run sample_idkey (\<lambda>s. s) sample_dav 301 [] (with_hash secret_hash, fresh_auth)) = (w, db', s')"
    by (metis prod.collapse)
  have mux: "mux_Handler (Register sample_dav) (rq_Method (card_request ''DELETE'' None)) (rq_Path (card_request ''DELETE'' None)) = MuxHandler CardHandler" by code_simp
  obtain d where d: "serve_protocol sample_dav CardHandler ((card_request ''DELETE'' None)
      \<lparr>rq_Context := Some ((user_named 1 ''ada'')\<lparr>u_PasswordHash := secret_hash\<rparr>)\<rparr>) new_rw (with_hash secret_hash) = d" by blast
  have run: "dav_run sample_idkey (\<lambda>s. s) sample_dav 301 [] (with_hash secret_hash, fresh_auth) = (with_hash secret_hash, fresh_auth)"
    by (simp add: dav_run_def)
  have "snd d = db'"
    using s unfolding run dav_serve_def dav_handle_def prod.case mux mux_answer.case mounted.case
    by (subst (asm) sample_login) (simp add: d case_prod_beta)
  then have "length (objects db') < length (objects (with_hash secret_hash))"
    using sample_delete [of secret_hash] d by (auto simp: card_request_def)
  then have ne: "db' \<noteq> with_hash secret_hash" by auto
  have "br_Granted (as_user ''ada'' ''secret'')" by (simp add: as_user_def)
  from dav_change_authorised [OF inj_on_id2 with_hash_inv(1) with_hash_inv(2) [OF secret_hash_no_NUL] _ this s] ne
  obtain u where "proves sample_idkey (as_user ''ada'' ''secret'') u" "others_kept (u_ID u) (with_hash secret_hash) db'"
    "rw_Status w \<in> {Some StatusCreated, Some StatusNoContent}" by (auto simp: run)
  then show ?thesis using s [unfolded run] ne by (simp only: prod.case) blast
qed

text \<open>
  C2. Nobody else can change what a user sees. Let any requests reach the server that do not carry the
  user's name and password, to any path, with any methods and bodies, whether they authenticate as
  someone else or as nobody: every request of the user that does not itself write is answered, by
  either protocol handler, exactly as it would have been before them.
\<close>

theorem dav_isolation:
  assumes "inj mac" and "db_ok (l_hash (sv_lib (ds_Server D))) db0" and "names_ok db0" and "u \<in> set (users db0)"
    and "list_all (\<lambda>(br, r0). br_Granted br \<and> \<not> proves idk br u) reqs"
    and "rq_Context r = Some u" and "\<not> writing (rq_Method r)"
  shows "fst (serve_protocol D h r new_rw (fst (dav_run idk mac D ms reqs (db0, fresh_auth)))) =
    fst (serve_protocol D h r new_rw db0)"
proof -
  have "fst (serve_protocol D h r new_rw (fst (dav_run idk mac D ms reqs st))) = fst (serve_protocol D h r new_rw (fst st))"
    if "server_inv idk mac D st" "u \<in> set (users (fst st))" for st
    using that assms(5)
  proof (induction reqs arbitrary: st)
    case (Cons x reqs)
    obtain br r0 where x: "x = (br, r0)" by (cases x)
    obtain db c t where st: "st = (db, c, t)" by (cases st)
    obtain w db' c' t' where s: "dav_serve idk mac D ms br r0 (db, c, t) = (w, db', c', t')" by (metis prod.collapse)
    have g: "br_Granted br" "\<not> proves idk br u" using Cons.prems(3) x by simp_all
    have same: "same_for (u_ID u) db db'" "users db' = users db"
      using others_request_same [OF _ assms(1) g _ s] Cons.prems st by auto
    have "server_inv idk mac D (db', c', t')" using dav_serve_inv [OF Cons.prems(1) assms(1) g(1), of ms r0] st s by simp
    then show ?case
      using Cons.IH [of "(db', c', t')"] Cons.prems(2,3) same same_answer [OF same(1) assms(6,7), of D h] x st s
      by (simp add: dav_run_def)
  qed (simp add: dav_run_def)
  then show ?thesis using fresh_inv [OF assms(2,3)] assms(4) by simp
qed

theorem dav_isolation_witness:
  "(let u = (user_named 1 ''ada'')\<lparr>u_PasswordHash := secret_hash\<rparr>;
        attack = [(as_user ''bob'' ''secret'', card_request ''DELETE'' None), (as_user ''ada'' ''guess'', card_request ''DELETE'' None)]
    in fst (serve_protocol sample_dav CardHandler (card_request ''GET'' (Some u)) new_rw
         (fst (dav_run sample_idkey (\<lambda>s. s) sample_dav 301 attack (with_hash secret_hash, fresh_auth)))) =
       fst (serve_protocol sample_dav CardHandler (card_request ''GET'' (Some u)) new_rw (with_hash secret_hash)) \<and>
       rw_Body (fst (serve_protocol sample_dav CardHandler (card_request ''GET'' (Some u)) new_rw (with_hash secret_hash))) = [Text ''X1''])"
proof -
  let ?u = "(user_named 1 ''ada'')\<lparr>u_PasswordHash := secret_hash\<rparr>"
  let ?attack = "[(as_user ''bob'' ''secret'', card_request ''DELETE'' None), (as_user ''ada'' ''guess'', card_request ''DELETE'' None)]"
  have u: "?u \<in> set (users (with_hash secret_hash))" by (simp add: with_hash_def)
  have bob: "\<not> EqualFold ''ada'' ''bob''" by code_simp
  have a: "list_all (\<lambda>(br, r0). br_Granted br \<and> \<not> proves sample_idkey br ?u) ?attack"
    by (simp add: proves_def as_user_def user_named_def secret_verifies bob)
  have get: "rw_Body (fst (serve_protocol sample_dav CardHandler (card_request ''GET'' (Some ((user_named 1 ''ada'')\<lparr>u_PasswordHash := h\<rparr>)))
      new_rw (with_hash h))) = [Text ''X1'']" for h
    by code_simp
  have "\<not> writing (rq_Method (card_request ''GET'' (Some ?u)))" by (simp add: writing_def card_request_def)
  from dav_isolation [OF inj_on_id2 with_hash_inv(1) with_hash_inv(2) [OF secret_hash_no_NUL] u a _ this]
  show ?thesis using get [of secret_hash] by (simp add: card_request_def)
qed

end
