(* ===== verification/Timezones.thy ===== *)
theory Timezones
  imports DateFormat
begin

text \<open>
  \<open>internal/recurrence/timezone.go\<close>: the resolution of time zone names, from the IANA database or from
  the VTIMEZONE components of a calendar. Instants are nanoseconds, a wall time is the instant at which
  a clock in UTC shows it. What the code takes from go-ical, rrule-go and the zone database is the
  record \<open>ext\<close>: loading a location, the text and the recurrence rule of a component, a duration, and
  the occurrences of a rule between two times or of a set in order.
\<close>

abbreviation zeroInstant :: instant where "zeroInstant \<equiv> zeroTime * second"

text \<open>\<open>ical.Prop\<close> and \<open>ical.Component\<close>; a property name has the list of its lines.\<close>

record iprop =
  ip_Value :: string
  ip_Param :: "string \<Rightarrow> string"

datatype component = IComponent (cn_Name: string) (cn_Props: "(string \<times> iprop list) list") (cn_Children: "component list")

definition props_of :: "string \<Rightarrow> component \<Rightarrow> iprop list" where
  "props_of name c = (case map_of (cn_Props c) name of None \<Rightarrow> [] | Some ps \<Rightarrow> ps)"

definition prop_Get :: "string \<Rightarrow> component \<Rightarrow> iprop option" where
  "prop_Get name c = (case props_of name c of [] \<Rightarrow> None | p # _ \<Rightarrow> Some p)"

text \<open>\<open>time.Location\<close>: the offset in force at Unix seconds, and from when until when it is.\<close>

record Location =
  loc_lookup :: "int \<Rightarrow> int \<times> int \<times> int"

definition FixedZone :: "int \<Rightarrow> Location" where
  "FixedZone offset = \<lparr>loc_lookup = (\<lambda>_. (offset, - (2 ^ 63), 2 ^ 63 - 1))\<rparr>"

definition UTC :: Location where "UTC = FixedZone 0"

text \<open>\<open>time.Date\<close> of a wall time in a location, and the wall time of an instant there (\<open>In\<close>).\<close>

definition in_location :: "Location \<Rightarrow> instant \<Rightarrow> instant" where
  "in_location loc wall =
     (let unix = wall div second in
      case loc_lookup loc unix of (offset, start, end) \<Rightarrow>
        if offset = 0 then wall
        else let utc = unix - offset;
                 offset' = (if utc < start \<or> end \<le> utc then fst (loc_lookup loc utc) else offset)
             in wall - offset' * second)"

definition wall_in :: "Location \<Rightarrow> instant \<Rightarrow> instant" where
  "wall_in loc t = t + fst (loc_lookup loc (t div second)) * second"

text \<open>\<open>rrule.ROption\<close> (what the code does not touch is \<open>ro_Spec\<close>) and \<open>rrule.Set\<close>.\<close>

record ROption =
  ro_Dtstart :: instant
  ro_Until :: instant
  ro_Count :: int
  ro_Spec :: string

record RSet =
  rs_DTStart :: instant
  rs_RRule :: "ROption option"
  rs_RDate :: "instant list"
  rs_ExDate :: "instant list"

record ext =
  x_LoadLocation :: "string \<Rightarrow> Location option"
  x_Text :: "component \<Rightarrow> string \<Rightarrow> string option"
  x_RecurrenceRule :: "component \<Rightarrow> ROption option option"
  x_Duration :: "iprop \<Rightarrow> int option"
  x_NewRRule :: "ROption \<Rightarrow> bool"
  x_Between :: "ROption \<Rightarrow> instant \<Rightarrow> instant \<Rightarrow> instant list"
  x_Iterator :: "RSet \<Rightarrow> int \<Rightarrow> instant option"
  x_All :: "RSet \<Rightarrow> instant list"

datatype rec_error = NoProperty | BadTime | BadOffset | BadDuration | BadRule | UnknownZone

section \<open>Wall times\<close>

text \<open>The layout \<open>20060102T150405\<close> is the one with a final Z less that letter, \<open>20060102\<close> its first part.\<close>

definition parseWallTime :: "string \<Rightarrow> rec_error + instant" where
  "parseWallTime v =
     (let v = TrimSpace v;
          parsed = (if length v = 8 then parse_utc (v @ ''T000000Z'')
                    else if length v = 15 then parse_utc (v @ ''Z'')
                    else if length v = 16 then parse_utc v
                    else None)
      in case parsed of None \<Rightarrow> Inl BadTime | Some t \<Rightarrow> Inr (t * second))"

definition parseUTCOffset :: "iprop option \<Rightarrow> rec_error + int" where
  "parseUTCOffset p =
     (case p of
        None \<Rightarrow> Inl BadOffset
      | Some p \<Rightarrow>
          let v = TrimSpace (ip_Value p) in
          if length v < 5 then Inl BadOffset
          else if hd v \<noteq> CHR ''-'' \<and> hd v \<noteq> CHR ''+'' then Inl BadOffset
          else let sign = (if hd v = CHR ''-'' then - 1 else 1) in
            (case ParseInt (take 2 (drop 1 v)) of
               None \<Rightarrow> Inl BadOffset
             | Some hours \<Rightarrow>
                 (case ParseInt (take 2 (drop 3 v)) of
                    None \<Rightarrow> Inl BadOffset
                  | Some minutes \<Rightarrow>
                      (case (if length v \<ge> 7 then ParseInt (take 2 (drop 5 v)) else Some 0) of
                         None \<Rightarrow> Inl BadOffset
                       | Some seconds \<Rightarrow> Inr (sign * (hours * 3600 + minutes * 60 + seconds))))))"

text \<open>\<open>Year\<close> and the first of a later year, with the same month, day and time.\<close>

definition year_of :: "instant \<Rightarrow> int" where
  "year_of t = fst (civil_of_days (t div second div 86400))"

definition ruleAnchor :: "instant \<Rightarrow> instant" where
  "ruleAnchor t =
     (if year_of t \<ge> 1970 then t
      else case civil_of_days (t div second div 86400) of
             (_, m, d) \<Rightarrow> Date 1970 m d (t div second mod 86400) * second)"

definition instant_AddDate :: "instant \<Rightarrow> int \<Rightarrow> int \<Rightarrow> int \<Rightarrow> instant" where
  "instant_AddDate t y m d = AddDate (t div second) y m d * second + t mod second"

section \<open>Observances\<close>

record observance =
  ob_start :: instant
  ob_offsetFrom :: int
  ob_offsetTo :: int
  ob_rule :: "ROption option"
  ob_rdates :: "instant list"

definition wall_times :: "string list \<Rightarrow> instant list" where
  "wall_times vs = concat (map (\<lambda>v. case parseWallTime v of Inl _ \<Rightarrow> [] | Inr t \<Rightarrow> [t]) vs)"

definition parseObservance :: "ext \<Rightarrow> component \<Rightarrow> rec_error + observance" where
  "parseObservance X c =
     (case prop_Get ''DTSTART'' c of
        None \<Rightarrow> Inl NoProperty
      | Some p \<Rightarrow>
          bindE (parseWallTime (ip_Value p)) (\<lambda>start.
          bindE (parseUTCOffset (prop_Get ''TZOFFSETFROM'' c)) (\<lambda>offsetFrom.
          bindE (parseUTCOffset (prop_Get ''TZOFFSETTO'' c)) (\<lambda>offsetTo.
            Inr \<lparr>ob_start = start, ob_offsetFrom = offsetFrom, ob_offsetTo = offsetTo,
              ob_rule = (case x_RecurrenceRule X c of
                 Some (Some opt) \<Rightarrow>
                   let opt = opt\<lparr>ro_Dtstart := ruleAnchor start\<rparr> in if x_NewRRule X opt then Some opt else None
               | _ \<Rightarrow> None),
              ob_rdates = concat (map (\<lambda>p. wall_times (Split (CHR '','') (ip_Value p))) (props_of ''RDATE'' c))\<rparr>))))"

type_synonym timezones = "string \<rightharpoonup> observance list"

definition observances_of :: "ext \<Rightarrow> component \<Rightarrow> observance list" where
  "observances_of X c =
     concat (map (\<lambda>child.
       if cn_Name child = ''STANDARD'' \<or> cn_Name child = ''DAYLIGHT''
       then (case parseObservance X child of Inl _ \<Rightarrow> [] | Inr ob \<Rightarrow> [ob]) else []) (cn_Children c))"

definition add_timezone :: "ext \<Rightarrow> timezones \<Rightarrow> component \<Rightarrow> timezones" where
  "add_timezone X tz c =
     (if cn_Name c \<noteq> ''VTIMEZONE'' then tz
      else case x_Text X c ''TZID'' of
             None \<Rightarrow> tz
           | Some tzid \<Rightarrow>
               if tzid = [] \<or> observances_of X c = [] then tz else tz(tzid \<mapsto> observances_of X c))"

definition NewTimezones :: "ext \<Rightarrow> component option \<Rightarrow> timezones" where
  "NewTimezones X cal = (case cal of None \<Rightarrow> (\<lambda>_. None) | Some c \<Rightarrow> foldl (add_timezone X) (\<lambda>_. None) (cn_Children c))"

section \<open>The offset at an instant\<close>

text \<open>A transition is its instant and the offset after it; \<open>earliest\<close> holds the offset before the first.\<close>

definition occurrences :: "ext \<Rightarrow> instant \<Rightarrow> observance \<Rightarrow> instant list" where
  "occurrences X at ob =
     ob_start ob # ob_rdates ob @
     (case ob_rule ob of
        None \<Rightarrow> []
      | Some r \<Rightarrow> x_Between X r (instant_AddDate at (- 3) 0 0) (instant_AddDate at 1 0 0))"

definition transition_at :: "observance \<Rightarrow> instant \<Rightarrow> instant" where
  "transition_at ob wall = wall - ob_offsetFrom ob * second"

definition transitions :: "ext \<Rightarrow> instant \<Rightarrow> observance list \<Rightarrow> (instant \<times> int) list" where
  "transitions X at obs = concat (map (\<lambda>ob. map (\<lambda>w. (transition_at ob w, ob_offsetTo ob)) (occurrences X at ob)) obs)"

definition earlier :: "instant \<times> int \<Rightarrow> instant \<times> int \<Rightarrow> instant \<times> int" where
  "earlier e t = (if fst e = zeroInstant \<or> fst t < fst e then t else e)"

definition earliest :: "ext \<Rightarrow> instant \<Rightarrow> observance list \<Rightarrow> instant \<times> int" where
  "earliest X at obs =
     foldl earlier (zeroInstant, 0)
       (concat (map (\<lambda>ob. map (\<lambda>w. (transition_at ob w, ob_offsetFrom ob)) (occurrences X at ob)) obs))"

text \<open>\<open>sort.Slice\<close> leaves the order of simultaneous transitions open; here they keep theirs.\<close>

definition offsetAt :: "ext \<Rightarrow> observance list \<Rightarrow> instant \<Rightarrow> int option" where
  "offsetAt X obs at =
     (let ts = transitions X at obs in
      if ts = [] then None
      else let past = takeWhile (\<lambda>t. \<not> at < fst t) (sort_key fst ts)
           in if past = [] then Some (snd (earliest X at obs)) else Some (snd (last past)))"

definition embeddedOffset :: "ext \<Rightarrow> timezones \<Rightarrow> string \<Rightarrow> instant \<Rightarrow> int option" where
  "embeddedOffset X tz tzid wall =
     (case tz tzid of
        None \<Rightarrow> None
      | Some obs \<Rightarrow>
          (case offsetAt X obs wall of
             None \<Rightarrow> None
           | Some offset \<Rightarrow> offsetAt X obs (wall - offset * second)))"

section \<open>Resolution\<close>

definition trimTZIDPrefix :: "string \<Rightarrow> string" where
  "trimTZIDPrefix tzid =
     (let parts = Split (CHR ''/'') (TrimPrefix tzid ''/'')
      in if length parts \<ge> 2 then Join ''/'' (drop (length parts - 2) parts) else tzid)"

definition Resolve :: "ext \<Rightarrow> timezones \<Rightarrow> string \<Rightarrow> instant \<Rightarrow> rec_error + Location" where
  "Resolve X tz tzid wall =
     (if tzid = [] then Inr UTC
      else case x_LoadLocation X tzid of
             Some loc \<Rightarrow> Inr loc
           | None \<Rightarrow>
               (case x_LoadLocation X (trimTZIDPrefix tzid) of
                  Some loc \<Rightarrow> Inr loc
                | None \<Rightarrow>
                    (case embeddedOffset X tz tzid wall of
                       Some offset \<Rightarrow> Inr (FixedZone offset)
                     | None \<Rightarrow> Inl UnknownZone)))"

definition ToUTC :: "ext \<Rightarrow> timezones \<Rightarrow> string \<Rightarrow> instant \<Rightarrow> rec_error + instant" where
  "ToUTC X tz tzid wall = bindE (Resolve X tz tzid wall) (\<lambda>loc. Inr (in_location loc wall))"

end
