(* ===== verification/Recurrence.thy ===== *)
theory Recurrence
  imports Timezones "HOL-Library.AList"
begin

text \<open>
  \<open>internal/recurrence/expand.go\<close>: the instances of a calendar object in a range of time, and the bounds
  that are indexed with it. Durations are nanoseconds at 64 bits: subtraction of instants saturates,
  their own arithmetic wraps around. The error is the one the code returns, without its text.
\<close>

definition maxOccurrences :: int where "maxOccurrences = 10000"
definition expansionSlack :: int where "expansionSlack = 26 * 3600 * second"

record Instance =
  in_Start :: instant
  in_End :: instant
  in_RecurrenceID :: instant
  in_Override :: bool

record recurrence_Bounds =
  bd_Start :: "instant option"
  bd_End :: "instant option"
  bd_Recurring :: bool
  bd_UID :: string
  bd_ComponentType :: string
  bd_Summary :: string

text \<open>\<open>Expander\<close>: the time zones of the object, with the libraries.\<close>

record Expander =
  ex_ext :: ext
  ex_timezones :: timezones

definition NewExpander :: "ext \<Rightarrow> component option \<Rightarrow> Expander" where
  "NewExpander X cal = \<lparr>ex_ext = X, ex_timezones = NewTimezones X cal\<rparr>"

section \<open>Components\<close>

definition split_step :: "component option \<times> component list \<Rightarrow> component \<Rightarrow> component option \<times> component list" where
  "split_step acc c =
     (case acc of (master, overrides) \<Rightarrow>
      if cn_Name c \<notin> {''VEVENT'', ''VTODO'', ''VJOURNAL'', ''VFREEBUSY''} then acc
      else if prop_Get ''RECURRENCE-ID'' c \<noteq> None then (master, overrides @ [c])
      else (if master = None then Some c else master, overrides))"

definition split_cal :: "component option \<Rightarrow> component option \<times> component list" where
  "split_cal cal = (case cal of None \<Rightarrow> (None, []) | Some c \<Rightarrow> foldl split_step (None, []) (cn_Children c))"

definition overlaps :: "Instance \<Rightarrow> instant \<Rightarrow> instant \<Rightarrow> bool" where
  "overlaps i from to =
     (if in_Start i = in_End i then \<not> in_Start i < from \<and> in_Start i < to
      else in_Start i < to \<and> from < in_End i)"

definition isDateOnly :: "iprop option \<Rightarrow> bool" where
  "isDateOnly p = (case p of None \<Rightarrow> False | Some p \<Rightarrow> ip_Param p ''VALUE'' = ''DATE'' \<or> length (ip_Value p) = 8)"

definition prop_time :: "Expander \<Rightarrow> iprop \<Rightarrow> instant \<Rightarrow> rec_error + instant" where
  "prop_time E p wall =
     (if HasSuffix (ip_Value p) ''Z'' then Inr wall
      else ToUTC (ex_ext E) (ex_timezones E) (ip_Param p ''TZID'') wall)"

definition componentTime :: "Expander \<Rightarrow> component \<Rightarrow> string \<Rightarrow> rec_error + instant" where
  "componentTime E c name =
     (case prop_Get name c of
        None \<Rightarrow> Inl NoProperty
      | Some p \<Rightarrow> bindE (parseWallTime (ip_Value p)) (prop_time E p))"

definition wallTime :: "component \<Rightarrow> string \<Rightarrow> rec_error + instant" where
  "wallTime c name = (case prop_Get name c of None \<Rightarrow> Inl NoProperty | Some p \<Rightarrow> parseWallTime (ip_Value p))"

definition dateList :: "component \<Rightarrow> string \<Rightarrow> instant list" where
  "dateList c name =
     concat (map (\<lambda>p. wall_times (filter (\<lambda>v. v \<noteq> []) (map TrimSpace (Split (CHR '','') (ip_Value p))))) (props_of name c))"

definition endTime :: "Expander \<Rightarrow> component \<Rightarrow> instant \<Rightarrow> rec_error + instant" where
  "endTime E c start =
     (let endProp = (if cn_Name c = ''VTODO'' then ''DUE'' else ''DTEND'') in
      if prop_Get endProp c \<noteq> None then componentTime E c endProp
      else case prop_Get ''DURATION'' c of
             Some p \<Rightarrow> (case x_Duration (ex_ext E) p of None \<Rightarrow> Inl BadDuration | Some d \<Rightarrow> Inr (start + d))
           | None \<Rightarrow>
               if isDateOnly (prop_Get ''DTSTART'' c) then Inr (instant_AddDate start 0 0 1) else Inr start)"

definition plain_instance :: "instant \<Rightarrow> instant \<Rightarrow> Instance" where
  "plain_instance s e = \<lparr>in_Start = s, in_End = e, in_RecurrenceID = zeroInstant, in_Override = False\<rparr>"

definition instanceOf :: "Expander \<Rightarrow> component \<Rightarrow> rec_error + Instance" where
  "instanceOf E c =
     (case componentTime E c ''DTSTART'' of
        Inr start \<Rightarrow> bindE (endTime E c start) (\<lambda>e. Inr (plain_instance start e))
      | Inl err \<Rightarrow>
          if cn_Name c = ''VTODO'' then
            (case componentTime E c ''DUE'' of
               Inr due \<Rightarrow> Inr (plain_instance due due)
             | Inl _ \<Rightarrow> Inl err)
          else Inl err)"

definition absolute :: "Expander \<Rightarrow> component \<Rightarrow> instant \<Rightarrow> int \<Rightarrow> rec_error + Instance" where
  "absolute E c wall duration =
     (case prop_Get ''DTSTART'' c of
        None \<Rightarrow> Inl NoProperty
      | Some p \<Rightarrow>
          bindE (prop_time E p wall) (\<lambda>start.
            Inr \<lparr>in_Start = start, in_End = start + duration, in_RecurrenceID = wall, in_Override = False\<rparr>))"

definition toWall :: "Expander \<Rightarrow> component \<Rightarrow> instant \<Rightarrow> rec_error + instant" where
  "toWall E c utc =
     (case prop_Get ''DTSTART'' c of
        None \<Rightarrow> Inr utc
      | Some p \<Rightarrow>
          if HasSuffix (ip_Value p) ''Z'' then Inr utc
          else bindE (Resolve (ex_ext E) (ex_timezones E) (ip_Param p ''TZID'') utc) (\<lambda>loc.
                 Inr (wall_in loc utc div second * second)))"

section \<open>The recurrence set\<close>

record recurrenceSet =
  rc_set :: RSet
  rc_bounded :: bool

text \<open>The rule with its start and its last time in the wall clock, and whether it ends; \<open>None\<close> is no rule.\<close>

definition build_rule :: "Expander \<Rightarrow> component \<Rightarrow> instant \<Rightarrow> ROption option \<Rightarrow> rec_error + ROption option \<times> bool" where
  "build_rule E c startWall opt =
     (case opt of
        None \<Rightarrow> Inr (None, True)
      | Some opt \<Rightarrow>
          let opt = opt\<lparr>ro_Dtstart := startWall\<rparr> in
          bindE (if ro_Until opt \<noteq> zeroInstant
                 then bindE (toWall E c (ro_Until opt)) (\<lambda>u. Inr (opt\<lparr>ro_Until := u\<rparr>)) else Inr opt) (\<lambda>opt.
            if \<not> x_NewRRule (ex_ext E) opt then Inl BadRule
            else Inr (Some opt, \<not> (ro_Count opt = 0 \<and> ro_Until opt = zeroInstant))))"

definition recurrence_set :: "Expander \<Rightarrow> component \<Rightarrow> rec_error + recurrenceSet option" where
  "recurrence_set E c =
     (case x_RecurrenceRule (ex_ext E) c of
        None \<Rightarrow> Inl BadRule
      | Some opt \<Rightarrow>
          let rdates = dateList c ''RDATE'' in
          if opt = None \<and> rdates = [] then Inr None
          else bindE (wallTime c ''DTSTART'') (\<lambda>startWall.
               bindE (build_rule E c startWall opt) (\<lambda>(rule, bounded).
                 Inr (Some \<lparr>rc_set = \<lparr>rs_DTStart = startWall, rs_RRule = rule, rs_RDate = rdates,
                        rs_ExDate = dateList c ''EXDATE''\<rparr>, rc_bounded = bounded\<rparr>))))"

section \<open>Expansion\<close>

text \<open>The loop over the occurrences; \<open>it k\<close> is the answer of the \<open>k\<close>th call of the iterator.\<close>

function expand_loop ::
    "(int \<Rightarrow> instant option) \<Rightarrow> (instant \<Rightarrow> rec_error + Instance) \<Rightarrow> instant \<Rightarrow> instant \<Rightarrow> instant \<Rightarrow> instant \<Rightarrow> int \<Rightarrow>
     Instance list \<Rightarrow> rec_error + Instance list" where
  "expand_loop it ab windowFrom windowTo from to count out =
     (if count \<ge> maxOccurrences then Inr out
      else case it count of
             None \<Rightarrow> Inr out
           | Some wall \<Rightarrow>
               if windowTo < wall then Inr out
               else if wall < windowFrom then expand_loop it ab windowFrom windowTo from to (count + 1) out
               else case ab wall of
                      Inl e \<Rightarrow> Inl e
                    | Inr inst \<Rightarrow>
                        expand_loop it ab windowFrom windowTo from to (count + 1)
                          (if overlaps inst from to then out @ [inst] else out))"
  by pat_completeness auto
termination
  by (relation "measure (\<lambda>(it, ab, wf, wt, from, to, count, out). nat (maxOccurrences - count))") auto

declare expand_loop.simps [simp del]

definition expandMaster :: "Expander \<Rightarrow> component \<Rightarrow> instant \<Rightarrow> instant \<Rightarrow> rec_error + Instance list" where
  "expandMaster E master from to =
     bindE (instanceOf E master) (\<lambda>base.
     bindE (recurrence_set E master) (\<lambda>rule.
       case rule of
         None \<Rightarrow> Inr (if overlaps base from to then [base] else [])
       | Some rule \<Rightarrow>
           let duration = Sub (in_End base) (in_Start base);
               windowFrom = from + wrap64 (wrap64 (- duration) - expansionSlack);
               windowTo = to + expansionSlack
           in expand_loop (x_Iterator (ex_ext E) (rc_set rule)) (\<lambda>wall. absolute E master wall duration)
                windowFrom windowTo from to 0 []))"

text \<open>The overrides by the instant their RECURRENCE-ID names; a later one takes the place of an earlier.\<close>

fun read_overrides :: "Expander \<Rightarrow> component list \<Rightarrow> (instant \<times> Instance) list \<Rightarrow> rec_error + (instant \<times> Instance) list" where
  "read_overrides E [] byid = Inr byid"
| "read_overrides E (c # cs) byid =
     bindE (componentTime E c ''RECURRENCE-ID'') (\<lambda>rid.
     bindE (instanceOf E c) (\<lambda>inst.
       read_overrides E cs (AList.update rid (inst\<lparr>in_RecurrenceID := rid, in_Override := True\<rparr>) byid)))"

fun merge :: "instant \<Rightarrow> instant \<Rightarrow> Instance list \<Rightarrow> (instant \<times> Instance) list \<Rightarrow> Instance list \<times> (instant \<times> Instance) list" where
  "merge from to [] byid = ([], byid)"
| "merge from to (inst # insts) byid =
     (case map_of byid (in_RecurrenceID inst) of
        Some override \<Rightarrow>
          (case merge from to insts (AList.delete (in_RecurrenceID inst) byid) of
             (out, byid) \<Rightarrow> ((if overlaps override from to then [override] else []) @ out, byid))
      | None \<Rightarrow> (case merge from to insts byid of (out, byid) \<Rightarrow> (inst # out, byid)))"

text \<open>
  The overrides that are left are appended in the order of a Go map, which is none, and \<open>sort.Slice\<close>
  leaves open how instances with the same start are ordered; here both keep theirs.
\<close>

definition Expand :: "Expander \<Rightarrow> component option \<Rightarrow> instant \<Rightarrow> instant \<Rightarrow> rec_error + Instance list" where
  "Expand E cal from to =
     (case split_cal cal of (master, overrides) \<Rightarrow>
      if master = None \<and> overrides = [] then Inr []
      else bindE (read_overrides E overrides []) (\<lambda>byid.
           bindE (case master of None \<Rightarrow> Inr [] | Some m \<Rightarrow> expandMaster E m from to) (\<lambda>expanded.
             case merge from to expanded byid of
               (out, byid) \<Rightarrow> Inr (sort_key in_Start (out @ filter (\<lambda>i. overlaps i from to) (map snd byid))))))"

definition Overlaps :: "Expander \<Rightarrow> component option \<Rightarrow> instant \<Rightarrow> instant \<Rightarrow> rec_error + bool" where
  "Overlaps E cal from to = bindE (Expand E cal from to) (\<lambda>is. Inr (0 < length is))"

section \<open>The index\<close>

definition widen :: "recurrence_Bounds \<Rightarrow> Instance \<Rightarrow> recurrence_Bounds" where
  "widen b inst =
     (let b = (if bd_Start b = None \<or> in_Start inst < the (bd_Start b) then b\<lparr>bd_Start := Some (in_Start inst)\<rparr> else b)
      in if bd_End b \<noteq> None \<and> the (bd_End b) < in_End inst then b\<lparr>bd_End := Some (in_End inst)\<rparr> else b)"

fun widen_all :: "('a \<Rightarrow> rec_error + Instance) \<Rightarrow> 'a list \<Rightarrow> recurrence_Bounds \<Rightarrow> rec_error + recurrence_Bounds" where
  "widen_all f [] b = Inr b"
| "widen_all f (x # xs) b = bindE (f x) (\<lambda>inst. widen_all f xs (widen b inst))"

definition zero_Bounds :: recurrence_Bounds where
  "zero_Bounds = \<lparr>bd_Start = None, bd_End = None, bd_Recurring = False, bd_UID = [], bd_ComponentType = [], bd_Summary = []\<rparr>"

definition text_or_empty :: "string option \<Rightarrow> string" where
  "text_or_empty t = (case t of None \<Rightarrow> [] | Some s \<Rightarrow> s)"

definition component_bounds :: "Expander \<Rightarrow> component \<Rightarrow> Instance \<Rightarrow> recurrence_Bounds" where
  "component_bounds E c base =
     \<lparr>bd_Start = Some (in_Start base), bd_End = Some (in_End base), bd_Recurring = False,
      bd_UID = text_or_empty (x_Text (ex_ext E) c ''UID''), bd_ComponentType = cn_Name c,
      bd_Summary = text_or_empty (x_Text (ex_ext E) c ''SUMMARY'')\<rparr>"

definition Summarise :: "Expander \<Rightarrow> component option \<Rightarrow> rec_error + recurrence_Bounds" where
  "Summarise E cal =
     (case split_cal cal of
        (None, []) \<Rightarrow> Inr zero_Bounds
      | (None, c # _) \<Rightarrow> bindE (instanceOf E c) (\<lambda>base. Inr (component_bounds E c base))
      | (Some master, overrides) \<Rightarrow>
          bindE (instanceOf E master) (\<lambda>base.
          bindE (recurrence_set E master) (\<lambda>rule.
            let b = component_bounds E master base in
            case rule of
              None \<Rightarrow> widen_all (instanceOf E) overrides b
            | Some rule \<Rightarrow>
                if \<not> rc_bounded rule then Inr (b\<lparr>bd_Recurring := True, bd_End := None\<rparr>)
                else let duration = Sub (in_End base) (in_Start base) in
                  bindE (widen_all (\<lambda>wall. absolute E master wall duration) (x_All (ex_ext E) (rc_set rule)) (b\<lparr>bd_Recurring := True\<rparr>))
                    (widen_all (instanceOf E) overrides))))"

end
