(* ===== verification/Recurrence_Facts.thy ===== *)
theory Recurrence_Facts
  imports Recurrence "HOL-Library.Multiset"
begin

text \<open>
  What the recurrence package computes. The window the rule is driven through and the early end of the
  loop lose nothing; overrides take the place of the occurrences whose wall time their RECURRENCE-ID
  names; the indexed bounds hold every instance. And where this is not so: a RECURRENCE-ID in a zone
  with an offset names no occurrence, the bounds of an endless series do not know its overrides, those of an object without a
  master know one override, and a moment at the beginning of a range is not found by them.
\<close>

section \<open>The loop and its window\<close>

text \<open>The first \<open>n\<close> answers of an iterator from call \<open>k\<close>.\<close>

fun taken :: "(int \<Rightarrow> instant option) \<Rightarrow> nat \<Rightarrow> int \<Rightarrow> instant list" where
  "taken it 0 k = []"
| "taken it (Suc n) k = (case it k of None \<Rightarrow> [] | Some w \<Rightarrow> w # taken it n (k + 1))"

definition walls :: "ext \<Rightarrow> RSet \<Rightarrow> instant list" where
  "walls X s = taken (x_Iterator X s) (nat maxOccurrences) 0"

lemma expand_loop_complete:
  assumes "maxOccurrences - k = int n" and "sorted (taken it n k)"
    and "\<And>w. w \<in> set (taken it n k) \<Longrightarrow> ab w = Inr (at w)"
    and "\<And>w. w \<in> set (taken it n k) \<Longrightarrow> overlaps (at w) from to \<Longrightarrow> lo \<le> w \<and> w \<le> hi"
  shows "expand_loop it ab lo hi from to k out = Inr (out @ filter (\<lambda>i. overlaps i from to) (map at (taken it n k)))"
  using assms
proof (induction n arbitrary: k out)
  case 0
  then show ?case by (subst expand_loop.simps) simp
next
  case (Suc n)
  show ?case
  proof (cases "it k")
    case None
    then show ?thesis by (subst expand_loop.simps) simp
  next
    case (Some w)
    have t: "taken it (Suc n) k = w # taken it n (k + 1)" using Some by simp
    note IH = Suc.IH [of "k + 1"]
    have rest: "expand_loop it ab lo hi from to (k + 1) out' =
        Inr (out' @ filter (\<lambda>i. overlaps i from to) (map at (taken it n (k + 1))))" for out'
      using Suc.prems unfolding t by (intro IH) auto
    have k: "\<not> maxOccurrences \<le> k" using Suc.prems(1) by simp
    show ?thesis
    proof (cases "hi < w")
      case True
      have "\<not> overlaps (at v) from to" if "v \<in> set (taken it (Suc n) k)" for v
        using Suc.prems(2,4) that True unfolding t by fastforce
      then have "filter (\<lambda>i. overlaps i from to) (map at (taken it (Suc n) k)) = []" by (auto simp: filter_empty_conv)
      then show ?thesis using True k Some by (subst expand_loop.simps) simp
    next
      case False
      have "w < lo \<Longrightarrow> \<not> overlaps (at w) from to" using Suc.prems(4) [of w] t by fastforce
      then show ?thesis
        using False k Some rest Suc.prems(3) [of w] t by (subst expand_loop.simps) auto
    qed
  qed
qed

lemma absolute_facts:
  assumes "absolute E m w d = Inr i"
  shows "in_End i = in_Start i + d" "in_RecurrenceID i = w" "\<not> in_Override i"
  using assms by (auto simp: absolute_def bindE_def split: option.splits sum.splits)

text \<open>
  The series of a component: its occurrences, up to the limit on their number, each put into its zone.
\<close>

definition series :: "Expander \<Rightarrow> component \<Rightarrow> RSet \<Rightarrow> int \<Rightarrow> Instance list option" where
  "series E m s d =
     those (map (\<lambda>w. case absolute E m w d of Inl _ \<Rightarrow> None | Inr i \<Rightarrow> Some i) (walls (ex_ext E) s))"

text \<open>The zone of the component is never more than the slack away from UTC.\<close>

definition near :: "Expander \<Rightarrow> component \<Rightarrow> RSet \<Rightarrow> int \<Rightarrow> bool" where
  "near E m s d = (case series E m s d of None \<Rightarrow> False | Some is \<Rightarrow> list_all (\<lambda>i. \<bar>in_Start i - in_RecurrenceID i\<bar> \<le> expansionSlack) is)"

lemma those_map_Some: "those (map f xs) = Some ys \<Longrightarrow> map f xs = map Some ys"
  by (induction xs arbitrary: ys) (auto split: option.splits)

lemma series_map:
  assumes "series E m s d = Some is"
  shows "is = map (\<lambda>w. the (case absolute E m w d of Inl _ \<Rightarrow> None | Inr i \<Rightarrow> Some i)) (walls (ex_ext E) s)"
    and "w \<in> set (walls (ex_ext E) s) \<Longrightarrow> absolute E m w d = Inr (the (case absolute E m w d of Inl _ \<Rightarrow> None | Inr i \<Rightarrow> Some i))"
proof -
  let ?f = "\<lambda>w. case absolute E m w d of Inl _ \<Rightarrow> None | Inr i \<Rightarrow> Some i"
  have m: "map ?f (walls (ex_ext E) s) = map Some is" using those_map_Some assms unfolding series_def by blast
  then have "map (the \<circ> ?f) (walls (ex_ext E) s) = is"
    by (metis list.map_comp list.map_ident_strong comp_apply option.sel)
  then show "is = map (\<lambda>w. the (?f w)) (walls (ex_ext E) s)" by (simp add: comp_def)
  assume "w \<in> set (walls (ex_ext E) s)"
  then have "?f w \<in> set (map Some is)" using m by (metis image_eqI list.set_map)
  then show "absolute E m w d = Inr (the (?f w))" by (auto split: sum.splits)
qed

lemma expandMaster_complete:
  assumes base: "instanceOf E m = Inr base" and rule: "recurrence_set E m = Inr (Some rc)"
    and d: "d = Sub (in_End base) (in_Start base)" "\<bar>d\<bar> + expansionSlack < 2 ^ 63"
    and ser: "series E m (rc_set rc) d = Some is" and near: "near E m (rc_set rc) d"
    and sorted: "sorted (walls (ex_ext E) (rc_set rc))"
  shows "expandMaster E m from to = Inr (filter (\<lambda>i. overlaps i from to) is)"
proof -
  let ?at = "\<lambda>w. the (case absolute E m w d of Inl _ \<Rightarrow> None | Inr i \<Rightarrow> Some i)"
  let ?ws = "walls (ex_ext E) (rc_set rc)"
  note at = series_map [OF ser]
  have slack: "0 < expansionSlack" by (simp add: expansionSlack_def)
  have wf: "from + wrap64 (wrap64 (- d) - expansionSlack) = from - d - expansionSlack"
    using d(2) slack by (simp add: wrap64_id abs_if split: if_splits)
  have close: "\<bar>in_Start (?at w) - w\<bar> \<le> expansionSlack" if w: "w \<in> set ?ws" for w
  proof -
    have "?at w \<in> set is" using at(1) w by auto
    then have "\<bar>in_Start (?at w) - in_RecurrenceID (?at w)\<bar> \<le> expansionSlack"
      using near ser by (simp add: near_def list_all_iff)
    then show ?thesis using absolute_facts(2) [OF at(2) [OF w]] by simp
  qed
  have win: "from - d - expansionSlack \<le> w \<and> w \<le> to + expansionSlack"
    if w: "w \<in> set ?ws" and o: "overlaps (?at w) from to" for w
  proof -
    have e: "in_End (?at w) = in_Start (?at w) + d" using absolute_facts(1) [OF at(2) [OF w]] .
    show ?thesis using o close [OF w] unfolding overlaps_def e by (auto split: if_splits)
  qed
  have "expand_loop (x_Iterator (ex_ext E) (rc_set rc)) (\<lambda>w. absolute E m w d) (from - d - expansionSlack) (to + expansionSlack) from to 0 [] =
      Inr ([] @ filter (\<lambda>i. overlaps i from to) (map ?at (taken (x_Iterator (ex_ext E) (rc_set rc)) (nat maxOccurrences) 0)))"
    using at(2) win sorted unfolding walls_def
    by (intro expand_loop_complete) (auto simp: maxOccurrences_def)
  then show ?thesis
    using at(1) by (simp add: expandMaster_def bindE_def base rule Let_def wf flip: d(1) walls_def)
qed

section \<open>Overrides\<close>

lemma mset_delete:
  assumes "distinct (map fst byid)" and "map_of byid k = Some v"
  shows "mset (map snd byid) = add_mset v (mset (map snd (AList.delete k byid)))"
  using assms
proof (induction byid)
  case (Cons x byid)
  have "AList.delete k byid = byid" if "k \<notin> fst ` set byid" using that by (simp add: AList.delete_id)
  then show ?case using Cons by (cases x) (auto split: if_splits)
qed simp

lemma filter_mset_snd: "mset (filter P (map snd byid)) = filter_mset P (mset (map snd byid))"
  by simp

lemma merge_meaning:
  assumes "merge from to insts byid = (out, left)" and "distinct (map in_RecurrenceID insts)" and "distinct (map fst byid)"
  shows "mset out + mset (filter (\<lambda>i. overlaps i from to) (map snd left)) =
    mset (filter (\<lambda>i. map_of byid (in_RecurrenceID i) = None) insts) + mset (filter (\<lambda>i. overlaps i from to) (map snd byid))"
  using assms
proof (induction insts arbitrary: byid out left)
  case (Cons i insts)
  show ?case
  proof (cases "map_of byid (in_RecurrenceID i)")
    case None
    then show ?thesis using Cons by (auto split: prod.splits)
  next
    case (Some o')
    let ?byid = "AList.delete (in_RecurrenceID i) byid"
    obtain out' where m: "merge from to insts ?byid = (out', left)" "out = (if overlaps o' from to then [o'] else []) @ out'"
      using Cons.prems(1) Some by (auto split: prod.splits)
    have "map_of ?byid (in_RecurrenceID j) = map_of byid (in_RecurrenceID j)" if "j \<in> set insts" for j
    proof -
      have "in_RecurrenceID j \<noteq> in_RecurrenceID i" 
        using Cons.prems(2) that by (metis distinct.simps(2) imageI list.set_map list.simps(9))
      then show ?thesis by (simp add: AList.delete_conv)
    qed
    then have "filter (\<lambda>j. map_of ?byid (in_RecurrenceID j) = None) insts = filter (\<lambda>j. map_of byid (in_RecurrenceID j) = None) insts"
      by (intro filter_cong) auto
    moreover have "distinct (map fst ?byid)" using Cons.prems(3) by (rule AList.distinct_delete)
    moreover have "filter_mset (\<lambda>i. overlaps i from to) (mset (map snd byid)) =
        (if overlaps o' from to then {#o'#} else {#}) + filter_mset (\<lambda>i. overlaps i from to) (mset (map snd ?byid))"
      using mset_delete [OF Cons.prems(3) Some] by simp
    ultimately show ?thesis
      using Cons.IH [OF m(1)] Cons.prems(2) Some m(2) by (simp add: filter_mset_snd flip: mset_filter)
  qed
qed simp

lemma read_overrides_distinct:
  "read_overrides E cs byid = Inr byid' \<Longrightarrow> distinct (map fst byid) \<Longrightarrow> distinct (map fst byid')"
  by (induction E cs byid rule: read_overrides.induct)
    (auto simp: bindE_def AList.distinct_update split: sum.splits)

lemma series_rids:
  assumes "series E m s d = Some is"
  shows "map in_RecurrenceID is = walls (ex_ext E) s"
proof -
  let ?at = "\<lambda>w. the (case absolute E m w d of Inl _ \<Rightarrow> None | Inr i \<Rightarrow> Some i)"
  have "map (\<lambda>w. in_RecurrenceID (?at w)) (walls (ex_ext E) s) = walls (ex_ext E) s"
    using absolute_facts(2) [OF series_map(2) [OF assms]] by (simp add: map_idI)
  then show ?thesis by (subst series_map(1) [OF assms]) (simp add: comp_def)
qed

lemma expansion:
  assumes "split_cal cal = (Some m, overrides)" and "read_overrides E overrides [] = Inr byid"
    and "instanceOf E m = Inr base" and "recurrence_set E m = Inr (Some rc)"
    and "d = Sub (in_End base) (in_Start base)" and "\<bar>d\<bar> + expansionSlack < 2 ^ 63"
    and "series E m (rc_set rc) d = Some occs" and "near E m (rc_set rc) d"
    and "sorted (walls (ex_ext E) (rc_set rc))" and "distinct (walls (ex_ext E) (rc_set rc))"
  shows "\<exists>is. Expand E cal from to = Inr is \<and> sorted (map in_Start is) \<and>
    mset is = mset (filter (\<lambda>i. overlaps i from to \<and> map_of byid (in_RecurrenceID i) = None) occs) +
      mset (filter (\<lambda>i. overlaps i from to) (map snd byid))"
proof -
  let ?ov = "\<lambda>i. overlaps i from to"
  obtain out left where m: "merge from to (filter ?ov occs) byid = (out, left)" by fastforce
  have "distinct (map in_RecurrenceID (filter ?ov occs))"
    using assms(10) series_rids [OF assms(7)] by (metis distinct_map_filter)
  note mm = merge_meaning [OF m this read_overrides_distinct [OF assms(2)]]
  have e: "Expand E cal from to = Inr (sort_key in_Start (out @ filter ?ov (map snd left)))"
    using expandMaster_complete [OF assms(3-9), of "from" to] m by (simp add: Expand_def assms(1,2) bindE_def)
  have f: "filter (\<lambda>i. map_of byid (in_RecurrenceID i) = None) (filter ?ov occs) = filter (\<lambda>i. ?ov i \<and> map_of byid (in_RecurrenceID i) = None) occs"
    by (simp add: conj_commute)
  show ?thesis using mm unfolding e f by simp
qed

text \<open>
  The occurrences of an object that its overrides are set against: those of its master's rule, the first \<open>maxOccurrences\<close> of them,
  the master itself where it does not recur, none where there is no master.
\<close>

definition master_occurrences :: "Expander \<Rightarrow> component option \<Rightarrow> Instance list option" where
  "master_occurrences E cal =
     (case split_cal cal of
        (None, _) \<Rightarrow> Some []
      | (Some m, _) \<Rightarrow>
          (case (instanceOf E m, recurrence_set E m) of
             (Inr base, Inr None) \<Rightarrow> Some [base]
           | (Inr base, Inr (Some rc)) \<Rightarrow> series E m (rc_set rc) (Sub (in_End base) (in_Start base))
           | _ \<Rightarrow> None))"

text \<open>
  What a recurring master takes: a length that leaves room at 64 bits, a zone no further from UTC than the slack, and an iterator in order
  that repeats nothing.
\<close>

definition orderly :: "Expander \<Rightarrow> component option \<Rightarrow> bool" where
  "orderly E cal =
     (case split_cal cal of
        (None, _) \<Rightarrow> True
      | (Some m, _) \<Rightarrow>
          (case (instanceOf E m, recurrence_set E m) of
             (Inr base, Inr (Some rc)) \<Rightarrow>
               let d = Sub (in_End base) (in_Start base); ws = walls (ex_ext E) (rc_set rc)
               in \<bar>d\<bar> + expansionSlack < 2 ^ 63 \<and> near E m (rc_set rc) d \<and> sorted ws \<and> distinct ws
           | _ \<Rightarrow> True))"

lemma expansion_any:
  assumes split: "split_cal cal = (m, overrides)" and byid: "read_overrides E overrides [] = Inr byid"
    and occs: "master_occurrences E cal = Some occs" and ord: "orderly E cal"
  shows "\<exists>is. Expand E cal from to = Inr is \<and> sorted (map in_Start is) \<and>
    mset is = mset (filter (\<lambda>i. overlaps i from to \<and> map_of byid (in_RecurrenceID i) = None) occs) +
      mset (filter (\<lambda>i. overlaps i from to) (map snd byid))"
proof (cases m)
  case None
  then have "occs = []" using occs split by (simp add: master_occurrences_def)
  moreover have "overrides = [] \<Longrightarrow> byid = []" using byid by simp
  ultimately show ?thesis using split None byid by (auto simp: Expand_def bindE_def)
next
  case (Some m)
  obtain base rule where b: "instanceOf E m = Inr base" "recurrence_set E m = Inr rule"
    using occs split Some by (auto simp: master_occurrences_def split: sum.splits)
  show ?thesis
  proof (cases rule)
    case rule: (Some rc)
    show ?thesis
      by (rule expansion [OF split [unfolded Some] byid b(1) b(2) [unfolded rule] refl])
        (use occs ord split Some b rule in \<open>simp_all add: master_occurrences_def orderly_def Let_def\<close>)
  next
    case rule: None
    then have o: "occs = [base]" using occs split Some b by (simp add: master_occurrences_def)
    let ?ov = "\<lambda>i. overlaps i from to"
    have x: "expandMaster E m from to = Inr (filter ?ov [base])" using b rule by (simp add: expandMaster_def bindE_def)
    obtain out left where mg: "merge from to (filter ?ov [base]) byid = (out, left)" by fastforce
    have "distinct (map in_RecurrenceID (filter ?ov [base]))" by simp
    note mm = merge_meaning [OF mg this read_overrides_distinct [OF byid]]
    have e: "Expand E cal from to = Inr (sort_key in_Start (out @ filter ?ov (map snd left)))"
      using x mg split Some byid by (simp add: Expand_def bindE_def)
    have "filter (\<lambda>i. map_of byid (in_RecurrenceID i) = None) (filter ?ov [base]) = filter (\<lambda>i. ?ov i \<and> map_of byid (in_RecurrenceID i) = None) [base]"
      by auto
    then show ?thesis using mm unfolding e o by (simp only: mset_append mset_sort sorted_sort_key simp_thms sum.inject ex_simps) simp
  qed
qed

section \<open>The index\<close>

definition covered :: "recurrence_Bounds \<Rightarrow> Instance \<Rightarrow> bool" where
  "covered b i =
     ((case bd_Start b of None \<Rightarrow> False | Some s \<Rightarrow> s \<le> in_Start i) \<and>
      (case bd_End b of None \<Rightarrow> True | Some e \<Rightarrow> in_End i \<le> e))"

lemma widen_covers: "covered (widen b i) i" "covered b j \<Longrightarrow> covered (widen b i) j"
  by (auto simp: covered_def widen_def Let_def split: option.splits)

lemma covered_times: "in_Start i = in_Start j \<Longrightarrow> in_End i = in_End j \<Longrightarrow> covered b i = covered b j"
  by (simp add: covered_def split: option.split)

lemma widen_all_keeps: "widen_all f xs b = Inr b' \<Longrightarrow> covered b i \<Longrightarrow> covered b' i"
  by (induction f xs b rule: widen_all.induct) (auto simp: bindE_def widen_covers split: sum.splits)

lemma widen_all_covers: "widen_all f xs b = Inr b' \<Longrightarrow> x \<in> set xs \<Longrightarrow> \<exists>i. f x = Inr i \<and> covered b' i"
  by (induction f xs b rule: widen_all.induct)
    (auto simp: bindE_def widen_covers widen_all_keeps split: sum.splits)

lemma expand_loop_sound:
  assumes "expand_loop it ab lo hi from to k out = Inr is" and "maxOccurrences - k = int n" and "i \<in> set is"
  shows "i \<in> set out \<or> (overlaps i from to \<and> (\<exists>w \<in> set (taken it n k). ab w = Inr i))"
  using assms
proof (induction n arbitrary: k out)
  case 0
  then show ?case by (subst (asm) expand_loop.simps) simp
next
  case (Suc n)
  have k: "\<not> maxOccurrences \<le> k" "maxOccurrences - (k + 1) = int n" using Suc.prems(2) by simp_all
  show ?case
    using Suc.prems(1,3) k Suc.IH [OF _ k(2)]
    by (subst (asm) expand_loop.simps) (fastforce split: option.splits sum.splits if_splits)
qed

lemma merge_sound:
  "merge from to insts byid = (out, left) \<Longrightarrow> set left \<subseteq> set byid \<and>
   (\<forall>i \<in> set out. i \<in> set insts \<or> (overlaps i from to \<and> i \<in> snd ` set byid))"
proof (induction insts arbitrary: byid out left)
  case (Cons i insts)
  have "set (AList.delete k byid) \<subseteq> set byid" for k by (induction byid) auto
  moreover have "map_of byid k = Some v \<Longrightarrow> v \<in> snd ` set byid" for k v by (force dest: map_of_SomeD)
  ultimately show ?case
    using Cons by (auto split: prod.splits option.splits if_splits) (fastforce+)
qed simp

lemma read_overrides_sound:
  "read_overrides E cs byid = Inr byid' \<Longrightarrow> (k, i) \<in> set byid' \<Longrightarrow>
   (k, i) \<in> set byid \<or> (\<exists>c \<in> set cs. \<exists>j. instanceOf E c = Inr j \<and> in_Start i = in_Start j \<and> in_End i = in_End j)"
proof (induction E cs byid rule: read_overrides.induct)
  case (2 E c cs byid)
  obtain rid inst where c: "componentTime E c ''RECURRENCE-ID'' = Inr rid" "instanceOf E c = Inr inst"
    "read_overrides E cs (AList.update rid (inst\<lparr>in_RecurrenceID := rid, in_Override := True\<rparr>) byid) = Inr byid'"
    using 2(2) by (auto simp: bindE_def split: sum.splits)
  have upd: "(a, b) \<in> set (AList.update x y xs) \<Longrightarrow> (a, b) = (x, y) \<or> (a, b) \<in> set xs"
    for a b x y and xs :: "(instant \<times> Instance) list" by (induction xs) (auto split: if_splits)
  show ?case using 2(1) [OF c(3) 2(3)] upd c(2) by fastforce
qed simp

lemma Summarise_covers:
  assumes split: "split_cal cal = (Some m, overrides)" and sum: "Summarise E cal = Inr b" and fin: "bd_End b = Some e"
    and all: "\<forall>s. set (walls (ex_ext E) s) \<subseteq> set (x_All (ex_ext E) s)"
  obtains base rule where "instanceOf E m = Inr base" "recurrence_set E m = Inr rule" "covered b base"
    "\<And>c. c \<in> set overrides \<Longrightarrow> \<exists>j. instanceOf E c = Inr j \<and> covered b j"
    "\<And>rc w. rule = Some rc \<Longrightarrow> w \<in> set (walls (ex_ext E) (rc_set rc)) \<Longrightarrow>
       \<exists>j. absolute E m w (Sub (in_End base) (in_Start base)) = Inr j \<and> covered b j"
proof -
  obtain base where base: "instanceOf E m = Inr base"
    using sum by (cases "instanceOf E m") (simp_all add: Summarise_def split bindE_def)
  obtain rule where rule: "recurrence_set E m = Inr rule"
    using sum base by (cases "recurrence_set E m") (simp_all add: Summarise_def split bindE_def)
  define d where "d = Sub (in_End base) (in_Start base)"
  note S = sum [unfolded Summarise_def split prod.case option.case list.case base rule bindE_def sum.case Let_def, folded d_def]
  have own: "covered (component_bounds E m base) base" by (simp add: covered_def component_bounds_def)
  show thesis
  proof (cases rule)
    case None
    then have w: "widen_all (instanceOf E) overrides (component_bounds E m base) = Inr b" using S by simp
    show ?thesis
      by (rule that [OF base rule]) (use widen_all_covers [OF w] widen_all_keeps [OF w own] None in simp_all)
  next
    case (Some rc)
    let ?b0 = "(component_bounds E m base)\<lparr>bd_Recurring := True\<rparr>"
    have bd: "rc_bounded rc" using S Some fin by (cases "rc_bounded rc") auto
    obtain b1 where w: "widen_all (\<lambda>w. absolute E m w d) (x_All (ex_ext E) (rc_set rc)) ?b0 = Inr b1"
      "widen_all (instanceOf E) overrides b1 = Inr b"
      using S Some bd by (cases "widen_all (\<lambda>w. absolute E m w d) (x_All (ex_ext E) (rc_set rc)) ?b0") simp_all
    have own': "covered ?b0 base" using own by (simp add: covered_def)
    have "\<exists>j. absolute E m v d = Inr j \<and> covered b j" if "v \<in> set (walls (ex_ext E) (rc_set rc))" for v
      using widen_all_covers [OF w(1), of v] widen_all_keeps [OF w(2)] all that by blast
    then show ?thesis
      by (intro that [OF base rule])
        (use widen_all_keeps [OF w(2) widen_all_keeps [OF w(1) own']] widen_all_covers [OF w(2)] Some in \<open>simp_all add: d_def\<close>)
  qed
qed

lemma expandMaster_sound:
  assumes x: "expandMaster E m from to = Inr is" and base: "instanceOf E m = Inr base" and i: "i \<in> set is"
    and rule: "recurrence_set E m = Inr rule"
  shows "overlaps i from to \<and> (i = base \<or>
    (\<exists>rc. rule = Some rc \<and> (\<exists>w \<in> set (walls (ex_ext E) (rc_set rc)). absolute E m w (Sub (in_End base) (in_Start base)) = Inr i)))"
proof (cases rule)
  case None
  then show ?thesis using x i base rule by (auto simp: expandMaster_def bindE_def split: if_splits)
next
  case (Some rc)
  let ?d = "Sub (in_End base) (in_Start base)"
  have "expand_loop (x_Iterator (ex_ext E) (rc_set rc)) (\<lambda>w. absolute E m w ?d)
      (from + wrap64 (wrap64 (- ?d) - expansionSlack)) (to + expansionSlack) from to 0 [] = Inr is"
    using x base rule Some by (simp add: expandMaster_def bindE_def Let_def)
  from expand_loop_sound [OF this _ i, of "nat maxOccurrences"] Some
  show ?thesis by (simp add: walls_def maxOccurrences_def)
qed

lemma Expand_sound:
  assumes split: "split_cal cal = (Some m, overrides)" and x: "Expand E cal from to = Inr is" and i: "i \<in> set is"
  shows "overlaps i from to \<and> ((\<exists>es. expandMaster E m from to = Inr es \<and> i \<in> set es) \<or>
    (\<exists>c \<in> set overrides. \<exists>j. instanceOf E c = Inr j \<and> in_Start i = in_Start j \<and> in_End i = in_End j))"
proof -
  note X = x [unfolded Expand_def split prod.case bindE_def]
  obtain byid where o: "read_overrides E overrides [] = Inr byid" using X by (cases "read_overrides E overrides []") simp_all
  obtain es where m: "expandMaster E m from to = Inr es" using X o by (cases "expandMaster E m from to") simp_all
  obtain out left where g: "merge from to es byid = (out, left)" by fastforce
  have "is = sort_key in_Start (out @ filter (\<lambda>i. overlaps i from to) (map snd left))" using X o m g by simp
  then have "i \<in> set out \<or> (overlaps i from to \<and> i \<in> snd ` set left)" using i by auto
  then have "i \<in> set es \<or> (overlaps i from to \<and> i \<in> snd ` set byid)" using merge_sound [OF g] by blast
  moreover have "overlaps i from to" if "i \<in> set es"
    using m that by (auto simp: expandMaster_def bindE_def Let_def split: sum.splits option.splits if_splits
      dest: expand_loop_sound [where n = "nat maxOccurrences"] simp: maxOccurrences_def)
  moreover have "\<exists>c \<in> set overrides. \<exists>j. instanceOf E c = Inr j \<and> in_Start i = in_Start j \<and> in_End i = in_End j"
    if "i \<in> snd ` set byid"
    using that read_overrides_sound [OF o] by force
  ultimately show ?thesis using m by blast
qed

text \<open>
  C10. The indexed columns of an object let a range query find it by any instance it has there: whenever the object is expanded over
  a range and has an instance in it, its indexed start is before the end of the range and its indexed end after the beginning, as the
  query asks, unless the instance is of no length and lies at that very beginning. This holds for an object with a
  master, whose rule, if any, comes to an end, or with one override alone, and takes of rrule that \<open>All\<close> lists
  whatever the iterator delivers. The lemmas at the end of this theory show that it is not so for the others: a second override without a master, an
  override that an endless series has moved before its first day, a moment at the beginning of the range.
\<close>

theorem index_loses_nothing:
  assumes "split_cal cal = (m, overrides)" and "m \<noteq> None \<or> length overrides \<le> 1"
    and "Summarise E cal = Inr b" and "bd_End b = Some e"
    and "\<forall>s. set (walls (ex_ext E) s) \<subseteq> set (x_All (ex_ext E) s)"
    and "Expand E cal from to = Inr is" and "i \<in> set is"
  shows "\<exists>s. bd_Start b = Some s \<and> s < to \<and> (from < e \<or> (e = from \<and> in_Start i = from \<and> in_End i = from))"
proof -
  have "overlaps i from to \<and> covered b i"
  proof (cases m)
    case (Some m)
    obtain base rule where b: "instanceOf E m = Inr base" "recurrence_set E m = Inr rule" "covered b base"
      "\<And>c. c \<in> set overrides \<Longrightarrow> \<exists>j. instanceOf E c = Inr j \<and> covered b j"
      "\<And>rc w. rule = Some rc \<Longrightarrow> w \<in> set (walls (ex_ext E) (rc_set rc)) \<Longrightarrow>
         \<exists>j. absolute E m w (Sub (in_End base) (in_Start base)) = Inr j \<and> covered b j"
      using Summarise_covers [OF assms(1) [unfolded Some] assms(3-5)] by metis
    note x = Expand_sound [OF assms(1) [unfolded Some] assms(6,7)]
    have "covered b i"
      using x [THEN conjunct2]
    proof (elim disjE exE bexE conjE)
      fix es assume "expandMaster E m from to = Inr es" "i \<in> set es"
      from expandMaster_sound [OF this(1) b(1) this(2) b(2)] b(3) b(5) show ?thesis by (metis sum.inject(2))
    next
      fix c j assume "c \<in> set overrides" "instanceOf E c = Inr j" "in_Start i = in_Start j" "in_End i = in_End j"
      then show ?thesis using b(4) [of c] covered_times [of i j b] by simp
    qed
    then show ?thesis using x by blast
  next
    case None
    note X = assms(6) [unfolded Expand_def assms(1) None prod.case]
    show ?thesis
    proof (cases overrides)
      case Nil
      then show ?thesis using X assms(7) by simp
    next
      case (Cons c cs)
      then have c: "overrides = [c]" using assms(2) None by simp
      obtain inst where inst: "instanceOf E c = Inr inst" "b = component_bounds E c inst"
        using assms(3) unfolding Summarise_def assms(1) None c by (cases "instanceOf E c") (auto simp: bindE_def)
      obtain byid where o: "read_overrides E [c] [] = Inr byid" using X c by (cases "read_overrides E [c] []") (simp_all add: bindE_def)
      have "is = sort_key in_Start (filter (\<lambda>i. overlaps i from to) (map snd byid))" using X c o by (simp add: bindE_def)
      then have i: "overlaps i from to" "i \<in> snd ` set byid" using assms(7) by auto
      then obtain k where "(k, i) \<in> set byid" by force
      from read_overrides_sound [OF o this] have "in_Start i = in_Start inst" "in_End i = in_End inst" using inst(1) by auto
      then show ?thesis using i(1) inst(2) by (simp add: covered_def component_bounds_def)
    qed
  qed
  then obtain s where "overlaps i from to" "bd_Start b = Some s" "s \<le> in_Start i" "in_End i \<le> e"
    using assms(4) by (auto simp: covered_def split: option.splits)
  then show ?thesis by (cases "in_Start i = in_End i") (auto simp: overlaps_def)
qed

section \<open>Objects for the witnesses\<close>

text \<open>Libraries that know Berlin, one hour east of UTC, and daily rules: three times, or for ever.\<close>

definition daily :: "RSet \<Rightarrow> int \<Rightarrow> instant option" where
  "daily s k =
     (case rs_RRule s of
        None \<Rightarrow> None
      | Some r \<Rightarrow> if 0 \<le> k \<and> (ro_Count r = 0 \<or> k < ro_Count r) then Some (rs_DTStart s + k * 86400 * second) else None)"

definition sample_ext :: ext where
  "sample_ext = \<lparr>x_LoadLocation = (\<lambda>n. if n = ''Europe/Berlin'' then Some (FixedZone 3600) else None),
     x_Text = (\<lambda>c n. Some (case prop_Get n c of None \<Rightarrow> [] | Some p \<Rightarrow> ip_Value p)),
     x_RecurrenceRule = (\<lambda>c. Some (map_option (\<lambda>p. \<lparr>ro_Dtstart = 0, ro_Until = zeroInstant,
        ro_Count = (if ip_Value p = ''FREQ=DAILY;COUNT=3'' then 3 else 0), ro_Spec = ip_Value p\<rparr>) (prop_Get ''RRULE'' c))),
     x_Duration = (\<lambda>_. None), x_NewRRule = (\<lambda>_. True), x_Between = (\<lambda>_ _ _. []),
     x_Iterator = daily,
     x_All = (\<lambda>s. case rs_RRule s of None \<Rightarrow> [] | Some r \<Rightarrow>
        map (\<lambda>k. rs_DTStart s + k * 86400 * second) [0..(if ro_Count r = 0 then maxOccurrences else ro_Count r) - 1])\<rparr>"

definition line_of :: "string \<Rightarrow> string \<Rightarrow> string \<Rightarrow> string \<times> iprop list" where
  "line_of name zone v = (name, [\<lparr>ip_Value = v, ip_Param = (\<lambda>n. if n = ''TZID'' then zone else [])\<rparr>])"

text \<open>A daily series at nine o'clock whose second day is moved to the afternoon, in a zone or in UTC.\<close>

definition daily_event :: "string \<Rightarrow> string \<Rightarrow> string \<Rightarrow> component" where
  "daily_event rule zone z = IComponent ''VEVENT''
     [line_of ''UID'' [] ''u'', line_of ''DTSTART'' zone (''20260301T090000'' @ z), line_of ''DTEND'' zone (''20260301T100000'' @ z),
      line_of ''RRULE'' [] rule] []"

definition moved_event :: "string \<Rightarrow> string \<Rightarrow> string \<Rightarrow> component" where
  "moved_event zone z start = IComponent ''VEVENT''
     [line_of ''UID'' [] ''u'', line_of ''RECURRENCE-ID'' zone (''20260302T090000'' @ z), line_of ''DTSTART'' zone (start @ z)] []"

definition calendar_of :: "component list \<Rightarrow> component option" where
  "calendar_of cs = Some (IComponent ''VCALENDAR'' [] cs)"

definition at_utc :: "string \<Rightarrow> instant" where
  "at_utc s = (case parseWallTime s of Inr t \<Rightarrow> t | Inl _ \<Rightarrow> 0)"

definition sample_expander :: Expander where "sample_expander = NewExpander sample_ext None"

lemma taken_daily:
  assumes "rs_RRule s = Some r" and "ro_Count r = 3"
  shows "walls sample_ext s = map (\<lambda>k. rs_DTStart s + k * 86400 * second) [0, 1, 2]"
proof -
  have "nat maxOccurrences = Suc (Suc (Suc (Suc (nat (maxOccurrences - 4)))))" by (simp add: maxOccurrences_def)
  then show ?thesis using assms by (simp add: walls_def sample_ext_def daily_def)
qed

definition moved_in_utc :: "component option" where
  "moved_in_utc = calendar_of [daily_event ''FREQ=DAILY;COUNT=3'' [] ''Z'', moved_event [] ''Z'' ''20260302T140000'']"

definition moved_in_berlin :: "component option" where
  "moved_in_berlin = calendar_of [daily_event ''FREQ=DAILY;COUNT=3'' ''Europe/Berlin'' [], moved_event ''Europe/Berlin'' [] ''20260302T140000'']"

text \<open>The parts of the two objects, evaluated once: the master of zone \<open>z\<close> and suffix \<open>s\<close>.\<close>

abbreviation three :: "string \<Rightarrow> string \<Rightarrow> component" where
  "three z s \<equiv> daily_event ''FREQ=DAILY;COUNT=3'' z s"

definition base_of :: "string \<Rightarrow> string \<Rightarrow> Instance" where
  "base_of z s = projr (instanceOf sample_expander (three z s))"

definition rc_of :: "string \<Rightarrow> string \<Rightarrow> recurrenceSet" where
  "rc_of z s = the (projr (recurrence_set sample_expander (three z s)))"

abbreviation dur_of :: "string \<Rightarrow> string \<Rightarrow> int" where
  "dur_of z s \<equiv> Sub (in_End (base_of z s)) (in_Start (base_of z s))"

definition walls_of :: "string \<Rightarrow> string \<Rightarrow> instant list" where
  "walls_of z s = map (\<lambda>k. rs_DTStart (rc_set (rc_of z s)) + k * 86400 * second) [0, 1, 2]"

definition occs_of :: "string \<Rightarrow> string \<Rightarrow> Instance list" where
  "occs_of z s = map (\<lambda>w. projr (absolute sample_expander (three z s) w (dur_of z s))) (walls_of z s)"

lemma sample_parts:
  assumes "(z, s) = ([], ''Z'') \<or> (z, s) = (''Europe/Berlin'', [])"
  shows "instanceOf sample_expander (three z s) = Inr (base_of z s)"
    and "recurrence_set sample_expander (three z s) = Inr (Some (rc_of z s))"
    and "\<bar>dur_of z s\<bar> + expansionSlack < 2 ^ 63"
    and "series sample_expander (three z s) (rc_set (rc_of z s)) (dur_of z s) = Some (occs_of z s)"
    and "near sample_expander (three z s) (rc_set (rc_of z s)) (dur_of z s)"
    and "sorted (walls (ex_ext sample_expander) (rc_set (rc_of z s)))"
    and "distinct (walls (ex_ext sample_expander) (rc_set (rc_of z s)))"
proof -
  show "instanceOf sample_expander (three z s) = Inr (base_of z s)"
    "recurrence_set sample_expander (three z s) = Inr (Some (rc_of z s))"
    "\<bar>dur_of z s\<bar> + expansionSlack < 2 ^ 63"
    using assms by (elim disjE; clarsimp; code_simp)+
  have "case rs_RRule (rc_set (rc_of z s)) of Some r \<Rightarrow> ro_Count r = 3 | None \<Rightarrow> False"
    using assms by (elim disjE; clarsimp; code_simp)
  then have w: "walls (ex_ext sample_expander) (rc_set (rc_of z s)) = walls_of z s"
    using taken_daily by (auto simp: walls_of_def sample_expander_def NewExpander_def split: option.splits)
  have a: "those (map (\<lambda>w. case absolute sample_expander (three z s) w (dur_of z s) of Inl _ \<Rightarrow> None | Inr i \<Rightarrow> Some i) (walls_of z s)) =
      Some (occs_of z s)"
    "list_all (\<lambda>i. \<bar>in_Start i - in_RecurrenceID i\<bar> \<le> expansionSlack) (occs_of z s)"
    "sorted (walls_of z s)" "distinct (walls_of z s)"
    using assms by (elim disjE; clarsimp; code_simp)+
  show ser: "series sample_expander (three z s) (rc_set (rc_of z s)) (dur_of z s) = Some (occs_of z s)"
    using a(1) by (simp add: series_def w)
  show "near sample_expander (three z s) (rc_set (rc_of z s)) (dur_of z s)" using a(2) by (simp add: near_def ser)
  show "sorted (walls (ex_ext sample_expander) (rc_set (rc_of z s)))"
    "distinct (walls (ex_ext sample_expander) (rc_set (rc_of z s)))" using a(3,4) by (simp_all add: w)
qed

lemmas utc_parts = sample_parts [OF disjI1 [OF refl]]
lemmas berlin_parts = sample_parts [OF disjI2 [OF refl]]

definition utc_override :: "instant \<times> Instance" where
  "utc_override = (at_utc ''20260302T090000'', (plain_instance (at_utc ''20260302T140000'') (at_utc ''20260302T140000''))
     \<lparr>in_RecurrenceID := at_utc ''20260302T090000'', in_Override := True\<rparr>)"

definition berlin_moved :: Instance where
  "berlin_moved = plain_instance (at_utc ''20260302T130000'') (at_utc ''20260302T130000'')"

lemma moved_parts:
  "split_cal moved_in_utc = (Some (three [] ''Z''), [moved_event [] ''Z'' ''20260302T140000''])"
  "split_cal moved_in_berlin = (Some (three ''Europe/Berlin'' []), [moved_event ''Europe/Berlin'' [] ''20260302T140000''])"
  by (simp_all add: split_cal_def split_step_def moved_in_utc_def moved_in_berlin_def calendar_of_def prop_Get_def props_of_def
      line_of_def daily_event_def moved_event_def)

lemma override_parts:
  "read_overrides sample_expander [moved_event [] ''Z'' ''20260302T140000''] [] = Inr [utc_override]"
  "componentTime sample_expander (moved_event ''Europe/Berlin'' [] ''20260302T140000'') ''RECURRENCE-ID'' =
     Inr (in_Start (occs_of ''Europe/Berlin'' [] ! 1))"
  "instanceOf sample_expander (moved_event ''Europe/Berlin'' [] ''20260302T140000'') = Inr berlin_moved"
  by code_simp+

section \<open>The expansion\<close>


lemma utc_occurrences: "master_occurrences sample_expander moved_in_utc = Some (occs_of [] ''Z'')" "orderly sample_expander moved_in_utc"
  using utc_parts by (simp_all add: master_occurrences_def orderly_def moved_parts(1) Let_def)


text \<open>
  An override names the occurrence it replaces by the instant that starts; the series is numbered by wall
  time. Where the zone has an offset the two are different, the override replaces nothing and the object
  has both: the occurrence at its old time and the one it was moved to.
\<close>

theorem zoned_override_duplicates:
  assumes "split_cal cal = (Some m, [c])" and "componentTime E c ''RECURRENCE-ID'' = Inr (in_Start i)" and "instanceOf E c = Inr moved"
    and "instanceOf E m = Inr base" and "recurrence_set E m = Inr (Some rc)"
    and "d = Sub (in_End base) (in_Start base)" and "\<bar>d\<bar> + expansionSlack < 2 ^ 63"
    and "series E m (rc_set rc) d = Some occs" and "near E m (rc_set rc) d"
    and "sorted (walls (ex_ext E) (rc_set rc))" and "distinct (walls (ex_ext E) (rc_set rc))"
    and "i \<in> set occs" and "in_Start i \<noteq> in_RecurrenceID i"
    and "overlaps i from to" and "overlaps moved from to"
  shows "\<exists>is. Expand E cal from to = Inr is \<and> i \<in> set is \<and>
    moved\<lparr>in_RecurrenceID := in_Start i, in_Override := True\<rparr> \<in> set is"
proof -
  let ?o = "moved\<lparr>in_RecurrenceID := in_Start i, in_Override := True\<rparr>"
  have "read_overrides E [c] [] = Inr [(in_Start i, ?o)]" using assms(2,3) by (simp add: bindE_def)
  from expansion [OF assms(1) this assms(4-11), of "from" to] obtain is' where is':
    "Expand E cal from to = Inr is'"
    "mset is' = mset (filter (\<lambda>i'. overlaps i' from to \<and> map_of [(in_Start i, ?o)] (in_RecurrenceID i') = None) occs) +
      mset (filter (\<lambda>i. overlaps i from to) (map snd [(in_Start i, ?o)]))" by blast
  have "overlaps ?o from to" using assms(15) by (simp add: overlaps_def cong: if_cong)
  then have "?o \<in># mset is'" "i \<in># mset is'" using assms(12-14) by (simp_all add: is'(2))
  then show ?thesis using is'(1) by simp
qed

theorem zoned_override_duplicates_witness:
  "(case Expand sample_expander moved_in_berlin (at_utc ''20260302'') (at_utc ''20260303'') of
      Inr is \<Rightarrow> map (\<lambda>i. (format_utc (in_Start i div second), in_Override i)) is =
        [(''20260302T080000Z'', False), (''20260302T130000Z'', True)] \<and> length is \<ge> 2
    | Inl _ \<Rightarrow> False)"
proof -
  let ?i = "occs_of ''Europe/Berlin'' [] ! 1"
  have "?i \<in> set (occs_of ''Europe/Berlin'' [])" "in_Start ?i \<noteq> in_RecurrenceID ?i" "overlaps ?i (at_utc ''20260302'') (at_utc ''20260303'')"
    "overlaps berlin_moved (at_utc ''20260302'') (at_utc ''20260303'')" by code_simp+
  note w = zoned_override_duplicates [OF moved_parts(2) override_parts(2,3) berlin_parts(1,2) refl berlin_parts(3-7) this]
  have "case Expand sample_expander moved_in_berlin (at_utc ''20260302'') (at_utc ''20260303'') of
      Inr is \<Rightarrow> map (\<lambda>i. (format_utc (in_Start i div second), in_Override i)) is =
        [(''20260302T080000Z'', False), (''20260302T130000Z'', True)] | Inl _ \<Rightarrow> False" by code_simp
  then show ?thesis using w by (auto split: sum.splits)
qed

text \<open>The index of the object in Berlin over a day that only the moved occurrence falls in.\<close>

lemma taken_call: "w \<in> set (taken it n k) \<Longrightarrow> \<exists>j. k \<le> j \<and> j < k + int n \<and> it j = Some w"
proof (induction n arbitrary: k)
  case (Suc n)
  have "\<exists>j. k \<le> j \<and> j < k + int (Suc n) \<and> it j = Some w" if t: "w \<in> set (taken it n (k + 1))"
  proof -
    obtain j where "k + 1 \<le> j" "j < k + 1 + int n" "it j = Some w" using Suc.IH [OF t] by blast
    then show ?thesis by (intro exI [of _ j]) simp
  qed
  then show ?case using Suc.prems by (auto split: option.splits)
qed simp

lemma sample_All: "\<forall>s. set (walls (ex_ext sample_expander) s) \<subseteq> set (x_All (ex_ext sample_expander) s)"
proof (intro allI subsetI)
  fix s w
  assume "w \<in> set (walls (ex_ext sample_expander) s)"
  then obtain j where j: "0 \<le> j" "j < maxOccurrences" "daily s j = Some w"
    using taken_call [of w "daily s" "nat maxOccurrences" 0]
    by (auto simp: walls_def sample_expander_def NewExpander_def sample_ext_def maxOccurrences_def)
  then show "w \<in> set (x_All (ex_ext sample_expander) s)"
    by (auto simp: daily_def sample_expander_def NewExpander_def sample_ext_def split: option.splits if_splits)
qed

definition berlin_bounds :: recurrence_Bounds where
  "berlin_bounds = projr (Summarise sample_expander moved_in_berlin)"

theorem index_loses_nothing_witness:
  "(case bd_Start berlin_bounds of Some s \<Rightarrow> s < at_utc ''20260302T140000'' | None \<Rightarrow> False) \<and>
   (case Expand sample_expander moved_in_berlin (at_utc ''20260302T120000'') (at_utc ''20260302T140000'') of
      Inr is \<Rightarrow> length is = 1 | Inl _ \<Rightarrow> False)"
proof -
  have sum: "Summarise sample_expander moved_in_berlin = Inr berlin_bounds"
    "bd_End berlin_bounds = Some (at_utc ''20260303T090000'')" by code_simp+
  have len: "case Expand sample_expander moved_in_berlin (at_utc ''20260302T120000'') (at_utc ''20260302T140000'') of
      Inr is \<Rightarrow> length is = 1 | Inl _ \<Rightarrow> False" by code_simp
  then obtain is' where is': "Expand sample_expander moved_in_berlin (at_utc ''20260302T120000'') (at_utc ''20260302T140000'') = Inr is'"
    "is' ! 0 \<in> set is'" by (auto split: sum.splits)
  from index_loses_nothing [OF moved_parts(2) disjI1 sum sample_All is'] len show ?thesis by auto
qed

text \<open>
  Two overrides without their master: the object has an instance on the second day, but only the first is indexed.
\<close>

lemma second_override_lost:
  "(let cal = calendar_of [moved_event [] ''Z'' ''20260302T140000'',
          IComponent ''VEVENT'' [line_of ''UID'' [] ''u'', line_of ''RECURRENCE-ID'' [] ''20260303T090000Z'', line_of ''DTSTART'' [] ''20260305T140000Z''] []];
        from = at_utc ''20260305''; to = at_utc ''20260306''
    in Overlaps sample_expander cal from to = Inr True \<and>
       (case Summarise sample_expander cal of Inr b \<Rightarrow> the (bd_End b) < from | Inl _ \<Rightarrow> False))"
  by code_simp

text \<open>A moment at the beginning of the range is in it, but its indexed end is not after that beginning.\<close>

lemma moment_at_start_lost:
  "(let cal = calendar_of [IComponent ''VEVENT'' [line_of ''UID'' [] ''u'', line_of ''DTSTART'' [] ''20260305T140000Z''] []];
        from = at_utc ''20260305T140000''; to = at_utc ''20260306''
    in Overlaps sample_expander cal from to = Inr True \<and>
       (case Summarise sample_expander cal of Inr b \<Rightarrow> the (bd_End b) = from | Inl _ \<Rightarrow> False))"
  by code_simp

text \<open>An override moved before the first day of an endless series is outside the indexed bounds.\<close>

lemma endless_series_loses_override:
  "(let cal = calendar_of [daily_event ''FREQ=DAILY'' [] ''Z'', moved_event [] ''Z'' ''20260220T140000''];
        from = at_utc ''20260220''; to = at_utc ''20260221''
    in Overlaps sample_expander cal from to = Inr True \<and>
       (case Summarise sample_expander cal of Inr b \<Rightarrow> the (bd_Start b) \<ge> to | Inl _ \<Rightarrow> False))"
  by code_simp

end
