(* ===== verification/ContentLine.thy ===== *)
theory ContentLine
  imports Prelude
begin

text \<open>
  \<open>internal/contentline\<close>: the content-line format shared by vCard and iCalendar. A document
  is the list of its logical lines (the one field of \<open>Document\<close>); every line keeps the
  bytes it was read from. Folding a rebuilt line is a loop that need not end, so \<open>fold_line\<close>
  and \<open>doc_Bytes\<close> return \<open>None\<close> for "does not return".
\<close>

section \<open>Lines and documents\<close>

record line =
  l_raw :: string
  l_eol :: string
  l_Group :: string
  l_Name :: string
  l_Params :: string
  l_Value :: string
  l_dirty :: bool
  l_added :: bool

type_synonym document = "line list"

record span =
  Begin :: int
  End :: int

section \<open>Reading: logical lines\<close>

text \<open>The terminator a string starts with, and what follows it.\<close>

definition line_break :: "string \<Rightarrow> string \<times> string" where
  "line_break s = (case s of
      [] \<Rightarrow> ([], [])
    | c # s' \<Rightarrow>
        if c = CR then (case s' of d # s'' \<Rightarrow> if d = LF then ([CR, LF], s'') else ([CR], s') | [] \<Rightarrow> ([CR], []))
        else ([LF], s'))"

text \<open>The first physical line of a string: its text, its terminator (empty at the end) and the rest.\<close>

definition phys_line :: "string \<Rightarrow> string \<times> string \<times> string" where
  "phys_line s = (takeWhile (\<lambda>c. \<not> is_crlf c) s, line_break (dropWhile (\<lambda>c. \<not> is_crlf c) s))"

lemma line_break_facts:
  assumes "line_break d = (t, r)" and "d = [] \<or> is_crlf (hd d)"
  shows "d = t @ r" and "t = [] \<Longrightarrow> r = []" and "t \<in> {[], [CR, LF], [CR], [LF]}"
    and "t = [CR] \<Longrightarrow> r = [] \<or> hd r \<noteq> LF"
proof -
  consider "d = []" | c where "d = [c]" | c e s where "d = c # e # s"
    by (metis list.exhaust)
  then have "d = t @ r \<and> (t = [] \<longrightarrow> r = []) \<and> t \<in> {[], [CR, LF], [CR], [LF]} \<and> (t = [CR] \<longrightarrow> r = [] \<or> hd r \<noteq> LF)"
    using assms by cases (auto simp: line_break_def is_crlf_def split: if_splits)
  then show "d = t @ r" "t = [] \<Longrightarrow> r = []" "t \<in> {[], [CR, LF], [CR], [LF]}"
    "t = [CR] \<Longrightarrow> r = [] \<or> hd r \<noteq> LF" by auto
qed

lemma phys_line_facts:
  assumes "phys_line s = (p, t, r)"
  shows "s = p @ t @ r" and "\<forall>c \<in> set p. \<not> is_crlf c" and "t = [] \<Longrightarrow> r = []"
    and "t \<in> {[], [CR, LF], [CR], [LF]}" and "t = [CR] \<Longrightarrow> r = [] \<or> hd r \<noteq> LF"
proof -
  let ?d = "dropWhile (\<lambda>c. \<not> is_crlf c) s"
  have p: "p = takeWhile (\<lambda>c. \<not> is_crlf c) s" and tr: "line_break ?d = (t, r)"
    using assms by (auto simp: phys_line_def)
  have hd: "?d = [] \<or> is_crlf (hd ?d)" using hd_dropWhile [of "\<lambda>c. \<not> is_crlf c" s] by auto
  note lb = line_break_facts [OF tr hd]
  show "s = p @ t @ r" using p lb(1) takeWhile_dropWhile_id [of "\<lambda>c. \<not> is_crlf c" s] by simp
  show "\<forall>c \<in> set p. \<not> is_crlf c" using p by (auto dest: set_takeWhileD)
  show "t = [] \<Longrightarrow> r = []" "t \<in> {[], [CR, LF], [CR], [LF]}" "t = [CR] \<Longrightarrow> r = [] \<or> hd r \<noteq> LF"
    using lb by auto
qed

lemma phys_line_length: "phys_line s = (p, t, w # r) \<Longrightarrow> length r < length s"
  using phys_line_facts(1) [of s p t "w # r"] by simp

function nextLogicalLine_loop :: "string \<Rightarrow> string \<Rightarrow> string \<times> string \<times> string" where
  "nextLogicalLine_loop b s =
     (case phys_line s of
        (pre, term, []) \<Rightarrow> (b @ pre, term, [])
      | (pre, term, w # rest) \<Rightarrow>
          if w = SP \<or> w = TAB then nextLogicalLine_loop (b @ pre @ term @ [w]) rest
          else (b @ pre, term, w # rest))"
  by pat_completeness auto
termination
  by (relation "measure (\<lambda>(b, s). length s)") (auto dest!: sym [of "(_, _)" "phys_line _"] phys_line_length)

declare nextLogicalLine_loop.simps [simp del]

definition nextLogicalLine :: "string \<Rightarrow> string \<times> string \<times> string" where
  "nextLogicalLine s = nextLogicalLine_loop [] s"

definition drop_lf :: "string \<Rightarrow> string" where
  "drop_lf s = (case s of c # s' \<Rightarrow> if c = LF then s' else s | [] \<Rightarrow> [])"

definition drop_ws :: "string \<Rightarrow> string" where
  "drop_ws s = (case s of c # s' \<Rightarrow> if c = SP \<or> c = TAB then s' else s | [] \<Rightarrow> [])"

lemma drop_length [simp]: "length (drop_lf s) \<le> length s" "length (drop_ws s) \<le> length s"
    "length (drop_ws (drop_lf s)) \<le> length s"
  by (auto simp: drop_lf_def drop_ws_def split: list.splits)

function unfold_loop :: "string \<Rightarrow> string" where
  "unfold_loop [] = []"
| "unfold_loop (c # s) =
     (if c = CR then unfold_loop (drop_ws (drop_lf s))
      else if c = LF then unfold_loop (drop_ws s)
      else c # unfold_loop s)"
  by pat_completeness auto
termination
  by (relation "measure length") (auto simp: less_Suc_eq_le)

definition unfold_line :: "string \<Rightarrow> string" where
  "unfold_line text = (if list_ex is_crlf text then unfold_loop text else text)"

text \<open>The head and the value around the first colon outside a quoted parameter value.\<close>

fun find_colon :: "bool \<Rightarrow> string \<Rightarrow> (string \<times> string) option" where
  "find_colon quoted [] = None"
| "find_colon quoted (c # s) =
     (if c = CHR '':'' \<and> \<not> quoted then Some ([], s)
      else map_option (\<lambda>(h, v). (c # h, v)) (find_colon (if c = DQUOTE then \<not> quoted else quoted) s))"

definition splitLine :: "string \<Rightarrow> string \<times> string \<times> string \<times> string" where
  "splitLine s = (case find_colon False s of
      None \<Rightarrow> ([], ToUpper s, [], [])
    | Some (head, value) \<Rightarrow>
        let params = dropWhile (\<lambda>c. c \<noteq> CHR '';'') head;
            head = takeWhile (\<lambda>c. c \<noteq> CHR '';'') head;
            (group, head) = (case Cut (CHR ''.'') head of None \<Rightarrow> ([], head) | Some (g, h) \<Rightarrow> (g, h))
        in (group, ToUpper head, params, value))"

definition mk_line :: "string \<Rightarrow> string \<Rightarrow> line" where
  "mk_line text eol =
     (let (g, n, p, v) = splitLine (unfold_line text)
      in \<lparr>l_raw = text, l_eol = eol, l_Group = g, l_Name = n, l_Params = p, l_Value = v,
          l_dirty = False, l_added = False\<rparr>)"

text \<open>Each logical line takes at least one byte, so the loop of \<open>Parse\<close> ends.\<close>

lemma nextLogicalLine_loop_split:
  "nextLogicalLine_loop b s = (t, e, r) \<Longrightarrow> b @ s = t @ e @ r"
proof (induction b s arbitrary: t e r rule: nextLogicalLine_loop.induct)
  case (1 b s)
  obtain p tm r' where pl: "phys_line s = (p, tm, r')" by (cases "phys_line s")
  note s = phys_line_facts(1) [OF pl]
  show ?case
  proof (cases r')
    case Nil
    then show ?thesis using 1(2) pl s by (subst (asm) nextLogicalLine_loop.simps) auto
  next
    case (Cons w rest)
    show ?thesis
    proof (cases "w = SP \<or> w = TAB")
      case True
      have "nextLogicalLine_loop (b @ p @ tm @ [w]) rest = (t, e, r)"
        using 1(2) pl Cons True by (subst (asm) nextLogicalLine_loop.simps) auto
      then have "(b @ p @ tm @ [w]) @ rest = t @ e @ r"
        using 1(1) [OF pl [symmetric] refl Cons True] by simp
      then show ?thesis using s Cons by simp
    next
      case False
      then show ?thesis using 1(2) pl Cons s by (subst (asm) nextLogicalLine_loop.simps) auto
    qed
  qed
qed

lemma nextLogicalLine_split: "nextLogicalLine s = (t, e, r) \<Longrightarrow> s = t @ e @ r"
  using nextLogicalLine_loop_split [of "[]" s] by (simp add: nextLogicalLine_def)

function Parse :: "string \<Rightarrow> document" where
  "Parse s =
     (if s = [] then []
      else let (text, eol, rest) = nextLogicalLine s
           in if text = [] \<and> eol = [] then [] else mk_line text eol # Parse rest)"
  by pat_completeness auto
termination
proof (relation "measure length", goal_cases)
  case 1
  show ?case by simp
next
  case (2 s x t y eol rest)
  then have "s = t @ eol @ rest" using nextLogicalLine_split [of s t eol rest] by simp
  then show ?case using 2 by auto
qed

declare Parse.simps [simp del]

section \<open>Writing: folding and rendering\<close>

definition EOL :: "document \<Rightarrow> string" where
  "EOL d = (case List.find (\<lambda>l. l_eol l \<noteq> []) d of None \<Rightarrow> [CR, LF] | Some l \<Rightarrow> l_eol l)"

definition rebuild :: "line \<Rightarrow> string" where
  "rebuild l = (if l_Group l \<noteq> [] then l_Group l @ ''.'' else []) @ l_Name l @ l_Params l @ '':'' @ l_Value l"

text \<open>A UTF-8 continuation byte: the top two bits are \<open>10\<close>.\<close>

definition is_cont :: "char \<Rightarrow> bool" where
  "is_cont c = ((of_char c :: nat) div 64 = 2)"

text \<open>Where a chunk really ends: back from \<open>e\<close> over continuation bytes, at most to the start.\<close>

fun fold_end :: "string \<Rightarrow> nat \<Rightarrow> nat" where
  "fold_end s 0 = 0"
| "fold_end s (Suc e) = (if is_cont (s ! Suc e) then fold_end s e else Suc e)"

text \<open>
  The loop of \<open>fold\<close> over the part of the string that is not written yet; \<open>first\<close> is
  \<open>start = 0\<close>, \<open>b\<close> the builder. When the whole chunk is continuation bytes, \<open>end\<close> comes back
  to \<open>start\<close> and the loop makes no progress.
\<close>

partial_function (option) fold_loop :: "bool \<Rightarrow> string \<Rightarrow> string \<Rightarrow> string \<Rightarrow> string option" where
  "fold_loop first eol b s =
     (if s = [] then Some b
      else let b = (if first then b else b @ [SP]);
               width = (if first then 75 else 74)
           in if width \<ge> length s then Some (b @ s)
              else let e = fold_end s width
                   in fold_loop (first \<and> e = 0) eol (b @ take e s @ eol) (drop e s))"

definition fold_line :: "string \<Rightarrow> string \<Rightarrow> string option" where
  "fold_line s eol = (if length s \<le> 75 then Some s else fold_loop True eol [] s)"

definition line_bytes :: "document \<Rightarrow> line \<Rightarrow> string option" where
  "line_bytes d l =
     map_option (\<lambda>t. t @ (if l_eol l = [] then EOL d else l_eol l))
       (if l_dirty l \<or> l_added l then fold_line (rebuild l) (EOL d) else Some (l_raw l))"

fun bytes_loop :: "document \<Rightarrow> string \<Rightarrow> line list \<Rightarrow> string option" where
  "bytes_loop d b [] = Some b"
| "bytes_loop d b (l # ls) = (case line_bytes d l of None \<Rightarrow> None | Some t \<Rightarrow> bytes_loop d (b @ t) ls)"

definition doc_Bytes :: "document \<Rightarrow> string option" where
  "doc_Bytes d = bytes_loop d [] d"

section \<open>Components and properties\<close>

definition Whole :: "document \<Rightarrow> span" where
  "Whole d = \<lparr>Begin = -1, End = int (length d)\<rparr>"

text \<open>The loop over the lines from index \<open>i\<close>, with the stack of open BEGIN lines.\<close>

fun components_loop :: "document \<Rightarrow> string \<Rightarrow> nat \<Rightarrow> line list \<Rightarrow> nat list \<Rightarrow> span list" where
  "components_loop d name i [] stack = []"
| "components_loop d name i (l # ls) stack =
     (if l_Name l = ''BEGIN'' then components_loop d name (Suc i) ls (i # stack)
      else if l_Name l = ''END'' then
        (case stack of
           [] \<Rightarrow> components_loop d name (Suc i) ls []
         | b # stack' \<Rightarrow>
             (if EqualFold (l_Value (d ! b)) name then [\<lparr>Begin = int b, End = int i\<rparr>] else []) @
             components_loop d name (Suc i) ls stack')
      else components_loop d name (Suc i) ls stack)"

definition Components :: "document \<Rightarrow> string \<Rightarrow> span list" where
  "Components d name = sort_key Begin (components_loop d (ToUpper name) 0 d [])"

definition Component :: "document \<Rightarrow> string \<Rightarrow> span option" where
  "Component d name = (case Components d name of [] \<Rightarrow> None | sp # _ \<Rightarrow> Some sp)"

fun line_depth :: "line list \<Rightarrow> int" where
  "line_depth [] = 0"
| "line_depth (l # ls) =
     (if l_Name l = ''BEGIN'' then 1 else if l_Name l = ''END'' then -1 else 0) + line_depth ls"

definition contains :: "document \<Rightarrow> span \<Rightarrow> nat \<Rightarrow> bool" where
  "contains d sp i =
     (if int i \<le> Begin sp \<or> int i \<ge> End sp then False
      else line_depth (map ((!) d) [nat (Begin sp + 1)..<i]) = 0)"

definition span_range :: "document \<Rightarrow> span \<Rightarrow> nat list" where
  "span_range d sp = [nat (Begin sp + 1)..<min (nat (End sp)) (length d)]"

definition is_prop :: "document \<Rightarrow> span \<Rightarrow> string \<Rightarrow> nat \<Rightarrow> bool" where
  "is_prop d sp name i = (l_Name (d ! i) = name \<and> contains d sp i)"

definition doc_Find :: "document \<Rightarrow> span \<Rightarrow> string \<Rightarrow> nat option" where
  "doc_Find d sp name = List.find (is_prop d sp (ToUpper name)) (span_range d sp)"

definition doc_FindAll :: "document \<Rightarrow> span \<Rightarrow> string \<Rightarrow> nat list" where
  "doc_FindAll d sp name = filter (is_prop d sp (ToUpper name)) (span_range d sp)"

section \<open>Escaping and parameters\<close>

definition Param :: "string \<Rightarrow> string \<Rightarrow> string" where
  "Param params name =
     (case List.find (\<lambda>part. case Cut (CHR ''='') part of None \<Rightarrow> False | Some (k, _) \<Rightarrow> EqualFold k name)
             (Split (CHR '';'') (TrimPrefix params '';'')) of
        None \<Rightarrow> []
      | Some part \<Rightarrow> (case Cut (CHR ''='') part of None \<Rightarrow> [] | Some (_, v) \<Rightarrow> Trim v [DQUOTE]))"

definition Params :: "string \<Rightarrow> string \<Rightarrow> string list" where
  "Params params name =
     concat (map (\<lambda>part. case Cut (CHR ''='') part of
                    None \<Rightarrow> []
                  | Some (k, v) \<Rightarrow>
                      if EqualFold k name then map (\<lambda>x. Trim x [DQUOTE]) (Split (CHR '','') v) else [])
       (Split (CHR '';'') (TrimPrefix params '';'')))"

definition escape_char :: "char \<Rightarrow> string" where
  "escape_char c =
     (if c = BACKSLASH then [BACKSLASH, BACKSLASH]
      else if c = LF then [BACKSLASH, CHR ''n'']
      else if c = CR then []
      else if c = CHR '','' then [BACKSLASH, CHR '','']
      else if c = CHR '';'' then [BACKSLASH, CHR '';'']
      else [c])"

definition Escape :: "string \<Rightarrow> string" where
  "Escape s = concat (map escape_char s)"

definition EscapeComponent :: "string \<Rightarrow> string" where
  "EscapeComponent s = Escape s"

definition unescape_char :: "char \<Rightarrow> char" where
  "unescape_char c = (if c = CHR ''n'' \<or> c = CHR ''N'' then LF else c)"

fun unescape_loop :: "string \<Rightarrow> string" where
  "unescape_loop [] = []"
| "unescape_loop [c] = [c]"
| "unescape_loop (c # d # s) =
     (if c \<noteq> BACKSLASH then c # unescape_loop (d # s) else unescape_char d # unescape_loop s)"

definition Unescape :: "string \<Rightarrow> string" where
  "Unescape s = (if BACKSLASH \<notin> set s then s else unescape_loop s)"

text \<open>The loop of \<open>SplitStructured\<close>: the builder of the current part, then the parts.\<close>

fun split_structured_loop :: "string \<Rightarrow> string \<Rightarrow> string list" where
  "split_structured_loop b [] = [b]"
| "split_structured_loop b [c] = (if c = CHR '';'' then [b, []] else [b @ [c]])"
| "split_structured_loop b (c # d # s) =
     (if c = BACKSLASH then split_structured_loop (b @ [unescape_char d]) s
      else if c = CHR '';'' then b # split_structured_loop [] (d # s)
      else split_structured_loop (b @ [c]) (d # s))"

definition SplitStructured :: "string \<Rightarrow> string list" where
  "SplitStructured s = split_structured_loop [] s"

section \<open>Reading values\<close>

definition doc_Value :: "document \<Rightarrow> span \<Rightarrow> string \<Rightarrow> string" where
  "doc_Value d sp name = (case doc_Find d sp name of None \<Rightarrow> [] | Some i \<Rightarrow> Unescape (l_Value (d ! i)))"

definition doc_RawValue :: "document \<Rightarrow> span \<Rightarrow> string \<Rightarrow> string" where
  "doc_RawValue d sp name = (case doc_Find d sp name of None \<Rightarrow> [] | Some i \<Rightarrow> l_Value (d ! i))"

definition doc_Param :: "document \<Rightarrow> span \<Rightarrow> string \<Rightarrow> string \<Rightarrow> string" where
  "doc_Param d sp name param = (case doc_Find d sp name of None \<Rightarrow> [] | Some i \<Rightarrow> Param (l_Params (d ! i)) param)"

section \<open>Editing\<close>

definition NewLine :: "string \<Rightarrow> string \<Rightarrow> string \<Rightarrow> line" where
  "NewLine name params value =
     \<lparr>l_raw = [], l_eol = [], l_Group = [], l_Name = ToUpper name, l_Params = params, l_Value = value,
      l_dirty = False, l_added = True\<rparr>"

definition doc_Insert :: "document \<Rightarrow> span \<Rightarrow> line \<Rightarrow> document \<times> span" where
  "doc_Insert d sp l =
     (let l = l\<lparr>l_eol := EOL d, l_added := True\<rparr>;
          at = (if End sp < 0 \<or> End sp > int (length d) then length d else nat (End sp))
      in (take at d @ l # drop at d, sp\<lparr>End := End sp + 1\<rparr>))"

text \<open>
  \<open>Remove\<close> of a grouped line filters the slice in place: \<open>kept\<close> shares the array of
  \<open>d.Lines\<close>, so \<open>contains\<close> reads lines that this very loop has moved. \<open>a\<close> is the array,
  \<open>j\<close> the index of the range loop, \<open>k\<close> the length of \<open>kept\<close>.
\<close>

function remove_loop :: "string \<Rightarrow> span \<Rightarrow> nat \<Rightarrow> nat \<Rightarrow> line list \<Rightarrow> line list \<times> nat" where
  "remove_loop grp sp j k a =
     (if j < length a then
        (if l_Group (a ! j) = grp \<and> contains a sp j then remove_loop grp sp (Suc j) k a
         else remove_loop grp sp (Suc j) (Suc k) (a[k := a ! j]))
      else (take k a, length a - k))"
  by pat_completeness auto
termination
  by (relation "measure (\<lambda>(grp, sp, j, k, a). length a - j)") auto

declare remove_loop.simps [simp del]

definition doc_Remove :: "document \<Rightarrow> span \<Rightarrow> nat \<Rightarrow> document \<times> span" where
  "doc_Remove d sp i =
     (let grp = l_Group (d ! i)
      in if grp = [] then (take i d @ drop (Suc i) d, sp\<lparr>End := End sp - 1\<rparr>)
         else let (kept, removed) = remove_loop grp sp 0 0 d
              in (kept, sp\<lparr>End := End sp - int removed\<rparr>))"

definition doc_set :: "document \<Rightarrow> span \<Rightarrow> string \<Rightarrow> string \<Rightarrow> string option \<Rightarrow> document \<times> span" where
  "doc_set d sp name value params =
     (let name = ToUpper name in
      case doc_Find d sp name of
        Some i \<Rightarrow>
          if value = [] then doc_Remove d sp i
          else (d[i := (d ! i)\<lparr>l_Value := value,
                               l_Params := (case params of None \<Rightarrow> l_Params (d ! i) | Some p \<Rightarrow> p),
                               l_dirty := True\<rparr>], sp)
      | None \<Rightarrow>
          if value = [] then (d, sp)
          else doc_Insert d sp (NewLine name (case params of None \<Rightarrow> [] | Some p \<Rightarrow> p) value))"

definition doc_Set :: "document \<Rightarrow> span \<Rightarrow> string \<Rightarrow> string \<Rightarrow> document \<times> span" where
  "doc_Set d sp name value = doc_set d sp name (Escape value) None"

definition doc_SetRaw :: "document \<Rightarrow> span \<Rightarrow> string \<Rightarrow> string \<Rightarrow> document \<times> span" where
  "doc_SetRaw d sp name value = doc_set d sp name value None"

definition doc_SetWithParams :: "document \<Rightarrow> span \<Rightarrow> string \<Rightarrow> string \<Rightarrow> string \<Rightarrow> document \<times> span" where
  "doc_SetWithParams d sp name params value = doc_set d sp name value (Some params)"

definition doc_Replace :: "document \<Rightarrow> nat \<Rightarrow> string \<Rightarrow> string \<Rightarrow> document" where
  "doc_Replace d i params value =
     d[i := (d ! i)\<lparr>l_Params := params, l_Value := value, l_dirty := True\<rparr>]"

text \<open>
  \<open>Delete\<close> removes until \<open>Find\<close> comes back empty. It ends because \<open>Remove\<close> drops at least
  the line it was given: up to the first line it drops, the filtered slice is the slice itself.
\<close>

lemma remove_loop_bounds:
  "k \<le> j \<Longrightarrow> j \<le> length a \<Longrightarrow> remove_loop grp sp j k a = (r, m) \<Longrightarrow>
   length r + m = length a \<and> j - k \<le> m"
proof (induction grp sp j k a arbitrary: r m rule: remove_loop.induct)
  case (1 grp sp j k a)
  show ?case
  proof (cases "j < length a")
    case False
    then show ?thesis using "1.prems" by (subst (asm) remove_loop.simps) auto
  next
    case True
    note step = "1.prems"(3) [unfolded remove_loop.simps [of grp sp j k a]]
    show ?thesis
    proof (cases "l_Group (a ! j) = grp \<and> contains a sp j")
      case drop: True
      then show ?thesis using "1.IH"(1) [OF True drop] "1.prems"(1) True step by fastforce
    next
      case keep: False
      then show ?thesis using "1.IH"(2) [OF True keep] "1.prems"(1) True step by fastforce
    qed
  qed
qed

lemma remove_loop_removes:
  "remove_loop grp sp j j a = (r, m) \<Longrightarrow> j \<le> i \<Longrightarrow> i < length a \<Longrightarrow>
   l_Group (a ! i) = grp \<Longrightarrow> contains a sp i \<Longrightarrow> 0 < m"
proof (induction "i - j" arbitrary: j)
  case 0
  then have "remove_loop grp sp (Suc i) i a = (r, m)" by (subst (asm) remove_loop.simps) simp
  then show ?case using remove_loop_bounds [of i "Suc i" a grp sp r m] 0 by simp
next
  case (Suc n)
  then have j: "j < length a" by simp
  show ?case
  proof (cases "l_Group (a ! j) = grp \<and> contains a sp j")
    case True
    then have "remove_loop grp sp (Suc j) j a = (r, m)"
      using Suc.prems(1) j by (subst (asm) remove_loop.simps) simp
    then show ?thesis using remove_loop_bounds [of j "Suc j" a grp sp r m] j by simp
  next
    case False
    then have "remove_loop grp sp (Suc j) (Suc j) a = (r, m)"
      using Suc.prems(1) j by (subst (asm) remove_loop.simps) auto
    then show ?thesis using Suc.hyps(1) [of "Suc j"] Suc.hyps(2) Suc.prems by simp
  qed
qed

lemma find_Some: "List.find P xs = Some x \<Longrightarrow> x \<in> set xs \<and> P x"
  by (auto simp: find_Some_iff)

lemma doc_Find_Some:
  assumes "doc_Find d sp name = Some i"
  shows "i < length d" "Begin sp < int i" "int i < End sp" "l_Name (d ! i) = ToUpper name" "contains d sp i"
  using find_Some [OF assms [unfolded doc_Find_def]]
  by (auto simp: is_prop_def span_range_def contains_def split: if_splits)

lemma doc_Remove_shorter:
  assumes "doc_Find d sp name = Some i" and "doc_Remove d sp i = (d', sp')"
  shows "length d' < length d"
proof (cases "l_Group (d ! i) = []")
  case True
  then show ?thesis using assms doc_Find_Some(1) [OF assms(1)] by (auto simp: doc_Remove_def)
next
  case False
  obtain r m where rm: "remove_loop (l_Group (d ! i)) sp 0 0 d = (r, m)" by fastforce
  then have "0 < m" using remove_loop_removes [OF rm, of i] doc_Find_Some [OF assms(1)] by simp
  moreover have "length r + m = length d" using remove_loop_bounds [OF _ _ rm] by simp
  ultimately show ?thesis using assms(2) False rm by (auto simp: doc_Remove_def)
qed

function doc_Delete :: "document \<Rightarrow> span \<Rightarrow> string \<Rightarrow> document \<times> span" where
  "doc_Delete d sp name =
     (case doc_Find d sp name of
        None \<Rightarrow> (d, sp)
      | Some i \<Rightarrow> let (d', sp') = doc_Remove d sp i in doc_Delete d' sp' name)"
  by pat_completeness auto
termination
  by (relation "measure (\<lambda>(d, sp, name). length d)") (auto dest: doc_Remove_shorter [OF _ sym])

declare doc_Delete.simps [simp del]

definition At :: "document \<Rightarrow> nat \<Rightarrow> line" where
  "At d i = d ! i"

end
