(* ===== verification/ICal_Edit.thy ===== *)
theory ICal_Edit
  imports ContentLine Timezones Scan
begin

text \<open>
  \<open>internal/ical/event.go\<close>: the properties of the first event of a calendar object, read for a form and
  written back into the document that holds it. The zone database is the parameter \<open>locs\<close>, a fresh UID
  the parameter \<open>fresh\<close>; times are nanoseconds, wall times as in \<open>Timezones\<close>. Rendering a document may not
  return (\<open>ContentLine\<close>), so neither may \<open>Apply\<close>: that is \<open>None\<close>.
\<close>

record Event =
  ev_UID :: string
  ev_Summary :: string
  ev_Location :: string
  ev_Description :: string
  ev_Start :: instant
  ev_End :: instant
  ev_AllDay :: bool
  ev_Timezone :: string
  ev_Recurrence :: string

datatype ical_error = EmptyObject | NoCalendar | NoEvent | NoTime | UnreadableTime
  | NoTitle | NoStart | EndsBeforeStart | UnknownTimezone | NotADuration | MonthsNotFixed

type_synonym ical_object = "document \<times> span"

section \<open>Reading\<close>

definition ical_Parse :: "string \<Rightarrow> ical_error + ical_object" where
  "ical_Parse raw =
     (let doc = Parse raw in
      if doc = [] then Inl EmptyObject
      else if Component doc ''VCALENDAR'' = None then Inl NoCalendar
      else case Component doc ''VEVENT'' of None \<Rightarrow> Inl NoEvent | Some sp \<Rightarrow> Inr (doc, sp))"

definition HasOverrides :: "document \<Rightarrow> bool" where
  "HasOverrides d = list_ex (\<lambda>sp. doc_Find d sp ''RECURRENCE-ID'' \<noteq> None) (Components d ''VEVENT'')"

text \<open>The wall time, whether it is a date, and the zone.\<close>

definition readTime :: "ical_object \<Rightarrow> string \<Rightarrow> ical_error + instant \<times> bool \<times> string" where
  "readTime ob name =
     (case ob of (d, sp) \<Rightarrow>
      case doc_Find d sp name of
        None \<Rightarrow> Inl NoTime
      | Some i \<Rightarrow>
          let v = TrimSpace (l_Value (At d i));
              zone = Param (l_Params (At d i)) ''TZID'';
              read = (\<lambda>text allDay zone. case parse_instant text of None \<Rightarrow> Inl UnreadableTime | Some t \<Rightarrow> Inr (t, allDay, zone))
          in if length v = 8 then read (v @ ''T000000Z'') True zone
             else if HasSuffix v ''Z'' then read v False []
             else if length v = 15 then read (v @ ''Z'') False zone
             else Inl UnreadableTime)"

text \<open>The loop of \<open>parseDuration\<close>: the digits so far, whether T was seen, the total.\<close>

fun duration_loop :: "string \<Rightarrow> bool \<Rightarrow> int \<Rightarrow> string \<Rightarrow> ical_error + int" where
  "duration_loop number inTime acc [] = Inr acc"
| "duration_loop number inTime acc (r # s) =
     (if r = CHR ''T'' then duration_loop number True acc s
      else if is_digit r then duration_loop (number @ [r]) inTime acc s
      else case scan_int number of
             None \<Rightarrow> Inl NotADuration
           | Some (n, _) \<Rightarrow>
               if r = CHR ''W'' then duration_loop [] inTime (wrap64 (acc + n * (7 * 24 * 3600 * second))) s
               else if r = CHR ''D'' then duration_loop [] inTime (wrap64 (acc + n * (24 * 3600 * second))) s
               else if r = CHR ''H'' then duration_loop [] inTime (wrap64 (acc + n * (3600 * second))) s
               else if r = CHR ''M'' then
                 (if inTime then duration_loop [] inTime (wrap64 (acc + n * (60 * second))) s else Inl MonthsNotFixed)
               else if r = CHR ''S'' then duration_loop [] inTime (wrap64 (acc + n * second)) s
               else Inl NotADuration)"

definition parseDuration :: "string \<Rightarrow> ical_error + int" where
  "parseDuration s =
     (let s = TrimSpace s;
          negative = HasPrefix s ''-'';
          s = TrimLeft s ''+-''
      in if \<not> HasPrefix s ''P'' then Inl NotADuration
         else bindE (duration_loop [] False 0 (tl s)) (\<lambda>acc. Inr (if negative then wrap64 (- acc) else acc)))"

text \<open>Where the event ends: DTEND, or the start and DURATION, or a default.\<close>

definition readEnd :: "ical_object \<Rightarrow> instant \<Rightarrow> bool \<Rightarrow> ical_error + instant" where
  "readEnd ob start allDay =
     (case ob of (d, sp) \<Rightarrow>
      bindE (if doc_Find d sp ''DTEND'' \<noteq> None then bindE (readTime ob ''DTEND'') (\<lambda>(e, _, _). Inr e)
             else let v = doc_Value d sp ''DURATION'' in
               if v \<noteq> [] then (case parseDuration v of Inl _ \<Rightarrow> Inr zeroInstant | Inr dur \<Rightarrow> Inr (start + dur))
               else Inr zeroInstant) (\<lambda>e.
        Inr (if e = zeroInstant then (if allDay then instant_AddDate start 0 0 1 else start) else e)))"

definition read_object :: "ical_object \<Rightarrow> ical_error + Event" where
  "read_object ob =
     (case ob of (d, sp) \<Rightarrow>
      bindE (readTime ob ''DTSTART'') (\<lambda>(start, allDay, zone).
      bindE (readEnd ob start allDay) (\<lambda>e.
        Inr \<lparr>ev_UID = doc_Value d sp ''UID'', ev_Summary = doc_Value d sp ''SUMMARY'',
          ev_Location = doc_Value d sp ''LOCATION'', ev_Description = doc_Value d sp ''DESCRIPTION'',
          ev_Start = start, ev_End = e, ev_AllDay = allDay, ev_Timezone = zone,
          ev_Recurrence = doc_RawValue d sp ''RRULE''\<rparr>)))"

definition ReadEvent :: "string \<Rightarrow> ical_error + Event" where
  "ReadEvent raw = bindE (ical_Parse raw) read_object"

section \<open>Writing\<close>

definition formatTime :: "instant \<Rightarrow> bool \<Rightarrow> string \<Rightarrow> string \<times> string" where
  "formatTime t allDay zone =
     (if allDay then ('';VALUE=DATE'', format_date (t div second))
      else if zone = [] then ([], format_utc (t div second))
      else ('';TZID='' @ zone, format_wall (t div second)))"

text \<open>A number and its unit, when the number is not zero.\<close>

definition unit_part :: "int \<Rightarrow> string \<Rightarrow> string" where
  "unit_part n u = (if n > 0 then FormatInt n @ u else [])"

definition formatDuration :: "int \<Rightarrow> string" where
  "formatDuration d =
     (if d \<le> 0 then ''PT0S''
      else let day = 24 * 3600 * second; hour = 3600 * second; minute = 60 * second;
               r1 = d mod day; r2 = r1 mod hour; r3 = r2 mod minute
           in ''P'' @ unit_part (d div day) ''D'' @
              (if r1 = 0 then []
               else ''T'' @ unit_part (r1 div hour) ''H'' @ unit_part (r2 div minute) ''M'' @ unit_part (r3 div second) ''S''))"

definition ev_validate :: "(string \<Rightarrow> Location option) \<Rightarrow> Event \<Rightarrow> ical_error + unit" where
  "ev_validate locs e =
     (if TrimSpace (ev_Summary e) = [] then Inl NoTitle
      else if ev_Start e = zeroInstant then Inl NoStart
      else if ev_End e < ev_Start e then Inl EndsBeforeStart
      else if ev_Timezone e \<noteq> [] \<and> \<not> ev_AllDay e \<and> locs (ev_Timezone e) = None then Inl UnknownTimezone
      else Inr ())"

text \<open>SEQUENCE, one more than it was; an operand out of range or none at all is 0, and \<open>int\<close> wraps around.\<close>

definition next_sequence :: "string \<Rightarrow> int" where
  "next_sequence current =
     (if current \<noteq> [] then (case scan_int current of Some (n, _) \<Rightarrow> wrap64 (n + 1) | None \<Rightarrow> 1) else 1)"

definition bumpSequence :: "ical_object \<Rightarrow> ical_object" where
  "bumpSequence ob =
     (case ob of (d, sp) \<Rightarrow> doc_Set d sp ''SEQUENCE'' (FormatInt (next_sequence (doc_Value d sp ''SEQUENCE''))))"

definition write_end :: "Event \<Rightarrow> ical_object \<Rightarrow> ical_object" where
  "write_end e ob =
     (case ob of (d, sp) \<Rightarrow>
      if doc_Find d sp ''DURATION'' \<noteq> None then doc_Set d sp ''DURATION'' (formatDuration (Sub (ev_End e) (ev_Start e)))
      else case formatTime (ev_End e) (ev_AllDay e) (ev_Timezone e) of (ps, v) \<Rightarrow> doc_SetWithParams d sp ''DTEND'' ps v)"

definition edit_event :: "Event \<Rightarrow> instant \<Rightarrow> ical_object \<Rightarrow> ical_object" where
  "edit_event e now ob =
     (let set = (\<lambda>name v (d, sp). doc_Set d sp name v);
          (ps, start) = formatTime (ev_Start e) (ev_AllDay e) (ev_Timezone e);
          stamp = format_utc (now div second);
          ob = set ''SUMMARY'' (ev_Summary e) ob;
          ob = set ''LOCATION'' (ev_Location e) ob;
          ob = set ''DESCRIPTION'' (ev_Description e) ob;
          ob = (\<lambda>(d, sp). doc_SetWithParams d sp ''DTSTART'' ps start) ob;
          ob = write_end e ob;
          ob = set ''DTSTAMP'' stamp ob;
          ob = set ''LAST-MODIFIED'' stamp ob
      in bumpSequence ob)"

definition ical_Apply :: "(string \<Rightarrow> Location option) \<Rightarrow> string \<Rightarrow> Event \<Rightarrow> instant \<Rightarrow> (ical_error + string) option" where
  "ical_Apply locs raw e now =
     (case bindE (ical_Parse raw) (\<lambda>ob. bindE (ev_validate locs e) (\<lambda>_. Inr ob)) of
        Inl err \<Rightarrow> Some (Inl err)
      | Inr ob \<Rightarrow> map_option Inr (doc_Bytes (fst (edit_event e now ob))))"

definition ical_base :: "string \<Rightarrow> instant \<Rightarrow> string" where
  "ical_base uid now =
     Join [CR, LF] [''BEGIN:VCALENDAR'', ''VERSION:2.0'', ''PRODID:-//edav//EN'', ''BEGIN:VEVENT'', ''UID:'' @ uid,
       ''DTSTAMP:'' @ format_utc (now div second), ''END:VEVENT'', ''END:VCALENDAR'', []]"

definition ical_New :: "(string \<Rightarrow> Location option) \<Rightarrow> string \<Rightarrow> Event \<Rightarrow> instant \<Rightarrow> (ical_error + string) option" where
  "ical_New locs fresh e now =
     (case ev_validate locs e of
        Inl err \<Rightarrow> Some (Inl err)
      | Inr _ \<Rightarrow>
          (case ical_Apply locs (ical_base (if ev_UID e = [] then fresh else ev_UID e) now) e now of
             None \<Rightarrow> None
           | Some (Inl err) \<Rightarrow> Some (Inl err)
           | Some (Inr out) \<Rightarrow>
               if ev_Recurrence e = [] then Some (Inr out)
               else case ical_Parse out of
                      Inl err \<Rightarrow> Some (Inl err)
                    | Inr (d, sp) \<Rightarrow> map_option Inr (doc_Bytes (fst (doc_SetRaw d sp ''RRULE'' (ev_Recurrence e))))))"

definition dash_char :: "char \<Rightarrow> char" where
  "dash_char c = (if c \<in> set ''/?#%'' \<or> c = BACKSLASH then CHR ''-'' else c)"

definition ical_Filename :: "string \<Rightarrow> string" where
  "ical_Filename uid = map dash_char uid @ ''.ics''"

definition ev_Instant :: "(string \<Rightarrow> Location option) \<Rightarrow> Event \<Rightarrow> instant \<Rightarrow> instant" where
  "ev_Instant locs e t =
     (if ev_Timezone e = [] then t
      else case locs (ev_Timezone e) of None \<Rightarrow> t | Some loc \<Rightarrow> in_location loc (t div second * second))"

end
