(* ===== verification/ContentLine_Facts.thy ===== *)
theory ContentLine_Facts
  imports ContentLine
begin

text \<open>
  What the content-line layer guarantees: unedited bytes come back, values survive escaping,
  folded lines are short, unfold to what was folded and never cut a UTF-8 sequence, the loops
  end (or do not), and the components found are balanced.
\<close>

section \<open>Reading and rendering\<close>

lemma nextLogicalLine_loop_eol:
  "nextLogicalLine_loop b s = (t, e, r) \<Longrightarrow>
     (e = [] \<longrightarrow> r = []) \<and> e \<in> {[], [CR, LF], [CR], [LF]} \<and>
     (e = [] \<longrightarrow> s \<noteq> [] \<longrightarrow> \<not> is_crlf (last s))"
proof (induction b s arbitrary: t e r rule: nextLogicalLine_loop.induct)
  case (1 b s)
  obtain p tm r' where pl: "phys_line s = (p, tm, r')" by (cases "phys_line s")
  note facts = phys_line_facts [OF pl]
  show ?case
  proof (cases r')
    case Nil
    then show ?thesis
      using 1(2) pl facts by (subst (asm) nextLogicalLine_loop.simps) auto
  next
    case (Cons w rest)
    then have tm: "tm \<noteq> []" using facts(3) by auto
    show ?thesis
    proof (cases "w = SP \<or> w = TAB")
      case True
      have "nextLogicalLine_loop (b @ p @ tm @ [w]) rest = (t, e, r)"
        using 1(2) pl Cons True by (subst (asm) nextLogicalLine_loop.simps) auto
      note ih = 1(1) [OF pl [symmetric] refl Cons True this]
      have "last s = (if rest = [] then w else last rest)" using facts(1) Cons by simp
      then show ?thesis using ih True by (auto simp: is_crlf_def)
    next
      case False
      then show ?thesis
        using 1(2) pl Cons facts tm by (subst (asm) nextLogicalLine_loop.simps) auto
    qed
  qed
qed

lemma nextLogicalLine_eol:
  assumes "nextLogicalLine s = (t, e, r)"
  shows "e = [] \<Longrightarrow> r = []" and "e \<in> {[], [CR, LF], [CR], [LF]}"
    and "e = [] \<Longrightarrow> s \<noteq> [] \<Longrightarrow> \<not> is_crlf (last s)"
  using nextLogicalLine_loop_eol [of "[]" s t e r] assms by (auto simp: nextLogicalLine_def)

lemma mk_line_fields [simp]:
  "l_raw (mk_line t e) = t" "l_eol (mk_line t e) = e" "\<not> l_dirty (mk_line t e)" "\<not> l_added (mk_line t e)"
  by (auto simp: mk_line_def split: prod.splits)

lemma Parse_Nil [simp]: "Parse [] = []"
  by (simp add: Parse.simps)

lemma Parse_step:
  "s \<noteq> [] \<Longrightarrow> nextLogicalLine s = (t, e, r) \<Longrightarrow> Parse s = mk_line t e # Parse r"
  using nextLogicalLine_split [of s t e r] nextLogicalLine_eol(1) [of s t e r]
  by (subst Parse.simps) auto

lemma Parse_induct [case_names Nil step]:
  assumes "P []"
    and "\<And>s t e r. s \<noteq> [] \<Longrightarrow> nextLogicalLine s = (t, e, r) \<Longrightarrow> s = t @ e @ r \<Longrightarrow> P r \<Longrightarrow> P s"
  shows "P s"
proof (induction s rule: measure_induct_rule [where f = length])
  case (less s)
  show ?case
  proof (cases "s = []")
    case False
    obtain t e r where n: "nextLogicalLine s = (t, e, r)" by (cases "nextLogicalLine s")
    note split = nextLogicalLine_split [OF n]
    have "length r < length s"
      using False split nextLogicalLine_eol(1) [OF n] by (cases "t = [] \<and> e = []") auto
    then show ?thesis using assms(2) [OF False n split] less by blast
  qed (use assms(1) in simp)
qed

lemma Parse_clean: "l \<in> set (Parse s) \<Longrightarrow> \<not> l_dirty l \<and> \<not> l_added l"
  by (induction s rule: Parse_induct) (auto simp: Parse_step)

lemma Parse_concat: "concat (map (\<lambda>l. l_raw l @ l_eol l) (Parse s)) = s"
  by (induction s rule: Parse_induct) (auto simp: Parse_step)

lemma Parse_eq_Nil [simp]: "Parse s = [] \<longleftrightarrow> s = []"
  by (cases "nextLogicalLine s") (metis Parse_Nil Parse_step list.distinct(1))

lemma Parse_butlast_eol: "l \<in> set (butlast (Parse s)) \<Longrightarrow> l_eol l \<noteq> []"
proof (induction s rule: Parse_induct)
  case (step s t e r)
  then show ?case
    using nextLogicalLine_eol(1) [OF step(2)] by (auto simp: Parse_step split: if_splits)
qed simp

lemma Parse_last_eol: "s \<noteq> [] \<Longrightarrow> l_eol (last (Parse s)) = [] \<longleftrightarrow> \<not> is_crlf (last s)"
proof (induction s rule: Parse_induct)
  case (step s t e r)
  note e = nextLogicalLine_eol [OF step(2)]
  show ?case
  proof (cases "r = []")
    case True
    then show ?thesis using step e by (auto simp: Parse_step is_crlf_def)
  next
    case False
    then show ?thesis using step by (simp add: Parse_step)
  qed
qed simp

lemma bytes_loop_clean:
  "(\<And>l. l \<in> set ls \<Longrightarrow> \<not> l_dirty l \<and> \<not> l_added l) \<Longrightarrow>
   bytes_loop d b ls = Some (b @ concat (map (\<lambda>l. l_raw l @ (if l_eol l = [] then EOL d else l_eol l)) ls))"
  by (induction ls arbitrary: b) (auto simp: line_bytes_def)

text \<open>
  Rendering a document nobody edited gives back the bytes it was parsed from; only a
  document whose last line has no terminator gains one, in the line-ending style of its first
  line (CRLF when it has none).
\<close>

theorem parse_bytes:
  "doc_Bytes (Parse raw) = Some (raw @ (if raw = [] \<or> is_crlf (last raw) then [] else EOL (Parse raw)))"
proof (cases "raw = []")
  case True
  then show ?thesis by (simp add: doc_Bytes_def)
next
  case False
  let ?f = "\<lambda>l. l_raw l @ (if l_eol l = [] then EOL (Parse raw) else l_eol l)"
  let ?g = "\<lambda>l. l_raw l @ l_eol l"
  have ne: "Parse raw \<noteq> []" using False by simp
  have split: "map h (Parse raw) = map h (butlast (Parse raw)) @ [h (last (Parse raw))]" for h :: "line \<Rightarrow> string"
    using ne by (metis append_butlast_last_id list.map(1) list.map(2) map_append)
  have m: "map ?f (butlast (Parse raw)) = map ?g (butlast (Parse raw))"
    using Parse_butlast_eol by simp
  have "concat (map ?f (Parse raw)) =
      concat (map ?g (Parse raw)) @ (if l_eol (last (Parse raw)) = [] then EOL (Parse raw) else [])"
    unfolding split [of ?f] split [of ?g] m by simp
  then show ?thesis
    using bytes_loop_clean [of "Parse raw" "Parse raw" "[]"] Parse_clean False Parse_last_eol [OF False]
    by (auto simp: doc_Bytes_def Parse_concat)
qed

section \<open>Escaping\<close>

lemma Escape_Nil [simp]: "Escape [] = []"
  by (simp add: Escape_def)

lemma Escape_Cons [simp]: "Escape (c # s) = escape_char c @ Escape s"
  by (simp add: Escape_def)

lemma unescape_loop_plain [simp]: "c \<noteq> BACKSLASH \<Longrightarrow> unescape_loop (c # s) = c # unescape_loop s"
  by (cases s) auto

lemma unescape_loop_no_backslash: "BACKSLASH \<notin> set s \<Longrightarrow> unescape_loop s = s"
  by (induction s) auto

lemma unescape_loop_Escape: "unescape_loop (Escape s) = filter (\<lambda>c. c \<noteq> CR) s"
  by (induction s) (auto simp: escape_char_def unescape_char_def)

lemma Escape_no_crlf: "c \<in> set (Escape s) \<Longrightarrow> \<not> is_crlf c"
  by (induction s) (auto simp: escape_char_def is_crlf_def split: if_splits)

lemma Escape_eq_Nil: "Escape s = [] \<longleftrightarrow> set s \<subseteq> {CR}"
  by (induction s) (auto simp: escape_char_def)

text \<open>
  A value read back after being escaped is the value that was written, less its carriage
  returns, and an escaped value holds no line break: it cannot start a line of its own.
\<close>

theorem unescape_escape:
  "Unescape (Escape s) = filter (\<lambda>c. c \<noteq> CR) s \<and> list_all (\<lambda>c. c \<noteq> CR \<and> c \<noteq> LF) (Escape s)"
proof -
  have "Unescape (Escape s) = unescape_loop (Escape s)"
    by (simp add: Unescape_def unescape_loop_no_backslash)
  then show ?thesis
    using Escape_no_crlf [of _ s] by (auto simp: unescape_loop_Escape list_all_iff is_crlf_def)
qed

lemma split_structured_plain:
  "c \<noteq> BACKSLASH \<Longrightarrow> c \<noteq> CHR '';'' \<Longrightarrow> split_structured_loop b (c # s) = split_structured_loop (b @ [c]) s"
  by (cases s) auto

lemma split_structured_semicolon:
  "split_structured_loop b (CHR '';'' # s) = b # split_structured_loop [] s"
  by (cases s) auto

lemma split_structured_Escape:
  "split_structured_loop b (Escape x @ s) = split_structured_loop (b @ filter (\<lambda>c. c \<noteq> CR) x) s"
proof (induction x arbitrary: b)
  case (Cons c x)
  then show ?case
    by (cases "c \<in> {BACKSLASH, LF, CR, CHR '','', CHR '';''}")
      (auto simp: escape_char_def unescape_char_def split_structured_plain)
qed simp

text \<open>
  A structured value built from escaped components splits back into those components
  (less carriage returns): a semicolon inside one never becomes a separator.
\<close>

theorem split_structured_join:
  assumes "xs \<noteq> []"
  shows "SplitStructured (Join '';'' (map EscapeComponent xs)) = map (filter (\<lambda>c. c \<noteq> CR)) xs"
proof -
  have "split_structured_loop [] (Join '';'' (map EscapeComponent xs)) = map (filter (\<lambda>c. c \<noteq> CR)) xs"
    using assms
  proof (induction xs rule: induct_list012)
    case (2 x)
    then show ?case
      using split_structured_Escape [of "[]" x "[]"] by (simp add: EscapeComponent_def)
  next
    case (3 x y zs)
    then show ?case
      using split_structured_Escape [of "[]" x]
      by (simp add: EscapeComponent_def split_structured_semicolon)
  qed simp
  then show ?thesis by (simp add: SplitStructured_def)
qed

theorem split_structured_join_witness:
  "SplitStructured (Join '';'' (map EscapeComponent [''Smith; Jones'', ''Ada'', []])) = [''Smith; Jones'', ''Ada'', []]"
  using split_structured_join [of "[''Smith; Jones'', ''Ada'', []]"] by simp

section \<open>Folding\<close>

lemma fold_end_le: "fold_end s e \<le> e"
  by (induction e) auto

lemma fold_end_not_cont: "fold_end s e \<noteq> 0 \<Longrightarrow> \<not> is_cont (s ! fold_end s e)"
  by (induction e) auto

lemma fold_end_cont: "fold_end s e < i \<Longrightarrow> i \<le> e \<Longrightarrow> is_cont (s ! i)"
  by (induction e) (auto simp: le_Suc_eq split: if_splits)

text \<open>The loop is stuck where a whole chunk is continuation bytes.\<close>

definition fold_width :: "bool \<Rightarrow> nat" where
  "fold_width first = (if first then 75 else 74)"

definition stuck :: "bool \<Rightarrow> string \<Rightarrow> bool" where
  "stuck first s = (s \<noteq> [] \<and> fold_width first < length s \<and> fold_end s (fold_width first) = 0)"

definition chunks_of :: "string \<Rightarrow> nat \<Rightarrow> string list \<Rightarrow> bool" where
  "chunks_of s n cs =
     (cs \<noteq> [] \<and> concat cs = s \<and> [] \<notin> set cs \<and> length (hd cs) \<le> n \<and>
      (\<forall>c \<in> set (tl cs). length c \<le> 74 \<and> \<not> is_cont (hd c)))"

lemma chunks_of_step:
  assumes "chunks_of (drop e s) 74 cs" and "0 < e" "e \<le> n" "e < length s" "\<not> is_cont (s ! e)"
  shows "chunks_of s n (take e s # cs)"
proof -
  obtain c cs' where cs: "cs = c # cs'" using assms(1) by (cases cs) (auto simp: chunks_of_def)
  then have "c @ concat cs' = drop e s" "c \<noteq> []" using assms(1) by (auto simp: chunks_of_def)
  then have "hd c = s ! e" using assms(4) by (metis hd_append2 hd_drop_conv_nth)
  then show ?thesis
    using assms cs by (auto simp: chunks_of_def)
qed

lemma fold_loop_chunks:
  assumes "fold_loop first eol b s = Some t"
  shows "s \<noteq> [] \<longrightarrow> \<not> stuck first s \<and>
    (\<exists>cs. chunks_of s (fold_width first) cs \<and> t = b @ (if first then [] else [SP]) @ Join (eol @ [SP]) cs)"
proof (rule fold_loop.raw_induct [where P = "\<lambda>first eol b s t. s \<noteq> [] \<longrightarrow> \<not> stuck first s \<and>
    (\<exists>cs. chunks_of s (fold_width first) cs \<and> t = b @ (if first then [] else [SP]) @ Join (eol @ [SP]) cs)",
    OF _ assms], goal_cases)
  case (1 f first eol b s t)
  define w where "w = fold_width first"
  define e where "e = fold_end s w"
  define b' where "b' = (if first then b else b @ [SP])"
  show ?case
  proof (intro impI)
    assume s: "s \<noteq> []"
    show "\<not> stuck first s \<and>
      (\<exists>cs. chunks_of s (fold_width first) cs \<and> t = b @ (if first then [] else [SP]) @ Join (eol @ [SP]) cs)"
    proof (cases "w \<ge> length s")
      case True
      then have "t = b' @ s" using 1(2) s by (auto simp: w_def b'_def fold_width_def Let_def split: if_splits)
      moreover have "chunks_of s (fold_width first) [s]" using True s by (simp add: chunks_of_def w_def)
      ultimately show ?thesis
        using True by (intro conjI exI [of _ "[s]"]) (auto simp: stuck_def w_def b'_def)
    next
      case False
      then have rec: "f (first \<and> e = 0) eol (b' @ take e s @ eol) (drop e s) = Some t"
        using 1(2) s by (auto simp: w_def b'_def e_def fold_width_def Let_def split: if_splits)
      have el: "e \<le> w" by (simp add: e_def fold_end_le)
      then have ne: "drop e s \<noteq> []" using False by simp
      show ?thesis
      proof (cases "e = 0")
        case True
        then show ?thesis
          using 1(1) [OF rec] s False by (auto simp: stuck_def e_def w_def split: if_splits)
      next
        case e: False
        obtain cs where cs: "chunks_of (drop e s) 74 cs" "t = (b' @ take e s @ eol) @ [SP] @ Join (eol @ [SP]) cs"
          using 1(1) [OF rec] ne e by (auto simp: fold_width_def)
        have "chunks_of s w (take e s # cs)"
          using chunks_of_step [OF cs(1)] e el False fold_end_not_cont [of s w] by (simp add: e_def)
        moreover have "cs \<noteq> []" using cs(1) by (simp add: chunks_of_def)
        ultimately show ?thesis
          using cs(2) e
          by (intro conjI exI [of _ "take e s # cs"])
            (auto simp: stuck_def e_def w_def b'_def Join_Cons)
      qed
    qed
  qed
qed

lemma unfold_loop_no_crlf: "\<forall>c \<in> set s. \<not> is_crlf c \<Longrightarrow> unfold_loop (s @ t) = s @ unfold_loop t"
  by (induction s) (auto simp: is_crlf_def)

lemma unfold_loop_eol:
  "eol \<in> {[CR, LF], [CR], [LF]} \<Longrightarrow> unfold_loop (eol @ SP # t) = unfold_loop t"
  by (auto simp: drop_lf_def drop_ws_def)

lemma unfold_loop_Join:
  assumes "eol \<in> {[CR, LF], [CR], [LF]}" and "\<forall>c \<in> set (concat cs). \<not> is_crlf c"
  shows "unfold_loop (Join (eol @ [SP]) cs) = concat cs"
  using assms(2)
proof (induction cs rule: induct_list012)
  case (2 x)
  then show ?case using unfold_loop_no_crlf [of x "[]"] by simp
next
  case (3 x y zs)
  then show ?case
    using unfold_loop_no_crlf [of x] unfold_loop_eol [OF assms(1)] by (simp add: ball_Un)
qed simp

lemma unfold_loop_id: "\<forall>c \<in> set s. \<not> is_crlf c \<Longrightarrow> unfold_loop s = s"
  using unfold_loop_no_crlf [of s "[]"] by simp

lemma unfold_line_eq: "unfold_line s = unfold_loop s"
  using unfold_loop_id by (auto simp: unfold_line_def list_ex_iff)

lemma fold_line_chunks:
  assumes "fold_line s eol = Some t" and "s \<noteq> []"
  obtains cs where "chunks_of s 75 cs" "t = Join (eol @ [SP]) cs"
proof (cases "length s \<le> 75")
  case True
  then have "chunks_of s 75 [s]" "t = s" using assms by (auto simp: chunks_of_def fold_line_def)
  then show ?thesis using that [of "[s]"] by simp
next
  case False
  then show ?thesis
    using assms fold_loop_chunks [of True eol "[]" s t] that
    by (auto simp: fold_line_def fold_width_def)
qed

lemma unfold_fold_line:
  assumes "fold_line s eol = Some t" and "s \<noteq> []" and "eol \<in> {[CR, LF], [CR], [LF]}" and "\<forall>c \<in> set s. \<not> is_crlf c"
  shows "unfold_line t = s"
proof -
  obtain cs where cs: "chunks_of s 75 cs" "t = Join (eol @ [SP]) cs" using fold_line_chunks [OF assms(1,2)] .
  have "concat cs = s" using cs(1) by (simp add: chunks_of_def)
  then show ?thesis using unfold_loop_Join [OF assms(3), of cs] assms(4) cs(2) by (simp add: unfold_line_eq)
qed

text \<open>
  C32. Whatever \<open>fold\<close> returns is a sequence of non-empty chunks joined by the line terminator
  and one space: every physical line has at most 75 octets, no continuation line starts inside
  a UTF-8 sequence, and unfolding gives the folded line back.
\<close>

theorem fold_line_sound:
  assumes "fold_line s eol = Some t" and "s \<noteq> []"
    and "eol \<in> {[CR, LF], [CR], [LF]}" and "\<forall>c \<in> set s. c \<noteq> CR \<and> c \<noteq> LF"
  shows "unfold_line t = s \<and>
    (\<exists>cs. concat cs = s \<and> t = Join (eol @ [SP]) cs \<and> length (hd cs) \<le> 75 \<and>
      (\<forall>c \<in> set (tl cs). length (SP # c) \<le> 75 \<and> c \<noteq> [] \<and> \<not> is_cont (hd c)))"
proof -
  have no: "\<forall>c \<in> set s. \<not> is_crlf c" using assms(4) by (auto simp: is_crlf_def)
  obtain cs where cs: "chunks_of s 75 cs" "t = Join (eol @ [SP]) cs" using fold_line_chunks [OF assms(1,2)] .
  have c: "concat cs = s" using cs(1) by (simp add: chunks_of_def)
  have "unfold_line t = s" using unfold_fold_line [OF assms(1-3) no] .
  moreover have "\<forall>x \<in> set (tl cs). x \<noteq> []"
    using cs(1) by (cases cs) (auto simp: chunks_of_def)
  ultimately show ?thesis
    using cs c by (intro conjI exI [of _ cs]) (auto simp: chunks_of_def)
qed

text \<open>A line of valid UTF-8 never holds more than three continuation bytes in a row.\<close>

definition short_runs :: "string \<Rightarrow> bool" where
  "short_runs s = (\<forall>i. i + 4 \<le> length s \<longrightarrow> (\<exists>j<4. \<not> is_cont (s ! (i + j))))"

lemma short_runs_drop: "short_runs s \<Longrightarrow> short_runs (drop e s)"
  unfolding short_runs_def
proof (intro allI impI)
  fix i
  assume s: "\<forall>i. i + 4 \<le> length s \<longrightarrow> (\<exists>j<4. \<not> is_cont (s ! (i + j)))" and i: "i + 4 \<le> length (drop e s)"
  then have "(e + i) + 4 \<le> length s" by auto
  then obtain j where "j < 4" "\<not> is_cont (s ! (e + i + j))" using s by blast
  then show "\<exists>j<4. \<not> is_cont (drop e s ! (i + j))" using i by (auto simp: add.assoc intro!: exI [of _ j])
qed

lemma fold_end_pos: "short_runs s \<Longrightarrow> 4 \<le> w \<Longrightarrow> w < length s \<Longrightarrow> 0 < fold_end s w"
proof (rule ccontr)
  assume s: "short_runs s" "4 \<le> w" "w < length s" and "\<not> 0 < fold_end s w"
  then have "\<forall>i. 0 < i \<and> i \<le> w \<longrightarrow> is_cont (s ! i)" using fold_end_cont [of s w] by auto
  moreover have "\<exists>j<4. \<not> is_cont (s ! ((w - 3) + j))"
    using s(1) [unfolded short_runs_def, rule_format, of "w - 3"] s(2,3) by simp
  ultimately show False using s(2) by auto
qed

lemma fold_loop_returns: "short_runs s \<Longrightarrow> \<exists>t. fold_loop first eol b s = Some t"
proof (induction s arbitrary: first b rule: measure_induct_rule [where f = length])
  case (less s)
  show ?case
  proof (cases "s = [] \<or> fold_width first \<ge> length s")
    case True
    then show ?thesis by (subst fold_loop.simps) (auto simp: fold_width_def Let_def)
  next
    case False
    let ?e = "fold_end s (fold_width first)"
    have e: "0 < ?e" using False less.prems by (intro fold_end_pos) (auto simp: fold_width_def)
    then have "\<exists>t. fold_loop False eol ((if first then b else b @ [SP]) @ take ?e s @ eol) (drop ?e s) = Some t"
      using False by (intro less.IH short_runs_drop [OF less.prems]) auto
    then show ?thesis
      using False e by (subst fold_loop.simps) (auto simp: fold_width_def Let_def split: if_splits)
  qed
qed

theorem fold_line_sound_witness:
  "\<exists>t. fold_line (replicate 100 (CHR ''a'')) [CR, LF] = Some t \<and> unfold_line t = replicate 100 (CHR ''a'')"
proof -
  let ?s = "replicate 100 (CHR ''a'')"
  have "\<exists>j<4. \<not> is_cont (?s ! (i + j))" if "i + 4 \<le> length ?s" for i
    using that by (intro exI [of _ 0]) (simp add: is_cont_def)
  then have "short_runs ?s" by (simp add: short_runs_def)
  then obtain t where t: "fold_line ?s [CR, LF] = Some t"
    using fold_loop_returns [of ?s True "[CR, LF]" "[]"] by (auto simp: fold_line_def)
  have "unfold_line t = ?s" using fold_line_sound [OF t] by simp
  with t show ?thesis by blast
qed

text \<open>Folding returns on every line of valid UTF-8 (no four continuation bytes in a row).\<close>

theorem fold_line_returns: "short_runs s \<Longrightarrow> \<exists>t. fold_line s eol = Some t"
  using fold_loop_returns by (auto simp: fold_line_def)

theorem fold_line_returns_witness: "\<exists>t. fold_line (''NOTE:'' @ replicate 100 (CHR ''a'')) [LF] = Some t"
proof (rule fold_line_returns, unfold short_runs_def, intro allI impI)
  fix i
  show "\<exists>j<4. \<not> is_cont ((''NOTE:'' @ replicate 100 (CHR ''a'')) ! (i + j))"
    if "i + 4 \<le> length (''NOTE:'' @ replicate 100 (CHR ''a''))"
    using that by (intro exI [of _ 0]) (auto simp: is_cont_def nth_append nth_Cons split: nat.splits)
qed

text \<open>
  C33. On a line that is not valid UTF-8 folding may never return: 75 or more continuation bytes
  after a short head keep the loop at the same place for ever.
\<close>

theorem fold_line_diverges:
  assumes "length h \<le> 75" and "h \<noteq> []" and "\<not> is_cont (last h)" and "75 \<le> n"
  shows "fold_line (h @ replicate n (CHR 0x80)) eol = None"
proof -
  let ?s = "h @ replicate n (CHR 0x80)"
  let ?m = "length h - 1"
  have cont: "is_cont (CHR 0x80)" by (simp add: is_cont_def)
  have last: "?s ! ?m = last h" using assms(2) by (simp add: nth_append last_conv_nth)
  have high: "is_cont (?s ! i)" if "?m < i" "i < length ?s" for i
    using that assms(2) cont by (auto simp: nth_append)
  have long: "75 < length ?s" using assms by (cases h) auto
  have e: "fold_end ?s 75 = ?m"
  proof -
    have "fold_end ?s (?m + k) = ?m" if "?m + k < length ?s" for k
      using that
    proof (induction k)
      case 0
      then show ?case using assms(3) last by (cases ?m) auto
    next
      case (Suc k)
      then show ?case using high [of "Suc (?m + k)"] by simp
    qed
    from this [of "75 - ?m"] long show ?thesis using assms(1) by simp
  qed
  have stuck2: "stuck False (drop ?m ?s)"
  proof -
    have d: "drop ?m ?s = last h # replicate n (CHR 0x80)"
      using assms(2) by (metis append_butlast_last_id append_Cons append_Nil append_eq_conv_conj
          append_assoc length_butlast)
    have "fold_end (last h # replicate n (CHR 0x80)) k = 0" if "k \<le> n" for k
      using that by (induction k) (auto simp: cont)
    then show ?thesis using assms(4) d by (simp add: stuck_def fold_width_def)
  qed
  show ?thesis
  proof (cases "?m = 0")
    case True
    then have "stuck True ?s" using e long assms(2) by (simp add: stuck_def fold_width_def)
    then show ?thesis
      using fold_loop_chunks [of True eol "[]" ?s] long assms(2)
      by (cases "fold_loop True eol [] ?s") (auto simp: fold_line_def)
  next
    case False
    have "fold_loop True eol [] ?s = fold_loop False eol (take ?m ?s @ eol) (drop ?m ?s)"
      using long e False assms(2) by (subst fold_loop.simps) (simp add: Let_def)
    moreover have "fold_loop False eol (take ?m ?s @ eol) (drop ?m ?s) = None"
      using fold_loop_chunks [of False eol "take ?m ?s @ eol" "drop ?m ?s"] stuck2
      by (cases "fold_loop False eol (take ?m ?s @ eol) (drop ?m ?s)") (auto simp: stuck_def)
    ultimately show ?thesis using long by (simp add: fold_line_def)
  qed
qed

theorem fold_line_diverges_witness: "fold_line (''NOTE:'' @ replicate 100 (CHR 0x80)) [CR, LF] = None"
  by (rule fold_line_diverges) (auto simp: is_cont_def)

end
