(* ===== verification/ContentLine_Edit.thy ===== *)
theory ContentLine_Edit
  imports ContentLine_Facts
begin

text \<open>
  What editing a document promises. A well-formed span is a component: BEGIN, a balanced body,
  END. \<open>view\<close> abstracts a component to the list of its own property lines (those a nested
  component does not own); finding, setting and inserting on the document are shown to be the
  obvious operations on that list, and never to touch a line outside the component.
\<close>

section \<open>Balanced bodies\<close>

definition plain :: "line \<Rightarrow> bool" where
  "plain l = (l_Name l \<noteq> ''BEGIN'' \<and> l_Name l \<noteq> ''END'')"

text \<open>The lines close \<open>k\<close> open components and everything they open themselves.\<close>

fun balanced_from :: "nat \<Rightarrow> line list \<Rightarrow> bool" where
  "balanced_from k [] = (k = 0)"
| "balanced_from k (l # ls) =
     (if l_Name l = ''BEGIN'' then balanced_from (Suc k) ls
      else if l_Name l = ''END'' then (case k of 0 \<Rightarrow> False | Suc k' \<Rightarrow> balanced_from k' ls)
      else balanced_from k ls)"

abbreviation balanced :: "line list \<Rightarrow> bool" where
  "balanced \<equiv> balanced_from 0"

lemma balanced_from_append: "balanced_from k xs \<Longrightarrow> balanced_from (k + m) (xs @ ys) = balanced_from m ys"
  by (induction k xs rule: balanced_from.induct) (auto split: if_splits nat.splits)

lemma balanced_append: "balanced xs \<Longrightarrow> balanced (xs @ ys) = balanced ys"
  using balanced_from_append [of 0 xs 0 ys] by simp

lemma balanced_plain: "plain l \<Longrightarrow> balanced_from k (xs @ l # ys) = balanced_from k (xs @ ys)"
  by (induction k xs rule: balanced_from.induct) (auto simp: plain_def split: nat.splits)

lemma balanced_nest:
  "l_Name b = ''BEGIN'' \<Longrightarrow> l_Name e = ''END'' \<Longrightarrow> balanced xs \<Longrightarrow> balanced (b # xs @ [e])"
  using balanced_from_append [of 0 xs 1 "[e]"] by simp

definition body :: "document \<Rightarrow> span \<Rightarrow> line list" where
  "body d sp = drop (nat (Begin sp + 1)) (take (nat (End sp)) d)"

definition wf_span :: "document \<Rightarrow> span \<Rightarrow> bool" where
  "wf_span d sp =
     (0 \<le> Begin sp \<and> Begin sp < End sp \<and> nat (End sp) < length d \<and>
      l_Name (d ! nat (Begin sp)) = ''BEGIN'' \<and> l_Name (d ! nat (End sp)) = ''END'' \<and> balanced (body d sp))"

lemma line_depth_append [simp]: "line_depth (xs @ ys) = line_depth xs + line_depth ys"
  by (induction xs) auto

lemma line_depth_plain [simp]: "plain l \<Longrightarrow> line_depth (l # ls) = line_depth ls"
  by (simp add: plain_def)

lemma balanced_depth: "balanced_from k ls \<Longrightarrow> line_depth ls = - int k"
  by (induction k ls rule: balanced_from.induct) (auto split: if_splits nat.splits)

fun slice :: "'a list \<Rightarrow> nat \<Rightarrow> nat \<Rightarrow> 'a list" where
  "slice xs i j = drop i (take j xs)"

lemma slice_snoc: "i \<le> j \<Longrightarrow> j < length xs \<Longrightarrow> slice xs i (Suc j) = slice xs i j @ [xs ! j]"
  by (simp add: take_Suc_conv_app_nth)

lemma slice_split: "i \<le> j \<Longrightarrow> j \<le> k \<Longrightarrow> slice xs i k = slice xs i j @ slice xs j k"
proof -
  assume "i \<le> j" "j \<le> k"
  then have "take k xs = take j xs @ drop j (take k xs)"
    by (metis append_take_drop_id min.absorb1 take_take)
  then have "drop i (take k xs) = drop i (take j xs @ drop j (take k xs))" by simp
  then show ?thesis using \<open>i \<le> j\<close> by (cases "j \<le> length xs") auto
qed

lemma slice_same [simp]: "slice xs i i = []"
  by simp

declare slice.simps [simp del]

lemma body_slice: "body d sp = slice d (nat (Begin sp + 1)) (nat (End sp))"
  by (simp add: body_def slice.simps)

text \<open>The open BEGIN lines of the loop, each with a balanced stretch up to the next one.\<close>

fun stack_ok :: "document \<Rightarrow> nat \<Rightarrow> nat list \<Rightarrow> bool" where
  "stack_ok d i [] = True"
| "stack_ok d i (b # st) =
     (b < i \<and> l_Name (d ! b) = ''BEGIN'' \<and> balanced (slice d (Suc b) i) \<and> stack_ok d b st)"

lemma stack_ok_extend:
  assumes "stack_ok d i st" and "i \<le> j" and "balanced (slice d i j)"
  shows "stack_ok d j st"
proof (cases st)
  case (Cons b st')
  then have "slice d (Suc b) j = slice d (Suc b) i @ slice d i j"
    using assms(1,2) by (intro slice_split) auto
  then show ?thesis using assms Cons by (auto simp: balanced_append)
qed simp

lemma components_loop_wf:
  assumes "ls = drop i d" and "stack_ok d i st" and "sp \<in> set (components_loop d name i ls st)"
  shows "wf_span d sp \<and> EqualFold (l_Value (d ! nat (Begin sp))) name"
  using assms
proof (induction ls arbitrary: i st)
  case (Cons l ls)
  then have i: "i < length d" and l: "l = d ! i" and ls: "ls = drop (Suc i) d"
    by (metis drop_eq_Nil linorder_not_less list.distinct(1),
        metis Cons.prems(1) drop_eq_Nil hd_drop_conv_nth linorder_not_less list.distinct(1) list.sel(1),
        metis Cons.prems(1) drop_Suc list.sel(3) tl_drop)
  have one: "slice d i (Suc i) = [d ! i]" using slice_snoc [of i i d] i by simp
  consider "l_Name l = ''BEGIN''" | "l_Name l = ''END''" "st = []"
    | b st' where "l_Name l = ''END''" "st = b # st'" | "plain l"
    by (cases st) (auto simp: plain_def)
  then show ?case
  proof cases
    case 1
    then have "sp \<in> set (components_loop d name (Suc i) ls (i # st))" using Cons.prems(3) by simp
    then show ?thesis using 1 Cons.IH [OF ls, of "i # st"] Cons.prems(2) l by simp
  next
    case 2
    then have "sp \<in> set (components_loop d name (Suc i) ls [])" using Cons.prems(3) by simp
    then show ?thesis using Cons.IH [OF ls, of "[]"] by simp
  next
    case (3 b st')
    then have b: "b < i" "l_Name (d ! b) = ''BEGIN''" "balanced (slice d (Suc b) i)" "stack_ok d b st'"
      using Cons.prems(2) by auto
    let ?sp = "\<lparr>Begin = int b, End = int i\<rparr>"
    have "slice d b (Suc i) = d ! b # slice d (Suc b) i @ [d ! i]"
      using slice_split [of b "Suc b" "Suc i" d] slice_snoc [of b b d] slice_snoc [of "Suc b" i d] b i by simp
    then have "balanced (slice d b (Suc i))" using balanced_nest [OF b(2) _ b(3), of "d ! i"] 3 l by simp
    then have st: "stack_ok d (Suc i) st'" using stack_ok_extend [OF b(4), of "Suc i"] b(1) by simp
    have S: "nat (int b + 1) = Suc b" by simp
    have "wf_span d ?sp"
      using b i 3 l S by (simp only: wf_span_def body_slice span.simps nat_int S) simp
    moreover have "sp \<in> set (components_loop d name (Suc i) ls st') \<or>
        sp = ?sp \<and> EqualFold (l_Value (d ! b)) name"
      using Cons.prems(3) 3 by (auto split: if_splits)
    ultimately show ?thesis using Cons.IH [OF ls st] by auto
  next
    case 4
    then have "stack_ok d (Suc i) st"
      using stack_ok_extend [OF Cons.prems(2), of "Suc i"] one l balanced_plain [of l 0 "[]" "[]"] by simp
    moreover have "sp \<in> set (components_loop d name (Suc i) ls st)"
      using Cons.prems(3) 4 by (simp add: plain_def)
    ultimately show ?thesis using Cons.IH [OF ls] by simp
  qed
qed simp

text \<open>
  C29. Every span \<open>Components\<close> reports is a component of the asked name: a BEGIN line with that
  value, a balanced body and an END line, all inside the document; and they come in document order.
\<close>

theorem components_wf:
  "sorted (map Begin (Components d name)) \<and>
   list_all (\<lambda>sp. wf_span d sp \<and> EqualFold (l_Value (d ! nat (Begin sp))) (ToUpper name)) (Components d name)"
  using components_loop_wf [of d 0 d "[]" _ "ToUpper name"] by (auto simp: Components_def list_all_iff)

lemma Component_wf: "Component d name = Some sp \<Longrightarrow> wf_span d sp \<and> sp \<in> set (Components d name)"
  using components_loop_wf [of d 0 d "[]" sp "ToUpper name"]
  by (auto simp: Component_def Components_def split: list.splits)
    (metis list.set_intros(1) set_sort)+

section \<open>The lines a component owns\<close>

fun direct :: "int \<Rightarrow> line list \<Rightarrow> line list" where
  "direct k [] = []"
| "direct k (l # ls) = (if k = 0 then [l] else []) @ direct (k + line_depth [l]) ls"

definition view :: "document \<Rightarrow> span \<Rightarrow> line list" where
  "view d sp = direct 0 (body d sp)"

definition outside :: "document \<Rightarrow> span \<Rightarrow> line list \<times> line list" where
  "outside d sp = (take (nat (Begin sp + 1)) d, drop (nat (End sp)) d)"

lemma direct_append [simp]: "direct k (xs @ ys) = direct k xs @ direct (k + line_depth xs) ys"
  by (induction k xs rule: direct.induct) (auto simp: add.assoc)

lemma direct_plain: "plain l \<Longrightarrow> direct k (l # ls) = (if k = 0 then [l] else []) @ direct k ls"
  by (simp add: plain_def)

declare direct.simps(2) [simp del]

text \<open>Everything in a component but its own lines of some names: other properties, and nested components whole.\<close>

fun others :: "string set \<Rightarrow> int \<Rightarrow> line list \<Rightarrow> line list" where
  "others N k [] = []"
| "others N k (l # ls) = (if k = 0 \<and> l_Name l \<in> N then [] else [l]) @ others N (k + line_depth [l]) ls"

lemma others_append [simp]: "others N k (xs @ ys) = others N k xs @ others N (k + line_depth xs) ys"
  by (induction N k xs rule: others.induct) (auto simp: add.assoc)

lemma others_plain: "plain l \<Longrightarrow> others N k (l # ls) = (if k = 0 \<and> l_Name l \<in> N then [] else [l]) @ others N k ls"
  by (simp add: plain_def)

declare others.simps(2) [simp del]

lemma others_mono: "N \<subseteq> N' \<Longrightarrow> ''BEGIN'' \<notin> N \<Longrightarrow> ''END'' \<notin> N \<Longrightarrow> others N' k (others N k ls) = others N' k ls"
proof (induction N k ls rule: others.induct)
  case (2 N k l ls)
  show ?case
  proof (cases "k = 0 \<and> l_Name l \<in> N")
    case True
    then have "plain l" using 2(3,4) by (auto simp: plain_def)
    then show ?thesis using 2 True by (auto simp: others_plain plain_def others.simps(2))
  next
    case False
    then show ?thesis using 2 by (auto simp: others.simps(2))
  qed
qed simp

lemma others_view:
  assumes "''BEGIN'' \<notin> N" and "''END'' \<notin> N"
  shows "filter (\<lambda>l. l_Name l \<notin> N) (direct k ls) = filter (\<lambda>l. l_Name l \<notin> N) (direct k (others N k ls))"
  using assms
proof (induction N k ls rule: others.induct)
  case (2 N k l ls)
  show ?case
  proof (cases "k = 0 \<and> l_Name l \<in> N")
    case True
    then have "plain l" using 2(2,3) by (auto simp: plain_def)
    then show ?thesis using 2 True by (auto simp: direct_plain others_plain plain_def others.simps(2))
  next
    case False
    then show ?thesis using 2 by (auto simp: others.simps(2) direct.simps(2))
  qed
qed simp

lemma slice_map: "j \<le> length d \<Longrightarrow> map ((!) d) [i..<j] = slice d i j"
  by (auto simp: slice.simps intro!: nth_equalityI)

lemma direct_slice:
  "b \<le> e \<Longrightarrow> e \<le> length d \<Longrightarrow>
   direct 0 (slice d b e) = map ((!) d) (filter (\<lambda>i. line_depth (slice d b i) = 0) [b..<e])"
proof (induction e)
  case (Suc e)
  show ?case
  proof (cases "b = Suc e")
    case False
    then show ?thesis using Suc by (simp add: slice_snoc direct.simps(2))
  qed simp
qed (simp add: slice.simps)

lemma wf_span_range:
  assumes "wf_span d sp"
  shows "span_range d sp = [nat (Begin sp + 1)..<nat (End sp)]" "nat (Begin sp + 1) \<le> nat (End sp)"
    "nat (End sp) \<le> length d" "nat (Begin sp + 1) = Suc (nat (Begin sp))"
  using assms by (auto simp: wf_span_def span_range_def min_def)

lemma contains_slice:
  "wf_span d sp \<Longrightarrow> i \<in> set (span_range d sp) \<Longrightarrow>
   contains d sp i = (line_depth (slice d (nat (Begin sp + 1)) i) = 0)"
  by (auto simp: contains_def span_range_def slice_map)

lemma view_range:
  assumes "wf_span d sp"
  shows "view d sp = map ((!) d) (filter (contains d sp) (span_range d sp))"
proof -
  have "filter (contains d sp) (span_range d sp) =
      filter (\<lambda>i. line_depth (slice d (nat (Begin sp + 1)) i) = 0) (span_range d sp)"
    using contains_slice [OF assms] by (intro filter_cong) auto
  then show ?thesis
    using direct_slice [OF wf_span_range(2,3) [OF assms]] wf_span_range(1) [OF assms]
    by (simp add: view_def body_slice)
qed

lemma find_map_filter: "List.find P (map f (filter Q xs)) = map_option f (List.find (\<lambda>x. P (f x) \<and> Q x) xs)"
  by (induction xs) auto

lemma doc_Find_view:
  "wf_span d sp \<Longrightarrow> map_option ((!) d) (doc_Find d sp name) = List.find (\<lambda>l. l_Name l = ToUpper name) (view d sp)"
  by (simp add: view_range find_map_filter doc_Find_def is_prop_def [abs_def])

lemma doc_FindAll_view:
  "wf_span d sp \<Longrightarrow> map ((!) d) (doc_FindAll d sp name) = filter (\<lambda>l. l_Name l = ToUpper name) (view d sp)"
  by (simp add: view_range filter_map doc_FindAll_def is_prop_def o_def conj_commute cong: filter_cong)

lemma doc_RawValue_view:
  "wf_span d sp \<Longrightarrow> doc_RawValue d sp name =
     (case List.find (\<lambda>l. l_Name l = ToUpper name) (view d sp) of None \<Rightarrow> [] | Some l \<Rightarrow> l_Value l)"
  using doc_Find_view [of d sp name] by (cases "doc_Find d sp name") (auto simp: doc_RawValue_def dest: sym)

lemma doc_Value_raw: "wf_span d sp \<Longrightarrow> doc_Value d sp name = Unescape (doc_RawValue d sp name)"
  by (simp add: doc_Value_def doc_RawValue_def Unescape_def split: option.splits)

text \<open>A found line splits the body of its component.\<close>

lemma doc_Find_split:
  assumes wf: "wf_span d sp" and f: "doc_Find d sp name = Some i"
  defines "xs \<equiv> slice d (nat (Begin sp + 1)) i" and "ys \<equiv> slice d (Suc i) (nat (End sp))"
  shows "body d sp = xs @ d ! i # ys" "line_depth xs = 0"
    "\<forall>l \<in> set (direct 0 xs). l_Name l \<noteq> ToUpper name"
proof -
  note i = doc_Find_Some [OF f]
  note r = wf_span_range [OF wf]
  have b: "nat (Begin sp + 1) \<le> i" and e: "Suc i \<le> nat (End sp)" using i by auto
  have "slice d i (Suc i) = [d ! i]" using slice_snoc [of i i d] i(1) by simp
  then show "body d sp = xs @ d ! i # ys"
    using slice_split [of "nat (Begin sp + 1)" i "nat (End sp)" d] slice_split [of i "Suc i" "nat (End sp)" d] b e
    by (simp add: body_slice xs_def ys_def)
  have mem: "i \<in> set (span_range d sp)" using r b e by simp
  then show "line_depth xs = 0" using i(5) contains_slice [OF wf mem] by (simp add: xs_def)
  have before: "\<not> is_prop d sp (ToUpper name) j" if "nat (Begin sp + 1) \<le> j" "j < i" for j
  proof -
    obtain m where m: "m < length (span_range d sp)" "span_range d sp ! m = i"
        "\<forall>k<m. \<not> is_prop d sp (ToUpper name) (span_range d sp ! k)"
      using f by (auto simp: doc_Find_def find_Some_iff)
    then have "m = i - nat (Begin sp + 1)" using r(1) by auto
    then show ?thesis using m that r(1) by (auto dest!: spec [of _ "j - nat (Begin sp + 1)"])
  qed
  show "\<forall>l \<in> set (direct 0 xs). l_Name l \<noteq> ToUpper name"
  proof
    fix l
    assume "l \<in> set (direct 0 xs)"
    then obtain j where j: "nat (Begin sp + 1) \<le> j" "j < i" "line_depth (slice d (nat (Begin sp + 1)) j) = 0" "l = d ! j"
      using direct_slice [OF b, of d] i(1) by (auto simp: xs_def)
    moreover have "j \<in> set (span_range d sp)" using j r(1) e by simp
    ultimately show "l_Name l \<noteq> ToUpper name"
      using before [of j] contains_slice [OF wf] by (auto simp: is_prop_def)
  qed
qed

section \<open>Setting a property refines the list operation\<close>

fun upd_first :: "('a \<Rightarrow> bool) \<Rightarrow> ('a \<Rightarrow> 'a) \<Rightarrow> 'a list \<Rightarrow> 'a list" where
  "upd_first P f [] = []"
| "upd_first P f (x # xs) = (if P x then f x # xs else x # upd_first P f xs)"

fun drop_first :: "('a \<Rightarrow> bool) \<Rightarrow> 'a list \<Rightarrow> 'a list" where
  "drop_first P [] = []"
| "drop_first P (x # xs) = (if P x then xs else x # drop_first P xs)"

definition put_prop :: "string \<Rightarrow> string \<Rightarrow> string \<Rightarrow> string option \<Rightarrow> line list \<Rightarrow> line list" where
  "put_prop eol name value params ps =
     (if list_ex (\<lambda>l. l_Name l = name) ps then
        (if value = [] then drop_first (\<lambda>l. l_Name l = name) ps
         else upd_first (\<lambda>l. l_Name l = name)
                (\<lambda>l. l\<lparr>l_Value := value, l_Params := (case params of None \<Rightarrow> l_Params l | Some p \<Rightarrow> p), l_dirty := True\<rparr>) ps)
      else if value = [] then ps
      else ps @ [(NewLine name (case params of None \<Rightarrow> [] | Some p \<Rightarrow> p) value)\<lparr>l_eol := eol\<rparr>])"

lemma upd_first_split: "\<forall>x \<in> set xs. \<not> P x \<Longrightarrow> P y \<Longrightarrow> upd_first P f (xs @ y # ys) = xs @ f y # ys"
  by (induction xs) auto

lemma drop_first_split: "\<forall>x \<in> set xs. \<not> P x \<Longrightarrow> P y \<Longrightarrow> drop_first P (xs @ y # ys) = xs @ ys"
  by (induction xs) auto

text \<open>A component in its document: what precedes the body, the body, and END with what follows.\<close>

lemma wf_span_parts:
  assumes "wf_span d sp"
  shows "d = fst (outside d sp) @ body d sp @ snd (outside d sp)"
    "length (fst (outside d sp)) = nat (Begin sp + 1)" "End sp = Begin sp + 1 + int (length (body d sp))"
proof -
  note r = wf_span_range [OF assms]
  have "take (nat (End sp)) d = take (nat (Begin sp + 1)) d @ body d sp"
    using r(2) append_take_drop_id [of "nat (Begin sp + 1)" "take (nat (End sp)) d"]
    by (simp add: body_def min_def)
  then show "d = fst (outside d sp) @ body d sp @ snd (outside d sp)"
    using append_take_drop_id [of "nat (End sp)" d] by (simp add: outside_def)
  show "length (fst (outside d sp)) = nat (Begin sp + 1)" "End sp = Begin sp + 1 + int (length (body d sp))"
    using r assms by (auto simp: outside_def body_def wf_span_def)
qed

lemma wf_span_parts_intro:
  assumes wf: "wf_span d sp" and d': "d' = fst (outside d sp) @ b' @ snd (outside d sp)"
    and sp': "Begin sp' = Begin sp" "End sp' = Begin sp + 1 + int (length b')"
  shows "body d' sp' = b'" "outside d' sp' = outside d sp" "balanced b' \<Longrightarrow> wf_span d' sp'"
proof -
  note p = wf_span_parts [OF wf] and w = wf [unfolded wf_span_def]
  have n: "nat (End sp') = nat (Begin sp + 1) + length b'" using sp' w by (simp add: nat_add_distrib)
  show "body d' sp' = b'" using n sp' d' p(2) by (simp add: body_def)
  show "outside d' sp' = outside d sp" using n sp' d' p(2) by (simp add: outside_def)
  show "wf_span d' sp'" if "balanced b'"
  proof -
    have "snd (outside d sp) \<noteq> []" "hd (snd (outside d sp)) = d ! nat (End sp)"
      using w by (auto simp: outside_def hd_drop_conv_nth)
    then have "d' ! nat (End sp') = d ! nat (End sp)" "nat (End sp') < length d'"
      using n d' p(2) by (auto simp: nth_append hd_conv_nth)
    moreover have "d' ! nat (Begin sp) = d ! nat (Begin sp)"
      using d' p(2) w by (simp add: nth_append outside_def)
    ultimately show ?thesis
      using w sp' that \<open>body d' sp' = b'\<close> by (simp add: wf_span_def)
  qed
qed

lemma view_some: "doc_Find d sp name = Some i \<Longrightarrow> wf_span d sp \<Longrightarrow> list_ex (\<lambda>l. l_Name l = ToUpper name) (view d sp)"
  using doc_Find_view [of d sp name] by (auto simp: list_ex_iff dest!: sym [of "Some _"] find_Some)

lemma view_none: "doc_Find d sp name = None \<Longrightarrow> wf_span d sp \<Longrightarrow> \<not> list_ex (\<lambda>l. l_Name l = ToUpper name) (view d sp)"
  using doc_Find_view [of d sp name] by (auto simp: list_ex_iff find_None_iff dest!: sym [of None])

text \<open>The three things \<open>set\<close> does to a document: rewrite a line, drop one, insert one before END.\<close>

definition keeps :: "string \<Rightarrow> document \<Rightarrow> span \<Rightarrow> document \<Rightarrow> span \<Rightarrow> line list \<Rightarrow> bool" where
  "keeps n d sp d' sp' ps = (wf_span d' sp' \<and> outside d' sp' = outside d sp \<and> view d' sp' = ps \<and>
     others {n} 0 (body d' sp') = others {n} 0 (body d sp))"

lemma found_plain:
  assumes wf: "wf_span d sp" and f: "doc_Find d sp name = Some i" and n: "ToUpper name \<notin> {''BEGIN'', ''END''}"
  shows "plain (d ! i)" "i < length d" "Begin sp < int i" "int i < End sp" "l_Name (d ! i) = ToUpper name"
  using doc_Find_Some [OF f] n by (auto simp: plain_def)

lemma found_index:
  assumes wf: "wf_span d sp" and f: "doc_Find d sp name = Some i" and n: "ToUpper name \<notin> {''BEGIN'', ''END''}"
  shows "i = length (fst (outside d sp)) + length (slice d (nat (Begin sp + 1)) i)"
  using found_plain [OF wf f n] wf_span_parts(2) [OF wf] by (auto simp: slice.simps)

lemma update_keeps:
  assumes wf: "wf_span d sp" and f: "doc_Find d sp name = Some i" and n: "ToUpper name \<notin> {''BEGIN'', ''END''}"
    and nm: "l_Name l = ToUpper name"
  shows "keeps (ToUpper name) d sp (d[i := l]) sp (upd_first (\<lambda>l. l_Name l = ToUpper name) (\<lambda>_. l) (view d sp))"
proof -
  let ?xs = "slice d (nat (Begin sp + 1)) i" and ?ys = "slice d (Suc i) (nat (End sp))"
  note fp = found_plain [OF wf f n] and s = doc_Find_split [OF wf f] and p = wf_span_parts [OF wf]
  have pl: "plain l" using nm n by (simp add: plain_def)
  let ?b = "?xs @ l # ?ys"
  have "d[i := l] = fst (outside d sp) @ ?b @ snd (outside d sp)"
    by (subst p(1), subst found_index [OF wf f n], subst s(1)) (simp add: list_update_append)
  moreover have "End sp = Begin sp + 1 + int (length ?b)"
    using p(3) s(1) by simp
  ultimately have k: "body (d[i := l]) sp = ?b" "outside (d[i := l]) sp = outside d sp"
      "balanced ?b \<Longrightarrow> wf_span (d[i := l]) sp"
    using wf_span_parts_intro [OF wf, of "d[i := l]" ?b sp] by auto
  have "balanced ?b"
    using wf s(1) balanced_plain [OF pl] balanced_plain [OF fp(1)] by (simp add: wf_span_def)
  moreover have "view (d[i := l]) sp = upd_first (\<lambda>l. l_Name l = ToUpper name) (\<lambda>_. l) (view d sp)"
    using k(1) s pl fp(1,5) upd_first_split [of "direct 0 ?xs" "\<lambda>l. l_Name l = ToUpper name" "d ! i"]
    by (simp add: view_def direct_plain)
  moreover have "others {ToUpper name} 0 (body (d[i := l]) sp) = others {ToUpper name} 0 (body d sp)"
    using k(1) s(1,2) pl fp(1,5) nm by (simp add: others_plain)
  ultimately show ?thesis using k by (simp add: keeps_def)
qed

lemma remove_keeps:
  assumes wf: "wf_span d sp" and f: "doc_Find d sp name = Some i" and n: "ToUpper name \<notin> {''BEGIN'', ''END''}"
    and ug: "l_Group (d ! i) = []" and rm: "doc_Remove d sp i = (d', sp')"
  shows "keeps (ToUpper name) d sp d' sp' (drop_first (\<lambda>l. l_Name l = ToUpper name) (view d sp))"
proof -
  let ?xs = "slice d (nat (Begin sp + 1)) i" and ?ys = "slice d (Suc i) (nat (End sp))"
  note fp = found_plain [OF wf f n] and s = doc_Find_split [OF wf f] and p = wf_span_parts [OF wf]
  let ?b = "?xs @ ?ys"
  have d': "d' = take i d @ drop (Suc i) d" and sp': "Begin sp' = Begin sp" "End sp' = End sp - 1"
    using ug rm by (auto simp: doc_Remove_def)
  have d: "d = (fst (outside d sp) @ ?xs) @ d ! i # (?ys @ snd (outside d sp))"
    using p(1) s(1) by simp
  have i: "i = length (fst (outside d sp) @ ?xs)" using found_index [OF wf f n] by simp
  have "d' = fst (outside d sp) @ ?b @ snd (outside d sp)"
    unfolding d' by (metis (no_types, lifting) Cons_nth_drop_Suc append.assoc append_eq_conv_conj d fp(2) i list.inject)
  moreover have "End sp' = Begin sp' + 1 + int (length ?b)"
    using p(3) s(1) sp' by simp
  ultimately have k: "body d' sp' = ?b" "outside d' sp' = outside d sp" "balanced ?b \<Longrightarrow> wf_span d' sp'"
    using wf_span_parts_intro [OF wf, of d' ?b sp'] sp' by auto
  have "balanced ?b"
    using wf s(1) balanced_plain [OF fp(1)] by (simp add: wf_span_def)
  moreover have "view d' sp' = drop_first (\<lambda>l. l_Name l = ToUpper name) (view d sp)"
    using k(1) s fp(1,5) drop_first_split [of "direct 0 ?xs" "\<lambda>l. l_Name l = ToUpper name" "d ! i"]
    by (simp add: view_def direct_plain)
  moreover have "others {ToUpper name} 0 (body d' sp') = others {ToUpper name} 0 (body d sp)"
    using k(1) s(1,2) fp(1,5) by (simp add: others_plain)
  ultimately show ?thesis using k by (simp add: keeps_def)
qed

lemma insert_keeps:
  assumes wf: "wf_span d sp" and pl: "plain l" and ins: "doc_Insert d sp l = (d', sp')"
  shows "keeps (l_Name l) d sp d' sp' (view d sp @ [l\<lparr>l_eol := EOL d, l_added := True\<rparr>])"
proof -
  let ?l = "l\<lparr>l_eol := EOL d, l_added := True\<rparr>"
  let ?b = "body d sp @ [?l]"
  note p = wf_span_parts [OF wf] and w = wf [unfolded wf_span_def]
  have at: "take (nat (End sp)) d = fst (outside d sp) @ body d sp"
  proof -
    have "length (fst (outside d sp) @ body d sp) = nat (End sp)" using p(2,3) w by (simp add: nat_add_distrib)
    then show ?thesis by (metis append.assoc append_eq_conv_conj p(1))
  qed
  have d': "d' = fst (outside d sp) @ ?b @ snd (outside d sp)" and sp': "Begin sp' = Begin sp" "End sp' = End sp + 1"
    using ins w at by (auto simp: doc_Insert_def Let_def outside_def)
  have "End sp' = Begin sp' + 1 + int (length ?b)"
    using p(3) sp' by simp
  then have k: "body d' sp' = ?b" "outside d' sp' = outside d sp" "balanced ?b \<Longrightarrow> wf_span d' sp'"
    using wf_span_parts_intro [OF wf d'] sp' by auto
  have pl': "plain ?l" using pl by (simp add: plain_def)
  have "balanced ?b" using w balanced_plain [OF pl', of 0 "body d sp" "[]"] by simp
  moreover have "view d' sp' = view d sp @ [?l]"
    using k(1) balanced_depth [of 0 "body d sp"] w pl' by (simp add: view_def direct_plain)
  moreover have "others {l_Name l} 0 (body d' sp') = others {l_Name l} 0 (body d sp)"
    using k(1) balanced_depth [of 0 "body d sp"] w pl' by (simp add: others_plain)
  ultimately show ?thesis using k by (simp add: keeps_def)
qed

lemma upd_first_cong:
  "List.find P xs = Some y \<Longrightarrow> f y = g y \<Longrightarrow> upd_first P f xs = upd_first P g xs"
  by (induction xs) (auto split: if_splits)

lemma doc_set_keeps:
  assumes wf: "wf_span d sp" and n: "ToUpper name \<notin> {''BEGIN'', ''END''}"
    and set: "doc_set d sp name value params = (d', sp')"
    and ungrouped: "value = [] \<Longrightarrow> list_all (\<lambda>l. l_Name l = ToUpper name \<longrightarrow> l_Group l = []) (view d sp)"
  shows "keeps (ToUpper name) d sp d' sp' (put_prop (EOL d) (ToUpper name) value params (view d sp))"
proof (cases "doc_Find d sp name")
    case None
    note no = view_none [OF None wf]
    let ?p = "case params of None \<Rightarrow> [] | Some p \<Rightarrow> p"
    show ?thesis
    proof (cases "value = []")
      case True
      then show ?thesis using set None no wf by (simp add: doc_set_def doc_Find_def put_prop_def keeps_def)
    next
      case False
      have ins: "doc_Insert d sp (NewLine (ToUpper name) ?p value) = (d', sp')"
        using set None False by (simp add: doc_set_def doc_Find_def)
      have pl: "plain (NewLine (ToUpper name) ?p value)" using n by (simp add: plain_def NewLine_def)
      show ?thesis
        using insert_keeps [OF wf pl ins] False no by (simp add: put_prop_def NewLine_def cong: option.case_cong)
    qed
  next
    case (Some i)
    note yes = view_some [OF Some wf] and fp = found_plain [OF wf Some n]
    have v: "List.find (\<lambda>l. l_Name l = ToUpper name) (view d sp) = Some (d ! i)"
      using doc_Find_view [OF wf, of name] Some by simp
    show ?thesis
    proof (cases "value = []")
      case True
      have "l_Group (d ! i) = []"
        using ungrouped [OF True] find_Some [OF v] by (auto simp: list_all_iff)
      moreover have "doc_Remove d sp i = (d', sp')"
        using set Some True by (simp add: doc_set_def doc_Find_def)
      ultimately show ?thesis
        using remove_keeps [OF wf Some n] True yes by (simp add: put_prop_def)
    next
      case False
      let ?f = "\<lambda>l. l\<lparr>l_Value := value, l_Params := (case params of None \<Rightarrow> l_Params l | Some p \<Rightarrow> p), l_dirty := True\<rparr>"
      have "d' = d[i := ?f (d ! i)]" "sp' = sp"
        using set Some False by (auto simp: doc_set_def doc_Find_def)
      then show ?thesis
        using update_keeps [OF wf Some n, of "?f (d ! i)"] fp(5) False yes upd_first_cong [OF v, of ?f "\<lambda>_. ?f (d ! i)"]
        by (simp add: put_prop_def)
    qed
qed

text \<open>
  C30. \<open>set\<close> on a component is the obvious operation on the list of the component's own
  properties: rewrite the first line of that name, drop it when the value is empty, append one
  otherwise. The component stays well-formed; every line outside it, every nested component and every line of another
  name is the same, in the same order. This takes of a property that is dropped, its value being empty, that it is not in a
  group: of a group the code drops the other lines as well.
\<close>

theorem doc_set_refines:
  assumes wf: "wf_span d sp" and n: "ToUpper name \<notin> {''BEGIN'', ''END''}"
    and set: "doc_set d sp name value params = (d', sp')"
    and ungrouped: "value = [] \<Longrightarrow> list_all (\<lambda>l. l_Name l = ToUpper name \<longrightarrow> l_Group l = []) (view d sp)"
  shows "wf_span d' sp' \<and> outside d' sp' = outside d sp \<and>
    view d' sp' = put_prop (EOL d) (ToUpper name) value params (view d sp) \<and>
    others {ToUpper name} 0 (body d' sp') = others {ToUpper name} 0 (body d sp)"
  using doc_set_keeps [OF wf n set ungrouped] by (simp add: keeps_def)

text \<open>A small card the witnesses run on.\<close>

definition sample_card :: document where
  "sample_card = Parse (''BEGIN:VCARD'' @ [CR, LF] @ ''VERSION:3.0'' @ [CR, LF] @ ''FN:Ada'' @ [CR, LF] @
     ''TEL;TYPE=CELL:1'' @ [CR, LF] @ ''END:VCARD'' @ [CR, LF])"

definition sample_span :: span where
  "sample_span = \<lparr>Begin = 0, End = 4\<rparr>"

lemma sample_wf: "wf_span sample_card sample_span"
  by code_simp

theorem doc_set_refines_witness:
  "map l_Value (view (fst (doc_set sample_card sample_span ''fn'' ''Grace'' None)) sample_span) = [''3.0'', ''Grace'', ''1'']"
proof -
  obtain d' sp' where e: "doc_set sample_card sample_span ''fn'' ''Grace'' None = (d', sp')"
    by (cases "doc_set sample_card sample_span ''fn'' ''Grace'' None")
  have n: "ToUpper ''fn'' \<notin> {''BEGIN'', ''END''}" by code_simp
  have s: "snd (doc_set sample_card sample_span ''fn'' ''Grace'' None) = sample_span" by code_simp
  have "view d' sp' = put_prop (EOL sample_card) (ToUpper ''fn'') ''Grace'' None (view sample_card sample_span)"
    using doc_set_refines [OF sample_wf n e] by simp
  moreover have "map l_Value (put_prop (EOL sample_card) (ToUpper ''fn'') ''Grace'' None (view sample_card sample_span)) =
      [''3.0'', ''Grace'', ''1'']" by code_simp
  ultimately show ?thesis using e s by simp
qed

section \<open>A store of properties\<close>

text \<open>
  What a client of a property store relies on: a value written is read back, other keys keep
  their value, and the store's invariant survives. Keys are compared by \<open>norm\<close>.
\<close>

locale prop_store =
  fixes inv :: "'s \<Rightarrow> bool"
    and get :: "'s \<Rightarrow> 'k \<Rightarrow> 'v"
    and put :: "'s \<Rightarrow> 'k \<Rightarrow> 'v \<Rightarrow> 's"
    and norm :: "'k \<Rightarrow> 'k"
    and key :: "'k \<Rightarrow> bool"
    and val :: "'v \<Rightarrow> bool"
  assumes inv_put: "inv s \<Longrightarrow> key k \<Longrightarrow> val v \<Longrightarrow> inv (put s k v)"
    and get_put_same: "inv s \<Longrightarrow> key k \<Longrightarrow> val v \<Longrightarrow> norm k' = norm k \<Longrightarrow> get (put s k v) k' = v"
    and get_put_other: "inv s \<Longrightarrow> key k \<Longrightarrow> val v \<Longrightarrow> norm k' \<noteq> norm k \<Longrightarrow> get (put s k v) k' = get s k'"
begin

definition put_all :: "'s \<Rightarrow> ('k \<times> 'v) list \<Rightarrow> 's" where
  "put_all s kvs = foldl (\<lambda>s (k, v). put s k v) s kvs"

lemma put_all_Nil [simp]: "put_all s [] = s"
  by (simp add: put_all_def)

lemma put_all_Cons [simp]: "put_all s ((k, v) # kvs) = put_all (put s k v) kvs"
  by (simp add: put_all_def)

lemma inv_put_all: "inv s \<Longrightarrow> \<forall>(k, v) \<in> set kvs. key k \<and> val v \<Longrightarrow> inv (put_all s kvs)"
  by (induction kvs arbitrary: s) (auto simp: inv_put)

lemma get_put_all_other:
  "inv s \<Longrightarrow> \<forall>(k, v) \<in> set kvs. key k \<and> val v \<Longrightarrow> norm k' \<notin> (norm \<circ> fst) ` set kvs \<Longrightarrow>
   get (put_all s kvs) k' = get s k'"
  by (induction kvs arbitrary: s) (auto simp: get_put_other inv_put)

lemma get_put_all:
  "inv s \<Longrightarrow> \<forall>(k, v) \<in> set kvs. key k \<and> val v \<Longrightarrow> distinct (map (norm \<circ> fst) kvs) \<Longrightarrow>
   (k, v) \<in> set kvs \<Longrightarrow> get (put_all s kvs) k = v"
proof (induction kvs arbitrary: s)
  case (Cons kv kvs)
  obtain k0 v0 where kv: "kv = (k0, v0)" by (cases kv)
  show ?case
  proof (cases "(k, v) = kv")
    case True
    then have "get (put_all (put s k v) kvs) k = get (put s k v) k"
      using Cons.prems kv by (intro get_put_all_other) (auto intro: inv_put)
    then show ?thesis using True Cons.prems kv by (simp add: get_put_same)
  next
    case False
    then show ?thesis using Cons kv by (auto simp: inv_put)
  qed
qed simp

end

definition first_value :: "line list \<Rightarrow> string \<Rightarrow> string" where
  "first_value ps name = (case List.find (\<lambda>l. l_Name l = name) ps of None \<Rightarrow> [] | Some l \<Rightarrow> l_Value l)"

lemma find_append: "List.find P (xs @ ys) = (case List.find P xs of None \<Rightarrow> List.find P ys | Some x \<Rightarrow> Some x)"
  by (induction xs) auto

lemma first_value_upd:
  "list_ex (\<lambda>l. l_Name l = name) ps \<Longrightarrow> (\<And>l. l_Name (f l) = l_Name l) \<Longrightarrow> (\<And>l. l_Value (f l) = v) \<Longrightarrow>
   first_value (upd_first (\<lambda>l. l_Name l = name) f ps) m = (if m = name then v else first_value ps m)"
  by (induction ps) (auto simp: first_value_def)

lemma first_value_put:
  assumes "ToUpper name = name" and "value \<noteq> []"
  shows "first_value (put_prop eol name value params ps) m = (if m = name then value else first_value ps m)"
proof (cases "list_ex (\<lambda>l. l_Name l = name) ps")
  case True
  then show ?thesis using assms by (simp add: put_prop_def first_value_upd)
next
  case False
  then have "List.find (\<lambda>l. l_Name l = name) ps = None" by (auto simp: find_None_iff list_ex_iff)
  then show ?thesis
    using False assms by (auto simp: put_prop_def first_value_def find_append NewLine_def split: option.splits)
qed

lemma doc_RawValue_first: "wf_span d sp \<Longrightarrow> doc_RawValue d sp name = first_value (view d sp) (ToUpper name)"
  by (simp add: doc_RawValue_view first_value_def)

definition prop_key :: "string \<Rightarrow> bool" where
  "prop_key name = (ToUpper name \<notin> {''BEGIN'', ''END''})"

definition text_value :: "string \<Rightarrow> bool" where
  "text_value v = (v \<noteq> [] \<and> CR \<notin> set v)"

lemma Unescape_Escape_text: "CR \<notin> set v \<Longrightarrow> Unescape (Escape v) = v"
proof -
  assume "CR \<notin> set v"
  then have "filter (\<lambda>c. c \<noteq> CR) v = v" by (auto simp: filter_id_conv)
  moreover have "Unescape (Escape v) = unescape_loop (Escape v)"
    by (simp add: Unescape_def unescape_loop_no_backslash)
  ultimately show ?thesis by (simp add: unescape_loop_Escape)
qed

lemma Escape_text_not_Nil: "v \<noteq> [] \<Longrightarrow> CR \<notin> set v \<Longrightarrow> Escape v \<noteq> []"
  by (cases v) (auto simp: Escape_eq_Nil escape_char_def)

lemma doc_set_store:
  assumes "wf_span d sp" "prop_key name" "v \<noteq> []" "doc_set d sp name v ps = (d', sp')"
  shows "wf_span d' sp'"
    "doc_RawValue d' sp' m = (if ToUpper m = ToUpper name then v else doc_RawValue d sp m)"
proof -
  have r: "wf_span d' sp' \<and> view d' sp' = put_prop (EOL d) (ToUpper name) v ps (view d sp)"
    using doc_set_keeps [of d sp name v ps d' sp'] assms by (simp add: prop_key_def keeps_def)
  then show "wf_span d' sp'" by simp
  show "doc_RawValue d' sp' m = (if ToUpper m = ToUpper name then v else doc_RawValue d sp m)"
    using r assms(1,3) by (simp add: doc_RawValue_first first_value_put)
qed

interpretation raw: prop_store
  "\<lambda>(d, sp). wf_span d sp" "\<lambda>(d, sp). doc_RawValue d sp" "\<lambda>(d, sp). doc_SetRaw d sp" ToUpper prop_key "\<lambda>v. v \<noteq> []"
  by unfold_locales (auto simp: doc_SetRaw_def doc_set_store split: prod.splits)

lemma doc_Set_store:
  assumes "wf_span d sp" "prop_key name" "text_value v" "doc_Set d sp name v = (d', sp')"
  shows "wf_span d' sp' \<and> doc_Value d' sp' m = (if ToUpper m = ToUpper name then v else doc_Value d sp m)"
  using doc_set_store [of d sp name "Escape v" None d' sp'] assms
  by (simp add: doc_Set_def text_value_def Escape_text_not_Nil doc_Value_raw Unescape_Escape_text)

interpretation escaped: prop_store
  "\<lambda>(d, sp). wf_span d sp" "\<lambda>(d, sp). doc_Value d sp" "\<lambda>(d, sp). doc_Set d sp" ToUpper prop_key text_value
  by unfold_locales (use doc_Set_store in \<open>fastforce split: prod.splits\<close>)+

text \<open>
  Writing any number of text properties with different names into a component, every one of
  them reads back as it was written and every other property keeps its value.
\<close>

theorem doc_Set_all_reads_back:
  assumes "wf_span d sp" and "list_all (\<lambda>(k, v). prop_key k \<and> text_value v) kvs"
    and "distinct (map (ToUpper \<circ> fst) kvs)"
    and "foldl (\<lambda>(d, sp) (k, v). doc_Set d sp k v) (d, sp) kvs = (d', sp')"
  shows "list_all (\<lambda>(k, v). doc_Value d' sp' k = v) kvs \<and>
    (ToUpper m \<notin> (ToUpper \<circ> fst) ` set kvs \<longrightarrow> doc_Value d' sp' m = doc_Value d sp m)"
proof -
  have p: "escaped.put_all (d, sp) kvs = (d', sp')"
    unfolding escaped.put_all_def using assms(4) by (simp add: case_prod_unfold)
  have ok: "\<forall>(k, v) \<in> set kvs. prop_key k \<and> text_value v" using assms(2) by (auto simp: list_all_iff)
  show ?thesis
    using escaped.get_put_all [of "(d, sp)" kvs] escaped.get_put_all_other [of "(d, sp)" kvs m] assms(1,3) ok p
    by (auto simp: list_all_iff)
qed

theorem doc_Set_all_reads_back_witness:
  "(\<lambda>(d, sp). doc_Value d sp ''note'' = ''a;b'' \<and> doc_Value d sp ''VERSION'' = ''3.0'')
     (foldl (\<lambda>(d, sp) (k, v). doc_Set d sp k v) (sample_card, sample_span) [(''FN'', ''Eve''), (''NOTE'', ''a;b'')])"
proof -
  let ?kvs = "[(''FN'', ''Eve''), (''NOTE'', ''a;b'')]"
  obtain d sp where e: "foldl (\<lambda>(d, sp) (k, v). doc_Set d sp k v) (sample_card, sample_span) ?kvs = (d, sp)"
    by fastforce
  have "list_all (\<lambda>(k, v). prop_key k \<and> text_value v) ?kvs" "distinct (map (ToUpper \<circ> fst) ?kvs)" by code_simp+
  note all = doc_Set_all_reads_back [OF sample_wf this e]
  have "doc_Value sample_card sample_span ''VERSION'' = ''3.0''" "ToUpper ''VERSION'' \<notin> {''FN'', ''NOTE''}"
    "ToUpper ''note'' = ToUpper ''NOTE''" "ToUpper ''FN'' = ''FN''" "ToUpper ''NOTE'' = ''NOTE''" by code_simp+
  then show ?thesis
    using all [of "''VERSION''"] e by (simp add: doc_Value_def doc_Find_def)
qed

section \<open>Removing a group\<close>

text \<open>
  In a component with nothing nested in it, the in-place filter of \<open>Remove\<close> is a filter: the
  lines \<open>contains\<close> reads have moved, but none of them opens or closes anything.
\<close>

definition in_group :: "string \<Rightarrow> span \<Rightarrow> line list \<Rightarrow> nat \<Rightarrow> bool" where
  "in_group grp sp a i = (l_Group (a ! i) = grp \<and> Begin sp < int i \<and> int i < End sp)"

lemma line_depth_all_plain: "(\<And>l. l \<in> set ls \<Longrightarrow> plain l) \<Longrightarrow> line_depth ls = 0"
  by (induction ls) (simp, metis line_depth_plain list.set_intros)

lemma contains_flat:
  "(\<And>p. Begin sp < int p \<Longrightarrow> int p < End sp \<Longrightarrow> plain (a ! p)) \<Longrightarrow>
   contains a sp j = (Begin sp < int j \<and> int j < End sp)"
  by (auto simp: contains_def intro!: line_depth_all_plain)

lemma remove_loop_flat:
  "k \<le> j \<Longrightarrow> j \<le> length a \<Longrightarrow> k = j \<or> Begin sp < int k \<Longrightarrow>
   (\<And>p. int j < End sp \<Longrightarrow> Begin sp < int p \<Longrightarrow> int p < End sp \<Longrightarrow> plain (a ! p)) \<Longrightarrow>
   fst (remove_loop grp sp j k a) = take k a @ map ((!) a) (filter (\<lambda>i. \<not> in_group grp sp a i) [j..<length a])"
proof (induction grp sp j k a rule: remove_loop.induct)
  case (1 grp sp j k a)
  show ?case
  proof (cases "j < length a")
    case False
    then show ?thesis using "1.prems" by (subst remove_loop.simps) simp
  next
    case True
    have c: "(l_Group (a ! j) = grp \<and> contains a sp j) = in_group grp sp a j"
      using contains_flat [of sp a j] "1.prems"(4) by (auto simp: in_group_def contains_def)
    note upt = upt_conv_Cons [OF True]
    show ?thesis
    proof (cases "in_group grp sp a j")
      case drop: True
      have "k = Suc j \<or> Begin sp < int k" using drop "1.prems"(3) by (auto simp: in_group_def)
      then have "fst (remove_loop grp sp (Suc j) k a) =
          take k a @ map ((!) a) (filter (\<lambda>i. \<not> in_group grp sp a i) [Suc j..<length a])"
        using "1.IH"(1) [OF True] c drop "1.prems" True by simp
      then show ?thesis using drop c True upt by (subst remove_loop.simps) simp
    next
      case keep: False
      let ?a = "a[k := a ! j]"
      have pl: "plain (?a ! p)" if "int (Suc j) < End sp" "Begin sp < int p" "int p < End sp" for p
      proof (cases "p = k \<and> k < j")
        case True
        then have "Begin sp < int j" using "1.prems"(3) by auto
        then show ?thesis using True that "1.prems"(2) "1.prems"(4) [of j] by simp
      next
        case False
        then show ?thesis using that "1.prems"(1,4) by (cases "p = k") auto
      qed
      have "Suc k = Suc j \<or> Begin sp < int (Suc k)" using "1.prems"(3) by auto
      then have "fst (remove_loop grp sp (Suc j) (Suc k) ?a) =
          take (Suc k) ?a @ map ((!) ?a) (filter (\<lambda>i. \<not> in_group grp sp ?a i) [Suc j..<length a])"
        using "1.IH"(2) [OF True] c keep "1.prems"(1) True pl by simp
      also have "map ((!) ?a) (filter (\<lambda>i. \<not> in_group grp sp ?a i) [Suc j..<length a]) =
          map ((!) a) (filter (\<lambda>i. \<not> in_group grp sp a i) [Suc j..<length a])"
        using "1.prems"(1) by (intro map_cong filter_cong) (auto simp: in_group_def)
      also have "take (Suc k) ?a = take k a @ [a ! j]"
        using "1.prems"(1) True by (simp add: take_Suc_conv_app_nth)
      finally show ?thesis using keep c True upt by (subst remove_loop.simps) auto
    qed
  qed
qed

lemma upt_split: "i \<le> j \<Longrightarrow> j \<le> k \<Longrightarrow> [i..<k] = [i..<j] @ [j..<k]"
  using upt_add_eq_append [of i j "k - j"] by simp

lemma map_nth_filter: "e \<le> length d \<Longrightarrow> map ((!) d) (filter (\<lambda>i. P (d ! i)) [b..<e]) = filter P (slice d b e)"
  by (simp add: slice_map [symmetric] filter_map o_def)

lemma doc_Remove_group:
  assumes wf: "wf_span d sp" and flat: "list_all plain (body d sp)" and g: "l_Group (d ! i) \<noteq> []"
    and rm: "doc_Remove d sp i = (d', sp')"
  shows "wf_span d' sp' \<and> outside d' sp' = outside d sp \<and>
    body d' sp' = filter (\<lambda>l. l_Group l \<noteq> l_Group (d ! i)) (body d sp)"
proof -
  let ?g = "l_Group (d ! i)" and ?b = "nat (Begin sp + 1)" and ?e = "nat (End sp)"
  note r = wf_span_range [OF wf] and p = wf_span_parts [OF wf] and w = wf [unfolded wf_span_def]
  let ?body = "filter (\<lambda>l. l_Group l \<noteq> ?g) (body d sp)"
  have pl: "plain (d ! q)" if "Begin sp < int q" "int q < End sp" for q
  proof -
    have "d ! q \<in> set (slice d ?b ?e)"
      unfolding slice_map [OF r(3), symmetric] set_map set_upt
      using that w by (intro imageI) auto
    then show ?thesis using flat by (simp add: body_slice list_all_iff)
  qed
  have "[0..<length d] = [0..<?b] @ [?b..<?e] @ [?e..<length d]"
    using upt_split [of 0 ?b "length d"] upt_split [of ?b ?e "length d"] r(2,3) by simp
  moreover have "filter (\<lambda>j. \<not> in_group ?g sp d j) [0..<?b] = [0..<?b]"
    "filter (\<lambda>j. \<not> in_group ?g sp d j) [?e..<length d] = [?e..<length d]"
    using w by (auto simp: in_group_def filter_id_conv)
  moreover have "filter (\<lambda>j. \<not> in_group ?g sp d j) [?b..<?e] = filter (\<lambda>j. l_Group (d ! j) \<noteq> ?g) [?b..<?e]"
    by (intro filter_cong) (auto simp: in_group_def)
  ultimately have all: "map ((!) d) (filter (\<lambda>j. \<not> in_group ?g sp d j) [0..<length d]) =
      slice d 0 ?b @ ?body @ slice d ?e (length d)"
    using r(2,3) map_nth_filter [OF r(3), of "\<lambda>l. l_Group l \<noteq> ?g" ?b]
    by (simp add: body_slice slice_map)
  obtain kept m where km: "remove_loop ?g sp 0 0 d = (kept, m)" by fastforce
  then have d': "d' = kept" "sp' = sp\<lparr>End := End sp - int m\<rparr>" using rm g by (auto simp: doc_Remove_def)
  have "kept = slice d 0 ?b @ ?body @ slice d ?e (length d)"
    using remove_loop_flat [of 0 0 d sp ?g] pl km all by simp
  then have k: "d' = fst (outside d sp) @ ?body @ snd (outside d sp)"
    using d' by (simp add: outside_def slice.simps)
  have "length kept + m = length d" using remove_loop_bounds [OF _ _ km] by simp
  moreover have "length d = length (fst (outside d sp)) + length (body d sp) + length (snd (outside d sp))"
    using arg_cong [OF p(1), of length] by simp
  ultimately have "length ?body + m = length (body d sp)" using k d' by simp
  then have "End sp' = Begin sp + 1 + int (length ?body)" using p(3) d' by simp
  note k' = wf_span_parts_intro [OF wf k _ this]
  have bal: "balanced ls" if "list_all plain ls" for ls
    using that by (induction ls) (auto simp: plain_def)
  have "balanced ?body" using flat by (intro bal) (auto simp: list_all_iff)
  then show ?thesis using k' d' by simp
qed

text \<open>
  Removing a grouped line from a component with nothing nested in it removes exactly the
  lines of that group, nothing outside the component, and leaves the component well-formed.
\<close>

theorem doc_Remove_flat_group:
  assumes "wf_span d sp" and "list_all plain (body d sp)" and "l_Group (d ! i) \<noteq> []"
    and "doc_Remove d sp i = (d', sp')"
  shows "wf_span d' sp' \<and> outside d' sp' = outside d sp \<and>
    body d' sp' = filter (\<lambda>l. l_Group l \<noteq> l_Group (d ! i)) (body d sp)"
  using doc_Remove_group [OF assms] .

definition sample_group :: document where
  "sample_group = Parse (''BEGIN:VCARD'' @ [LF] @ ''item1.URL:u'' @ [LF] @ ''FN:Ada'' @ [LF] @
     ''item1.X-ABLabel:l'' @ [LF] @ ''END:VCARD'' @ [LF])"

theorem doc_Remove_flat_group_witness:
  "map l_Value (body (fst (doc_Remove sample_group sample_span 1)) \<lparr>Begin = 0, End = 2\<rparr>) = [''Ada'']"
proof -
  obtain d' sp' where e: "doc_Remove sample_group sample_span 1 = (d', sp')" by fastforce
  have "wf_span sample_group sample_span" "list_all plain (body sample_group sample_span)"
    "l_Group (sample_group ! 1) \<noteq> []" by code_simp+
  note r = doc_Remove_flat_group [OF this e]
  have "snd (doc_Remove sample_group sample_span 1) = \<lparr>Begin = 0, End = 2\<rparr>" by code_simp
  moreover have "map l_Value (filter (\<lambda>l. l_Group l \<noteq> l_Group (sample_group ! 1)) (body sample_group sample_span)) = [''Ada'']"
    by code_simp
  ultimately show ?thesis using r e by simp
qed

definition sample_nested :: document where
  "sample_nested = Parse (''BEGIN:VEVENT'' @ [LF] @ ''g.URL:u'' @ [LF] @ ''BEGIN:VALARM'' @ [LF] @
     ''END:VALARM'' @ [LF] @ ''g.X-ABLabel:l'' @ [LF] @ ''END:VEVENT'' @ [LF])"

text \<open>
  With a component nested between them the same removal leaves the satellite behind: by the time
  \<open>contains\<close> looks at it, the BEGIN it counts has been overwritten by what moved down.
\<close>

theorem doc_Remove_nested_group_kept:
  "contains sample_nested \<lparr>Begin = 0, End = 5\<rparr> 4 \<and>
   map l_Name (fst (doc_Remove sample_nested \<lparr>Begin = 0, End = 5\<rparr> 1)) = [''BEGIN'', ''BEGIN'', ''END'', ''X-ABLABEL'', ''END'']"
  by code_simp

lemma doc_Delete_none: "doc_Delete d sp name = (d', sp') \<Longrightarrow> doc_Find d' sp' name = None"
proof (induction d sp name arbitrary: d' sp' rule: doc_Delete.induct)
  case (1 d sp name)
  show ?case
  proof (cases "doc_Find d sp name")
    case None
    then show ?thesis using "1.prems" by (subst (asm) doc_Delete.simps) auto
  next
    case (Some i)
    obtain e sq where r: "doc_Remove d sp i = (e, sq)" by fastforce
    then have "doc_Delete e sq name = (d', sp')"
      using "1.prems" Some by (subst (asm) doc_Delete.simps) simp
    then show ?thesis using "1.IH" [OF Some r [symmetric] refl] by blast
  qed
qed

end
