(* ===== verification/ContentLine_Render.thy ===== *)
theory ContentLine_Render
  imports ContentLine_Edit
begin

text \<open>
  An edited document survives being written and read: the lines that are parsed from its bytes have
  the group, name, parameters and value it holds, folding included, and everything that is looked up
  in it is found again in the same place.
\<close>

section \<open>Logical lines, in any context\<close>

text \<open>What may follow a line: a terminator, and then nothing that would continue the line.\<close>

definition separates :: "string \<Rightarrow> string \<Rightarrow> bool" where
  "separates e r = (e \<in> {[CR, LF], [LF]} \<and> (r = [] \<or> hd r \<notin> {SP, TAB}))"

definition logical :: "string \<Rightarrow> bool" where
  "logical t = (\<forall>e r. separates e r \<longrightarrow> nextLogicalLine (t @ e @ r) = (t, e, r))"

lemma line_break_eq:
  "e \<in> {[CR, LF], [CR], [LF]} \<Longrightarrow> (e = [CR] \<Longrightarrow> r = [] \<or> hd r \<noteq> LF) \<Longrightarrow> line_break (e @ r) = (e, r)"
  by (cases r) (auto simp: line_break_def)

lemma phys_line_eq:
  assumes "\<forall>c \<in> set p. \<not> is_crlf c" and "e \<in> {[CR, LF], [CR], [LF]}" and "e = [CR] \<Longrightarrow> r = [] \<or> hd r \<noteq> LF"
  shows "phys_line (p @ e @ r) = (p, e, r)"
proof -
  have "e @ r \<noteq> []" "is_crlf (hd (e @ r))" using assms(2) by (auto simp: is_crlf_def)
  then have "takeWhile (\<lambda>c. \<not> is_crlf c) (p @ e @ r) = p" "dropWhile (\<lambda>c. \<not> is_crlf c) (p @ e @ r) = e @ r"
    using assms(1) by (cases "e @ r"; simp add: takeWhile_append dropWhile_append)+
  then show ?thesis using line_break_eq [OF assms(2,3)] by (simp add: phys_line_def)
qed

lemma last_line:
  assumes "\<forall>c \<in> set p. \<not> is_crlf c" and "separates e r"
  shows "nextLogicalLine_loop b (p @ e @ r) = (b @ p, e, r)"
proof -
  have "phys_line (p @ e @ r) = (p, e, r)" using assms by (intro phys_line_eq) (auto simp: separates_def)
  then show ?thesis using assms(2) by (subst nextLogicalLine_loop.simps) (auto simp: separates_def split: list.splits)
qed

lemma continued_line:
  assumes "\<forall>c \<in> set p. \<not> is_crlf c" and "e \<in> {[CR, LF], [CR], [LF]}" and "w \<in> {SP, TAB}"
  shows "nextLogicalLine_loop b (p @ e @ w # s) = nextLogicalLine_loop (b @ p @ e @ [w]) s"
proof -
  have "phys_line (p @ e @ w # s) = (p, e, w # s)" using assms by (intro phys_line_eq) auto
  then show ?thesis using assms(3) by (subst nextLogicalLine_loop.simps) auto
qed

lemma nextLogicalLine_loop_logical:
  "nextLogicalLine_loop b s = (x, e0, r0) \<Longrightarrow>
   (r0 = [] \<or> hd r0 \<notin> {SP, TAB}) \<and>
   (\<exists>t. x = b @ t \<and> (\<forall>b' e r. separates e r \<longrightarrow> nextLogicalLine_loop b' (t @ e @ r) = (b' @ t, e, r)))"
proof (induction b s arbitrary: x e0 r0 rule: nextLogicalLine_loop.induct)
  case (1 b s)
  obtain p tm r' where pl: "phys_line s = (p, tm, r')" by (cases "phys_line s")
  note f = phys_line_facts [OF pl]
  show ?case
  proof (cases "\<exists>w rest. r' = w # rest \<and> w \<in> {SP, TAB}")
    case True
    then obtain w rest where r': "r' = w # rest" "w \<in> {SP, TAB}" by blast
    have "nextLogicalLine_loop (b @ p @ tm @ [w]) rest = (x, e0, r0)"
      using 1(2) pl r' by (subst (asm) nextLogicalLine_loop.simps) auto
    with 1(1) [OF pl [symmetric] refl r'(1)] r'(2)
    obtain t where t: "r0 = [] \<or> hd r0 \<notin> {SP, TAB}" "x = (b @ p @ tm @ [w]) @ t"
      "\<And>b' e r. separates e r \<Longrightarrow> nextLogicalLine_loop b' (t @ e @ r) = (b' @ t, e, r)"
      by auto
    have tm: "tm \<in> {[CR, LF], [CR], [LF]}" using f(3,4) r'(1) by auto
    show ?thesis
      using t continued_line [OF f(2) tm r'(2)] by (intro conjI exI [of _ "p @ tm @ [w] @ t"]) auto
  next
    case False
    then have "x = b @ p \<and> r0 = r'" using 1(2) pl by (subst (asm) nextLogicalLine_loop.simps) (auto split: list.splits if_splits)
    then show ?thesis using False last_line [OF f(2)] by (cases r') auto
  qed
qed

lemma nextLogicalLine_logical:
  "nextLogicalLine s = (t, e, r) \<Longrightarrow> logical t \<and> (r = [] \<or> hd r \<notin> {SP, TAB})"
  using nextLogicalLine_loop_logical [of "[]" s t e r] by (auto simp: nextLogicalLine_def logical_def)

lemma Join_logical:
  assumes "eol \<in> {[CR, LF], [LF]}" and "\<forall>c \<in> set (concat cs). \<not> is_crlf c" and "cs \<noteq> []"
  shows "logical (Join (eol @ [SP]) cs)"
proof -
  have "separates e r \<Longrightarrow> nextLogicalLine_loop b (Join (eol @ [SP]) cs @ e @ r) = (b @ Join (eol @ [SP]) cs, e, r)" for b e r
    using assms(2,3)
  proof (induction cs arbitrary: b rule: induct_list012)
    case (2 c)
    then show ?case using last_line [of c e r b] by simp
  next
    case (3 c c' cs)
    have e: "eol \<in> {[CR, LF], [CR], [LF]}" using assms(1) by auto
    have "\<forall>x \<in> set c. \<not> is_crlf x" using 3(4) by simp
    from continued_line [OF this e, of SP b "Join (eol @ [SP]) (c' # cs) @ e @ r"]
    show ?case using 3(2) [OF 3(3), of "b @ c @ eol @ [SP]"] 3(4) by simp
  qed simp
  then show ?thesis by (simp add: logical_def nextLogicalLine_def)
qed

text \<open>Bytes that are a sequence of such lines parse to them.\<close>

lemma Parse_lines:
  assumes "list_all (\<lambda>(t, e). logical t \<and> e \<in> {[CR, LF], [LF]} \<and> (t = [] \<or> hd t \<notin> {SP, TAB})) xs"
  shows "Parse (concat (map (\<lambda>(t, e). t @ e) xs)) = map (\<lambda>(t, e). mk_line t e) xs"
  using assms
proof (induction xs)
  case (Cons x xs)
  obtain t e where x: "x = (t, e)" by (cases x)
  let ?r = "concat (map (\<lambda>(t, e). t @ e) xs)"
  have r: "?r = [] \<or> hd ?r \<notin> {SP, TAB}"
  proof (cases xs)
    case xs: (Cons y ys)
    obtain t' e' where y: "y = (t', e')" by (cases y)
    have "e' \<in> {[CR, LF], [LF]}" "t' = [] \<or> hd t' \<notin> {SP, TAB}" using Cons.prems xs y by simp_all
    then show ?thesis using xs y by (cases t') auto
  qed simp
  have "logical t" "separates e ?r" using Cons.prems x r by (simp_all add: separates_def)
  then have "nextLogicalLine (t @ e @ ?r) = (t, e, ?r)" unfolding logical_def by blast
  moreover have "t @ e @ ?r \<noteq> []" using Cons.prems x by auto
  ultimately show ?case using Cons x by (simp add: Parse_step)
qed simp

section \<open>Lines that read back\<close>

definition content :: "line \<Rightarrow> string \<times> string \<times> string \<times> string" where
  "content l = (l_Group l, l_Name l, l_Params l, l_Value l)"

lemma content_mk_line [simp]: "content (mk_line t e) = splitLine (unfold_line t)"
  by (auto simp: mk_line_def content_def split: prod.splits)

text \<open>A name or group without the characters that structure a line, parameters as they stand after a name.\<close>

definition simple :: "string \<Rightarrow> bool" where
  "simple s = (\<forall>c \<in> set s. c \<notin> {CHR ''.'', CHR '':'', CHR '';'', DQUOTE, SP, TAB, CR, LF})"

definition params_ok :: "string \<Rightarrow> bool" where
  "params_ok p = ((p = [] \<or> hd p = CHR '';'') \<and> (\<forall>c \<in> set p. \<not> is_crlf c) \<and> (\<forall>v. find_colon False (p @ CHR '':'' # v) = Some (p, v)))"

definition one_line :: "string \<Rightarrow> bool" where
  "one_line v = (\<forall>c \<in> set v. \<not> is_crlf c)"

lemma one_line_simps [simp]:
  "one_line []" "one_line (a @ b) = (one_line a \<and> one_line b)" "one_line (c # s) = (\<not> is_crlf c \<and> one_line s)"
  by (auto simp: one_line_def)

lemma not_crlf [simp]: "\<not> is_crlf (CHR ''.'')" "\<not> is_crlf (CHR '':'')" "\<not> is_crlf (CHR '';'')"
  by (simp_all add: is_crlf_def)

definition head_ok :: "line \<Rightarrow> bool" where
  "head_ok l = (simple (l_Group l) \<and> simple (l_Name l) \<and> l_Name l \<noteq> [] \<and> ToUpper (l_Name l) = l_Name l)"

definition written_ok :: "line \<Rightarrow> bool" where
  "written_ok l = (head_ok l \<and> params_ok (l_Params l) \<and> one_line (l_Value l))"

definition parsed_ok :: "line \<Rightarrow> bool" where
  "parsed_ok l = (logical (l_raw l) \<and> (l_raw l = [] \<or> hd (l_raw l) \<notin> {SP, TAB}) \<and> splitLine (unfold_line (l_raw l)) = content l)"

definition line_ok :: "line \<Rightarrow> bool" where
  "line_ok l = (l_eol l \<in> {[], [CR, LF], [LF]} \<and> (if l_dirty l \<or> l_added l then written_ok l else parsed_ok l))"

lemma find_colon_simple:
  "(\<forall>c \<in> set x. c \<noteq> CHR '':'' \<and> c \<noteq> DQUOTE) \<Longrightarrow>
   find_colon q (x @ s) = map_option (\<lambda>(h, v). (x @ h, v)) (find_colon q s)"
proof (induction x)
  case Nil
  show ?case by (cases "find_colon q s") auto
next
  case (Cons c x)
  then show ?case by (cases "find_colon q s") auto
qed

lemma Cut_absent: "c \<notin> set s \<Longrightarrow> Cut c s = None"
proof -
  assume "c \<notin> set s"
  then have "dropWhile (\<lambda>x. x \<noteq> c) s = []" by (auto simp: dropWhile_eq_Nil_conv)
  then show ?thesis unfolding Cut_def by (simp only: list.case)
qed

lemma Cut_first: "c \<notin> set s \<Longrightarrow> Cut c (s @ c # t) = Some (s, t)"
proof -
  assume "c \<notin> set s"
  then have "\<forall>x \<in> set s. x \<noteq> c" by auto
  then show ?thesis by (simp add: Cut_def takeWhile_append2 dropWhile_append2)
qed

lemma splitLine_rebuild:
  assumes "written_ok l"
  shows "splitLine (rebuild l) = content l"
proof -
  let ?h = "(if l_Group l \<noteq> [] then l_Group l @ ''.'' else []) @ l_Name l"
  have h: "\<forall>c \<in> set ?h. c \<noteq> CHR '':'' \<and> c \<noteq> DQUOTE" "\<forall>c \<in> set ?h. c \<noteq> CHR '';''"
    using assms by (auto simp: written_ok_def head_ok_def simple_def)
  have p: "params_ok (l_Params l)" using assms by (simp add: written_ok_def)
  have "find_colon False (rebuild l) = Some (?h @ l_Params l, l_Value l)"
    using find_colon_simple [OF h(1), of False "l_Params l @ CHR '':'' # l_Value l"] p
    by (simp add: rebuild_def params_ok_def)
  moreover have "takeWhile (\<lambda>c. c \<noteq> CHR '';'') (?h @ l_Params l) = ?h" "dropWhile (\<lambda>c. c \<noteq> CHR '';'') (?h @ l_Params l) = l_Params l"
    using h(2) p by (cases "l_Params l"; simp add: takeWhile_append dropWhile_append params_ok_def)+
  moreover have "(case Cut (CHR ''.'') ?h of None \<Rightarrow> ([], ?h) | Some (g, h) \<Rightarrow> (g, h)) = (l_Group l, l_Name l)"
  proof -
    have "CHR ''.'' \<notin> set (l_Group l)" "CHR ''.'' \<notin> set (l_Name l)"
      using assms by (auto simp: written_ok_def head_ok_def simple_def)
    then show ?thesis using Cut_first [of "CHR ''.''" "l_Group l" "l_Name l"] by (simp add: Cut_absent)
  qed
  moreover have "ToUpper (l_Name l) = l_Name l" using assms by (simp add: written_ok_def head_ok_def)
  ultimately show ?thesis unfolding splitLine_def content_def by (simp only: option.case prod.case Let_def)
qed

lemma rebuild_ok:
  assumes "written_ok l"
  shows "one_line (rebuild l)" "rebuild l \<noteq> []" "hd (rebuild l) \<notin> {SP, TAB}"
proof -
  have w: "simple (l_Group l)" "simple (l_Name l)" "l_Name l \<noteq> []" "params_ok (l_Params l)" "one_line (l_Value l)"
    using assms by (simp_all add: written_ok_def head_ok_def)
  have no: "one_line s" if "simple s" for s using that unfolding one_line_def simple_def is_crlf_def by blast
  have "one_line (l_Params l)" using w(4) unfolding one_line_def params_ok_def by blast
  then show "one_line (rebuild l)"
    using no [OF w(1)] no [OF w(2)] w(5) by (simp add: rebuild_def)
  show "rebuild l \<noteq> []" by (simp add: rebuild_def)
  have "hd (rebuild l) = (if l_Group l \<noteq> [] then hd (l_Group l) else hd (l_Name l))" using w(3) by (simp add: rebuild_def)
  moreover have "hd s \<notin> {SP, TAB}" if "simple s" "s \<noteq> []" for s using that list.set_sel(1) [of s] by (auto simp: simple_def)
  ultimately show "hd (rebuild l) \<notin> {SP, TAB}" using w(1-3) by simp
qed

text \<open>The text a line is written as.\<close>

definition line_text :: "document \<Rightarrow> line \<Rightarrow> string option" where
  "line_text d l = (if l_dirty l \<or> l_added l then fold_line (rebuild l) (EOL d) else Some (l_raw l))"

definition line_end :: "document \<Rightarrow> line \<Rightarrow> string" where
  "line_end d l = (if l_eol l = [] then EOL d else l_eol l)"

lemma EOL_ok: "list_all line_ok d \<Longrightarrow> EOL d \<in> {[CR, LF], [LF]}"
  using find_Some [of "\<lambda>l. l_eol l \<noteq> []" d] by (auto simp: EOL_def line_ok_def list_all_iff split: option.splits)

lemma Join_hd: "cs \<noteq> [] \<Longrightarrow> hd cs \<noteq> [] \<Longrightarrow> Join sep cs \<noteq> [] \<and> hd (Join sep cs) = hd (concat cs)"
  by (induction cs rule: induct_list012) auto

lemma line_text_ok:
  assumes ok: "line_ok l" and eol: "EOL d \<in> {[CR, LF], [LF]}" and t: "line_text d l = Some t"
  shows "logical t \<and> (t = [] \<or> hd t \<notin> {SP, TAB}) \<and> splitLine (unfold_line t) = content l"
proof (cases "l_dirty l \<or> l_added l")
  case True
  then have w: "written_ok l" and f: "fold_line (rebuild l) (EOL d) = Some t"
    using ok t by (auto simp: line_ok_def line_text_def)
  note r = rebuild_ok [OF w]
  obtain cs where cs: "chunks_of (rebuild l) 75 cs" "t = Join (EOL d @ [SP]) cs" using fold_line_chunks [OF f r(2)] .
  have c: "concat cs = rebuild l" "cs \<noteq> []" "hd cs \<noteq> []" using cs(1) by (auto simp: chunks_of_def) (metis list.set_sel(1))
  have "logical t" using Join_logical [OF eol, of cs] c r(1) cs(2) by (simp add: one_line_def)
  moreover have "hd t \<notin> {SP, TAB}" using Join_hd [OF c(2,3), of "EOL d @ [SP]"] c(1) r(3) cs(2) by simp
  moreover have "unfold_line t = rebuild l"
    using unfold_fold_line [OF f r(2)] eol r(1) by (auto simp: one_line_def)
  ultimately show ?thesis using splitLine_rebuild [OF w] by simp
next
  case False
  then show ?thesis using ok t by (auto simp: line_ok_def line_text_def parsed_ok_def)
qed

lemma bytes_loop_text:
  "bytes_loop d b ls = Some bs \<Longrightarrow>
   \<exists>ts. map (line_text d) ls = map Some ts \<and> bs = b @ concat (map (\<lambda>(t, e). t @ e) (zip ts (map (line_end d) ls)))"
proof (induction ls arbitrary: b)
  case (Cons l ls)
  obtain t where t: "line_text d l = Some t" "bytes_loop d (b @ t @ line_end d l) ls = Some bs"
    using Cons.prems by (auto simp: line_bytes_def line_text_def line_end_def split: option.splits if_splits)
  from Cons.IH [OF t(2)] obtain ts where "map (line_text d) ls = map Some ts"
    "bs = (b @ t @ line_end d l) @ concat (map (\<lambda>(t, e). t @ e) (zip ts (map (line_end d) ls)))" by blast
  then show ?case using t(1) by (intro exI [of _ "t # ts"]) simp
qed simp

text \<open>A line that was not edited is read as the bytes it was.\<close>

definition unedited :: "line \<Rightarrow> bool" where
  "unedited l = (\<not> l_dirty l \<and> \<not> l_added l)"

definition read_as :: "line \<Rightarrow> line \<Rightarrow> bool" where
  "read_as l l' = (l_Name l' = l_Name l \<and> (unedited l \<longrightarrow> l_raw l' = l_raw l))"

lemma mk_line_raw [simp]: "l_raw (mk_line t e) = t" "unedited (mk_line t e)"
  by (simp_all add: mk_line_def unedited_def split: prod.split)

lemma Parse_unedited: "list_all unedited (Parse s)"
proof (induction s rule: Parse.induct)
  case (1 s)
  then show ?case by (subst Parse.simps) (auto split: prod.splits)
qed

lemma render_reads_back:
  assumes ok: "list_all line_ok d" and b: "doc_Bytes d = Some bs"
  shows "map content (Parse bs) = map content d" "list_all line_ok (Parse bs)" "list_all2 read_as d (Parse bs)"
proof -
  note eol = EOL_ok [OF ok]
  obtain ts where ts: "map (line_text d) d = map Some ts" "bs = concat (map (\<lambda>(t, e). t @ e) (zip ts (map (line_end d) d)))"
    using bytes_loop_text [of d "[]" d bs] b by (auto simp: doc_Bytes_def)
  have len: "length ts = length d" using ts(1) by (metis length_map)
  have each: "logical (ts ! i) \<and> (ts ! i = [] \<or> hd (ts ! i) \<notin> {SP, TAB}) \<and> splitLine (unfold_line (ts ! i)) = content (d ! i)"
    if i: "i < length d" for i
  proof -
    have "map (line_text d) d ! i = map Some ts ! i" using ts(1) by simp
    then have "line_text d (d ! i) = Some (ts ! i)" using i len by simp
    then show ?thesis using line_text_ok [OF _ eol, of "d ! i" "ts ! i"] ok i by (simp add: list_all_length)
  qed
  have "list_all (\<lambda>(t, e). logical t \<and> e \<in> {[CR, LF], [LF]} \<and> (t = [] \<or> hd t \<notin> {SP, TAB})) (zip ts (map (line_end d) d))"
    using each len eol ok by (auto simp: list_all_length line_end_def line_ok_def)
  note lines = this
  from Parse_lines [OF lines] have p: "Parse bs = map (\<lambda>(t, e). mk_line t e) (zip ts (map (line_end d) d))" using ts(2) by simp
  then show "map content (Parse bs) = map content d" using each len by (auto intro!: nth_equalityI)
  show "list_all line_ok (Parse bs)"
    using lines unfolding p by (auto simp: list_all_iff line_ok_def parsed_ok_def)
  have "read_as (d ! i) (Parse bs ! i)" if i: "i < length d" for i
  proof -
    have "map (line_text d) d ! i = map Some ts ! i" using ts(1) by simp
    then have t: "line_text d (d ! i) = Some (ts ! i)" using i len by simp
    have "content (Parse bs ! i) = content (d ! i)" using each [OF i] i len unfolding p by simp
    then show ?thesis using t i len unfolding p by (auto simp: read_as_def unedited_def content_def line_text_def)
  qed
  then show "list_all2 read_as d (Parse bs)" using len unfolding p by (simp add: list_all2_conv_all_nth)
qed

end
