(* ===== verification/ContentLine_Reread.thy ===== *)
theory ContentLine_Reread
  imports ContentLine_Render
begin

text \<open>
  Editing keeps a document in the form that reads back, looking things up takes only what is read
  back, and the first component of a name stays the first while its properties are edited.
\<close>

section \<open>Documents that read back\<close>

text \<open>Bytes whose lines end in LF or CRLF and that do not begin with a continuation.\<close>

definition regular :: "string \<Rightarrow> bool" where
  "regular s = ((s = [] \<or> hd s \<notin> {SP, TAB}) \<and> list_all (\<lambda>l. l_eol l \<noteq> [CR]) (Parse s))"

lemma unfold_loop_one_line: "one_line (unfold_loop s)"
  by (induction s rule: unfold_loop.induct) (auto simp: is_crlf_def)

lemma unfold_one_line: "one_line (unfold_line s)"
  by (simp add: unfold_line_eq unfold_loop_one_line)

lemma Parse_ok:
  assumes "regular s"
  shows "list_all line_ok (Parse s)"
proof -
  have "s = [] \<or> hd s \<notin> {SP, TAB} \<Longrightarrow> list_all (\<lambda>l. l_eol l \<noteq> [CR]) (Parse s) \<Longrightarrow> list_all line_ok (Parse s)" for s
  proof (induction s rule: Parse_induct)
    case (step s t e r)
    note n = nextLogicalLine_logical [OF step(2)]
    have p: "Parse s = mk_line t e # Parse r" using Parse_step [OF step(1,2)] .
    have "t = [] \<or> hd t \<notin> {SP, TAB}" using step(3,5) by (cases t) auto
    moreover have "e \<in> {[], [CR, LF], [LF]}" using nextLogicalLine_eol(2) [OF step(2)] step(6) p by auto
    ultimately have "line_ok (mk_line t e)" using n by (simp add: line_ok_def parsed_ok_def)
    then show ?case using step(4) n step(6) p by simp
  qed simp
  then show ?thesis using assms by (simp add: regular_def)
qed

lemma find_colon_prefix:
  "find_colon q u = Some (h, v) \<Longrightarrow> u = h @ CHR '':'' # v \<and> (\<forall>w. find_colon q (h @ CHR '':'' # w) = Some (h, w))"
  by (induction q u arbitrary: h rule: find_colon.induct) (auto split: if_splits)

lemma simple_ToUpper: "simple (ToUpper s) \<Longrightarrow> \<forall>c \<in> set s. c \<noteq> CHR '':'' \<and> c \<noteq> DQUOTE"
  by (auto simp: simple_def ToUpper_def upper_char_def)

lemma Cut_Some: "Cut c s = Some (a, b) \<Longrightarrow> s = a @ c # b"
proof -
  assume "Cut c s = Some (a, b)"
  then obtain y where y: "dropWhile (\<lambda>x. x \<noteq> c) s = y # b" "a = takeWhile (\<lambda>x. x \<noteq> c) s"
    by (auto simp: Cut_def split: list.splits)
  then have "y = c" using hd_dropWhile [of "\<lambda>x. x \<noteq> c" s] by simp
  then show ?thesis using y takeWhile_dropWhile_id [of "\<lambda>x. x \<noteq> c" s] by simp
qed

lemma ToUpper_eq_Nil [simp]: "ToUpper s = [] \<longleftrightarrow> s = []"
  by (simp add: ToUpper_def)

lemma params_ok_Nil [simp]: "params_ok []"
  by (simp add: params_ok_def)

lemma split_params_ok:
  assumes "splitLine u = (g, n, p, v)" and "one_line u" and "simple g" and "simple n"
  shows "params_ok p"
proof (cases "find_colon False u")
  case None
  then show ?thesis using assms(1) by (simp add: splitLine_def)
next
  case (Some hv)
  obtain h v' where hv: "hv = (h, v')" by (cases hv)
  define pre where "pre = takeWhile (\<lambda>c. c \<noteq> CHR '';'') h"
  have sp: "(case (case Cut (CHR ''.'') pre of None \<Rightarrow> ([], pre) | Some (g, h) \<Rightarrow> (g, h)) of
      (grp, head) \<Rightarrow> (grp, ToUpper head, dropWhile (\<lambda>c. c \<noteq> CHR '';'') h, v')) = (g, n, p, v)"
    using assms(1) unfolding splitLine_def Some hv option.case prod.case Let_def pre_def .
  have p: "p = dropWhile (\<lambda>c. c \<noteq> CHR '';'') h" using sp by (cases "Cut (CHR ''.'') pre") auto
  have gn: "(g, n) = (case Cut (CHR ''.'') pre of None \<Rightarrow> ([], ToUpper pre) | Some (g, h) \<Rightarrow> (g, ToUpper h))"
    using sp by (cases "Cut (CHR ''.'') pre") auto
  have h: "h = pre @ p" by (simp add: p pre_def)
  have "\<forall>c \<in> set pre. c \<noteq> CHR '':'' \<and> c \<noteq> DQUOTE"
  proof (cases "Cut (CHR ''.'') pre")
    case None
    then show ?thesis using gn assms(4) simple_ToUpper [of pre] by simp
  next
    case (Some ab)
    obtain a b where ab: "ab = (a, b)" by (cases ab)
    then have "g = a" "n = ToUpper b" using gn Some by simp_all
    moreover have "pre = a @ CHR ''.'' # b" using Cut_Some Some ab by simp
    moreover have "\<forall>c \<in> set g. c \<noteq> CHR '':'' \<and> c \<noteq> DQUOTE" using assms(3) unfolding simple_def by blast
    ultimately show ?thesis using simple_ToUpper [of b] assms(4) by (simp add: ball_Un)
  qed
  note f = find_colon_simple [OF this, of False] and c = find_colon_prefix [OF Some [unfolded hv]]
  have "find_colon False (p @ CHR '':'' # w) = Some (p, w)" for w
    using c f [of "p @ CHR '':'' # w"] h by (cases "find_colon False (p @ CHR '':'' # w)") auto
  moreover have "p = [] \<or> hd p = CHR '';''" using hd_dropWhile [of "\<lambda>c. c \<noteq> CHR '';''" h] p by auto
  moreover have "one_line p" using assms(2) c h by simp
  ultimately show ?thesis by (auto simp: params_ok_def one_line_def)
qed

lemma line_ok_params: "line_ok l \<Longrightarrow> simple (l_Group l) \<Longrightarrow> simple (l_Name l) \<Longrightarrow> params_ok (l_Params l)"
  using split_params_ok [OF _ unfold_one_line, of "l_raw l" "l_Group l" "l_Name l" "l_Params l" "l_Value l"]
  by (auto simp: line_ok_def written_ok_def parsed_ok_def content_def split: if_splits)

text \<open>The lines of a name that is written have ordinary groups.\<close>

definition groups_ok :: "document \<Rightarrow> bool" where
  "groups_ok d = list_all (\<lambda>l. simple (l_Group l)) d"

definition key_ok :: "string \<Rightarrow> bool" where
  "key_ok name = (name \<noteq> [] \<and> simple (ToUpper name))"

lemma NewLine_ok: "key_ok name \<Longrightarrow> params_ok p \<Longrightarrow> one_line v \<Longrightarrow> line_ok ((NewLine name p v)\<lparr>l_eol := e, l_added := True\<rparr>) = (e \<in> {[], [CR, LF], [LF]})"
  by (auto simp: NewLine_def line_ok_def written_ok_def head_ok_def key_ok_def simple_def ToUpper_def)

lemma remove_loop_set: "remove_loop grp sp j k a = (r, m) \<Longrightarrow> k \<le> j \<Longrightarrow> set r \<subseteq> set a"
proof (induction grp sp j k a arbitrary: r m rule: remove_loop.induct)
  case (1 grp sp j k a)
  show ?case
  proof (cases "j < length a")
    case False
    then show ?thesis using 1(3) set_take_subset [of k a] by (subst (asm) remove_loop.simps) auto
  next
    case True
    have "set (a[k := a ! j]) \<subseteq> set a" using True set_update_subset_insert [of a k "a ! j"] by auto
    then show ?thesis
      using 1 True by (subst (asm) (3) remove_loop.simps) (fastforce split: if_splits)
  qed
qed

lemma doc_Remove_set: "doc_Remove d sp i = (d', sp') \<Longrightarrow> set d' \<subseteq> set d"
  using remove_loop_set [of "l_Group (d ! i)" sp 0 0 d] set_take_subset [of i d] set_drop_subset [of "Suc i" d]
  by (auto simp: doc_Remove_def Let_def split: if_splits prod.splits)

lemma doc_set_ok:
  assumes ok: "list_all line_ok d" "groups_ok d" and n: "key_ok name" and v: "one_line v"
    and p: "\<And>p. ps = Some p \<Longrightarrow> params_ok p" and s: "doc_set d sp name v ps = (d', sp')"
  shows "list_all line_ok d' \<and> groups_ok d'"
proof (cases "doc_Find d sp (ToUpper name)")
  case None
  show ?thesis
  proof (cases "v = []")
    case False
    let ?p = "case ps of None \<Rightarrow> [] | Some p \<Rightarrow> p"
    have pp: "params_ok ?p" using p by (cases ps) auto
    have "key_ok (ToUpper name)" using n by (simp add: key_ok_def)
    note l = NewLine_ok [OF this pp v, of "EOL d"]
    have "d' = take (if End sp < 0 \<or> End sp > int (length d) then length d else nat (End sp)) d @
        (NewLine (ToUpper name) ?p v)\<lparr>l_eol := EOL d, l_added := True\<rparr> #
        drop (if End sp < 0 \<or> End sp > int (length d) then length d else nat (End sp)) d"
      using s None False by (simp add: doc_set_def doc_Insert_def Let_def)
    then show ?thesis
      using l ok EOL_ok [OF ok(1)] by (auto simp: list_all_iff groups_ok_def NewLine_def simple_def dest: in_set_takeD in_set_dropD)
  qed (use s None ok in \<open>simp add: doc_set_def\<close>)
next
  case (Some i)
  note f = doc_Find_Some [OF Some]
  show ?thesis
  proof (cases "v = []")
    case True
    then have "doc_Remove d sp i = (d', sp')" using s Some by (simp add: doc_set_def)
    then show ?thesis using doc_Remove_set ok by (fastforce simp: list_all_iff groups_ok_def)
  next
    case False
    let ?l = "(d ! i)\<lparr>l_Value := v, l_Params := (case ps of None \<Rightarrow> l_Params (d ! i) | Some p \<Rightarrow> p), l_dirty := True\<rparr>"
    have i: "line_ok (d ! i)" "simple (l_Group (d ! i))" using ok f(1) by (simp_all add: list_all_length groups_ok_def)
    have nm: "l_Name (d ! i) = ToUpper name" "simple (ToUpper name)" "ToUpper name \<noteq> []"
      using f(4) n by (auto simp: key_ok_def ToUpper_def)
    have "params_ok (case ps of None \<Rightarrow> l_Params (d ! i) | Some p \<Rightarrow> p)"
      using p line_ok_params [OF i] nm by (cases ps) simp_all
    then have "line_ok ?l" using i nm v by (simp add: line_ok_def written_ok_def head_ok_def)
    moreover have "d' = d[i := ?l]" using s Some False by (simp add: doc_set_def)
    ultimately show ?thesis using ok i(2) by (auto simp: list_all_iff groups_ok_def dest!: set_update_subset_insert [THEN subsetD])
  qed
qed

section \<open>Looking up takes the contents\<close>

definition same :: "document \<Rightarrow> document \<Rightarrow> bool" where
  "same d d' = (map content d = map content d')"

lemma same_length: "same d d' \<Longrightarrow> length d = length d'"
  unfolding same_def by (metis length_map)

lemma same_nth: "same d d' \<Longrightarrow> i < length d \<Longrightarrow> content (d ! i) = content (d' ! i)"
  using same_length [of d d'] unfolding same_def by (metis nth_map)

lemma same_fields:
  assumes "same d d'" and "i < length d"
  shows "l_Group (d ! i) = l_Group (d' ! i)" "l_Name (d ! i) = l_Name (d' ! i)" "l_Params (d ! i) = l_Params (d' ! i)"
    "l_Value (d ! i) = l_Value (d' ! i)"
  using same_nth [OF assms] by (simp_all add: content_def)

lemma line_depth_names:
  "line_depth ls = (\<Sum>n \<leftarrow> map l_Name ls. if n = ''BEGIN'' then 1 else if n = ''END'' then - 1 else 0)"
  by (induction ls) simp_all

lemma same_depth: "map l_Name ls = map l_Name ls' \<Longrightarrow> line_depth ls = line_depth ls'"
  by (simp only: line_depth_names)

lemma same_contains: "same d d' \<Longrightarrow> i \<le> length d \<Longrightarrow> contains d sp i = contains d' sp i"
  using same_fields(2) [of d d'] unfolding contains_def
  by (subst same_depth [of _ "map ((!) d') [nat (Begin sp + 1)..<i]"]) simp_all

lemma same_Find: "same d d' \<Longrightarrow> doc_Find d sp name = doc_Find d' sp name"
  unfolding doc_Find_def
  by (rule find_cong) (auto simp: span_range_def same_length is_prop_def same_fields same_contains dest: same_fields(2))

lemma same_RawValue: "same d d' \<Longrightarrow> doc_RawValue d sp name = doc_RawValue d' sp name"
  using same_Find [of d d' sp name] doc_Find_Some(1) [of d sp name]
  by (auto simp: doc_RawValue_def same_fields split: option.split)

lemma same_Value: "same d d' \<Longrightarrow> doc_Value d sp name = doc_Value d' sp name"
  using same_Find [of d d' sp name] doc_Find_Some(1) [of d sp name]
  by (auto simp: doc_Value_def same_fields split: option.split)

lemma same_components_loop:
  "same d d' \<Longrightarrow> map l_Name ls = map l_Name ls' \<Longrightarrow> \<forall>b \<in> set stack. b < length d \<Longrightarrow> i + length ls \<le> length d \<Longrightarrow>
   components_loop d name i ls stack = components_loop d' name i ls' stack"
proof (induction ls arbitrary: i ls' stack)
  case (Cons l ls)
  then obtain l' ls2 where ls': "ls' = l' # ls2" "l_Name l' = l_Name l" "map l_Name ls = map l_Name ls2" by (cases ls') auto
  show ?case
    using Cons.prems Cons.IH [OF Cons.prems(1) ls'(3), of _ "Suc i"] same_fields(4) [OF Cons.prems(1)]
    by (simp add: ls' split: list.split)
qed simp

lemma same_Component: "same d d' \<Longrightarrow> Component d name = Component d' name"
proof -
  assume s: "same d d'"
  then have "map fst (map snd (map content d)) = map fst (map snd (map content d'))" by (simp add: same_def)
  then have "map l_Name d = map l_Name d'" by (simp add: content_def comp_def)
  from same_components_loop [OF s this, of "[]" 0 "ToUpper name"] show ?thesis by (simp add: Component_def Components_def)
qed

section \<open>The first component\<close>

text \<open>The lines that close the component they are in.\<close>

fun closes :: "nat \<Rightarrow> line list \<Rightarrow> bool" where
  "closes k [] = False"
| "closes k (l # ls) =
     (if l_Name l = ''BEGIN'' then closes (Suc k) ls
      else if l_Name l = ''END'' then (case k of 0 \<Rightarrow> True | Suc k' \<Rightarrow> closes k' ls)
      else closes k ls)"

lemma closes_balanced: "balanced_from k xs \<Longrightarrow> closes (k + m) (xs @ ys) = closes m ys"
  by (induction k xs rule: balanced_from.induct) (auto split: if_splits nat.splits)

definition starts :: "document \<Rightarrow> string \<Rightarrow> nat \<Rightarrow> bool" where
  "starts d name b = (b < length d \<and> l_Name (d ! b) = ''BEGIN'' \<and> EqualFold (l_Value (d ! b)) name \<and> closes 0 (drop (Suc b) d))"

text \<open>The elements of a list that satisfy a predicate of their position.\<close>

fun picked :: "(nat \<Rightarrow> 'a \<Rightarrow> bool) \<Rightarrow> 'a list \<Rightarrow> 'a set" where
  "picked P [] = {}"
| "picked P (x # xs) = (if P 0 x then {x} else {}) \<union> picked (\<lambda>k. P (Suc k)) xs"

lemma picked_none [simp]: "picked (\<lambda>k x. False) xs = {}"
  by (induction xs) simp_all

lemma components_loop_starts:
  assumes "ls = drop i d" and "i \<le> length d"
  shows "nat ` Begin ` set (components_loop d name i ls stack) =
    picked (\<lambda>k b. closes k ls \<and> EqualFold (l_Value (d ! b)) name) stack \<union> {b. i \<le> b \<and> starts d name b}"
  using assms
proof (induction ls arbitrary: i stack)
  case Nil
  then show ?case by (auto simp: starts_def)
next
  case (Cons l ls)
  have i: "i < length d" "d ! i = l" "ls = drop (Suc i) d"
    using Cons.prems by (metis drop_eq_Nil2 linorder_not_le list.distinct(1), metis nth_via_drop, metis drop_Suc list.sel(3) tl_drop)
  have IH: "nat ` Begin ` set (components_loop d name (Suc i) ls st) =
    picked (\<lambda>k b. closes k ls \<and> EqualFold (l_Value (d ! b)) name) st \<union> {b. Suc i \<le> b \<and> starts d name b}" for st
    using Cons.IH [OF i(3), of st] i(1) by simp
  have split: "{b. i \<le> b \<and> starts d name b} = {b. Suc i \<le> b \<and> starts d name b} \<union> (if starts d name i then {i} else {})"
    by (auto simp: le_eq_less_or_eq Suc_le_eq)
  have st: "starts d name i = (l_Name l = ''BEGIN'' \<and> EqualFold (l_Value l) name \<and> closes 0 ls)"
    using i by (simp add: starts_def)
  consider "l_Name l = ''BEGIN''" | "l_Name l = ''END''" "stack = []" | b bs where "l_Name l = ''END''" "stack = b # bs"
    | "plain l" by (cases stack) (auto simp: plain_def)
  then show ?case
  proof cases
    case 1
    then show ?thesis unfolding split st by (simp add: IH i(2) Un_commute Un_left_commute)
  next
    case 2
    then show ?thesis unfolding split st by (simp add: IH)
  next
    case (3 b bs)
    then show ?thesis unfolding split st by (simp add: IH image_Un)
  next
    case 4
    then show ?thesis unfolding split st by (simp add: IH plain_def)
  qed
qed

lemma Components_starts: "nat ` Begin ` set (Components d name) = {b. starts d (ToUpper name) b}"
  using components_loop_starts [of d 0 d "ToUpper name" "[]"] by (simp add: Components_def)

lemma Component_first:
  "Component d name = Some sp \<Longrightarrow>
   0 \<le> Begin sp \<and> starts d (ToUpper name) (nat (Begin sp)) \<and> (\<forall>b. starts d (ToUpper name) b \<longrightarrow> nat (Begin sp) \<le> b)"
proof -
  assume c: "Component d name = Some sp"
  then obtain rest where r: "Components d name = sp # rest" by (auto simp: Component_def split: list.splits)
  have pos: "0 \<le> Begin x" if "x \<in> set (Components d name)" for x
    using components_loop_wf [of d 0 d "[]" x "ToUpper name"] that by (auto simp: Components_def wf_span_def)
  have "sorted (map Begin (Components d name))" by (simp add: Components_def)
  then have "Begin sp \<le> Begin x" if "x \<in> set (Components d name)" for x using r that by auto
  then have "\<forall>b \<in> nat ` Begin ` set (Components d name). nat (Begin sp) \<le> b" by (simp add: nat_mono)
  moreover have "nat (Begin sp) \<in> nat ` Begin ` set (Components d name)" using r by simp
  ultimately show ?thesis unfolding Components_starts using pos [of sp] r by simp
qed

lemma Component_exists: "starts d (ToUpper name) b \<Longrightarrow> \<exists>sp. Component d name = Some sp"
  using Components_starts [of d name] by (auto simp: Component_def split: list.splits)

lemma balanced_END: "balanced xs \<Longrightarrow> l_Name e = ''END'' \<Longrightarrow> balanced (xs @ e # ys) \<Longrightarrow> False"
  by (simp add: balanced_append)

lemma wf_span_unique:
  assumes "wf_span d sp" and "wf_span d sp'" and "Begin sp = Begin sp'"
  shows "sp = sp'"
proof -
  have no: "\<not> End x < End y" if x: "wf_span d x" and y: "wf_span d y" and b: "Begin x = Begin y" for x y
  proof
    assume lt: "End x < End y"
    let ?b = "nat (Begin x + 1)" and ?e = "nat (End x)" and ?f = "nat (End y)"
    have le: "?b \<le> ?e" "?e < ?f" "?f < length d" using x y lt by (auto simp: wf_span_def)
    have "body d y = body d x @ d ! ?e # slice d (Suc ?e) ?f"
    proof -
      have "slice d ?b ?f = slice d ?b ?e @ slice d ?e ?f" using slice_split [of ?b ?e ?f d] le by simp
      moreover have "slice d ?e ?f = slice d ?e (Suc ?e) @ slice d (Suc ?e) ?f" using slice_split [of ?e "Suc ?e" ?f d] le by simp
      moreover have "slice d ?e (Suc ?e) = [d ! ?e]" using slice_snoc [of ?e ?e d] le by simp
      ultimately show ?thesis using b by (simp only: body_slice append_assoc append_Cons append_Nil)
    qed
    moreover have "balanced (body d x)" "balanced (body d y)" "l_Name (d ! ?e) = ''END''"
      using x y by (simp_all add: wf_span_def)
    ultimately show False using balanced_END by metis
  qed
  show ?thesis
    using no [OF assms(1,2)] no [OF assms(2,1)] assms(3) by (cases sp; cases sp') simp
qed

text \<open>Editing the body of the first component of a name leaves it the first.\<close>

lemma starts_kept:
  assumes wf: "wf_span d sp" and wf': "wf_span d' sp'" and b: "Begin sp' = Begin sp"
    and out: "outside d' sp' = outside d sp" and x: "x \<le> nat (Begin sp)"
  shows "starts d' m x = starts d m x"
proof -
  let ?B = "nat (Begin sp)"
  have pos: "0 \<le> Begin sp" using wf by (simp add: wf_span_def)
  have parts: "d = take (Suc ?B) d @ body d sp @ drop (nat (End sp)) d" "d' = take (Suc ?B) d @ body d' sp' @ drop (nat (End sp)) d"
    "length (take (Suc ?B) d) = Suc ?B"
    using wf_span_parts [OF wf] wf_span_parts [OF wf'] out pos by (simp_all add: outside_def nat_add_distrib)
  have bal: "balanced (body d sp)" "balanced (body d' sp')" using wf wf' by (simp_all add: wf_span_def)
  have n: "d' ! x = d ! x" using parts(2,3) x by (metis le_imp_less_Suc nth_append nth_take)
  have l: "x < length d" "x < length d'" using parts x by (metis length_append less_Suc_eq_le trans_less_add1)+
  have "drop (Suc x) d = drop (Suc x) (take (Suc ?B) d) @ body d sp @ drop (nat (End sp)) d"
    "drop (Suc x) d' = drop (Suc x) (take (Suc ?B) d) @ body d' sp' @ drop (nat (End sp)) d"
    using parts x by (metis Suc_le_mono drop_append diff_is_0_eq drop0)+
  moreover have "closes k (pre @ body d sp @ post) = closes k (pre @ body d' sp' @ post)" for k pre post
    using closes_balanced [OF bal(1), of _ post] closes_balanced [OF bal(2), of _ post]
    by (induction pre arbitrary: k) (auto split: nat.split)
  ultimately show ?thesis using n l by (simp add: starts_def)
qed

lemma Component_kept:
  assumes c: "Component d name = Some sp" and wf': "wf_span d' sp'" and b: "Begin sp' = Begin sp"
    and out: "outside d' sp' = outside d sp"
  shows "Component d' name = Some sp'"
proof -
  have wf: "wf_span d sp" using Component_wf [OF c] by simp
  let ?B = "nat (Begin sp)"
  have "starts d' m x = starts d m x" if x: "x \<le> ?B" for m x using starts_kept [OF wf wf' b out x] .
  note same = this
  note f = Component_first [OF c]
  obtain sp2 where sp2: "Component d' name = Some sp2" using Component_exists [of d' name ?B] same f by auto
  note f2 = Component_first [OF sp2]
  have "nat (Begin sp2) \<le> ?B" using f2 same f by blast
  then have "?B \<le> nat (Begin sp2)" using f same f2 by blast
  then have "Begin sp2 = Begin sp'" using \<open>nat (Begin sp2) \<le> ?B\<close> f f2 b by linarith
  then show ?thesis using wf_span_unique [OF _ wf'] Component_wf [OF sp2] sp2 by blast
qed

text \<open>So is a component that begins before it.\<close>

lemma Component_before:
  assumes c: "Component d name = Some c" and k: "Begin c < Begin sp" and wf: "wf_span d sp" and wf': "wf_span d' sp'"
    and b: "Begin sp' = Begin sp" and out: "outside d' sp' = outside d sp"
  shows "\<exists>c'. Component d' name = Some c' \<and> Begin c' = Begin c"
proof -
  have f: "starts d (ToUpper name) (nat (Begin c))" "\<And>x. starts d (ToUpper name) x \<Longrightarrow> nat (Begin c) \<le> x" "0 \<le> Begin c"
    using Component_first [OF c] Component_wf [OF c] by (auto simp: wf_span_def)
  note same = starts_kept [OF wf wf' b out]
  have "nat (Begin c) \<le> nat (Begin sp)" using k by simp
  then have "starts d' (ToUpper name) (nat (Begin c))" using same f(1) by blast
  then obtain c' where c': "Component d' name = Some c'" using Component_exists by blast
  have g: "starts d' (ToUpper name) (nat (Begin c'))" "\<And>x. starts d' (ToUpper name) x \<Longrightarrow> nat (Begin c') \<le> x" "0 \<le> Begin c'"
    using Component_first [OF c'] Component_wf [OF c'] by (auto simp: wf_span_def)
  have "nat (Begin c') \<le> nat (Begin c)" using g(2) \<open>starts d' _ (nat (Begin c))\<close> by blast
  moreover have "nat (Begin c) \<le> nat (Begin c')"
    using f(2) same g(1) calculation \<open>nat (Begin c) \<le> nat (Begin sp)\<close> by (meson le_trans)
  ultimately show ?thesis using c' f(3) g(3) by auto
qed

end
