(* ===== verification/Document_Edit.thy ===== *)
theory Document_Edit
  imports ContentLine_Reread
begin

text \<open>
  Editing a document, seen from what is read of it: the first property of each name, as its parameters
  and value. A series of \<open>set\<close> operations on one component is a series of map updates, the rest of
  the document keeps every line, and the document read back after rendering gives the same map.
\<close>

type_synonym prop_map = "string \<Rightarrow> (string \<times> string) option"

section \<open>The properties of a component\<close>

definition line_prop :: "line \<Rightarrow> string \<times> string" where
  "line_prop l = (l_Params l, l_Value l)"

definition props :: "document \<times> span \<Rightarrow> prop_map" where
  "props ob name = (case ob of (d, sp) \<Rightarrow> map_option (\<lambda>i. line_prop (d ! i)) (doc_Find d sp name))"

lemma props_view:
  "wf_span d sp \<Longrightarrow> props (d, sp) name = map_option line_prop (List.find (\<lambda>l. l_Name l = ToUpper name) (view d sp))"
  using doc_Find_view [of d sp name] by (cases "doc_Find d sp name") (auto simp: props_def dest: sym)

lemma props_RawValue: "doc_RawValue d sp name = (case props (d, sp) name of None \<Rightarrow> [] | Some (_, v) \<Rightarrow> v)"
  by (simp add: doc_RawValue_def props_def line_prop_def split: option.split)

lemma props_Value: "doc_Value d sp name = (case props (d, sp) name of None \<Rightarrow> [] | Some (_, v) \<Rightarrow> Unescape v)"
  by (simp add: doc_Value_def props_def line_prop_def split: option.split)

lemma props_Find: "doc_Find d sp name = None \<longleftrightarrow> props (d, sp) name = None"
  by (simp add: props_def)

lemma same_props: "same d d' \<Longrightarrow> props (d, sp) name = props (d', sp) name"
  using same_Find [of d d' sp name] doc_Find_Some(1) [of d sp name]
  by (auto simp: props_def line_prop_def same_fields intro!: option.map_cong0)

section \<open>Documents that can be edited\<close>

text \<open>The names occur once at most, outside a group.\<close>

definition single :: "string list \<Rightarrow> line list \<Rightarrow> bool" where
  "single names ps =
     list_all (\<lambda>n. length (filter (\<lambda>l. l_Name l = n) ps) \<le> 1 \<and> list_all (\<lambda>l. l_Name l = n \<longrightarrow> l_Group l = []) ps) names"

definition editable :: "string \<Rightarrow> string list \<Rightarrow> document \<times> span \<Rightarrow> bool" where
  "editable cn names ob =
     (case ob of (d, sp) \<Rightarrow>
      Component d cn = Some sp \<and> list_all line_ok d \<and> groups_ok d \<and> single names (view d sp))"

text \<open>All lines but the component's own lines of the names.\<close>

definition rest_of :: "string list \<Rightarrow> document \<times> span \<Rightarrow> (line list \<times> line list) \<times> line list" where
  "rest_of names ob = (case ob of (d, sp) \<Rightarrow> (outside d sp, others (set names) 0 (body d sp)))"

definition put_props :: "string \<Rightarrow> string option \<Rightarrow> string \<Rightarrow> prop_map \<Rightarrow> prop_map" where
  "put_props name ps v m = (\<lambda>k. if ToUpper k \<noteq> name then m k
     else if v = [] then None
     else Some (case ps of Some p \<Rightarrow> p | None \<Rightarrow> (case m name of None \<Rightarrow> [] | Some (p, _) \<Rightarrow> p), v))"

definition edit_key :: "string \<Rightarrow> bool" where
  "edit_key name = (name \<noteq> [] \<and> simple name \<and> ToUpper name = name \<and> name \<notin> {''BEGIN'', ''END''})"

text \<open>A property to be written: its name, its parameters when they are replaced, its value.\<close>

type_synonym put = "string \<times> string option \<times> string"

definition put_ok :: "string list \<Rightarrow> put \<Rightarrow> bool" where
  "put_ok names p = (case p of (n, ps, v) \<Rightarrow>
     n \<in> set names \<and> edit_key n \<and> one_line v \<and> (case ps of None \<Rightarrow> True | Some p \<Rightarrow> params_ok p))"

definition do_put :: "put \<Rightarrow> document \<times> span \<Rightarrow> document \<times> span" where
  "do_put p ob = (case p of (n, ps, v) \<Rightarrow> doc_set (fst ob) (snd ob) n v ps)"

lemma find_put:
  assumes "ToUpper name = name" and "length (filter (\<lambda>l. l_Name l = name) ps) \<le> 1"
  shows "map_option line_prop (List.find (\<lambda>l. l_Name l = m) (put_prop eol name v params ps)) =
    (if m \<noteq> name then map_option line_prop (List.find (\<lambda>l. l_Name l = m) ps)
     else if v = [] then None
     else Some (case params of Some p \<Rightarrow> p
       | None \<Rightarrow> (case map_option line_prop (List.find (\<lambda>l. l_Name l = name) ps) of None \<Rightarrow> [] | Some (p, _) \<Rightarrow> p), v))"
proof (cases "list_ex (\<lambda>l. l_Name l = name) ps")
  case True
  then obtain a l b where s: "ps = a @ l # b" "l_Name l = name" "\<forall>x \<in> set a. l_Name x \<noteq> name"
    by (auto simp: list_ex_iff dest!: split_list_first_prop [of ps "\<lambda>l. l_Name l = name"])
  then have b: "\<forall>x \<in> set b. l_Name x \<noteq> name" using assms(2) by (auto simp: filter_empty_conv)
  have f: "List.find (\<lambda>l. l_Name l = name) a = None" "List.find (\<lambda>l. l_Name l = name) b = None"
    using s b by (auto simp: find_None_iff)
  show ?thesis
  proof (cases "v = []")
    case True
    then have "put_prop eol name v params ps = a @ b"
      using s \<open>list_ex _ ps\<close> by (simp add: put_prop_def drop_first_split)
    then show ?thesis using s True f by (auto simp: find_append split: option.splits)
  next
    case False
    let ?l = "l\<lparr>l_Value := v, l_Params := (case params of None \<Rightarrow> l_Params l | Some p \<Rightarrow> p), l_dirty := True\<rparr>"
    have "put_prop eol name v params ps = a @ ?l # b"
      using s False \<open>list_ex _ ps\<close> by (simp add: put_prop_def upd_first_split)
    then show ?thesis using s False f by (auto simp: find_append line_prop_def split: option.splits)
  qed
next
  case False
  then have "List.find (\<lambda>l. l_Name l = name) ps = None" by (auto simp: find_None_iff list_ex_iff)
  then show ?thesis
    using False assms(1) by (auto simp: put_prop_def find_append NewLine_def line_prop_def split: option.splits)
qed

lemma upd_first_filter:
  "(\<And>x. P x \<Longrightarrow> Q (f x) = Q x) \<Longrightarrow> length (filter Q (upd_first P f xs)) = length (filter Q xs)"
  by (induction xs) auto

lemma drop_first_filter: "length (filter Q (drop_first P xs)) \<le> length (filter Q xs)"
  by (induction xs) (auto intro: le_SucI)

lemma drop_first_set: "set (drop_first P xs) \<subseteq> set xs"
  by (induction xs) auto

lemma upd_first_set: "x \<in> set (upd_first P f xs) \<Longrightarrow> x \<in> set xs \<or> (\<exists>y \<in> set xs. P y \<and> x = f y)"
  by (induction xs) (auto split: if_splits)

lemma single_put:
  assumes "single names ps" and "ToUpper name = name"
  shows "single names (put_prop eol name v params ps)"
proof -
  have "length (filter (\<lambda>l. l_Name l = n) (put_prop eol name v params ps)) \<le> 1 \<and>
      list_all (\<lambda>l. l_Name l = n \<longrightarrow> l_Group l = []) (put_prop eol name v params ps)" if "n \<in> set names" for n
  proof -
    have n: "length (filter (\<lambda>l. l_Name l = n) ps) \<le> 1" "list_all (\<lambda>l. l_Name l = n \<longrightarrow> l_Group l = []) ps"
      using assms(1) that by (simp_all add: single_def list_all_iff)
    let ?f = "\<lambda>l. l\<lparr>l_Value := v, l_Params := (case params of None \<Rightarrow> l_Params l | Some p \<Rightarrow> p), l_dirty := True\<rparr>"
    consider "list_ex (\<lambda>l. l_Name l = name) ps" "v = []" | "list_ex (\<lambda>l. l_Name l = name) ps" "v \<noteq> []"
      | "\<not> list_ex (\<lambda>l. l_Name l = name) ps" by blast
    then show ?thesis
    proof cases
      case 1
      then have p: "put_prop eol name v params ps = drop_first (\<lambda>l. l_Name l = name) ps" by (simp add: put_prop_def)
      show ?thesis
        using n drop_first_filter [of "\<lambda>l. l_Name l = n" "\<lambda>l. l_Name l = name" ps] drop_first_set [of "\<lambda>l. l_Name l = name" ps]
        unfolding p by (auto simp: list_all_iff)
    next
      case 2
      then have p: "put_prop eol name v params ps = upd_first (\<lambda>l. l_Name l = name) ?f ps" by (simp add: put_prop_def)
      show ?thesis
        using n upd_first_filter [of "\<lambda>l. l_Name l = name" "\<lambda>l. l_Name l = n" ?f ps]
        unfolding p by (auto simp: list_all_iff dest: upd_first_set)
    next
      case 3
      then have "filter (\<lambda>l. l_Name l = name) ps = []" by (auto simp: filter_empty_conv list_ex_iff)
      then show ?thesis using n 3 assms(2) by (auto simp: put_prop_def NewLine_def list_all_iff)
    qed
  qed
  then show ?thesis by (simp add: single_def list_all_iff)
qed

lemma others_names:
  assumes "others {n} 0 b' = others {n} 0 b" and "n \<in> set names" and "n \<noteq> ''BEGIN''" and "n \<noteq> ''END''"
  shows "others (set names) 0 b' = others (set names) 0 b"
  using assms others_mono [of "{n}" "set names" 0] by (metis empty_iff empty_subsetI insert_iff insert_subset)

lemma outside_Begin: "wf_span d sp \<Longrightarrow> wf_span d' sp' \<Longrightarrow> outside d' sp' = outside d sp \<Longrightarrow> Begin sp' = Begin sp"
proof -
  assume w: "wf_span d sp" "wf_span d' sp'" and o: "outside d' sp' = outside d sp"
  have "length (fst (outside d sp)) = Suc (nat (Begin sp))" "length (fst (outside d' sp')) = Suc (nat (Begin sp'))"
    using w by (auto simp: outside_def wf_span_def nat_add_distrib)
  then have "nat (Begin sp') = nat (Begin sp)" using o by simp
  moreover have "0 \<le> Begin sp" "0 \<le> Begin sp'" using w by (simp_all add: wf_span_def)
  ultimately show ?thesis by linarith
qed

section \<open>Writing properties\<close>

lemma do_put_step:
  assumes e: "editable cn names ob" and p: "put_ok names p"
  shows "editable cn names (do_put p ob)" "props (do_put p ob) = (case p of (n, ps, v) \<Rightarrow> put_props n ps v (props ob))"
    "rest_of names (do_put p ob) = rest_of names ob"
proof -
  obtain d sp where ob: "ob = (d, sp)" by (cases ob)
  obtain n ps v where pp: "p = (n, ps, v)" by (cases p)
  obtain d' sp' where s: "doc_set d sp n v ps = (d', sp')" by fastforce
  have ok: "Component d cn = Some sp" "list_all line_ok d" "groups_ok d" "single names (view d sp)"
    using e by (simp_all add: editable_def ob)
  have k: "n \<in> set names" "n \<noteq> []" "simple n" "ToUpper n = n" "n \<notin> {''BEGIN'', ''END''}" "one_line v"
    "\<And>p. ps = Some p \<Longrightarrow> params_ok p"
    using p by (auto simp: put_ok_def pp edit_key_def split: option.splits)
  note wf = Component_wf [OF ok(1), THEN conjunct1]
  have one: "length (filter (\<lambda>l. l_Name l = n) (view d sp)) \<le> 1" "list_all (\<lambda>l. l_Name l = n \<longrightarrow> l_Group l = []) (view d sp)"
    using ok(4) k(1) by (simp_all add: single_def list_all_iff)
  have kp: "wf_span d' sp'" "outside d' sp' = outside d sp" "view d' sp' = put_prop (EOL d) n v ps (view d sp)"
    "others {n} 0 (body d' sp') = others {n} 0 (body d sp)"
    using doc_set_keeps [OF wf _ s] one(2) k(4,5) by (simp_all add: keeps_def)
  have b: "Begin sp' = Begin sp"
    using s by (auto simp: doc_set_def doc_Insert_def doc_Remove_def Let_def split: option.splits if_splits prod.splits)
  have "list_all line_ok d' \<and> groups_ok d'"
    using doc_set_ok [OF ok(2,3) _ k(6,7) s] k(2-4) by (simp add: key_ok_def)
  then show "editable cn names (do_put p ob)"
    using Component_kept [OF ok(1) kp(1) b kp(2)] single_put [OF ok(4) k(4)] kp(3) by (simp add: editable_def do_put_def ob pp s)
  show "props (do_put p ob) = (case p of (n, ps, v) \<Rightarrow> put_props n ps v (props ob))"
  proof
    fix m
    have "props (d', sp') m = put_props n ps v (props (d, sp)) m"
      unfolding props_view [OF kp(1)] kp(3) find_put [OF k(4) one(1)] put_props_def by (simp add: props_view [OF wf] k(4) cong: option.case_cong)
    then show "props (do_put p ob) m = (case p of (n, ps, v) \<Rightarrow> put_props n ps v (props ob)) m" by (simp add: do_put_def ob pp s)
  qed
  show "rest_of names (do_put p ob) = rest_of names ob"
    using others_names [OF kp(4) k(1)] k(5) kp(2) by (simp add: rest_of_def do_put_def ob pp s)
qed

definition do_puts :: "put list \<Rightarrow> document \<times> span \<Rightarrow> document \<times> span" where
  "do_puts ps ob = foldl (\<lambda>ob p. do_put p ob) ob ps"

definition puts_props :: "put list \<Rightarrow> prop_map \<Rightarrow> prop_map" where
  "puts_props ps m = foldl (\<lambda>m (n, ps, v). put_props n ps v m) m ps"

lemma do_puts_steps:
  "editable cn names ob \<Longrightarrow> list_all (put_ok names) ps \<Longrightarrow>
   editable cn names (do_puts ps ob) \<and> props (do_puts ps ob) = puts_props ps (props ob) \<and> rest_of names (do_puts ps ob) = rest_of names ob"
proof (induction ps arbitrary: ob)
  case (Cons p ps)
  then show ?case using do_put_step [of cn names ob p] Cons.IH [of "do_put p ob"]
    by (cases p) (simp add: do_puts_def puts_props_def)
qed (simp add: do_puts_def puts_props_def)

lemma puts_props_other: "ToUpper k \<notin> fst ` set ps \<Longrightarrow> puts_props ps m k = m k"
  by (induction ps arbitrary: m) (auto simp: puts_props_def put_props_def)

lemma puts_props_at:
  "distinct (map fst ps) \<Longrightarrow> (n, q, v) \<in> set ps \<Longrightarrow> ToUpper n = n \<Longrightarrow> puts_props ps m n = put_props n q v m n"
proof (induction ps arbitrary: m)
  case (Cons p ps)
  obtain n' q' v' where p: "p = (n', q', v')" by (cases p)
  have step: "puts_props (p # ps) m = puts_props ps (put_props n' q' v' m)" by (simp add: puts_props_def p)
  show ?case
  proof (cases "(n, q, v) = p")
    case True
    then show ?thesis using Cons.prems p step by (simp add: puts_props_other)
  next
    case False
    then have "n \<noteq> n'" "(n, q, v) \<in> set ps" using Cons.prems p by (auto simp: image_iff)
    then show ?thesis using Cons.IH [of "put_props n' q' v' m"] Cons.prems step by (simp add: put_props_def cong: if_cong)
  qed
qed simp

text \<open>The text of a property.\<close>

lemma do_puts_append: "do_puts (ps @ qs) ob = do_puts qs (do_puts ps ob)"
  by (simp add: do_puts_def)

lemma do_puts_simps: "do_puts [] ob = ob" "do_puts (p # ps) ob = do_puts ps (do_put p ob)"
  by (simp_all add: do_puts_def)

lemma Escape_one_line: "one_line (Escape s)"
  using Escape_no_crlf by (simp add: one_line_def)

definition prop_text :: "prop_map \<Rightarrow> string \<Rightarrow> string" where
  "prop_text m n = (case m n of None \<Rightarrow> [] | Some (_, v) \<Rightarrow> Unescape v)"

lemma prop_text_Value: "prop_text (props ob) n = doc_Value (fst ob) (snd ob) n"
  by (cases ob) (simp add: prop_text_def props_Value)

lemma Unescape_Escape: "Unescape (Escape v) = filter (\<lambda>c. c \<noteq> CR) v"
proof -
  have "Unescape (Escape v) = unescape_loop (Escape v)" by (simp add: Unescape_def unescape_loop_no_backslash)
  then show ?thesis by (simp add: unescape_loop_Escape)
qed

lemma text_put:
  assumes "ToUpper n = n"
  shows "prop_text (put_props n ps (Escape v) m) n = filter (\<lambda>c. c \<noteq> CR) v"
proof -
  have "Escape v = [] \<Longrightarrow> filter (\<lambda>c. c \<noteq> CR) v = []" by (auto simp: Escape_eq_Nil filter_empty_conv)
  then show ?thesis using assms by (simp add: prop_text_def put_props_def Unescape_Escape)
qed

text \<open>A document that was rendered and read again: it can be edited again.\<close>

lemma same_groups: "same d d' \<Longrightarrow> groups_ok d = groups_ok d'"
  by (simp add: groups_ok_def list_all_length same_length same_fields(1) cong: imp_cong)

lemma filter_content: "length (filter (\<lambda>l. l_Name l = n) ls) = length (filter (\<lambda>c. fst (snd c) = n) (map content ls))"
  by (induction ls) (simp_all add: content_def)

lemma groups_content: "list_all (\<lambda>l. l_Name l = n \<longrightarrow> l_Group l = []) ls = list_all (\<lambda>c. fst (snd c) = n \<longrightarrow> fst c = []) (map content ls)"
  by (induction ls) (simp_all add: content_def)

lemma single_content: "map content ps = map content qs \<Longrightarrow> single names ps = single names qs"
  by (simp only: single_def filter_content groups_content)

lemma same_view:
  assumes s: "same d d'" and w: "wf_span d sp" "wf_span d' sp"
  shows "map content (view d sp) = map content (view d' sp)"
proof -
  have r: "span_range d sp = span_range d' sp" using same_length [OF s] by (simp add: span_range_def)
  have "filter (contains d sp) (span_range d sp) = filter (contains d' sp) (span_range d' sp)"
    unfolding r by (rule filter_cong) (use same_contains [OF s] same_length [OF s] in \<open>auto simp: span_range_def\<close>)
  then show ?thesis
    using same_nth [OF s] same_length [OF s] by (auto simp: view_range [OF w(1)] view_range [OF w(2)] span_range_def)
qed

lemma editable_read_back:
  assumes e: "editable cn names (d, sp)" and b: "doc_Bytes d = Some bs"
  shows "Component (Parse bs) cn = Some sp" "props (Parse bs, sp) = props (d, sp)" "same (Parse bs) d" "editable cn names (Parse bs, sp)"
proof -
  have ok: "list_all line_ok d" using e by (simp add: editable_def)
  show s: "same (Parse bs) d" using render_reads_back(1) [OF ok b] by (simp add: same_def)
  show c: "Component (Parse bs) cn = Some sp" using same_Component [OF s] e by (simp add: editable_def)
  show "props (Parse bs, sp) = props (d, sp)" using same_props [OF s] by (simp add: fun_eq_iff)
  have "wf_span d sp" "wf_span (Parse bs) sp" using e c Component_wf by (auto simp: editable_def)
  then have "single names (view (Parse bs) sp) = single names (view d sp)" by (intro single_content same_view [OF s])
  then show "editable cn names (Parse bs, sp)"
    using e c render_reads_back(2) [OF ok b] same_groups [OF s] by (simp add: editable_def)
qed

text \<open>
  The bytes of every line but the component's own lines of the names: what comes before the component with its BEGIN, what else is
  in it, nested components among it, and its END with what follows.
\<close>

definition untouched :: "string list \<Rightarrow> document \<times> span \<Rightarrow> string list \<times> string list \<times> string list" where
  "untouched names ob = (case rest_of names ob of ((a, b), c) \<Rightarrow> (map l_raw a, map l_raw c, map l_raw b))"

lemma read_as_raw: "list_all2 read_as ls ls' \<Longrightarrow> list_all unedited ls \<Longrightarrow> map l_raw ls' = map l_raw ls"
  by (induction ls ls' rule: list_all2_induct) (simp_all add: read_as_def)

lemma read_as_others:
  "list_all2 read_as ls ls' \<Longrightarrow> list_all unedited (others N k ls) \<Longrightarrow> map l_raw (others N k ls') = map l_raw (others N k ls)"
proof (induction ls ls' arbitrary: k rule: list_all2_induct)
  case (Cons l ls l' ls')
  have "l_Name l' = l_Name l" "unedited l \<longrightarrow> l_raw l' = l_raw l" using Cons.hyps by (simp_all add: read_as_def)
  then show ?case using Cons.IH [of "k + line_depth [l]"] Cons.prems by (auto simp: others.simps(2))
qed simp

lemma untouched_read_back:
  assumes e: "editable cn names' (d', sp')" and b: "doc_Bytes d' = Some bs"
    and r: "rest_of names (d', sp') = rest_of names (d, sp)" and u: "list_all unedited d"
  shows "untouched names (Parse bs, sp') = untouched names (d, sp)"
proof -
  have ok: "list_all line_ok d'" using e by (simp add: editable_def)
  note all = render_reads_back(3) [OF ok b]
  have o: "outside d' sp' = outside d sp" "others (set names) 0 (body d' sp') = others (set names) 0 (body d sp)"
    using r by (simp_all add: rest_of_def)
  have u': "list_all unedited (take k d)" "list_all unedited (drop k d)" for k
    using u by (auto simp: list_all_iff dest: in_set_takeD in_set_dropD)
  have un: "list_all unedited (fst (outside d' sp'))" "list_all unedited (snd (outside d' sp'))"
    unfolding o by (simp_all add: outside_def u')
  have mem: "set (others N k ls) \<subseteq> set ls" for N k ls by (induction N k ls rule: others.induct) (auto simp: others.simps(2))
  have "set (body d sp) \<subseteq> set d" by (auto simp: body_def dest: in_set_takeD in_set_dropD)
  then have un': "list_all unedited (others (set names) 0 (body d' sp'))" unfolding o using mem [of "set names" 0 "body d sp"] u by (auto simp: list_all_iff)
  have parts: "list_all2 read_as (fst (outside d' sp')) (fst (outside (Parse bs) sp'))" "list_all2 read_as (snd (outside d' sp')) (snd (outside (Parse bs) sp'))"
    "list_all2 read_as (body d' sp') (body (Parse bs) sp')"
    using all by (simp_all add: outside_def body_def)
  show ?thesis
    using read_as_raw [OF parts(1) un(1)] read_as_raw [OF parts(2) un(2)] read_as_others [OF parts(3) un'] o
    by (simp add: untouched_def rest_of_def case_prod_unfold)
qed

section \<open>Rendering returns\<close>

text \<open>Folding returns on what has no four continuation bytes in a row, the pieces of a line put together among them.\<close>

lemma short_runs_infix: "short_runs (a @ b @ c) \<Longrightarrow> short_runs b"
proof (unfold short_runs_def, intro allI impI)
  fix i
  assume s: "\<forall>i. i + 4 \<le> length (a @ b @ c) \<longrightarrow> (\<exists>j<4. \<not> is_cont ((a @ b @ c) ! (i + j)))" and i: "i + 4 \<le> length b"
  then obtain j where j: "j < 4" "\<not> is_cont ((a @ b @ c) ! (length a + i + j))"
    using spec [OF s, of "length a + i"] i by (auto simp: add.assoc)
  then have "(a @ b @ c) ! (length a + i + j) = b ! (i + j)" using i by (simp add: nth_append)
  then show "\<exists>j<4. \<not> is_cont (b ! (i + j))" using j by auto
qed

lemma short_runs_append:
  assumes a: "short_runs a" and b: "short_runs b" and h: "a = [] \<or> b = [] \<or> \<not> is_cont (hd b) \<or> \<not> is_cont (last a)"
  shows "short_runs (a @ b)"
proof (unfold short_runs_def, intro allI impI)
  fix i
  assume i: "i + 4 \<le> length (a @ b)"
  consider "i + 4 \<le> length a" | "length a \<le> i" | "i < length a" "length a < i + 4" by linarith
  then show "\<exists>j<4. \<not> is_cont ((a @ b) ! (i + j))"
  proof cases
    case 1
    then obtain j where "j < 4" "\<not> is_cont (a ! (i + j))" using a by (auto simp: short_runs_def)
    then show ?thesis using 1 by (intro exI [of _ j]) (simp add: nth_append)
  next
    case 2
    then have "i - length a + 4 \<le> length b" using i by simp
    then obtain j where "j < 4" "\<not> is_cont (b ! (i - length a + j))" using b unfolding short_runs_def by blast
    moreover have "(a @ b) ! (i + j) = b ! (i - length a + j)" using 2 by (simp add: nth_append)
    ultimately show ?thesis by auto
  next
    case 3
    then have ne: "a \<noteq> []" "b \<noteq> []" using i by auto
    then consider "\<not> is_cont (hd b)" | "\<not> is_cont (last a)" using h by blast
    then show ?thesis
    proof cases
      case 1
      have "(a @ b) ! (i + (length a - i)) = hd b" using 3 ne by (simp add: nth_append hd_conv_nth)
      moreover have "length a - i < 4" using 3 by simp
      ultimately show ?thesis using 1 by metis
    next
      case 2
      have "(a @ b) ! (i + (length a - 1 - i)) = last a" using 3 ne by (simp add: nth_append last_conv_nth)
      moreover have "length a - 1 - i < 4" using 3 by simp
      ultimately show ?thesis using 2 by metis
    qed
  qed
qed

lemma short_runs_ascii: "(\<And>c. c \<in> set s \<Longrightarrow> \<not> is_cont c) \<Longrightarrow> short_runs s"
  unfolding short_runs_def by (intro allI impI exI [of _ 0]) simp

definition line_runs :: "line \<Rightarrow> bool" where
  "line_runs l = (short_runs (l_Group l) \<and> short_runs (l_Name l) \<and> short_runs (l_Params l) \<and> short_runs (l_Value l) \<and>
     (l_Params l = [] \<or> hd (l_Params l) = CHR '';''))"

lemma rebuild_runs:
  assumes "line_runs l"
  shows "short_runs (rebuild l)"
proof -
  have sep: "\<not> is_cont (CHR ''.'')" "\<not> is_cont (CHR '':'')" "\<not> is_cont (CHR '';'')" by (simp_all add: is_cont_def)
  have one: "short_runs [c]" for c by (simp add: short_runs_def)
  have l: "short_runs (l_Group l)" "short_runs (l_Name l)" "short_runs (l_Params l)" "short_runs (l_Value l)"
    "l_Params l = [] \<or> hd (l_Params l) = CHR '';''" using assms by (simp_all add: line_runs_def)
  let ?g = "if l_Group l \<noteq> [] then l_Group l @ ''.'' else []"
  have "short_runs (l_Group l @ ''.'')" using short_runs_append [OF l(1) one] sep by simp
  then have "short_runs ?g" "?g = [] \<or> \<not> is_cont (last ?g)" using l(1) sep by (simp_all add: short_runs_def)
  then have "short_runs (?g @ l_Name l)" using short_runs_append [of ?g "l_Name l"] l(2) by blast
  moreover have "?g @ l_Name l = [] \<or> l_Params l = [] \<or> \<not> is_cont (hd (l_Params l))" using l(5) sep by auto
  ultimately have "short_runs ((?g @ l_Name l) @ l_Params l)" using short_runs_append l(3) by blast
  moreover have "short_runs ('':'' @ l_Value l)" using short_runs_append [OF one l(4)] sep by simp
  ultimately have "short_runs (((?g @ l_Name l) @ l_Params l) @ '':'' @ l_Value l)"
    using short_runs_append [of "(?g @ l_Name l) @ l_Params l" "'':'' @ l_Value l"] sep by simp
  then show ?thesis by (simp add: rebuild_def)
qed

lemma of_char_upper: "97 \<le> (of_char c :: nat) \<and> (of_char c :: nat) \<le> 122 \<Longrightarrow> (of_char (upper_char c) :: nat) = of_char c - 32"
proof -
  assume r: "97 \<le> (of_char c :: nat) \<and> (of_char c :: nat) \<le> 122"
  then have "(of_char (upper_char c) :: nat) = (of_char c - 32) mod 256" by (simp add: upper_char_def of_char_of)
  moreover have "((of_char c :: nat) - 32) mod 256 = of_char c - 32" using r by (intro mod_less) linarith
  ultimately show ?thesis by simp
qed

lemma short_runs_upper: "short_runs s \<Longrightarrow> short_runs (ToUpper s)"
proof -
  have "is_cont (upper_char c) = is_cont c" for c
  proof (cases "97 \<le> (of_char c :: nat) \<and> (of_char c :: nat) \<le> 122")
    case True
    note of_char_upper [OF True]
    moreover have "(of_char c :: nat) div 64 \<noteq> 2" "((of_char c :: nat) - 32) div 64 \<noteq> 2" using True by auto
    ultimately show ?thesis by (simp add: is_cont_def)
  next
    case False
    then have "upper_char c = c" by (auto simp: upper_char_def Let_def)
    then show ?thesis by simp
  qed
  then have "is_cont (ToUpper s ! k) = is_cont (s ! k)" if "k < length s" for k using that by (simp add: ToUpper_def)
  moreover have "length (ToUpper s) = length s" by (simp add: ToUpper_def)
  moreover have "i + j < n" if "i + 4 \<le> n" "j < 4" for i j n :: nat using that by linarith
  ultimately show "short_runs s \<Longrightarrow> short_runs (ToUpper s)" unfolding short_runs_def by metis
qed

lemma rendered_returns: "list_all line_runs d \<Longrightarrow> \<exists>bs. doc_Bytes d = Some bs"
proof -
  have each: "\<exists>t. line_bytes d l = Some t" if "line_runs l" for d l
    using fold_loop_returns [OF rebuild_runs [OF that]] by (auto simp: line_bytes_def fold_line_def)
  have "list_all line_runs ls \<Longrightarrow> \<exists>bs. bytes_loop d b ls = Some bs" for b ls
  proof (induction ls arbitrary: b)
    case (Cons l ls)
    then obtain t where "line_bytes d l = Some t" using each [of l d] by auto
    then show ?case using Cons by simp
  qed simp
  then show "list_all line_runs d \<Longrightarrow> \<exists>bs. doc_Bytes d = Some bs" by (simp add: doc_Bytes_def)
qed

lemma parsed_runs: "short_runs (unfold_line (l_raw l)) \<Longrightarrow> splitLine (unfold_line (l_raw l)) = content l \<Longrightarrow> line_runs l"
proof -
  define u where "u = unfold_line (l_raw l)"
  assume r: "short_runs (unfold_line (l_raw l))" and c: "splitLine (unfold_line (l_raw l)) = content l"
  show "line_runs l"
  proof (cases "find_colon False u")
    case None
    then have "l_Group l = []" "l_Name l = ToUpper u" "l_Params l = []" "l_Value l = []"
      using c by (auto simp: splitLine_def u_def content_def)
    then show ?thesis using short_runs_upper [of u] r by (simp add: line_runs_def u_def) (simp add: short_runs_def)
  next
    case (Some hv)
    obtain h v where hv: "hv = (h, v)" by (cases hv)
    define pre where "pre = takeWhile (\<lambda>c. c \<noteq> CHR '';'') h"
    define ps where "ps = dropWhile (\<lambda>c. c \<noteq> CHR '';'') h"
    have u: "u = pre @ ps @ CHR '':'' # v" using find_colon_prefix [OF Some [unfolded hv]] by (simp add: pre_def ps_def)
    have "(l_Group l, l_Name l, l_Params l, l_Value l) = (case (case Cut (CHR ''.'') pre of None \<Rightarrow> ([], pre) | Some (g, h) \<Rightarrow> (g, h)) of
        (grp, head) \<Rightarrow> (grp, ToUpper head, ps, v))"
      using c unfolding splitLine_def u_def [symmetric] content_def Some hv option.case prod.case Let_def pre_def ps_def by (rule sym)
    then obtain g n where gn: "l_Group l = g" "l_Name l = ToUpper n" "l_Params l = ps" "l_Value l = v"
      "(g, n) = (case Cut (CHR ''.'') pre of None \<Rightarrow> ([], pre) | Some (g, h) \<Rightarrow> (g, h))"
      by (cases "Cut (CHR ''.'') pre") auto
    have s: "short_runs (pre @ ps @ CHR '':'' # v)" using r u by (simp add: u_def)
    have pre: "short_runs pre" using short_runs_infix [of "[]" pre] s by simp
    have "short_runs g \<and> short_runs n"
    proof (cases "Cut (CHR ''.'') pre")
      case None
      then show ?thesis using gn(5) pre by (simp add: short_runs_def)
    next
      case (Some ab)
      then have p: "pre = g @ CHR ''.'' # n" using gn(5) Cut_Some [of "CHR ''.''" pre g n] by (cases ab) simp
      show ?thesis
        using pre short_runs_infix [of "[]" g "CHR ''.'' # n"] short_runs_infix [of "g @ ''.''" n "[]"] unfolding p by simp
    qed
    moreover have "short_runs ps" "short_runs v"
      using s short_runs_infix [of pre ps] short_runs_infix [of "pre @ ps @ '':''" v "[]"] by simp_all
    moreover have "ps = [] \<or> hd ps = CHR '';''" using hd_dropWhile [of "\<lambda>c. c \<noteq> CHR '';''" h] by (auto simp: ps_def)
    ultimately show ?thesis using gn short_runs_upper by (simp add: line_runs_def)
  qed
qed

lemma Parse_content: "l \<in> set (Parse s) \<Longrightarrow> splitLine (unfold_line (l_raw l)) = content l"
  by (induction s rule: Parse_induct) (auto simp: Parse_step)

definition runs_ok :: "string \<Rightarrow> bool" where
  "runs_ok raw = list_all (\<lambda>l. short_runs (unfold_line (l_raw l))) (Parse raw)"

lemma Parse_runs: "runs_ok raw \<Longrightarrow> list_all line_runs (Parse raw)"
  using parsed_runs Parse_content by (simp add: runs_ok_def list_all_iff)

definition put_runs :: "put \<Rightarrow> bool" where
  "put_runs p = (case p of (n, ps, v) \<Rightarrow> short_runs n \<and> short_runs v \<and>
     (case ps of None \<Rightarrow> True | Some p \<Rightarrow> short_runs p \<and> (p = [] \<or> hd p = CHR '';'')))"

lemma do_put_runs:
  assumes d: "list_all line_runs (fst ob)" and p: "put_runs p"
  shows "list_all line_runs (fst (do_put p ob))"
proof -
  obtain d sp where ob: "ob = (d, sp)" by (cases ob)
  obtain n ps v where pp: "p = (n, ps, v)" by (cases p)
  have r: "list_all line_runs d" using d ob by simp
  have new: "line_runs ((NewLine (ToUpper n) (case ps of None \<Rightarrow> [] | Some p \<Rightarrow> p) v)\<lparr>l_eol := e, l_added := True\<rparr>)" for e
    using p pp short_runs_upper by (auto simp: put_runs_def line_runs_def NewLine_def short_runs_def split: option.splits)
  show ?thesis
  proof (cases "doc_Find d sp (ToUpper n)")
    case None
    then show ?thesis
      using r new by (auto simp: do_put_def ob pp doc_set_def doc_Insert_def Let_def list_all_iff dest: in_set_takeD in_set_dropD)
  next
    case (Some i)
    have "line_runs (d ! i)" using r doc_Find_Some(1) [OF Some] by (simp add: list_all_length)
    then have "line_runs ((d ! i)\<lparr>l_Value := v, l_Params := (case ps of None \<Rightarrow> l_Params (d ! i) | Some p \<Rightarrow> p), l_dirty := True\<rparr>)"
      using p pp by (auto simp: put_runs_def line_runs_def split: option.splits)
    moreover have "set (fst (doc_Remove d sp i)) \<subseteq> set d" using doc_Remove_set [of d sp i] by (cases "doc_Remove d sp i") auto
    ultimately show ?thesis
      using r Some by (auto simp: do_put_def ob pp doc_set_def list_all_iff dest!: set_update_subset_insert [THEN subsetD])
  qed
qed

lemma do_puts_runs: "list_all line_runs (fst ob) \<Longrightarrow> list_all put_runs ps \<Longrightarrow> list_all line_runs (fst (do_puts ps ob))"
  by (induction ps arbitrary: ob) (simp_all add: do_puts_def do_put_runs)

section \<open>Documents built line by line\<close>

definition plain_text :: "string \<Rightarrow> bool" where
  "plain_text t = (one_line t \<and> t \<noteq> [] \<and> hd t \<notin> {SP, TAB})"

lemma Parse_plain:
  assumes "list_all plain_text ts"
  shows "Parse (concat (map (\<lambda>t. t @ [CR, LF]) ts)) = map (\<lambda>t. mk_line t [CR, LF]) ts"
    "list_all line_ok (map (\<lambda>t. mk_line t [CR, LF]) ts)" "map content (map (\<lambda>t. mk_line t [CR, LF]) ts) = map splitLine ts"
proof -
  have l: "logical t" if "one_line t" for t
    using that by (simp add: logical_def nextLogicalLine_def last_line one_line_def)
  let ?xs = "map (\<lambda>t. (t, [CR, LF])) ts"
  have "list_all (\<lambda>(t, e). logical t \<and> e \<in> {[CR, LF], [LF]} \<and> (t = [] \<or> hd t \<notin> {SP, TAB})) ?xs"
    using assms l by (auto simp: list_all_iff plain_text_def)
  from Parse_lines [OF this] show "Parse (concat (map (\<lambda>t. t @ [CR, LF]) ts)) = map (\<lambda>t. mk_line t [CR, LF]) ts"
    by (simp add: o_def)
  show "list_all line_ok (map (\<lambda>t. mk_line t [CR, LF]) ts)"
    using assms l by (auto simp: list_all_iff plain_text_def line_ok_def parsed_ok_def)
  have "unfold_line t = t" if "one_line t" for t using that unfold_loop_id [of t] by (simp add: unfold_line_eq one_line_def)
  then show "map content (map (\<lambda>t. mk_line t [CR, LF]) ts) = map splitLine ts"
    using assms by (auto simp: list_all_iff plain_text_def)
qed

lemma splitLine_plain:
  assumes "name \<noteq> []" and "simple name" and "ToUpper name = name" and "one_line v"
  shows "splitLine (name @ CHR '':'' # v) = ([], name, [], v)" "plain_text (name @ CHR '':'' # v)"
proof -
  let ?l = "NewLine name [] v"
  have w: "written_ok ?l" using assms by (simp add: written_ok_def head_ok_def NewLine_def simple_def)
  have r: "rebuild ?l = name @ CHR '':'' # v" using assms(3) by (simp add: rebuild_def NewLine_def)
  show "splitLine (name @ CHR '':'' # v) = ([], name, [], v)"
    using splitLine_rebuild [OF w] assms(3) unfolding r by (simp add: content_def NewLine_def)
  show "plain_text (name @ CHR '':'' # v)" using rebuild_ok [OF w] unfolding r plain_text_def by blast
qed

end
