(* ===== verification/DateFormat_Facts.thy ===== *)
theory DateFormat_Facts
  imports DateFormat
begin

text \<open>
  What is written as a time is read back as it: every date of the calendar arithmetic is one its month
  has, and the fixed widths of the layouts hold every year from 0 to 9999.
\<close>

section \<open>Days of a month\<close>

lemma year_of_era_leap:
  assumes "year_of_era doe = (yoe, doy)" and "0 \<le> doe" and "doe \<le> 146096" and "doy = 365"
  shows "(yoe + 1) mod 4 = 0 \<and> ((yoe + 1) mod 100 \<noteq> 0 \<or> (yoe + 1) mod 400 = 0)"
proof -
  define c where "c = min (doe div 36524) 3"
  define r1 where "r1 = doe - c * 36524"
  define q where "q = r1 div 1461"
  define r2 where "r2 = r1 mod 1461"
  define k where "k = min (r2 div 365) 3"
  have e: "yoe = 100 * c + 4 * q + k" "doy = r2 - k * 365"
    using assms(1) by (simp_all add: year_of_era_def c_def r1_def q_def r2_def k_def Let_def)
  have c: "0 \<le> c" "c \<le> 3" "0 \<le> r1" "c < 3 \<Longrightarrow> r1 < 36524" "r1 \<le> 36524"
  proof -
    have "36524 * (doe div 36524) \<le> doe" "doe < 36524 * (doe div 36524) + 36524" using div_bounds [of 36524 doe] by simp_all
    then show "0 \<le> c" "c \<le> 3" "0 \<le> r1" "c < 3 \<Longrightarrow> r1 < 36524" "r1 \<le> 36524"
      unfolding r1_def c_def min_def using assms(2,3) by (auto split: if_splits)
  qed
  have "1461 * q \<le> r1" "r1 < 1461 * q + 1461" unfolding q_def using div_bounds [of 1461 r1] by simp_all
  moreover have "r2 = r1 - 1461 * q" unfolding q_def r2_def by (simp add: minus_mult_div_eq_mod)
  ultimately have q: "0 \<le> q" "q \<le> 24" "0 \<le> r2" "r2 \<le> 1460" "r1 = 1461 * q + r2"
    using c(3,5) by linarith+
  have "365 * (r2 div 365) \<le> r2" "r2 < 365 * (r2 div 365) + 365" using div_bounds [of 365 r2] by simp_all
  then have k: "k = 3" "r2 = 1460"
    using assms(4) e(2) q(3,4) unfolding k_def min_def by (auto split: if_splits)
  have y: "yoe + 1 = 100 * c + 4 * (q + 1)" using e(1) k by simp
  have "q = 24 \<Longrightarrow> c = 3" using q(5) k(2) c(2,4) by linarith
  then consider "q = 24" "c = 3" | "q \<le> 23" using q(2) by linarith
  then show ?thesis
  proof cases
    case 1
    then show ?thesis using y by simp
  next
    case 2
    have "yoe + 1 = 4 * (25 * c + (q + 1))" using y by simp
    then have "(yoe + 1) mod 4 = 0" by (metis mod_mult_self1_is_0)
    moreover have "(yoe + 1) mod 100 = 4 * (q + 1)"
    proof -
      have "(yoe + 1) mod 100 = (4 * (q + 1)) mod 100" unfolding y by (simp only: mod_mult_self4 mult.commute [of 100 c] mod_mult_self3)
      then show ?thesis using 2 q(1) by (simp add: mod_pos_pos_trivial)
    qed
    ultimately show ?thesis using q(1) by simp
  qed
qed

lemma civil_day_in_month:
  assumes "civil_of_days n = (y, m, d)"
  shows "1 \<le> m" "m \<le> 12" "1 \<le> d" "d \<le> daysIn m y" "days_of_civil y m d = n"
proof -
  show r: "1 \<le> m" "m \<le> 12" "1 \<le> d" "days_of_civil y m d = n" using civil_round_trip [of n] assms by auto
  define z where "z = n + 719468"
  obtain yoe doy where yd: "year_of_era (z mod 146097) = (yoe, doy)" by fastforce
  have zb: "0 \<le> z mod 146097" "z mod 146097 \<le> 146096" by simp_all
  note f = year_of_era_facts [OF yd zb]
  define mp where "mp = (5 * doy + 2) div 153"
  have civ: "d = doy - (153 * mp + 2) div 5 + 1" "m = (if mp < 10 then mp + 3 else mp - 9)"
    "y = yoe + (z div 146097) * 400 + (if m \<le> 2 then 1 else 0)"
    using assms unfolding civil_of_days_def Let_def z_def [symmetric] yd prod.case mp_def [symmetric] by auto
  have b: "153 * mp \<le> 5 * doy + 2" "5 * doy + 2 < 153 * mp + 153" unfolding mp_def using div_bounds [of 153] by simp_all
  then have "0 \<le> mp" "mp \<le> 11" using f(3,4) by linarith+
  then have "mp = 0 \<or> mp = 1 \<or> mp = 2 \<or> mp = 3 \<or> mp = 4 \<or> mp = 5 \<or> mp = 6 \<or> mp = 7 \<or> mp = 8 \<or> mp = 9 \<or> mp = 10 \<or> mp = 11"
    by presburger
  then consider "mp = 0" | "mp = 1" | "mp = 2" | "mp = 3" | "mp = 4" | "mp = 5" | "mp = 6" | "mp = 7" | "mp = 8" | "mp = 9"
    | "mp = 10" | "mp = 11" by blast
  then show "d \<le> daysIn m y"
  proof cases
    case 12
    have d: "d = doy - 336" "m = 2" using civ(1,2) 12 by simp_all
    show ?thesis
    proof (cases "doy = 365")
      case True
      have y: "y = yoe + 1 + 400 * (z div 146097)" using civ(3) d(2) by simp
      have "is_leap y"
        using year_of_era_leap [OF yd zb True] mod_mult_self2 [of "yoe + 1" 4 "100 * (z div 146097)"]
          mod_mult_self2 [of "yoe + 1" 100 "4 * (z div 146097)"] mod_mult_self2 [of "yoe + 1" 400 "z div 146097"]
        unfolding is_leap_def y by simp
      then show ?thesis using d True by (simp add: daysIn_def)
    next
      case False
      then show ?thesis using d f(4) by (simp add: daysIn_def)
    qed
  qed (use b civ in \<open>simp_all add: daysIn_def\<close>)
qed

lemma Date_civil:
  assumes "civil_of_days (t div 86400) = (y, m, d)"
  shows "Date y m d (t mod 86400) = t"
proof -
  note c = civil_day_in_month [OF assms]
  have "days_of_civil y m 1 + (d - 1) = days_of_civil y m d" by (simp add: days_of_civil_def Let_def)
  moreover have "(m - 1) div 12 = 0" "(m - 1) mod 12 + 1 = m" using c(1,2) by auto
  moreover have "(days_of_civil y m 1 + (d - 1)) * 86400 + t mod 86400 = t"
    using calculation(1) c(5) by (simp only: div_mult_mod_eq)
  ultimately show ?thesis by (simp add: Date_def algebra_simps)
qed

section \<open>Digits\<close>

lemma itoa_width: "n < 10 ^ w \<Longrightarrow> 0 < w \<Longrightarrow> length (itoa n) \<le> w"
proof (induction n arbitrary: w rule: itoa.induct)
  case (1 n)
  show ?case
  proof (cases "n < 10")
    case True
    then show ?thesis using 1(3) by (subst itoa.simps) simp
  next
    case False
    then obtain v where w: "w = Suc v" "0 < v" using 1(2) by (cases w; cases "w - 1") auto
    then have "n div 10 < 10 ^ v" using 1(2) by (simp add: less_mult_imp_div_less)
    then show ?thesis using 1(1) [OF False] w False by (subst itoa.simps) simp
  qed
qed

lemma digits_val_zeros: "digits_val 0 (replicate k (CHR ''0'') @ s) = digits_val 0 s"
  by (induction k) (simp_all add: digit_val_def)

lemma pad_width: "n < 10 ^ w \<Longrightarrow> 0 < w \<Longrightarrow> length (pad w (itoa n)) = w"
  using itoa_width [of n w] by simp

lemma take_digits_pad:
  assumes "0 \<le> v" and "v < 10 ^ w" and "0 < w"
  shows "take_digits w (pad w (FormatInt v) @ s) = Some (v, s)"
proof -
  have n: "nat v < 10 ^ w" using assms(1,2) by (metis nat_less_iff of_nat_numeral of_nat_power)
  have f: "FormatInt v = itoa (nat v)" using assms(1) by (simp add: FormatInt_def)
  note l = pad_width [OF n assms(3)]
  have "digits_val 0 (pad w (itoa (nat v))) = Some (nat v)"
    using digits_val_itoa_acc [of "nat v"] by (simp add: digits_val_zeros)
  then show ?thesis using l assms(1) by (simp add: take_digits_def f del: pad.simps)
qed

lemma getnum_pad:
  assumes "0 \<le> v" and "v < 100"
  shows "getnum (pad 2 (FormatInt v) @ s) = Some (v, s)"
proof -
  have t: "take_digits 2 (pad 2 (FormatInt v) @ s) = Some (v, s)" using take_digits_pad [of v 2 s] assms by simp
  obtain a b where ab: "pad 2 (FormatInt v) = [a, b]"
  proof -
    have "nat v < 10 ^ 2" using assms by simp
    then have "length (pad 2 (itoa (nat v))) = 2" using pad_width [of "nat v" 2] by linarith
    then show ?thesis using that assms(1) by (auto simp: FormatInt_def length_Suc_conv numeral_2_eq_2 simp del: pad.simps)
  qed
  show ?thesis
    using t unfolding ab by (auto simp: take_digits_def getnum_def split: option.splits)
qed

section \<open>Times\<close>

definition year_ok :: "time \<Rightarrow> bool" where
  "year_ok t = (case civil_of_days (t div 86400) of (y, _, _) \<Rightarrow> 0 \<le> y \<and> y \<le> 9999)"

lemma format_date_read:
  assumes "year_ok t" and "civil_of_days (t div 86400) = (y, m, d)"
  shows "format_date t = pad 4 (FormatInt y) @ pad 2 (FormatInt m) @ pad 2 (FormatInt d)" "0 \<le> y" "y < 10 ^ 4"
  using assms by (auto simp: year_ok_def format_date_def year_text_def)

lemma parse_written:
  assumes "0 \<le> y" "y < 10 ^ 4" "1 \<le> mo" "mo \<le> 12" "1 \<le> d" "d \<le> daysIn mo y"
    and "0 \<le> h" "h < 24" "0 \<le> mi" "mi < 60" "0 \<le> sec" "sec < 60"
  shows "parse_instant ((pad 4 (FormatInt y) @ pad 2 (FormatInt mo) @ pad 2 (FormatInt d)) @ ''T'' @
      (pad 2 (FormatInt h) @ pad 2 (FormatInt mi) @ pad 2 (FormatInt sec)) @ ''Z'') =
    Some (Date y mo d (h * 3600 + mi * 60 + sec) * second)"
proof -
  have d31: "d < 10 ^ 2" using assms(6) by (auto simp: daysIn_def split: if_splits)
  have cut: "CutPrefix (CHR ''T'' # s) ''T'' = Some s" "''T'' @ s = CHR ''T'' # s" for s by (simp_all add: CutPrefix_def HasPrefix_def)
  note td = take_digits_pad [of y 4] take_digits_pad [of mo 2] take_digits_pad [of d 2] take_digits_pad [of mi 2] take_digits_pad [of sec 2]
  show ?thesis
    unfolding parse_instant_def append_assoc
    by (simp only: td getnum_pad cut option.case prod.case assms d31)
      (use assms d31 in \<open>simp add: td getnum_pad cut take_fraction_def del: pad.simps\<close>)
qed

lemma format_parse_utc:
  assumes "year_ok t"
  shows "parse_instant (format_utc t) = Some (t * second)"
proof -
  obtain y m d where c: "civil_of_days (t div 86400) = (y, m, d)" by (cases "civil_of_days (t div 86400)")
  note v = civil_day_in_month [OF c] and f = format_date_read [OF assms c]
  let ?s = "t mod 86400"
  have s: "0 \<le> ?s div 3600" "?s div 3600 < 24" "0 \<le> ?s div 60 mod 60" "?s div 60 mod 60 < 60" "0 \<le> ?s mod 60" "?s mod 60 < 60"
    by auto
  have e: "h * 3600 + (r div 60 mod 60) * 60 + r mod 60 = r" if "h = r div 3600" for h r :: int
  proof -
    have "r div 3600 = r div 60 div 60" using zdiv_zmult2_eq [of 60 r 60] by simp
    then show ?thesis using that mult_div_mod_eq [of 60 r] mult_div_mod_eq [of 60 "r div 60"] by linarith
  qed
  have f2: "format_utc t = (pad 4 (FormatInt y) @ pad 2 (FormatInt m) @ pad 2 (FormatInt d)) @ ''T'' @
      (pad 2 (FormatInt (?s div 3600)) @ pad 2 (FormatInt (?s div 60 mod 60)) @ pad 2 (FormatInt (?s mod 60))) @ ''Z''"
    unfolding format_utc_def format_wall_def format_clock_def f(1) Let_def by (simp only: append_assoc)
  show ?thesis
    unfolding f2 parse_written [OF f(2,3) v(1-4) s] e [OF refl] Date_civil [OF c] by (rule refl)
qed

end
