(* ===== verification/ICal_Times.thy ===== *)
theory ICal_Times
  imports ICal_Edit Document_Edit DateFormat_Facts
begin

text \<open>
  Durations and times of an event: what is written as one reads back as it.
\<close>

section \<open>Durations\<close>

lemma TrimSpace_id: "s = [] \<or> \<not> is_space (hd s) \<and> \<not> is_space (last s) \<Longrightarrow> TrimSpace s = s"
proof -
  assume a: "s = [] \<or> \<not> is_space (hd s) \<and> \<not> is_space (last s)"
  have d: "dropWhile is_space t = t" if "t = [] \<or> \<not> is_space (hd t)" for t using that by (cases t) auto
  have "dropWhile is_space s = s" using a d by blast
  moreover have "dropWhile is_space (rev s) = rev s" using a by (intro d) (auto simp: hd_rev)
  ultimately show ?thesis by (simp add: TrimSpace_def)
qed

lemma TrimSpace_none: "(\<And>c. c \<in> set s \<Longrightarrow> \<not> is_space c) \<Longrightarrow> TrimSpace s = s"
  by (rule TrimSpace_id) (metis hd_in_set last_in_set)

lemma itoa_is_digit: "list_all is_digit (itoa n)"
  using is_digit_itoa by (simp add: list_all_iff)

lemma duration_digits:
  "list_all is_digit ds \<Longrightarrow> duration_loop k inT acc (ds @ s) = duration_loop (k @ ds) inT acc s"
proof (induction ds arbitrary: k)
  case (Cons c ds)
  have "c \<noteq> CHR ''T''" using Cons.prems by (auto simp: is_digit_def digit_val_def Let_def)
  then show ?case using Cons by simp
qed simp

lemma scan_int_itoa:
  assumes "int n < 2 ^ 63"
  shows "scan_int (itoa n) = Some (int n, [])"
proof -
  obtain c t where ct: "itoa n = c # t" by (cases "itoa n") auto
  then have c: "c \<noteq> CHR ''-''" "c \<noteq> CHR ''+''" using digit_not_space [of c] is_digit_itoa [of c n] by auto
  have "skip_space (itoa n) = Some (itoa n)" using skip_space_itoa [of n "[]"] by simp
  moreover have "takeWhile (\<lambda>c. c = CHR ''-'' \<or> c = CHR ''+'') (take 1 (itoa n)) = []" using ct c by simp
  moreover have "ParseInt (itoa n) = Some (int n)" using ParseInt_FormatInt [of "int n"] assms by (simp add: FormatInt_def)
  moreover have "takeWhile is_digit (itoa n) = itoa n" "dropWhile is_digit (itoa n) = []" using takeWhile_itoa [of "[]" n] by simp_all
  ultimately show ?thesis unfolding scan_int_def option.case Let_def by (simp del: takeWhile_eq_all_conv dropWhile_eq_Nil_conv)
qed

definition unit_value :: "bool \<Rightarrow> char \<Rightarrow> int option" where
  "unit_value inT u =
     (if u = CHR ''W'' then Some (7 * 24 * 3600 * second) else if u = CHR ''D'' then Some (24 * 3600 * second)
      else if u = CHR ''H'' then Some (3600 * second) else if u = CHR ''M'' then (if inT then Some (60 * second) else None)
      else if u = CHR ''S'' then Some second else None)"

lemma duration_unit:
  assumes u: "unit_value inT u = Some k" and n: "0 \<le> n" "acc + n * k < 2 ^ 63" and a: "0 \<le> acc"
  shows "duration_loop [] inT acc (unit_part n [u] @ s) = duration_loop [] inT (acc + n * k) s"
proof (cases "n > 0")
  case True
  have k: "1 \<le> k" using u by (auto simp: unit_value_def split: if_splits)
  have "n * 1 \<le> n * k" using n k by (intro mult_left_mono) auto
  then have "n < 2 ^ 63" "0 \<le> n * k" using n a by linarith+
  then have n63: "int (nat n) < 2 ^ 63" "0 \<le> n * k" using n by simp_all
  have nd: "u \<noteq> CHR ''T''" "\<not> is_digit u" using u by (auto simp: unit_value_def is_digit_def digit_val_def Let_def split: if_splits)
  have w: "wrap64 (acc + n * k) = acc + n * k" using n a n63 by (intro wrap64_id) auto
  have "unit_part n [u] @ s = itoa (nat n) @ u # s" using True by (simp add: unit_part_def FormatInt_def)
  then have "duration_loop [] inT acc (unit_part n [u] @ s) = duration_loop (itoa (nat n)) inT acc (u # s)"
    using duration_digits [OF itoa_is_digit] by simp
  also have "\<dots> = duration_loop [] inT (acc + n * k) s"
    using nd w True n scan_int_itoa [OF n63(1)] u by (auto simp: unit_value_def split: if_splits)
  finally show ?thesis .
next
  case False
  then show ?thesis using n by (simp add: unit_part_def)
qed

lemma unit_part_no_space: "\<not> is_space u \<Longrightarrow> c \<in> set (unit_part n [u]) \<Longrightarrow> \<not> is_space c"
  using digit_not_space is_digit_itoa by (auto simp: unit_part_def FormatInt_def split: if_splits)

lemma formatDuration_read:
  assumes d: "0 < d" "d < 2 ^ 63"
  shows "parseDuration (formatDuration d) = Inr (d div second * second)"
proof -
  let ?day = "24 * 3600 * second"
  define r1 where "r1 = d mod ?day"
  define r2 where "r2 = r1 mod (3600 * second)"
  define r3 where "r3 = r2 mod (60 * second)"
  define q0 where "q0 = d div ?day"
  define q1 where "q1 = r1 div (3600 * second)"
  define q2 where "q2 = r2 div (60 * second)"
  define q3 where "q3 = r3 div second"
  define t where "t = (if r1 = 0 then [] else ''T'' @ unit_part q1 ''H'' @ unit_part q2 ''M'' @ unit_part q3 ''S'')"
  have f: "formatDuration d = ''P'' @ unit_part q0 ''D'' @ t"
    using d by (simp add: formatDuration_def t_def r1_def r2_def r3_def q0_def q1_def q2_def q3_def Let_def)
  have e: "d = q0 * ?day + r1" "r1 = q1 * (3600 * second) + r2" "r2 = q2 * (60 * second) + r3" "r3 = q3 * second + r3 mod second"
    unfolding r1_def r2_def r3_def q0_def q1_def q2_def q3_def by (simp_all only: div_mult_mod_eq)
  have r: "0 \<le> r1" "0 \<le> r2" "0 \<le> r3" "0 \<le> r3 mod second" "r3 mod second < second"
    unfolding r1_def r2_def r3_def by (simp_all del: mod_mod_trivial)
  have q: "0 \<le> q0" "0 \<le> q1" "0 \<le> q2" "0 \<le> q3"
    using d r unfolding q0_def q1_def q2_def q3_def by (simp_all add: pos_imp_zdiv_nonneg_iff)
  have whole: "d div second * second = d - r3 mod second"
  proof -
    have "d = second * (q0 * 86400 + q1 * 3600 + q2 * 60 + q3) + r3 mod second" using e by (simp add: distrib_left)
    then have "d div second = q0 * 86400 + q1 * 3600 + q2 * 60 + q3" using r(4,5) by (intro int_div_pos_eq) auto
    then show ?thesis using e by linarith
  qed
  note step = duration_unit [OF _ q(1), of False "CHR ''D''" ?day 0 t]
    duration_unit [OF _ q(2), of True "CHR ''H''" "3600 * second" "q0 * ?day"]
    duration_unit [OF _ q(3), of True "CHR ''M''" "60 * second" "q0 * ?day + q1 * (3600 * second)"]
    duration_unit [OF _ q(4), of True "CHR ''S''" second "q0 * ?day + q1 * (3600 * second) + q2 * (60 * second)" "[]"]
  have u: "unit_value False (CHR ''D'') = Some ?day" "unit_value True (CHR ''H'') = Some (3600 * second)"
    "unit_value True (CHR ''M'') = Some (60 * second)" "unit_value True (CHR ''S'') = Some second"
    by (simp_all add: unit_value_def)
  have b: "0 + q0 * ?day < 2 ^ 63" "q0 * ?day + q1 * (3600 * second) < 2 ^ 63"
    "q0 * ?day + q1 * (3600 * second) + q2 * (60 * second) < 2 ^ 63"
    "q0 * ?day + q1 * (3600 * second) + q2 * (60 * second) + q3 * second < 2 ^ 63"
    "0 \<le> q0 * ?day" "0 \<le> q0 * ?day + q1 * (3600 * second)" "0 \<le> q0 * ?day + q1 * (3600 * second) + q2 * (60 * second)"
    using e r q d by linarith+
  have loop: "duration_loop [] False 0 (unit_part q0 ''D'' @ t) = Inr (d div second * second)"
  proof (cases "r1 = 0")
    case True
    then have "q1 * (3600 * second) = 0 \<and> q2 * (60 * second) = 0 \<and> r3 = 0" using e r q by linarith
    then have "d div second * second = q0 * ?day" using whole e True by simp
    then show ?thesis using step(1) [OF u(1) b(1)] True by (simp add: t_def)
  next
    case False
    have "duration_loop [] False 0 (unit_part q0 ''D'' @ t) = duration_loop [] True (q0 * ?day) (unit_part q1 ''H'' @ unit_part q2 ''M'' @ unit_part q3 ''S'')"
      using step(1) [OF u(1) b(1)] False by (simp add: t_def)
    also have "\<dots> = Inr (q0 * ?day + q1 * (3600 * second) + q2 * (60 * second) + q3 * second)"
      using step(2) [OF u(2) b(2,5)] step(3) [OF u(3) b(3,6)] step(4) [OF u(4) b(4,7)] by simp
    finally show ?thesis using whole e by simp
  qed
  have sp: "\<not> is_space (CHR ''P'')" "\<not> is_space (CHR ''T'')" "\<not> is_space (CHR ''D'')" "\<not> is_space (CHR ''H'')"
    "\<not> is_space (CHR ''M'')" "\<not> is_space (CHR ''S'')" by (simp_all add: is_space_def)
  have "\<not> is_space c" if "c \<in> set (formatDuration d)" for c
    using that sp(1,2) unit_part_no_space [OF sp(3)] unit_part_no_space [OF sp(4)] unit_part_no_space [OF sp(5)] unit_part_no_space [OF sp(6)]
    unfolding f t_def by (auto split: if_splits)
  then have "TrimSpace (formatDuration d) = formatDuration d" by (rule TrimSpace_none)
  then show ?thesis using loop by (simp add: parseDuration_def f HasPrefix_def TrimLeft_def Let_def)
qed

text \<open>
  A duration that is written is read as the same number of seconds; nothing and less is written as zero.
\<close>

theorem duration_round_trip:
  assumes "d < 2 ^ 63"
  shows "parseDuration (formatDuration d) = Inr (max 0 (d div second * second))"
proof (cases "0 < d")
  case True
  then show ?thesis using formatDuration_read [OF True assms] by (simp add: pos_imp_zdiv_nonneg_iff max_def)
next
  case False
  have "parseDuration ''PT0S'' = Inr 0" by code_simp
  moreover have "d div second * second \<le> 0" using False by (simp add: div_nonpos_pos_le0 mult_nonpos_nonneg)
  ultimately show ?thesis using False by (simp add: formatDuration_def max_def)
qed

theorem duration_round_trip_witness: "parseDuration (formatDuration 93784000000000) = Inr 93784000000000"
  using duration_round_trip [of 93784000000000] by simp

section \<open>Times\<close>

text \<open>The characters of a written time.\<close>

definition time_char :: "char \<Rightarrow> bool" where
  "time_char c = (is_digit c \<or> c = CHR ''-'' \<or> c = CHR ''T'' \<or> c = CHR ''Z'')"

lemma pad_char: "c \<in> set (pad w s) \<Longrightarrow> c = CHR ''0'' \<or> c \<in> set s"
  by auto

lemma zero_digit: "is_digit (CHR ''0'')"
  by code_simp

lemma FormatInt_char: "c \<in> set (FormatInt n) \<Longrightarrow> is_digit c \<or> c = CHR ''-''"
  using is_digit_itoa by (auto simp: FormatInt_def split: if_splits)

lemma pad_time_char: "c \<in> set (pad w (FormatInt n)) \<Longrightarrow> is_digit c \<or> c = CHR ''-''"
  using pad_char [of c w] FormatInt_char [of c n] zero_digit by blast

lemma format_date_char: "c \<in> set (format_date t) \<Longrightarrow> is_digit c \<or> c = CHR ''-''"
  using pad_time_char
  by (auto simp: format_date_def year_text_def simp del: pad.simps split: prod.splits if_splits)

lemma format_clock_char: "c \<in> set (format_clock t) \<Longrightarrow> is_digit c \<or> c = CHR ''-''"
  using pad_time_char by (auto simp: format_clock_def Let_def simp del: pad.simps)

lemma format_wall_char: "c \<in> set (format_wall t) \<Longrightarrow> time_char c"
  using format_date_char [of c t] format_clock_char [of c t] by (auto simp: format_wall_def time_char_def)

lemma format_utc_char: "c \<in> set (format_utc t) \<Longrightarrow> time_char c"
  using format_wall_char [of c t] by (auto simp: format_utc_def time_char_def)

lemma time_char_plain: "time_char c \<Longrightarrow> \<not> is_space c \<and> \<not> is_crlf c \<and> \<not> is_cont c \<and> c \<noteq> BACKSLASH \<and> c \<noteq> CHR '','' \<and> c \<noteq> CHR '';'' \<and> c \<noteq> CR"
  by (auto simp: time_char_def is_digit_def digit_val_def is_space_def is_crlf_def is_cont_def Let_def split: if_splits)

lemma format_date_length: "year_ok t \<Longrightarrow> length (format_date t) = 8"
proof -
  assume y: "year_ok t"
  obtain yy m d where c: "civil_of_days (t div 86400) = (yy, m, d)" by (cases "civil_of_days (t div 86400)")
  note v = civil_day_in_month [OF c] and f = format_date_read [OF y c]
  have "d < 10 ^ 2" using v(4) by (auto simp: daysIn_def split: if_splits)
  then have "length (pad 4 (FormatInt yy)) = 4" "length (pad 2 (FormatInt m)) = 2" "length (pad 2 (FormatInt d)) = 2"
    using pad_width [of "nat yy" 4] pad_width [of "nat m" 2] pad_width [of "nat d" 2] f(2,3) v(1-3) by (simp_all add: FormatInt_def del: pad.simps)
  then show ?thesis by (simp add: f(1) del: pad.simps)
qed

lemma format_clock_length: "length (format_clock t) = 6"
proof -
  have w: "length (pad 2 (FormatInt v)) = 2" if "0 \<le> v" "v < 100" for v
    using pad_width [of "nat v" 2] that by (simp add: FormatInt_def del: pad.simps)
  have "0 \<le> t mod 86400 div 3600" "t mod 86400 div 3600 < 100" by auto
  then show ?thesis using w by (simp add: format_clock_def Let_def del: pad.simps)
qed

lemma format_clock_midnight: "t mod 86400 = 0 \<Longrightarrow> format_clock t = ''000000''"
proof -
  have "pad 2 (FormatInt 0) = ''00''" by code_simp
  then show "t mod 86400 = 0 \<Longrightarrow> format_clock t = ''000000''" by (simp add: format_clock_def del: pad.simps)
qed

text \<open>What \<open>readTime\<close> makes of a property.\<close>

definition read_time :: "string \<Rightarrow> string \<Rightarrow> ical_error + instant \<times> bool \<times> string" where
  "read_time p v =
     (let v = TrimSpace v;
          zone = Param p ''TZID'';
          read = (\<lambda>text allDay zone. case parse_instant text of None \<Rightarrow> Inl UnreadableTime | Some t \<Rightarrow> Inr (t, allDay, zone))
      in if length v = 8 then read (v @ ''T000000Z'') True zone
         else if HasSuffix v ''Z'' then read v False []
         else if length v = 15 then read (v @ ''Z'') False zone
         else Inl UnreadableTime)"

lemma readTime_props:
  "readTime (d, sp) name = (case props (d, sp) name of None \<Rightarrow> Inl NoTime | Some (p, v) \<Rightarrow> read_time p v)"
  by (simp add: readTime_def read_time_def props_def line_prop_def At_def Let_def split: option.split)

text \<open>Times a form hands over: whole seconds of an ordinary year, whole days for an event of days.\<close>

definition time_ok :: "bool \<Rightarrow> instant \<Rightarrow> bool" where
  "time_ok allDay t = (t mod second = 0 \<and> zeroInstant < t \<and> year_ok (t div second) \<and> (allDay \<longrightarrow> t div second mod 86400 = 0))"

definition zone_ok :: "string \<Rightarrow> bool" where
  "zone_ok zone = list_all (\<lambda>c. c \<notin> {CHR '';'', CHR '':'', DQUOTE, CR, LF}) zone"

lemma Param_zone:
  assumes "zone_ok zone"
  shows "Param ('';TZID='' @ zone) ''TZID'' = zone"
proof -
  have n: "CHR '';'' \<notin> set (''TZID='' @ zone)" using assms by (auto simp: zone_ok_def list_all_iff)
  have c: "Cut (CHR ''='') (''TZID='' @ zone) = Some (''TZID'', zone)" by (simp add: Cut_def)
  have e: "EqualFold ''TZID'' ''TZID''" by (simp add: EqualFold_def)
  have "DQUOTE \<notin> set zone" using assms by (auto simp: zone_ok_def list_all_iff)
  then have "dropWhile (\<lambda>c. c \<in> set [DQUOTE]) s = s" if "set s \<subseteq> set zone" for s using that by (cases s) auto
  then have t: "Trim zone [DQUOTE] = zone" by (simp add: Trim_def TrimLeft_def TrimRight_def)
  have "TrimPrefix ('';TZID='' @ zone) '';'' = ''TZID='' @ zone" by (simp add: TrimPrefix_def HasPrefix_def)
  then have "Param ('';TZID='' @ zone) ''TZID'' = (case List.find (\<lambda>part. case Cut (CHR ''='') part of None \<Rightarrow> False | Some (k, _) \<Rightarrow> EqualFold k ''TZID'')
             [''TZID='' @ zone] of None \<Rightarrow> [] | Some part \<Rightarrow> (case Cut (CHR ''='') part of None \<Rightarrow> [] | Some (_, v) \<Rightarrow> Trim v [DQUOTE]))"
    unfolding Param_def using Split_no_sep [OF n] by simp
  then show ?thesis using c e t by simp
qed

lemma params_ok_zone:
  assumes "zone_ok zone"
  shows "params_ok ('';TZID='' @ zone)"
proof -
  have "find_colon False (('';TZID='' @ zone) @ CHR '':'' # v) = Some ('';TZID='' @ zone, v)" for v
    using find_colon_simple [of "'';TZID='' @ zone" False "CHR '':'' # v"] assms by (simp add: zone_ok_def list_all_iff)
  then show ?thesis using assms by (auto simp: params_ok_def zone_ok_def list_all_iff is_crlf_def)
qed

lemma params_ok_date: "params_ok '';VALUE=DATE''"
  by (simp add: params_ok_def is_crlf_def)

lemma written_time:
  assumes f: "formatTime t allDay zone = (p, v)" and t: "time_ok allDay t" and z: "zone_ok zone"
  shows "read_time p v = Inr (t, allDay, if allDay then [] else zone)" "params_ok p" "v \<noteq> []" "\<forall>c \<in> set v. time_char c"
proof -
  let ?s = "t div second"
  have s: "?s * second = t" "year_ok ?s" using t by (auto simp: time_ok_def)
  have utc: "parse_instant (format_utc ?s) = Some t" using format_parse_utc [OF s(2)] s(1) by simp
  have len: "length (format_date ?s) = 8" "length (format_wall ?s) = 15" "length (format_utc ?s) = 16"
    using format_date_length [OF s(2)] format_clock_length by (simp_all add: format_wall_def format_utc_def)
  have tc: "\<forall>c \<in> set (format_date ?s). time_char c" "\<forall>c \<in> set (format_wall ?s). time_char c" "\<forall>c \<in> set (format_utc ?s). time_char c"
    using format_date_char format_wall_char format_utc_char by (auto simp: time_char_def)
  note trim = TrimSpace_none [of "format_date ?s"] TrimSpace_none [of "format_wall ?s"] TrimSpace_none [of "format_utc ?s"]
  have nz: "\<not> HasSuffix (format_wall ?s) ''Z''"
  proof -
    have ne: "format_clock ?s \<noteq> []" using format_clock_length [of ?s] by auto
    then have "is_digit (last (format_clock ?s)) \<or> last (format_clock ?s) = CHR ''-''" using format_clock_char last_in_set by blast
    then have "last (format_wall ?s) \<noteq> CHR ''Z''" using ne by (auto simp: format_wall_def is_digit_def digit_val_def Let_def)
    then show ?thesis by (cases "format_wall ?s" rule: rev_cases) (auto simp: HasSuffix_def)
  qed
  have "read_time p v = Inr (t, allDay, if allDay then [] else zone) \<and> params_ok p \<and> v \<noteq> [] \<and> (\<forall>c \<in> set v. time_char c)"
  proof (cases allDay)
    case True
    have pv: "p = '';VALUE=DATE''" "v = format_date ?s" using f True by (simp_all add: formatTime_def)
    have "format_date ?s @ ''T000000Z'' = format_utc ?s"
      using format_clock_midnight [of ?s] t True by (simp add: format_utc_def format_wall_def time_ok_def)
    moreover have "Param '';VALUE=DATE'' ''TZID'' = []" by code_simp
    ultimately show ?thesis using pv len trim tc utc time_char_plain True params_ok_date by (auto simp: read_time_def)
  next
    case False
    show ?thesis
    proof (cases "zone = []")
      case True
      have pv: "p = []" "v = format_utc ?s" using f True False by (simp_all add: formatTime_def)
      have "HasSuffix (format_utc ?s) ''Z''" by (simp add: HasSuffix_def format_utc_def)
      then show ?thesis using pv len trim(3) tc utc time_char_plain False True by (auto simp: read_time_def)
    next
      case zone: False
      have pv: "p = '';TZID='' @ zone" "v = format_wall ?s" using f zone False by (simp_all add: formatTime_def)
      have "parse_instant (format_wall ?s @ ''Z'') = Some t" using utc by (simp add: format_utc_def)
      moreover have "TrimSpace (format_wall ?s) = format_wall ?s" using trim(2) tc(2) time_char_plain by blast
      ultimately have "read_time p v = Inr (t, False, zone)"
        using pv len nz Param_zone [OF z] unfolding read_time_def Let_def by simp
      then show ?thesis using pv len tc(2) False params_ok_zone [OF z] by auto
    qed
  qed
  then show "read_time p v = Inr (t, allDay, if allDay then [] else zone)" "params_ok p" "v \<noteq> []" "\<forall>c \<in> set v. time_char c"
    by simp_all
qed

end
