(* ===== verification/ICal_Facts.thy ===== *)
theory ICal_Facts
  imports ICal_Times
begin

text \<open>
  What editing an event promises: the event that was written is the one read back, every line the form
  does not know keeps its place and its contents, and the edit returns.
\<close>

section \<open>The edit as a series of properties\<close>

definition event_names :: "string list" where
  "event_names = [''SUMMARY'', ''LOCATION'', ''DESCRIPTION'', ''DTSTART'', ''DTEND'', ''DURATION'', ''DTSTAMP'', ''LAST-MODIFIED'', ''SEQUENCE'']"

lemma event_names_upper: "list_all (\<lambda>n. ToUpper n = n \<and> edit_key n) event_names"
  by code_simp

lemma event_upper:
  "ToUpper ''SUMMARY'' = ''SUMMARY''"
  "ToUpper ''LOCATION'' = ''LOCATION''"
  "ToUpper ''DESCRIPTION'' = ''DESCRIPTION''"
  "ToUpper ''DTSTART'' = ''DTSTART''"
  "ToUpper ''DTEND'' = ''DTEND''"
  "ToUpper ''DURATION'' = ''DURATION''"
  "ToUpper ''DTSTAMP'' = ''DTSTAMP''"
  "ToUpper ''LAST-MODIFIED'' = ''LAST-MODIFIED''"
  "ToUpper ''SEQUENCE'' = ''SEQUENCE''"
  "ToUpper ''UID'' = ''UID''"
  "ToUpper ''RRULE'' = ''RRULE''"
  by code_simp+

definition end_put :: "Event \<Rightarrow> bool \<Rightarrow> put" where
  "end_put e dur =
     (if dur then (''DURATION'', None, Escape (formatDuration (Sub (ev_End e) (ev_Start e))))
      else case formatTime (ev_End e) (ev_AllDay e) (ev_Timezone e) of (ps, v) \<Rightarrow> (''DTEND'', Some ps, v))"

definition first_puts :: "Event \<Rightarrow> put list" where
  "first_puts e =
     [(''SUMMARY'', None, Escape (ev_Summary e)), (''LOCATION'', None, Escape (ev_Location e)),
      (''DESCRIPTION'', None, Escape (ev_Description e)),
      (case formatTime (ev_Start e) (ev_AllDay e) (ev_Timezone e) of (ps, v) \<Rightarrow> (''DTSTART'', Some ps, v))]"

definition stamp_puts :: "instant \<Rightarrow> put list" where
  "stamp_puts now = (let v = Escape (format_utc (now div second)) in [(''DTSTAMP'', None, v), (''LAST-MODIFIED'', None, v)])"

definition sequence_put :: "string \<Rightarrow> put" where
  "sequence_put current = (''SEQUENCE'', None, Escape (FormatInt (next_sequence current)))"

definition event_puts :: "Event \<Rightarrow> instant \<Rightarrow> bool \<Rightarrow> string \<Rightarrow> put list" where
  "event_puts e now dur current = first_puts e @ end_put e dur # stamp_puts now @ [sequence_put current]"

lemma edit_event_puts:
  "edit_event e now ob =
     do_puts (event_puts e now (props (do_puts (first_puts e) ob) ''DURATION'' \<noteq> None)
        (let ob = do_puts (first_puts e @ end_put e (props (do_puts (first_puts e) ob) ''DURATION'' \<noteq> None) # stamp_puts now) ob
         in doc_Value (fst ob) (snd ob) ''SEQUENCE'')) ob"
proof -
  obtain ps v where start: "formatTime (ev_Start e) (ev_AllDay e) (ev_Timezone e) = (ps, v)" by fastforce
  define ob4 where "ob4 = do_puts (first_puts e) ob"
  have set: "(\<lambda>(d, sp). doc_Set d sp name v) ob = do_put (name, None, Escape v) ob" for name v ob
    by (simp add: do_put_def doc_Set_def split: prod.splits)
  have o4: "(\<lambda>(d, sp). doc_SetWithParams d sp ''DTSTART'' ps v)
      (do_put (''DESCRIPTION'', None, Escape (ev_Description e)) (do_put (''LOCATION'', None, Escape (ev_Location e))
        (do_put (''SUMMARY'', None, Escape (ev_Summary e)) ob))) = ob4"
    by (simp add: ob4_def first_puts_def start do_puts_simps do_put_def doc_SetWithParams_def split: prod.splits)
  have w: "write_end e ob = do_put (end_put e (props ob ''DURATION'' \<noteq> None)) ob" for ob
    by (cases ob) (auto simp: write_end_def end_put_def do_put_def doc_Set_def doc_SetWithParams_def props_def split: prod.splits)
  have b: "bumpSequence ob = do_put (sequence_put (doc_Value (fst ob) (snd ob) ''SEQUENCE'')) ob" for ob
    by (simp add: bumpSequence_def sequence_put_def do_put_def doc_Set_def split: prod.splits)
  have "edit_event e now ob = bumpSequence (do_puts (stamp_puts now) (write_end e ob4))"
    unfolding edit_event_def Let_def start prod.case set o4 by (simp add: stamp_puts_def do_puts_simps Let_def)
  then show ?thesis
    by (simp only: Let_def w b event_puts_def do_puts_append do_puts_simps ob4_def)
qed

section \<open>What the edit does\<close>

text \<open>An event a form can hand over, and an object it can be applied to.\<close>

definition event_ok :: "Event \<Rightarrow> bool" where
  "event_ok e = (time_ok (ev_AllDay e) (ev_Start e) \<and> time_ok (ev_AllDay e) (ev_End e) \<and> zone_ok (ev_Timezone e) \<and>
     ev_End e - ev_Start e < 2 ^ 63)"

definition event_object :: "string \<Rightarrow> bool" where
  "event_object raw =
     (regular raw \<and> groups_ok (Parse raw) \<and>
      (case (Component (Parse raw) ''VCALENDAR'', Component (Parse raw) ''VEVENT'') of
         (Some cal, Some sp) \<Rightarrow>
           Begin cal < Begin sp \<and> single event_names (view (Parse raw) sp) \<and>
           (doc_Find (Parse raw) sp ''DURATION'' = None \<or> doc_Find (Parse raw) sp ''DTEND'' = None)
       | _ \<Rightarrow> False))"

lemma time_text_one_line: "\<forall>c \<in> set v. time_char c \<Longrightarrow> one_line v"
  using time_char_plain by (simp add: one_line_def)

lemma end_put_ok:
  assumes "event_ok e"
  shows "put_ok event_names (end_put e dur)"
proof (cases dur)
  case True
  then show ?thesis using Escape_one_line event_names_upper by (simp add: end_put_def put_ok_def event_names_def)
next
  case False
  obtain p v where f: "formatTime (ev_End e) (ev_AllDay e) (ev_Timezone e) = (p, v)" by fastforce
  have o: "time_ok (ev_AllDay e) (ev_End e)" "zone_ok (ev_Timezone e)" using assms by (simp_all add: event_ok_def)
  note w = written_time [OF f o]
  show ?thesis using False w(2) time_text_one_line [OF w(4)] f event_names_upper by (simp add: end_put_def put_ok_def event_names_def)
qed

lemma first_puts_ok:
  assumes "event_ok e"
  shows "list_all (put_ok event_names) (first_puts e)"
proof -
  obtain p v where f: "formatTime (ev_Start e) (ev_AllDay e) (ev_Timezone e) = (p, v)" by fastforce
  have o: "time_ok (ev_AllDay e) (ev_Start e)" "zone_ok (ev_Timezone e)" using assms by (simp_all add: event_ok_def)
  note w = written_time [OF f o]
  show ?thesis
    using w(2) time_text_one_line [OF w(4)] f event_names_upper Escape_one_line by (simp add: first_puts_def put_ok_def event_names_def)
qed

lemma stamp_puts_ok: "list_all (put_ok event_names) (stamp_puts now)"
  using event_names_upper Escape_one_line by (simp add: stamp_puts_def put_ok_def event_names_def Let_def)

lemma sequence_put_ok: "put_ok event_names (sequence_put current)"
  using event_names_upper Escape_one_line by (simp add: sequence_put_def put_ok_def event_names_def)

lemma first_puts_names: "map fst (first_puts e) = [''SUMMARY'', ''LOCATION'', ''DESCRIPTION'', ''DTSTART'']"
  by (simp add: first_puts_def split: prod.split)

lemma end_put_name: "fst (end_put e dur) = (if dur then ''DURATION'' else ''DTEND'')"
  by (simp add: end_put_def split: prod.split)

lemma stamp_puts_names: "map fst (stamp_puts now) = [''DTSTAMP'', ''LAST-MODIFIED'']"
  by (simp add: stamp_puts_def Let_def)

lemma edit_event_effect:
  assumes ed: "editable cn names ob" and ok: "event_ok e" and sub: "set event_names \<subseteq> set names"
  shows "editable cn names (edit_event e now ob)"
    "rest_of names (edit_event e now ob) = rest_of names ob"
    "props (edit_event e now ob) = puts_props (event_puts e now (props ob ''DURATION'' \<noteq> None) (prop_text (props ob) ''SEQUENCE'')) (props ob)"
proof -
  let ?dur = "props (do_puts (first_puts e) ob) ''DURATION'' \<noteq> None"
  let ?ps = "first_puts e @ end_put e ?dur # stamp_puts now"
  let ?seq = "let ob = do_puts ?ps ob in doc_Value (fst ob) (snd ob) ''SEQUENCE''"
  have mono: "list_all (put_ok event_names) ps \<Longrightarrow> list_all (put_ok names) ps" for ps
    using sub by (auto simp: list_all_iff put_ok_def)
  have ok: "list_all (put_ok names) (first_puts e)" "list_all (put_ok names) ?ps" "list_all (put_ok names) (event_puts e now ?dur ?seq)"
    using first_puts_ok [OF ok] end_put_ok [OF ok] stamp_puts_ok sequence_put_ok by (intro mono; simp add: event_puts_def)+
  note steps = do_puts_steps [OF ed ok(1)] do_puts_steps [OF ed ok(2)] do_puts_steps [OF ed ok(3)]
  have "props (do_puts (first_puts e) ob) ''DURATION'' = props ob ''DURATION''"
    using steps(1) first_puts_names [of e] puts_props_other [of "''DURATION''" "first_puts e"] by (simp add: event_upper image_set)
  moreover have "props (do_puts ?ps ob) ''SEQUENCE'' = props ob ''SEQUENCE''"
    using steps(2) first_puts_names [of e] end_put_name [of e ?dur] stamp_puts_names [of now] puts_props_other [of "''SEQUENCE''" ?ps]
    by (auto simp: event_upper image_set)
  then have "?seq = prop_text (props ob) ''SEQUENCE''" unfolding Let_def prop_text_Value [symmetric] by (simp only: prop_text_def)
  ultimately have q: "event_puts e now ?dur ?seq = event_puts e now (props ob ''DURATION'' \<noteq> None) (prop_text (props ob) ''SEQUENCE'')"
    by (simp only:)
  have s: "editable cn names (edit_event e now ob) \<and>
      props (edit_event e now ob) = puts_props (event_puts e now ?dur ?seq) (props ob) \<and>
      rest_of names (edit_event e now ob) = rest_of names ob"
    using steps(3) by (simp only: edit_event_puts [of e now ob])
  then show "editable cn names (edit_event e now ob)" "rest_of names (edit_event e now ob) = rest_of names ob"
    "props (edit_event e now ob) = puts_props (event_puts e now (props ob ''DURATION'' \<noteq> None) (prop_text (props ob) ''SEQUENCE'')) (props ob)"
    unfolding q by (rule conjunct1, rule conjunct2 [THEN conjunct2], rule conjunct2 [THEN conjunct1])
qed

section \<open>Reading the edited event\<close>

lemma Escape_time: "\<forall>c \<in> set v. time_char c \<Longrightarrow> Escape v = v"
proof (induction v)
  case (Cons c v)
  then have "time_char c" by simp
  note p = time_char_plain [OF this]
  then have "escape_char c = [c]" by (simp add: escape_char_def is_crlf_def)
  then show ?case using Cons by simp
qed simp

lemma formatDuration_no_CR: "CR \<notin> set (formatDuration d)"
proof -
  have "CR \<notin> set (unit_part n [u])" if "u \<noteq> CR" for n u
    using that itoa_no(4) by (auto simp: unit_part_def FormatInt_def)
  then show ?thesis by (simp add: formatDuration_def Let_def)
qed

lemma event_puts_names:
  "map fst (event_puts e now dur current) = [''SUMMARY'', ''LOCATION'', ''DESCRIPTION'', ''DTSTART'', if dur then ''DURATION'' else ''DTEND'',
     ''DTSTAMP'', ''LAST-MODIFIED'', ''SEQUENCE'']"
  using first_puts_names [of e] end_put_name [of e dur] stamp_puts_names [of now] by (simp add: event_puts_def sequence_put_def)

lemma event_puts_distinct: "distinct (map fst (event_puts e now dur current))"
  unfolding event_puts_names by simp

text \<open>Every property after the edit.\<close>

lemma event_props:
  fixes m :: prop_map and e :: Event and now :: instant and dur :: bool and current :: string
  defines "M \<equiv> puts_props (event_puts e now dur current) m"
  shows "prop_text M ''SUMMARY'' = filter (\<lambda>c. c \<noteq> CR) (ev_Summary e)"
    "prop_text M ''LOCATION'' = filter (\<lambda>c. c \<noteq> CR) (ev_Location e)"
    "prop_text M ''DESCRIPTION'' = filter (\<lambda>c. c \<noteq> CR) (ev_Description e)"
    "prop_text M ''SEQUENCE'' = FormatInt (next_sequence current)"
    "formatTime (ev_Start e) (ev_AllDay e) (ev_Timezone e) = (p, v) \<Longrightarrow> v \<noteq> [] \<Longrightarrow> M ''DTSTART'' = Some (p, v)"
    "dur \<Longrightarrow> prop_text M ''DURATION'' = filter (\<lambda>c. c \<noteq> CR) (formatDuration (Sub (ev_End e) (ev_Start e)))"
    "\<not> dur \<Longrightarrow> formatTime (ev_End e) (ev_AllDay e) (ev_Timezone e) = (q, w) \<Longrightarrow> w \<noteq> [] \<Longrightarrow> M ''DTEND'' = Some (q, w)"
    "ToUpper k \<notin> set event_names \<Longrightarrow> M k = m k" "dur \<Longrightarrow> M ''DTEND'' = m ''DTEND''"
proof -
  note at = puts_props_at [OF event_puts_distinct, of _ _ _ e now dur current m, folded M_def]
  have mem: "(''SUMMARY'', None, Escape (ev_Summary e)) \<in> set (event_puts e now dur current)"
    "(''LOCATION'', None, Escape (ev_Location e)) \<in> set (event_puts e now dur current)"
    "(''DESCRIPTION'', None, Escape (ev_Description e)) \<in> set (event_puts e now dur current)"
    "(''SEQUENCE'', None, Escape (FormatInt (next_sequence current))) \<in> set (event_puts e now dur current)"
    by (simp_all add: event_puts_def first_puts_def sequence_put_def)
  have t: "prop_text M n = filter (\<lambda>c. c \<noteq> CR) v" if "(n, q, Escape v) \<in> set (event_puts e now dur current)" "ToUpper n = n" for n q v
    using at [OF that] text_put [OF that(2)] by (simp add: prop_text_def)
  show "prop_text M ''SUMMARY'' = filter (\<lambda>c. c \<noteq> CR) (ev_Summary e)"
    "prop_text M ''LOCATION'' = filter (\<lambda>c. c \<noteq> CR) (ev_Location e)"
    "prop_text M ''DESCRIPTION'' = filter (\<lambda>c. c \<noteq> CR) (ev_Description e)"
    using t [OF mem(1)] t [OF mem(2)] t [OF mem(3)] event_upper by blast+
  have "\<forall>c \<in> set (FormatInt (next_sequence current)). c \<noteq> CR"
    using FormatInt_char time_char_plain time_char_def by metis
  then have "filter (\<lambda>c. c \<noteq> CR) (FormatInt (next_sequence current)) = FormatInt (next_sequence current)" by (simp add: filter_id_conv)
  then show "prop_text M ''SEQUENCE'' = FormatInt (next_sequence current)" using t [OF mem(4)] event_upper(9) by simp
  show "M ''DTSTART'' = Some (p, v)" if "formatTime (ev_Start e) (ev_AllDay e) (ev_Timezone e) = (p, v)" "v \<noteq> []"
  proof -
    have "(''DTSTART'', Some p, v) \<in> set (event_puts e now dur current)" using that by (simp add: event_puts_def first_puts_def)
    from at [OF this event_upper(4)] show ?thesis using that by (simp add: put_props_def event_upper)
  qed
  show "prop_text M ''DURATION'' = filter (\<lambda>c. c \<noteq> CR) (formatDuration (Sub (ev_End e) (ev_Start e)))" if dur
    by (rule t [where q = None]) (use that in \<open>simp_all add: event_puts_def end_put_def event_upper\<close>)
  show "M ''DTEND'' = Some (q, w)" if "\<not> dur" "formatTime (ev_End e) (ev_AllDay e) (ev_Timezone e) = (q, w)" "w \<noteq> []"
  proof -
    have "(''DTEND'', Some q, w) \<in> set (event_puts e now dur current)" using that by (simp add: event_puts_def end_put_def)
    from at [OF this event_upper(5)] show ?thesis using that by (simp add: put_props_def event_upper)
  qed
  have names: "fst ` set (event_puts e now b current) = set (map fst (event_puts e now b current))" for b by simp
  show "M k = m k" if "ToUpper k \<notin> set event_names"
    unfolding M_def by (rule puts_props_other) (use that in \<open>auto simp: names event_puts_names event_names_def simp del: set_map\<close>)
  show "M ''DTEND'' = m ''DTEND''" if dur
    unfolding M_def by (rule puts_props_other) (use that in \<open>simp add: names event_puts_names event_upper del: set_map\<close>)
qed

text \<open>The object after the edit, read again.\<close>

lemma ical_Parse_Inr:
  "ical_Parse raw = Inr (d, sp) \<longleftrightarrow>
   d = Parse raw \<and> d \<noteq> [] \<and> Component d ''VCALENDAR'' \<noteq> None \<and> Component d ''VEVENT'' = Some sp"
  by (auto simp: ical_Parse_def Let_def split: option.splits)

lemma calendar_kept:
  assumes ed: "editable ''VEVENT'' names (d, sp)" and ed': "editable ''VEVENT'' names (d', sp')"
    and r: "rest_of names (d', sp') = rest_of names (d, sp)"
    and cal: "Component d ''VCALENDAR'' = Some cal" "Begin cal < Begin sp" and b: "doc_Bytes d' = Some bs"
  shows "ical_Parse bs = Inr (Parse bs, sp')" "editable ''VEVENT'' names (Parse bs, sp')" "props (Parse bs, sp') = props (d', sp')"
    "same (Parse bs) d'" "\<exists>cal'. Component (Parse bs) ''VCALENDAR'' = Some cal' \<and> Begin cal' < Begin sp'"
proof -
  note again = editable_read_back [OF ed' b]
  have wf: "wf_span d sp" "wf_span d' sp'" using Component_wf ed ed' by (auto simp: editable_def)
  have out: "outside d' sp' = outside d sp" using r by (simp add: rest_of_def)
  note first = outside_Begin [OF wf out]
  obtain cal' where c: "Component d' ''VCALENDAR'' = Some cal'" "Begin cal' = Begin cal"
    using Component_before [OF cal wf first out] by blast
  then have c': "Component (Parse bs) ''VCALENDAR'' = Some cal'" using same_Component [OF again(3)] by simp
  have "d' \<noteq> []" using wf(2) by (auto simp: wf_span_def)
  then have "Parse bs \<noteq> []" using same_length [OF again(3)] by auto
  then show "ical_Parse bs = Inr (Parse bs, sp')" using again(1) c' by (simp only: ical_Parse_Inr) simp
  show "\<exists>cal'. Component (Parse bs) ''VCALENDAR'' = Some cal' \<and> Begin cal' < Begin sp'" using c' c(2) cal(2) first by auto
  show "editable ''VEVENT'' names (Parse bs, sp')" "props (Parse bs, sp') = props (d', sp')" "same (Parse bs) d'"
    using again by blast+
qed

lemma applied_event:
  assumes p: "ical_Parse raw = Inr (d, sp)" and ed: "editable ''VEVENT'' names (d, sp)" and sub: "set event_names \<subseteq> set names"
    and cal: "Component d ''VCALENDAR'' = Some cal" "Begin cal < Begin sp" and ok: "event_ok e"
    and a: "ical_Apply locs raw e now = Some (Inr out)"
  obtains d' sp' where "edit_event e now (d, sp) = (d', sp')" "ical_Parse out = Inr (Parse out, sp')" "same (Parse out) d'"
    "ev_validate locs e = Inr ()" "editable ''VEVENT'' names (Parse out, sp')"
    "props (Parse out, sp') = puts_props (event_puts e now (props (d, sp) ''DURATION'' \<noteq> None) (doc_Value d sp ''SEQUENCE'')) (props (d, sp))"
    "\<exists>cal'. Component (Parse out) ''VCALENDAR'' = Some cal' \<and> Begin cal' < Begin sp'"
    "untouched names (Parse out, sp') = untouched names (d, sp)"
proof -
  have u: "list_all unedited d" using p Parse_unedited by (simp add: ical_Parse_Inr)
  obtain d' sp' where e: "edit_event e now (d, sp) = (d', sp')" by fastforce
  note eff = edit_event_effect [OF ed ok sub, of now, unfolded e]
  have v: "ev_validate locs e = Inr ()" using a p by (cases "ev_validate locs e") (auto simp: ical_Apply_def)
  then have b: "doc_Bytes d' = Some out" using a p e by (simp add: ical_Apply_def)
  note k = calendar_kept [OF ed eff(1,2) cal b]
  show ?thesis using that [OF e k(1,4) v k(2) _ k(5) untouched_read_back [OF eff(1) b eff(2) u]] k(3) eff(3) prop_text_Value [of "(d, sp)" "''SEQUENCE''"] by simp
qed

lemma event_object_parts:
  assumes "ical_Parse raw = Inr (d, sp)" and "event_object raw"
  obtains cal where "editable ''VEVENT'' event_names (d, sp)" "Component d ''VCALENDAR'' = Some cal" "Begin cal < Begin sp"
    "doc_Find d sp ''DURATION'' = None \<or> doc_Find d sp ''DTEND'' = None"
proof -
  have raw: "d = Parse raw" "Component d ''VEVENT'' = Some sp" using assms(1) unfolding ical_Parse_Inr by blast+
  then show ?thesis using assms(2) Parse_ok [of raw] that
    by (auto simp: event_object_def editable_def split: option.splits)
qed

definition edited_event :: "Event \<Rightarrow> string \<Rightarrow> string \<Rightarrow> Event" where
  "edited_event e uid rule =
     e\<lparr>ev_UID := uid, ev_Recurrence := rule, ev_Summary := filter (\<lambda>c. c \<noteq> CR) (ev_Summary e),
       ev_Location := filter (\<lambda>c. c \<noteq> CR) (ev_Location e), ev_Description := filter (\<lambda>c. c \<noteq> CR) (ev_Description e),
       ev_Timezone := (if ev_AllDay e then [] else ev_Timezone e)\<rparr>"

lemma read_end_edited:
  assumes ok: "event_ok e" and le: "ev_Start e \<le> ev_End e" and m: "M = puts_props (event_puts e now (m ''DURATION'' \<noteq> None) current) m"
    and M: "props (d, sp) = M" and one: "m ''DURATION'' = None \<or> m ''DTEND'' = None"
  shows "readEnd (d, sp) (ev_Start e) (ev_AllDay e) = Inr (ev_End e)"
proof -
  have t: "time_ok (ev_AllDay e) (ev_Start e)" "time_ok (ev_AllDay e) (ev_End e)" "zone_ok (ev_Timezone e)" "ev_End e - ev_Start e < 2 ^ 63"
    using ok by (simp_all add: event_ok_def)
  have nz: "ev_End e \<noteq> zeroInstant" using t(2) by (simp add: time_ok_def)
  note P = event_props [where m = m and e = e and now = now and dur = "m ''DURATION'' \<noteq> None" and current = current, folded m]
  show ?thesis
  proof (cases "m ''DURATION'' \<noteq> None")
    case True
    let ?d = "ev_End e - ev_Start e"
    have sub: "Sub (ev_End e) (ev_Start e) = ?d" using t(4) le by (simp add: Sub_def)
    have "?d mod second = 0" using t(1,2) by (simp add: time_ok_def mod_diff_eq [symmetric])
    then have whole: "?d div second * second = ?d" using div_mult_mod_eq [of ?d second] by linarith
    have read: "parseDuration (formatDuration ?d) = Inr ?d"
    proof (cases "0 < ?d")
      case True
      then show ?thesis using formatDuration_read [OF True t(4)] whole by simp
    next
      case False
      then have "?d = 0" using le by simp
      moreover have "parseDuration (formatDuration 0) = Inr 0" by code_simp
      ultimately show ?thesis by simp
    qed
    have ne: "formatDuration ?d \<noteq> []" using read by (auto simp: parseDuration_def TrimSpace_def TrimLeft_def HasPrefix_def Let_def)
    have cr: "filter (\<lambda>c. c \<noteq> CR) (formatDuration ?d) = formatDuration ?d"
      using formatDuration_no_CR [of ?d] by (auto simp: filter_id_conv)
    have dur: "doc_Value d sp ''DURATION'' = formatDuration ?d"
      using P(6) [OF True] M sub cr prop_text_Value [of "(d, sp)" "''DURATION''"] by simp
    have "doc_Find d sp ''DTEND'' = None" using P(9) [OF True] one True M by (simp add: props_Find)
    then show ?thesis using dur ne read nz by (simp add: readEnd_def)
  next
    case False
    obtain q w where f: "formatTime (ev_End e) (ev_AllDay e) (ev_Timezone e) = (q, w)" by fastforce
    note W = written_time [OF f t(2,3)]
    have "M ''DTEND'' = Some (q, w)" using P(7) [OF False f W(3)] .
    then have "readTime (d, sp) ''DTEND'' = Inr (ev_End e, ev_AllDay e, if ev_AllDay e then [] else ev_Timezone e)" "doc_Find d sp ''DTEND'' \<noteq> None"
      using M W(1) by (simp_all add: readTime_props props_Find)
    then show ?thesis using nz by (simp add: readEnd_def)
  qed
qed

lemma edited_event_read:
  assumes ok: "event_ok e" and le: "ev_Start e \<le> ev_End e"
    and M: "props (d', sp') = puts_props (event_puts e now (props (d, sp) ''DURATION'' \<noteq> None) current) (props (d, sp))"
    and one: "doc_Find d sp ''DURATION'' = None \<or> doc_Find d sp ''DTEND'' = None"
  shows "read_object (d', sp') = Inr (edited_event e (doc_Value d sp ''UID'') (doc_RawValue d sp ''RRULE''))"
proof -
  note P = event_props [where m = "props (d, sp)" and e = e and now = now and dur = "props (d, sp) ''DURATION'' \<noteq> None" and current = current, folded M]
  obtain p v where f: "formatTime (ev_Start e) (ev_AllDay e) (ev_Timezone e) = (p, v)" by fastforce
  have t: "time_ok (ev_AllDay e) (ev_Start e)" "zone_ok (ev_Timezone e)" using ok by (simp_all add: event_ok_def)
  note W = written_time [OF f t]
  have start: "readTime (d', sp') ''DTSTART'' = Inr (ev_Start e, ev_AllDay e, if ev_AllDay e then [] else ev_Timezone e)"
    using P(5) [OF f W(3)] W(1) by (simp add: readTime_props)
  have "props (d, sp) ''DURATION'' = None \<or> props (d, sp) ''DTEND'' = None" using one by (simp add: props_Find)
  note e = read_end_edited [OF ok le refl M this]
  have u: "''UID'' \<notin> set event_names" "''RRULE'' \<notin> set event_names" by (simp_all add: event_names_def)
  have "doc_Value d' sp' ''UID'' = doc_Value d sp ''UID''" "doc_RawValue d' sp' ''RRULE'' = doc_RawValue d sp ''RRULE''"
    using P(8) [of "''UID''"] P(8) [of "''RRULE''"] u by (simp_all add: props_Value props_RawValue event_upper)
  moreover have "doc_Value d' sp' n = prop_text (props (d', sp')) n" for n using prop_text_Value [of "(d', sp')" n] by simp
  ultimately show ?thesis using P(1-3) start e by (simp add: read_object_def edited_event_def)
qed


text \<open>An event that repeats, with an alarm, and what a form makes of it.\<close>

definition sample_event :: string where
  "sample_event = concat (map (\<lambda>l. l @ [CR, LF])
     [''BEGIN:VCALENDAR'', ''BEGIN:VEVENT'', ''UID:u1'', ''DTSTART;TZID=Etc/X:20240229T090000'', ''DURATION:PT1H'', ''SUMMARY:Old'',
      ''RRULE:FREQ=DAILY'', ''BEGIN:VALARM'', ''DESCRIPTION:Ring'', ''END:VALARM'', ''END:VEVENT'', ''END:VCALENDAR''])"

definition sample_edit :: Event where
  "sample_edit = \<lparr>ev_UID = [], ev_Summary = ''New; title'', ev_Location = [], ev_Description = ''two'' @ [LF] @ ''lines'',
     ev_Start = 1709287200 * second, ev_End = 1709292600 * second, ev_AllDay = False, ev_Timezone = ''Etc/X'', ev_Recurrence = []\<rparr>"

definition sample_zone :: "string \<Rightarrow> Location option" where
  "sample_zone = (\<lambda>_. Some (FixedZone 3600))"

abbreviation sample_at :: span where "sample_at \<equiv> \<lparr>Begin = 1, End = 10\<rparr>"

lemma sample_component:
  "Component (Parse sample_event) ''VEVENT'' = Some sample_at"
  by code_simp

lemma sample_calendar:
  "Component (Parse sample_event) ''VCALENDAR'' = Some \<lparr>Begin = 0, End = 11\<rparr>"
  by code_simp

lemma sample_shape: "regular sample_event \<and> groups_ok (Parse sample_event)"
  by code_simp

lemma sample_single:
  "(let d = Parse sample_event in single event_names (view d sample_at) \<and> doc_Find d sample_at ''DTEND'' = None)"
  by code_simp

lemma sample_event_ok:
  "ical_Parse sample_event = Inr (Parse sample_event, sample_at)" "event_object sample_event"
  using sample_component sample_calendar sample_shape sample_single
  by (auto simp: ical_Parse_Inr event_object_def Let_def sample_event_def)

lemma sample_edit_ok: "event_ok sample_edit"
  by code_simp

lemma sample_edit_done: "\<exists>out. ical_Apply sample_zone sample_event sample_edit 0 = Some (Inr out)"
proof -
  have "case ical_Apply sample_zone sample_event sample_edit 0 of Some (Inr _) \<Rightarrow> True | _ \<Rightarrow> False" by code_simp
  then show ?thesis by (auto split: option.splits sum.splits)
qed


text \<open>
  C12. Nothing else is touched: every line before and after the event and every line in it that is not one of its own properties of
  the names that are written has the same bytes, in the same order: alarms and what is in them, recurrence rules, and the
  other components with the overrides among them. SEQUENCE has moved on.
\<close>

theorem event_edit_keeps_rest:
  assumes "ical_Parse raw = Inr (d, sp)" and "event_object raw" and "event_ok e"
    and "ical_Apply locs raw e now = Some (Inr out)"
  shows "\<exists>sp'. ical_Parse out = Inr (Parse out, sp') \<and> untouched event_names (Parse out, sp') = untouched event_names (d, sp) \<and>
    doc_Value (Parse out) sp' ''SEQUENCE'' = FormatInt (next_sequence (doc_Value d sp ''SEQUENCE''))"
proof -
  obtain cal where o: "editable ''VEVENT'' event_names (d, sp)" "Component d ''VCALENDAR'' = Some cal" "Begin cal < Begin sp"
    using event_object_parts [OF assms(1,2)] .
  from applied_event [OF assms(1) o(1) subset_refl o(2,3) assms(3,4)] obtain d' sp' where
    a: "ical_Parse out = Inr (Parse out, sp')" "untouched event_names (Parse out, sp') = untouched event_names (d, sp)"
    "props (Parse out, sp') = puts_props (event_puts e now (props (d, sp) ''DURATION'' \<noteq> None) (doc_Value d sp ''SEQUENCE'')) (props (d, sp))" .
  show ?thesis
    using a(1,2) event_props(4) [where m = "props (d, sp)" and e = e and now = now and dur = "props (d, sp) ''DURATION'' \<noteq> None"
        and current = "doc_Value d sp ''SEQUENCE''", folded a(3)] prop_text_Value [of "(Parse out, sp')" "''SEQUENCE''"] by simp
qed

theorem event_edit_keeps_rest_witness:
  "\<exists>out sp'. ical_Apply sample_zone sample_event sample_edit 0 = Some (Inr out) \<and>
     untouched event_names (Parse out, sp') = untouched event_names (Parse sample_event, sample_at) \<and>
     doc_Value (Parse out) sp' ''SEQUENCE'' = ''1''"
proof -
  obtain out where o: "ical_Apply sample_zone sample_event sample_edit 0 = Some (Inr out)" using sample_edit_done by blast
  have "FormatInt (next_sequence (doc_Value (Parse sample_event) sample_at ''SEQUENCE'')) = ''1''" by code_simp
  then show ?thesis using event_edit_keeps_rest [OF sample_event_ok sample_edit_ok o] o by metis
qed

text \<open>The texts of an event, none with four continuation bytes in a row.\<close>

definition event_runs :: "Event \<Rightarrow> bool" where
  "event_runs e = (short_runs (Escape (ev_Summary e)) \<and> short_runs (Escape (ev_Location e)) \<and>
     short_runs (Escape (ev_Description e)) \<and> short_runs (ev_Timezone e))"

lemma time_runs: "\<forall>c \<in> set v. time_char c \<Longrightarrow> short_runs v"
  using short_runs_ascii time_char_plain by blast

lemma formatTime_runs:
  assumes "formatTime t allDay zone = (p, v)" and "short_runs zone"
  shows "short_runs p \<and> (p = [] \<or> hd p = CHR '';'') \<and> short_runs v"
proof -
  have a: "short_runs '';VALUE=DATE''" "short_runs '';TZID=''" "short_runs []" by (rule short_runs_ascii; auto simp: is_cont_def)+
  have "short_runs ('';TZID='' @ zone)" by (rule short_runs_append [OF a(2) assms(2)]) (simp add: is_cont_def)
  moreover have "\<forall>c \<in> set (format_date s). time_char c" for s using format_date_char by (auto simp: time_char_def)
  ultimately show ?thesis
    using assms(1) a time_runs format_wall_char format_utc_char by (auto simp: formatTime_def split: if_splits)
qed

lemma formatDuration_ascii: "c \<in> set (formatDuration d) \<Longrightarrow> \<not> is_cont c \<and> c \<noteq> BACKSLASH \<and> c \<noteq> LF \<and> c \<noteq> CR \<and> c \<noteq> CHR '','' \<and> c \<noteq> CHR '';''"
proof -
  have "c \<in> set (unit_part n [u]) \<Longrightarrow> c = u \<or> time_char c" for c n u
    using is_digit_itoa by (auto simp: unit_part_def FormatInt_def time_char_def split: if_splits)
  moreover have "time_char c \<Longrightarrow> c \<noteq> LF" for c using time_char_plain is_crlf_def by blast
  moreover have "\<not> is_cont u \<and> u \<noteq> BACKSLASH \<and> u \<noteq> LF \<and> u \<noteq> CR \<and> u \<noteq> CHR '','' \<and> u \<noteq> CHR '';''" if "u \<in> set ''PTDHMS0''" for u
    using that by (auto simp: is_cont_def)
  moreover assume "c \<in> set (formatDuration d)"
  ultimately show ?thesis using time_char_plain by (simp add: formatDuration_def Let_def split: if_splits) blast+
qed

lemma event_puts_runs:
  assumes "event_runs e"
  shows "list_all put_runs (event_puts e now dur current)"
proof -
  have n: "list_all short_runs event_names"
    unfolding event_names_def by (simp, intro conjI; rule short_runs_ascii; auto simp: is_cont_def)
  obtain p v where f: "formatTime (ev_Start e) (ev_AllDay e) (ev_Timezone e) = (p, v)" by fastforce
  obtain q w where g: "formatTime (ev_End e) (ev_AllDay e) (ev_Timezone e) = (q, w)" by fastforce
  have z: "short_runs (ev_Timezone e)" using assms by (simp add: event_runs_def)
  have d: "short_runs (Escape (formatDuration k))" for k
  proof -
    have "Escape s = s" if "\<And>c. c \<in> set s \<Longrightarrow> escape_char c = [c]" for s using that by (induction s) simp_all
    then have "Escape (formatDuration k) = formatDuration k"
      using formatDuration_ascii [of _ k] by (simp add: escape_char_def)
    then show ?thesis using formatDuration_ascii short_runs_ascii by metis
  qed
  have "short_runs (Escape v)" if "\<forall>c \<in> set v. time_char c" for v using Escape_time [OF that] time_runs [OF that] by simp
  moreover have "\<forall>c \<in> set (FormatInt k). time_char c" for k using FormatInt_char [of _ k] unfolding time_char_def by blast
  ultimately have st: "short_runs (Escape (format_utc t))" "short_runs (Escape (FormatInt k))" for t k
    using format_utc_char by blast+
  show ?thesis
    using assms n f g formatTime_runs [OF f z] formatTime_runs [OF g z] d st
    by (simp add: event_puts_def first_puts_def end_put_def stamp_puts_def sequence_put_def put_runs_def event_runs_def event_names_def Let_def)
qed

text \<open>
  C37. Editing an event returns, with the edited object or an error, whatever the stored object is, as long as neither a line of it nor a
  text of the form (title, place and description as they are escaped, the zone) has four UTF-8 continuation bytes in a row, which valid UTF-8 never has.
\<close>

theorem event_edit_returns:
  assumes "runs_ok raw" and "event_runs e"
  shows "\<exists>r. ical_Apply locs raw e now = Some r"
proof (cases "bindE (ical_Parse raw) (\<lambda>ob. bindE (ev_validate locs e) (\<lambda>_. Inr ob))")
  case (Inl err)
  then show ?thesis by (simp add: ical_Apply_def)
next
  case (Inr ob)
  then have "ical_Parse raw = Inr ob" by (auto simp: bindE_Inr)
  then have "fst ob = Parse raw" by (cases ob) (simp add: ical_Parse_Inr)
  then have "list_all line_runs (fst (edit_event e now ob))"
    using edit_event_puts [of e now ob] do_puts_runs [OF _ event_puts_runs [OF assms(2)], of ob] Parse_runs [OF assms(1)] by simp
  then show ?thesis using rendered_returns Inr by (fastforce simp: ical_Apply_def)
qed

lemma ascii_runs: "list_all (\<lambda>c. \<not> is_cont c) s \<Longrightarrow> short_runs s"
  by (rule short_runs_ascii) (simp add: list_all_iff)

theorem event_edit_returns_witness: "\<exists>r. ical_Apply sample_zone sample_event sample_edit 0 = Some r"
proof (rule event_edit_returns)
  have "list_all (\<lambda>l. list_all (\<lambda>c. \<not> is_cont c) (unfold_line (l_raw l))) (Parse sample_event)" by code_simp
  then show "runs_ok sample_event" using ascii_runs by (auto simp: runs_ok_def list_all_iff)
  have "list_all (\<lambda>s. list_all (\<lambda>c. \<not> is_cont c) s)
      [Escape (ev_Summary sample_edit), Escape (ev_Location sample_edit), Escape (ev_Description sample_edit), ev_Timezone sample_edit]"
    by code_simp
  then show "event_runs sample_edit" using ascii_runs by (simp add: event_runs_def)
qed

end
