(* ===== verification/ICal_Create.thy ===== *)
theory ICal_Create
  imports ICal_Facts
begin

text \<open>
  Building a calendar object: what \<open>New\<close> makes of an event is read back as that event, unless the
  UID or the rule holds a line break, which neither is checked for.
\<close>

definition base_lines :: "string \<Rightarrow> string \<Rightarrow> string list" where
  "base_lines uid stamp =
     [''BEGIN:VCALENDAR'', ''VERSION:2.0'', ''PRODID:-//edav//EN'', ''BEGIN:VEVENT'', ''UID:'' @ uid, ''DTSTAMP:'' @ stamp,
      ''END:VEVENT'', ''END:VCALENDAR'']"

lemma ical_base_lines: "ical_base uid now = concat (map (\<lambda>t. t @ [CR, LF]) (base_lines uid (format_utc (now div second))))"
  by (simp add: ical_base_def base_lines_def)

type_synonym contents = "(string \<times> string \<times> string \<times> string) list"

definition base_contents :: "string \<Rightarrow> string \<Rightarrow> contents" where
  "base_contents uid stamp =
     [([], ''BEGIN'', [], ''VCALENDAR''), ([], ''VERSION'', [], ''2.0''), ([], ''PRODID'', [], ''-//edav//EN''), ([], ''BEGIN'', [], ''VEVENT''),
      ([], ''UID'', [], uid), ([], ''DTSTAMP'', [], stamp), ([], ''END'', [], ''VEVENT''), ([], ''END'', [], ''VCALENDAR'')]"

lemma base_fixed:
  "map splitLine [''BEGIN:VCALENDAR'', ''VERSION:2.0'', ''PRODID:-//edav//EN'', ''BEGIN:VEVENT'', ''END:VEVENT'', ''END:VCALENDAR''] =
   [([], ''BEGIN'', [], ''VCALENDAR''), ([], ''VERSION'', [], ''2.0''), ([], ''PRODID'', [], ''-//edav//EN''), ([], ''BEGIN'', [], ''VEVENT''),
    ([], ''END'', [], ''VEVENT''), ([], ''END'', [], ''VCALENDAR'')]"
  "list_all plain_text [''BEGIN:VCALENDAR'', ''VERSION:2.0'', ''PRODID:-//edav//EN'', ''BEGIN:VEVENT'', ''END:VEVENT'', ''END:VCALENDAR'']"
  by code_simp+

lemma base_names: "simple ''UID''" "simple ''DTSTAMP''" "ToUpper ''UID'' = ''UID''" "ToUpper ''DTSTAMP'' = ''DTSTAMP''"
  by code_simp+

lemma base_parsed:
  assumes u: "one_line uid" and s: "one_line stamp"
  shows "map splitLine (base_lines uid stamp) = base_contents uid stamp" "list_all plain_text (base_lines uid stamp)"
  using base_fixed splitLine_plain [of "''UID''" uid] splitLine_plain [of "''DTSTAMP''" stamp] base_names u s
  by (simp_all add: base_lines_def base_contents_def)

lemma fold_eqs:
  "EqualFold ''VCALENDAR'' (ToUpper ''VCALENDAR'')" "\<not> EqualFold ''VEVENT'' (ToUpper ''VCALENDAR'')"
  "EqualFold ''VEVENT'' (ToUpper ''VEVENT'')" "\<not> EqualFold ''VCALENDAR'' (ToUpper ''VEVENT'')"
  by code_simp+

text \<open>The names that are written, the rule among them, and a base that can be edited.\<close>

definition new_names :: "string list" where
  "new_names = ''RRULE'' # event_names"

lemma base_editable:
  assumes "one_line uid" and "one_line stamp"
  defines "d \<equiv> map (\<lambda>t. mk_line t [CR, LF]) (base_lines uid stamp)"
  shows "editable ''VEVENT'' new_names (d, \<lparr>Begin = 3, End = 6\<rparr>)" "Component d ''VCALENDAR'' = Some \<lparr>Begin = 0, End = 7\<rparr>"
    "props (d, \<lparr>Begin = 3, End = 6\<rparr>) ''UID'' = Some ([], uid)" "props (d, \<lparr>Begin = 3, End = 6\<rparr>) ''RRULE'' = None"
    "props (d, \<lparr>Begin = 3, End = 6\<rparr>) ''DURATION'' = None" "props (d, \<lparr>Begin = 3, End = 6\<rparr>) ''DTEND'' = None"
proof -
  note p = base_parsed [OF assms(1,2)]
  have c: "map content d = base_contents uid stamp" using Parse_plain(3) [OF p(2)] p(1) by (simp add: d_def)
  have ok: "list_all line_ok d" using Parse_plain(2) [OF p(2)] by (simp add: d_def)
  obtain l0 l1 l2 l3 l4 l5 l6 l7 where d: "d = [l0, l1, l2, l3, l4, l5, l6, l7]" by (simp add: d_def base_lines_def)
  note f = c [unfolded d base_contents_def, simplified content_def list.map prod.inject list.inject]
  have comps: "Component d ''VEVENT'' = Some \<lparr>Begin = 3, End = 6\<rparr>" "Component d ''VCALENDAR'' = Some \<lparr>Begin = 0, End = 7\<rparr>"
    using f fold_eqs by (simp_all add: Component_def Components_def d numeral_eq_Suc)
  then have wf: "wf_span d \<lparr>Begin = 3, End = 6\<rparr>" using Component_wf by blast
  have v: "view d \<lparr>Begin = 3, End = 6\<rparr> = [l4, l5]"
    using f by (simp add: view_def body_def d direct.simps(2) numeral_eq_Suc)
  show "Component d ''VCALENDAR'' = Some \<lparr>Begin = 0, End = 7\<rparr>" using comps by simp
  show "props (d, \<lparr>Begin = 3, End = 6\<rparr>) ''UID'' = Some ([], uid)" "props (d, \<lparr>Begin = 3, End = 6\<rparr>) ''RRULE'' = None"
    "props (d, \<lparr>Begin = 3, End = 6\<rparr>) ''DURATION'' = None" "props (d, \<lparr>Begin = 3, End = 6\<rparr>) ''DTEND'' = None"
    unfolding props_view [OF wf] v using f by (simp_all add: event_upper line_prop_def)
  have "groups_ok d" using f by (simp add: groups_ok_def d simple_def)
  moreover have "single new_names [l4, l5]" using f by (simp add: single_def new_names_def event_names_def)
  ultimately show "editable ''VEVENT'' new_names (d, \<lparr>Begin = 3, End = 6\<rparr>)" using comps ok v by (simp add: editable_def)
qed

text \<open>The rule is written last, into the object the edit has made.\<close>

lemma rule_written:
  assumes ed: "editable ''VEVENT'' new_names (Parse out1, sp1)" and p: "ical_Parse out1 = Inr (Parse out1, sp1)"
    and cal: "Component (Parse out1) ''VCALENDAR'' = Some cal" "Begin cal < Begin sp1"
    and rule: "rule \<noteq> []" "one_line rule" and b: "doc_Bytes (fst (doc_SetRaw (Parse out1) sp1 ''RRULE'' rule)) = Some out"
  shows "\<exists>sp. ical_Parse out = Inr (Parse out, sp) \<and> props (Parse out, sp) = put_props ''RRULE'' None rule (props (Parse out1, sp1))"
proof -
  have r: "''RRULE'' \<in> set new_names" "edit_key ''RRULE''" by (simp add: new_names_def) code_simp
  then have pk: "put_ok new_names (''RRULE'', None, rule)" using rule by (simp add: put_ok_def)
  obtain d sp where e: "do_put (''RRULE'', None, rule) (Parse out1, sp1) = (d, sp)" by fastforce
  note st = do_put_step [OF ed pk, unfolded e]
  have "doc_Bytes d = Some out" using b e by (simp add: do_put_def doc_SetRaw_def)
  from calendar_kept [OF ed st(1,3) cal this] st(2) show ?thesis by auto
qed

lemma read_object_rule:
  assumes p: "props (d', sp') = put_props ''RRULE'' None rule (props (d, sp))" and r: "rule \<noteq> []"
  shows "read_object (d', sp') = (case read_object (d, sp) of Inl x \<Rightarrow> Inl x | Inr ev \<Rightarrow> Inr (ev\<lparr>ev_Recurrence := rule\<rparr>))"
proof -
  have same: "props (d', sp') k = props (d, sp) k" if "ToUpper k \<noteq> ''RRULE''" for k
    using that by (simp add: p put_props_def)
  have t: "readTime (d', sp') ''DTSTART'' = readTime (d, sp) ''DTSTART''" "readTime (d', sp') ''DTEND'' = readTime (d, sp) ''DTEND''"
    "doc_Value d' sp' ''DURATION'' = doc_Value d sp ''DURATION''" "doc_Find d' sp' ''DTEND'' = None \<longleftrightarrow> doc_Find d sp ''DTEND'' = None"
    "doc_Value d' sp' ''UID'' = doc_Value d sp ''UID''" "doc_Value d' sp' ''SUMMARY'' = doc_Value d sp ''SUMMARY''"
    "doc_Value d' sp' ''LOCATION'' = doc_Value d sp ''LOCATION''" "doc_Value d' sp' ''DESCRIPTION'' = doc_Value d sp ''DESCRIPTION''"
    by (simp_all add: readTime_props props_Value props_Find same event_upper)
  have rr: "doc_RawValue d' sp' ''RRULE'' = rule" using r by (simp add: props_RawValue p put_props_def event_upper)
  have e: "readEnd (d', sp') s a = readEnd (d, sp) s a" for s a unfolding readEnd_def prod.case t(2,3) t(4) ..
  show ?thesis
  proof (cases "readTime (d, sp) ''DTSTART''")
    case (Inr x)
    obtain s a z where x: "x = (s, a, z)" by (cases x)
    show ?thesis using Inr t rr by (cases "readEnd (d, sp) s a") (simp_all add: read_object_def e x)
  qed (simp add: read_object_def t)
qed

text \<open>The last step of \<open>New\<close>.\<close>

definition new_rule :: "string \<Rightarrow> string \<Rightarrow> (ical_error + string) option" where
  "new_rule rule out =
     (if rule = [] then Some (Inr out)
      else case ical_Parse out of
             Inl err \<Rightarrow> Some (Inl err)
           | Inr (d, sp) \<Rightarrow> map_option Inr (doc_Bytes (fst (doc_SetRaw d sp ''RRULE'' rule))))"

text \<open>
  C38. A new event that was made reads back: the UID is the one handed over or the fresh one, and everything the form gave
  is there, the recurrence rule included. This takes a UID and a rule of one line each, and a UID without a backslash, because the
  code writes them as they stand (\<open>uid_injects_property\<close>); times in whole seconds, or days, of years of four digits
  and less than \<open>2 ^ 63\<close> nanoseconds apart, and a zone's name that needs no quoting.
\<close>

theorem new_event_reads_back:
  assumes ok: "event_ok e" and uid: "uid = (if ev_UID e = [] then fresh else ev_UID e)" "one_line uid" "BACKSLASH \<notin> set uid"
    and rule: "one_line (ev_Recurrence e)" and n: "ical_New locs fresh e now = Some (Inr out)"
  shows "ReadEvent out = Inr (edited_event e uid (ev_Recurrence e))"
proof -
  let ?base = "ical_base uid now" and ?sp = "\<lparr>Begin = 3, End = 6\<rparr>"
  let ?d = "Parse ?base"
  have s: "one_line (format_utc (now div second))" using format_utc_char time_text_one_line by blast
  have d: "?d = map (\<lambda>t. mk_line t [CR, LF]) (base_lines uid (format_utc (now div second)))"
    unfolding ical_base_lines by (rule Parse_plain(1) [OF base_parsed(2) [OF uid(2) s]])
  note B = base_editable [OF uid(2) s, folded d]
  have p: "ical_Parse ?base = Inr (?d, ?sp)"
  proof -
    have "?d \<noteq> []" unfolding d by (simp add: base_lines_def)
    then show ?thesis using B(1,2) unfolding ical_Parse_Inr editable_def by simp
  qed
  have v: "ev_validate locs e = Inr ()" using n by (auto simp: ical_New_def split: sum.splits)
  have new: "ical_New locs fresh e now = (case ical_Apply locs ?base e now of None \<Rightarrow> None | Some (Inl err) \<Rightarrow> Some (Inl err)
      | Some (Inr out1) \<Rightarrow> new_rule (ev_Recurrence e) out1)"
    unfolding ical_New_def v sum.case uid(1) [symmetric] new_rule_def ..
  obtain out1 where o1: "ical_Apply locs ?base e now = Some (Inr out1)" "new_rule (ev_Recurrence e) out1 = Some (Inr out)"
    using n unfolding new by (cases "ical_Apply locs ?base e now"; cases "the (ical_Apply locs ?base e now)") simp_all
  have sub: "set event_names \<subseteq> set new_names" by (auto simp: new_names_def)
  have cb: "Begin \<lparr>Begin = 0, End = 7\<rparr> < Begin ?sp" by simp
  from applied_event [OF p B(1) sub B(2) cb ok o1(1)] obtain d' sp1 where
    a: "ical_Parse out1 = Inr (Parse out1, sp1)" "editable ''VEVENT'' new_names (Parse out1, sp1)"
    "props (Parse out1, sp1) = puts_props (event_puts e now (props (?d, ?sp) ''DURATION'' \<noteq> None) (doc_Value ?d ?sp ''SEQUENCE'')) (props (?d, ?sp))"
    "\<exists>cal'. Component (Parse out1) ''VCALENDAR'' = Some cal' \<and> Begin cal' < Begin sp1" .
  obtain cal where cal: "Component (Parse out1) ''VCALENDAR'' = Some cal" "Begin cal < Begin sp1" using a(4) by blast
  have le: "ev_Start e \<le> ev_End e" using v by (auto simp: ev_validate_def split: if_splits)
  have one: "doc_Find ?d ?sp ''DURATION'' = None \<or> doc_Find ?d ?sp ''DTEND'' = None" using B(5) by (simp add: props_Find)
  have U: "doc_Value ?d ?sp ''UID'' = uid" "doc_RawValue ?d ?sp ''RRULE'' = []"
    using B(3,4) uid(3) by (simp_all add: props_Value props_RawValue Unescape_def)
  note r = edited_event_read [OF ok le a(3) one, unfolded U]
  show ?thesis
  proof (cases "ev_Recurrence e = []")
    case True
    then have "out = out1" using o1(2) by (simp add: new_rule_def)
    then show ?thesis unfolding ReadEvent_def using a(1) r True by (simp only: bindE_simps)
  next
    case False
    then have "doc_Bytes (fst (doc_SetRaw (Parse out1) sp1 ''RRULE'' (ev_Recurrence e))) = Some out"
      using o1(2) a(1) by (simp add: new_rule_def)
    from rule_written [OF a(2,1) cal False rule this] obtain sp where
      w: "ical_Parse out = Inr (Parse out, sp)" "props (Parse out, sp) = put_props ''RRULE'' None (ev_Recurrence e) (props (Parse out1, sp1))" by (elim exE conjE) (rule that)
    have "edited_event e uid [] \<lparr>ev_Recurrence := ev_Recurrence e\<rparr> = edited_event e uid (ev_Recurrence e)" by (simp add: edited_event_def)
    then show ?thesis unfolding ReadEvent_def w(1) bindE_simps read_object_rule [OF w(2) False] r by simp
  qed
qed

text \<open>A daily event of the form, with a zone and two lines of text.\<close>

theorem new_event_reads_back_witness:
  "\<exists>out. ical_New sample_zone ''f00'' (sample_edit\<lparr>ev_Recurrence := ''FREQ=DAILY''\<rparr>) 0 = Some (Inr out) \<and>
     ReadEvent out = Inr (sample_edit\<lparr>ev_UID := ''f00'', ev_Recurrence := ''FREQ=DAILY''\<rparr>)"
proof -
  let ?e = "sample_edit\<lparr>ev_Recurrence := ''FREQ=DAILY''\<rparr>"
  have "case ical_New sample_zone ''f00'' ?e 0 of Some (Inr _) \<Rightarrow> True | _ \<Rightarrow> False" by code_simp
  then obtain out where o: "ical_New sample_zone ''f00'' ?e 0 = Some (Inr out)" by (auto split: option.splits sum.splits)
  have h: "event_ok ?e" "''f00'' = (if ev_UID ?e = [] then ''f00'' else ev_UID ?e)" "one_line ''f00''" "BACKSLASH \<notin> set ''f00''"
    "one_line (ev_Recurrence ?e)" by code_simp+
  have "edited_event ?e ''f00'' (ev_Recurrence ?e) = sample_edit\<lparr>ev_UID := ''f00'', ev_Recurrence := ''FREQ=DAILY''\<rparr>" by code_simp
  then show ?thesis using new_event_reads_back [OF h o] o by simp
qed

text \<open>
  A UID with a line break is not refused and not escaped: what follows the break becomes a property of
  the event, here a link.
\<close>

theorem uid_injects_property:
  "(case ical_New sample_zone ''f00'' (sample_edit\<lparr>ev_UID := ''x'' @ [LF] @ ''URL:http://evil''\<rparr>) 0 of
      Some (Inr out) \<Rightarrow> (case ical_Parse out of Inr (d, sp) \<Rightarrow> doc_Value d sp ''UID'' = ''x'' \<and> doc_Value d sp ''URL'' = ''http://evil'' | Inl _ \<Rightarrow> False)
    | _ \<Rightarrow> False)"
  by code_simp

end
