(* ===== verification/VCard_Edit.thy ===== *)
theory VCard_Edit
  imports ContentLine GoTime
begin

text \<open>
  \<open>internal/vcard\<close>: \<open>edit.go\<close>, a card open for editing, and \<open>contact.go\<close>, the properties the form shows, read
  from a card and written into it. A call that does not return a value, because an index is out of
  range (a panic) or because rendering does not end, is \<open>None\<close>. A fresh UID is the parameter \<open>fresh\<close>.
\<close>

datatype vcard_error = EmptyCard | NotACard | NoVersion | NoName

type_synonym vcard = "document \<times> span"

section \<open>A card open for editing\<close>

definition vcard_Parse :: "string \<Rightarrow> vcard_error + vcard" where
  "vcard_Parse raw =
     (let doc = Parse raw in
      if doc = [] then Inl EmptyCard
      else case Component doc ''VCARD'' of
             None \<Rightarrow> Inl NotACard
           | Some sp \<Rightarrow> if doc_Value doc sp ''VERSION'' = [] then Inl NoVersion else Inr (doc, sp))"

definition card_Value :: "vcard \<Rightarrow> string \<Rightarrow> string" where
  "card_Value v name = (case v of (d, sp) \<Rightarrow> doc_Value d sp name)"

record Property =
  vp_Value :: string
  vp_Type :: string

definition TypeOptions :: "string list" where
  "TypeOptions = [''cell'', ''home'', ''work'', ''other'']"

definition typeParam :: "string \<Rightarrow> string" where
  "typeParam params =
     (let vs = Params params ''TYPE'' in
      case List.find (\<lambda>v. list_ex (EqualFold v) TypeOptions) vs of
        Some v \<Rightarrow> ToLower v
      | None \<Rightarrow> (case vs of v # _ \<Rightarrow> ToLower v | [] \<Rightarrow> []))"

definition hasType :: "string \<Rightarrow> string \<Rightarrow> bool" where
  "hasType params want = (want = [] \<or> list_ex (\<lambda>v. EqualFold v want) (Params params ''TYPE''))"

definition typeParams :: "string \<Rightarrow> string" where
  "typeParams t = (if t = [] then [] else '';TYPE='' @ ToUpper t)"

definition Values :: "vcard \<Rightarrow> string \<Rightarrow> Property list" where
  "Values v name =
     (case v of (d, sp) \<Rightarrow>
      map (\<lambda>i. \<lparr>vp_Value = Unescape (l_Value (At d i)), vp_Type = typeParam (l_Params (At d i))\<rparr>) (doc_FindAll d sp name))"

definition card_Set :: "string \<Rightarrow> string \<Rightarrow> vcard \<Rightarrow> vcard" where
  "card_Set name val v = (case v of (d, sp) \<Rightarrow> doc_Set d sp name val)"

definition card_SetRaw :: "string \<Rightarrow> string \<Rightarrow> vcard \<Rightarrow> vcard" where
  "card_SetRaw name val v = (case v of (d, sp) \<Rightarrow> doc_SetRaw d sp name val)"

definition vcard_Delete :: "string \<Rightarrow> vcard \<Rightarrow> vcard" where
  "vcard_Delete name v = (case v of (d, sp) \<Rightarrow> doc_Delete d sp name)"

text \<open>
  The first loop of \<open>SetAll\<close>: the values against the lines that were there, whose indices were taken
  before; a value more than there are lines is inserted. Then the lines that are left over are removed, from
  the last one back, by the same indices.
\<close>

fun set_values :: "string \<Rightarrow> nat list \<Rightarrow> Property list \<Rightarrow> vcard \<Rightarrow> vcard" where
  "set_values name existing [] v = v"
| "set_values name [] (want # wants) (d, sp) =
     set_values name [] wants (doc_Insert d sp (NewLine name (typeParams (vp_Type want)) (Escape (vp_Value want))))"
| "set_values name (i # existing) (want # wants) (d, sp) =
     (let l = At d i;
          sameType = hasType (l_Params l) (vp_Type want)
      in set_values name existing wants
           (if Unescape (l_Value l) = vp_Value want \<and> sameType then (d, sp)
            else (doc_Replace d i (if sameType then l_Params l else typeParams (vp_Type want)) (Escape (vp_Value want)), sp)))"

fun remove_lines :: "nat list \<Rightarrow> vcard \<Rightarrow> vcard option" where
  "remove_lines [] v = Some v"
| "remove_lines (i # is) (d, sp) = (if i < length d then remove_lines is (doc_Remove d sp i) else None)"

definition SetAll :: "string \<Rightarrow> Property list \<Rightarrow> vcard \<Rightarrow> vcard option" where
  "SetAll name wants v =
     (let existing = doc_FindAll (fst v) (snd v) name
      in remove_lines (rev (drop (length wants) existing)) (set_values name existing wants v))"

definition Touch :: "instant \<Rightarrow> vcard \<Rightarrow> vcard" where
  "Touch now v = card_Set ''REV'' (format_utc (now div second)) v"

section \<open>Contacts\<close>

record Contact =
  ct_UID :: string
  ct_FormattedName :: string
  ct_FamilyName :: string
  ct_GivenName :: string
  ct_Organisation :: string
  ct_Title :: string
  ct_Note :: string
  ct_Phones :: "Property list"
  ct_Emails :: "Property list"
  ct_URL :: string

definition firstField :: "string \<Rightarrow> string" where
  "firstField s = SplitStructured s ! 0"

definition read_card :: "vcard \<Rightarrow> Contact" where
  "read_card v =
     (case v of (d, sp) \<Rightarrow>
      let n = doc_RawValue d sp ''N'';
          parts = (if n = [] then [] else SplitStructured n)
      in \<lparr>ct_UID = card_Value v ''UID'', ct_FormattedName = card_Value v ''FN'',
          ct_FamilyName = (if length parts > 0 then parts ! 0 else []), ct_GivenName = (if length parts > 1 then parts ! 1 else []),
          ct_Organisation = firstField (doc_RawValue d sp ''ORG''), ct_Title = card_Value v ''TITLE'', ct_Note = card_Value v ''NOTE'',
          ct_Phones = Values v ''TEL'', ct_Emails = Values v ''EMAIL'', ct_URL = card_Value v ''URL''\<rparr>)"

definition ReadContact :: "string \<Rightarrow> vcard_error + Contact" where
  "ReadContact raw = bindE (vcard_Parse raw) (\<lambda>v. Inr (read_card v))"

definition ct_validate :: "Contact \<Rightarrow> vcard_error + unit" where
  "ct_validate c =
     (if TrimSpace (ct_FormattedName c) = [] \<and> TrimSpace (ct_GivenName c) = [] \<and> TrimSpace (ct_FamilyName c) = []
      then Inl NoName else Inr ())"

definition ct_DisplayName :: "Contact \<Rightarrow> string" where
  "ct_DisplayName c =
     (if ct_FormattedName c \<noteq> [] then ct_FormattedName c else TrimSpace (ct_GivenName c @ '' '' @ ct_FamilyName c))"

definition structuredName :: "Contact \<Rightarrow> string" where
  "structuredName c =
     (if ct_FamilyName c = [] \<and> ct_GivenName c = [] then []
      else EscapeComponent (ct_FamilyName c) @ '';'' @ EscapeComponent (ct_GivenName c) @ '';;;'')"

definition organisationValue :: "Contact \<Rightarrow> string \<Rightarrow> string" where
  "organisationValue c existing =
     (if ct_Organisation c = [] then []
      else EscapeComponent (ct_Organisation c) @
        concat (map (\<lambda>part. '';'' @ EscapeComponent part) (drop 1 (SplitStructured existing))))"

definition normalise :: "Contact \<Rightarrow> Contact" where
  "normalise c = (if ct_FormattedName c = [] then c\<lparr>ct_FormattedName := ct_DisplayName c\<rparr> else c)"

definition nonEmpty :: "Property list \<Rightarrow> Property list" where
  "nonEmpty ps = filter (\<lambda>p. TrimSpace (vp_Value p) \<noteq> []) ps"

definition edit_card :: "Contact \<Rightarrow> instant \<Rightarrow> vcard \<Rightarrow> vcard option" where
  "edit_card c now v =
     (let c = normalise c;
          v = card_Set ''FN'' (ct_FormattedName c) v;
          v = card_SetRaw ''N'' (structuredName c) v;
          v = card_Set ''TITLE'' (ct_Title c) v;
          v = card_Set ''NOTE'' (ct_Note c) v;
          v = card_Set ''URL'' (ct_URL c) v
      in case SetAll ''TEL'' (nonEmpty (ct_Phones c)) v of
           None \<Rightarrow> None
         | Some v \<Rightarrow>
             (case SetAll ''EMAIL'' (nonEmpty (ct_Emails c)) v of
                None \<Rightarrow> None
              | Some v \<Rightarrow>
                  Some (Touch now (card_SetRaw ''ORG'' (organisationValue c (doc_RawValue (fst v) (snd v) ''ORG'')) v))))"

definition vcard_Apply :: "string \<Rightarrow> Contact \<Rightarrow> instant \<Rightarrow> (vcard_error + string) option" where
  "vcard_Apply raw c now =
     (case bindE (vcard_Parse raw) (\<lambda>v. bindE (ct_validate c) (\<lambda>_. Inr v)) of
        Inl err \<Rightarrow> Some (Inl err)
      | Inr v \<Rightarrow>
          (case edit_card c now v of
             None \<Rightarrow> None
           | Some (d, sp) \<Rightarrow> map_option Inr (doc_Bytes d)))"

definition vcard_base :: "string \<Rightarrow> string" where
  "vcard_base uid =
     ''BEGIN:VCARD'' @ [CR, LF] @ ''VERSION:3.0'' @ [CR, LF] @ ''UID:'' @ uid @ [CR, LF] @ ''END:VCARD'' @ [CR, LF]"

definition vcard_New :: "string \<Rightarrow> Contact \<Rightarrow> instant \<Rightarrow> (vcard_error + string) option" where
  "vcard_New fresh c now =
     (case ct_validate c of
        Inl err \<Rightarrow> Some (Inl err)
      | Inr _ \<Rightarrow> vcard_Apply (vcard_base (if ct_UID c = [] then fresh else ct_UID c)) c now)"

definition vcard_Filename :: "string \<Rightarrow> string" where
  "vcard_Filename uid =
     map (\<lambda>c. if c \<in> set ''/?#%'' \<or> c = BACKSLASH then CHR ''-'' else c) uid @ ''.vcf''"

definition shared_group :: string where
  "shared_group = concat (map (\<lambda>l. l @ [LF])
     [''BEGIN:VCARD'', ''VERSION:3.0'', ''FN:Ada'', ''item1.TEL:1'', ''item1.TEL:2'', ''END:VCARD''])"

definition ada_without_phones :: Contact where
  "ada_without_phones = \<lparr>ct_UID = [], ct_FormattedName = ''Ada'', ct_FamilyName = [], ct_GivenName = [], ct_Organisation = [],
     ct_Title = [], ct_Note = [], ct_Phones = [], ct_Emails = [], ct_URL = []\<rparr>"

text \<open>
  Two telephone numbers in one group, and a form that keeps neither: removing the second takes the
  first with it, and the index of the first is then that of the END line.
\<close>

theorem shared_group_loses_end:
  "(case vcard_Parse shared_group of
      Inr v \<Rightarrow> (case vcard_Apply shared_group ada_without_phones 0 of
        Some (Inr out) \<Rightarrow> vcard_Parse out = Inl NotACard \<and> \<not> list_ex (\<lambda>l. l_Name l = ''END'') (Parse out)
      | _ \<Rightarrow> False)
    | Inl _ \<Rightarrow> False)"
  by code_simp

end
