(* ===== verification/VCard_Facts.thy ===== *)
theory VCard_Facts
  imports VCard_Edit Document_Edit
begin

text \<open>
  What editing a card promises: \<open>SetAll\<close> is a merge on the list of the property's occurrences, and touches no other line.
\<close>

section \<open>Lines by their position\<close>

lemma names_contains: "map l_Name d = map l_Name d' \<Longrightarrow> i \<le> length d \<Longrightarrow> contains d sp i = contains d' sp i"
proof -
  assume n: "map l_Name d = map l_Name d'" and i: "i \<le> length d"
  have len: "length d = length d'" using n by (metis length_map)
  have "l_Name (d ! k) = l_Name (d' ! k)" if "k < length d" for k using n len that by (metis nth_map)
  then have "map l_Name (map ((!) d) [nat (Begin sp + 1)..<i]) = map l_Name (map ((!) d') [nat (Begin sp + 1)..<i])"
    using i by auto
  from same_depth [OF this] show ?thesis by (simp add: contains_def)
qed

lemma names_wf:
  assumes n: "map l_Name d = map l_Name d'" and wf: "wf_span d sp"
  shows "wf_span d' sp"
proof -
  have len: "length d = length d'" using n by (metis length_map)
  have nm: "l_Name (d ! k) = l_Name (d' ! k)" if "k < length d" for k using n len that by (metis nth_map)
  have b: "balanced_from k ls = balanced_from k ls'" if "map l_Name ls = map l_Name ls'" for k ls ls'
    using that
  proof (induction ls arbitrary: k ls')
    case (Cons l ls)
    then obtain l' t where t: "ls' = l' # t" "l_Name l' = l_Name l" "map l_Name ls = map l_Name t" by (cases ls') auto
    note IH = Cons.IH [OF t(3)]
    show ?case unfolding t(1) balanced_from.simps t(2) IH ..
  qed simp
  have "map l_Name (body d sp) = map l_Name (body d' sp)"
    using n by (simp add: body_def drop_map [symmetric] take_map [symmetric])
  from b [OF this] have "balanced (body d sp) = balanced (body d' sp)" .
  moreover have "nat (End sp) < length d" "nat (Begin sp) < length d" using wf by (auto simp: wf_span_def)
  ultimately show ?thesis using wf nm [of "nat (End sp)"] nm [of "nat (Begin sp)"] len by (simp add: wf_span_def)
qed

lemma own_split:
  assumes wf: "wf_span d sp" and i: "i \<in> set (span_range d sp)" "contains d sp i" and p: "plain (d ! i)"
  defines "xs \<equiv> slice d (nat (Begin sp + 1)) i" and "ys \<equiv> slice d (Suc i) (nat (End sp))"
  shows "body d sp = xs @ d ! i # ys" "line_depth xs = 0" "view d sp = direct 0 xs @ d ! i # direct 0 ys"
    "i = length (fst (outside d sp)) + length xs" "i < length d"
proof -
  note r = wf_span_range [OF wf]
  have b: "nat (Begin sp + 1) \<le> i" and e: "Suc i \<le> nat (End sp)" and l: "i < length d" using i(1) r by auto
  have "slice d i (Suc i) = [d ! i]" using slice_snoc [of i i d] l by simp
  then show body: "body d sp = xs @ d ! i # ys"
    using slice_split [of "nat (Begin sp + 1)" i "nat (End sp)" d] slice_split [of i "Suc i" "nat (End sp)" d] b e
    by (simp add: body_slice xs_def ys_def)
  show dep: "line_depth xs = 0" using i contains_slice [OF wf i(1)] by (simp add: xs_def)
  show "view d sp = direct 0 xs @ d ! i # direct 0 ys" using body dep p by (simp add: view_def direct_plain)
  show "i < length d" by (rule l)
  show "i = length (fst (outside d sp)) + length xs" using b l wf_span_parts(2) [OF wf] by (simp add: xs_def slice.simps)
qed

text \<open>What is beside the lines of a name.\<close>

lemma others_filter:
  assumes "others {n} 0 (body d' sp') = others {n} 0 (body d sp)" and "n \<notin> {''BEGIN'', ''END''}"
  shows "filter (\<lambda>l. l_Name l \<noteq> n) (view d' sp') = filter (\<lambda>l. l_Name l \<noteq> n) (view d sp)"
proof -
  have n: "''BEGIN'' \<notin> {n}" "''END'' \<notin> {n}" using assms(2) by auto
  have "filter (\<lambda>l. l_Name l \<noteq> n) (direct 0 b) = filter (\<lambda>l. l_Name l \<noteq> n) (direct 0 (others {n} 0 b))" for b
    using others_view [OF n, of 0 b] by simp
  from this [of "body d' sp'"] this [of "body d sp"] show ?thesis unfolding view_def assms(1) by simp
qed

lemma update_own_others:
  assumes wf: "wf_span d sp" and i: "i \<in> set (span_range d sp)" "contains d sp i" and p: "plain (d ! i)" and n: "l_Name l = l_Name (d ! i)"
  shows "others {l_Name (d ! i)} 0 (body (d[i := l]) sp) = others {l_Name (d ! i)} 0 (body d sp)"
proof -
  let ?xs = "slice d (nat (Begin sp + 1)) i" and ?ys = "slice d (Suc i) (nat (End sp))"
  note s = own_split [OF wf i p] and pt = wf_span_parts [OF wf]
  have e: "End sp = Begin sp + 1 + int (length (?xs @ l # ?ys))" using pt(3) s(1) by simp
  have "d[i := l] = fst (outside d sp) @ (?xs @ l # ?ys) @ snd (outside d sp)"
    by (subst pt(1), subst s(4), subst s(1)) (simp add: list_update_append)
  then have "body (d[i := l]) sp = ?xs @ l # ?ys" using wf_span_parts_intro(1) [OF wf _ refl e] by blast
  moreover have "plain l" using p n by (simp add: plain_def)
  ultimately show ?thesis using s(1,2) p n by (simp add: others_plain)
qed

text \<open>Removing an ungrouped line.\<close>

lemma remove_own:
  assumes wf: "wf_span d sp" and i: "i \<in> set (span_range d sp)" "contains d sp i" and p: "plain (d ! i)"
    and g: "l_Group (d ! i) = []" and rm: "doc_Remove d sp i = (d', sp')"
  shows "wf_span d' sp'" "outside d' sp' = outside d sp"
    "view d' sp' = direct 0 (slice d (nat (Begin sp + 1)) i) @ direct 0 (slice d (Suc i) (nat (End sp)))"
    "Begin sp' = Begin sp" "d' = take i d @ drop (Suc i) d"
    "others {l_Name (d ! i)} 0 (body d' sp') = others {l_Name (d ! i)} 0 (body d sp)"
proof -
  let ?xs = "slice d (nat (Begin sp + 1)) i" and ?ys = "slice d (Suc i) (nat (End sp))"
  note s = own_split [OF wf i p] and pt = wf_span_parts [OF wf]
  show d': "d' = take i d @ drop (Suc i) d" and b: "Begin sp' = Begin sp" using g rm by (auto simp: doc_Remove_def)
  have e: "End sp' = End sp - 1" using g rm by (auto simp: doc_Remove_def)
  have d: "d = (fst (outside d sp) @ ?xs) @ d ! i # (?ys @ snd (outside d sp))" using pt(1) s(1) by simp
  have "d' = fst (outside d sp) @ (?xs @ ?ys) @ snd (outside d sp)"
    unfolding d' by (metis (no_types, lifting) Cons_nth_drop_Suc append.assoc append_eq_conv_conj d s(5) s(4) list.inject length_append)
  moreover have "End sp' = Begin sp + 1 + int (length (?xs @ ?ys))" using pt(3) s(1) e b by simp
  ultimately have k: "body d' sp' = ?xs @ ?ys" "outside d' sp' = outside d sp" "balanced (?xs @ ?ys) \<Longrightarrow> wf_span d' sp'"
    using wf_span_parts_intro [OF wf, of d' "?xs @ ?ys" sp'] b by auto
  have "balanced (?xs @ ?ys)" using wf s(1) balanced_plain [OF p] by (simp add: wf_span_def)
  then show "wf_span d' sp'" using k by simp
  show "outside d' sp' = outside d sp" using k by simp
  show "view d' sp' = direct 0 ?xs @ direct 0 ?ys" using k(1) s(2) by (simp add: view_def)
  show "others {l_Name (d ! i)} 0 (body d' sp') = others {l_Name (d ! i)} 0 (body d sp)" using k(1) s(1,2) p by (simp add: others_plain)
qed

section \<open>The three phases of SetAll\<close>

text \<open>What becomes of an occurrence that is matched with a value.\<close>

definition merged :: "string \<times> string \<Rightarrow> Property \<Rightarrow> string \<times> string" where
  "merged pv want =
     (let same_type = hasType (fst pv) (vp_Type want)
      in if Unescape (snd pv) = vp_Value want \<and> same_type then pv
         else (if same_type then fst pv else typeParams (vp_Type want), Escape (vp_Value want)))"

definition created :: "Property \<Rightarrow> string \<times> string" where
  "created want = (typeParams (vp_Type want), Escape (vp_Value want))"

definition merged_line :: "line \<Rightarrow> Property \<Rightarrow> line" where
  "merged_line l want =
     (if Unescape (l_Value l) = vp_Value want \<and> hasType (l_Params l) (vp_Type want) then l
      else l\<lparr>l_Params := (if hasType (l_Params l) (vp_Type want) then l_Params l else typeParams (vp_Type want)),
        l_Value := Escape (vp_Value want), l_dirty := True\<rparr>)"

lemma merged_line_prop: "line_prop (merged_line l want) = merged (line_prop l) want"
  by (simp add: merged_line_def merged_def line_prop_def Let_def)

lemma merged_line_fields [simp]: "l_Name (merged_line l want) = l_Name l" "l_Group (merged_line l want) = l_Group l"
  by (simp_all add: merged_line_def)

fun merge_lines :: "nat list \<Rightarrow> Property list \<Rightarrow> document \<Rightarrow> document" where
  "merge_lines (i # is) (w # ws) d = merge_lines is ws (d[i := merged_line (d ! i) w])"
| "merge_lines is ws d = d"

text \<open>First the lines that are there, then those that are inserted.\<close>

lemma set_values_merge:
  "set_values name is ws (d, sp) = set_values name [] (drop (length is) ws) (merge_lines is ws d, sp)"
proof (induction "is" ws d rule: merge_lines.induct)
  case (1 i "is" w ws d)
  have "set_values name (i # is) (w # ws) (d, sp) = set_values name is ws (d[i := merged_line (d ! i) w], sp)"
    by (simp add: merged_line_def doc_Replace_def At_def Let_def)
  then show ?case using 1 by simp
qed simp_all

lemma merge_lines_other:
  "length (merge_lines is ws d) = length d" "map l_Name (merge_lines is ws d) = map l_Name d"
  "j \<notin> set is \<Longrightarrow> merge_lines is ws d ! j = d ! j"
proof (induction "is" ws d rule: merge_lines.induct)
  case (1 i "is" w ws d)
  { case 1 then show ?case using "1.IH" by simp }
  { case 2 then show ?case using "1.IH" by (simp add: map_update) (metis list_update_id map_update) }
  { case 3 then show ?case using "1.IH" by simp }
qed simp_all

lemma merge_lines_at:
  "distinct is \<Longrightarrow> \<forall>j \<in> set is. j < length d \<Longrightarrow>
   map ((!) (merge_lines is ws d)) is = map2 merged_line (map ((!) d) (take (length ws) is)) (take (length is) ws) @ map ((!) d) (drop (length ws) is)"
proof (induction "is" ws d rule: merge_lines.induct)
  case (1 i "is" w ws d)
  let ?d = "d[i := merged_line (d ! i) w]"
  have "map ((!) ?d) (take k is) = map ((!) d) (take k is)" "map ((!) ?d) (drop k is) = map ((!) d) (drop k is)" for k
  proof -
    have "?d ! x = d ! x" if "x \<in> set is" for x using 1(2) that by (intro nth_list_update_neq) auto
    then show "map ((!) ?d) (take k is) = map ((!) d) (take k is)" "map ((!) ?d) (drop k is) = map ((!) d) (drop k is)"
      by (auto dest: in_set_takeD in_set_dropD)
  qed
  note e = this
  have "distinct is" "\<forall>j \<in> set is. j < length ?d" using 1 by simp_all
  note IH = 1(1) [OF this, unfolded e]
  show ?case using IH 1(2,3) merge_lines_other(3) [of i "is" ws ?d] by simp
qed simp_all

text \<open>The indices of a name, as they are in the view.\<close>

lemma FindAll_own:
  assumes "wf_span d sp" and "i \<in> set (doc_FindAll d sp name)"
  shows "i \<in> set (span_range d sp)" "contains d sp i" "l_Name (d ! i) = ToUpper name" "i < length d"
  using assms wf_span_range [OF assms(1)] by (auto simp: doc_FindAll_def is_prop_def)

lemma FindAll_sorted: "sorted (doc_FindAll d sp name) \<and> distinct (doc_FindAll d sp name)"
  by (simp add: doc_FindAll_def span_range_def sorted_wrt_filter)

lemma names_view:
  assumes n: "map l_Name d = map l_Name d'" and wf: "wf_span d sp"
  shows "doc_FindAll d' sp name = doc_FindAll d sp name"
    "view d' sp = map ((!) d') (filter (contains d sp) (span_range d sp))"
proof -
  have len: "length d = length d'" using n by (metis length_map)
  have nm: "l_Name (d ! k) = l_Name (d' ! k)" if "k < length d" for k using n len that by (metis nth_map)
  have r: "span_range d' sp = span_range d sp" using len by (simp add: span_range_def)
  have c: "contains d' sp i = contains d sp i" if "i \<in> set (span_range d sp)" for i
    using names_contains [OF n, of i sp] that by (simp add: span_range_def)
  show "doc_FindAll d' sp name = doc_FindAll d sp name"
    unfolding doc_FindAll_def r using c nm by (intro filter_cong) (auto simp: is_prop_def span_range_def)
  show "view d' sp = map ((!) d') (filter (contains d sp) (span_range d sp))"
    unfolding view_range [OF names_wf [OF n wf]] r using c by (intro arg_cong [of _ _ "map ((!) d')"] filter_cong) auto
qed

lemma merge_lines_others:
  "wf_span d sp \<Longrightarrow> n \<notin> {''BEGIN'', ''END''} \<Longrightarrow> \<forall>i \<in> set is. i \<in> set (span_range d sp) \<and> contains d sp i \<and> l_Name (d ! i) = n \<Longrightarrow>
   others {n} 0 (body (merge_lines is ws d) sp) = others {n} 0 (body d sp)"
proof (induction "is" ws d rule: merge_lines.induct)
  case (1 i "is" w ws d)
  let ?d = "d[i := merged_line (d ! i) w]"
  have i: "i \<in> set (span_range d sp)" "contains d sp i" "l_Name (d ! i) = n" using 1(4) by simp_all
  have p: "plain (d ! i)" using i(3) 1(3) by (simp add: plain_def)
  have nms: "map l_Name d = map l_Name ?d" by (simp add: map_update) (metis list_update_id map_update)
  have c: "contains ?d sp j = contains d sp j" "l_Name (?d ! j) = l_Name (d ! j)" if "j \<in> set (span_range d sp)" for j
  proof -
    have "j < length d" "i < length d" using that i(1) by (simp_all add: span_range_def)
    then show "contains ?d sp j = contains d sp j" "l_Name (?d ! j) = l_Name (d ! j)"
      using names_contains [OF nms, of j sp] by (simp_all add: nth_list_update)
  qed
  have "span_range ?d sp = span_range d sp" by (simp add: span_range_def)
  then have "\<forall>j \<in> set is. j \<in> set (span_range ?d sp) \<and> contains ?d sp j \<and> l_Name (?d ! j) = n" using 1(4) c by simp
  from 1(1) [OF names_wf [OF nms 1(2)] 1(3) this] show ?case using update_own_others [OF 1(2) i(1,2) p, of "merged_line (d ! i) w"] i(3) by simp
qed simp_all

lemma merge_effect:
  fixes d sp name ws
  defines "is \<equiv> doc_FindAll d sp name"
  defines "d' \<equiv> merge_lines is ws d"
  assumes wf: "wf_span d sp" and n: "ToUpper name \<notin> {''BEGIN'', ''END''}"
  shows "wf_span d' sp" "doc_FindAll d' sp name = is" "outside d' sp = outside d sp"
    "others {ToUpper name} 0 (body d' sp) = others {ToUpper name} 0 (body d sp)"
    "filter (\<lambda>l. l_Name l = ToUpper name) (view d' sp) =
      (let old = filter (\<lambda>l. l_Name l = ToUpper name) (view d sp) in map2 merged_line (take (length ws) old) (take (length old) ws) @ drop (length ws) old)"
proof -
  have nms: "map l_Name d = map l_Name d'" using merge_lines_other(2) [of "is" ws d] by (simp add: d'_def)
  show wf': "wf_span d' sp" using names_wf [OF nms wf] .
  note nv = names_view [OF nms wf]
  show fa: "doc_FindAll d' sp name = is" using nv(1) by (simp add: is_def)
  have own: "i < length d \<and> i \<in> set (span_range d sp)" if "i \<in> set is" for i using FindAll_own [OF wf] that by (auto simp: is_def)
  have len: "length d' = length d" using merge_lines_other(1) by (simp add: d'_def)
  have out: "d' ! j = d ! j" if "j \<notin> set is" for j using merge_lines_other(3) that by (simp add: d'_def)
  show "outside d' sp = outside d sp"
  proof -
    have "j \<notin> set is" if "j < nat (Begin sp + 1) \<or> nat (End sp) \<le> j" for j
      using that own wf_span_range(1) [OF wf] by fastforce
    then show ?thesis using len out by (auto simp: outside_def intro!: nth_equalityI)
  qed
  show "others {ToUpper name} 0 (body d' sp) = others {ToUpper name} 0 (body d sp)"
    unfolding d'_def by (rule merge_lines_others [OF wf n]) (use FindAll_own [OF wf, of _ name] in \<open>simp add: is_def\<close>)
  have v: "filter (\<lambda>l. l_Name l = ToUpper name) (view d sp) = map ((!) d) is"
    "filter (\<lambda>l. l_Name l = ToUpper name) (view d' sp) = map ((!) d') is"
    using doc_FindAll_view [OF wf, of name] doc_FindAll_view [OF wf', of name] fa by (simp_all add: is_def)
  have "distinct is" "\<forall>j \<in> set is. j < length d" using FindAll_sorted own by (auto simp: is_def)
  from merge_lines_at [OF this, of ws] show "filter (\<lambda>l. l_Name l = ToUpper name) (view d' sp) =
      (let old = filter (\<lambda>l. l_Name l = ToUpper name) (view d sp) in map2 merged_line (take (length ws) old) (take (length old) ws) @ drop (length ws) old)"
    unfolding v Let_def by (simp add: d'_def take_map drop_map)
qed

text \<open>The last occurrence goes, and the indices before it hold.\<close>

lemma depth_skip:
  assumes "i < length d" and "plain (d ! i)" and "b \<le> i" and "i \<le> j" and "j < length d"
  shows "line_depth (map ((!) (take i d @ drop (Suc i) d)) [b..<j]) = line_depth (map ((!) d) [b..<Suc j])"
proof -
  let ?d = "take i d @ drop (Suc i) d"
  have "[b..<j] = [b..<i] @ [i..<j]" "[b..<Suc j] = [b..<i] @ i # [Suc i..<Suc j]"
    using assms(3,4) upt_add_eq_append [of b i "j - i"] upt_add_eq_append [of b i "Suc j - i"] by (simp_all add: upt_conv_Cons)
  moreover have "map ((!) ?d) [b..<i] = map ((!) d) [b..<i]" using assms(1) by (auto simp: nth_append)
  moreover have "map ((!) ?d) [i..<j] = map ((!) d) [Suc i..<Suc j]"
    using assms by (auto intro!: nth_equalityI simp: nth_append simp del: upt_Suc)
  ultimately show ?thesis by (simp only: map_append list.map line_depth_append line_depth_plain [OF assms(2)])
qed

lemma remove_last:
  assumes wf: "wf_span d sp" and n: "ToUpper name \<notin> {''BEGIN'', ''END''}" and fa: "doc_FindAll d sp name = is @ [i]"
    and g: "l_Group (d ! i) = []" and rm: "doc_Remove d sp i = (d', sp')"
  shows "wf_span d' sp'" "outside d' sp' = outside d sp" "doc_FindAll d' sp' name = is" "map ((!) d') is = map ((!) d) is"
    "others {ToUpper name} 0 (body d' sp') = others {ToUpper name} 0 (body d sp)" "i < length d"
proof -
  have "i \<in> set (doc_FindAll d sp name)" using fa by simp
  note o = FindAll_own [OF wf this]
  have p: "plain (d ! i)" using o(3) n by (simp add: plain_def)
  note s = own_split [OF wf o(1,2) p] and r = remove_own [OF wf o(1,2) p g rm]
  show "wf_span d' sp'" "outside d' sp' = outside d sp" "i < length d" using r o(4) by blast+
  show "others {ToUpper name} 0 (body d' sp') = others {ToUpper name} 0 (body d sp)" using r(6) o(3) by simp
  have before: "j < i" if "j \<in> set is" for j
  proof -
    have "sorted (is @ [i])" "distinct (is @ [i])" using FindAll_sorted [of d sp name] fa by simp_all
    then show ?thesis using that by (auto simp: sorted_append less_le)
  qed
  have low: "d' ! j = d ! j" if "j < i" for j using that o(4) r(5) by (simp add: nth_append)
  then show "map ((!) d') is = map ((!) d) is" using before by simp
  note R = wf_span_range [OF wf] and R' = wf_span_range [OF r(1)]
  let ?b = "nat (Begin sp + 1)"
  have bi: "?b \<le> i" "i < nat (End sp)" using o(1) R by auto
  have E: "nat (End sp') = nat (End sp) - 1" using g rm by (auto simp: doc_Remove_def)
  have B: "nat (Begin sp' + 1) = ?b" using r(4) by simp
  have lowp: "is_prop d' sp' (ToUpper name) j = is_prop d sp (ToUpper name) j" if "?b \<le> j" "j < i" for j
  proof -
    have j: "int j \<noteq> Begin sp \<and> Begin sp < int j" "int j < End sp" "int j < End sp'" using that bi E by auto
    have "map ((!) d') [?b..<j] = map ((!) d) [?b..<j]" using low that by auto
    then have "line_depth (map ((!) d') [?b..<j]) = line_depth (map ((!) d) [?b..<j])" by (rule arg_cong)
    then show ?thesis using j low [OF that(2)] r(4) by (simp add: is_prop_def contains_def B)
  qed
  have highp: "\<not> is_prop d' sp' (ToUpper name) j" if "i \<le> j" "j < nat (End sp')" for j
  proof
    assume a: "is_prop d' sp' (ToUpper name) j"
    have j: "Suc j < nat (End sp)" "Suc j < length d" using that E R(3) by auto
    have "d' ! j = d ! Suc j" using that o(4) r(5) by (simp add: nth_append)
    moreover have "line_depth (map ((!) d') [?b..<j]) = line_depth (map ((!) d) [?b..<Suc j])"
      using depth_skip [OF o(4) p bi(1) that(1)] j(2) r(5) by simp
    ultimately have "is_prop d sp (ToUpper name) (Suc j)"
      using a j r(4) by (simp add: is_prop_def contains_def B split: if_splits)
    then have "Suc j \<in> set (doc_FindAll d sp name)" using j R(1) that bi by (simp add: doc_FindAll_def)
    then have "Suc j \<in> set (is @ [i])" using fa by simp
    then show False using before [of "Suc j"] that by auto
  qed
  have "[?b..<nat (End sp')] = [?b..<i] @ [i..<nat (End sp')]" "[?b..<nat (End sp)] = [?b..<i] @ i # [Suc i..<nat (End sp)]"
    using bi E upt_add_eq_append [of ?b i "nat (End sp') - i"] upt_add_eq_append [of ?b i "nat (End sp) - i"] by (simp_all add: upt_conv_Cons)
  moreover have "filter (is_prop d' sp' (ToUpper name)) [i..<nat (End sp')] = []" using highp by (auto simp: filter_empty_conv)
  ultimately have f': "doc_FindAll d' sp' name = filter (is_prop d' sp' (ToUpper name)) [?b..<i]"
    "is @ [i] = filter (is_prop d sp (ToUpper name)) [?b..<i] @ filter (is_prop d sp (ToUpper name)) (i # [Suc i..<nat (End sp)])"
    using fa by (simp_all add: doc_FindAll_def R(1) R'(1) B)
  have "filter (is_prop d sp (ToUpper name)) [Suc i..<nat (End sp)] = []"
  proof -
    have "j \<in> set (is @ [i]) \<Longrightarrow> j \<le> i" for j using before less_imp_le by auto
    then have "\<forall>j \<in> set (filter (is_prop d sp (ToUpper name)) [Suc i..<nat (End sp)]). j \<le> i" using f'(2) by auto
    then show ?thesis by (auto simp: filter_empty_conv)
  qed
  moreover have "is_prop d sp (ToUpper name) i" using o(2,3) by (simp add: is_prop_def)
  ultimately have "is = filter (is_prop d sp (ToUpper name)) [?b..<i]" using f'(2) by simp
  then show "doc_FindAll d' sp' name = is" using f'(1) lowp by (auto intro!: filter_cong)
qed

lemma remove_tail:
  assumes "wf_span d sp" and "ToUpper name \<notin> {''BEGIN'', ''END''}" and "doc_FindAll d sp name = is @ js"
    and "\<forall>i \<in> set js. l_Group (d ! i) = []"
  shows "\<exists>d' sp'. remove_lines (rev js) (d, sp) = Some (d', sp') \<and> wf_span d' sp' \<and> outside d' sp' = outside d sp \<and>
    doc_FindAll d' sp' name = is \<and> map ((!) d') is = map ((!) d) is \<and> set d' \<subseteq> set d \<and>
    others {ToUpper name} 0 (body d' sp') = others {ToUpper name} 0 (body d sp)"
  using assms
proof (induction js arbitrary: d sp rule: rev_induct)
  case (snoc i js)
  obtain d1 sp1 where rm: "doc_Remove d sp i = (d1, sp1)" by fastforce
  have fa: "doc_FindAll d sp name = (is @ js) @ [i]" using snoc.prems(3) by simp
  have g: "l_Group (d ! i) = []" using snoc.prems(4) by simp
  note r = remove_last [OF snoc.prems(1,2) fa g rm]
  have "\<forall>j \<in> set js. l_Group (d1 ! j) = []" using r(4) snoc.prems(4) by auto
  from snoc.IH [OF r(1) snoc.prems(2) r(3) this] obtain d' sp' where IH:
    "remove_lines (rev js) (d1, sp1) = Some (d', sp')" "wf_span d' sp'" "outside d' sp' = outside d1 sp1" "doc_FindAll d' sp' name = is"
    "map ((!) d') is = map ((!) d1) is" "set d' \<subseteq> set d1"
    "others {ToUpper name} 0 (body d' sp') = others {ToUpper name} 0 (body d1 sp1)" by blast
  have "remove_lines (rev (js @ [i])) (d, sp) = Some (d', sp')" using IH(1) rm r(6) by simp
  moreover have "map ((!) d') is = map ((!) d) is" using IH(5) r(4) by simp
  ultimately show ?case using IH r doc_Remove_set [OF rm] by (intro exI [of _ d'] exI [of _ sp']) auto
qed simp

section \<open>SetAll merges lists\<close>

definition occ :: "string \<Rightarrow> document \<times> span \<Rightarrow> line list" where
  "occ name ob = (case ob of (d, sp) \<Rightarrow> filter (\<lambda>l. l_Name l = name) (view d sp))"

definition merge_props :: "(string \<times> string) list \<Rightarrow> Property list \<Rightarrow> (string \<times> string) list" where
  "merge_props old ws = map2 merged (take (length ws) old) (take (length old) ws) @ map created (drop (length old) ws)"

definition ungrouped :: "string \<Rightarrow> document \<times> span \<Rightarrow> bool" where
  "ungrouped name ob = list_all (\<lambda>l. l_Group l = []) (occ name ob)"

lemma insert_values:
  assumes "wf_span d sp" and "edit_key name" and "list_all line_ok d" and "groups_ok d" and "\<forall>w \<in> set ws. params_ok (typeParams (vp_Type w))"
  shows "\<exists>d' sp' ls. set_values name [] ws (d, sp) = (d', sp') \<and> wf_span d' sp' \<and> outside d' sp' = outside d sp \<and>
    view d' sp' = view d sp @ ls \<and> map line_prop ls = map created ws \<and> (\<forall>l \<in> set ls. l_Name l = name \<and> l_Group l = []) \<and>
    list_all line_ok d' \<and> groups_ok d' \<and> others {name} 0 (body d' sp') = others {name} 0 (body d sp)"
  using assms
proof (induction ws arbitrary: d sp)
  case (Cons w ws)
  have k: "name \<noteq> []" "simple name" "ToUpper name = name" "name \<notin> {''BEGIN'', ''END''}" using Cons.prems(2) by (simp_all add: edit_key_def)
  let ?l = "NewLine name (typeParams (vp_Type w)) (Escape (vp_Value w))"
  let ?l' = "?l\<lparr>l_eol := EOL d, l_added := True\<rparr>"
  obtain d1 sp1 where ins: "doc_Insert d sp ?l = (d1, sp1)" by fastforce
  have pl: "plain ?l" using k by (simp add: plain_def NewLine_def)
  note ik = insert_keeps [OF Cons.prems(1) pl ins, unfolded keeps_def]
  have lo: "line_ok ?l'"
  proof -
    have "key_ok name" using k by (simp add: key_ok_def)
    moreover have "one_line (Escape (vp_Value w))" using Escape_no_crlf by (simp add: one_line_def)
    ultimately show ?thesis using NewLine_ok [of name "typeParams (vp_Type w)" "Escape (vp_Value w)" "EOL d"] Cons.prems(5) EOL_ok [OF Cons.prems(3)]
      by simp
  qed
  have d1: "list_all line_ok d1" "groups_ok d1"
  proof -
    obtain k where "d1 = take k d @ ?l' # drop k d" using ins by (auto simp: doc_Insert_def Let_def)
    then have "\<forall>l \<in> set d1. l \<in> set d \<or> l = ?l'" by (auto dest: in_set_takeD in_set_dropD)
    moreover have "simple (l_Group ?l')" by (simp add: NewLine_def simple_def)
    ultimately show "list_all line_ok d1" "groups_ok d1" using Cons.prems(3,4) lo by (fastforce simp: groups_ok_def list_all_iff)+
  qed
  obtain d' sp' ls where IH: "set_values name [] ws (d1, sp1) = (d', sp')" "wf_span d' sp'" "outside d' sp' = outside d1 sp1"
    "view d' sp' = view d1 sp1 @ ls" "map line_prop ls = map created ws" "\<forall>l \<in> set ls. l_Name l = name \<and> l_Group l = []"
    "list_all line_ok d'" "groups_ok d'" "others {name} 0 (body d' sp') = others {name} 0 (body d1 sp1)"
    using Cons.IH [of d1 sp1] ik Cons.prems(2,5) d1 by auto
  have "others {name} 0 (body d1 sp1) = others {name} 0 (body d sp)" using ik k by (simp add: NewLine_def)
  moreover have "line_prop ?l' = created w" "l_Name ?l' = name" "l_Group ?l' = []" using k by (simp_all add: line_prop_def created_def NewLine_def)
  ultimately show ?case
    using IH ik ins by (intro exI [of _ d'] exI [of _ sp'] exI [of _ "?l' # ls"]) simp
qed simp

lemma single_rest:
  assumes "name \<notin> set names" and "filter (\<lambda>l. l_Name l \<noteq> name) ps = filter (\<lambda>l. l_Name l \<noteq> name) qs"
  shows "single names ps = single names qs"
proof -
  have f: "filter (\<lambda>l. l_Name l = n) ps = filter (\<lambda>l. l_Name l = n) (filter (\<lambda>l. l_Name l \<noteq> name) ps)" if "n \<noteq> name" for n ps
    using that by (induction ps) auto
  have g: "list_all (\<lambda>l. l_Name l = n \<longrightarrow> l_Group l = []) ps = list_all (\<lambda>l. l_Group l = []) (filter (\<lambda>l. l_Name l = n) ps)" for n ps
    by (auto simp: list_all_iff)
  have e: "filter (\<lambda>l. l_Name l = n) ps = filter (\<lambda>l. l_Name l = n) qs" if "n \<in> set names" for n
    using f [of n ps] f [of n qs] assms that by metis
  show ?thesis unfolding single_def g by (rule list.pred_cong [OF refl]) (simp only: e)
qed

lemma merged_line_ok:
  assumes "line_ok l" and "simple (l_Group l)" and "edit_key (l_Name l)" and "params_ok (typeParams (vp_Type w))"
  shows "line_ok (merged_line l w)"
proof -
  have "simple (l_Name l)" "l_Name l \<noteq> []" "ToUpper (l_Name l) = l_Name l" using assms(3) by (simp_all add: edit_key_def)
  moreover have "params_ok (l_Params l)" using line_ok_params [OF assms(1,2)] calculation(1) .
  moreover have "one_line (Escape (vp_Value w))" using Escape_no_crlf by (simp add: one_line_def)
  ultimately show ?thesis
    using assms by (auto simp: merged_line_def line_ok_def written_ok_def head_ok_def)
qed

lemma merge_lines_ok:
  "list_all line_ok d \<Longrightarrow> groups_ok d \<Longrightarrow> \<forall>i \<in> set is. i < length d \<and> l_Name (d ! i) = name \<Longrightarrow> edit_key name \<Longrightarrow>
   \<forall>w \<in> set ws. params_ok (typeParams (vp_Type w)) \<Longrightarrow> list_all line_ok (merge_lines is ws d) \<and> groups_ok (merge_lines is ws d)"
proof (induction "is" ws d rule: merge_lines.induct)
  case (1 i "is" w ws d)
  let ?l = "merged_line (d ! i) w"
  have i: "line_ok (d ! i)" "simple (l_Group (d ! i))" "edit_key (l_Name (d ! i))" using 1(2-5) by (auto simp: list_all_length groups_ok_def)
  have l: "line_ok ?l" "simple (l_Group ?l)" using merged_line_ok [OF i] 1(6) i(2) by simp_all
  have "list_all line_ok (d[i := ?l])" "groups_ok (d[i := ?l])"
    using 1(2,3) l by (auto simp: list_all_iff groups_ok_def dest!: set_update_subset_insert [THEN subsetD])
  moreover have "\<forall>j \<in> set is. j < length (d[i := ?l]) \<and> l_Name (d[i := ?l] ! j) = name" using 1(4) by (auto simp: nth_list_update)
  ultimately show ?case using 1 by simp
qed simp_all

text \<open>
  \<open>SetAll\<close> never fails when the occurrences that go away, those past the end of the form's list, are not in groups: it merges the
  list of the form into the list of the card, and leaves every other line alone.
\<close>

definition spare_ungrouped :: "string \<Rightarrow> 'a list \<Rightarrow> document \<times> span \<Rightarrow> bool" where
  "spare_ungrouped name ws ob = list_all (\<lambda>l. l_Group l = []) (drop (length ws) (occ name ob))"

lemma SetAll_merges:
  assumes ed: "editable cn names (d, sp)" and nn: "name \<notin> set names" and key: "edit_key name"
    and ug: "spare_ungrouped name ws (d, sp)" and ty: "\<forall>w \<in> set ws. params_ok (typeParams (vp_Type w))"
  obtains d' sp' where "SetAll name ws (d, sp) = Some (d', sp')" "editable cn names (d', sp')"
    "map line_prop (occ name (d', sp')) = merge_props (map line_prop (occ name (d, sp))) ws"
    "rest_of [name] (d', sp') = rest_of [name] (d, sp)"
proof -
  let ?is = "doc_FindAll d sp name"
  let ?d1 = "merge_lines ?is ws d"
  have ok: "Component d cn = Some sp" "list_all line_ok d" "groups_ok d" "single names (view d sp)" using ed by (simp_all add: editable_def)
  have wf: "wf_span d sp" using Component_wf [OF ok(1)] by simp
  have U: "ToUpper name = name" and nb: "ToUpper name \<notin> {''BEGIN'', ''END''}" using key by (auto simp: edit_key_def)
  note M = merge_effect [OF wf nb, of ws, unfolded U]
  have "\<forall>i \<in> set ?is. i < length d \<and> l_Name (d ! i) = name" using FindAll_own [OF wf] U by auto
  from merge_lines_ok [OF ok(2,3) this key ty] have ok1: "list_all line_ok ?d1" "groups_ok ?d1" by simp_all
  have old: "occ name (d, sp) = map ((!) d) ?is" using doc_FindAll_view [OF wf, of name] U by (simp add: occ_def)
  have len: "length (occ name (d, sp)) = length ?is" using old by simp
  have start: "set_values name ?is ws (d, sp) = set_values name [] (drop (length ?is) ws) (?d1, sp)" by (rule set_values_merge)
  show ?thesis
  proof (cases "length ws \<le> length ?is")
    case True
    have s: "SetAll name ws (d, sp) = remove_lines (rev (drop (length ws) ?is)) (?d1, sp)"
      using True start by (simp add: SetAll_def Let_def)
    have split: "doc_FindAll ?d1 sp name = take (length ws) ?is @ drop (length ws) ?is" using M(2) by simp
    have own: "occ name (?d1, sp) = map ((!) ?d1) ?is" using doc_FindAll_view [OF M(1), of name] U M(2) by (simp add: occ_def)
    have "drop (length ws) (occ name (?d1, sp)) = drop (length ws) (occ name (d, sp))"
      using M(5) True len by (simp add: occ_def Let_def)
    then have "list_all (\<lambda>l. l_Group l = []) (map ((!) ?d1) (drop (length ws) ?is))" using ug own by (simp add: spare_ungrouped_def drop_map)
    then have "\<forall>i \<in> set (drop (length ws) ?is). l_Group (?d1 ! i) = []" by (simp add: list_all_iff)
    from remove_tail [OF M(1) nb split this, unfolded U] obtain d' sp' where r:
      "remove_lines (rev (drop (length ws) ?is)) (?d1, sp) = Some (d', sp')" "wf_span d' sp'" "outside d' sp' = outside ?d1 sp"
      "doc_FindAll d' sp' name = take (length ws) ?is" "map ((!) d') (take (length ws) ?is) = map ((!) ?d1) (take (length ws) ?is)"
      "set d' \<subseteq> set ?d1" "others {name} 0 (body d' sp') = others {name} 0 (body ?d1 sp)" by blast
    have occ': "occ name (d', sp') = take (length ws) (occ name (?d1, sp))"
      using doc_FindAll_view [OF r(2), of name] r(4,5) own U by (simp add: occ_def take_map)
    have rest: "others {name} 0 (body d' sp') = others {name} 0 (body d sp)" "outside d' sp' = outside d sp" using r(3,7) M(3,4) by simp_all
    note same = others_filter [OF rest(1) nb [unfolded U]]
    have kept: "Component d' cn = Some sp'"
      by (rule Component_kept [OF ok(1) r(2) outside_Begin [OF wf r(2) rest(2)] rest(2)])
    show ?thesis
    proof (rule that)
      show "SetAll name ws (d, sp) = Some (d', sp')" using s r(1) by simp
      show "editable cn names (d', sp')"
        using kept ok1 r(6) single_rest [OF nn same] ok(4) by (auto simp: editable_def groups_ok_def list_all_iff)
      show "rest_of [name] (d', sp') = rest_of [name] (d, sp)" using rest by (simp add: rest_of_def)
      show "map line_prop (occ name (d', sp')) = merge_props (map line_prop (occ name (d, sp))) ws"
        using M(5) True len unfolding occ' by (simp add: occ_def Let_def merge_props_def merged_line_prop map_zip_map o_def zip_map1 take_map case_prod_unfold)
    qed
  next
    case False
    have ty': "\<forall>w \<in> set (drop (length ?is) ws). params_ok (typeParams (vp_Type w))" using ty by (auto dest: in_set_dropD)
    from insert_values [OF M(1) key ok1 ty'] obtain d' sp' ls where r:
      "set_values name [] (drop (length ?is) ws) (?d1, sp) = (d', sp')" "wf_span d' sp'" "outside d' sp' = outside ?d1 sp"
      "view d' sp' = view ?d1 sp @ ls" "map line_prop ls = map created (drop (length ?is) ws)" "\<forall>l \<in> set ls. l_Name l = name \<and> l_Group l = []"
      "list_all line_ok d'" "groups_ok d'" "others {name} 0 (body d' sp') = others {name} 0 (body ?d1 sp)" by blast
    have occ': "occ name (d', sp') = occ name (?d1, sp) @ ls" using r(4,6) by (simp add: occ_def filter_id_conv)
    have rest: "others {name} 0 (body d' sp') = others {name} 0 (body d sp)" "outside d' sp' = outside d sp" using r(3,9) M(3,4) by simp_all
    note same = others_filter [OF rest(1) nb [unfolded U]]
    have kept: "Component d' cn = Some sp'"
      by (rule Component_kept [OF ok(1) r(2) outside_Begin [OF wf r(2) rest(2)] rest(2)])
    show ?thesis
    proof (rule that)
      show "SetAll name ws (d, sp) = Some (d', sp')" using False start r(1) by (simp add: SetAll_def Let_def)
      show "editable cn names (d', sp')"
        using kept r(7,8) single_rest [OF nn same] ok(4) by (simp add: editable_def)
      show "rest_of [name] (d', sp') = rest_of [name] (d, sp)" using rest by (simp add: rest_of_def)
      show "map line_prop (occ name (d', sp')) = merge_props (map line_prop (occ name (d, sp))) ws"
        using M(5) False len r(5) unfolding occ' by (simp add: occ_def Let_def merge_props_def merged_line_prop o_def zip_map1 case_prod_unfold)
    qed
  qed
qed

end
