(* ===== verification/VCard_Contact.thy ===== *)
theory VCard_Contact
  imports VCard_Facts DateFormat
begin

text \<open>
  What the editing of a contact rests on: types that read back, the entries a form hands over against the lines of the card,
  and what an edit of some names leaves of the others.
\<close>

section \<open>Types\<close>

definition type_ok :: "string \<Rightarrow> bool" where
  "type_ok t = (ToLower t = t \<and> list_all (\<lambda>c. c \<notin> {CHR '':'', CHR '';'', CHR '','', DQUOTE, CR, LF}) t)"

lemma lower_upper_char: "lower_char (upper_char c) = lower_char c"
proof (cases "97 \<le> (of_char c :: nat) \<and> (of_char c :: nat) \<le> 122")
  case True
  let ?n = "of_char c :: nat"
  have u: "upper_char c = char_of (?n - 32)" using True by (simp add: upper_char_def)
  note m = of_char_upper [OF True]
  have "65 \<le> ?n - 32" "?n - 32 \<le> 90" "?n - 32 + 32 = ?n" "\<not> ?n \<le> 90" using True by linarith+
  then show ?thesis unfolding lower_char_def m Let_def u by simp
next
  case False
  then show ?thesis by (auto simp: upper_char_def Let_def)
qed

lemma ToLower_ToUpper: "ToLower (ToUpper s) = ToLower s"
  by (simp add: ToLower_def ToUpper_def lower_upper_char)

lemma upper_char_low: "upper_char c = d \<Longrightarrow> \<not> (65 \<le> (of_char d :: nat) \<and> (of_char d :: nat) \<le> 90) \<Longrightarrow> c = d"
proof (cases "97 \<le> (of_char c :: nat) \<and> (of_char c :: nat) \<le> 122")
  case True
  assume d: "upper_char c = d" "\<not> (65 \<le> (of_char d :: nat) \<and> (of_char d :: nat) \<le> 90)"
  have "(of_char d :: nat) = (of_char c :: nat) - 32" using of_char_upper [OF True] d(1) by simp
  then show ?thesis using d(2) True by linarith
next
  case False
  assume "upper_char c = d"
  then show ?thesis using False by (auto simp: upper_char_def Let_def)
qed

lemma ToUpper_avoids:
  assumes "list_all (\<lambda>c. c \<notin> {CHR '':'', CHR '';'', CHR '','', DQUOTE, CR, LF}) t"
  shows "list_all (\<lambda>c. c \<notin> {CHR '':'', CHR '';'', CHR '','', DQUOTE, CR, LF}) (ToUpper t)"
proof -
  have "upper_char c \<noteq> CHR '':'' \<and> upper_char c \<noteq> CHR '';'' \<and> upper_char c \<noteq> CHR '','' \<and> upper_char c \<noteq> DQUOTE \<and> upper_char c \<noteq> CR \<and> upper_char c \<noteq> LF"
    if "c \<notin> {CHR '':'', CHR '';'', CHR '','', DQUOTE, CR, LF}" for c
    using that upper_char_low [of c "CHR '':''"] upper_char_low [of c "CHR '';''"] upper_char_low [of c "CHR '',''"]
      upper_char_low [of c DQUOTE] upper_char_low [of c CR] upper_char_low [of c LF] by auto
  then show ?thesis using assms by (auto simp: list_all_iff ToUpper_def)
qed

lemma Trim_none: "DQUOTE \<notin> set s \<Longrightarrow> Trim s [DQUOTE] = s"
proof -
  assume "DQUOTE \<notin> set s"
  then have "dropWhile (\<lambda>c. c \<in> set [DQUOTE]) t = t" if "set t \<subseteq> set s" for t using that by (cases t) auto
  then show ?thesis by (simp add: Trim_def TrimLeft_def TrimRight_def)
qed

lemma typeParams_read:
  assumes "type_ok t"
  shows "params_ok (typeParams t)" "typeParam (typeParams t) = t"
proof -
  let ?u = "ToUpper t"
  have u: "\<forall>c \<in> set ?u. c \<notin> {CHR '':'', CHR '';'', CHR '','', DQUOTE, CR, LF}"
    using ToUpper_avoids [of t] assms unfolding type_ok_def list_all_iff by blast
  have "find_colon False (('';TYPE='' @ ?u) @ CHR '':'' # v) = Some ('';TYPE='' @ ?u, v)" for v
    using find_colon_simple [of "'';TYPE='' @ ?u" False "CHR '':'' # v"] u by simp
  then show "params_ok (typeParams t)" using u by (auto simp: params_ok_def typeParams_def is_crlf_def)
  show "typeParam (typeParams t) = t"
  proof (cases "t = []")
    case True
    have "typeParam [] = []" by code_simp
    then show ?thesis using True by (simp add: typeParams_def)
  next
    case False
    have c: "Cut (CHR ''='') (''TYPE='' @ ?u) = Some (''TYPE'', ?u)" by (simp add: Cut_def)
    have s: "Split (CHR '';'') (''TYPE='' @ ?u) = [''TYPE='' @ ?u]" "Split (CHR '','') ?u = [?u]" using u by (intro Split_no_sep; auto)+
    have "TrimPrefix ('';TYPE='' @ ?u) '';'' = ''TYPE='' @ ?u" by (simp add: TrimPrefix_def HasPrefix_def)
    then have "Params ('';TYPE='' @ ?u) ''TYPE'' = [Trim ?u [DQUOTE]]" unfolding Params_def using s c by (simp add: EqualFold_def)
    then have "Params (typeParams t) ''TYPE'' = [?u]" using Trim_none [of ?u] u False by (auto simp: typeParams_def)
    then show ?thesis using assms by (simp add: typeParam_def Let_def ToLower_ToUpper type_ok_def)
  qed
qed

section \<open>The edit\<close>

definition card_names :: "string list" where
  "card_names = [''FN'', ''N'', ''TITLE'', ''NOTE'', ''URL'', ''ORG'', ''REV'']"

lemma card_keys: "list_all edit_key (''TEL'' # ''EMAIL'' # card_names)"
  by code_simp

lemma card_upper:
  "ToUpper ''FN'' = ''FN''" "ToUpper ''N'' = ''N''" "ToUpper ''TITLE'' = ''TITLE''" "ToUpper ''NOTE'' = ''NOTE''" "ToUpper ''URL'' = ''URL''"
  "ToUpper ''ORG'' = ''ORG''" "ToUpper ''REV'' = ''REV''" "ToUpper ''UID'' = ''UID''" "ToUpper ''VERSION'' = ''VERSION''"
  "ToUpper ''TEL'' = ''TEL''" "ToUpper ''EMAIL'' = ''EMAIL''"
  by code_simp+

text \<open>A card the edit is applied to: each of the properties the form has one of occurs once at most, outside a group.\<close>

definition card_object :: "string \<Rightarrow> bool" where
  "card_object raw =
     (regular raw \<and> groups_ok (Parse raw) \<and>
      (case Component (Parse raw) ''VCARD'' of
         None \<Rightarrow> False
       | Some sp \<Rightarrow> single card_names (view (Parse raw) sp)))"

text \<open>Entries a form hands over: values without carriage returns, ordinary types.\<close>

definition entries_ok :: "Property list \<Rightarrow> bool" where
  "entries_ok ws = list_all (\<lambda>w. CR \<notin> set (vp_Value w) \<and> type_ok (vp_Type w)) ws"

definition shown :: "string \<times> string \<Rightarrow> Property" where
  "shown pv = \<lparr>vp_Value = Unescape (snd pv), vp_Type = typeParam (fst pv)\<rparr>"

lemma Unescape_Escape_value: "CR \<notin> set v \<Longrightarrow> Unescape (Escape v) = v"
  by (rule Unescape_Escape_text)

text \<open>
  An entry of the form in the place of a line of the card: its type is the one asked for, except where the line has that type among
  others already, or none is asked for; then the line's types stay, and it shows what it showed.
\<close>

definition shown_entry :: "string \<times> string \<Rightarrow> Property \<Rightarrow> Property" where
  "shown_entry pv w = w\<lparr>vp_Type := (if hasType (fst pv) (vp_Type w) then typeParam (fst pv) else vp_Type w)\<rparr>"

definition shown_entries :: "(string \<times> string) list \<Rightarrow> Property list \<Rightarrow> Property list" where
  "shown_entries old ws = map2 shown_entry old ws @ drop (length old) ws"

lemma merged_shown: "CR \<notin> set (vp_Value w) \<Longrightarrow> type_ok (vp_Type w) \<Longrightarrow> shown (merged pv w) = shown_entry pv w"
  using typeParams_read(2) [of "vp_Type w"] by (auto simp: merged_def shown_def shown_entry_def Unescape_Escape_text Let_def)

lemma merge_shown:
  assumes "entries_ok ws"
  shows "map shown (merge_props old ws) = shown_entries old ws"
proof -
  have c: "shown (created w) = w" if "w \<in> set ws" for w
    using assms that typeParams_read(2) by (auto simp: entries_ok_def list_all_iff created_def shown_def Unescape_Escape_text)
  have m: "shown (merged pv w) = shown_entry pv w" if "(pv, w) \<in> set (zip old ws)" for pv w
    using assms set_zip_rightD [OF that] merged_shown [of w pv] by (auto simp: entries_ok_def list_all_iff)
  have "zip (take (length ws) old) (take (length old) ws) = zip old ws" by (auto intro!: nth_equalityI)
  then have "map shown (map2 merged (take (length ws) old) (take (length old) ws)) = map2 shown_entry old ws" using m by auto
  moreover have "map shown (map created (drop (length old) ws)) = drop (length old) ws" using c by (auto intro!: map_idI dest: in_set_dropD)
  ultimately show ?thesis unfolding merge_props_def shown_entries_def map_append by simp
qed

lemma Values_occ: "wf_span d sp \<Longrightarrow> Values (d, sp) name = map shown (map line_prop (occ (ToUpper name) (d, sp)))"
proof -
  assume wf: "wf_span d sp"
  have "Values (d, sp) name = map (shown \<circ> line_prop) (map ((!) d) (doc_FindAll d sp name))"
    by (simp add: Values_def shown_def line_prop_def At_def)
  then show ?thesis using doc_FindAll_view [OF wf, of name] by (simp add: occ_def)
qed

text \<open>What an edit of other names leaves.\<close>

lemma rest_mono:
  assumes r: "rest_of names a = rest_of names b" and s: "set names \<subseteq> set names'" and n: "''BEGIN'' \<notin> set names" "''END'' \<notin> set names"
  shows "rest_of names' a = rest_of names' b"
proof -
  obtain d sp d' sp' where ab: "a = (d, sp)" "b = (d', sp')" by (cases a; cases b)
  have "outside d sp = outside d' sp'" "others (set names) 0 (body d sp) = others (set names) 0 (body d' sp')"
    using r by (simp_all add: rest_of_def ab)
  then show ?thesis using others_mono [OF s n, of 0 "body d sp"] others_mono [OF s n, of 0 "body d' sp'"] by (simp add: rest_of_def ab)
qed

lemma rest_occ:
  assumes r: "rest_of names a = rest_of names b" and n: "name \<notin> set names" and be: "''BEGIN'' \<notin> set names" "''END'' \<notin> set names"
  shows "occ name a = occ name b"
proof -
  have f: "filter (\<lambda>l. l_Name l = name) ls = filter (\<lambda>l. l_Name l = name) (filter (\<lambda>l. l_Name l \<notin> set names) ls)" for ls
    using n by (induction ls) auto
  obtain d sp d' sp' where ab: "a = (d, sp)" "b = (d', sp')" by (cases a; cases b)
  have "others (set names) 0 (body d sp) = others (set names) 0 (body d' sp')" using r by (simp add: rest_of_def ab)
  then have "filter (\<lambda>l. l_Name l \<notin> set names) (view d sp) = filter (\<lambda>l. l_Name l \<notin> set names) (view d' sp')"
    using others_view [OF be, of 0 "body d sp"] others_view [OF be, of 0 "body d' sp'"] by (simp add: view_def)
  then show ?thesis using f [of "view d sp"] f [of "view d' sp'"] by (simp add: occ_def ab)
qed

lemma props_occ: "wf_span d sp \<Longrightarrow> props (d, sp) name = (case occ (ToUpper name) (d, sp) of [] \<Rightarrow> None | l # _ \<Rightarrow> Some (line_prop l))"
proof -
  have "List.find P ls = (case filter P ls of [] \<Rightarrow> None | l # _ \<Rightarrow> Some l)" for P and ls :: "line list" by (induction ls) auto
  then show "wf_span d sp \<Longrightarrow> ?thesis" by (simp add: props_view occ_def split: list.split)
qed

end
