(* ===== verification/VCard_Roundtrip.thy ===== *)
theory VCard_Roundtrip
  imports VCard_Contact ContentLine_Facts
begin

text \<open>
  Writing a contact into a card (\<open>edit_card\<close>) as a sequence of steps on the document, and what is read from the card
  afterwards.
\<close>

section \<open>The edit as a sequence of steps\<close>

definition name_puts :: "Contact \<Rightarrow> put list" where
  "name_puts c =
     [(''FN'', None, Escape (ct_FormattedName c)), (''N'', None, structuredName c), (''TITLE'', None, Escape (ct_Title c)),
      (''NOTE'', None, Escape (ct_Note c)), (''URL'', None, Escape (ct_URL c))]"

definition last_puts :: "Contact \<Rightarrow> instant \<Rightarrow> string \<Rightarrow> put list" where
  "last_puts c now old = [(''ORG'', None, organisationValue c old), (''REV'', None, Escape (format_utc (now div second)))]"

lemma card_puts:
  "card_Set name v ob = do_put (name, None, Escape v) ob" "card_SetRaw name v ob = do_put (name, None, v) ob"
  by (simp_all add: card_Set_def card_SetRaw_def do_put_def doc_Set_def doc_SetRaw_def split: prod.split)

lemma edit_card_steps:
  "edit_card c now ob =
     (let c = normalise c in
      case SetAll ''TEL'' (nonEmpty (ct_Phones c)) (do_puts (name_puts c) ob) of
        None \<Rightarrow> None
      | Some ob2 \<Rightarrow>
          (case SetAll ''EMAIL'' (nonEmpty (ct_Emails c)) ob2 of
             None \<Rightarrow> None
           | Some ob3 \<Rightarrow> Some (do_puts (last_puts c now (doc_RawValue (fst ob3) (snd ob3) ''ORG'')) ob3)))"
  unfolding edit_card_def Let_def Touch_def card_puts name_puts_def last_puts_def do_puts_simps by (rule refl)

section \<open>Contacts that a form hands over\<close>

text \<open>Texts without carriage returns, ordinary types, and no line that goes away is in a group.\<close>

definition contact_ok :: "vcard \<Rightarrow> Contact \<Rightarrow> bool" where
  "contact_ok ob c =
     (list_all (\<lambda>s. CR \<notin> set s) [ct_FormattedName c, ct_FamilyName c, ct_GivenName c, ct_Organisation c, ct_Title c, ct_Note c, ct_URL c] \<and>
      entries_ok (nonEmpty (ct_Phones c)) \<and> entries_ok (nonEmpty (ct_Emails c)) \<and>
      spare_ungrouped ''TEL'' (nonEmpty (ct_Phones c)) ob \<and> spare_ungrouped ''EMAIL'' (nonEmpty (ct_Emails c)) ob)"

lemma one_line_parts: "one_line [] \<and> (one_line (c # s) = (\<not> is_crlf c \<and> one_line s)) \<and> (one_line (s @ t) = (one_line s \<and> one_line t))"
  by (auto simp: one_line_def)

lemma EscapeComponent_one_line: "one_line (EscapeComponent s)"
  using Escape_one_line by (simp add: EscapeComponent_def)

lemma name_puts_ok: "list_all (put_ok card_names) (name_puts c)"
  using card_keys Escape_one_line EscapeComponent_one_line
  by (simp add: name_puts_def put_ok_def card_names_def structuredName_def one_line_parts is_crlf_def)

lemma last_puts_ok: "list_all (put_ok card_names) (last_puts c now old)"
proof -
  have "one_line (concat (map (\<lambda>part. '';'' @ EscapeComponent part) ps))" for ps
    using EscapeComponent_one_line by (induction ps) (simp_all add: one_line_parts is_crlf_def)
  then show ?thesis
    using card_keys Escape_one_line EscapeComponent_one_line
    by (simp add: last_puts_def put_ok_def card_names_def organisationValue_def one_line_parts is_crlf_def)
qed

lemma params_entries: "entries_ok ws \<Longrightarrow> \<forall>w \<in> set ws. params_ok (typeParams (vp_Type w))"
  using typeParams_read(1) by (auto simp: entries_ok_def list_all_iff)

section \<open>The effect\<close>

lemma spare_rest: "occ name a = occ name b \<Longrightarrow> spare_ungrouped name ws a = spare_ungrouped name ws b"
  by (simp add: spare_ungrouped_def)

lemma editable_wf: "editable cn names (d, sp) \<Longrightarrow> wf_span d sp"
  using Component_wf by (auto simp: editable_def)

lemma same_props_occ:
  assumes "editable cn names a" and "editable cn names b" and "occ (ToUpper name) a = occ (ToUpper name) b"
  shows "props a name = props b name"
proof -
  obtain d sp d' sp' where ab: "a = (d, sp)" "b = (d', sp')" by (cases a; cases b)
  show ?thesis using props_occ [OF editable_wf] assms unfolding ab by metis
qed

lemma SetAll_step:
  assumes ed: "editable cn card_names ob" and nn: "name \<notin> set card_names" and key: "edit_key name"
    and ug: "spare_ungrouped name ws ob" and ty: "\<forall>w \<in> set ws. params_ok (typeParams (vp_Type w))"
  shows "\<exists>ob'. SetAll name ws ob = Some ob' \<and> editable cn card_names ob' \<and>
    map line_prop (occ name ob') = merge_props (map line_prop (occ name ob)) ws \<and> rest_of [name] ob' = rest_of [name] ob"
proof -
  obtain d sp where ob: "ob = (d, sp)" by (cases ob)
  show ?thesis using SetAll_merges [OF ed [unfolded ob] nn key ug [unfolded ob] ty] unfolding ob by metis
qed

lemma edit_card_effect:
  assumes ed: "editable ''VCARD'' card_names ob" and ok: "contact_ok ob c"
  shows "\<exists>ob'. edit_card c now ob = Some ob' \<and> editable ''VCARD'' card_names ob' \<and>
    map line_prop (occ ''TEL'' ob') = merge_props (map line_prop (occ ''TEL'' ob)) (nonEmpty (ct_Phones c)) \<and>
    map line_prop (occ ''EMAIL'' ob') = merge_props (map line_prop (occ ''EMAIL'' ob)) (nonEmpty (ct_Emails c)) \<and>
    (\<forall>k. ToUpper k \<notin> {''TEL'', ''EMAIL''} \<longrightarrow> props ob' k =
      puts_props (last_puts (normalise c) now (doc_RawValue (fst ob) (snd ob) ''ORG'')) (puts_props (name_puts (normalise c)) (props ob)) k) \<and>
    rest_of (''TEL'' # ''EMAIL'' # card_names) ob' = rest_of (''TEL'' # ''EMAIL'' # card_names) ob"
proof -
  let ?c = "normalise c" and ?all = "''TEL'' # ''EMAIL'' # card_names"
  have phones: "ct_Phones ?c = ct_Phones c" "ct_Emails ?c = ct_Emails c" by (simp_all add: normalise_def)
  have ent: "entries_ok (nonEmpty (ct_Phones c))" "entries_ok (nonEmpty (ct_Emails c))"
    and ug: "spare_ungrouped ''TEL'' (nonEmpty (ct_Phones c)) ob" "spare_ungrouped ''EMAIL'' (nonEmpty (ct_Emails c)) ob"
    using ok by (simp_all add: contact_ok_def)
  have nn: "''TEL'' \<notin> set card_names" "''EMAIL'' \<notin> set card_names" by (simp_all add: card_names_def)
  have be: "''BEGIN'' \<notin> set card_names" "''END'' \<notin> set card_names" by (simp_all add: card_names_def)
  have keys: "edit_key ''TEL''" "edit_key ''EMAIL''" using card_keys by simp_all
  define ob1 where "ob1 = do_puts (name_puts ?c) ob"
  have s1: "editable ''VCARD'' card_names ob1" "props ob1 = puts_props (name_puts ?c) (props ob)" "rest_of card_names ob1 = rest_of card_names ob"
    using do_puts_steps [OF ed name_puts_ok [of ?c]] by (simp_all add: ob1_def)
  have o1: "occ ''TEL'' ob1 = occ ''TEL'' ob" "occ ''EMAIL'' ob1 = occ ''EMAIL'' ob" using rest_occ [OF s1(3) _ be] nn by blast+
  obtain ob2 where s2: "SetAll ''TEL'' (nonEmpty (ct_Phones c)) ob1 = Some ob2" "editable ''VCARD'' card_names ob2"
    "map line_prop (occ ''TEL'' ob2) = merge_props (map line_prop (occ ''TEL'' ob1)) (nonEmpty (ct_Phones c))" "rest_of [''TEL''] ob2 = rest_of [''TEL''] ob1"
    using SetAll_step [OF s1(1) nn(1) keys(1) _ params_entries [OF ent(1)]] ug(1) spare_rest [OF o1(1)] by auto
  have o2: "occ n ob2 = occ n ob1" if "n \<noteq> ''TEL''" for n using rest_occ [OF s2(4)] that by simp
  have "''EMAIL'' \<noteq> ''TEL''" by simp
  then have "spare_ungrouped ''EMAIL'' (nonEmpty (ct_Emails c)) ob2" using ug(2) spare_rest [OF o2] spare_rest [OF o1(2)] by metis
  then obtain ob3 where s3: "SetAll ''EMAIL'' (nonEmpty (ct_Emails c)) ob2 = Some ob3" "editable ''VCARD'' card_names ob3"
    "map line_prop (occ ''EMAIL'' ob3) = merge_props (map line_prop (occ ''EMAIL'' ob2)) (nonEmpty (ct_Emails c))" "rest_of [''EMAIL''] ob3 = rest_of [''EMAIL''] ob2"
    using SetAll_step [OF s2(2) nn(2) keys(2) _ params_entries [OF ent(2)]] by auto
  have o3: "occ n ob3 = occ n ob2" if "n \<noteq> ''EMAIL''" for n using rest_occ [OF s3(4)] that by simp
  have p3: "props ob3 k = props ob1 k" if "ToUpper k \<notin> {''TEL'', ''EMAIL''}" for k
    using same_props_occ [OF s3(2) s1(1), of k] o3 [of "ToUpper k"] o2 [of "ToUpper k"] that by simp
  have "props ob3 ''ORG'' = props ob ''ORG''"
    using p3 [of "''ORG''"] s1(2) puts_props_other [of "''ORG''" "name_puts ?c"] by (simp add: card_upper name_puts_def)
  then have org: "doc_RawValue (fst ob3) (snd ob3) ''ORG'' = doc_RawValue (fst ob) (snd ob) ''ORG''"
    by (cases ob3; cases ob) (simp add: props_RawValue)
  let ?ps = "last_puts ?c now (doc_RawValue (fst ob) (snd ob) ''ORG'')"
  define ob4 where "ob4 = do_puts ?ps ob3"
  have s4: "editable ''VCARD'' card_names ob4" "props ob4 = puts_props ?ps (props ob3)" "rest_of card_names ob4 = rest_of card_names ob3"
    using do_puts_steps [OF s3(2) last_puts_ok [of ?c now "doc_RawValue (fst ob) (snd ob) ''ORG''"]] by (simp_all add: ob4_def)
  have o4: "occ ''TEL'' ob4 = occ ''TEL'' ob3" "occ ''EMAIL'' ob4 = occ ''EMAIL'' ob3" using rest_occ [OF s4(3) _ be] nn by blast+
  have e: "edit_card c now ob = Some ob4"
    by (simp add: edit_card_steps Let_def phones s2(1) [unfolded ob1_def] s3(1) org ob4_def)
  have pp: "puts_props ?ps m k = puts_props ?ps m' k" if "\<And>n. n = k \<or> n \<in> {''ORG'', ''REV''} \<Longrightarrow> m n = m' n" for m m' k
    using that by (simp add: last_puts_def puts_props_def put_props_def card_upper)
  have "rest_of ?all ob4 = rest_of ?all ob3" "rest_of ?all ob3 = rest_of ?all ob2" "rest_of ?all ob2 = rest_of ?all ob1" "rest_of ?all ob1 = rest_of ?all ob"
    by (rule rest_mono [OF s4(3)] rest_mono [OF s3(4)] rest_mono [OF s2(4)] rest_mono [OF s1(3)]; use be in auto)+
  moreover have "props ob4 k = puts_props ?ps (puts_props (name_puts ?c) (props ob)) k" if "ToUpper k \<notin> {''TEL'', ''EMAIL''}" for k
    unfolding s4(2) using p3 that s1(2) by (intro pp) (auto simp: card_upper)
  ultimately show ?thesis using e s4(1) s2(3) s3(3) o1 o2 o3 o4 by (intro exI [of _ ob4]) simp
qed

section \<open>Reading it back\<close>

lemma occ_same:
  assumes "same d d'" and "wf_span d sp" and "wf_span d' sp"
  shows "map line_prop (occ n (d, sp)) = map line_prop (occ n (d', sp))"
proof -
  have c: "map line_prop (filter (\<lambda>l. l_Name l = n) ls) = map (\<lambda>c. snd (snd c)) (filter (\<lambda>c. fst (snd c) = n) (map content ls))" for ls
    by (induction ls) (simp_all add: content_def line_prop_def)
  show ?thesis using same_view [OF assms] by (simp add: occ_def c)
qed

definition raw_of :: "prop_map \<Rightarrow> string \<Rightarrow> string" where
  "raw_of m n = (case m n of None \<Rightarrow> [] | Some (_, v) \<Rightarrow> v)"

lemma raw_of_RawValue: "doc_RawValue d sp n = raw_of (props (d, sp)) n"
  by (simp add: props_RawValue raw_of_def)

lemma text_of_Value: "doc_Value d sp n = prop_text (props (d, sp)) n"
  by (simp add: props_Value prop_text_def)

lemma raw_put: "ToUpper n = n \<Longrightarrow> raw_of (put_props n ps v m) n = v"
  by (simp add: raw_of_def put_props_def)

lemma written_props:
  fixes c :: Contact and now :: instant and old :: string and m :: prop_map
  defines "M \<equiv> puts_props (last_puts c now old) (puts_props (name_puts c) m)"
  shows "prop_text M ''FN'' = filter (\<lambda>x. x \<noteq> CR) (ct_FormattedName c)" "prop_text M ''TITLE'' = filter (\<lambda>x. x \<noteq> CR) (ct_Title c)"
    "prop_text M ''NOTE'' = filter (\<lambda>x. x \<noteq> CR) (ct_Note c)" "prop_text M ''URL'' = filter (\<lambda>x. x \<noteq> CR) (ct_URL c)"
    "raw_of M ''N'' = structuredName c" "raw_of M ''ORG'' = organisationValue c old"
    "M ''UID'' = m ''UID''" "M ''VERSION'' = m ''VERSION''"
proof -
  have d: "distinct (map fst (name_puts c))" "distinct (map fst (last_puts c now old))" by (simp_all add: name_puts_def last_puts_def)
  have other: "M k = puts_props (name_puts c) m k" if "ToUpper k \<notin> {''ORG'', ''REV''}" for k
    using puts_props_other [of k "last_puts c now old" "puts_props (name_puts c) m"] that by (simp add: M_def last_puts_def)
  have at: "M n = put_props n None v m n" if "(n, None, v) \<in> set (name_puts c)" "ToUpper n = n" "n \<notin> {''ORG'', ''REV''}" for n v
    using puts_props_at [OF d(1) that(1,2), of m] other [of n] that(2,3) by simp
  have t: "prop_text M n = filter (\<lambda>x. x \<noteq> CR) v" if "(n, None, Escape v) \<in> set (name_puts c)" "ToUpper n = n" "n \<notin> {''ORG'', ''REV''}" for n v
    using at [OF that] text_put [OF that(2), of None v m] by (simp add: prop_text_def)
  show "prop_text M ''FN'' = filter (\<lambda>x. x \<noteq> CR) (ct_FormattedName c)" "prop_text M ''TITLE'' = filter (\<lambda>x. x \<noteq> CR) (ct_Title c)"
    "prop_text M ''NOTE'' = filter (\<lambda>x. x \<noteq> CR) (ct_Note c)" "prop_text M ''URL'' = filter (\<lambda>x. x \<noteq> CR) (ct_URL c)"
    by (rule t; simp add: name_puts_def card_upper)+
  show "raw_of M ''N'' = structuredName c"
    using at [of "''N''" "structuredName c"] raw_put [of "''N''" None "structuredName c" m]
    by (simp add: name_puts_def card_upper raw_of_def)
  have "(''ORG'', None, organisationValue c old) \<in> set (last_puts c now old)" by (simp add: last_puts_def)
  from puts_props_at [OF d(2) this card_upper(6)] show "raw_of M ''ORG'' = organisationValue c old"
    using raw_put [OF card_upper(6)] by (simp add: M_def raw_of_def)
  show "M ''UID'' = m ''UID''" "M ''VERSION'' = m ''VERSION''"
    using other [of "''UID''"] other [of "''VERSION''"] puts_props_other [of "''UID''" "name_puts c" m] puts_props_other [of "''VERSION''" "name_puts c" m]
    by (simp_all add: card_upper name_puts_def)
qed

lemma no_CR_filter: "CR \<notin> set s \<Longrightarrow> filter (\<lambda>x. x \<noteq> CR) s = s"
  by (auto simp: filter_id_conv)

lemma name_read:
  assumes "CR \<notin> set (ct_FamilyName c)" and "CR \<notin> set (ct_GivenName c)"
  defines "parts \<equiv> (if structuredName c = [] then [] else SplitStructured (structuredName c))"
  shows "(if length parts > 0 then parts ! 0 else []) = ct_FamilyName c" "(if length parts > 1 then parts ! 1 else []) = ct_GivenName c"
proof -
  have "structuredName c = Join '';'' (map EscapeComponent [ct_FamilyName c, ct_GivenName c, [], [], []])"
    if "\<not> (ct_FamilyName c = [] \<and> ct_GivenName c = [])"
    using that by (simp add: structuredName_def EscapeComponent_def Escape_def)
  then have "parts = [ct_FamilyName c, ct_GivenName c, [], [], []]" if "\<not> (ct_FamilyName c = [] \<and> ct_GivenName c = [])"
    using that split_structured_join [of "[ct_FamilyName c, ct_GivenName c, [], [], []]"] assms(1,2)
    by (auto simp: parts_def no_CR_filter structuredName_def)
  moreover have "parts = []" if "ct_FamilyName c = [] \<and> ct_GivenName c = []" using that by (simp add: parts_def structuredName_def)
  ultimately show "(if length parts > 0 then parts ! 0 else []) = ct_FamilyName c" "(if length parts > 1 then parts ! 1 else []) = ct_GivenName c"
    by (cases "ct_FamilyName c = [] \<and> ct_GivenName c = []"; simp)+
qed

lemma organisation_read:
  assumes "CR \<notin> set (ct_Organisation c)"
  shows "firstField (organisationValue c old) = ct_Organisation c"
proof (cases "ct_Organisation c = []")
  case True
  have "firstField [] = []" by code_simp
  then show ?thesis using True by (simp add: organisationValue_def)
next
  case False
  have "x @ concat (map (\<lambda>p. '';'' @ EscapeComponent p) ps) = Join '';'' (x # map EscapeComponent ps)" for x ps
  proof (induction ps arbitrary: x)
    case (Cons p ps)
    show ?case using Cons [of "EscapeComponent p"] by (simp add: Join_Cons)
  qed simp
  then have "organisationValue c old = Join '';'' (map EscapeComponent (ct_Organisation c # drop 1 (SplitStructured old)))"
    using False by (simp add: organisationValue_def)
  then show ?thesis
    using split_structured_join [of "ct_Organisation c # drop 1 (SplitStructured old)"] assms by (simp add: firstField_def no_CR_filter)
qed

section \<open>The contact read back\<close>

lemma TrimSpace_subset: "set (TrimSpace s) \<subseteq> set s"
proof -
  have "set (dropWhile is_space t) \<subseteq> set t" for t by (auto dest: set_dropWhileD)
  then have "set (rev (dropWhile is_space (rev (dropWhile is_space s)))) \<subseteq> set s" by (metis set_rev subset_trans)
  then show ?thesis by (simp add: TrimSpace_def TrimLeft_def TrimRight_def)
qed

lemma normalised_no_CR:
  assumes "contact_ok ob c"
  shows "list_all (\<lambda>s. CR \<notin> set s) [ct_FormattedName (normalise c), ct_Title c, ct_Note c, ct_URL c]"
proof -
  have "CR \<notin> set (ct_GivenName c @ '' '' @ ct_FamilyName c)" using assms by (auto simp: contact_ok_def)
  then have "CR \<notin> set (TrimSpace (ct_GivenName c @ '' '' @ ct_FamilyName c))" using TrimSpace_subset by blast
  then show ?thesis using assms by (auto simp: contact_ok_def normalise_def ct_DisplayName_def)
qed

abbreviation card_lines :: "string \<Rightarrow> vcard \<Rightarrow> (string \<times> string) list" where
  "card_lines n ob \<equiv> map line_prop (occ n ob)"

definition edited_contact :: "vcard \<Rightarrow> Contact \<Rightarrow> Contact" where
  "edited_contact ob c =
     (normalise c)\<lparr>ct_UID := card_Value ob ''UID'', ct_Phones := shown_entries (card_lines ''TEL'' ob) (nonEmpty (ct_Phones c)),
       ct_Emails := shown_entries (card_lines ''EMAIL'' ob) (nonEmpty (ct_Emails c))\<rparr>"

lemma vcard_Parse_Inr:
  "vcard_Parse raw = Inr (d, sp) \<longleftrightarrow> d = Parse raw \<and> d \<noteq> [] \<and> Component d ''VCARD'' = Some sp \<and> doc_Value d sp ''VERSION'' \<noteq> []"
  by (auto simp: vcard_Parse_def Let_def split: option.splits)

lemma card_object_parts:
  assumes "vcard_Parse raw = Inr (d, sp)" and "card_object raw"
  shows "editable ''VCARD'' card_names (d, sp)"
  using assms Parse_ok [of raw] by (auto simp: vcard_Parse_Inr card_object_def editable_def split: option.splits)

lemma applied_card:
  assumes p: "vcard_Parse raw = Inr (d, sp)" and co: "card_object raw"
    and ok: "contact_ok (d, sp) c"
    and a: "vcard_Apply raw c now = Some (Inr out)"
  obtains sp' where "vcard_Parse out = Inr (Parse out, sp')" "wf_span (Parse out) sp'"
    "card_lines ''TEL'' (Parse out, sp') = merge_props (card_lines ''TEL'' (d, sp)) (nonEmpty (ct_Phones c))"
    "card_lines ''EMAIL'' (Parse out, sp') = merge_props (card_lines ''EMAIL'' (d, sp)) (nonEmpty (ct_Emails c))"
    "\<And>k. ToUpper k \<notin> {''TEL'', ''EMAIL''} \<Longrightarrow> props (Parse out, sp') k =
      puts_props (last_puts (normalise c) now (doc_RawValue d sp ''ORG'')) (puts_props (name_puts (normalise c)) (props (d, sp))) k"
    "untouched (''TEL'' # ''EMAIL'' # card_names) (Parse out, sp') = untouched (''TEL'' # ''EMAIL'' # card_names) (d, sp)"
proof -
  note parts = card_object_parts [OF p co]
  obtain d' sp' where e: "edit_card c now (d, sp) = Some (d', sp')" "editable ''VCARD'' card_names (d', sp')"
    "card_lines ''TEL'' (d', sp') = merge_props (card_lines ''TEL'' (d, sp)) (nonEmpty (ct_Phones c))"
    "card_lines ''EMAIL'' (d', sp') = merge_props (card_lines ''EMAIL'' (d, sp)) (nonEmpty (ct_Emails c))"
    "\<And>k. ToUpper k \<notin> {''TEL'', ''EMAIL''} \<Longrightarrow> props (d', sp') k =
      puts_props (last_puts (normalise c) now (doc_RawValue d sp ''ORG'')) (puts_props (name_puts (normalise c)) (props (d, sp))) k"
    "rest_of (''TEL'' # ''EMAIL'' # card_names) (d', sp') = rest_of (''TEL'' # ''EMAIL'' # card_names) (d, sp)"
    using edit_card_effect [OF parts ok, of now] by (metis prod.collapse fst_conv snd_conv)
  have b: "doc_Bytes d' = Some out"
    using a p e(1) by (auto simp: vcard_Apply_def split: sum.splits) (cases "ct_validate c"; simp)+
  note r = editable_read_back [OF e(2) b]
  have "d = Parse raw" using p by (simp add: vcard_Parse_Inr)
  note u = untouched_read_back [OF e(2) b e(6), unfolded this, OF Parse_unedited]
  have w: "wf_span (Parse out) sp'" "wf_span d' sp'" using editable_wf r(4) e(2) by blast+
  have v: "doc_Value (Parse out) sp' ''VERSION'' = doc_Value d sp ''VERSION''"
    using written_props(8) [of "normalise c" now] e(5) [of "''VERSION''"] by (simp add: text_of_Value r(2) card_upper prop_text_def)
  have ne: "Parse out \<noteq> []" using w(1) by (auto simp: wf_span_def)
  show ?thesis
  proof (rule that)
    show "vcard_Parse out = Inr (Parse out, sp')" using v ne r(1) p unfolding vcard_Parse_Inr by metis
    show "untouched (''TEL'' # ''EMAIL'' # card_names) (Parse out, sp') = untouched (''TEL'' # ''EMAIL'' # card_names) (d, sp)"
      using u p by (simp add: vcard_Parse_Inr)
    show "props (Parse out, sp') k =
      puts_props (last_puts (normalise c) now (doc_RawValue d sp ''ORG'')) (puts_props (name_puts (normalise c)) (props (d, sp))) k"
      if "ToUpper k \<notin> {''TEL'', ''EMAIL''}" for k using e(5) [OF that] r(2) by simp
  qed (use w occ_same [OF r(3) w] e(3,4) in simp_all)
qed

lemma applied_contact:
  assumes "vcard_Parse raw = Inr (d, sp)" and "card_object raw"
    and "contact_ok (d, sp) c"
    and "vcard_Apply raw c now = Some (Inr out)"
  shows "ReadContact out = Inr (edited_contact (d, sp) c)"
proof -
  from applied_card [OF assms] obtain sp' where a: "vcard_Parse out = Inr (Parse out, sp')" "wf_span (Parse out) sp'"
    "card_lines ''TEL'' (Parse out, sp') = merge_props (card_lines ''TEL'' (d, sp)) (nonEmpty (ct_Phones c))"
    "card_lines ''EMAIL'' (Parse out, sp') = merge_props (card_lines ''EMAIL'' (d, sp)) (nonEmpty (ct_Emails c))"
    "\<And>k. ToUpper k \<notin> {''TEL'', ''EMAIL''} \<Longrightarrow> props (Parse out, sp') k =
      puts_props (last_puts (normalise c) now (doc_RawValue d sp ''ORG'')) (puts_props (name_puts (normalise c)) (props (d, sp))) k"
    by blast
  let ?ob = "(Parse out, sp')"
  have same: "ct_FamilyName (normalise c) = ct_FamilyName c" "ct_GivenName (normalise c) = ct_GivenName c"
    "ct_Organisation (normalise c) = ct_Organisation c" "ct_Title (normalise c) = ct_Title c" "ct_Note (normalise c) = ct_Note c"
    "ct_URL (normalise c) = ct_URL c" "structuredName (normalise c) = structuredName c"
    "organisationValue (normalise c) old = organisationValue c old" for old
    by (simp_all add: normalise_def structuredName_def organisationValue_def)
  have cr: "CR \<notin> set (ct_FamilyName c)" "CR \<notin> set (ct_GivenName c)" "CR \<notin> set (ct_Organisation c)"
    and ent: "entries_ok (nonEmpty (ct_Phones c))" "entries_ok (nonEmpty (ct_Emails c))"
    using assms(3) by (simp_all add: contact_ok_def)
  have vals: "Values ?ob ''TEL'' = shown_entries (card_lines ''TEL'' (d, sp)) (nonEmpty (ct_Phones c))"
    "Values ?ob ''EMAIL'' = shown_entries (card_lines ''EMAIL'' (d, sp)) (nonEmpty (ct_Emails c))"
    using merge_shown [OF ent(1)] merge_shown [OF ent(2)] by (simp_all add: Values_occ [OF a(2)] card_upper a(3,4))
  note w = written_props [of "normalise c" now "doc_RawValue d sp ''ORG''" "props (d, sp)"]
  have texts: "card_Value ?ob ''FN'' = ct_FormattedName (normalise c)" "card_Value ?ob ''TITLE'' = ct_Title c"
    "card_Value ?ob ''NOTE'' = ct_Note c" "card_Value ?ob ''URL'' = ct_URL c" "card_Value ?ob ''UID'' = card_Value (d, sp) ''UID''"
    "doc_RawValue (Parse out) sp' ''N'' = structuredName c" "doc_RawValue (Parse out) sp' ''ORG'' = organisationValue c (doc_RawValue d sp ''ORG'')"
    using w normalised_no_CR [OF assms(3)] same
    by (simp_all add: card_Value_def text_of_Value raw_of_RawValue prop_text_def raw_of_def a(5) card_upper no_CR_filter)
  have norm: "normalise c = c\<lparr>ct_FormattedName := ct_FormattedName (normalise c)\<rparr>" by (simp add: normalise_def)
  have "read_card ?ob = edited_contact (d, sp) c"
    unfolding read_card_def edited_contact_def Let_def prod.case texts vals name_read [OF cr(1,2)] organisation_read [OF cr(3)]
    by (subst norm) simp
  then show ?thesis using a(1) by (simp add: ReadContact_def)
qed


text \<open>
  C14. Nothing else of the card is touched: every line before and after it and every line in it of another name, grouped ones and nested
  components among them, has the same bytes, in the same order. As above this takes that no line that goes away is in a
  group: the code removes a group as a whole.
\<close>

theorem contact_edit_keeps_rest:
  assumes "vcard_Parse raw = Inr (d, sp)" and "card_object raw"
    and "contact_ok (d, sp) c"
    and "vcard_Apply raw c now = Some (Inr out)"
  shows "\<exists>sp'. vcard_Parse out = Inr (Parse out, sp') \<and>
    untouched (''TEL'' # ''EMAIL'' # card_names) (Parse out, sp') = untouched (''TEL'' # ''EMAIL'' # card_names) (d, sp)"
  using applied_card [OF assms] by metis

text \<open>A card with a photograph, a grouped address and two numbers, and a form that drops one number and adds an address.\<close>

definition sample_card :: string where
  "sample_card = concat (map (\<lambda>l. l @ [CR, LF])
     [''BEGIN:VCARD'', ''VERSION:3.0'', ''UID:u1'', ''FN:Ada'', ''N:Lovelace;Ada;;;'', ''ORG:Engine;Notes'', ''item1.X-ABLABEL:x'',
      ''item1.EMAIL;TYPE=INTERNET:old@b'', ''TEL;TYPE=PREF,HOME:1'', ''TEL:2'', ''photo:p'', ''END:VCARD''])"

definition sample_contact :: Contact where
  "sample_contact = \<lparr>ct_UID = [], ct_FormattedName = [], ct_FamilyName = ''King; L.'', ct_GivenName = ''Ada'', ct_Organisation = ''A, B'',
     ct_Title = ''Ms'', ct_Note = ''two'' @ [LF] @ ''lines'', ct_Phones = [\<lparr>vp_Value = ''7'', vp_Type = ''pref''\<rparr>, \<lparr>vp_Value = '' '', vp_Type = []\<rparr>],
     ct_Emails = [\<lparr>vp_Value = ''a@b'', vp_Type = ''home''\<rparr>, \<lparr>vp_Value = ''c@d'', vp_Type = ''work''\<rparr>], ct_URL = []\<rparr>"

abbreviation sample_card_object :: vcard where "sample_card_object \<equiv> (Parse sample_card, \<lparr>Begin = 0, End = 11\<rparr>)"

lemma sample_card_ok:
  "vcard_Parse sample_card = Inr sample_card_object" "card_object sample_card" "contact_ok sample_card_object sample_contact"
  by code_simp+

lemma sample_contact_done: "\<exists>out. vcard_Apply sample_card sample_contact 0 = Some (Inr out)"
proof -
  have "case vcard_Apply sample_card sample_contact 0 of Some (Inr _) \<Rightarrow> True | _ \<Rightarrow> False" by code_simp
  then show ?thesis by (auto split: option.splits sum.splits)
qed


theorem contact_edit_keeps_rest_witness:
  "\<exists>out sp'. vcard_Apply sample_card sample_contact 0 = Some (Inr out) \<and>
     untouched (''TEL'' # ''EMAIL'' # card_names) (Parse out, sp') =
       ([''BEGIN:VCARD''], [''VERSION:3.0'', ''UID:u1'', ''item1.X-ABLABEL:x'', ''photo:p''], [''END:VCARD''])"
proof -
  obtain out where o: "vcard_Apply sample_card sample_contact 0 = Some (Inr out)" using sample_contact_done by blast
  have "untouched (''TEL'' # ''EMAIL'' # card_names) sample_card_object =
      ([''BEGIN:VCARD''], [''VERSION:3.0'', ''UID:u1'', ''item1.X-ABLABEL:x'', ''photo:p''], [''END:VCARD''])" by code_simp
  then show ?thesis using contact_edit_keeps_rest [OF sample_card_ok o] o by metis
qed

end
