(* ===== verification/Admin_Forms.thy ===== *)
theory Admin_Forms
  imports VCard_Edit ICal_Edit NetUrl
begin

text \<open>
  The functions of \<open>internal/admin\<close> that need neither the database nor the response: what the forms say
  (\<open>contactFromForm\<close>, \<open>eventFromForm\<close>), what the pages say (\<open>formatWhen\<close>, \<open>describeRecurrence\<close>, the error
  texts), and the checks on names and slugs. A form is the list of its fields with their values in order.
\<close>

section \<open>Text\<close>

text \<open>\<open>strconv.Quote\<close>; a byte outside ASCII stands for itself.\<close>

definition quote_char :: "char \<Rightarrow> string" where
  "quote_char c =
     (let n = (of_char c :: nat) in
      if c = DQUOTE then [BACKSLASH, DQUOTE] else if c = BACKSLASH then [BACKSLASH, BACKSLASH]
      else if n = 7 then BACKSLASH # ''a'' else if n = 8 then BACKSLASH # ''b'' else if n = 12 then BACKSLASH # ''f''
      else if n = 10 then BACKSLASH # ''n'' else if n = 13 then BACKSLASH # ''r'' else if n = 9 then BACKSLASH # ''t''
      else if n = 11 then BACKSLASH # ''v''
      else if n < 32 \<or> n = 127 then
        BACKSLASH # ''x'' @ ToLower [upper_hex (n div 16), upper_hex (n mod 16)]
      else [c])"

definition Quote :: "string \<Rightarrow> string" where
  "Quote s = [DQUOTE] @ concat (map quote_char s) @ [DQUOTE]"

text \<open>\<open>strings.Fields\<close>, and the first letter of a field with the bytes that continue it.\<close>

fun fields_acc :: "string \<Rightarrow> string \<Rightarrow> string list" where
  "fields_acc w [] = (if w = [] then [] else [w])"
| "fields_acc w (c # s) = (if is_space c then (if w = [] then [] else [w]) @ fields_acc [] s else fields_acc (w @ [c]) s)"

definition Fields :: "string \<Rightarrow> string list" where
  "Fields s = fields_acc [] s"

definition continues :: "char \<Rightarrow> bool" where
  "continues c = (let n = (of_char c :: nat) in 128 \<le> n \<and> n < 192)"

definition rune :: "string \<Rightarrow> string" where
  "rune s = (case s of [] \<Rightarrow> [] | c # t \<Rightarrow> c # takeWhile continues t)"

definition initials :: "string \<Rightarrow> string" where
  "initials name =
     (case Fields name of
        [] \<Rightarrow> ''?''
      | [f] \<Rightarrow>
          let first = rune f; rest = drop (length first) f
          in if rest = [] then ToUpper first else ToUpper first @ ToLower (rune rest)
      | f # fs \<Rightarrow> ToUpper (rune f @ rune (last fs)))"

definition plural :: "int \<Rightarrow> string" where
  "plural n = (if n = 1 then [] else ''s'')"

definition joinWords :: "string list \<Rightarrow> string" where
  "joinWords ws =
     (case ws of
        [] \<Rightarrow> []
      | [w] \<Rightarrow> w
      | [v, w] \<Rightarrow> v @ '' and '' @ w
      | _ \<Rightarrow> Join '', '' (butlast ws) @ '' and '' @ last ws)"

text \<open>\<open>Duration.Round\<close> of a positive duration.\<close>

definition round_to :: "int \<Rightarrow> int \<Rightarrow> int" where
  "round_to m d = (let r = d mod m in if r + r < m then d - r else if d + (m - r) < 2 ^ 63 then d + (m - r) else 2 ^ 63 - 1)"

definition humaniseWait :: "int \<Rightarrow> string" where
  "humaniseWait d =
     (if d < 60 * second then ''less than a minute''
      else let minutes = round_to (60 * second) d div (60 * second)
           in if minutes = 1 then ''a minute'' else FormatInt minutes @ '' minutes'')"

definition atoiOr :: "string \<Rightarrow> int \<Rightarrow> int" where
  "atoiOr s fallback = (case ParseInt s of None \<Rightarrow> fallback | Some n \<Rightarrow> n)"

section \<open>User names and slugs\<close>

definition minPasswordLen :: nat where "minPasswordLen = 8"

definition validateUsername :: "string \<Rightarrow> string option" where
  "validateUsername username =
     (if username = [] then Some ''A username is required.''
      else if length username > 64 then Some ''That username is too long.''
      else if ContainsAny username (''/?#% '' @ [BACKSLASH, TAB])
      then Some (''A username cannot contain spaces or any of / '' @ [BACKSLASH] @ '' ? # %.'')
      else None)"

definition slugPattern :: "string \<Rightarrow> bool" where
  "slugPattern s =
     (case s of [] \<Rightarrow> False | c # t \<Rightarrow> is_alnum c \<and> list_all (\<lambda>c. is_alnum c \<or> c \<in> set ''._-'') t)"

definition slug_letter :: "char \<Rightarrow> bool" where
  "slug_letter c = (let n = (of_char c :: nat) in (97 \<le> n \<and> n \<le> 122) \<or> (48 \<le> n \<and> n \<le> 57))"

text \<open>The loop of \<open>Slugify\<close>: what is built so far and whether it ends in a separator.\<close>

fun slug_loop :: "string \<Rightarrow> bool \<Rightarrow> string \<Rightarrow> string" where
  "slug_loop b dash [] = b"
| "slug_loop b dash (r # s) =
     (if slug_letter r then slug_loop (b @ [r]) False s
      else if r = CHR ''.'' \<or> r = CHR ''_'' then slug_loop (b @ [r]) False s
      else if \<not> dash \<and> length b > 0 then slug_loop (b @ ''-'') True s
      else slug_loop b dash s)"

definition Slugify :: "string \<Rightarrow> string" where
  "Slugify name =
     (let slug = Trim (slug_loop [] False (ToLower (TrimSpace name))) ''-._''
      in if slug = [] then []
         else if length slug > 60 then Trim (take 60 slug) ''-._'' else slug)"

section \<open>Addresses\<close>

definition baseURL :: "string \<Rightarrow> bool \<Rightarrow> string \<Rightarrow> string" where
  "baseURL configured tls host =
     (if configured \<noteq> [] then TrimRight configured ''/'' else (if tls then ''https'' else ''http'') @ ''://'' @ host)"

text \<open>\<open>strings.Cut\<close> at a longer separator: what follows it.\<close>

fun cut_after :: "string \<Rightarrow> string \<Rightarrow> string option" where
  "cut_after sep [] = (if sep = [] then Some [] else None)"
| "cut_after sep (c # s) = (if HasPrefix (c # s) sep then Some (drop (length sep) (c # s)) else cut_after sep s)"

definition hostOf :: "string \<Rightarrow> string" where
  "hostOf base = TrimSuffix (case cut_after ''://'' base of Some after \<Rightarrow> after | None \<Rightarrow> base) ''/''"

definition isLoopback :: "string \<Rightarrow> bool" where
  "isLoopback base =
     (let host = hostOf base;
          host = (case Cut (CHR '':'') host of Some (h, _) \<Rightarrow> h | None \<Rightarrow> host)
      in host = ''localhost'' \<or> host = ''127.0.0.1'' \<or> host = ''::1'' \<or> host = ''[::1]'')"

section \<open>Forms\<close>

type_synonym form = "(string \<times> string list) list"

text \<open>\<open>PostFormValue\<close> and \<open>Query().Get\<close>: the first value of a field. \<open>PostForm[field]\<close>: all of them.\<close>

definition form_values :: "form \<Rightarrow> string \<Rightarrow> string list" where
  "form_values f field = (case map_of f field of None \<Rightarrow> [] | Some vs \<Rightarrow> vs)"

definition form_value :: "form \<Rightarrow> string \<Rightarrow> string" where
  "form_value f field = (case form_values f field of [] \<Rightarrow> [] | v # _ \<Rightarrow> v)"

definition trimmed :: "form \<Rightarrow> string \<Rightarrow> string" where
  "trimmed f field = TrimSpace (form_value f field)"

definition firstValue :: "Property list \<Rightarrow> string" where
  "firstValue ps = (case List.find (\<lambda>p. vp_Value p \<noteq> []) ps of None \<Rightarrow> [] | Some p \<Rightarrow> vp_Value p)"

definition propertiesFromForm :: "form \<Rightarrow> string \<Rightarrow> Property list" where
  "propertiesFromForm f field =
     (let values = form_values f (field @ ''_value''); types = form_values f (field @ ''_type'')
      in concat (map (\<lambda>(i, v). let v = TrimSpace v in
           if v = [] then []
           else [\<lparr>vp_Value = v, vp_Type = (if i < length types then ToLower (TrimSpace (types ! i)) else [])\<rparr>])
           (enumerate 0 values)))"

definition contactFromForm :: "form \<Rightarrow> Contact" where
  "contactFromForm f =
     \<lparr>ct_UID = trimmed f ''uid'', ct_FormattedName = trimmed f ''formatted_name'', ct_FamilyName = trimmed f ''family_name'',
      ct_GivenName = trimmed f ''given_name'', ct_Organisation = trimmed f ''organisation'', ct_Title = trimmed f ''title'',
      ct_Note = trimmed f ''note'', ct_Phones = propertiesFromForm f ''phone'', ct_Emails = propertiesFromForm f ''email'',
      ct_URL = trimmed f ''url''\<rparr>"

text \<open>The layouts \<open>2006-01-02\<close> and \<open>2006-01-02T15:04\<close>, written and read.\<close>

definition format_day :: "time \<Rightarrow> string" where
  "format_day t =
     (case civil_of_days (t div 86400) of
        (y, m, d) \<Rightarrow> year_text y @ ''-'' @ pad 2 (FormatInt m) @ ''-'' @ pad 2 (FormatInt d))"

definition format_hm :: "time \<Rightarrow> string" where
  "format_hm t = (let s = t mod 86400 in pad 2 (FormatInt (s div 3600)) @ '':'' @ pad 2 (FormatInt (s div 60 mod 60)))"

definition formatEndDate :: "Event \<Rightarrow> string" where
  "formatEndDate e =
     (if ev_AllDay e \<and> ev_End e > ev_Start e then format_day (instant_AddDate (ev_End e) 0 0 (-1) div second)
      else format_day (ev_End e div second))"

text \<open>A date, and what follows it.\<close>

definition take_day :: "string \<Rightarrow> (int \<times> int \<times> int \<times> string) option" where
  "take_day s =
     (case take_digits 4 s of None \<Rightarrow> None | Some (y, s) \<Rightarrow>
      case CutPrefix s ''-'' of None \<Rightarrow> None | Some s \<Rightarrow>
      case take_digits 2 s of None \<Rightarrow> None | Some (m, s) \<Rightarrow>
      case CutPrefix s ''-'' of None \<Rightarrow> None | Some s \<Rightarrow>
      case take_digits 2 s of None \<Rightarrow> None | Some (d, s) \<Rightarrow> Some (y, m, d, s))"

definition day_ok :: "int \<Rightarrow> int \<Rightarrow> int \<Rightarrow> bool" where
  "day_ok y m d = (1 \<le> m \<and> m \<le> 12 \<and> 1 \<le> d \<and> d \<le> daysIn m y)"

definition parse_day :: "string \<Rightarrow> instant option" where
  "parse_day s =
     (case take_day s of
        None \<Rightarrow> None
      | Some (y, m, d, s) \<Rightarrow> if s = [] \<and> day_ok y m d then Some (Date y m d 0 * second) else None)"

definition parse_day_hm :: "string \<Rightarrow> instant option" where
  "parse_day_hm s =
     (case take_day s of None \<Rightarrow> None | Some (y, mo, d, s) \<Rightarrow>
      case CutPrefix s ''T'' of None \<Rightarrow> None | Some s \<Rightarrow>
      case getnum s of None \<Rightarrow> None | Some (h, s) \<Rightarrow>
      case CutPrefix s '':'' of None \<Rightarrow> None | Some s \<Rightarrow>
      case take_digits 2 s of None \<Rightarrow> None | Some (mi, s) \<Rightarrow>
        if s = [] \<and> day_ok y mo d \<and> h < 24 \<and> mi < 60 then Some (Date y mo d (h * 3600 + mi * 60) * second) else None)"

definition parseFormTime :: "string \<Rightarrow> string \<Rightarrow> bool \<Rightarrow> instant option" where
  "parseFormTime date clock allDay =
     (if date = [] then None
      else if allDay \<or> clock = [] then parse_day date
      else parse_day_hm (date @ ''T'' @ clock))"

text \<open>The event as far as it could be read, and the message when it could not be.\<close>

definition eventFromForm :: "form \<Rightarrow> Event \<times> string option" where
  "eventFromForm f =
     (let allDay = (trimmed f ''all_day'' = ''1'');
          e = \<lparr>ev_UID = trimmed f ''uid'', ev_Summary = trimmed f ''summary'', ev_Location = trimmed f ''location'',
               ev_Description = trimmed f ''description'', ev_Start = zeroInstant, ev_End = zeroInstant, ev_AllDay = allDay,
               ev_Timezone = trimmed f ''timezone'', ev_Recurrence = trimmed f ''recurrence''\<rparr>
      in case parseFormTime (trimmed f ''start_date'') (trimmed f ''start_time'') allDay of
           None \<Rightarrow> (e, Some ''The start is not a valid date and time.'')
         | Some start \<Rightarrow>
             let e = e\<lparr>ev_Start := start\<rparr>
             in case parseFormTime (trimmed f ''end_date'') (trimmed f ''end_time'') allDay of
                  None \<Rightarrow> (e, Some ''The end is not a valid date and time.'')
                | Some end_time \<Rightarrow>
                    let e = e\<lparr>ev_End := (if allDay then instant_AddDate end_time 0 0 1 else end_time)\<rparr>
                    in (if allDay then e\<lparr>ev_Timezone := []\<rparr> else e, None))"

section \<open>Errors on a form\<close>

definition vcard_error_text :: "vcard_error \<Rightarrow> string" where
  "vcard_error_text e =
     (case e of
        EmptyCard \<Rightarrow> ''vcard: empty card''
      | NotACard \<Rightarrow> ''vcard: missing BEGIN:VCARD or END:VCARD''
      | NoVersion \<Rightarrow> ''vcard: missing VERSION''
      | NoName \<Rightarrow> ''vcard: a contact needs at least a name'')"

text \<open>
  The text of an error of \<open>ical\<close>, given what it quotes: the zone, the duration, or for a time that cannot be read
  all of its message.
\<close>

definition ical_error_text :: "string \<Rightarrow> ical_error \<Rightarrow> string" where
  "ical_error_text q e =
     (case e of
        EmptyObject \<Rightarrow> ''ical: empty object''
      | NoCalendar \<Rightarrow> ''ical: missing BEGIN:VCALENDAR or END:VCALENDAR''
      | NoEvent \<Rightarrow> ''ical: no VEVENT to edit''
      | NoTime \<Rightarrow> ''ical: VEVENT has no DTSTART''
      | UnreadableTime \<Rightarrow> q
      | NoTitle \<Rightarrow> ''ical: an event needs a title''
      | NoStart \<Rightarrow> ''ical: an event needs a start''
      | EndsBeforeStart \<Rightarrow> ''ical: an event cannot end before it starts''
      | UnknownTimezone \<Rightarrow> ''ical: unknown time zone '' @ Quote q
      | NotADuration \<Rightarrow> ''ical: '' @ Quote q @ '' is not a duration''
      | MonthsNotFixed \<Rightarrow> ''ical: months are not a fixed duration'')"

text \<open>Which time of an event \<open>ReadEvent\<close> stumbles over; \<open>perr\<close> is the text of a \<open>time.ParseError\<close>.\<close>

definition unreadable_text :: "(string \<Rightarrow> string) \<Rightarrow> string \<Rightarrow> string" where
  "unreadable_text perr raw =
     (case ical_Parse raw of
        Inl _ \<Rightarrow> []
      | Inr (d, sp) \<Rightarrow>
          let name = (case readTime (d, sp) ''DTSTART'' of Inl _ \<Rightarrow> ''DTSTART'' | Inr _ \<Rightarrow> ''DTEND'')
          in case doc_Find d sp name of
               None \<Rightarrow> []
             | Some i \<Rightarrow>
                 let v = TrimSpace (l_Value (At d i))
                 in if length v = 8 \<or> HasSuffix v ''Z'' \<or> length v = 15 then perr v
                    else ''ical: cannot read '' @ name @ '' value '' @ Quote v)"

definition capitalised :: "string \<Rightarrow> string" where
  "capitalised msg = ToUpper (take 1 msg) @ drop 1 msg @ ''.''"

definition humanise :: "string \<Rightarrow> string" where
  "humanise msg =
     (case cut_after '': '' msg of
        Some rest \<Rightarrow> if HasPrefix msg ''vcard: '' then capitalised rest else capitalised msg
      | None \<Rightarrow> capitalised msg)"

definition humaniseICal :: "string \<Rightarrow> string" where
  "humaniseICal msg =
     (let msg = (case CutPrefix msg ''ical: '' of Some rest \<Rightarrow> rest | None \<Rightarrow> msg)
      in if msg = [] then ''That event could not be saved.'' else capitalised msg)"

section \<open>When an event is, and how it repeats\<close>

definition en_dash :: string where
  "en_dash = [SP, CHR 0xE2, CHR 0x80, CHR 0x93, SP]"

text \<open>The layouts \<open>2 Jan 2006\<close> and \<open>2 Jan 2006, 15:04\<close>.\<close>

definition format_long_day :: "time \<Rightarrow> string" where
  "format_long_day t =
     (case civil_of_days (t div 86400) of (y, m, d) \<Rightarrow> FormatInt d @ '' '' @ month_names ! nat (m - 1) @ '' '' @ year_text y)"

definition formatWhen :: "time \<Rightarrow> time option \<Rightarrow> bool \<Rightarrow> string" where
  "formatWhen start end_time allDay =
     (if allDay then
        (case end_time of
           Some e \<Rightarrow>
             if Sub (e * second) (start * second) > 24 * 3600 * second
             then format_long_day start @ en_dash @ format_long_day (AddDate e 0 0 (-1))
             else format_long_day start
         | None \<Rightarrow> format_long_day start)
      else
        let when = format_long_day start @ '', '' @ format_hm start
        in case end_time of
             None \<Rightarrow> when
           | Some e \<Rightarrow>
               if e div 86400 = start div 86400 then when @ en_dash @ format_hm e
               else when @ en_dash @ format_long_day e @ '', '' @ format_hm e)"

definition frequencyNames :: "(string \<times> string) list" where
  "frequencyNames = [(''SECONDLY'', ''second''), (''MINUTELY'', ''minute''), (''HOURLY'', ''hour''), (''DAILY'', ''day''),
     (''WEEKLY'', ''week''), (''MONTHLY'', ''month''), (''YEARLY'', ''year'')]"

definition weekdayNames :: "(string \<times> string) list" where
  "weekdayNames = [(''MO'', ''Monday''), (''TU'', ''Tuesday''), (''WE'', ''Wednesday''), (''TH'', ''Thursday''),
     (''FR'', ''Friday''), (''SA'', ''Saturday''), (''SU'', ''Sunday'')]"

definition repeatOptions :: "(string \<times> string) list" where
  "repeatOptions = [([], ''Does not repeat''), (''FREQ=DAILY'', ''Every day''), (''FREQ=WEEKLY'', ''Every week''),
     (''FREQ=MONTHLY'', ''Every month''), (''FREQ=YEARLY'', ''Every year'')]"

text \<open>The map \<open>parts\<close>: a later part of the same name replaces an earlier one.\<close>

definition rule_parts :: "string \<Rightarrow> (string \<times> string) list" where
  "rule_parts rule =
     rev (concat (map (\<lambda>part. case Cut (CHR ''='') part of None \<Rightarrow> [] | Some (k, v) \<Rightarrow> [(ToUpper k, v)]) (Split (CHR '';'') rule)))"

definition rule_part :: "string \<Rightarrow> string \<Rightarrow> string" where
  "rule_part rule key = (case map_of (rule_parts rule) key of None \<Rightarrow> [] | Some v \<Rightarrow> v)"

definition named_days :: "string \<Rightarrow> string list" where
  "named_days days =
     concat (map (\<lambda>day. let stripped = TrimLeft day ''+-0123456789'' in
       case map_of weekdayNames (ToUpper stripped) of
         Some name \<Rightarrow> if stripped = day then [name] else []
       | None \<Rightarrow> []) (Split (CHR '','') days))"

definition rule_end :: "string \<Rightarrow> string" where
  "rule_end rule =
     (if rule_part rule ''COUNT'' \<noteq> [] then
        (case ParseInt (rule_part rule ''COUNT'') of Some n \<Rightarrow> '', '' @ FormatInt n @ '' times'' | None \<Rightarrow> [])
      else if rule_part rule ''UNTIL'' \<noteq> [] then
        (let u = rule_part rule ''UNTIL'' in
         if length u \<ge> 8 then '', until '' @ take 4 u @ ''-'' @ take 2 (drop 4 u) @ ''-'' @ take 2 (drop 6 u) else [])
      else [])"

definition describeRecurrence :: "string \<Rightarrow> string" where
  "describeRecurrence rule =
     (case map_of frequencyNames (ToUpper (rule_part rule ''FREQ'')) of
        None \<Rightarrow> ''Repeats on a schedule this page cannot describe''
      | Some freq \<Rightarrow>
          let interval = (case ParseInt (rule_part rule ''INTERVAL'') of Some n \<Rightarrow> if n > 1 then n else 1 | None \<Rightarrow> 1);
              named = named_days (rule_part rule ''BYDAY'')
          in (if interval = 1 then ''Every '' @ freq
              else if interval = 2 then ''Every other '' @ freq
              else ''Every '' @ FormatInt interval @ '' '' @ freq @ ''s'') @
             (if named = [] then [] else '' on '' @ joinWords named) @
             rule_end rule)"

end
