(* ===== verification/Admin.thy ===== *)
theory Admin
  imports Admin_Forms ServerBase Session_Auth
begin

text \<open>
  \<open>internal/admin/admin.go\<close>, \<open>render.go\<close> and \<open>security.go\<close>: the server of the administration pages, what a page is given to
  show, how answers are written, and the two handlers of the login. A request is the one of \<open>Webdav\<close> with
  the form, the query, the wildcards of the route, the cookie and what the middleware found as its context. Running a
  template is the parameter \<open>x_exec\<close>. A handler that does not return (a loop in the editing packages, a
  panic) is \<open>None\<close>; logging is left out.
\<close>

section \<open>What a page is given\<close>

record formValues =
  fv_Username :: string
  fv_DisplayName :: string
  fv_Email :: string
  fv_URI :: string

record confirmation =
  cf_Title :: string
  cf_Body :: string
  cf_Verb :: string
  cf_Action :: string
  cf_Cancel :: string

record userRow =
  ur_User :: user
  ur_Calendars :: int
  ur_AddressBooks :: int

record contactRow =
  cr_URI :: string
  cr_Name :: string
  cr_UID :: string
  cr_Email :: string
  cr_Phone :: string

record eventRow =
  er_URI :: string
  er_Summary :: string
  er_When :: string
  er_Location :: string
  er_AllDay :: bool
  er_Recurring :: bool
  er_Past :: bool

text \<open>\<open>pageData\<close>: what every page shows, what the lists show, what one object shows, and the client setup.\<close>

record setupData =
  sd_BaseURL :: string
  sd_HasBaseURL :: bool
  sd_Host :: string
  sd_Insecure :: bool
  sd_Principal :: string
  sd_CalendarHomePath :: string
  sd_AddressBookHomePath :: string
  sd_CalendarHome :: string
  sd_AddressBookHome :: string
  sd_PathUser :: string
  sd_CalDAVEnabled :: bool
  sd_CardDAVEnabled :: bool
  sd_UserCount :: int

record pageData =
  pd_Title :: string
  pd_Nav :: string
  pd_CSRFToken :: string
  pd_User :: "user option"
  pd_Nonce :: string
  pd_Error :: string
  pd_FormError :: string
  pd_Message :: string
  pd_Form :: formValues
  pd_Users :: "userRow list"
  pd_Subject :: "user option"
  pd_IsSelf :: bool
  pd_Collections :: "collection list"
  pd_Collection :: "collection option"
  pd_ColorValue :: string
  pd_ObjectCount :: int
  pd_CollectionURL :: string
  pd_IsAddressBook :: bool
  pd_Contacts :: "contactRow list"
  pd_Query :: string
  pd_MatchCount :: int
  pd_Page :: int
  pd_Pages :: int
  pd_PrevPage :: int
  pd_NextPage :: int
  pd_Contact :: "Contact option"
  pd_ContactURI :: string
  pd_ContactAction :: string
  pd_TypeOptions :: "string list"
  pd_IsCalendar :: bool
  pd_Events :: "eventRow list"
  pd_Event :: "Event option"
  pd_EventURI :: string
  pd_EventAction :: string
  pd_Repeats :: "(string \<times> string) list"
  pd_RepeatSummary :: string
  pd_HasOverrides :: bool
  pd_Confirm :: confirmation
  pd_Setup :: setupData
  pd_CalendarCount :: int
  pd_AddressBookCount :: int


definition no_form :: formValues where
  "no_form = \<lparr>fv_Username = [], fv_DisplayName = [], fv_Email = [], fv_URI = []\<rparr>"

definition no_setup :: setupData where
  "no_setup = \<lparr>sd_BaseURL = [], sd_HasBaseURL = False, sd_Host = [], sd_Insecure = False, sd_Principal = [],
     sd_CalendarHomePath = [], sd_AddressBookHomePath = [], sd_CalendarHome = [], sd_AddressBookHome = [], sd_PathUser = [],
     sd_CalDAVEnabled = False, sd_CardDAVEnabled = False, sd_UserCount = 0\<rparr>"

definition no_data :: pageData where
  "no_data = \<lparr>pd_Title = [], pd_Nav = [], pd_CSRFToken = [], pd_User = None, pd_Nonce = [], pd_Error = [], pd_FormError = [],
     pd_Message = [], pd_Form = no_form, pd_Users = [], pd_Subject = None, pd_IsSelf = False, pd_Collections = [],
     pd_Collection = None, pd_ColorValue = [], pd_ObjectCount = 0, pd_CollectionURL = [], pd_IsAddressBook = False,
     pd_Contacts = [], pd_Query = [], pd_MatchCount = 0, pd_Page = 0, pd_Pages = 0, pd_PrevPage = 0, pd_NextPage = 0,
     pd_Contact = None, pd_ContactURI = [], pd_ContactAction = [], pd_TypeOptions = [], pd_IsCalendar = False, pd_Events = [],
     pd_Event = None, pd_EventURI = [], pd_EventAction = [], pd_Repeats = [], pd_RepeatSummary = [], pd_HasOverrides = False,
     pd_Confirm = \<lparr>cf_Title = [], cf_Body = [], cf_Verb = [], cf_Action = [], cf_Cancel = []\<rparr>, pd_Setup = no_setup,
     pd_CalendarCount = 0, pd_AddressBookCount = 0\<rparr>"

section \<open>Requests and the server\<close>

text \<open>
  What a handler sees of a request beside its method, path and headers: the user, session and nonce the
  middleware puts into the context; the session cookie, the form, the query and the wildcards \<open>{id}\<close> and \<open>{uri}\<close>;
  whether it came over TLS and the Host it names.
\<close>

record admin_context =
  ac_User :: "user option"
  ac_Session :: "session option"
  ac_Nonce :: string
  ac_Cookie :: "string option"
  ac_Form :: form
  ac_Query :: form
  ac_ID :: string
  ac_URI :: string
  ac_TLS :: bool
  ac_Host :: string

type_synonym admin_req = "admin_context request"

text \<open>The clock and the random bytes of one request, and whether the verifier had a slot.\<close>

record draws =
  dw_Now :: instant
  dw_Nonce :: "string option"
  dw_Salt :: string
  dw_Token :: string
  dw_CSRF :: string
  dw_UID :: string
  dw_FileUID :: string
  dw_Granted :: bool

text \<open>
  The libraries: net/http's, SHA-256 and the decoders, argon2, the zone database, which template files parse, running a
  template's block on its data (\<open>None\<close> is an error halfway), the handler of the static files, the text of a \<open>time.ParseError\<close>, the local zone and its name.
\<close>

record admin_env =
  ax_env :: env
  ax_lib :: lib
  ax_idkey :: idkey
  ax_locs :: "string \<Rightarrow> Location option"
  ax_parse :: "string \<Rightarrow> bool"
  ax_exec :: "string \<Rightarrow> string \<Rightarrow> pageData \<Rightarrow> string option"
  ax_static :: "string \<Rightarrow> rw \<Rightarrow> rw"
  ax_perr :: "string \<Rightarrow> string"
  ax_Local :: Location
  ax_LocalName :: string

record admin_server =
  as_Sessions :: Sessions
  as_BaseURL :: string
  as_DAVPrefix :: string
  as_CalDAVEnabled :: bool
  as_CardDAVEnabled :: bool
  as_templates :: "string list"
  as_ext :: admin_env

type_synonym 's handler = "admin_req \<Rightarrow> rw \<Rightarrow> 's \<Rightarrow> (rw \<times> 's) option"
type_synonym admin_handler = "db handler"

definition loginPath :: string where "loginPath = ''/admin/login''"
definition basePath :: string where "basePath = ''/admin/''"

abbreviation StatusSeeOther :: nat where "StatusSeeOther \<equiv> 303"
abbreviation StatusUnprocessableEntity :: nat where "StatusUnprocessableEntity \<equiv> 422"

definition pages :: "string list" where
  "pages = [''login.html'', ''users.html'', ''user.html'', ''collection.html'', ''confirm.html'', ''setup.html'',
     ''contact.html'', ''event.html'']"

definition parseTemplates :: "(string \<Rightarrow> bool) \<Rightarrow> string list option" where
  "parseTemplates parses = (if list_all parses pages then Some pages else None)"

definition rq_form :: "admin_req \<Rightarrow> string \<Rightarrow> string" where
  "rq_form r field = trimmed (ac_Form (rq_Context r)) field"

definition rq_query :: "admin_req \<Rightarrow> string \<Rightarrow> string" where
  "rq_query r field = form_value (ac_Query (rq_Context r)) field"

section \<open>Answers\<close>

definition http_NotFound :: "rw \<Rightarrow> rw" where
  "http_NotFound w = http_Error ''404 page not found'' StatusNotFound w"

text \<open>\<open>fail\<close>\<close>

definition admin_fail :: "rw \<Rightarrow> rw" where
  "admin_fail w = http_Error ''something went wrong'' StatusInternalServerError w"

text \<open>\<open>http.SetCookie\<close>; the Expires attribute, which repeats Max-Age, is left out.\<close>

definition SetCookie :: "cookie \<Rightarrow> rw \<Rightarrow> rw" where
  "SetCookie c w =
     header_Add ''Set-Cookie''
       (''edav_session='' @ ck_Value c @ ''; Path='' @ ck_Path c @ ''; Max-Age='' @ FormatInt (max (ck_MaxAge c) 0) @
        (if ck_HttpOnly c then ''; HttpOnly'' else []) @ (if ck_Secure c then ''; Secure'' else []) @ ''; SameSite=Lax'') w"

definition see_other :: "admin_server \<Rightarrow> admin_req \<Rightarrow> string \<Rightarrow> rw \<Rightarrow> rw" where
  "see_other A r path w = http_Redirect (ax_env (as_ext A)) r path StatusSeeOther w"

text \<open>\<open>redirect\<close>\<close>

definition admin_redirect :: "admin_server \<Rightarrow> admin_req \<Rightarrow> string \<Rightarrow> rw \<Rightarrow> rw" where
  "admin_redirect A r path w =
     (if Get ''Hx-Request'' r = ''true'' then WriteHeader StatusOK (header_Set ''Hx-Redirect'' path w)
      else see_other A r path w)"

text \<open>\<open>page\<close> looks for a session itself when the middleware has not, which drops an expired one.\<close>

definition admin_page ::
    "admin_server \<Rightarrow> instant \<Rightarrow> admin_req \<Rightarrow> string \<Rightarrow> string \<Rightarrow> pageData \<Rightarrow> db \<Rightarrow> pageData \<times> db" where
  "admin_page A now r title nav data db =
     (let c = rq_Context r;
          data = data\<lparr>pd_Title := title, pd_Nav := nav, pd_Nonce := ac_Nonce c\<rparr>;
          data = (case ac_User c of Some u \<Rightarrow> data\<lparr>pd_User := Some u\<rparr> | None \<Rightarrow> data)
      in case ac_Session c of
           Some s \<Rightarrow> (data\<lparr>pd_CSRFToken := s_CSRFToken s\<rparr>, db)
         | None \<Rightarrow>
             (case session_Get now (ac_Cookie c) db of
                (Inr (s, _), db') \<Rightarrow> (data\<lparr>pd_CSRFToken := s_CSRFToken s\<rparr>, db')
              | (Inl _, db') \<Rightarrow> (data, db')))"

definition header_Get :: "string \<Rightarrow> rw \<Rightarrow> string" where
  "header_Get k w = (case map_of (rw_Header w) k of None \<Rightarrow> [] | Some v \<Rightarrow> v)"

definition render :: "admin_server \<Rightarrow> string \<Rightarrow> pageData \<Rightarrow> rw \<Rightarrow> rw" where
  "render A name data w =
     (if name \<notin> set (as_templates A) then admin_fail w
      else case ax_exec (as_ext A) name ''layout'' data of
             None \<Rightarrow> admin_fail w
           | Some html \<Rightarrow>
               let w = header_Set ''Content-Type'' ''text/html; charset=utf-8'' w;
                   w = (if header_Get ''Cache-Control'' w = [] then header_Set ''Cache-Control'' ''no-store'' w else w)
               in Write (Text html) w)"

definition renderFragment :: "admin_server \<Rightarrow> string \<Rightarrow> string \<Rightarrow> pageData \<Rightarrow> rw \<Rightarrow> rw" where
  "renderFragment A name block data w =
     (if name \<notin> set (as_templates A) then admin_fail w
      else case ax_exec (as_ext A) name block data of
             None \<Rightarrow> admin_fail w
           | Some html \<Rightarrow>
               Write (Text html) (header_Set ''Cache-Control'' ''no-store''
                 (header_Set ''Content-Type'' ''text/html; charset=utf-8'' w)))"

definition renderStatus :: "admin_server \<Rightarrow> nat \<Rightarrow> string \<Rightarrow> pageData \<Rightarrow> rw \<Rightarrow> rw" where
  "renderStatus A code name data w = render A name data (WriteHeader code w)"

section \<open>The middleware\<close>

definition scriptNonce :: "draws \<Rightarrow> string option" where
  "scriptNonce D = map_option (\<lambda>b. raw_url_encode (take 16 b)) (dw_Nonce D)"

definition quoted_word :: "string \<Rightarrow> string" where
  "quoted_word s = CHR 0x27 # s @ [CHR 0x27]"

definition content_policy :: "string \<Rightarrow> string" where
  "content_policy nonce =
     ''default-src '' @ quoted_word ''self'' @ ''; script-src '' @ quoted_word ''self'' @ '' '' @ quoted_word (''nonce-'' @ nonce) @
     ''; style-src '' @ quoted_word ''self'' @ '' '' @ quoted_word ''unsafe-inline'' @ ''; img-src '' @ quoted_word ''self'' @
     '' data:; form-action '' @ quoted_word ''self'' @ ''; frame-ancestors '' @ quoted_word ''none'' @ ''; base-uri '' @ quoted_word ''none''"

definition secureHeaders :: "draws \<Rightarrow> 's handler \<Rightarrow> 's handler" where
  "secureHeaders D next r w st =
     (case scriptNonce D of
        None \<Rightarrow> Some (http_Error ''something went wrong'' StatusInternalServerError w, st)
      | Some nonce \<Rightarrow>
          next (r\<lparr>rq_Context := (rq_Context r)\<lparr>ac_Nonce := nonce\<rparr>\<rparr>)
            (header_Set ''Referrer-Policy'' ''no-referrer''
              (header_Set ''X-Frame-Options'' ''DENY''
                (header_Set ''Content-Security-Policy'' (content_policy nonce) w))) st)"

text \<open>\<open>RequireSession\<close> in front of a handler: what it reads of the request, and its answers written out.\<close>

definition session_request :: "admin_req \<Rightarrow> admin_request" where
  "session_request r =
     \<lparr>ar_Method = rq_Method r, ar_Cookie = ac_Cookie (rq_Context r), ar_CSRFHeader = Get ''X-Csrf-Token'' r,
      ar_CSRFForm = form_value (ac_Form (rq_Context r)) ''csrf_token'', ar_HXRequest = Get ''Hx-Request'' r\<rparr>"

definition with_session :: "admin_server \<Rightarrow> instant \<Rightarrow> admin_handler \<Rightarrow> admin_handler" where
  "with_session A now next r w db =
     (case RequireSession loginPath now (session_request r) db of
        (NextWith s u, db') \<Rightarrow> next (r\<lparr>rq_Context := (rq_Context r)\<lparr>ac_User := Some u, ac_Session := Some s\<rparr>\<rparr>) w db'
      | (HXRedirect p, db') \<Rightarrow>
          Some (WriteHeader StatusOK (header_Set ''Hx-Redirect'' p (SetCookie (session_Clear (as_Sessions A)) w)), db')
      | (SeeOther p, db') \<Rightarrow> Some (see_other A r p (SetCookie (session_Clear (as_Sessions A)) w), db')
      | (InvalidCSRF, db') \<Rightarrow> Some (http_Error ''invalid CSRF token'' StatusForbidden w, db'))"

definition requireAdmin :: "admin_handler \<Rightarrow> admin_handler" where
  "requireAdmin next r w db =
     (case ac_User (rq_Context r) of
        Some u \<Rightarrow>
          if \<not> u_IsAdmin u then Some (http_Error ''administrator access required'' StatusForbidden w, db) else next r w db
      | None \<Rightarrow> Some (http_Error ''administrator access required'' StatusForbidden w, db))"

section \<open>Signing in and out\<close>

definition showLogin :: "admin_server \<Rightarrow> draws \<Rightarrow> admin_handler" where
  "showLogin A D r w db =
     (case session_Get (dw_Now D) (ac_Cookie (rq_Context r)) db of
        (Inr _, db') \<Rightarrow> Some (see_other A r basePath w, db')
      | (Inl _, db') \<Rightarrow>
          (case admin_page A (dw_Now D) r ''Sign in'' [] no_data db' of
             (data, db') \<Rightarrow> Some (render A ''login.html'' data w, db')))"

text \<open>The login page again, with the name that was typed and a message, under a status.\<close>

definition login_rejected ::
    "admin_server \<Rightarrow> draws \<Rightarrow> admin_req \<Rightarrow> string \<Rightarrow> string \<Rightarrow> nat \<Rightarrow> rw \<Rightarrow> db \<Rightarrow> rw \<times> db" where
  "login_rejected A D r username msg code w db =
     (case admin_page A (dw_Now D) r ''Sign in'' [] (no_data\<lparr>pd_Form := no_form\<lparr>fv_Username := username\<rparr>\<rparr>) db of
        (data, db') \<Rightarrow> (render A ''login.html'' (data\<lparr>pd_Error := msg\<rparr>) (WriteHeader code w), db'))"

definition doLogin :: "admin_server \<Rightarrow> draws \<Rightarrow> admin_req \<Rightarrow> rw \<Rightarrow> db \<times> throttle \<Rightarrow> rw \<times> db \<times> throttle" where
  "doLogin A D r w st =
     (case st of (db, t) \<Rightarrow>
      let username = rq_form r ''username''; password = form_value (ac_Form (rq_Context r)) ''password''; now = dw_Now D in
      case allow username now t of
        ((retry, ok), t) \<Rightarrow>
          if \<not> ok then
            (case login_rejected A D r username (''Too many attempts. Try again in '' @ humaniseWait retry @ ''.'')
                    StatusTooManyRequests (header_Set ''Retry-After'' (FormatInt (max (retry div second) 1)) w) db of
               (w, db) \<Rightarrow> (w, db, t))
          else
            (case Authenticate (ax_idkey (as_ext A)) db username password (dw_Granted D) of
               Inl _ \<Rightarrow>
                 (case login_rejected A D r username ''Incorrect username or password.'' StatusUnauthorized w db of
                    (w, db) \<Rightarrow> (w, db, fail username now t))
             | Inr u \<Rightarrow>
                 if \<not> u_IsAdmin u then
                   (case login_rejected A D r username ''That account does not have administrator access.'' StatusForbidden w db of
                      (w, db) \<Rightarrow> (w, db, t))
                 else
                   (case session_Create (as_Sessions A) (dw_Token D) (dw_CSRF D) now (u_ID u) db of
                      (Inl _, db) \<Rightarrow> (admin_fail w, db, succeed username t)
                    | (Inr (_, ck), db) \<Rightarrow> (see_other A r basePath (SetCookie ck w), db, succeed username t))))"

definition doLogout :: "admin_server \<Rightarrow> admin_handler" where
  "doLogout A r w db =
     (case session_Destroy (as_Sessions A) (ac_Cookie (rq_Context r)) db of
        (Inl _, db') \<Rightarrow> Some (admin_fail w, db')
      | (Inr ck, db') \<Rightarrow> Some (admin_redirect A r loginPath (SetCookie ck w), db'))"

section \<open>What a route names\<close>

definition pathID :: "admin_req \<Rightarrow> int option" where
  "pathID r =
     (case ParseInt (ac_ID (rq_Context r)) of None \<Rightarrow> None | Some i \<Rightarrow> if i \<le> 0 then None else Some i)"

text \<open>\<open>user\<close> and \<open>collection\<close>: the handler goes on with the row, or answers 404.\<close>

definition with_user :: "admin_req \<Rightarrow> rw \<Rightarrow> db \<Rightarrow> (user \<Rightarrow> (rw \<times> db) option) \<Rightarrow> (rw \<times> db) option" where
  "with_user r w db k =
     (case pathID r of
        None \<Rightarrow> Some (http_NotFound w, db)
      | Some i \<Rightarrow> (case UserByID i db of Inl _ \<Rightarrow> Some (http_NotFound w, db) | Inr u \<Rightarrow> k u))"

definition with_collection :: "admin_req \<Rightarrow> rw \<Rightarrow> db \<Rightarrow> (collection \<Rightarrow> (rw \<times> db) option) \<Rightarrow> (rw \<times> db) option" where
  "with_collection r w db k =
     (case pathID r of
        None \<Rightarrow> Some (http_NotFound w, db)
      | Some i \<Rightarrow> (case CollectionByID i db of Inl _ \<Rightarrow> Some (http_NotFound w, db) | Inr c \<Rightarrow> k c))"

definition countObjects :: "int \<Rightarrow> db \<Rightarrow> int" where
  "countObjects cid db = int (length (ListObjects cid db))"

text \<open>The paths the handlers send a browser to.\<close>

definition user_path :: "int \<Rightarrow> string" where
  "user_path i = ''/admin/users/'' @ FormatInt i"

definition collection_page_path :: "int \<Rightarrow> string" where
  "collection_page_path i = ''/admin/collections/'' @ FormatInt i"

end
