(* ===== verification/Admin_Users.thy ===== *)
theory Admin_Users
  imports Admin
begin

text \<open>
  \<open>internal/admin/users.go\<close>, \<open>collections.go\<close> (what does not show objects) and \<open>setup.go\<close>: the handlers of accounts and
  collections. Each is a function of the request, the answer so far and the database; the clock of the storage layer is
  \<open>unix\<close> of the request's instant.
\<close>

section \<open>Accounts\<close>

definition usersPerPage :: int where "usersPerPage = 100"

definition owned :: "string \<Rightarrow> user \<Rightarrow> db \<Rightarrow> int" where
  "owned typ u db = int (length (filter (\<lambda>c. (c_Type c = CollectionCalendar) = (typ = CollectionCalendar)) (ListCollections (u_ID u) [] db)))"

definition user_row :: "db \<Rightarrow> user \<Rightarrow> userRow" where
  "user_row db u = \<lparr>ur_User = u, ur_Calendars = owned CollectionCalendar u db, ur_AddressBooks = owned CollectionAddressBook u db\<rparr>"

text \<open>The number of the page asked for, and the fields that page through the hits; \<open>int\<close> wraps around.\<close>

definition page_number :: "admin_req \<Rightarrow> int" where
  "page_number r = max (atoiOr (rq_query r ''page'') 1) 1"

definition page_offset :: "int \<Rightarrow> int \<Rightarrow> int" where
  "page_offset n per = wrap64 ((n - 1) * per)"

definition paged :: "int \<Rightarrow> int \<Rightarrow> int \<Rightarrow> pageData \<Rightarrow> pageData" where
  "paged n per hits data =
     (let count = (hits + per - 1) div per
      in data\<lparr>pd_MatchCount := hits, pd_Page := n, pd_Pages := count,
              pd_PrevPage := (if n > 1 then n - 1 else pd_PrevPage data),
              pd_NextPage := (if n < count then n + 1 else pd_NextPage data)\<rparr>)"

definition usersPage :: "admin_server \<Rightarrow> instant \<Rightarrow> admin_req \<Rightarrow> pageData \<Rightarrow> db \<Rightarrow> pageData \<times> db" where
  "usersPage A now r data db =
     (let q = TrimSpace (rq_query r ''q''); n = page_number r in
      case SearchUsers q usersPerPage (page_offset n usersPerPage) db of
        (us, hits) \<Rightarrow>
          let rows = map (user_row db) us;
              data = (paged n usersPerPage (int hits) (data\<lparr>pd_Query := q\<rparr>))
                \<lparr>pd_Users := rows, pd_CalendarCount := pd_CalendarCount data + sum_list (map ur_Calendars rows),
                 pd_AddressBookCount := pd_AddressBookCount data + sum_list (map ur_AddressBooks rows)\<rparr>
          in admin_page A now r ''Users'' ''users'' data db)"

definition listUsers :: "admin_server \<Rightarrow> draws \<Rightarrow> admin_handler" where
  "listUsers A D r w db =
     (case usersPage A (dw_Now D) r no_data db of
        (data, db) \<Rightarrow>
          if Get ''Hx-Request'' r = ''true'' then Some (renderFragment A ''users.html'' ''user-results'' data w, db)
          else Some (render A ''users.html'' data w, db))"

definition name_taken :: "string \<Rightarrow> string" where
  "name_taken name = ''A user named '' @ Quote name @ '' already exists.''"

definition short_password :: string where
  "short_password = ''The password must be at least '' @ FormatInt (int minPasswordLen) @ '' characters.''"

definition user_of_form :: "admin_req \<Rightarrow> formValues" where
  "user_of_form r =
     no_form\<lparr>fv_Username := rq_form r ''username'', fv_DisplayName := rq_form r ''display_name'', fv_Email := rq_form r ''email''\<rparr>"

definition createUser :: "admin_server \<Rightarrow> draws \<Rightarrow> admin_handler" where
  "createUser A D r w db =
     (let form = user_of_form r;
          password = form_value (ac_Form (rq_Context r)) ''password'';
          reject = (\<lambda>msg. case usersPage A (dw_Now D) r (no_data\<lparr>pd_Form := form\<rparr>) db of
            (data, db) \<Rightarrow> Some (renderStatus A StatusUnprocessableEntity ''users.html'' (data\<lparr>pd_FormError := msg\<rparr>) w, db))
      in case validateUsername (fv_Username form) of
           Some msg \<Rightarrow> reject msg
         | None \<Rightarrow>
             if length password < minPasswordLen then reject short_password
             else (case CreateUser (unix (dw_Now D))
                     \<lparr>u_ID = 0, u_Username = fv_Username form, u_DisplayName = fv_DisplayName form, u_Email = fv_Email form,
                      u_PasswordHash = HashPassword (ax_idkey (as_ext A)) (dw_Salt D) password, u_IsAdmin = False,
                      u_CreatedAt = 0, u_UpdatedAt = 0\<rparr> db of
                     (Inl e, db') \<Rightarrow> if e = ErrConflict then reject (name_taken (fv_Username form)) else Some (admin_fail w, db')
                   | (Inr u, db') \<Rightarrow> Some (admin_redirect A r (user_path (u_ID u)) w, db')))"

definition userPage :: "admin_server \<Rightarrow> instant \<Rightarrow> admin_req \<Rightarrow> user \<Rightarrow> pageData \<Rightarrow> db \<Rightarrow> pageData \<times> db" where
  "userPage A now r subject data db =
     admin_page A now r (u_Username subject) ''users''
       (data\<lparr>pd_Subject := Some subject, pd_Collections := ListCollections (u_ID subject) [] db,
             pd_IsSelf := (case ac_User (rq_Context r) of Some u \<Rightarrow> u_ID u = u_ID subject | None \<Rightarrow> pd_IsSelf data)\<rparr>) db"

definition showUser :: "admin_server \<Rightarrow> draws \<Rightarrow> admin_handler" where
  "showUser A D r w db =
     with_user r w db (\<lambda>subject.
       case userPage A (dw_Now D) r subject no_data db of (data, db) \<Rightarrow> Some (render A ''user.html'' data w, db))"

text \<open>The page of an account again, with a message, under a status.\<close>

definition user_rejected ::
    "admin_server \<Rightarrow> draws \<Rightarrow> admin_req \<Rightarrow> user \<Rightarrow> pageData \<Rightarrow> nat \<Rightarrow> string \<Rightarrow> rw \<Rightarrow> db \<Rightarrow> (rw \<times> db) option" where
  "user_rejected A D r subject data code msg w db =
     (case userPage A (dw_Now D) r subject data db of
        (data, db) \<Rightarrow> Some (renderStatus A code ''user.html'' (data\<lparr>pd_Error := msg\<rparr>) w, db))"

text \<open>The signed-in administrator is this account.\<close>

definition is_self :: "admin_req \<Rightarrow> user \<Rightarrow> bool" where
  "is_self r subject = (case ac_User (rq_Context r) of Some u \<Rightarrow> u_ID u = u_ID subject | None \<Rightarrow> False)"

definition updateUser :: "admin_server \<Rightarrow> draws \<Rightarrow> admin_handler" where
  "updateUser A D r w db =
     with_user r w db (\<lambda>subject.
       let reject = (\<lambda>msg. user_rejected A D r subject no_data StatusUnprocessableEntity msg w db);
           username = rq_form r ''username''
       in case validateUsername username of
            Some msg \<Rightarrow> reject msg
          | None \<Rightarrow>
              let updated = subject\<lparr>u_Username := username, u_DisplayName := rq_form r ''display_name'',
                    u_Email := rq_form r ''email'',
                    u_IsAdmin := (if is_self r subject then u_IsAdmin subject
                                  else form_value (ac_Form (rq_Context r)) ''is_admin'' = ''1'')\<rparr>
              in case UpdateUser (unix (dw_Now D)) updated db of
                   (Inl e, db') \<Rightarrow> if e = ErrConflict then reject (name_taken username) else Some (admin_fail w, db')
                 | (Inr _, db') \<Rightarrow> Some (admin_redirect A r (user_path (u_ID subject)) w, db'))"

definition resetPassword :: "admin_server \<Rightarrow> draws \<Rightarrow> admin_handler" where
  "resetPassword A D r w db =
     with_user r w db (\<lambda>subject.
       let password = form_value (ac_Form (rq_Context r)) ''password'' in
       if length password < minPasswordLen then user_rejected A D r subject no_data StatusUnprocessableEntity short_password w db
       else case SetPassword (unix (dw_Now D)) (u_ID subject) (HashPassword (ax_idkey (as_ext A)) (dw_Salt D) password) db of
              (Inl _, db') \<Rightarrow> Some (admin_fail w, db')
            | (Inr _, db') \<Rightarrow>
                let db' = DeleteUserSessions (u_ID subject) db' in
                if is_self r subject then Some (admin_redirect A r loginPath (SetCookie (session_Clear (as_Sessions A)) w), db')
                else Some (admin_redirect A r (user_path (u_ID subject)) w, db'))"

definition confirm_page ::
    "admin_server \<Rightarrow> draws \<Rightarrow> admin_req \<Rightarrow> string \<Rightarrow> confirmation \<Rightarrow> rw \<Rightarrow> db \<Rightarrow> (rw \<times> db) option" where
  "confirm_page A D r title cf w db =
     (case admin_page A (dw_Now D) r title ''users'' (no_data\<lparr>pd_Confirm := cf\<rparr>) db of
        (data, db) \<Rightarrow> Some (render A ''confirm.html'' data w, db))"

definition confirmDeleteUser :: "admin_server \<Rightarrow> draws \<Rightarrow> admin_handler" where
  "confirmDeleteUser A D r w db =
     with_user r w db (\<lambda>subject.
       let n = int (length (ListCollections (u_ID subject) [] db)) in
       confirm_page A D r (''Delete '' @ u_Username subject)
         \<lparr>cf_Title = ''Delete '' @ u_Username subject @ ''?'',
          cf_Body = ''This removes the account and its '' @ FormatInt n @ '' collection'' @ plural n @
            '', with every object in them. It cannot be undone.'',
          cf_Verb = ''Delete '' @ u_Username subject, cf_Action = user_path (u_ID subject) @ ''/delete'',
          cf_Cancel = user_path (u_ID subject)\<rparr> w db)"

definition deleteUser :: "admin_server \<Rightarrow> draws \<Rightarrow> admin_handler" where
  "deleteUser A D r w db =
     with_user r w db (\<lambda>subject.
       if is_self r subject then
         user_rejected A D r subject no_data StatusForbidden ''You cannot delete the account you are signed in as.'' w db
       else case DeleteUser (u_ID subject) db of
              (Inl _, db') \<Rightarrow> Some (admin_fail w, db')
            | (Inr _, db') \<Rightarrow> Some (admin_redirect A r basePath w, db'))"

section \<open>Collections\<close>

definition slug_rule :: string where
  "slug_rule = ''A URL slug may only contain letters, digits, dots, dashes and underscores, and must start with a letter or digit.''"

text \<open>\<open>freeSlug\<close>: the loop over the numbers still to try.\<close>

fun free_slug :: "db \<Rightarrow> int \<Rightarrow> string \<Rightarrow> int list \<Rightarrow> string \<Rightarrow> string" where
  "free_slug db owner slug [] candidate = candidate"
| "free_slug db owner slug (n # ns) candidate =
     (case CollectionByURI owner candidate db of
        Inl _ \<Rightarrow> candidate
      | Inr _ \<Rightarrow> free_slug db owner slug ns (slug @ ''-'' @ FormatInt n))"

definition freeSlug :: "db \<Rightarrow> int \<Rightarrow> string \<Rightarrow> string" where
  "freeSlug db owner slug = free_slug db owner slug [2..99] slug"

definition new_collection :: "int \<Rightarrow> string \<Rightarrow> string \<Rightarrow> string \<Rightarrow> collection" where
  "new_collection owner typ uri name =
     \<lparr>c_ID = 0, c_OwnerID = owner, c_Type = typ, c_URI = uri, c_DisplayName = name, c_Description = [], c_Color = [],
      c_Timezone = [], c_CTag = [], c_SyncSeq = 0, c_CreatedAt = 0, c_UpdatedAt = 0\<rparr>"

definition createCollection :: "admin_server \<Rightarrow> draws \<Rightarrow> admin_handler" where
  "createCollection A D r w db =
     with_user r w db (\<lambda>subject.
       let typed = rq_form r ''uri''; name = rq_form r ''display_name'';
           typ = form_value (ac_Form (rq_Context r)) ''type'';
           derived = (typed = []);
           slug = (if derived then Slugify name else typed);
           reject = (\<lambda>uri msg. user_rejected A D r subject (no_data\<lparr>pd_Form := no_form\<lparr>fv_URI := uri, fv_DisplayName := name\<rparr>\<rparr>)
             StatusUnprocessableEntity msg w db)
       in if typ \<noteq> CollectionCalendar \<and> typ \<noteq> CollectionAddressBook
          then reject typed ''Choose either a calendar or an address book.''
          else if \<not> slugPattern slug then reject slug slug_rule
          else
            let uri = (if derived then freeSlug db (u_ID subject) slug else slug) in
            case CreateCollection (unix (dw_Now D)) (new_collection (u_ID subject) typ uri name) db of
              (Inl e, db') \<Rightarrow>
                if e = ErrConflict then reject slug (u_Username subject @ '' already has a collection at '' @ Quote uri @ ''.'')
                else Some (admin_fail w, db')
            | (Inr c, db') \<Rightarrow> Some (admin_redirect A r (collection_page_path (c_ID c)) w, db'))"

definition updateCollection :: "admin_server \<Rightarrow> draws \<Rightarrow> admin_handler" where
  "updateCollection A D r w db =
     with_collection r w db (\<lambda>c.
       case UpdateCollection (unix (dw_Now D))
              (c\<lparr>c_DisplayName := rq_form r ''display_name'', c_Description := rq_form r ''description'',
                 c_Color := rq_form r ''color''\<rparr>) db of
         (Inl _, db') \<Rightarrow> Some (admin_fail w, db')
       | (Inr _, db') \<Rightarrow> Some (admin_redirect A r (collection_page_path (c_ID c)) w, db'))"

definition shown_name :: "string \<Rightarrow> string \<Rightarrow> string" where
  "shown_name name uri = (if name = [] then uri else name)"

definition confirmDeleteCollection :: "admin_server \<Rightarrow> draws \<Rightarrow> admin_handler" where
  "confirmDeleteCollection A D r w db =
     with_collection r w db (\<lambda>c.
       let name = shown_name (c_DisplayName c) (c_URI c); n = countObjects (c_ID c) db in
       confirm_page A D r (''Delete '' @ name)
         \<lparr>cf_Title = ''Delete '' @ name @ ''?'',
          cf_Body = ''This removes the collection and all '' @ FormatInt n @ '' object'' @ plural n @ '' in it. It cannot be undone.'',
          cf_Verb = ''Delete this collection'', cf_Action = collection_page_path (c_ID c) @ ''/delete'',
          cf_Cancel = collection_page_path (c_ID c)\<rparr> w db)"

definition deleteCollection :: "admin_server \<Rightarrow> draws \<Rightarrow> admin_handler" where
  "deleteCollection A D r w db =
     with_collection r w db (\<lambda>c.
       case DeleteCollection (c_ID c) db of
         (Inl _, db') \<Rightarrow> Some (admin_fail w, db')
       | (Inr _, db') \<Rightarrow> Some (admin_redirect A r (user_path (c_OwnerID c)) w, db'))"

definition collectionPath :: "admin_server \<Rightarrow> string \<Rightarrow> string \<Rightarrow> string \<Rightarrow> string" where
  "collectionPath A typ username uri =
     as_DAVPrefix A @ ''/'' @ (if typ = CollectionAddressBook then ''addressbooks'' else ''calendars'') @ ''/'' @ username @ ''/'' @ uri @ ''/''"

section \<open>Client setup\<close>

definition request_base :: "admin_server \<Rightarrow> admin_req \<Rightarrow> string" where
  "request_base A r = baseURL (as_BaseURL A) (ac_TLS (rq_Context r)) (ac_Host (rq_Context r))"

definition countTotals :: "db \<Rightarrow> pageData \<Rightarrow> pageData" where
  "countTotals db data =
     (let us = ListUsers db; cs = concat (map (\<lambda>u. ListCollections (u_ID u) [] db) us)
      in data\<lparr>pd_Setup := (pd_Setup data)\<lparr>sd_UserCount := int (length us)\<rparr>,
              pd_CalendarCount := pd_CalendarCount data + int (length (filter (\<lambda>c. c_Type c = CollectionCalendar) cs)),
              pd_AddressBookCount := pd_AddressBookCount data + int (length (filter (\<lambda>c. c_Type c \<noteq> CollectionCalendar) cs)),
              pd_ObjectCount := pd_ObjectCount data + sum_list (map (\<lambda>c. countObjects (c_ID c) db) cs)\<rparr>)"

definition showSetup :: "admin_server \<Rightarrow> draws \<Rightarrow> admin_handler" where
  "showSetup A D r w db =
     (let base = request_base A r;
          username = (case ac_User (rq_Context r) of Some u \<Rightarrow> u_Username u | None \<Rightarrow> ''{username}'');
          cal = as_DAVPrefix A @ ''/calendars/'' @ username @ ''/'';
          book = as_DAVPrefix A @ ''/addressbooks/'' @ username @ ''/'';
          data = no_data\<lparr>pd_Subject := ac_User (rq_Context r), pd_Setup :=
            \<lparr>sd_BaseURL = base, sd_HasBaseURL = (as_BaseURL A \<noteq> []), sd_Host = hostOf base,
             sd_Insecure = (HasPrefix base ''http://'' \<and> \<not> isLoopback base),
             sd_Principal = as_DAVPrefix A @ ''/principals/'' @ username @ ''/'', sd_CalendarHomePath = cal,
             sd_AddressBookHomePath = book, sd_CalendarHome = base @ cal, sd_AddressBookHome = base @ book,
             sd_PathUser = (case ac_User (rq_Context r) of Some u \<Rightarrow> u_Username u | None \<Rightarrow> ''the user''),
             sd_CalDAVEnabled = as_CalDAVEnabled A, sd_CardDAVEnabled = as_CardDAVEnabled A, sd_UserCount = 0\<rparr>\<rparr>
      in case admin_page A (dw_Now D) r ''Client setup'' ''setup'' (countTotals db data) db of
           (data, db) \<Rightarrow> Some (render A ''setup.html'' data w, db))"

end
