(* ===== verification/Admin_Objects.thy ===== *)
theory Admin_Objects
  imports Admin_Users
begin

text \<open>
  \<open>internal/admin/contacts.go\<close>, \<open>events.go\<close> and the page of a collection (\<open>collections.go\<close>): lists of objects, the forms of
  a contact and of an event, and the writes behind them, which go through \<open>vcard\<close> and \<open>ical\<close> and then through the
  storage layer as a client's PUT does.
\<close>

section \<open>Lists\<close>

definition contactsPerPage :: int where "contactsPerPage = 200"
definition eventsPerPage :: int where "eventsPerPage = 200"
definition defaultColor :: string where "defaultColor = ''#3b5bdb''"

definition contact_row :: "object \<Rightarrow> contactRow" where
  "contact_row x =
     (let row = \<lparr>cr_URI = o_URI x, cr_Name = shown_name (o_DisplayName x) (o_URI x), cr_UID = o_UID x, cr_Email = [], cr_Phone = []\<rparr>
      in case ReadContact (o_Raw x) of
           Inl _ \<Rightarrow> row
         | Inr c \<Rightarrow> row\<lparr>cr_Email := firstValue (ct_Emails c), cr_Phone := firstValue (ct_Phones c)\<rparr>)"

definition contactRows :: "admin_req \<Rightarrow> int \<Rightarrow> db \<Rightarrow> contactRow list \<times> nat \<times> int" where
  "contactRows r cid db =
     (let n = page_number r in
      case SearchObjects cid (TrimSpace (rq_query r ''q'')) contactsPerPage (page_offset n contactsPerPage) db of
        (objs, hits) \<Rightarrow> (map contact_row objs, hits, n))"

definition whole_days :: "time \<Rightarrow> time option \<Rightarrow> bool" where
  "whole_days s e =
     (case e of
        None \<Rightarrow> False
      | Some e \<Rightarrow> Sub (e * second) (s * second) mod (24 * 3600 * second) = 0 \<and> s mod 86400 div 3600 = 0 \<and> s mod 3600 div 60 = 0)"

definition event_row :: "instant \<Rightarrow> object \<Rightarrow> eventRow" where
  "event_row now x =
     (let row = \<lparr>er_URI = o_URI x, er_Summary = shown_name (o_DisplayName x) (o_URI x), er_When = ''No date'', er_Location = [],
            er_AllDay = False, er_Recurring = o_Recurring x, er_Past = False\<rparr>;
          row = (case o_StartAt x of
            None \<Rightarrow> row
          | Some s \<Rightarrow>
              let allDay = whole_days s (o_EndAt x)
              in row\<lparr>er_AllDay := allDay, er_When := formatWhen s (o_EndAt x) allDay,
                     er_Past := (case o_EndAt x of None \<Rightarrow> False | Some e \<Rightarrow> e * second < now)\<rparr>)
      in case ReadEvent (o_Raw x) of Inl _ \<Rightarrow> row | Inr e \<Rightarrow> row\<lparr>er_Location := ev_Location e\<rparr>)"

definition eventRows :: "instant \<Rightarrow> admin_req \<Rightarrow> int \<Rightarrow> db \<Rightarrow> eventRow list \<times> nat \<times> int" where
  "eventRows now r cid db =
     (let n = page_number r in
      case SearchObjects cid (TrimSpace (rq_query r ''q'')) eventsPerPage (page_offset n eventsPerPage) db of
        (objs, hits) \<Rightarrow> (map (event_row now) objs, hits, n))"

text \<open>The page of a collection; a type that is neither divides by a page size of zero.\<close>

definition collectionPage ::
    "admin_server \<Rightarrow> instant \<Rightarrow> admin_req \<Rightarrow> collection \<Rightarrow> pageData \<Rightarrow> db \<Rightarrow> ((serror + pageData) \<times> db) option" where
  "collectionPage A now r c data db =
     (case UserByID (c_OwnerID c) db of
        Inl e \<Rightarrow> Some (Inl e, db)
      | Inr owner \<Rightarrow>
          let data = data\<lparr>pd_Collection := Some c, pd_Subject := Some owner, pd_ObjectCount := countObjects (c_ID c) db,
                pd_ColorValue := (if c_Color c = [] then defaultColor else c_Color c),
                pd_CollectionURL := request_base A r @ collectionPath A (c_Type c) (u_Username owner) (c_URI c),
                pd_Query := TrimSpace (rq_query r ''q'')\<rparr>;
              show = (\<lambda>data. case admin_page A now r (shown_name (c_DisplayName c) (c_URI c)) ''users'' data db of
                (data, db) \<Rightarrow> Some (Inr data, db))
          in if c_Type c = CollectionAddressBook then
               (case contactRows r (c_ID c) db of
                  (rows, hits, n) \<Rightarrow> show (paged n contactsPerPage (int hits) (data\<lparr>pd_IsAddressBook := True, pd_Contacts := rows\<rparr>)))
             else if c_Type c = CollectionCalendar then
               (case eventRows now r (c_ID c) db of
                  (rows, hits, n) \<Rightarrow> show (paged n eventsPerPage (int hits) (data\<lparr>pd_IsCalendar := True, pd_Events := rows\<rparr>)))
             else None)"

definition showCollection :: "admin_server \<Rightarrow> draws \<Rightarrow> admin_handler" where
  "showCollection A D r w db =
     with_collection r w db (\<lambda>c.
       case collectionPage A (dw_Now D) r c no_data db of
         None \<Rightarrow> None
       | Some (Inl _, db) \<Rightarrow> Some (admin_fail w, db)
       | Some (Inr data, db) \<Rightarrow>
           if Get ''Hx-Request'' r = ''true'' then Some (renderFragment A ''collection.html'' ''collection-results'' data w, db)
           else Some (render A ''collection.html'' data w, db))"

section \<open>What the two kinds of object share\<close>

text \<open>\<open>addressBookOf\<close> and \<open>calendarOf\<close>: the collection of the route, which must be of the type.\<close>

definition with_type :: "string \<Rightarrow> admin_req \<Rightarrow> rw \<Rightarrow> db \<Rightarrow> (collection \<Rightarrow> (rw \<times> db) option) \<Rightarrow> (rw \<times> db) option" where
  "with_type typ r w db k = with_collection r w db (\<lambda>c. if c_Type c \<noteq> typ then Some (http_NotFound w, db) else k c)"

definition with_object :: "admin_req \<Rightarrow> rw \<Rightarrow> db \<Rightarrow> collection \<Rightarrow> (object \<Rightarrow> (rw \<times> db) option) \<Rightarrow> (rw \<times> db) option" where
  "with_object r w db c k =
     (case ObjectByURI (c_ID c) (ac_URI (rq_Context r)) db of Inl _ \<Rightarrow> Some (http_NotFound w, db) | Inr x \<Rightarrow> k x)"

text \<open>The branch for a stored object that cannot be read: the collection's page with a message, 422.\<close>

definition cannot_edit ::
    "admin_server \<Rightarrow> draws \<Rightarrow> admin_req \<Rightarrow> collection \<Rightarrow> object \<Rightarrow> string \<Rightarrow> rw \<Rightarrow> db \<Rightarrow> (rw \<times> db) option" where
  "cannot_edit A D r c x err w db =
     (case collectionPage A (dw_Now D) r c no_data db of
        None \<Rightarrow> None
      | Some (Inl _, db) \<Rightarrow> Some (admin_fail w, db)
      | Some (Inr data, db) \<Rightarrow>
          Some (renderStatus A StatusUnprocessableEntity ''collection.html''
            (data\<lparr>pd_Error := Quote (o_URI x) @ '' cannot be edited here: '' @ err @
               ''. It is unchanged, and a DAV client can still read it.''\<rparr>) w, db))"

definition object_path :: "collection \<Rightarrow> string \<Rightarrow> string \<Rightarrow> string" where
  "object_path c kind uri = collection_page_path (c_ID c) @ ''/'' @ kind @ ''/'' @ uri"

definition delete_object :: "admin_server \<Rightarrow> draws \<Rightarrow> string \<Rightarrow> admin_handler" where
  "delete_object A D typ r w db =
     with_type typ r w db (\<lambda>c.
       case DeleteObject (unix (dw_Now D)) (c_ID c) (ac_URI (rq_Context r)) db of
         (Inl e, db') \<Rightarrow> if e = ErrNotFound then Some (http_NotFound w, db') else Some (admin_fail w, db')
       | (Inr _, db') \<Rightarrow> Some (admin_redirect A r (collection_page_path (c_ID c)) w, db'))"

text \<open>\<open>vcard.NewUID\<close> and \<open>ical.NewUID\<close>: sixteen random bytes in hexadecimal.\<close>

definition NewUID :: "string \<Rightarrow> string" where
  "NewUID b = concat (map (\<lambda>c. ToLower [upper_hex (of_char c div 16), upper_hex (of_char c mod 16)]) (take 16 b))"

section \<open>Contacts\<close>

definition contactPage ::
    "admin_server \<Rightarrow> instant \<Rightarrow> admin_req \<Rightarrow> collection \<Rightarrow> object option \<Rightarrow> Contact \<Rightarrow> db \<Rightarrow> (serror + pageData) \<times> db" where
  "contactPage A now r c obj contact db =
     (case UserByID (c_OwnerID c) db of
        Inl e \<Rightarrow> (Inl e, db)
      | Inr owner \<Rightarrow>
          let blank = \<lparr>vp_Value = [], vp_Type = []\<rparr>;
              contact = contact\<lparr>ct_Phones := ct_Phones contact @ [blank], ct_Emails := ct_Emails contact @ [blank]\<rparr>;
              data = no_data\<lparr>pd_Collection := Some c, pd_Subject := Some owner, pd_Contact := Some contact,
                             pd_TypeOptions := TypeOptions\<rparr>;
              (title, data) = (case obj of
                Some x \<Rightarrow> (ct_DisplayName contact,
                  data\<lparr>pd_ContactURI := o_URI x, pd_ContactAction := object_path c ''contacts'' (o_URI x)\<rparr>)
              | None \<Rightarrow> (''New contact'', data\<lparr>pd_ContactAction := collection_page_path (c_ID c) @ ''/contacts''\<rparr>))
          in (case admin_page A now r title ''users'' data db of (data, db) \<Rightarrow> (Inr data, db)))"

definition contact_form ::
    "admin_server \<Rightarrow> draws \<Rightarrow> admin_req \<Rightarrow> collection \<Rightarrow> object option \<Rightarrow> Contact \<Rightarrow> rw \<Rightarrow> db \<Rightarrow> (rw \<times> db) option" where
  "contact_form A D r c obj contact w db =
     (case contactPage A (dw_Now D) r c obj contact db of
        (Inl _, db) \<Rightarrow> Some (admin_fail w, db)
      | (Inr data, db) \<Rightarrow> Some (render A ''contact.html'' data w, db))"

definition rejectContact ::
    "admin_server \<Rightarrow> draws \<Rightarrow> admin_req \<Rightarrow> collection \<Rightarrow> object option \<Rightarrow> Contact \<Rightarrow> string \<Rightarrow> rw \<Rightarrow> db \<Rightarrow> (rw \<times> db) option" where
  "rejectContact A D r c obj contact msg w db =
     (case contactPage A (dw_Now D) r c obj contact db of
        (Inl _, db) \<Rightarrow> Some (admin_fail w, db)
      | (Inr data, db) \<Rightarrow>
          Some (renderStatus A StatusUnprocessableEntity ''contact.html'' (data\<lparr>pd_Error := msg\<rparr>) w, db))"

definition blank_contact :: Contact where
  "blank_contact = \<lparr>ct_UID = [], ct_FormattedName = [], ct_FamilyName = [], ct_GivenName = [], ct_Organisation = [],
     ct_Title = [], ct_Note = [], ct_Phones = [\<lparr>vp_Value = [], vp_Type = ''cell''\<rparr>],
     ct_Emails = [\<lparr>vp_Value = [], vp_Type = ''home''\<rparr>], ct_URL = []\<rparr>"

definition newContact :: "admin_server \<Rightarrow> draws \<Rightarrow> admin_handler" where
  "newContact A D r w db = with_type CollectionAddressBook r w db (\<lambda>c. contact_form A D r c None blank_contact w db)"

text \<open>The write shared by both forms; an error of the reader or of the storage layer is \<open>None\<close>.\<close>

definition stored_object :: "int \<Rightarrow> string \<Rightarrow> string \<Rightarrow> string \<Rightarrow> string \<Rightarrow> string \<Rightarrow> time option \<Rightarrow> time option \<Rightarrow> bool \<Rightarrow> object" where
  "stored_object cid uri raw uid typ name s e recurring =
     \<lparr>o_ID = 0, o_CollectionID = cid, o_URI = uri, o_ETag = [], o_Raw = raw, o_UID = uid, o_ComponentType = typ,
      o_DisplayName = name, o_StartAt = s, o_EndAt = e, o_Recurring = recurring, o_CreatedAt = 0, o_UpdatedAt = 0\<rparr>"

definition storeContact :: "admin_server \<Rightarrow> draws \<Rightarrow> collection \<Rightarrow> string \<Rightarrow> string \<Rightarrow> db \<Rightarrow> object option \<times> db" where
  "storeContact A D c uri raw db =
     (case ReadContact raw of
        Inl _ \<Rightarrow> (None, db)
      | Inr contact \<Rightarrow>
          (case PutObject (l_hash (ax_lib (as_ext A))) (unix (dw_Now D))
                  (stored_object (c_ID c) uri raw (ct_UID contact) ''VCARD'' (ct_DisplayName contact) None None False) db of
             (Inl _, db') \<Rightarrow> (None, db')
           | (Inr x, db') \<Rightarrow> (Some x, db')))"

definition createContact :: "admin_server \<Rightarrow> draws \<Rightarrow> admin_handler" where
  "createContact A D r w db =
     with_type CollectionAddressBook r w db (\<lambda>c.
       let contact = contactFromForm (ac_Form (rq_Context r)) in
       case vcard_New (NewUID (dw_UID D)) contact (dw_Now D) of
         None \<Rightarrow> None
       | Some (Inl err) \<Rightarrow> rejectContact A D r c None contact (humanise (vcard_error_text err)) w db
       | Some (Inr raw) \<Rightarrow>
           let uri = vcard_Filename (ct_UID contact);
               uri = (if uri = ''.vcf'' then vcard_Filename (NewUID (dw_FileUID D)) else uri)
           in case storeContact A D c uri raw db of
                (None, db') \<Rightarrow> Some (admin_fail w, db')
              | (Some _, db') \<Rightarrow> Some (admin_redirect A r (collection_page_path (c_ID c)) w, db'))"

definition showContact :: "admin_server \<Rightarrow> draws \<Rightarrow> admin_handler" where
  "showContact A D r w db =
     with_type CollectionAddressBook r w db (\<lambda>c. with_object r w db c (\<lambda>x.
       case ReadContact (o_Raw x) of
         Inl err \<Rightarrow> cannot_edit A D r c x (vcard_error_text err) w db
       | Inr contact \<Rightarrow> contact_form A D r c (Some x) contact w db))"

definition updateContact :: "admin_server \<Rightarrow> draws \<Rightarrow> admin_handler" where
  "updateContact A D r w db =
     with_type CollectionAddressBook r w db (\<lambda>c. with_object r w db c (\<lambda>x.
       let contact = contactFromForm (ac_Form (rq_Context r)) in
       case vcard_Apply (o_Raw x) contact (dw_Now D) of
         None \<Rightarrow> None
       | Some (Inl err) \<Rightarrow> rejectContact A D r c (Some x) contact (humanise (vcard_error_text err)) w db
       | Some (Inr raw) \<Rightarrow>
           (case storeContact A D c (o_URI x) raw db of
              (None, db') \<Rightarrow> Some (admin_fail w, db')
            | (Some _, db') \<Rightarrow> Some (admin_redirect A r (collection_page_path (c_ID c)) w, db'))))"

definition confirmDeleteContact :: "admin_server \<Rightarrow> draws \<Rightarrow> admin_handler" where
  "confirmDeleteContact A D r w db =
     with_type CollectionAddressBook r w db (\<lambda>c. with_object r w db c (\<lambda>x.
       let name = shown_name (o_DisplayName x) (o_URI x) in
       confirm_page A D r (''Delete '' @ name)
         \<lparr>cf_Title = ''Delete '' @ name @ ''?'',
          cf_Body = ''This removes the contact from the address book and from every client that syncs it. It cannot be undone.'',
          cf_Verb = ''Delete this contact'', cf_Action = object_path c ''contacts'' (o_URI x) @ ''/delete'',
          cf_Cancel = collection_page_path (c_ID c)\<rparr> w db))"

definition deleteContact :: "admin_server \<Rightarrow> draws \<Rightarrow> admin_handler" where
  "deleteContact A D r w db = delete_object A D CollectionAddressBook r w db"

section \<open>Events\<close>

definition eventPage ::
    "admin_server \<Rightarrow> instant \<Rightarrow> admin_req \<Rightarrow> collection \<Rightarrow> object option \<Rightarrow> Event \<Rightarrow> db \<Rightarrow> (serror + pageData) \<times> db" where
  "eventPage A now r c obj e db =
     (case UserByID (c_OwnerID c) db of
        Inl err \<Rightarrow> (Inl err, db)
      | Inr owner \<Rightarrow>
          let data = no_data\<lparr>pd_Collection := Some c, pd_Subject := Some owner, pd_Event := Some e, pd_Repeats := repeatOptions\<rparr>;
              (title, data) = (case obj of
                Some x \<Rightarrow> (ev_Summary e,
                  data\<lparr>pd_EventURI := o_URI x, pd_EventAction := object_path c ''events'' (o_URI x),
                       pd_RepeatSummary := (if ev_Recurrence e \<noteq> [] then describeRecurrence (ev_Recurrence e) else []),
                       pd_HasOverrides := (case ical_Parse (o_Raw x) of Inl _ \<Rightarrow> False | Inr (d, _) \<Rightarrow> HasOverrides d)\<rparr>)
              | None \<Rightarrow> (''New event'', data\<lparr>pd_EventAction := collection_page_path (c_ID c) @ ''/events''\<rparr>))
          in (case admin_page A now r title ''users'' data db of (data, db) \<Rightarrow> (Inr data, db)))"

definition event_form ::
    "admin_server \<Rightarrow> draws \<Rightarrow> admin_req \<Rightarrow> collection \<Rightarrow> object option \<Rightarrow> Event \<Rightarrow> rw \<Rightarrow> db \<Rightarrow> (rw \<times> db) option" where
  "event_form A D r c obj e w db =
     (case eventPage A (dw_Now D) r c obj e db of
        (Inl _, db) \<Rightarrow> Some (admin_fail w, db)
      | (Inr data, db) \<Rightarrow> Some (render A ''event.html'' data w, db))"

definition rejectEvent ::
    "admin_server \<Rightarrow> draws \<Rightarrow> admin_req \<Rightarrow> collection \<Rightarrow> object option \<Rightarrow> Event \<Rightarrow> string \<Rightarrow> rw \<Rightarrow> db \<Rightarrow> (rw \<times> db) option" where
  "rejectEvent A D r c obj e msg w db =
     (case eventPage A (dw_Now D) r c obj e db of
        (Inl _, db) \<Rightarrow> Some (admin_fail w, db)
      | (Inr data, db) \<Rightarrow> Some (renderStatus A StatusUnprocessableEntity ''event.html'' (data\<lparr>pd_Error := msg\<rparr>) w, db))"

definition localZoneName :: "admin_server \<Rightarrow> string" where
  "localZoneName A = (let name = ax_LocalName (as_ext A) in if name = [] \<or> name = ''Local'' then [] else name)"

text \<open>The next whole hour of the clock, as the wall time of the local zone.\<close>

definition blank_event :: "admin_server \<Rightarrow> instant \<Rightarrow> Event" where
  "blank_event A now =
     (let hour = 3600 * second; start = now - now mod hour + hour
      in \<lparr>ev_UID = [], ev_Summary = [], ev_Location = [], ev_Description = [], ev_Start = wall_in (ax_Local (as_ext A)) start,
          ev_End = wall_in (ax_Local (as_ext A)) (start + hour), ev_AllDay = False, ev_Timezone = localZoneName A, ev_Recurrence = []\<rparr>)"

definition newEvent :: "admin_server \<Rightarrow> draws \<Rightarrow> admin_handler" where
  "newEvent A D r w db =
     with_type CollectionCalendar r w db (\<lambda>c. event_form A D r c None (blank_event A (dw_Now D)) w db)"

definition storeEvent :: "admin_server \<Rightarrow> draws \<Rightarrow> collection \<Rightarrow> string \<Rightarrow> string \<Rightarrow> db \<Rightarrow> object option \<times> db" where
  "storeEvent A D c uri raw db =
     (case CalendarIndex (ax_lib (as_ext A)) raw of
        None \<Rightarrow> (None, db)
      | Some b \<Rightarrow>
          (case PutObject (l_hash (ax_lib (as_ext A))) (unix (dw_Now D))
                  (stored_object (c_ID c) uri raw (b_UID b) (b_ComponentType b) (b_Summary b) (b_Start b) (b_End b) (b_Recurring b)) db of
             (Inl _, db') \<Rightarrow> (None, db')
           | (Inr x, db') \<Rightarrow> (Some x, db')))"

definition createEvent :: "admin_server \<Rightarrow> draws \<Rightarrow> admin_handler" where
  "createEvent A D r w db =
     with_type CollectionCalendar r w db (\<lambda>c.
       case eventFromForm (ac_Form (rq_Context r)) of
         (e, Some msg) \<Rightarrow> rejectEvent A D r c None e msg w db
       | (e, None) \<Rightarrow>
           (case ical_New (ax_locs (as_ext A)) (NewUID (dw_UID D)) e (dw_Now D) of
              None \<Rightarrow> None
            | Some (Inl err) \<Rightarrow> rejectEvent A D r c None e (humaniseICal (ical_error_text (ev_Timezone e) err)) w db
            | Some (Inr raw) \<Rightarrow>
                let uri = ical_Filename (ev_UID e);
                    uri = (if uri = ''.ics'' then ical_Filename (NewUID (dw_FileUID D)) else uri)
                in case storeEvent A D c uri raw db of
                     (None, db') \<Rightarrow> Some (admin_fail w, db')
                   | (Some _, db') \<Rightarrow> Some (admin_redirect A r (collection_page_path (c_ID c)) w, db')))"

definition showEvent :: "admin_server \<Rightarrow> draws \<Rightarrow> admin_handler" where
  "showEvent A D r w db =
     with_type CollectionCalendar r w db (\<lambda>c. with_object r w db c (\<lambda>x.
       case ReadEvent (o_Raw x) of
         Inl err \<Rightarrow> cannot_edit A D r c x (ical_error_text (unreadable_text (ax_perr (as_ext A)) (o_Raw x)) err) w db
       | Inr e \<Rightarrow> event_form A D r c (Some x) e w db))"

definition updateEvent :: "admin_server \<Rightarrow> draws \<Rightarrow> admin_handler" where
  "updateEvent A D r w db =
     with_type CollectionCalendar r w db (\<lambda>c. with_object r w db c (\<lambda>x.
       case eventFromForm (ac_Form (rq_Context r)) of
         (e, Some msg) \<Rightarrow> rejectEvent A D r c (Some x) e msg w db
       | (e, None) \<Rightarrow>
           (case ical_Apply (ax_locs (as_ext A)) (o_Raw x) e (dw_Now D) of
              None \<Rightarrow> None
            | Some (Inl err) \<Rightarrow> rejectEvent A D r c (Some x) e (humaniseICal (ical_error_text (ev_Timezone e) err)) w db
            | Some (Inr raw) \<Rightarrow>
                (case storeEvent A D c (o_URI x) raw db of
                   (None, db') \<Rightarrow> Some (admin_fail w, db')
                 | (Some _, db') \<Rightarrow> Some (admin_redirect A r (collection_page_path (c_ID c)) w, db')))))"

definition confirmDeleteEvent :: "admin_server \<Rightarrow> draws \<Rightarrow> admin_handler" where
  "confirmDeleteEvent A D r w db =
     with_type CollectionCalendar r w db (\<lambda>c. with_object r w db c (\<lambda>x.
       let name = shown_name (o_DisplayName x) (o_URI x) in
       confirm_page A D r (''Delete '' @ name)
         \<lparr>cf_Title = ''Delete '' @ name @ ''?'',
          cf_Body = (if o_Recurring x
            then ''This removes every occurrence of this repeating event, from the calendar and from every client that syncs it. It cannot be undone.''
            else ''This removes the event from the calendar and from every client that syncs it. It cannot be undone.''),
          cf_Verb = ''Delete this event'', cf_Action = object_path c ''events'' (o_URI x) @ ''/delete'',
          cf_Cancel = collection_page_path (c_ID c)\<rparr> w db))"

definition deleteEvent :: "admin_server \<Rightarrow> draws \<Rightarrow> admin_handler" where
  "deleteEvent A D r w db = delete_object A D CollectionCalendar r w db"

end
