(* ===== verification/Admin_Server.thy ===== *)
theory Admin_Server
  imports Admin_Objects Routing
begin

text \<open>
  \<open>Register\<close> of \<open>internal/admin/admin.go\<close>: the routes of the administration pages, which handler answers each behind
  which middleware, and with it one request from its path to the answer. The mux matches the segments of the path,
  unescaped one by one (\<open>segs\<close>; a trailing slash is an empty last segment); of two patterns that match, the one
  with a literal where the other has a wildcard wins, and stands first here.
\<close>

datatype segment = Lit string | WildID | WildURI | Rest

datatype page =
    PageListUsers | PageCreateUser | PageShowUser | PageUpdateUser | PageResetPassword | PageConfirmDeleteUser | PageDeleteUser
  | PageCreateCollection | PageShowCollection | PageUpdateCollection | PageConfirmDeleteCollection | PageDeleteCollection
  | PageNewContact | PageCreateContact | PageShowContact | PageUpdateContact | PageConfirmDeleteContact | PageDeleteContact
  | PageNewEvent | PageCreateEvent | PageShowEvent | PageUpdateEvent | PageConfirmDeleteEvent | PageDeleteEvent
  | PageShowSetup

datatype route = StaticFiles | ShowLogin | DoLogin | DoLogout | Page page

text \<open>The patterns below \<open>/admin/\<close>.\<close>

definition admin_routes :: "(string \<times> segment list \<times> route) list" where
  "admin_routes =
     [(''GET'', [Lit ''static'', Rest], StaticFiles),
      (''GET'', [Lit ''login''], ShowLogin),
      (''POST'', [Lit ''login''], DoLogin),
      (''POST'', [Lit ''logout''], DoLogout),
      (''GET'', [Lit ''''], Page PageListUsers),
      (''POST'', [Lit ''users''], Page PageCreateUser),
      (''GET'', [Lit ''users'', WildID], Page PageShowUser),
      (''POST'', [Lit ''users'', WildID], Page PageUpdateUser),
      (''POST'', [Lit ''users'', WildID, Lit ''password''], Page PageResetPassword),
      (''GET'', [Lit ''users'', WildID, Lit ''delete''], Page PageConfirmDeleteUser),
      (''POST'', [Lit ''users'', WildID, Lit ''delete''], Page PageDeleteUser),
      (''POST'', [Lit ''users'', WildID, Lit ''collections''], Page PageCreateCollection),
      (''GET'', [Lit ''collections'', WildID], Page PageShowCollection),
      (''POST'', [Lit ''collections'', WildID], Page PageUpdateCollection),
      (''GET'', [Lit ''collections'', WildID, Lit ''delete''], Page PageConfirmDeleteCollection),
      (''POST'', [Lit ''collections'', WildID, Lit ''delete''], Page PageDeleteCollection),
      (''GET'', [Lit ''collections'', WildID, Lit ''contacts'', Lit ''new''], Page PageNewContact),
      (''POST'', [Lit ''collections'', WildID, Lit ''contacts''], Page PageCreateContact),
      (''GET'', [Lit ''collections'', WildID, Lit ''contacts'', WildURI], Page PageShowContact),
      (''POST'', [Lit ''collections'', WildID, Lit ''contacts'', WildURI], Page PageUpdateContact),
      (''GET'', [Lit ''collections'', WildID, Lit ''contacts'', WildURI, Lit ''delete''], Page PageConfirmDeleteContact),
      (''POST'', [Lit ''collections'', WildID, Lit ''contacts'', WildURI, Lit ''delete''], Page PageDeleteContact),
      (''GET'', [Lit ''collections'', WildID, Lit ''events'', Lit ''new''], Page PageNewEvent),
      (''POST'', [Lit ''collections'', WildID, Lit ''events''], Page PageCreateEvent),
      (''GET'', [Lit ''collections'', WildID, Lit ''events'', WildURI], Page PageShowEvent),
      (''POST'', [Lit ''collections'', WildID, Lit ''events'', WildURI], Page PageUpdateEvent),
      (''GET'', [Lit ''collections'', WildID, Lit ''events'', WildURI, Lit ''delete''], Page PageConfirmDeleteEvent),
      (''POST'', [Lit ''collections'', WildID, Lit ''events'', WildURI, Lit ''delete''], Page PageDeleteEvent),
      (''GET'', [Lit ''setup''], Page PageShowSetup)]"

text \<open>The wildcards of a match: \<open>{id}\<close> and \<open>{uri}\<close>. A wildcard does not match a trailing slash.\<close>

fun match_segments :: "segment list \<Rightarrow> string list \<Rightarrow> (string \<times> string) option" where
  "match_segments [] [] = Some ([], [])"
| "match_segments [Rest] (s # ss) = Some ([], [])"
| "match_segments (Lit l # ps) (s # ss) = (if s = l then match_segments ps ss else None)"
| "match_segments (WildID # ps) (s # ss) =
     (if s = [] \<and> ss = [] then None else map_option (\<lambda>(i, u). (s, u)) (match_segments ps ss))"
| "match_segments (WildURI # ps) (s # ss) =
     (if s = [] \<and> ss = [] then None else map_option (\<lambda>(i, u). (i, s)) (match_segments ps ss))"
| "match_segments _ _ = None"

text \<open>A GET pattern answers HEAD too.\<close>

definition method_matches :: "string \<Rightarrow> string \<Rightarrow> bool" where
  "method_matches pattern m = (m = pattern \<or> m = ''HEAD'' \<and> pattern = ''GET'')"

fun find_route ::
    "string \<Rightarrow> string list \<Rightarrow> (string \<times> segment list \<times> route) list \<Rightarrow> (route \<times> string \<times> string) option" where
  "find_route m segs [] = None"
| "find_route m segs ((pm, ps, rt) # rts) =
     (case (if method_matches pm m then match_segments ps segs else None) of
        Some (i, u) \<Rightarrow> Some (rt, i, u)
      | None \<Rightarrow> find_route m segs rts)"

datatype admin_match = Matched route string string | AddSlash | WrongMethod "string list" | NoRoute

text \<open>No match: the path with a slash, or another method, which the Allow header then names.\<close>

definition admin_mux :: "string \<Rightarrow> string list \<Rightarrow> admin_match" where
  "admin_mux m segs =
     (case find_route m segs admin_routes of
        Some (rt, i, u) \<Rightarrow> Matched rt i u
      | None \<Rightarrow>
          let slash = (\<lambda>m. (segs = [] \<or> last segs \<noteq> []) \<and> find_route m (segs @ [[]]) admin_routes \<noteq> None) in
          if slash m then AddSlash
          else let ms = filter (\<lambda>m. find_route m segs admin_routes \<noteq> None \<or> slash m) [''GET'', ''HEAD'', ''POST'']
               in if ms = [] then NoRoute else WrongMethod ms)"

section \<open>One request\<close>

fun page_handler :: "admin_server \<Rightarrow> draws \<Rightarrow> page \<Rightarrow> admin_handler" where
  "page_handler A D PageListUsers = listUsers A D"
| "page_handler A D PageCreateUser = createUser A D"
| "page_handler A D PageShowUser = showUser A D"
| "page_handler A D PageUpdateUser = updateUser A D"
| "page_handler A D PageResetPassword = resetPassword A D"
| "page_handler A D PageConfirmDeleteUser = confirmDeleteUser A D"
| "page_handler A D PageDeleteUser = deleteUser A D"
| "page_handler A D PageCreateCollection = createCollection A D"
| "page_handler A D PageShowCollection = showCollection A D"
| "page_handler A D PageUpdateCollection = updateCollection A D"
| "page_handler A D PageConfirmDeleteCollection = confirmDeleteCollection A D"
| "page_handler A D PageDeleteCollection = deleteCollection A D"
| "page_handler A D PageNewContact = newContact A D"
| "page_handler A D PageCreateContact = createContact A D"
| "page_handler A D PageShowContact = showContact A D"
| "page_handler A D PageUpdateContact = updateContact A D"
| "page_handler A D PageConfirmDeleteContact = confirmDeleteContact A D"
| "page_handler A D PageDeleteContact = deleteContact A D"
| "page_handler A D PageNewEvent = newEvent A D"
| "page_handler A D PageCreateEvent = createEvent A D"
| "page_handler A D PageShowEvent = showEvent A D"
| "page_handler A D PageUpdateEvent = updateEvent A D"
| "page_handler A D PageConfirmDeleteEvent = confirmDeleteEvent A D"
| "page_handler A D PageDeleteEvent = deleteEvent A D"
| "page_handler A D PageShowSetup = showSetup A D"

type_synonym admin_state = "db \<times> throttle"

definition on_db :: "admin_handler \<Rightarrow> admin_state handler" where
  "on_db h r w st = (case st of (db, t) \<Rightarrow> map_option (\<lambda>(w, db). (w, db, t)) (h r w db))"

definition route_handler :: "admin_server \<Rightarrow> draws \<Rightarrow> route \<Rightarrow> admin_state handler" where
  "route_handler A D rt =
     secureHeaders D
       (case rt of
          StaticFiles \<Rightarrow> (\<lambda>r w st. Some (ax_static (as_ext A) (rq_Path r) w, st))
        | ShowLogin \<Rightarrow> on_db (showLogin A D)
        | DoLogin \<Rightarrow> (\<lambda>r w st. Some (doLogin A D r w st))
        | DoLogout \<Rightarrow> on_db (with_session A (dw_Now D) (doLogout A))
        | Page p \<Rightarrow> on_db (with_session A (dw_Now D) (requireAdmin (page_handler A D p))))"

text \<open>A request carries no user, session or nonce before the middleware has put one there.\<close>

definition fresh_context :: "string \<Rightarrow> string \<Rightarrow> admin_req \<Rightarrow> admin_req" where
  "fresh_context i u r =
     r\<lparr>rq_Context := (rq_Context r)\<lparr>ac_User := None, ac_Session := None, ac_Nonce := [], ac_ID := i, ac_URI := u\<rparr>\<rparr>"

definition admin_answer ::
    "admin_server \<Rightarrow> nat \<Rightarrow> draws \<Rightarrow> string list \<Rightarrow> admin_req \<Rightarrow> rw \<Rightarrow> admin_state \<Rightarrow> (rw \<times> admin_state) option" where
  "admin_answer A muxStatus D segs r w st =
     (case admin_mux (rq_Method r) segs of
        Matched rt i u \<Rightarrow> route_handler A D rt (fresh_context i u r) w st
      | AddSlash \<Rightarrow> Some (http_Redirect (ax_env (as_ext A)) r (rq_Path r @ ''/'') muxStatus w, st)
      | WrongMethod ms \<Rightarrow>
          Some (http_Error ''Method Not Allowed'' StatusMethodNotAllowed (header_Set ''Allow'' (Join '', '' ms) w), st)
      | NoRoute \<Rightarrow> Some (http_NotFound w, st))"

definition admin_serve ::
    "admin_server \<Rightarrow> nat \<Rightarrow> draws \<Rightarrow> string list \<Rightarrow> admin_req \<Rightarrow> admin_state \<Rightarrow> (rw \<times> admin_state) option" where
  "admin_serve A muxStatus D segs r st = admin_answer A muxStatus D segs r new_rw st"

text \<open>A request that is never answered leaves the state as it is: every write comes after the editing of the bytes.\<close>

definition admin_step :: "admin_server \<Rightarrow> nat \<Rightarrow> draws \<times> string list \<times> admin_req \<Rightarrow> admin_state \<Rightarrow> admin_state" where
  "admin_step A muxStatus q st =
     (case q of (D, segs, r) \<Rightarrow> (case admin_serve A muxStatus D segs r st of None \<Rightarrow> st | Some (_, st') \<Rightarrow> st'))"

definition admin_run :: "admin_server \<Rightarrow> nat \<Rightarrow> (draws \<times> string list \<times> admin_req) list \<Rightarrow> admin_state \<Rightarrow> admin_state" where
  "admin_run A muxStatus qs st = foldl (\<lambda>st q. admin_step A muxStatus q st) st qs"

text \<open>\<open>Register\<close> itself: the templates must parse, and the table of failures starts empty.\<close>

definition register_admin :: "admin_server \<Rightarrow> (admin_server \<times> throttle) option" where
  "register_admin A =
     (case parseTemplates (ax_parse (as_ext A)) of
        None \<Rightarrow> None
      | Some ts \<Rightarrow> Some (A\<lparr>as_templates := ts\<rparr>, NewLoginThrottle))"

lemma admin_mux_samples:
  "admin_mux ''GET'' [''''] = Matched (Page PageListUsers) [] []"
  "admin_mux ''POST'' [''collections'', ''3'', ''contacts'', ''a.vcf'', ''delete''] = Matched (Page PageDeleteContact) ''3'' ''a.vcf''"
  "admin_mux ''HEAD'' [''collections'', ''3'', ''events'', ''new''] = Matched (Page PageNewEvent) ''3'' []"
  "admin_mux ''POST'' [''collections'', ''3'', ''events'', ''new''] = Matched (Page PageUpdateEvent) ''3'' ''new''"
  "admin_mux ''DELETE'' [''users'', ''1''] = WrongMethod [''GET'', ''HEAD'', ''POST'']"
  "admin_mux ''GET'' [] = AddSlash" "admin_mux ''POST'' [] = WrongMethod [''GET'', ''HEAD'']" "admin_mux ''GET'' [''users''] = WrongMethod [''POST'']" "admin_mux ''GET'' [''x''] = NoRoute"
  by code_simp+

end
