(* ===== verification/Admin_Facts.thy ===== *)
theory Admin_Facts
  imports Admin_Server Object_Store
begin

text \<open>
  The administration pages over the storage layer. Each page's handler either leaves the database alone or carries out
  the storage operations its page is for and sends the browser on (\<open>page_effect\<close>). From that: only administrators
  change anything, an administrator always remains, the database stays consistent, a form that is refused has
  changed nothing, and a new password ends the old sessions.
\<close>

section \<open>Storage operations that fail change nothing\<close>

lemma CreateUser_error: "CreateUser now u db = (Inl e, db') \<Longrightarrow> db' = db"
  by (auto simp: CreateUser_def UserByID_def Let_def find_None_iff split: if_splits option.splits)

lemma UpdateUser_error: "UpdateUser now u db = (Inl e, db') \<Longrightarrow> db' = db"
  by (auto simp: UpdateUser_def checkAffected_Inl map_idI split: if_splits)

lemma SetPassword_error: "SetPassword now i h db = (Inl e, db') \<Longrightarrow> db' = db"
  by (auto simp: SetPassword_def checkAffected_Inl map_idI)

lemma DeleteUser_error: "DeleteUser i db = (Inl e, db') \<Longrightarrow> db' = db"
  by (auto simp: DeleteUser_def split: sum.splits)

lemma UpdateCollection_error: "UpdateCollection now c db = (Inl e, db') \<Longrightarrow> db' = db"
  by (auto simp: UpdateCollection_def checkAffected_Inl map_idI)

lemma DeleteCollection_error: "DeleteCollection i db = (Inl e, db') \<Longrightarrow> db' = db"
proof -
  assume "DeleteCollection i db = (Inl e, db')"
  then have n: "\<forall>c \<in> set (collections db). c_ID c \<noteq> i" and d: "db' = drop_collections (\<lambda>c. c_ID c = i) db"
    by (auto simp: DeleteCollection_def checkAffected_Inl)
  from n have "filter (\<lambda>c. c_ID c = i) (collections db) = []" "filter (\<lambda>c. c_ID c \<noteq> i) (collections db) = collections db"
    by (auto simp: filter_empty_conv filter_id_conv)
  then show ?thesis using d by (simp add: drop_collections_def)
qed

lemma DeleteObject_error: "DeleteObject now cid uri db = (Inl e, db') \<Longrightarrow> db' = db"
  by (auto simp: DeleteObject_def split: sum.splits)

lemma CollectionByID_mem: "CollectionByID i db = Inr c \<Longrightarrow> c \<in> set (collections db) \<and> c_ID c = i"
  by (auto simp: CollectionByID_def split: option.splits dest: find_SomeD)

lemma UserByID_mem: "UserByID i db = Inr u \<Longrightarrow> u \<in> set (users db) \<and> u_ID u = i"
  by (auto simp: UserByID_def split: option.splits dest: find_SomeD)

lemma PutObject_error:
  assumes "db_ok hash db" and "c \<in> set (collections db)" and "o_CollectionID obj = c_ID c"
    and "PutObject hash now obj db = (Inl e, db')"
  shows "db' = db"
  using put_object_stores [OF assms] by auto

lemmas storage_errors = CreateUser_error UpdateUser_error SetPassword_error DeleteUser_error CreateCollection_error
  UpdateCollection_error DeleteCollection_error DeleteObject_error

section \<open>What showing a page leaves alone\<close>

definition quiet :: "db \<Rightarrow> (rw \<times> db) option \<Rightarrow> bool" where
  "quiet db x = (case x of None \<Rightarrow> True | Some (_, db') \<Rightarrow> db' = db)"

lemma quiet_simps [simp]: "quiet db None" "quiet db (Some (w, db')) \<longleftrightarrow> db' = db"
  by (simp_all add: quiet_def)

lemma page_same: "ac_Session (rq_Context r) = Some s \<Longrightarrow> \<exists>data'. admin_page A now r t n data db = (data', db)"
  by (simp add: admin_page_def Let_def split: option.splits)

text \<open>Within a session every page that is shown leaves the database as it is.\<close>

lemma page_snd [simp]: "ac_Session (rq_Context r) = Some s \<Longrightarrow> snd (admin_page A now r t n data db) = db"
  using page_same [of r s A now t n data db] by auto

lemma page_quiet [simp]:
  "ac_Session (rq_Context r) = Some s \<Longrightarrow> quiet db (case admin_page A now r t n data db of (d, db') \<Rightarrow> Some (f d, db'))"
  using page_same [of r s A now t n data db] by auto

lemma users_page_snd [simp]: "ac_Session (rq_Context r) = Some s \<Longrightarrow> snd (usersPage A now r data db) = db"
  by (simp add: usersPage_def Let_def case_prod_beta)

lemma user_page_snd [simp]: "ac_Session (rq_Context r) = Some s \<Longrightarrow> snd (userPage A now r u data db) = db"
  by (simp add: userPage_def)

lemma users_page_same: "ac_Session (rq_Context r) = Some s \<Longrightarrow> \<exists>data'. usersPage A now r data db = (data', db)"
  unfolding usersPage_def Let_def by (auto split: prod.splits intro: page_same)

lemma user_page_same: "ac_Session (rq_Context r) = Some s \<Longrightarrow> \<exists>data'. userPage A now r u data db = (data', db)"
  unfolding userPage_def by (rule page_same)

lemma collection_page_same:
  "ac_Session (rq_Context r) = Some s \<Longrightarrow> collectionPage A now r c data db = Some (x, db') \<Longrightarrow> db' = db"
  using page_same [of r s A now _ _ _ db]
  by (auto simp: collectionPage_def Let_def split: sum.splits prod.splits if_splits) (metis prod.inject)+

lemma object_page_same:
  assumes "ac_Session (rq_Context r) = Some s"
  shows "\<exists>x. contactPage A now r c obj contact db = (x, db)" "\<exists>x. eventPage A now r c obj e db = (x, db)"
  using page_same [OF assms, of A now _ _ _ db]
  by (auto simp: contactPage_def eventPage_def Let_def split: sum.splits option.splits prod.splits) (metis prod.inject)+

lemma with_quiet:
  "(\<And>u. UserByID (u_ID u) db = Inr u \<Longrightarrow> quiet db (k u)) \<Longrightarrow> quiet db (with_user r w db k)"
  "(\<And>c. quiet db (g c)) \<Longrightarrow> quiet db (with_collection r w db g)"
  "(\<And>c. quiet db (g c)) \<Longrightarrow> quiet db (with_type typ r w db g)"
  "(\<And>x. quiet db (f x)) \<Longrightarrow> quiet db (with_object r w db c f)"
  by (auto simp: with_user_def with_collection_def with_type_def with_object_def split: option.splits sum.splits dest: UserByID_mem)

lemma shown_quiet:
  assumes s: "ac_Session (rq_Context r) = Some s"
  shows "quiet db (user_rejected A D r u data code msg w db)" "quiet db (confirm_page A D r t cf w db)"
    "quiet db (cannot_edit A D r c x err w db)" "quiet db (contact_form A D r c obj contact w db)"
    "quiet db (rejectContact A D r c obj contact msg w db)" "quiet db (event_form A D r c obj e w db)"
    "quiet db (rejectEvent A D r c obj e msg w db)"
  subgoal using user_page_same [OF s, of A "dw_Now D" u data db] by (auto simp: user_rejected_def)
  subgoal using s by (simp add: confirm_page_def)
  subgoal by (auto simp: cannot_edit_def split: option.splits sum.splits dest: collection_page_same [OF s])
  subgoal using object_page_same(1) [OF s, of A "dw_Now D" c obj contact db] by (auto simp: contact_form_def split: sum.splits)
  subgoal using object_page_same(1) [OF s, of A "dw_Now D" c obj contact db] by (auto simp: rejectContact_def split: sum.splits)
  subgoal using object_page_same(2) [OF s, of A "dw_Now D" c obj e db] by (auto simp: event_form_def split: sum.splits)
  subgoal using object_page_same(2) [OF s, of A "dw_Now D" c obj e db] by (auto simp: rejectEvent_def split: sum.splits)
  done

lemma users_page_quiet:
  "ac_Session (rq_Context r) = Some s \<Longrightarrow>
   quiet db (case usersPage A now r data db of (d, db') \<Rightarrow> Some (f d, db'))"
  using users_page_same [of r s A now data db] by auto

lemma user_page_quiet:
  "ac_Session (rq_Context r) = Some s \<Longrightarrow>
   quiet db (case userPage A now r u data db of (d, db') \<Rightarrow> Some (f d, db'))"
  using user_page_same [of r s A now u data db] by auto


section \<open>What a page does to the database\<close>

text \<open>The storage operations a page may carry out, on the request that reaches it.\<close>

fun page_write :: "admin_req \<Rightarrow> db \<Rightarrow> page \<Rightarrow> db_op list \<Rightarrow> bool" where
  "page_write r db PageCreateUser ops = (\<exists>now v. ops = [OpCreateUser now v] \<and> \<not> u_IsAdmin v)"
| "page_write r db PageUpdateUser ops =
     (\<exists>now v s. ops = [OpUpdateUser now v] \<and> UserByID (u_ID v) db = Inr s \<and> (is_self r v \<longrightarrow> u_IsAdmin v = u_IsAdmin s))"
| "page_write r db PageResetPassword ops =
     (\<exists>now i h s. ops = [OpSetPassword now i h, OpDeleteUserSessions i] \<and> UserByID i db = Inr s)"
| "page_write r db PageDeleteUser ops = (\<exists>v. ops = [OpDeleteUser (u_ID v)] \<and> UserByID (u_ID v) db = Inr v \<and> \<not> is_self r v)"
| "page_write r db PageCreateCollection ops = (\<exists>now c. ops = [OpCreateCollection now c])"
| "page_write r db PageUpdateCollection ops = (\<exists>now c. ops = [OpUpdateCollection now c])"
| "page_write r db PageDeleteCollection ops = (\<exists>i. ops = [OpDeleteCollection i])"
| "page_write r db PageCreateContact ops = (\<exists>now x. ops = [OpPut now x])"
| "page_write r db PageUpdateContact ops = (\<exists>now x. ops = [OpPut now x])"
| "page_write r db PageDeleteContact ops = (\<exists>now i u. ops = [OpDelete now i u])"
| "page_write r db PageCreateEvent ops = (\<exists>now x. ops = [OpPut now x])"
| "page_write r db PageUpdateEvent ops = (\<exists>now x. ops = [OpPut now x])"
| "page_write r db PageDeleteEvent ops = (\<exists>now i u. ops = [OpDelete now i u])"
| "page_write r db p ops = False"

text \<open>Nothing, or operations \<open>P\<close> allows and a redirect.\<close>

definition effect :: "admin_server \<Rightarrow> admin_req \<Rightarrow> (db_op list \<Rightarrow> bool) \<Rightarrow> rw \<Rightarrow> db \<Rightarrow> (rw \<times> db) option \<Rightarrow> bool" where
  "effect A r P w db x =
     (case x of
        None \<Rightarrow> True
      | Some (w', db') \<Rightarrow>
          db' = db \<or> (\<exists>ops path cs. P ops \<and> db' = run (l_hash (ax_lib (as_ext A))) ops db \<and>
                        w' = admin_redirect A r path (foldr SetCookie cs w)))"

lemma effect_quiet: "quiet db x \<Longrightarrow> effect A r P w db x"
  by (auto simp: effect_def quiet_def split: option.splits)

lemma effect_redirect:
  "P ops \<Longrightarrow> db' = run (l_hash (ax_lib (as_ext A))) ops db \<Longrightarrow> effect A r P w db (Some (admin_redirect A r path w, db'))"
  unfolding effect_def by (simp, rule disjI2) (metis foldr.simps(1) id_apply)

lemma effect_cookie:
  "P ops \<Longrightarrow> db' = run (l_hash (ax_lib (as_ext A))) ops db \<Longrightarrow>
   effect A r P w db (Some (admin_redirect A r path (SetCookie ck w), db'))"
  unfolding effect_def
  by (simp, rule disjI2, rule exI [of _ ops], simp, rule exI [of _ path], rule exI [of _ "[ck]"]) simp

lemma effect_same [simp]: "effect A r P w db (Some (w', db))" "effect A r P w db None"
  by (simp_all add: effect_def)

lemma with_effect:
  "(\<And>u. UserByID (u_ID u) db = Inr u \<Longrightarrow> effect A r P w db (k u)) \<Longrightarrow> effect A r P w db (with_user r w db k)"
  "(\<And>c. c \<in> set (collections db) \<Longrightarrow> effect A r P w db (g c)) \<Longrightarrow> effect A r P w db (with_collection r w db g)"
  "(\<And>c. c \<in> set (collections db) \<Longrightarrow> effect A r P w db (g c)) \<Longrightarrow> effect A r P w db (with_type typ r w db g)"
  "(\<And>x. effect A r P w db (f x)) \<Longrightarrow> effect A r P w db (with_object r w db c f)"
  by (auto simp: with_user_def with_collection_def with_type_def with_object_def
      split: option.split sum.split dest: UserByID_mem CollectionByID_mem)

lemma run_ops: "run hash [op] db = exec hash op db" "run hash [op, op'] db = exec hash op' (exec hash op db)"
  by (simp_all add: run_def)

lemma storage_error_same:
  "fst (CreateUser now u db) = Inl e \<Longrightarrow> snd (CreateUser now u db) = db"
  "fst (UpdateUser now u db) = Inl e \<Longrightarrow> snd (UpdateUser now u db) = db"
  "fst (SetPassword now i h db) = Inl e \<Longrightarrow> snd (SetPassword now i h db) = db"
  "fst (DeleteUser i db) = Inl e \<Longrightarrow> snd (DeleteUser i db) = db"
  "fst (CreateCollection now c db) = Inl e \<Longrightarrow> snd (CreateCollection now c db) = db"
  "fst (UpdateCollection now c db) = Inl e \<Longrightarrow> snd (UpdateCollection now c db) = db"
  "fst (DeleteCollection i db) = Inl e \<Longrightarrow> snd (DeleteCollection i db) = db"
  "fst (DeleteObject now i uri db) = Inl e \<Longrightarrow> snd (DeleteObject now i uri db) = db"
  by (metis prod.collapse storage_errors)+

text \<open>One storage operation and a redirect.\<close>

lemma effect_ops:
  "P [OpCreateUser now v] \<Longrightarrow> effect A r P w db (Some (admin_redirect A r path w, snd (CreateUser now v db)))"
  "P [OpUpdateUser now v] \<Longrightarrow> effect A r P w db (Some (admin_redirect A r path w, snd (UpdateUser now v db)))"
  "P [OpDeleteUser i] \<Longrightarrow> effect A r P w db (Some (admin_redirect A r path w, snd (DeleteUser i db)))"
  "P [OpCreateCollection now c] \<Longrightarrow> effect A r P w db (Some (admin_redirect A r path w, snd (CreateCollection now c db)))"
  "P [OpUpdateCollection now c] \<Longrightarrow> effect A r P w db (Some (admin_redirect A r path w, snd (UpdateCollection now c db)))"
  "P [OpDeleteCollection i] \<Longrightarrow> effect A r P w db (Some (admin_redirect A r path w, snd (DeleteCollection i db)))"
  "P [OpDelete now i uri] \<Longrightarrow> effect A r P w db (Some (admin_redirect A r path w, snd (DeleteObject now i uri db)))"
  "P [OpSetPassword now i h, OpDeleteUserSessions j] \<Longrightarrow>
     effect A r P w db (Some (admin_redirect A r path w, DeleteUserSessions j (snd (SetPassword now i h db))))"
  "P [OpSetPassword now i h, OpDeleteUserSessions j] \<Longrightarrow>
     effect A r P w db (Some (admin_redirect A r path (SetCookie ck w), DeleteUserSessions j (snd (SetPassword now i h db))))"
  by (auto simp: run_ops intro: effect_redirect effect_cookie)

lemma effect_errors:
  "fst (CreateUser now v db) = Inl e \<Longrightarrow> effect A r P w db (Some (w', snd (CreateUser now v db)))"
  "fst (UpdateUser now v db) = Inl e \<Longrightarrow> effect A r P w db (Some (w', snd (UpdateUser now v db)))"
  "fst (SetPassword now i h db) = Inl e \<Longrightarrow> effect A r P w db (Some (w', snd (SetPassword now i h db)))"
  "fst (DeleteUser i db) = Inl e \<Longrightarrow> effect A r P w db (Some (w', snd (DeleteUser i db)))"
  "fst (CreateCollection now c db) = Inl e \<Longrightarrow> effect A r P w db (Some (w', snd (CreateCollection now c db)))"
  "fst (UpdateCollection now c db) = Inl e \<Longrightarrow> effect A r P w db (Some (w', snd (UpdateCollection now c db)))"
  "fst (DeleteCollection i db) = Inl e \<Longrightarrow> effect A r P w db (Some (w', snd (DeleteCollection i db)))"
  "fst (DeleteObject now i uri db) = Inl e \<Longrightarrow> effect A r P w db (Some (w', snd (DeleteObject now i uri db)))"
  by (simp_all add: storage_error_same)

lemma effect_split:
  "(\<And>e. x = Inl e \<Longrightarrow> effect A r P w db (f e)) \<Longrightarrow> (\<And>a. x = Inr a \<Longrightarrow> effect A r P w db (g a)) \<Longrightarrow>
   effect A r P w db (case x of Inl e \<Rightarrow> f e | Inr a \<Rightarrow> g a)"
  "(y = None \<Longrightarrow> effect A r P w db z) \<Longrightarrow> (\<And>b. y = Some b \<Longrightarrow> effect A r P w db (h b)) \<Longrightarrow>
   effect A r P w db (case y of None \<Rightarrow> z | Some b \<Rightarrow> h b)"
  "(c \<Longrightarrow> effect A r P w db z) \<Longrightarrow> (\<not> c \<Longrightarrow> effect A r P w db z') \<Longrightarrow> effect A r P w db (if c then z else z')"
  by (auto split: sum.split option.split)

lemma createUser_effect:
  assumes s: "ac_Session (rq_Context r) = Some s"
  shows "effect A r (page_write r db PageCreateUser) w db (createUser A D r w db)"
  unfolding createUser_def Let_def case_prod_beta
  by (intro effect_split; ((rule effect_errors, assumption) | (rule effect_ops, simp) | simp add: s))

lemma updateUser_effect:
  assumes s: "ac_Session (rq_Context r) = Some s"
  shows "effect A r (page_write r db PageUpdateUser) w db (updateUser A D r w db)"
  unfolding updateUser_def Let_def case_prod_beta
  by (intro with_effect(1) effect_split;
      ((rule effect_errors, assumption) | rule effect_quiet [OF shown_quiet(1) [OF s]]
       | (rule effect_ops, force simp: is_self_def split: option.splits) | simp))

lemma resetPassword_effect:
  assumes s: "ac_Session (rq_Context r) = Some s"
  shows "effect A r (page_write r db PageResetPassword) w db (resetPassword A D r w db)"
  unfolding resetPassword_def Let_def case_prod_beta
  by (intro with_effect(1) effect_split;
      ((rule effect_errors, assumption) | rule effect_quiet [OF shown_quiet(1) [OF s]] | (rule effect_ops, simp) | simp))

lemma deleteUser_effect:
  assumes s: "ac_Session (rq_Context r) = Some s"
  shows "effect A r (page_write r db PageDeleteUser) w db (deleteUser A D r w db)"
  unfolding deleteUser_def Let_def case_prod_beta
  by (intro with_effect(1) effect_split;
      ((rule effect_errors, assumption) | rule effect_quiet [OF shown_quiet(1) [OF s]] | (rule effect_ops, force) | simp))

lemma collection_effects:
  assumes s: "ac_Session (rq_Context r) = Some s"
  shows "effect A r (page_write r db PageCreateCollection) w db (createCollection A D r w db)"
    "effect A r (page_write r db PageUpdateCollection) w db (updateCollection A D r w db)"
    "effect A r (page_write r db PageDeleteCollection) w db (deleteCollection A D r w db)"
  unfolding createCollection_def updateCollection_def deleteCollection_def Let_def case_prod_beta
  by (intro with_effect(1,2) effect_split;
      ((rule effect_errors, assumption) | rule effect_quiet [OF shown_quiet(1) [OF s]] | (rule effect_ops, simp) | simp))+

text \<open>Storing what a form gave: nothing, or one \<open>PutObject\<close>.\<close>

lemma store_effects:
  assumes ok: "db_ok (l_hash (ax_lib (as_ext A))) db" and c: "c \<in> set (collections db)"
  shows "fst (storeContact A D c uri raw db) = None \<Longrightarrow> snd (storeContact A D c uri raw db) = db"
    "fst (storeContact A D c uri raw db) = Some x \<Longrightarrow>
      \<exists>now obj. snd (storeContact A D c uri raw db) = exec (l_hash (ax_lib (as_ext A))) (OpPut now obj) db"
    "fst (storeEvent A D c uri raw db) = None \<Longrightarrow> snd (storeEvent A D c uri raw db) = db"
    "fst (storeEvent A D c uri raw db) = Some x \<Longrightarrow>
      \<exists>now obj. snd (storeEvent A D c uri raw db) = exec (l_hash (ax_lib (as_ext A))) (OpPut now obj) db"
proof -
  have o: "o_CollectionID (stored_object (c_ID c) uri raw u ty n st e rc) = c_ID c" for u ty n st e rc
    by (simp add: stored_object_def)
  note p = PutObject_error [OF ok c o]
  show "fst (storeContact A D c uri raw db) = None \<Longrightarrow> snd (storeContact A D c uri raw db) = db"
    by (auto simp: storeContact_def split: sum.splits prod.splits dest: p)
  show "fst (storeEvent A D c uri raw db) = None \<Longrightarrow> snd (storeEvent A D c uri raw db) = db"
    by (auto simp: storeEvent_def split: sum.splits prod.splits option.splits dest: p)
  show "fst (storeContact A D c uri raw db) = Some x \<Longrightarrow>
      \<exists>now obj. snd (storeContact A D c uri raw db) = exec (l_hash (ax_lib (as_ext A))) (OpPut now obj) db"
    by (auto simp: storeContact_def split: sum.splits prod.splits) (metis snd_conv)
  show "fst (storeEvent A D c uri raw db) = Some x \<Longrightarrow>
      \<exists>now obj. snd (storeEvent A D c uri raw db) = exec (l_hash (ax_lib (as_ext A))) (OpPut now obj) db"
    by (auto simp: storeEvent_def split: sum.splits prod.splits option.splits) (metis snd_conv)
qed

lemma stored_effect:
  assumes ok: "db_ok (l_hash (ax_lib (as_ext A))) db" and c: "c \<in> set (collections db)"
    and P: "\<And>now obj. P [OpPut now obj]"
  shows "effect A r P w db (case fst (storeContact A D c uri raw db) of
      None \<Rightarrow> Some (admin_fail w, snd (storeContact A D c uri raw db))
    | Some _ \<Rightarrow> Some (admin_redirect A r path w, snd (storeContact A D c uri raw db)))"
    "effect A r P w db (case fst (storeEvent A D c uri raw db) of
      None \<Rightarrow> Some (admin_fail w, snd (storeEvent A D c uri raw db))
    | Some _ \<Rightarrow> Some (admin_redirect A r path w, snd (storeEvent A D c uri raw db)))"
proof -
  have put: "effect A r P w db (Some (admin_redirect A r path w, exec (l_hash (ax_lib (as_ext A))) (OpPut now obj) db))" for now obj
    by (rule effect_redirect [where ops = "[OpPut now obj]"]) (simp_all add: run_ops P)
  show "effect A r P w db (case fst (storeContact A D c uri raw db) of
      None \<Rightarrow> Some (admin_fail w, snd (storeContact A D c uri raw db))
    | Some _ \<Rightarrow> Some (admin_redirect A r path w, snd (storeContact A D c uri raw db)))"
    using store_effects(1,2) [OF ok c, of D uri raw] put by (cases "fst (storeContact A D c uri raw db)") auto
  show "effect A r P w db (case fst (storeEvent A D c uri raw db) of
      None \<Rightarrow> Some (admin_fail w, snd (storeEvent A D c uri raw db))
    | Some _ \<Rightarrow> Some (admin_redirect A r path w, snd (storeEvent A D c uri raw db)))"
    using store_effects(3,4) [OF ok c, of D uri raw] put by (cases "fst (storeEvent A D c uri raw db)") auto
qed

lemma contact_effects:
  assumes s: "ac_Session (rq_Context r) = Some s" and ok: "db_ok (l_hash (ax_lib (as_ext A))) db"
  shows "effect A r (page_write r db PageCreateContact) w db (createContact A D r w db)"
    "effect A r (page_write r db PageUpdateContact) w db (updateContact A D r w db)"
    "effect A r (page_write r db PageDeleteContact) w db (deleteContact A D r w db)"
  unfolding createContact_def updateContact_def deleteContact_def delete_object_def Let_def case_prod_beta
  by (intro with_effect(3,4) stored_effect(1) [OF ok] effect_split;
      ((rule effect_errors, assumption) | rule effect_quiet [OF shown_quiet(5) [OF s]] | (rule effect_ops, simp) | simp))+

lemma event_effects:
  assumes s: "ac_Session (rq_Context r) = Some s" and ok: "db_ok (l_hash (ax_lib (as_ext A))) db"
  shows "effect A r (page_write r db PageCreateEvent) w db (createEvent A D r w db)"
    "effect A r (page_write r db PageUpdateEvent) w db (updateEvent A D r w db)"
    "effect A r (page_write r db PageDeleteEvent) w db (deleteEvent A D r w db)"
  unfolding createEvent_def updateEvent_def deleteEvent_def delete_object_def Let_def case_prod_beta
  by (intro with_effect(3,4) stored_effect(2) [OF ok] effect_split;
      ((rule effect_errors, assumption) | rule effect_quiet [OF shown_quiet(7) [OF s]] | (rule effect_ops, simp) | simp))+

lemma collection_page_quiet:
  "ac_Session (rq_Context r) = Some s \<Longrightarrow>
   quiet db (case collectionPage A now r c data db of
      None \<Rightarrow> None | Some x \<Rightarrow> (case fst x of Inl _ \<Rightarrow> Some (f, snd x) | Inr d \<Rightarrow> if b then Some (g d, snd x) else Some (h d, snd x)))"
  by (auto split: option.split sum.split dest: collection_page_same)

lemma shown_pages_quiet:
  assumes s: "ac_Session (rq_Context r) = Some s"
  shows "quiet db (listUsers A D r w db)" "quiet db (showUser A D r w db)" "quiet db (confirmDeleteUser A D r w db)"
    "quiet db (showCollection A D r w db)" "quiet db (confirmDeleteCollection A D r w db)" "quiet db (newContact A D r w db)"
    "quiet db (showContact A D r w db)" "quiet db (confirmDeleteContact A D r w db)" "quiet db (newEvent A D r w db)"
    "quiet db (showEvent A D r w db)" "quiet db (confirmDeleteEvent A D r w db)" "quiet db (showSetup A D r w db)"
  unfolding listUsers_def showUser_def confirmDeleteUser_def showCollection_def confirmDeleteCollection_def newContact_def
    showContact_def confirmDeleteContact_def newEvent_def showEvent_def confirmDeleteEvent_def showSetup_def Let_def
  by (auto simp: case_prod_beta s split: sum.split option.split dest: collection_page_same [OF s]
      intro!: with_quiet shown_quiet [OF s])

lemma page_effect:
  assumes s: "ac_Session (rq_Context r) = Some s" and ok: "db_ok (l_hash (ax_lib (as_ext A))) db"
  shows "effect A r (page_write r db p) w db (page_handler A D p r w db)"
  by (cases p)
    (simp_all only: page_handler.simps createUser_effect [OF s] updateUser_effect [OF s] resetPassword_effect [OF s]
      deleteUser_effect [OF s] collection_effects [OF s] contact_effects [OF s ok] event_effects [OF s ok]
      shown_pages_quiet [OF s] effect_quiet)

section \<open>One request\<close>

text \<open>Everything but the sessions.\<close>

definition data :: "db \<Rightarrow> db" where
  "data db = db\<lparr>sessions := []\<rparr>"

text \<open>A change of sessions only: a run of the storage operations on sessions.\<close>

fun session_op :: "db_op \<Rightarrow> bool" where
  "session_op (OpCreateSession s) = True"
| "session_op (OpDeleteSession tok) = True"
| "session_op op = False"

definition idle :: "db \<Rightarrow> db \<Rightarrow> bool" where
  "idle db db' = (\<exists>ops. list_all session_op ops \<and> (\<forall>hash. db' = run hash ops db))"

lemma run_append: "run hash (ops @ ops') db = run hash ops' (run hash ops db)"
  by (simp add: run_def)

lemma idle_refl [simp]: "idle db db"
  unfolding idle_def by (rule exI [of _ "[]"]) (simp add: run_def)

lemma idle_trans: "idle a b \<Longrightarrow> idle b c \<Longrightarrow> idle a c"
  unfolding idle_def by (metis list_all_append run_append)

lemma session_op_data: "session_op op \<Longrightarrow> data (exec hash op db) = data db"
  by (cases op) (simp_all add: data_def CreateSession_def DeleteSession_def)

lemma session_run_data: "list_all session_op ops \<Longrightarrow> data (run hash ops db) = data db"
  by (induction ops arbitrary: db) (simp_all add: run_def session_op_data)

lemma idle_data: "idle db db' \<Longrightarrow> data db' = data db"
  unfolding idle_def using session_run_data by metis

lemma idle_ok: "idle db db' \<Longrightarrow> db_ok hash db \<Longrightarrow> db_ok hash db'"
  unfolding idle_def using run_ok by metis

lemma DeleteSession_idle: "idle db (snd (DeleteSession tok db))"
  unfolding idle_def by (rule exI [of _ "[OpDeleteSession tok]"]) (simp add: run_ops)

lemma CreateSession_idle: "idle db (snd (CreateSession s db))"
  unfolding idle_def by (rule exI [of _ "[OpCreateSession s]"]) (simp add: run_ops)

lemma SessionByToken_idle: "idle db (snd (SessionByToken now tok db))"
  using DeleteSession_idle [of db tok]
  by (auto simp: SessionByToken_def case_prod_beta split: option.split sum.split)

lemma session_idle:
  "idle db (snd (session_Get now ck db))" "idle db (snd (session_Destroy S ck db))"
  "idle db (snd (session_Create S b b' now i db))" "idle db (snd (RequireSession p now ar db))"
proof -
  show g: "idle db (snd (session_Get now ck db))" for ck
    using SessionByToken_idle by (auto simp: session_Get_def case_prod_beta split: option.split sum.split)
  show "idle db (snd (session_Destroy S ck db))"
    using DeleteSession_idle by (auto simp: session_Destroy_def case_prod_beta split: option.split sum.split)
  show "idle db (snd (session_Create S b b' now i db))"
    using CreateSession_idle by (auto simp: session_Create_def Let_def case_prod_beta split: sum.split)
  show "idle db (snd (RequireSession p now ar db))"
    using g [of "ar_Cookie ar"] by (auto simp: RequireSession_def Let_def case_prod_beta split: sum.split)
qed

lemma admin_page_idle: "idle db (snd (admin_page A now r t n d db))"
  using session_idle(1) by (auto simp: admin_page_def Let_def case_prod_beta split: option.split sum.split)

lemma login_idle:
  "showLogin A D r w db = Some (w', db') \<Longrightarrow> idle db db'"
  "doLogin A D r w (db, t) = (w', db', t') \<Longrightarrow> idle db db'"
proof -
  note g = session_idle(1) [of db "dw_Now D" "ac_Cookie (rq_Context r)"]
  have p: "idle db (snd (admin_page A now q tt n d (snd (session_Get (dw_Now D) (ac_Cookie (rq_Context r)) db))))" for now q tt n d
    using idle_trans [OF g admin_page_idle] .
  show "showLogin A D r w db = Some (w', db') \<Longrightarrow> idle db db'"
    using g p by (auto simp: showLogin_def case_prod_beta split: sum.splits)
  have rej: "idle db (snd (login_rejected A D r u m c w db))" for u m c w
    using admin_page_idle by (simp add: login_rejected_def case_prod_beta)
  show "doLogin A D r w (db, t) = (w', db', t') \<Longrightarrow> idle db db'"
    using session_idle(3) rej
    by (auto simp: doLogin_def Let_def case_prod_beta split: sum.splits if_splits)
qed

text \<open>A page is answered by its handler for an administrator's live session, or by the middleware, which changes sessions only.\<close>

definition admitted :: "draws \<Rightarrow> admin_req \<Rightarrow> db \<Rightarrow> session \<Rightarrow> user \<Rightarrow> bool" where
  "admitted D r db s u =
     (s \<in> set (sessions db) \<and> u \<in> set (users db) \<and> u_ID u = s_UserID s \<and> u_IsAdmin u \<and>
      ac_Cookie (rq_Context r) = Some (s_Token s) \<and> unix (dw_Now D) < s_ExpiresAt s \<and>
      (isMutating (rq_Method r) \<longrightarrow> requestCSRFToken (session_request r) = s_CSRFToken s))"

lemma page_admitted:
  assumes "with_session A (dw_Now D) (requireAdmin h) r w db = Some (w', db')"
  shows "idle db db' \<or>
    (\<exists>s u r'. admitted D r db s u \<and> ac_User (rq_Context r') = Some u \<and> ac_Session (rq_Context r') = Some s \<and>
       rq_Header r' = rq_Header r \<and> h r' w db = Some (w', db'))"
proof (cases "fst (RequireSession loginPath (dw_Now D) (session_request r) db)")
  case (NextWith s u)
  then have req: "RequireSession loginPath (dw_Now D) (session_request r) db =
      (NextWith s u, snd (RequireSession loginPath (dw_Now D) (session_request r) db))"
    by (metis prod.collapse)
  note f = RequireSession_NextWith [OF req]
  show ?thesis
  proof (cases "u_IsAdmin u")
    case True
    have "ar_Cookie (session_request r) = ac_Cookie (rq_Context r)" "ar_Method (session_request r) = rq_Method r"
      by (simp_all add: session_request_def)
    then have "admitted D r db s u" using f True by (simp add: admitted_def)
    then show ?thesis
      using assms req f True by (auto simp: with_session_def requireAdmin_def case_prod_beta)
  next
    case False
    then show ?thesis
      using assms req f by (auto simp: with_session_def requireAdmin_def case_prod_beta)
  qed
qed (use assms session_idle(4) [of db loginPath "dw_Now D" "session_request r"] in
  \<open>auto simp: with_session_def case_prod_beta\<close>)

lemma find_route_mem:
  "find_route m segs rts = Some (rt, i, u) \<Longrightarrow> \<exists>pm ps. (pm, ps, rt) \<in> set rts \<and> method_matches pm m"
proof (induction rts)
  case (Cons x rts)
  show ?case
  proof (cases "find_route m segs rts = Some (rt, i, u)")
    case True
    then show ?thesis using Cons.IH by auto
  next
    case False
    then show ?thesis using Cons.prems by (cases x) (auto split: option.splits if_splits)
  qed
qed simp

lemma writes_are_posts:
  assumes "(pm, ps, Page p) \<in> set admin_routes" and "page_write r db p ops"
  shows "pm = ''POST''"
  using assms by (cases p) (auto simp: admin_routes_def)

lemma matched_write:
  assumes "admin_mux m segs = Matched (Page p) i u" and "page_write r db p ops"
  shows "m = ''POST''"
proof -
  have "find_route m segs admin_routes = Some (Page p, i, u)"
    using assms(1) by (auto simp: admin_mux_def Let_def split: option.splits if_splits)
  from find_route_mem [OF this] obtain pm ps where "(pm, ps, Page p) \<in> set admin_routes" "method_matches pm m" by blast
  then show ?thesis using writes_are_posts [OF _ assms(2)] by (auto simp: method_matches_def)
qed

text \<open>
  Whatever is asked of the server: the data stay as they are, or an administrator's session was used on a page that
  writes, and what happened is that page's storage operations followed by a redirect.
\<close>

lemma header_status [simp]:
  "rw_Status (header_Set k v w) = rw_Status w" "rw_Status (header_Add k v w) = rw_Status w" "rw_Status new_rw = None"
  "rw_Status (SetCookie c w) = rw_Status w"
  by (simp_all add: header_Set_def header_Add_def header_Del_def new_rw_def SetCookie_def)

lemma doLogout_idle: "doLogout A r w db = Some (w', db') \<Longrightarrow> idle db db'"
  using session_idle(2) [of db "as_Sessions A" "ac_Cookie (rq_Context r)"]
  by (auto simp: doLogout_def case_prod_beta split: sum.splits)

lemma logout_idle: "with_session A now (doLogout A) r w db = Some (w', db') \<Longrightarrow> idle db db'"
  using session_idle(4) [of db loginPath now "session_request r"]
  by (auto simp: with_session_def case_prod_beta split: session_answer.splits dest!: doLogout_idle intro: idle_trans)

lemma secured:
  assumes "secureHeaders D h r w0 st = Some (w', st')" and "rw_Status w0 = None"
  shows "st' = st \<or> (\<exists>n w. rw_Status w = None \<and> h (r\<lparr>rq_Context := (rq_Context r)\<lparr>ac_Nonce := n\<rparr>\<rparr>) w st = Some (w', st'))"
proof (cases "scriptNonce D")
  case (Some n)
  have "rw_Status (header_Set ''Referrer-Policy'' ''no-referrer''
      (header_Set ''X-Frame-Options'' ''DENY'' (header_Set ''Content-Security-Policy'' (content_policy n) w0))) = None"
    using assms(2) by simp
  then show ?thesis using assms(1) Some unfolding secureHeaders_def by (simp only: option.case) blast
qed (use assms in \<open>simp add: secureHeaders_def\<close>)

lemma admitted_context:
  "admitted D ((fresh_context i v r)\<lparr>rq_Context := (rq_Context (fresh_context i v r))\<lparr>ac_Nonce := n\<rparr>\<rparr>) db s u = admitted D r db s u"
  by (simp add: admitted_def fresh_context_def session_request_def Get_def)

text \<open>What a write by an administrator is.\<close>

definition admin_write :: "admin_server \<Rightarrow> draws \<Rightarrow> string list \<Rightarrow> admin_req \<Rightarrow> db \<Rightarrow> rw \<Rightarrow> db \<Rightarrow> bool" where
  "admin_write A D segs r db w' db' =
     (\<exists>s u p i v r' ops path cs w0. admitted D r db s u \<and> rq_Method r = ''POST'' \<and>
        admin_mux (rq_Method r) segs = Matched (Page p) i v \<and> ac_User (rq_Context r') = Some u \<and> page_write r' db p ops \<and>
        db' = run (l_hash (ax_lib (as_ext A))) ops db \<and>
        w' = admin_redirect A r' path (foldr SetCookie cs w0) \<and> rw_Status w0 = None)"

lemma page_written:
  assumes ok: "db_ok (l_hash (ax_lib (as_ext A))) db" and m: "admin_mux (rq_Method r) segs = Matched (Page p) i v"
    and h: "with_session A (dw_Now D) (requireAdmin (page_handler A D p))
      ((fresh_context i v r)\<lparr>rq_Context := (rq_Context (fresh_context i v r))\<lparr>ac_Nonce := n\<rparr>\<rparr>) w db = Some (w', db')"
    and w: "rw_Status w = None"
  shows "idle db db' \<or> admin_write A D segs r db w' db'"
  using page_admitted [OF h]
proof (elim disjE exE conjE)
  fix s u r'
  assume ad: "admitted D ((fresh_context i v r)\<lparr>rq_Context := (rq_Context (fresh_context i v r))\<lparr>ac_Nonce := n\<rparr>\<rparr>) db s u"
    and c: "ac_User (rq_Context r') = Some u" "ac_Session (rq_Context r') = Some s"
    and h: "page_handler A D p r' w db = Some (w', db')"
  have "effect A r' (page_write r' db p) w db (Some (w', db'))" using page_effect [OF c(2) ok, of p w D] h by simp
  then consider "db' = db" | ops path cs where "page_write r' db p ops" "db' = run (l_hash (ax_lib (as_ext A))) ops db"
    "w' = admin_redirect A r' path (foldr SetCookie cs w)"
    unfolding effect_def by (simp only: option.case prod.case) blast
  then show ?thesis
  proof cases
    case 2
    have "rq_Method r = ''POST''" using matched_write [OF m 2(1)] .
    then have "admin_write A D segs r db w' db'"
      unfolding admin_write_def using ad [unfolded admitted_context] m c(1) 2 w
      by (intro exI conjI) assumption+
    then show ?thesis ..
  qed simp
qed simp

lemma answer_effect:
  assumes ok: "db_ok (l_hash (ax_lib (as_ext A))) db"
    and serve: "admin_answer A ms D segs r w0 (db, t) = Some (w', db', t')" and w0: "rw_Status w0 = None"
  shows "idle db db' \<or> admin_write A D segs r db w' db'"
proof (cases "admin_mux (rq_Method r) segs")
  case (Matched rt i v)
  let ?r = "\<lambda>n. (fresh_context i v r)\<lparr>rq_Context := (rq_Context (fresh_context i v r))\<lparr>ac_Nonce := n\<rparr>\<rparr>"
  define h where "h = (case rt of
          StaticFiles \<Rightarrow> (\<lambda>r w st. Some (ax_static (as_ext A) (rq_Path r) w, st))
        | ShowLogin \<Rightarrow> on_db (showLogin A D)
        | DoLogin \<Rightarrow> (\<lambda>r w st. Some (doLogin A D r w st))
        | DoLogout \<Rightarrow> on_db (with_session A (dw_Now D) (doLogout A))
        | Page p \<Rightarrow> on_db (with_session A (dw_Now D) (requireAdmin (page_handler A D p))))"
  have "secureHeaders D h (fresh_context i v r) w0 (db, t) = Some (w', db', t')"
    using serve Matched by (simp add: admin_answer_def route_handler_def h_def)
  from secured [OF this w0] consider "(db', t') = (db, t)" | n w where "rw_Status w = None" "h (?r n) w (db, t) = Some (w', db', t')"
    by blast
  then show ?thesis
  proof cases
    case 2
    show ?thesis
    proof (cases rt)
      case (Page p)
      then have "with_session A (dw_Now D) (requireAdmin (page_handler A D p)) (?r n) w db = Some (w', db')"
        using 2(2) by (auto simp: on_db_def h_def)
      then show ?thesis using page_written [OF ok _ _ 2(1)] Matched Page by simp
    next
      case ShowLogin
      then have "showLogin A D (?r n) w db = Some (w', db')" using 2(2) by (auto simp: on_db_def h_def)
      then show ?thesis using login_idle(1) by simp
    next
      case DoLogin
      then have "doLogin A D (?r n) w (db, t) = (w', db', t')" using 2(2) by (simp add: h_def)
      then show ?thesis using login_idle(2) by simp
    next
      case DoLogout
      then have "with_session A (dw_Now D) (doLogout A) (?r n) w db = Some (w', db')" using 2(2) by (auto simp: on_db_def h_def)
      then show ?thesis using logout_idle by simp
    qed (use 2(2) in \<open>simp add: h_def\<close>)
  qed simp
qed (use serve in \<open>auto simp: admin_answer_def\<close>)

lemmas serve_effect = answer_effect [OF _ _ header_status(3), folded admin_serve_def]

end
