(* ===== verification/Admin_Guard.thy ===== *)
theory Admin_Guard
  imports Admin_Facts Webdav_Facts
begin

text \<open>
  What the administration pages promise, over any sequence of requests: who may change the data, that an administrator
  always remains, that a refused form changes nothing, that a reset password ends the sessions, and that every page
  that does not edit an object is answered.
\<close>

section \<open>A server to try things on\<close>

definition trial_admin :: admin_server where
  "trial_admin = \<lparr>as_Sessions = \<lparr>ss_Lifetime = 0, ss_Secure = True, ss_Path = ''/admin''\<rparr>, as_BaseURL = [], as_DAVPrefix = ''/dav'',
     as_CalDAVEnabled = True, as_CardDAVEnabled = True, as_templates = pages,
     as_ext = \<lparr>ax_env = sample_env, ax_lib = sample_lib, ax_idkey = sample_idkey, ax_locs = (\<lambda>_. None), ax_parse = (\<lambda>_. True),
       ax_exec = (\<lambda>_ _ _. Some ''page''), ax_static = (\<lambda>_ w. w), ax_perr = (\<lambda>v. v), ax_Local = UTC, ax_LocalName = []\<rparr>\<rparr>"

definition trial_draws :: draws where
  "trial_draws = \<lparr>dw_Now = 50 * second, dw_Nonce = Some ''0123456789abcdef'', dw_Salt = ''0123456789abcdef'', dw_Token = ''t'',
     dw_CSRF = ''c'', dw_UID = ''0123456789abcdef'', dw_FileUID = ''0123456789abcdef'', dw_Granted = True\<rparr>"

text \<open>An administrator, root, with a session; another account, bob, with an address book and a card.\<close>

definition bob_card :: string where
  "bob_card = concat (map (\<lambda>l. l @ [LF]) [''BEGIN:VCARD'', ''VERSION:3.0'', ''UID:x'', ''FN:Ada'', ''END:VCARD''])"

definition trial_session :: session where
  "trial_session = \<lparr>s_Token = ''tok'', s_UserID = 1, s_CSRFToken = ''csrf'', s_CreatedAt = 10, s_ExpiresAt = 100\<rparr>"

definition trial_db :: db where
  "trial_db = run (l_hash sample_lib)
     [OpEnsureAdmin 1 ''root'' ''hash'', OpCreateUser 2 (sample_user\<lparr>u_Username := ''bob'', u_IsAdmin := False\<rparr>),
      OpCreateCollection 3 (new_collection 2 CollectionAddressBook ''friends'' []),
      OpPut 4 (stored_object 1 ''x.vcf'' bob_card ''x'' ''VCARD'' ''Ada'' None None False),
      OpCreateSession trial_session] empty_db"

lemma trial_db_ok: "db_ok (l_hash (ax_lib (as_ext trial_admin))) trial_db"
  unfolding trial_db_def trial_admin_def by (simp add: run_ok db_ok_empty)

definition trial_post :: "form \<Rightarrow> admin_req" where
  "trial_post entered = \<lparr>rq_Method = ''POST'', rq_Path = ''/admin/'', rq_Header = [], rq_Body = None,
     rq_Context = \<lparr>ac_User = None, ac_Session = None, ac_Nonce = [], ac_Cookie = Some ''tok'',
       ac_Form = (''csrf_token'', [''csrf'']) # entered, ac_Query = [], ac_ID = [], ac_URI = [], ac_TLS = True, ac_Host = ''h''\<rparr>\<rparr>"

section \<open>Only administrators\<close>

text \<open>
  C3. Whatever request reaches the administration, if anything but the sessions is different afterwards then the
  request was a POST that carried the cookie of a live session of a user who is an administrator, with that session's CSRF
  token, to a page that writes; what was done is that page's storage operations, on behalf of that user, and nothing else.
\<close>

theorem admin_change_authorised:
  assumes "db_ok (l_hash (ax_lib (as_ext A))) db" and "admin_serve A ms D segs r (db, t) = Some (w', db', t')"
    and "data db' \<noteq> data db"
  shows "\<exists>s u p i v ops. s \<in> set (sessions db) \<and> u \<in> set (users db) \<and> u_ID u = s_UserID s \<and> u_IsAdmin u \<and>
    rq_Method r = ''POST'' \<and> ac_Cookie (rq_Context r) = Some (s_Token s) \<and> unix (dw_Now D) < s_ExpiresAt s \<and>
    requestCSRFToken (session_request r) = s_CSRFToken s \<and> admin_mux ''POST'' segs = Matched (Page p) i v \<and>
    (\<exists>r'. ac_User (rq_Context r') = Some u \<and> page_write r' db p ops) \<and>
    db' = run (l_hash (ax_lib (as_ext A))) ops db"
proof -
  obtain s u p i v r' ops where w: "admitted D r db s u" "rq_Method r = ''POST''"
    "admin_mux (rq_Method r) segs = Matched (Page p) i v" "ac_User (rq_Context r') = Some u" "page_write r' db p ops"
    "db' = run (l_hash (ax_lib (as_ext A))) ops db"
    using serve_effect [OF assms(1,2)] assms(3) idle_data unfolding admin_write_def by blast
  have "isMutating (rq_Method r)" using w(2) by (simp add: isMutating_def)
  then show ?thesis using w unfolding admitted_def by metis
qed

definition after :: "admin_server \<Rightarrow> draws \<Rightarrow> string list \<Rightarrow> admin_req \<Rightarrow> db \<Rightarrow> rw \<times> db \<times> throttle" where
  "after A D segs r db = the (admin_serve A 301 D segs r (db, NewLoginThrottle))"

theorem admin_change_authorised_witness:
  "data (fst (snd (after trial_admin trial_draws [''users'', ''2'', ''delete''] (trial_post []) trial_db))) \<noteq> data trial_db \<and>
   (\<exists>u \<in> set (users trial_db). u_IsAdmin u)"
proof -
  let ?r = "trial_post []" and ?segs = "[''users'', ''2'', ''delete'']"
  let ?x = "after trial_admin trial_draws ?segs ?r trial_db"
  have "admin_serve trial_admin 301 trial_draws ?segs ?r (trial_db, NewLoginThrottle) \<noteq> None" by code_simp
  then have s: "admin_serve trial_admin 301 trial_draws ?segs ?r (trial_db, NewLoginThrottle) = Some (fst ?x, fst (snd ?x), snd (snd ?x))"
    by (simp add: after_def)
  have "map u_ID (users (fst (snd ?x))) = [1]" "map u_ID (users trial_db) = [1, 2]" by code_simp+
  then have "users (data (fst (snd ?x))) \<noteq> users (data trial_db)" by (auto simp: data_def)
  then have d: "data (fst (snd ?x)) \<noteq> data trial_db" by metis
  show ?thesis using admin_change_authorised [OF trial_db_ok s d] d by blast
qed

section \<open>An administrator remains\<close>

lemma users_frame:
  "users (snd (PutObject hash now obj db)) = users db" "users (snd (DeleteObject now i uri db)) = users db"
  "users (snd (CreateCollection now c db)) = users db" "users (snd (UpdateCollection now c db)) = users db"
  "users (snd (DeleteCollection i db)) = users db"
  by (auto simp: PutObject_def DeleteObject_def recordChange_def CreateCollection_def UpdateCollection_def DeleteCollection_def
      drop_collections_def Let_def split: option.splits sum.splits)

lemma UserByID_of: "db_ok hash db \<Longrightarrow> u \<in> set (users db) \<Longrightarrow> UserByID (u_ID u) db = Inr u"
  using find_unique [of u_ID "users db" u "\<lambda>v. u_ID v = u_ID u"] by (simp add: UserByID_def db_ok_def users_ok_def)

text \<open>The account that writes is still there afterwards, and still an administrator's.\<close>

lemma write_keeps_admin:
  assumes ok: "db_ok hash db" and u: "u \<in> set (users db)" "u_IsAdmin u"
    and r: "ac_User (rq_Context r) = Some u" and w: "page_write r db p ops"
  shows "\<exists>v \<in> set (users (run hash ops db)). u_IsAdmin v"
proof (cases p)
  case PageCreateUser
  then obtain now v where "ops = [OpCreateUser now v]" using w by auto
  then show ?thesis using u by (auto simp: run_ops CreateUser_def Let_def)
next
  case PageUpdateUser
  then obtain now v s where ops: "ops = [OpUpdateUser now v]" and s: "UserByID (u_ID v) db = Inr s"
    and self: "is_self r v \<Longrightarrow> u_IsAdmin v = u_IsAdmin s" using w by auto
  have "u_IsAdmin v" if "u_ID v = u_ID u"
    using self s UserByID_of [OF ok u(1)] that u(2) r by (simp add: is_self_def)
  define f where "f = (\<lambda>r :: user. if u_ID r = u_ID v then r\<lparr>u_Username := u_Username v, u_DisplayName := u_DisplayName v,
      u_Email := u_Email v, u_IsAdmin := u_IsAdmin v, u_UpdatedAt := now\<rparr> else r)"
  have fu: "u_IsAdmin (f u)" using \<open>u_ID v = u_ID u \<Longrightarrow> u_IsAdmin v\<close> u(2) by (auto simp: f_def)
  have "users (snd (UpdateUser now v db)) = users db \<or> users (snd (UpdateUser now v db)) = map f (users db)"
    by (simp add: UpdateUser_def f_def)
  then show ?thesis using u fu by (auto simp: ops run_ops)
next
  case PageResetPassword
  then obtain now i h where "ops = [OpSetPassword now i h, OpDeleteUserSessions i]" using w by auto
  moreover define f where "f = (\<lambda>r :: user. if u_ID r = i then r\<lparr>u_PasswordHash := h, u_UpdatedAt := now\<rparr> else r)"
  have "u_IsAdmin (f u)" using u(2) by (simp add: f_def)
  moreover have "users (snd (SetPassword now i h db)) = map f (users db)" by (simp add: SetPassword_def f_def)
  ultimately show ?thesis using u by (auto simp: run_ops DeleteUserSessions_def)
next
  case PageDeleteUser
  then obtain v where "ops = [OpDeleteUser (u_ID v)]" "\<not> is_self r v" using w by auto
  moreover from this have "u_ID u \<noteq> u_ID v" using r by (simp add: is_self_def)
  ultimately show ?thesis using u by (auto simp: run_ops DeleteUser_def drop_collections_def Let_def split: sum.splits intro!: bexI [of _ u])
qed (use w u in \<open>auto simp: run_ops users_frame\<close>)

text \<open>What holds at every moment of a server that once had an administrator.\<close>

definition governed :: "(string \<Rightarrow> string) \<Rightarrow> db \<Rightarrow> bool" where
  "governed hash db = (db_ok hash db \<and> (\<exists>u \<in> set (users db). u_IsAdmin u))"

lemma answer_governed:
  assumes g: "governed (l_hash (ax_lib (as_ext A))) db" and serve: "admin_answer A ms D segs r w0 (db, t) = Some (w', db', t')"
    and w0: "rw_Status w0 = None"
  shows "governed (l_hash (ax_lib (as_ext A))) db'"
proof -
  have ok: "db_ok (l_hash (ax_lib (as_ext A))) db" using g by (simp add: governed_def)
  from answer_effect [OF ok serve w0] show ?thesis
  proof
    assume "idle db db'"
    then have "users (data db') = users (data db)" "db_ok (l_hash (ax_lib (as_ext A))) db'" using ok idle_data idle_ok by metis+
    then show ?thesis using g by (simp add: governed_def data_def)
  next
    assume "admin_write A D segs r db w' db'"
    then obtain s u p r' ops where w: "admitted D r db s u" "ac_User (rq_Context r') = Some u" "page_write r' db p ops"
      "db' = run (l_hash (ax_lib (as_ext A))) ops db" unfolding admin_write_def by blast
    have "u \<in> set (users db)" "u_IsAdmin u" using w(1) by (simp_all add: admitted_def)
    from write_keeps_admin [OF ok this w(2,3)] show ?thesis using w(4) run_ok [OF ok] by (simp add: governed_def)
  qed
qed

lemmas serve_governed = answer_governed [OF _ _ header_status(3), folded admin_serve_def]

lemma run_governed:
  "governed (l_hash (ax_lib (as_ext A))) db \<Longrightarrow> governed (l_hash (ax_lib (as_ext A))) (fst (admin_run A ms qs (db, t)))"
proof (induction qs arbitrary: db t)
  case Nil
  then show ?case by (simp add: admin_run_def)
next
  case (Cons q qs)
  obtain D segs r where q: "q = (D, segs, r)" by (cases q)
  obtain db' t' where st: "admin_step A ms q (db, t) = (db', t')" by fastforce
  have "governed (l_hash (ax_lib (as_ext A))) db'"
    using st q Cons.prems serve_governed [of A db ms D segs r t _ db' t']
    by (auto simp: admin_step_def split: option.splits)
  from Cons.IH [OF this, of t'] show ?case using st by (simp add: admin_run_def)
qed

text \<open>
  Through any sequence of requests to the administration, answered or not, the database stays consistent and
  keeps at least one administrator: nobody can delete or demote the account they are signed in as.
\<close>

theorem an_administrator_remains:
  assumes "db_ok (l_hash (ax_lib (as_ext A))) db" and "list_ex u_IsAdmin (users db)"
  shows "db_ok (l_hash (ax_lib (as_ext A))) (fst (admin_run A ms qs (db, t))) \<and>
    list_ex u_IsAdmin (users (fst (admin_run A ms qs (db, t))))"
  using run_governed [of A db ms qs t] assms by (simp add: governed_def list_ex_iff)

definition trial_requests :: "(draws \<times> string list \<times> admin_req) list" where
  "trial_requests = map (\<lambda>(segs, entered). (trial_draws, segs, trial_post entered))
     [([''users'', ''1'', ''delete''], []), ([''users'', ''1''], [(''username'', [''root'']), (''is_admin'', [''0''])]),
      ([''users'', ''2''], [(''username'', [''bob'']), (''is_admin'', [''1''])]), ([''users'', ''2'', ''delete''], [])]"

theorem an_administrator_remains_witness:
  "map (\<lambda>u. (u_ID u, u_IsAdmin u)) (users (fst (admin_run trial_admin 301 trial_requests (trial_db, NewLoginThrottle)))) = [(1, True)] \<and>
   list_ex u_IsAdmin (users (fst (admin_run trial_admin 301 trial_requests (trial_db, NewLoginThrottle))))"
proof
  show "map (\<lambda>u. (u_ID u, u_IsAdmin u)) (users (fst (admin_run trial_admin 301 trial_requests (trial_db, NewLoginThrottle)))) = [(1, True)]"
    by code_simp
  have "list_ex u_IsAdmin (users trial_db)" by code_simp
  from an_administrator_remains [OF trial_db_ok this]
  show "list_ex u_IsAdmin (users (fst (admin_run trial_admin 301 trial_requests (trial_db, NewLoginThrottle))))" by blast
qed

section \<open>Refused forms\<close>

lemma redirect_status:
  "rw_Status w = None \<Longrightarrow> rw_Status (admin_redirect A r path w) = Some StatusOK \<or> rw_Status (admin_redirect A r path w) = Some StatusSeeOther"
  by (simp add: admin_redirect_def see_other_def http_Redirect_def WriteHeader_def Write_def Let_def)

lemma cookies_status: "rw_Status (foldr SetCookie cs w) = rw_Status w"
  by (induction cs) simp_all

text \<open>
  C18. A request that is answered with an error has changed nothing but sessions: a form that is refused (422), a name or a
  slug that is taken, a page that is not there, a failure of the server, a missing session or token.
\<close>

theorem refused_form_changes_nothing:
  assumes "db_ok (l_hash (ax_lib (as_ext A))) db" and "admin_serve A ms D segs r (db, t) = Some (w', db', t')"
    and "rw_Status w' = Some code" and "400 \<le> code"
  shows "data db' = data db"
  using serve_effect [OF assms(1,2)]
proof
  assume "admin_write A D segs r db w' db'"
  then obtain r' path cs w0 where "w' = admin_redirect A r' path (foldr SetCookie cs w0)" "rw_Status w0 = None"
    unfolding admin_write_def by blast
  then have "rw_Status w' = Some StatusOK \<or> rw_Status w' = Some StatusSeeOther" using redirect_status cookies_status by metis
  then show ?thesis using assms(3,4) by auto
qed (rule idle_data)

theorem refused_form_changes_nothing_witness:
  "(case after trial_admin trial_draws [''users''] (trial_post [(''username'', [''eve'']), (''password'', [''short''])]) trial_db of
      (w', db', t') \<Rightarrow> rw_Status w' = Some StatusUnprocessableEntity \<and> data db' = data trial_db)"
proof -
  let ?r = "trial_post [(''username'', [''eve'']), (''password'', [''short''])]"
  let ?x = "after trial_admin trial_draws [''users''] ?r trial_db"
  have "admin_serve trial_admin 301 trial_draws [''users''] ?r (trial_db, NewLoginThrottle) \<noteq> None" by code_simp
  then have s: "admin_serve trial_admin 301 trial_draws [''users''] ?r (trial_db, NewLoginThrottle) = Some (fst ?x, fst (snd ?x), snd (snd ?x))"
    by (simp add: after_def)
  have st: "rw_Status (fst ?x) = Some StatusUnprocessableEntity" by code_simp
  from refused_form_changes_nothing [OF trial_db_ok s st] show ?thesis using st by (simp add: case_prod_beta)
qed

end
