(* ===== verification/Admin_Contacts.thy ===== *)
theory Admin_Contacts
  imports Admin_Guard VCard_Roundtrip
begin

text \<open>
  The form of a contact from end to end (\<open>internal/admin/contacts.go\<close> over \<open>internal/vcard\<close> and \<open>internal/storage\<close>): which
  row of which table the form of a stored contact changes, what every column of it holds afterwards, and what the card reads as.
\<close>

section \<open>Rewriting a stored object\<close>

lemma find_map_key: "(\<And>r. P (f r) = P r) \<Longrightarrow> List.find P (map f xs) = map_option f (List.find P xs)"
  by (induction xs) simp_all

lemma lookup_rewritten:
  assumes ok: "objects_ok hash cids (objects db)" and x: "lookup_object (o_CollectionID obj) (o_URI obj) db = Some x"
  shows "lookup_object k u (db\<lparr>objects := put_row hash now obj (objects db)\<rparr>) =
    (if (k, u) = (o_CollectionID obj, o_URI obj) then Some (payload hash now obj x) else lookup_object k u db)"
proof -
  let ?f = "\<lambda>r. if o_ID r = o_ID x then payload hash now obj r else r"
  have "lookup_object k u (db\<lparr>objects := put_row hash now obj (objects db)\<rparr>) = map_option ?f (lookup_object k u db)"
    unfolding put_row_change x option.case
    by (simp add: lookup_object_def) (rule find_map_key, simp)
  moreover have "lookup_object k u db = Some y \<Longrightarrow> o_ID y = o_ID x \<Longrightarrow> (k, u) = (o_CollectionID obj, o_URI obj)" for y
  proof -
    assume y: "lookup_object k u db = Some y" and i: "o_ID y = o_ID x"
    have "y \<in> set (objects db)" "x \<in> set (objects db)" "(k, u) = (o_CollectionID y, o_URI y)"
      "(o_CollectionID obj, o_URI obj) = (o_CollectionID x, o_URI x)"
      using find_SomeD [OF y [unfolded lookup_object_def]] find_SomeD [OF x [unfolded lookup_object_def]] by simp_all
    moreover have "distinct (map o_ID (objects db))" using ok by (simp add: objects_ok_def)
    ultimately show ?thesis using i by (auto simp: distinct_map inj_on_def)
  qed
  ultimately show ?thesis using x by (cases "lookup_object k u db") auto
qed

text \<open>A put over a stored object, column by column.\<close>

lemma put_over_stored:
  assumes ok: "db_ok hash db" and c: "c \<in> set (collections db)" "o_CollectionID obj = c_ID c"
    and x: "ObjectByURI (c_ID c) (o_URI obj) db = Inr x"
  shows "\<exists>y db'. PutObject hash now obj db = (Inr y, db') \<and> y = (if ETagFor hash (o_Raw obj) = o_ETag x then x else payload hash now obj x) \<and>
    (\<forall>k u. ObjectByURI k u db' = (if (k, u) = (c_ID c, o_URI obj) then Inr y else ObjectByURI k u db)) \<and>
    seq_of (c_ID c) db' = Some (if ETagFor hash (o_Raw obj) = o_ETag x then c_SyncSeq c else c_SyncSeq c + 1) \<and>
    users db' = users db \<and> sessions db' = sessions db"
proof -
  have l: "lookup_object (o_CollectionID obj) (o_URI obj) db = Some x"
    using x c(2) by (simp add: ObjectByURI_lookup split: option.splits)
  show ?thesis
  proof (cases "ETagFor hash (o_Raw obj) = o_ETag x")
    case True
    then show ?thesis using PutObject_same [OF l, of hash now] x seq_of_find [OF ok c(1)] by auto
  next
    case False
    have o: "objects_ok hash (coll_ids db) (objects db)" using ok by (simp add: db_ok_def)
    have new: "\<And>z. lookup_object (o_CollectionID obj) (o_URI obj) db = Some z \<Longrightarrow> ETagFor hash (o_Raw obj) \<noteq> o_ETag z"
      using False l by simp
    define db' where "db' = recorded now c (o_URI obj) ChangeUpdated (put_row hash now obj (objects db)) db"
    have p: "PutObject hash now obj db = (ObjectByURI (c_ID c) (o_URI obj) db', db')"
      using PutObject_change(1) [OF ok c new, of now] l by (simp add: db'_def)
    have look: "ObjectByURI k u db' = (if (k, u) = (c_ID c, o_URI obj) then Inr (payload hash now obj x) else ObjectByURI k u db)" for k u
      using lookup_rewritten [OF o l, of k u now] c(2) unfolding db'_def ObjectByURI_lookup lookup_recorded by auto
    have "seq_of (c_ID c) db' = Some (c_SyncSeq c + 1)"
      unfolding db'_def by (rule seq_of_recorded [OF seq_of_find [OF ok c(1)]])
    moreover have "users db' = users db" "sessions db' = sessions db" by (simp_all add: db'_def recorded_def)
    ultimately show ?thesis using p look False by auto
  qed
qed

section \<open>The form of a contact\<close>


text \<open>Ada's card in bob's address book gets a family name and a telephone number.\<close>

definition trial_edit :: admin_req where
  "trial_edit = (trial_post [(''given_name'', [''Ada'']), (''family_name'', [''King'']), (''phone_value'', [''7'']), (''phone_type'', [''cell''])])
     \<lparr>rq_Context := (rq_Context (trial_post [(''given_name'', [''Ada'']), (''family_name'', [''King'']),
        (''phone_value'', [''7'']), (''phone_type'', [''cell''])]))\<lparr>ac_ID := ''1'', ac_URI := ''x.vcf''\<rparr>\<rparr>"

abbreviation bob_object :: vcard where "bob_object \<equiv> (Parse bob_card, \<lparr>Begin = 0, End = 4\<rparr>)"

definition bob_row :: object where
  "bob_row = (stored_object 1 ''x.vcf'' bob_card ''x'' ''VCARD'' ''Ada'' None None False)
     \<lparr>o_ID := 1, o_ETag := ETagFor (\<lambda>s. s) bob_card, o_CreatedAt := 4, o_UpdatedAt := 4\<rparr>"

definition bob_friends :: collection where
  "bob_friends = (new_collection 2 CollectionAddressBook ''friends'' [])
     \<lparr>c_ID := 1, c_CTag := ''1'', c_SyncSeq := 1, c_CreatedAt := 3, c_UpdatedAt := 4\<rparr>"

definition trial_contact :: Contact where
  "trial_contact = contactFromForm (ac_Form (rq_Context trial_edit))"

lemma trial_edit_ok:
  "pathID trial_edit = Some 1" "CollectionByID 1 trial_db = Inr bob_friends" "c_Type bob_friends = CollectionAddressBook"
  "ObjectByURI 1 (ac_URI (rq_Context trial_edit)) trial_db = Inr bob_row"
  "vcard_Parse (o_Raw bob_row) = Inr bob_object" "card_object (o_Raw bob_row)" "contact_ok bob_object trial_contact"
  by code_simp+

lemma trial_hash: "l_hash (ax_lib (as_ext trial_admin)) = (\<lambda>s. s)"
  by (simp add: trial_admin_def sample_lib_def)


end
