(* ===== verification/Admin_Accounts.thy ===== *)
theory Admin_Accounts
  imports Admin_Guard
begin

text \<open>
  Single pages of the administration: what a reset password does, that pages are answered, and two places where the code
  does something else than it means to.
\<close>

section \<open>A reset password\<close>

lemma names_unique:
  assumes "db_ok hash db" and "u \<in> set (users db)"
  shows "UserByUsername (u_Username u) db = Inr u"
  using find_unique [of "\<lambda>u. ToLower (u_Username u)" "users db" u "\<lambda>v. nocase_eq (u_Username v) (u_Username u)"] assms
  by (simp add: UserByUsername_def db_ok_def users_ok_def nocase_eq_def)

lemma hash_verifies:
  assumes "acceptable p salt (idk password salt (p_Time p) (p_Memory p) (p_Parallelism p) (p_KeyLength p))"
  shows "VerifyPassword idk (hashPasswordWith idk salt password p) password = Inr ()"
  using decode_format [OF assms] by (simp add: hashPasswordWith_def VerifyPassword_def)

text \<open>
  C19. Resetting a password takes effect at once: the account signs in with the new one, every cookie of a session it
  had is worthless at any time, and no other account is touched.
\<close>

theorem reset_password_takes_over:
  assumes ok: "db_ok (l_hash (ax_lib (as_ext A))) db"
    and reset: "resetPassword A D r w db = Some (w', db')" and id: "pathID r = Some i" and u: "UserByID i db = Inr u"
    and len: "minPasswordLen \<le> length password" and pw: "form_value (ac_Form (rq_Context r)) ''password'' = password"
    and salt: "acceptable DefaultParams (dw_Salt D) (ax_idkey (as_ext A) password (dw_Salt D) (p_Time DefaultParams)
      (p_Memory DefaultParams) (p_Parallelism DefaultParams) (p_KeyLength DefaultParams))"
  shows "(\<exists>v. Authenticate (ax_idkey (as_ext A)) db' (u_Username u) password True = Inr v \<and> u_ID v = i) \<and>
    (\<forall>now tok s v d. session_Get now (Some tok) db' = (Inr (s, v), d) \<longrightarrow> u_ID v \<noteq> i) \<and>
    (\<forall>j. j \<noteq> i \<longrightarrow> UserByID j db' = UserByID j db)"
proof -
  let ?h = "HashPassword (ax_idkey (as_ext A)) (dw_Salt D) password"
  define f where "f = (\<lambda>v :: user. if u_ID v = i then v\<lparr>u_PasswordHash := ?h, u_UpdatedAt := unix (dw_Now D)\<rparr> else v)"
  have mem: "u \<in> set (users db)" "u_ID u = i" using UserByID_mem [OF u] by simp_all
  let ?s = "SetPassword (unix (dw_Now D)) i ?h db"
  have "fst ?s = Inr ()" using mem checkAffected_Inr [of "\<lambda>v. u_ID v = i" "users db"] by (auto simp: SetPassword_def)
  then have db': "db' = DeleteUserSessions i (snd ?s)"
    using reset id u len pw mem(2) by (auto simp: resetPassword_def with_user_def Let_def case_prod_beta split: if_splits)
  have us: "users db' = map f (users db)" and ss: "sessions db' = filter (\<lambda>s. s_UserID s \<noteq> i) (sessions db)"
    by (simp_all add: db' DeleteUserSessions_def SetPassword_def f_def)
  have "db' = run (l_hash (ax_lib (as_ext A))) [OpSetPassword (unix (dw_Now D)) i ?h, OpDeleteUserSessions i] db"
    by (simp add: db' run_ops)
  then have ok': "db_ok (l_hash (ax_lib (as_ext A))) db'" using run_ok [OF ok] by simp
  have "f u \<in> set (users db')" using us mem(1) by simp
  then have "UserByUsername (u_Username (f u)) db' = Inr (f u)" by (rule names_unique [OF ok'])
  then have "Authenticate (ax_idkey (as_ext A)) db' (u_Username u) password True = Inr (f u) \<and> u_ID (f u) = i"
    using hash_verifies [of DefaultParams "dw_Salt D" "ax_idkey (as_ext A)" password, OF salt] mem(2) by (simp add: f_def Authenticate_def HashPassword_def withVerificationSlot_def)
  moreover have "u_ID v \<noteq> i" if "session_Get now (Some tok) db' = (Inr (s, v), d)" for now tok s v d
  proof -
    have "SessionByToken (unix now) tok db' = (Inr (s, v), d)"
      using that by (auto simp: session_Get_def split: prod.splits sum.splits)
    from SessionByToken_Inr [OF this] show ?thesis using ss by auto
  qed
  moreover have "UserByID j db' = UserByID j db" if "j \<noteq> i" for j
  proof -
    have "List.find (\<lambda>v. u_ID v = j) (map f vs) = List.find (\<lambda>v. u_ID v = j) vs" for vs
      using that by (induction vs) (auto simp: f_def)
    then show ?thesis by (simp add: UserByID_def us)
  qed
  ultimately show ?thesis by blast
qed

definition reset_request :: admin_req where
  "reset_request = (trial_post [(''password'', [''new secret''])])\<lparr>rq_Context := (rq_Context (trial_post [(''password'', [''new secret''])]))
     \<lparr>ac_ID := ''1'', ac_Session := Some trial_session\<rparr>\<rparr>"

theorem reset_password_takes_over_witness:
  "(case resetPassword trial_admin trial_draws reset_request new_rw trial_db of
      None \<Rightarrow> False
    | Some (w', db') \<Rightarrow> sessions db' = [] \<and> (\<exists>v. Authenticate sample_idkey db' ''root'' ''new secret'' True = Inr v \<and> u_ID v = 1))"
proof -
  have m: "pathID reset_request = Some 1" "form_value (ac_Form (rq_Context reset_request)) ''password'' = ''new secret''" by code_simp+
  have "(case UserByID 1 trial_db of Inl _ \<Rightarrow> False | Inr u \<Rightarrow> u_Username u = ''root'' \<and> u_ID u = 1)" by code_simp
  then obtain u where u: "UserByID 1 trial_db = Inr u" "u_Username u = ''root''" "u_ID u = 1" by (auto split: sum.splits)
  have len: "minPasswordLen \<le> length ''new secret''" by (simp add: minPasswordLen_def)
  have salt: "acceptable DefaultParams (dw_Salt trial_draws) (ax_idkey (as_ext trial_admin) ''new secret'' (dw_Salt trial_draws)
      (p_Time DefaultParams) (p_Memory DefaultParams) (p_Parallelism DefaultParams) (p_KeyLength DefaultParams))"
    by (simp add: acceptable_def DefaultParams_def sample_idkey_def maxMemory_def maxTime_def maxParallelism_def
        maxSaltLength_def maxKeyLength_def trial_draws_def trial_admin_def)
  let ?s = "SetPassword (unix (dw_Now trial_draws)) 1 (HashPassword (ax_idkey (as_ext trial_admin)) (dw_Salt trial_draws) ''new secret'') trial_db"
  have "fst ?s = Inr ()"
    using UserByID_mem [OF u(1)] checkAffected_Inr [of "\<lambda>v. u_ID v = 1" "users trial_db"] by (auto simp: SetPassword_def)
  then have "\<exists>w'. resetPassword trial_admin trial_draws reset_request new_rw trial_db = Some (w', DeleteUserSessions 1 (snd ?s))"
    using m u len by (simp add: resetPassword_def with_user_def Let_def case_prod_beta)
  then obtain w' where r: "resetPassword trial_admin trial_draws reset_request new_rw trial_db = Some (w', DeleteUserSessions 1 (snd ?s))" ..
  have "filter (\<lambda>s. s_UserID s \<noteq> 1) (sessions trial_db) = []" by code_simp
  then have "sessions (DeleteUserSessions 1 (snd ?s)) = []" by (simp add: DeleteUserSessions_def SetPassword_def)
  moreover have "ax_idkey (as_ext trial_admin) = sample_idkey" by (simp add: trial_admin_def)
  ultimately show ?thesis
    using reset_password_takes_over [OF trial_db_ok r m(1) u(1) len m(2) salt] u r by simp
qed

section \<open>Pages are answered\<close>

text \<open>The pages that run a form through the editing packages, where a loop need not end.\<close>

definition edits_object :: "page \<Rightarrow> bool" where
  "edits_object p = (p \<in> {PageCreateContact, PageUpdateContact, PageCreateEvent, PageUpdateEvent})"

definition returns :: "'a option \<Rightarrow> bool" where
  "returns x = (x \<noteq> None)"

lemma returns_simps [simp]: "returns (Some x)" "\<not> returns None"
  by (simp_all add: returns_def)

lemma returns_split:
  "(\<And>e. x = Inl e \<Longrightarrow> returns (f e)) \<Longrightarrow> (\<And>a. x = Inr a \<Longrightarrow> returns (g a)) \<Longrightarrow> returns (case x of Inl e \<Rightarrow> f e | Inr a \<Rightarrow> g a)"
  "(y = None \<Longrightarrow> returns z) \<Longrightarrow> (\<And>b. y = Some b \<Longrightarrow> returns (h b)) \<Longrightarrow> returns (case y of None \<Rightarrow> z | Some b \<Rightarrow> h b)"
  "(c \<Longrightarrow> returns z) \<Longrightarrow> (\<not> c \<Longrightarrow> returns z') \<Longrightarrow> returns (if c then z else z')"
  by (auto split: sum.split option.split)

lemma collection_page_returns:
  "db_ok hash db \<Longrightarrow> c \<in> set (collections db) \<Longrightarrow> returns (collectionPage A now r c d db)"
proof -
  assume ok: "db_ok hash db" and c: "c \<in> set (collections db)"
  have t: "c_Type c = CollectionAddressBook \<or> c_Type c = CollectionCalendar"
    using ok c by (auto simp: db_ok_def collections_ok_def list_all_iff)
  show ?thesis
    unfolding collectionPage_def Let_def case_prod_beta
    by (intro returns_split; use t in simp)
qed

lemma with_returns:
  "(\<And>u. returns (k u)) \<Longrightarrow> returns (with_user r w db k)"
  "(\<And>c. c \<in> set (collections db) \<Longrightarrow> returns (g c)) \<Longrightarrow> returns (with_collection r w db g)"
  "(\<And>c. c \<in> set (collections db) \<Longrightarrow> returns (g c)) \<Longrightarrow> returns (with_type typ r w db g)"
  "(\<And>x. returns (f x)) \<Longrightarrow> returns (with_object r w db c f)"
  by (auto simp: with_user_def with_collection_def with_type_def with_object_def
      split: option.split sum.split dest: CollectionByID_mem)

lemma shown_returns:
  "returns (user_rejected A D r u d code msg w db)" "returns (confirm_page A D r t cf w db)"
  "returns (contact_form A D r c obj contact w db)" "returns (event_form A D r c obj e w db)"
  by (auto simp: user_rejected_def confirm_page_def contact_form_def event_form_def split: prod.split sum.split)

lemma collection_shown_returns:
  assumes "db_ok hash db" and "c \<in> set (collections db)"
  shows "returns (case collectionPage A now r c d db of
      None \<Rightarrow> None | Some x \<Rightarrow> (case fst x of Inl _ \<Rightarrow> Some (y x) | Inr v \<Rightarrow> if b then Some (f v x) else Some (g v x)))"
    "returns (cannot_edit A D r c x err w db)"
  using collection_page_returns [OF assms]
  by (auto simp: cannot_edit_def case_prod_beta returns_def split: option.split sum.split)

lemma page_returns:
  assumes ok: "db_ok hash db" and p: "\<not> edits_object p"
  shows "returns (page_handler A D p r w db)"
proof -
  note defs = page_handler.simps listUsers_def createUser_def showUser_def updateUser_def resetPassword_def confirmDeleteUser_def
    deleteUser_def createCollection_def showCollection_def updateCollection_def confirmDeleteCollection_def deleteCollection_def
    newContact_def showContact_def confirmDeleteContact_def deleteContact_def newEvent_def showEvent_def confirmDeleteEvent_def
    deleteEvent_def delete_object_def showSetup_def Let_def case_prod_beta
  have "\<not> edits_object p \<Longrightarrow> returns (page_handler A D p r w db)"
    by (cases p; hypsubst; unfold defs; simp only: edits_object_def insert_iff simp_thms;
        (intro with_returns collection_shown_returns(1) [OF ok] returns_split)?;
        (rule shown_returns | (rule collection_shown_returns(2) [OF ok], assumption) | (simp; fail))?)
  then show ?thesis using p .
qed

lemma unanswered_edits:
  assumes "db_ok hash db" and "admin_serve A ms D segs r (db, t) = None"
  shows "\<exists>p i v. admin_mux (rq_Method r) segs = Matched (Page p) i v \<and> edits_object p"
proof (cases "admin_mux (rq_Method r) segs")
  case (Matched rt i v)
  then have n: "route_handler A D rt (fresh_context i v r) new_rw (db, t) = None" using assms(2) by (simp add: admin_serve_def admin_answer_def)
  show ?thesis
  proof (cases rt)
    case (Page p)
    have "\<exists>r' w. with_session A (dw_Now D) (requireAdmin (page_handler A D p)) r' w db = None"
      using n by (auto simp: Page route_handler_def secureHeaders_def on_db_def split: option.splits)
    then obtain r' w where h: "with_session A (dw_Now D) (requireAdmin (page_handler A D p)) r' w db = None" by blast
    show ?thesis
    proof (cases "fst (RequireSession loginPath (dw_Now D) (session_request r') db)")
      case (NextWith s u)
      then have q: "RequireSession loginPath (dw_Now D) (session_request r') db =
          (NextWith s u, snd (RequireSession loginPath (dw_Now D) (session_request r') db))"
        by (metis prod.collapse)
      have "snd (RequireSession loginPath (dw_Now D) (session_request r') db) = db" using RequireSession_NextWith [OF q] by simp
      then have "\<exists>r'' w. page_handler A D p r'' w db = None"
        using h NextWith by (auto simp: with_session_def requireAdmin_def case_prod_beta split: if_splits)
      then obtain r'' w where "page_handler A D p r'' w db = None" by blast
      then have "edits_object p"
        using page_returns [OF assms(1), of p A D r'' w] by (cases "edits_object p") (simp_all add: returns_def)
      then show ?thesis using Matched Page by simp
    qed (use h in \<open>simp_all add: with_session_def case_prod_beta\<close>)
  qed (use n in \<open>auto simp: route_handler_def secureHeaders_def on_db_def showLogin_def with_session_def doLogout_def
      split: option.splits prod.splits session_answer.splits sum.splits\<close>)
qed (use assms(2) in \<open>auto simp: admin_serve_def admin_answer_def\<close>)

text \<open>
  C34. On a consistent database every request to the administration is answered, unless it sends one of the four forms that
  are run through the editing packages: no page divides by the size of a page it does not have, and none fails to return.
\<close>

theorem pages_are_answered:
  assumes ok: "db_ok hash db" and no: "\<And>p i v. admin_mux (rq_Method r) segs = Matched (Page p) i v \<Longrightarrow> \<not> edits_object p"
  shows "\<exists>w db' t'. admin_serve A ms D segs r (db, t) = Some (w, db', t')"
proof (rule ccontr)
  assume "\<not> ?thesis"
  then have "admin_serve A ms D segs r (db, t) = None" by (metis option.exhaust prod.exhaust)
  then show False using unanswered_edits [OF ok] no by blast
qed

theorem pages_are_answered_witness:
  "\<exists>w db' t'. admin_serve trial_admin 301 trial_draws [''users'', ''2'', ''delete''] (trial_post []) (trial_db, NewLoginThrottle) =
     Some (w, db', t')"
proof (rule pages_are_answered [OF trial_db_ok])
  fix p i v
  have "admin_mux (rq_Method (trial_post [])) [''users'', ''2'', ''delete''] = Matched (Page PageDeleteUser) ''2'' []" by code_simp
  then show "admin_mux (rq_Method (trial_post [])) [''users'', ''2'', ''delete''] = Matched (Page p) i v \<Longrightarrow> \<not> edits_object p"
    by (auto simp: edits_object_def)
qed

end
