(* ===== verification/Admin_Form_Facts.thy ===== *)
theory Admin_Form_Facts
  imports Admin_Forms DateFormat_Facts
begin

text \<open>
  What the form functions of \<open>internal/admin\<close> promise: a slug made from a name is one that the check accepts and is its own
  slug, and an event's form, sent back as it was shown, gives the event's times.
\<close>

section \<open>Slugs\<close>

definition slug_char :: "char \<Rightarrow> bool" where
  "slug_char c = (slug_letter c \<or> c \<in> set ''-._'')"

abbreviation apart :: "char \<Rightarrow> char \<Rightarrow> bool" where
  "apart c d \<equiv> \<not> (c = CHR ''-'' \<and> d = CHR ''-'')"

lemma slug_loop_shape:
  assumes "list_all slug_char b" and "successively apart b" and "b \<noteq> [] \<Longrightarrow> last b = CHR ''-'' \<Longrightarrow> dash"
  shows "list_all slug_char (slug_loop b dash s) \<and> successively apart (slug_loop b dash s)"
  using assms
proof (induction s arbitrary: b dash)
  case Nil
  then show ?case by simp
next
  case (Cons r s)
  have letter: "list_all slug_char (slug_loop (b @ [r]) False s) \<and> successively apart (slug_loop (b @ [r]) False s)"
    if "slug_letter r \<or> r = CHR ''.'' \<or> r = CHR ''_''"
  proof (rule Cons.IH)
    have n: "r \<noteq> CHR ''-''" using that by (auto simp: slug_letter_def)
    have "slug_char r" using that by (auto simp: slug_char_def)
    then show "list_all slug_char (b @ [r])" using Cons.prems(1) by simp
    show "successively apart (b @ [r])" using Cons.prems(2) n by (simp add: successively_append_iff)
    show "last (b @ [r]) = CHR ''-'' \<Longrightarrow> False" using n by simp
  qed
  have dashed: "list_all slug_char (slug_loop (b @ ''-'') True s) \<and> successively apart (slug_loop (b @ ''-'') True s)" if "\<not> dash"
  proof (rule Cons.IH)
    have "slug_char (CHR ''-'')" by (simp add: slug_char_def)
    then show "list_all slug_char (b @ ''-'')" using Cons.prems(1) by simp
    show "successively apart (b @ ''-'')" using Cons.prems(2,3) that by (auto simp: successively_append_iff)
  qed simp
  consider "slug_letter r \<or> r = CHR ''.'' \<or> r = CHR ''_''" | "\<not> (slug_letter r \<or> r = CHR ''.'' \<or> r = CHR ''_'')" "\<not> dash \<and> length b > 0"
    | "\<not> (slug_letter r \<or> r = CHR ''.'' \<or> r = CHR ''_'')" "\<not> (\<not> dash \<and> length b > 0)" by blast
  then show ?case
  proof cases
    case 1
    then have "slug_loop b dash (r # s) = slug_loop (b @ [r]) False s" by auto
    then show ?thesis using letter [OF 1] by simp
  next
    case 2
    then have "slug_loop b dash (r # s) = slug_loop (b @ ''-'') True s" by (simp only: slug_loop.simps de_Morgan_disj if_False if_True simp_thms)
    then show ?thesis using dashed 2(2) by (simp only: simp_thms)
  next
    case 3
    then have "slug_loop b dash (r # s) = slug_loop b dash s" by (simp only: slug_loop.simps de_Morgan_disj if_False if_True simp_thms)
    then show ?thesis using Cons.IH [OF Cons.prems] by (simp only: simp_thms)
  qed
qed

lemma slug_loop_same:
  assumes "list_all slug_char s" and "successively apart s" and "s \<noteq> [] \<Longrightarrow> hd s = CHR ''-'' \<Longrightarrow> \<not> dash \<and> b \<noteq> []"
  shows "slug_loop b dash s = b @ s"
  using assms
proof (induction s arbitrary: b dash)
  case (Cons r s)
  have s: "list_all slug_char s" "successively apart s" using Cons.prems(1,2) by (auto simp: successively_Cons)
  show ?case
  proof (cases "r = CHR ''-''")
    case True
    then have "s \<noteq> [] \<Longrightarrow> hd s \<noteq> CHR ''-''" using Cons.prems(2) by (simp add: successively_Cons)
    then have "slug_loop (b @ ''-'') True s = (b @ ''-'') @ s" using Cons.IH [OF s] by blast
    moreover have "\<not> slug_letter r" using True by (simp add: slug_letter_def)
    ultimately show ?thesis using Cons.prems(3) True by simp
  next
    case False
    then have "slug_letter r \<or> r = CHR ''.'' \<or> r = CHR ''_''" using Cons.prems(1) by (auto simp: slug_char_def)
    moreover have "slug_loop (b @ [r]) False s = (b @ [r]) @ s" using Cons.IH [OF s] by simp
    ultimately show ?thesis by auto
  qed
qed simp

text \<open>Trimming keeps a stretch of the string, and its ends are outside the cut set.\<close>

lemma Trim_stretch: "\<exists>a z. s = a @ Trim s cs @ z"
proof -
  have "s = takeWhile (\<lambda>c. c \<in> set cs) s @ TrimLeft s cs" by (simp add: TrimLeft_def)
  moreover have "TrimLeft s cs = TrimRight (TrimLeft s cs) cs @ rev (takeWhile (\<lambda>c. c \<in> set cs) (rev (TrimLeft s cs)))"
    unfolding TrimRight_def by (metis rev_append rev_rev_ident takeWhile_dropWhile_id)
  ultimately show ?thesis unfolding Trim_def by metis
qed

lemma Trim_ends: "Trim s cs \<noteq> [] \<Longrightarrow> hd (Trim s cs) \<notin> set cs \<and> last (Trim s cs) \<notin> set cs"
proof -
  assume n: "Trim s cs \<noteq> []"
  then have r: "rev (Trim s cs) = dropWhile (\<lambda>c. c \<in> set cs) (rev (TrimLeft s cs))" by (simp add: Trim_def TrimRight_def)
  have "last (Trim s cs) \<notin> set cs" using n hd_dropWhile [of "\<lambda>c. c \<in> set cs" "rev (TrimLeft s cs)"]
    by (metis r hd_rev rev_is_Nil_conv)
  moreover have "\<exists>z. TrimLeft s cs = Trim s cs @ z"
    unfolding Trim_def TrimRight_def by (metis rev_append rev_rev_ident takeWhile_dropWhile_id)
  then have "hd (TrimLeft s cs) = hd (Trim s cs) \<and> TrimLeft s cs \<noteq> []" using n by (metis hd_append2 append_is_Nil_conv)
  then have "hd (Trim s cs) \<notin> set cs" unfolding TrimLeft_def by (metis (mono_tags, lifting) hd_dropWhile)
  ultimately show ?thesis by simp
qed

lemma Trim_same: "s = [] \<or> hd s \<notin> set cs \<and> last s \<notin> set cs \<Longrightarrow> Trim s cs = s"
  by (cases s; cases "rev s") (auto simp: Trim_def TrimLeft_def TrimRight_def, metis last.simps last_snoc rev_swap rev.simps(2))

text \<open>A slug: letters, digits, dots, dashes and underscores, no two dashes together, letters or digits at the ends.\<close>

definition is_slug :: "string \<Rightarrow> bool" where
  "is_slug s = (list_all slug_char s \<and> successively apart s \<and>
     (s = [] \<or> hd s \<notin> set ''-._'' \<and> last s \<notin> set ''-._''))"

lemma stretch_shape:
  assumes "list_all slug_char s" and "successively apart s" and "s = a @ t @ z"
  shows "list_all slug_char t \<and> successively apart t"
  using assms by (auto simp: successively_append_iff)

lemma Trim_slug:
  assumes "list_all slug_char s" and "successively apart s"
  shows "is_slug (Trim s ''-._'')"
proof -
  obtain a z where "s = a @ Trim s ''-._'' @ z" using Trim_stretch by blast
  from stretch_shape [OF assms this] show ?thesis using Trim_ends [of s "''-._''"] unfolding is_slug_def by blast
qed

lemma Trim_length: "length (Trim s cs) \<le> length s"
  using Trim_stretch [of s cs] by (metis length_append le_add1 le_add2 le_trans)

lemma Slugify_cases:
  "Slugify name = [] \<or> Slugify name = Trim (take 60 (Trim (slug_loop [] False (ToLower (TrimSpace name))) ''-._'')) ''-._'' \<or>
   Slugify name = Trim (slug_loop [] False (ToLower (TrimSpace name))) ''-._'' \<and> length (Slugify name) \<le> 60"
  by (simp add: Slugify_def Let_def)

lemma Slugify_is_slug: "is_slug (Slugify name) \<and> length (Slugify name) \<le> 60"
proof -
  define t where "t = Trim (slug_loop [] False (ToLower (TrimSpace name))) ''-._''"
  have "list_all slug_char (slug_loop [] False (ToLower (TrimSpace name))) \<and>
    successively apart (slug_loop [] False (ToLower (TrimSpace name)))" by (rule slug_loop_shape) simp_all
  then have t: "is_slug t" unfolding t_def using Trim_slug by blast
  have k: "list_all slug_char (take 60 t) \<and> successively apart (take 60 t)"
    using t stretch_shape [of t "[]" "take 60 t" "drop 60 t"] by (simp add: is_slug_def)
  then have "is_slug (Trim (take 60 t) ''-._'')" using Trim_slug by blast
  moreover have "length (Trim (take 60 t) ''-._'') \<le> 60" using Trim_length [of "take 60 t" "''-._''"] by simp
  moreover have "is_slug []" by (simp add: is_slug_def)
  ultimately show ?thesis using Slugify_cases [of name] t unfolding t_def by auto
qed

lemma slug_letter_alnum: "slug_letter c \<Longrightarrow> is_alnum c"
  by (auto simp: slug_letter_def is_alnum_def Let_def)

lemma slug_accepted: "is_slug s \<Longrightarrow> s = [] \<or> slugPattern s"
  by (cases s) (auto simp: is_slug_def slugPattern_def slug_char_def list_all_iff intro: slug_letter_alnum)

lemma slug_lower: "slug_char c \<Longrightarrow> lower_char c = c \<and> \<not> is_space c"
  by (auto simp: slug_char_def slug_letter_def lower_char_def is_space_def Let_def)

lemma Slugify_slug: "is_slug s \<Longrightarrow> length s \<le> 60 \<Longrightarrow> Slugify s = s"
proof -
  assume s: "is_slug s" and l: "length s \<le> 60"
  have c: "\<forall>c \<in> set s. lower_char c = c \<and> \<not> is_space c" using s slug_lower by (auto simp: is_slug_def list_all_iff)
  have dw: "dropWhile is_space t = t" if "\<forall>c \<in> set t. \<not> is_space c" for t using that by (cases t) auto
  have "TrimSpace s = s" using c by (simp add: TrimSpace_def dw)
  moreover have "ToLower s = s" using c by (simp add: ToLower_def map_idI)
  moreover have "slug_loop [] False s = s"
    using slug_loop_same [of s False "[]"] s by (auto simp: is_slug_def)
  moreover have "Trim s ''-._'' = s" using s by (intro Trim_same) (auto simp: is_slug_def)
  ultimately show ?thesis using l by (simp add: Slugify_def Let_def)
qed

text \<open>
  C35. The slug made from any name is empty or one that the check on slugs accepts, at most sixty bytes long; and the slug of a
  slug is itself, so that what the form previews while a name is typed is what the server stores when it is sent.
\<close>

theorem slug_is_accepted:
  "(Slugify name = [] \<or> slugPattern (Slugify name)) \<and> length (Slugify name) \<le> 60 \<and> Slugify (Slugify name) = Slugify name"
  using Slugify_is_slug [of name] slug_accepted Slugify_slug by blast

lemma slug_samples:
  "Slugify '' Team -- Calendar! '' = ''team-calendar''" "Slugify ''...'' = []" "Slugify ''a.b_c'' = ''a.b_c''"
  "Slugify (replicate 59 (CHR ''x'') @ ''--y'') = replicate 59 (CHR ''x'')"
  by code_simp+

section \<open>The times of a form\<close>

lemma cut_char: "CutPrefix (c # s) [c] = Some s"
  by (simp add: CutPrefix_def HasPrefix_def)

lemma take_day_written:
  assumes "year_ok t" and "civil_of_days (t div 86400) = (y, m, d)"
  shows "take_day (format_day t @ s) = Some (y, m, d, s) \<and> day_ok y m d"
proof -
  have y: "0 \<le> y" "y < 10 ^ 4" using assms by (auto simp: year_ok_def)
  note v = civil_day_in_month [OF assms(2)]
  have d: "d < 10 ^ 2" "0 \<le> d" using v by (auto simp: daysIn_def split: if_splits)
  have f: "format_day t @ s = pad 4 (FormatInt y) @ CHR ''-'' # pad 2 (FormatInt m) @ CHR ''-'' # pad 2 (FormatInt d) @ s"
    using assms(2) y by (simp add: format_day_def year_text_def del: pad.simps)
  have td: "take_digits 4 (pad 4 (FormatInt y) @ r) = Some (y, r)" "take_digits 2 (pad 2 (FormatInt m) @ r) = Some (m, r)"
    "take_digits 2 (pad 2 (FormatInt d) @ r) = Some (d, r)" for r
    using y v d by (simp_all add: take_digits_pad del: pad.simps)
  show ?thesis
    unfolding take_day_def f by (simp only: td option.case prod.case cut_char) (use v in \<open>simp add: day_ok_def\<close>)
qed

lemma midnight: "civil_of_days (t div 86400) = (y, m, d) \<Longrightarrow> Date y m d 0 = t div 86400 * 86400"
  using Date_civil [of "t div 86400 * 86400" y m d] by simp

lemma parse_day_written: "year_ok t \<Longrightarrow> parse_day (format_day t) = Some (t div 86400 * 86400 * second)"
proof -
  assume t: "year_ok t"
  obtain y m d where c: "civil_of_days (t div 86400) = (y, m, d)" by (cases "civil_of_days (t div 86400)")
  show ?thesis using take_day_written [OF t c, of "[]"] midnight [OF c] by (simp add: parse_day_def)
qed

lemma minutes_of_day: "t div 86400 * 86400 + ((t mod 86400 div 3600) * 3600 + (t mod 86400 div 60 mod 60) * 60) = (t div 60 * 60 :: int)"
proof -
  define q where "q = t div 86400"
  define s where "s = t mod 86400"
  have t: "t = s + q * 86400" using div_mult_mod_eq [of t 86400] by (simp add: q_def s_def)
  have "t div 60 = s div 60 + q * 1440"
    using div_mult_self1 [of 60 s "q * 1440"] by (simp add: t)
  moreover have "s div 3600 = s div 60 div 60" using zdiv_zmult2_eq [of 60 s 60] by simp
  moreover have "60 * (s div 60 div 60) + s div 60 mod 60 = s div 60" by (rule mult_div_mod_eq)
  ultimately show ?thesis unfolding q_def [symmetric] s_def [symmetric] by linarith
qed

lemma Date_add: "Date y m d s = Date y m d 0 + s"
  by (simp add: Date_def)

lemma parse_day_hm_written: "year_ok t \<Longrightarrow> parse_day_hm (format_day t @ ''T'' @ format_hm t) = Some (t div 60 * 60 * second)"
proof -
  assume t: "year_ok t"
  obtain y m d where c: "civil_of_days (t div 86400) = (y, m, d)" by (cases "civil_of_days (t div 86400)")
  define h where "h = t mod 86400 div 3600"
  define i where "i = t mod 86400 div 60 mod 60"
  have "0 \<le> t mod 86400" "t mod 86400 < 86400" by simp_all
  then have b: "0 \<le> h" "h < 24" "0 \<le> i" "i < 60" unfolding h_def i_def by (simp_all add: pos_imp_zdiv_nonneg_iff)
  have f: "format_hm t = pad 2 (FormatInt h) @ CHR '':'' # pad 2 (FormatInt i)"
    by (simp add: format_hm_def Let_def h_def i_def del: pad.simps)
  have "Date y m d (h * 3600 + i * 60) = t div 60 * 60"
    using minutes_of_day [of t] midnight [OF c] Date_add [of y m d "h * 3600 + i * 60"] by (simp only: h_def i_def)
  moreover have "take_day (format_day t @ r) = Some (y, m, d, r)" "day_ok y m d" for r using take_day_written [OF t c] by blast+
  moreover have "getnum (pad 2 (FormatInt h) @ r) = Some (h, r)" for r using b by (intro getnum_pad) simp_all
  moreover have "take_digits 2 (pad 2 (FormatInt i)) = Some (i, [])"
    using take_digits_pad [of i 2 "[]"] b by (simp del: pad.simps)
  ultimately show ?thesis
    unfolding parse_day_hm_def f
    by (simp only: append_assoc append_Cons append_Nil option.case prod.case cut_char b simp_thms if_True)
qed

text \<open>The fields of \<open>templates/event.html\<close> as they are shown for an event.\<close>

definition event_fields :: "Event \<Rightarrow> form" where
  "event_fields e =
     [(''uid'', [ev_UID e]), (''summary'', [ev_Summary e]), (''location'', [ev_Location e]),
      (''all_day'', if ev_AllDay e then [''1''] else []),
      (''start_date'', [format_day (ev_Start e div second)]), (''start_time'', [format_hm (ev_Start e div second)]),
      (''end_date'', [formatEndDate e]), (''end_time'', [format_hm (ev_End e div second)]),
      (''timezone'', [ev_Timezone e]), (''recurrence'', [ev_Recurrence e]), (''description'', [ev_Description e])]"

definition is_trimmed :: "string \<Rightarrow> bool" where
  "is_trimmed s = (TrimSpace s = s)"

text \<open>An event a form can show in full: texts without space around them, whole days or whole minutes, years of four digits.\<close>

definition shows_fully :: "Event \<Rightarrow> bool" where
  "shows_fully e =
     (list_all is_trimmed [ev_UID e, ev_Summary e, ev_Location e, ev_Description e, ev_Timezone e, ev_Recurrence e] \<and>
      year_ok (ev_Start e div second) \<and>
      (if ev_AllDay e
       then ev_Start e mod (86400 * second) = 0 \<and> ev_End e mod (86400 * second) = 0 \<and> ev_Start e < ev_End e \<and>
            year_ok (ev_End e div second - 86400) \<and> ev_Timezone e = []
       else ev_Start e mod (60 * second) = 0 \<and> ev_End e mod (60 * second) = 0 \<and> year_ok (ev_End e div second)))"

lemma no_space_trimmed: "\<forall>c \<in> set s. \<not> is_space c \<Longrightarrow> is_trimmed s"
proof -
  have dw: "dropWhile is_space t = t" if "\<forall>c \<in> set t. \<not> is_space c" for t using that by (cases t) auto
  show "\<forall>c \<in> set s. \<not> is_space c \<Longrightarrow> is_trimmed s" by (simp add: is_trimmed_def TrimSpace_def dw)
qed

lemma number_no_space: "c \<in> set (pad w (FormatInt n)) \<Longrightarrow> \<not> is_space c"
proof -
  have d: "\<not> is_space c" if "c \<in> set (itoa k)" for k using digit_char_range [OF that] by (auto simp: is_space_def)
  show "c \<in> set (pad w (FormatInt n)) \<Longrightarrow> \<not> is_space c"
    using d by (auto simp: FormatInt_def is_space_def split: if_splits)
qed

lemma written_trimmed: "is_trimmed (format_day t)" "is_trimmed (format_hm t)" "is_trimmed ''1''" "is_trimmed []"
proof -
  have sep: "\<not> is_space (CHR ''-'')" "\<not> is_space (CHR '':'')" "\<not> is_space (CHR ''1'')" by (simp_all add: is_space_def)
  obtain y m d where c: "civil_of_days (t div 86400) = (y, m, d)" by (cases "civil_of_days (t div 86400)")
  have "\<not> is_space c" if "c \<in> set (year_text y)" for c
    using that sep number_no_space unfolding year_text_def by (auto simp del: pad.simps split: if_splits)
  then show "is_trimmed (format_day t)"
    using sep number_no_space c by (intro no_space_trimmed) (auto simp: format_day_def simp del: pad.simps)
  show "is_trimmed (format_hm t)"
    using sep number_no_space by (intro no_space_trimmed) (auto simp: format_hm_def Let_def simp del: pad.simps)
  show "is_trimmed ''1''" "is_trimmed []" using sep by (auto intro: no_space_trimmed)
qed

lemma whole: "x mod (n * second) = 0 \<Longrightarrow> 0 < n \<Longrightarrow> x div second div n * n = x div second \<and> x div second * second = x"
proof -
  assume "x mod (n * second) = 0" "0 < n"
  then obtain k where "x = n * second * k" by (metis mod_0_imp_dvd dvd_def)
  then have "x = (n * k) * second" by simp
  then show ?thesis using \<open>0 < n\<close> by simp
qed

lemma shown_start:
  assumes "shows_fully e"
  shows "parseFormTime (format_day (ev_Start e div second)) (format_hm (ev_Start e div second)) (ev_AllDay e) = Some (ev_Start e)"
proof -
  let ?t = "ev_Start e div second"
  have n: "format_day ?t \<noteq> []" "format_hm ?t \<noteq> []" by (simp_all add: format_day_def format_hm_def Let_def split: prod.split)
  have y: "year_ok ?t" using assms by (simp add: shows_fully_def)
  show ?thesis
  proof (cases "ev_AllDay e")
    case True
    then have "ev_Start e mod (86400 * second) = 0" using assms by (simp add: shows_fully_def)
    then have "?t div 86400 * 86400 * second = ev_Start e" using whole [of "ev_Start e" 86400] by simp
    then show ?thesis using n True parse_day_written [OF y] by (simp add: parseFormTime_def)
  next
    case False
    then have "ev_Start e mod (60 * second) = 0" using assms by (simp add: shows_fully_def)
    then have "?t div 60 * 60 * second = ev_Start e" using whole [of "ev_Start e" 60] by simp
    then show ?thesis using n False parse_day_hm_written [OF y] by (simp add: parseFormTime_def)
  qed
qed

lemma AddDate_day: "AddDate t 0 0 n = t + n * 86400"
proof -
  obtain y m d where c: "civil_of_days (t div 86400) = (y, m, d)" by (cases "civil_of_days (t div 86400)")
  then have "AddDate t 0 0 n = Date y m (d + n) (t mod 86400)" by (simp add: AddDate_def)
  also have "\<dots> = Date y m d (t mod 86400) + n * 86400" by (simp add: Date_def algebra_simps)
  finally show ?thesis using Date_civil [OF c] by simp
qed

lemma shown_end:
  assumes "shows_fully e"
  shows "\<exists>x. parseFormTime (formatEndDate e) (format_hm (ev_End e div second)) (ev_AllDay e) = Some x \<and>
    (if ev_AllDay e then instant_AddDate x 0 0 1 else x) = ev_End e"
proof -
  let ?t = "ev_End e div second"
  have n: "format_day t \<noteq> []" "format_hm t \<noteq> []" for t by (simp_all add: format_day_def format_hm_def Let_def split: prod.split)
  show ?thesis
  proof (cases "ev_AllDay e")
    case True
    then have h: "ev_End e mod (86400 * second) = 0" "ev_Start e < ev_End e" "year_ok (?t - 86400)"
      using assms by (simp_all add: shows_fully_def)
    note k = whole [OF h(1), simplified]
    have "instant_AddDate (ev_End e) 0 0 (-1) = (?t - 86400) * second"
    proof -
      have "ev_End e mod second = 0" using k by (metis mod_mult_self2_is_0)
      then show ?thesis by (simp add: instant_AddDate_def AddDate_day)
    qed
    then have "instant_AddDate (ev_End e) 0 0 (-1) div second = ?t - 86400" by simp
    then have f: "formatEndDate e = format_day (?t - 86400)" using True h(2) by (simp add: formatEndDate_def)
    have "(?t - 86400) div 86400 = ?t div 86400 - 1" using div_add_self2 [of 86400 "?t - 86400"] by simp
    then have "(?t - 86400) div 86400 * 86400 = ?t - 86400" using k by (simp add: algebra_simps)
    then have p: "parseFormTime (formatEndDate e) (format_hm ?t) True = Some ((?t - 86400) * second)"
      using n parse_day_written [OF h(3)] by (simp add: parseFormTime_def f)
    have "instant_AddDate ((?t - 86400) * second) 0 0 1 = ?t * second" by (simp add: instant_AddDate_def AddDate_day)
    moreover have "?t * second = ev_End e" using k by simp
    ultimately show ?thesis using p True by simp
  next
    case False
    then have h: "ev_End e mod (60 * second) = 0" "year_ok ?t" using assms by (simp_all add: shows_fully_def)
    then have "?t div 60 * 60 * second = ev_End e" using whole [of "ev_End e" 60] by simp
    then show ?thesis using n False parse_day_hm_written [OF h(2)] by (simp add: parseFormTime_def formatEndDate_def)
  qed
qed

text \<open>
  C36. Opening the form of an event and sending it back as it is shown gives the event: its texts, its first and last day or
  its times, its zone and rule. That holds for an event whose texts have no space around them and whose years have four digits, which
  either is of whole days, ends after it starts and has no zone, or starts and ends at whole minutes: the form has no
  seconds, and no zone for a day.
\<close>

theorem event_form_round_trip:
  assumes "shows_fully e"
  shows "eventFromForm (event_fields e) = (e, None)"
proof -
  obtain x where x: "parseFormTime (formatEndDate e) (format_hm (ev_End e div second)) (ev_AllDay e) = Some x"
    "(if ev_AllDay e then instant_AddDate x 0 0 1 else x) = ev_End e"
    using shown_end [OF assms] by blast
  have t: "TrimSpace (ev_UID e) = ev_UID e" "TrimSpace (ev_Summary e) = ev_Summary e" "TrimSpace (ev_Location e) = ev_Location e"
    "TrimSpace (ev_Description e) = ev_Description e" "TrimSpace (ev_Timezone e) = ev_Timezone e"
    "TrimSpace (ev_Recurrence e) = ev_Recurrence e"
    using assms by (simp_all add: shows_fully_def is_trimmed_def)
  have w: "TrimSpace (format_day t) = format_day t" "TrimSpace (format_hm t) = format_hm t" "TrimSpace ''1'' = ''1''" "TrimSpace [] = []" for t
    using written_trimmed by (simp_all add: is_trimmed_def)
  have e: "TrimSpace (formatEndDate e) = formatEndDate e" using w(1) by (simp add: formatEndDate_def)
  have z: "ev_AllDay e \<Longrightarrow> ev_Timezone e = []" using assms by (simp add: shows_fully_def)
  have f: "trimmed (event_fields e) ''uid'' = ev_UID e" "trimmed (event_fields e) ''summary'' = ev_Summary e"
    "trimmed (event_fields e) ''location'' = ev_Location e" "trimmed (event_fields e) ''description'' = ev_Description e"
    "trimmed (event_fields e) ''timezone'' = ev_Timezone e" "trimmed (event_fields e) ''recurrence'' = ev_Recurrence e"
    "trimmed (event_fields e) ''start_date'' = format_day (ev_Start e div second)"
    "trimmed (event_fields e) ''start_time'' = format_hm (ev_Start e div second)"
    "trimmed (event_fields e) ''end_date'' = formatEndDate e" "trimmed (event_fields e) ''end_time'' = format_hm (ev_End e div second)"
    "(trimmed (event_fields e) ''all_day'' = ''1'') = ev_AllDay e"
    by (simp_all add: trimmed_def form_value_def form_values_def event_fields_def t w e)
  show ?thesis
    unfolding eventFromForm_def f Let_def shown_start [OF assms] x(1) option.case
    using x(2) z by (cases e) auto
qed

definition shown_event :: Event where
  "shown_event = \<lparr>ev_UID = ''u'', ev_Summary = ''Leap day'', ev_Location = [], ev_Description = ''notes'',
     ev_Start = 1709164800 * second, ev_End = (1709164800 + 86400) * second, ev_AllDay = True, ev_Timezone = [],
     ev_Recurrence = ''FREQ=YEARLY''\<rparr>"

theorem event_form_round_trip_witness:
  "eventFromForm (event_fields shown_event) = (shown_event, None) \<and> formatEndDate shown_event = ''2024-02-29''"
proof -
  have "shows_fully shown_event" by code_simp
  moreover have "formatEndDate shown_event = ''2024-02-29''" by code_simp
  ultimately show ?thesis using event_form_round_trip by blast
qed

end
