(* ===== verification/Config.thy ===== *)
theory Config
  imports NetUrl GoTime
begin

text \<open>
  \<open>internal/config/config.go\<close>: the configuration a server is started with, read from the environment. The validity of the
  authority of a URL is an argument (\<open>authority\<close>), as in \<open>NetUrl\<close>; the texts of the errors are constructors.
\<close>

section \<open>What it uses of the standard library\<close>

text \<open>\<open>net.SplitHostPort\<close> and \<open>net.JoinHostPort\<close>.\<close>

definition last_index :: "char \<Rightarrow> string \<Rightarrow> nat option" where
  "last_index c s = (if c \<in> set s then Some (length s - 1 - length (takeWhile (\<lambda>x. x \<noteq> c) (rev s))) else None)"

definition first_index :: "char \<Rightarrow> string \<Rightarrow> nat option" where
  "first_index c s = (if c \<in> set s then Some (length (takeWhile (\<lambda>x. x \<noteq> c) s)) else None)"

definition SplitHostPort :: "string \<Rightarrow> (string \<times> string) option" where
  "SplitHostPort s =
     (case last_index (CHR '':'') s of
        None \<Rightarrow> None
      | Some i \<Rightarrow>
          let port = drop (Suc i) s in
          if HasPrefix s ''['' then
            (case first_index (CHR '']'') s of
               None \<Rightarrow> None
             | Some e \<Rightarrow>
                 if Suc e \<noteq> i \<or> CHR ''['' \<in> set (drop 1 s) \<or> CHR '']'' \<in> set (drop (Suc e) s) then None
                 else Some (drop 1 (take e s), port))
          else if CHR '':'' \<in> set (take i s) \<or> CHR ''['' \<in> set s \<or> CHR '']'' \<in> set s then None
          else Some (take i s, port))"

definition JoinHostPort :: "string \<Rightarrow> string \<Rightarrow> string" where
  "JoinHostPort host port = (if CHR '':'' \<in> set host then ''['' @ host @ '']:'' @ port else host @ '':'' @ port)"

text \<open>\<open>strconv.ParseBool\<close>.\<close>

definition ParseBool :: "string \<Rightarrow> bool option" where
  "ParseBool s =
     (if s \<in> set [''1'', ''t'', ''T'', ''true'', ''TRUE'', ''True''] then Some True
      else if s \<in> set [''0'', ''f'', ''F'', ''false'', ''FALSE'', ''False''] then Some False
      else None)"

text \<open>\<open>slog.Level\<close>: a name, with an offset such as \<open>+2\<close> behind it.\<close>

definition level_of_name :: "string \<Rightarrow> int option" where
  "level_of_name name = map_of [(''DEBUG'', -4), (''INFO'', 0), (''WARN'', 4), (''ERROR'', 8)] (ToUpper name)"

definition Level_UnmarshalText :: "string \<Rightarrow> int option" where
  "Level_UnmarshalText s =
     (let name = takeWhile (\<lambda>c. c \<notin> set ''+-'') s; rest = dropWhile (\<lambda>c. c \<notin> set ''+-'') s in
      case (if rest = [] then Some 0 else ParseInt rest) of
        None \<Rightarrow> None
      | Some offset \<Rightarrow> map_option (\<lambda>l. wrap64 (l + offset)) (level_of_name name))"

text \<open>The scheme and the host of a URL that parses.\<close>

definition url_host :: "string \<Rightarrow> string" where
  "url_host auth = (case last_index (CHR ''@'') auth of None \<Rightarrow> auth | Some i \<Rightarrow> drop (Suc i) auth)"

definition url_Origin :: "(string \<Rightarrow> bool) \<Rightarrow> string \<Rightarrow> (string \<times> string) option" where
  "url_Origin authority raw =
     (case url_Parse authority raw of
        None \<Rightarrow> None
      | Some _ \<Rightarrow>
          (case getScheme (before (CHR ''#'') raw) of
             None \<Rightarrow> None
           | Some (scheme, rest) \<Rightarrow>
               let rest = before (CHR ''?'') rest in
               Some (ToLower scheme,
                 if (scheme \<noteq> [] \<or> \<not> HasPrefix rest ''///'') \<and> HasPrefix rest ''//''
                 then url_host (before (CHR ''/'') (drop 2 rest)) else [])))"

section \<open>Loading\<close>

definition minAdminPasswordLen :: nat where "minAdminPasswordLen = 8"

record Config =
  cf_Addr :: string
  cf_DBPath :: string
  cf_BaseURL :: string
  cf_LogLevel :: int
  cf_AdminUsername :: string
  cf_AdminPassword :: string
  cf_CalDAVEnabled :: bool
  cf_CardDAVEnabled :: bool
  cf_SecureCookies :: bool

datatype config_problem =
    AddrNotHostPort | DBPathEmpty | BaseURLInvalid | BaseURLNotHTTP | BaseURLNoHost | AdminUsernameEmpty
  | AdminPasswordMissing | AdminPasswordShort | LogLevelUnknown | NotABoolean string

definition str :: "(string \<Rightarrow> string) \<Rightarrow> string \<Rightarrow> string \<Rightarrow> string" where
  "str getenv key def = (if getenv key \<noteq> [] then getenv key else def)"

definition boolean :: "(string \<Rightarrow> string) \<Rightarrow> string \<Rightarrow> bool \<Rightarrow> (config_problem + unit) \<times> bool" where
  "boolean getenv key def =
     (if getenv key = [] then (Inr (), def)
      else case ParseBool (getenv key) of None \<Rightarrow> (Inl (NotABoolean key), def) | Some b \<Rightarrow> (Inr (), b))"

definition logLevel :: "string \<Rightarrow> (config_problem + unit) \<times> int" where
  "logLevel s = (case Level_UnmarshalText s of None \<Rightarrow> (Inl LogLevelUnknown, 0) | Some l \<Rightarrow> (Inr (), l))"

definition base_url_problems :: "(string \<Rightarrow> bool) \<Rightarrow> string \<Rightarrow> config_problem list" where
  "base_url_problems authority base =
     (if base = [] then []
      else case url_Origin authority base of
             None \<Rightarrow> [BaseURLInvalid]
           | Some (scheme, host) \<Rightarrow>
               if scheme \<noteq> ''http'' \<and> scheme \<noteq> ''https'' then [BaseURLNotHTTP]
               else if host = [] then [BaseURLNoHost] else [])"

definition password_problems :: "string \<Rightarrow> config_problem list" where
  "password_problems p =
     (if p = [] then [AdminPasswordMissing] else if length p < minAdminPasswordLen then [AdminPasswordShort] else [])"

definition problem_of :: "(config_problem + unit) \<Rightarrow> config_problem list" where
  "problem_of x = (case x of Inl p \<Rightarrow> [p] | Inr _ \<Rightarrow> [])"

definition Load :: "(string \<Rightarrow> bool) \<Rightarrow> (string \<Rightarrow> string) \<Rightarrow> config_problem list + Config" where
  "Load authority getenv =
     (let addr = str getenv ''EDAV_ADDR'' '':8080'';
          path = str getenv ''EDAV_DB_PATH'' ''edav.db'';
          base = TrimRight (str getenv ''EDAV_BASE_URL'' []) ''/'';
          name = str getenv ''EDAV_ADMIN_USERNAME'' ''admin'';
          password = getenv ''EDAV_ADMIN_PASSWORD'';
          (e1, level) = logLevel (str getenv ''EDAV_LOG_LEVEL'' ''info'');
          (e2, cal) = boolean getenv ''EDAV_CALDAV_ENABLED'' True;
          (e3, card) = boolean getenv ''EDAV_CARDDAV_ENABLED'' True;
          (e4, secure) = boolean getenv ''EDAV_SECURE_COOKIES'' True;
          errs = (if SplitHostPort addr = None then [AddrNotHostPort] else []) @
                 (if path = [] then [DBPathEmpty] else []) @
                 base_url_problems authority base @
                 (if name = [] then [AdminUsernameEmpty] else []) @
                 password_problems password @
                 concat (map problem_of [e1, e2, e3, e4])
      in if errs \<noteq> [] then Inl errs
         else Inr \<lparr>cf_Addr = addr, cf_DBPath = path, cf_BaseURL = base, cf_LogLevel = level, cf_AdminUsername = name,
                   cf_AdminPassword = password, cf_CalDAVEnabled = cal, cf_CardDAVEnabled = card, cf_SecureCookies = secure\<rparr>)"

section \<open>What is reported, and what is accepted\<close>

text \<open>What is wrong with an environment, one variable at a time and none because of another.\<close>

fun wrong :: "(string \<Rightarrow> bool) \<Rightarrow> (string \<Rightarrow> string) \<Rightarrow> config_problem \<Rightarrow> bool" where
  "wrong authority env AddrNotHostPort = (env ''EDAV_ADDR'' \<noteq> [] \<and> SplitHostPort (env ''EDAV_ADDR'') = None)"
| "wrong authority env DBPathEmpty = False"
| "wrong authority env BaseURLInvalid =
     (TrimRight (env ''EDAV_BASE_URL'') ''/'' \<noteq> [] \<and> url_Origin authority (TrimRight (env ''EDAV_BASE_URL'') ''/'') = None)"
| "wrong authority env BaseURLNotHTTP =
     (TrimRight (env ''EDAV_BASE_URL'') ''/'' \<noteq> [] \<and>
      (\<exists>x. url_Origin authority (TrimRight (env ''EDAV_BASE_URL'') ''/'') = Some x \<and> fst x \<notin> {''http'', ''https''}))"
| "wrong authority env BaseURLNoHost =
     (TrimRight (env ''EDAV_BASE_URL'') ''/'' \<noteq> [] \<and>
      (\<exists>x. url_Origin authority (TrimRight (env ''EDAV_BASE_URL'') ''/'') = Some x \<and> fst x \<in> {''http'', ''https''} \<and> snd x = []))"
| "wrong authority env AdminUsernameEmpty = False"
| "wrong authority env AdminPasswordMissing = (env ''EDAV_ADMIN_PASSWORD'' = [])"
| "wrong authority env AdminPasswordShort = (env ''EDAV_ADMIN_PASSWORD'' \<noteq> [] \<and> length (env ''EDAV_ADMIN_PASSWORD'') < 8)"
| "wrong authority env LogLevelUnknown = (env ''EDAV_LOG_LEVEL'' \<noteq> [] \<and> Level_UnmarshalText (env ''EDAV_LOG_LEVEL'') = None)"
| "wrong authority env (NotABoolean key) =
     (key \<in> {''EDAV_CALDAV_ENABLED'', ''EDAV_CARDDAV_ENABLED'', ''EDAV_SECURE_COOKIES''} \<and> env key \<noteq> [] \<and> ParseBool (env key) = None)"

lemma TrimRight_Nil [simp]: "TrimRight [] cs = []"
  by (simp add: TrimRight_def)

lemma reported_simps:
  "(p \<in> set (base_url_problems authority base)) =
     (base \<noteq> [] \<and> (case url_Origin authority base of None \<Rightarrow> p = BaseURLInvalid
        | Some x \<Rightarrow> if fst x \<notin> {''http'', ''https''} then p = BaseURLNotHTTP else snd x = [] \<and> p = BaseURLNoHost))"
  "(p \<in> set (password_problems w)) =
     (if w = [] then p = AdminPasswordMissing else length w < 8 \<and> p = AdminPasswordShort)"
  "(p \<in> set (problem_of (fst (boolean env key d)))) = (p = NotABoolean key \<and> env key \<noteq> [] \<and> ParseBool (env key) = None)"
  "(p \<in> set (problem_of (fst (logLevel s)))) = (p = LogLevelUnknown \<and> Level_UnmarshalText s = None)"
  by (auto simp: base_url_problems_def password_problems_def minAdminPasswordLen_def boolean_def logLevel_def problem_of_def
      split: option.split)

definition problems :: "(string \<Rightarrow> bool) \<Rightarrow> (string \<Rightarrow> string) \<Rightarrow> config_problem list" where
  "problems authority env =
     (if SplitHostPort (str env ''EDAV_ADDR'' '':8080'') = None then [AddrNotHostPort] else []) @
     (if str env ''EDAV_DB_PATH'' ''edav.db'' = [] then [DBPathEmpty] else []) @
     base_url_problems authority (TrimRight (str env ''EDAV_BASE_URL'' []) ''/'') @
     (if str env ''EDAV_ADMIN_USERNAME'' ''admin'' = [] then [AdminUsernameEmpty] else []) @
     password_problems (env ''EDAV_ADMIN_PASSWORD'') @
     concat (map problem_of [fst (logLevel (str env ''EDAV_LOG_LEVEL'' ''info'')), fst (boolean env ''EDAV_CALDAV_ENABLED'' True),
       fst (boolean env ''EDAV_CARDDAV_ENABLED'' True), fst (boolean env ''EDAV_SECURE_COOKIES'' True)])"

lemma Load_problems: "Load authority env = Inl ps \<longleftrightarrow> ps = problems authority env \<and> ps \<noteq> []"
  by (auto simp: Load_def problems_def Let_def case_prod_beta)

lemma default_addr: "SplitHostPort '':8080'' = Some ([], ''8080'')" and default_level: "Level_UnmarshalText ''info'' = Some 0"
  by code_simp+

lemma problems_wrong: "p \<in> set (problems authority env) \<longleftrightarrow> wrong authority env p"
  by (cases p) (auto simp: problems_def reported_simps str_def default_addr default_level split: option.splits)

text \<open>
  C22. Loading fails exactly when something is wrong, and then reports everything that is: no problem hides another.
\<close>

theorem every_problem_reported:
  "case Load authority env of
     Inl ps \<Rightarrow> ps \<noteq> [] \<and> set ps = {p. wrong authority env p}
   | Inr cfg \<Rightarrow> \<not> (\<exists>p. wrong authority env p) \<and> cf_AdminUsername cfg \<noteq> [] \<and> 8 \<le> length (cf_AdminPassword cfg) \<and>
       SplitHostPort (cf_Addr cfg) \<noteq> None"
proof (cases "Load authority env")
  case (Inl ps)
  then show ?thesis using Load_problems [of authority env ps] problems_wrong [of _ authority env] by auto
next
  case (Inr cfg)
  then have none: "\<not> wrong authority env p" for p
    using Load_problems [of authority env "problems authority env"] problems_wrong [of p authority env]
    by (cases "problems authority env") auto
  have f: "cf_AdminUsername cfg = str env ''EDAV_ADMIN_USERNAME'' ''admin''" "cf_AdminPassword cfg = env ''EDAV_ADMIN_PASSWORD''"
    "cf_Addr cfg = str env ''EDAV_ADDR'' '':8080''"
    using Inr by (auto simp: Load_def Let_def case_prod_beta split: if_splits)
  show ?thesis
    using none [of AdminPasswordMissing] none [of AdminPasswordShort] none [of AddrNotHostPort] none Inr
    by (auto simp: f str_def default_addr)
qed

end
