(* ===== verification/Migrate.thy ===== *)
theory Migrate
  imports Storage NetUrl
begin

text \<open>
  \<open>internal/storage/storage.go\<close> and \<open>migrate.go\<close>: opening the database and bringing its schema up to date. What the
  statements of a migration do to the tables is an argument, \<open>exec\<close>, which may fail; a transaction that fails leaves the
  tables as they were.
\<close>

section \<open>The data source name\<close>

definition query_char :: "char \<Rightarrow> string" where
  "query_char c =
     (if is_alnum c \<or> c \<in> set ''-_.~'' then [c] else if c = SP then ''+''
      else [CHR ''%'', upper_hex (of_char c div 16), upper_hex (of_char c mod 16)])"

definition QueryEscape :: "string \<Rightarrow> string" where
  "QueryEscape s = concat (map query_char s)"

text \<open>\<open>url.Values.Encode\<close> writes the keys in order; \<open>_pragma\<close> comes before \<open>_txlock\<close>.\<close>

definition values_Encode :: "(string \<times> string list) list \<Rightarrow> string" where
  "values_Encode kvs = Join ''&'' (concat (map (\<lambda>(k, vs). map (\<lambda>v. QueryEscape k @ ''='' @ QueryEscape v) vs) kvs))"

definition dsn :: "string \<Rightarrow> string" where
  "dsn path =
     (let pragmas = [''foreign_keys(1)'', ''busy_timeout(5000)''] @
            (if path \<noteq> '':memory:'' then [''journal_mode(WAL)'', ''synchronous(NORMAL)''] else []);
          query = values_Encode [(''_pragma'', pragmas), (''_txlock'', [''immediate''])]
      in if HasPrefix path ''file:'' then path @ (if CHR ''?'' \<in> set path then ''&'' else ''?'') @ query
         else ''file:'' @ path @ ''?'' @ query)"

lemma dsn_memory:
  "dsn '':memory:'' = ''file::memory:?_pragma=foreign_keys%281%29&_pragma=busy_timeout%285000%29&_txlock=immediate''"
  by code_simp

section \<open>The migrations\<close>

record migration =
  mg_version :: int
  mg_name :: string
  mg_sql :: string

datatype migrate_error = MalformedName | NotANumber | NotPositive | Duplicate int | ExecFailed int | RecordFailed int

definition parseMigrationName :: "string \<Rightarrow> migrate_error + int \<times> string" where
  "parseMigrationName filename =
     (case Cut (CHR ''_'') (TrimSuffix filename ''.sql'') of
        None \<Rightarrow> Inl MalformedName
      | Some (prefix, name) \<Rightarrow>
          if name = [] then Inl MalformedName
          else case ParseInt prefix of
                 None \<Rightarrow> Inl NotANumber
               | Some version \<Rightarrow> if version \<le> 0 then Inl NotPositive else Inr (version, name))"

text \<open>The entries of the embedded directory: a name, whether it is a directory, and the bytes.\<close>

fun read_entries :: "(string \<times> bool \<times> string) list \<Rightarrow> int list \<Rightarrow> migrate_error + migration list" where
  "read_entries [] seen = Inr []"
| "read_entries ((name, isDir, body) # es) seen =
     (if isDir \<or> \<not> HasSuffix name ''.sql'' then read_entries es seen
      else bindE (parseMigrationName name) (\<lambda>(version, n).
        if version \<in> set seen then Inl (Duplicate version)
        else bindE (read_entries es (version # seen)) (\<lambda>ms.
          Inr (\<lparr>mg_version = version, mg_name = n, mg_sql = body\<rparr> # ms))))"

definition loadMigrations :: "(string \<times> bool \<times> string) list \<Rightarrow> migrate_error + migration list" where
  "loadMigrations entries = bindE (read_entries entries []) (\<lambda>ms. Inr (sort_key mg_version ms))"

text \<open>The tables the migrations make, and \<open>schema_migrations\<close>, once it exists: version and name.\<close>

record 's database =
  tables :: 's
  schema_migrations :: "(int \<times> string) list option"

type_synonym 's executor = "string \<Rightarrow> 's \<Rightarrow> 's option"

definition create_table :: "'s database \<Rightarrow> 's database" where
  "create_table db = (if schema_migrations db = None then db\<lparr>schema_migrations := Some []\<rparr> else db)"

definition recorded_versions :: "'s database \<Rightarrow> (int \<times> string) list" where
  "recorded_versions db = (case schema_migrations db of None \<Rightarrow> [] | Some vs \<Rightarrow> vs)"

definition appliedVersions :: "'s database \<Rightarrow> int set" where
  "appliedVersions db = fst ` set (recorded_versions db)"

text \<open>One transaction; \<open>version\<close> is the primary key of the record.\<close>

definition applyMigration :: "'s executor \<Rightarrow> migration \<Rightarrow> 's database \<Rightarrow> (migrate_error + unit) \<times> 's database" where
  "applyMigration exec m db =
     (case exec (mg_sql m) (tables db) of
        None \<Rightarrow> (Inl (ExecFailed (mg_version m)), db)
      | Some t \<Rightarrow>
          if mg_version m \<in> appliedVersions db then (Inl (RecordFailed (mg_version m)), db)
          else (Inr (), db\<lparr>tables := t, schema_migrations := Some (recorded_versions db @ [(mg_version m, mg_name m)])\<rparr>))"

fun migrate_loop ::
    "'s executor \<Rightarrow> int set \<Rightarrow> migration list \<Rightarrow> 's database \<Rightarrow> (migrate_error + unit) \<times> 's database" where
  "migrate_loop exec applied [] db = (Inr (), db)"
| "migrate_loop exec applied (m # ms) db =
     (if mg_version m \<in> applied then migrate_loop exec applied ms db
      else case applyMigration exec m db of
             (Inl e, db') \<Rightarrow> (Inl e, db')
           | (Inr _, db') \<Rightarrow> migrate_loop exec applied ms db')"

definition migrate_all :: "(string \<times> bool \<times> string) list \<Rightarrow> 's executor \<Rightarrow> 's database \<Rightarrow> (migrate_error + unit) \<times> 's database" where
  "migrate_all entries exec db =
     (let db = create_table db; applied = appliedVersions db in
      case loadMigrations entries of
        Inl e \<Rightarrow> (Inl e, db)
      | Inr ms \<Rightarrow> migrate_loop exec applied ms db)"

definition open_database ::
    "bool \<Rightarrow> (string \<times> bool \<times> string) list \<Rightarrow> 's executor \<Rightarrow> 's database \<Rightarrow> (migrate_error + unit) option \<times> 's database" where
  "open_database connects entries exec db =
     (if \<not> connects then (None, db) else case migrate_all entries exec db of (r, db) \<Rightarrow> (Some r, db))"

section \<open>Starting again after a failure\<close>

lemma read_entries_versions:
  "read_entries es seen = Inr ms \<Longrightarrow> distinct (map mg_version ms) \<and> set (map mg_version ms) \<inter> set seen = {}"
proof (induction es arbitrary: seen ms)
  case (Cons e es)
  obtain n d b where e: "e = (n, d, b)" by (cases e)
  show ?case
  proof (cases "d \<or> \<not> HasSuffix n ''.sql''")
    case False
    then obtain v x ms' where p: "parseMigrationName n = Inr (v, x)" "v \<notin> set seen" "read_entries es (v # seen) = Inr ms'"
      "ms = \<lparr>mg_version = v, mg_name = x, mg_sql = b\<rparr> # ms'"
      using Cons.prems e by (auto simp: bindE_Inr split: if_splits)
    from Cons.IH [OF p(3)] show ?thesis using p by auto
  qed (use Cons e in auto)
qed simp

lemma loaded_ordered:
  assumes "loadMigrations es = Inr ms"
  shows "sorted (map mg_version ms)" and "distinct (map mg_version ms)"
proof -
  obtain ms' where ms': "read_entries es [] = Inr ms'" "ms = sort_key mg_version ms'"
    using assms by (auto simp: loadMigrations_def bindE_Inr)
  have "distinct (map mg_version ms')" using read_entries_versions [OF ms'(1)] by simp
  then show "distinct (map mg_version ms)" by (simp add: ms'(2) distinct_map)
  show "sorted (map mg_version ms)" by (simp add: ms'(2))
qed

text \<open>The database after the first \<open>k\<close> migrations, none of which failed.\<close>

definition stamp :: "migration \<Rightarrow> int \<times> string" where
  "stamp m = (mg_version m, mg_name m)"

definition after_migrations :: "(string \<Rightarrow> 's \<Rightarrow> 's) \<Rightarrow> 's \<Rightarrow> migration list \<Rightarrow> 's database" where
  "after_migrations sql t ms = \<lparr>tables = foldl (\<lambda>t m. sql (mg_sql m) t) t ms, schema_migrations = Some (map stamp ms)\<rparr>"

text \<open>An attempt does what the statements say or fails, any statement at any time.\<close>

definition attempts :: "(string \<Rightarrow> 's \<Rightarrow> 's) \<Rightarrow> 's executor \<Rightarrow> bool" where
  "attempts sql exec = (\<forall>s t t'. exec s t = Some t' \<longrightarrow> t' = sql s t)"

lemma after_versions: "appliedVersions (after_migrations sql t ms) = mg_version ` set ms"
  by (force simp: appliedVersions_def recorded_versions_def after_migrations_def stamp_def image_image)

lemma applied_next:
  assumes "attempts sql exec" and "applyMigration exec m (after_migrations sql t ms) = (r, db)" and "mg_version m \<notin> mg_version ` set ms"
  shows "(r = Inr () \<and> db = after_migrations sql t (ms @ [m])) \<or> (\<exists>e. r = Inl e \<and> db = after_migrations sql t ms)"
proof (cases "exec (mg_sql m) (tables (after_migrations sql t ms))")
  case (Some t')
  then have "t' = sql (mg_sql m) (tables (after_migrations sql t ms))" using assms(1) by (simp add: attempts_def)
  then show ?thesis
    using Some assms(2,3) after_versions [of sql t ms]
    by (auto simp: applyMigration_def after_migrations_def recorded_versions_def stamp_def split: if_splits)
qed (use assms in \<open>auto simp: applyMigration_def\<close>)

lemma loop_from:
  assumes a: "attempts sql exec" and "distinct (map mg_version (done_ms @ rest))"
    and "migrate_loop exec applied rest (after_migrations sql t done_ms) = (r, db)"
    and "applied \<inter> mg_version ` set rest = {}"
  shows "\<exists>more. (\<exists>left. rest = more @ left \<and> (r = Inr () \<longrightarrow> left = [])) \<and> db = after_migrations sql t (done_ms @ more)"
  using assms(2-)
proof (induction rest arbitrary: done_ms)
  case (Cons m rest)
  obtain r1 db1 where s: "applyMigration exec m (after_migrations sql t done_ms) = (r1, db1)" by fastforce
  have m: "mg_version m \<notin> applied" "mg_version m \<notin> mg_version ` set done_ms" using Cons.prems by auto
  from applied_next [OF a s m(2)] show ?case
  proof
    assume x: "r1 = Inr () \<and> db1 = after_migrations sql t (done_ms @ [m])"
    then have "migrate_loop exec applied rest (after_migrations sql t (done_ms @ [m])) = (r, db)"
      using Cons.prems(2) s m(1) by simp
    from Cons.IH [OF _ this] Cons.prems obtain more left where
      "rest = more @ left" "r = Inr () \<longrightarrow> left = []" "db = after_migrations sql t ((done_ms @ [m]) @ more)" by auto
    then show ?thesis by (intro exI [of _ "m # more"]) auto
  next
    assume "\<exists>e. r1 = Inl e \<and> db1 = after_migrations sql t done_ms"
    then show ?thesis using Cons.prems(2) s m(1) by (intro exI [of _ "[]"]) auto
  qed
qed simp

lemma loop_skips:
  "mg_version ` set ms \<subseteq> applied \<Longrightarrow> migrate_loop exec applied (ms @ rest) db = migrate_loop exec applied rest db"
  by (induction ms) auto

lemma migrate_resumes:
  assumes a: "attempts sql exec" and l: "loadMigrations es = Inr ms" and k: "ms = done_ms @ rest"
    and m: "migrate_all es exec (after_migrations sql t done_ms) = (r, db)"
  shows "\<exists>d l. ms = d @ l \<and> (r = Inr () \<longrightarrow> l = []) \<and> db = after_migrations sql t d"
proof -
  let ?db = "after_migrations sql t done_ms"
  have d: "distinct (map mg_version (done_ms @ rest))" using loaded_ordered(2) [OF l] k by simp
  have c: "create_table ?db = ?db" by (simp add: create_table_def after_migrations_def)
  have v: "appliedVersions ?db = mg_version ` set done_ms" by (rule after_versions)
  have "migrate_all es exec ?db = migrate_loop exec (appliedVersions ?db) (done_ms @ rest) ?db"
    unfolding migrate_all_def c l Let_def k by simp
  also have "\<dots> = migrate_loop exec (appliedVersions ?db) rest ?db" by (rule loop_skips) (simp add: v)
  finally have "migrate_loop exec (appliedVersions ?db) rest ?db = (r, db)" using m by simp
  moreover have "appliedVersions ?db \<inter> mg_version ` set rest = {}" using d by (auto simp: v)
  ultimately have "\<exists>more. (\<exists>left. rest = more @ left \<and> (r = Inr () \<longrightarrow> left = [])) \<and> db = after_migrations sql t (done_ms @ more)"
    by (intro loop_from [OF a d])
  then obtain more left where x: "rest = more @ left" "r = Inr () \<longrightarrow> left = []" "db = after_migrations sql t (done_ms @ more)"
    by blast
  have "ms = (done_ms @ more) @ left" using k x(1) by simp
  then show ?thesis using x(2,3) by blast
qed

text \<open>A new database, and any number of attempts on it.\<close>

definition new_database :: "'s \<Rightarrow> 's database" where
  "new_database t = \<lparr>tables = t, schema_migrations = None\<rparr>"

definition attempt_all :: "(string \<times> bool \<times> string) list \<Rightarrow> 's executor list \<Rightarrow> 's database \<Rightarrow> 's database" where
  "attempt_all es execs db = foldl (\<lambda>db exec. snd (migrate_all es exec db)) db execs"

lemma first_attempt: "migrate_all es exec (new_database t) = migrate_all es exec (after_migrations sql t [])"
  by (simp add: migrate_all_def create_table_def new_database_def after_migrations_def)

lemma attempted:
  assumes l: "loadMigrations es = Inr ms"
  shows "\<forall>exec \<in> set execs. attempts sql exec \<Longrightarrow> ms = d @ rest \<Longrightarrow>
    \<exists>d' l. ms = d' @ l \<and> attempt_all es execs (after_migrations sql t d) = after_migrations sql t d'"
proof (induction execs arbitrary: d rest)
  case (Cons exec execs)
  obtain r db where m: "migrate_all es exec (after_migrations sql t d) = (r, db)" by fastforce
  have "attempts sql exec" using Cons.prems(1) by simp
  from migrate_resumes [OF this l Cons.prems(2) m]
  obtain d1 l1 where "ms = d1 @ l1" "db = after_migrations sql t d1" by blast
  with Cons.IH [of d1 l1] Cons.prems(1) m show ?case by (simp add: attempt_all_def)
qed (auto simp: attempt_all_def)

text \<open>
  C21. However often bringing the schema of a new database up to date is broken off, at whatever statement, the attempt that
  goes through leaves what one uninterrupted run would have: every migration applied once, in the order of the versions.
\<close>

theorem interrupted_migration_resumes:
  assumes "loadMigrations es = Inr ms" and "\<forall>exec \<in> set (execs @ [last_exec]). attempts sql exec"
    and "migrate_all es last_exec (attempt_all es execs (new_database t)) = (Inr (), db)"
  shows "db = after_migrations sql t ms \<and> sorted (map mg_version ms) \<and> distinct (map mg_version ms)"
proof -
  have a: "attempts sql last_exec" "\<forall>exec \<in> set execs. attempts sql exec" using assms(2) by simp_all
  have "\<exists>d l. ms = d @ l \<and> migrate_all es last_exec (after_migrations sql t d) = (Inr (), db)"
  proof (cases execs)
    case Nil
    then show ?thesis using assms(3) first_attempt [of es last_exec t sql] by (auto simp: attempt_all_def)
  next
    case (Cons e es')
    then have "attempt_all es execs (new_database t) = attempt_all es execs (after_migrations sql t [])"
      using first_attempt [of es e t sql] by (simp add: attempt_all_def)
    then show ?thesis using attempted [OF assms(1) a(2), of "[]" ms t] assms(3) by auto
  qed
  then obtain d l where "ms = d @ l" "migrate_all es last_exec (after_migrations sql t d) = (Inr (), db)" by blast
  from migrate_resumes [OF a(1) assms(1) this] show ?thesis using loaded_ordered [OF assms(1)] by auto
qed

text \<open>The two files of the repository, a first start that fails in the second of them and one that does not.\<close>

definition sample_entries :: "(string \<times> bool \<times> string) list" where
  "sample_entries = [(''0001_initial_schema.sql'', False, ''A''), (''0002_object_display_name.sql'', False, ''B''), (''README'', False, [])]"

definition sample_sql :: "string \<Rightarrow> string list \<Rightarrow> string list" where
  "sample_sql s t = t @ [s]"

definition failing_at :: "string \<Rightarrow> string list executor" where
  "failing_at bad s t = (if s = bad then None else Some (sample_sql s t))"

theorem interrupted_migration_resumes_witness:
  "snd (migrate_all sample_entries (failing_at []) (attempt_all sample_entries [failing_at ''B''] (new_database []))) =
     \<lparr>tables = [''A'', ''B''], schema_migrations = Some [(1, ''initial_schema''), (2, ''object_display_name'')]\<rparr>"
proof -
  let ?m = "\<lambda>db. migrate_all sample_entries (failing_at []) db" and ?x = "attempt_all sample_entries [failing_at ''B''] (new_database [])"
  define ms where "ms = projr (loadMigrations sample_entries)"
  have l: "loadMigrations sample_entries = Inr ms"
    "after_migrations sample_sql [] ms = \<lparr>tables = [''A'', ''B''], schema_migrations = Some [(1, ''initial_schema''), (2, ''object_display_name'')]\<rparr>"
    unfolding ms_def by code_simp+
  have "fst (?m ?x) = Inr ()" by code_simp
  then have m: "?m ?x = (Inr (), snd (?m ?x))" by (metis prod.collapse)
  have "\<forall>exec \<in> set ([failing_at ''B''] @ [failing_at []]). attempts sample_sql exec"
    by (auto simp: attempts_def failing_at_def split: if_splits)
  from interrupted_migration_resumes [OF l(1) this m] l(2) show ?thesis by simp
qed

end
