(* ===== verification/Process.thy ===== *)
theory Process
  imports Server_Facts Admin_Accounts Config Migrate
begin

text \<open>
  \<open>cmd/dav/main.go\<close>: the process. The administrator is seeded, the routes of the health check, the DAV endpoints and the
  administration are put on one mux, and requests, the hourly sweep of sessions and restarts follow one another in any order
  (SQLite takes one writer at a time). Listening, signals, shutdown and logging are not modelled. A path is taken without
  escapes that hide a slash or a dot.
\<close>

section \<open>What a request brings\<close>

text \<open>What the process is linked against, beside the configuration.\<close>

record process_ext =
  px_admin :: admin_env
  px_mac :: "string \<Rightarrow> string"
  px_enc_cal :: "comp option \<Rightarrow> string option"
  px_enc_card :: "Card \<Rightarrow> string option"

text \<open>A request with what the handlers take from it and draw for it: clock, random bytes, the slot of the verifier, the ping.\<close>

record arrival =
  hq_Request :: "unit request"
  hq_Credentials :: "(string \<times> string) option"
  hq_Context :: admin_context
  hq_Draws :: draws
  hq_Granted :: bool
  hq_Ping :: bool

definition with_context :: "'c \<Rightarrow> unit request \<Rightarrow> 'c request" where
  "with_context c r = \<lparr>rq_Method = rq_Method r, rq_Path = rq_Path r, rq_Header = rq_Header r, rq_Body = rq_Body r, rq_Context = c\<rparr>"

definition basic_of :: "arrival \<Rightarrow> basic_request" where
  "basic_of q = \<lparr>br_Credentials = hq_Credentials q, br_Now = dw_Now (hq_Draws q), br_Granted = hq_Granted q\<rparr>"

section \<open>The handlers\<close>

definition davPrefix :: string where "davPrefix = ''/dav''"

definition dav_of :: "process_ext \<Rightarrow> Config \<Rightarrow> instant \<Rightarrow> dav_server" where
  "dav_of X cfg now =
     \<lparr>ds_Server = \<lparr>sv_env = ax_env (px_admin X), sv_lib = ax_lib (px_admin X), sv_paths = \<lparr>Prefix = davPrefix\<rparr>, sv_now = unix now,
                   sv_enc_cal = px_enc_cal X, sv_enc_card = px_enc_card X\<rparr>,
      ds_CardDAVEnabled = cf_CardDAVEnabled cfg, ds_CalDAVEnabled = cf_CalDAVEnabled cfg\<rparr>"

definition dav_routes :: "process_ext \<Rightarrow> Config \<Rightarrow> (string \<times> mounted) list" where
  "dav_routes X cfg = (if cf_CardDAVEnabled cfg \<or> cf_CalDAVEnabled cfg then Register (dav_of X cfg 0) else [])"

definition admin_of :: "process_ext \<Rightarrow> Config \<Rightarrow> admin_server" where
  "admin_of X cfg =
     \<lparr>as_Sessions = \<lparr>ss_Lifetime = 0, ss_Secure = cf_SecureCookies cfg, ss_Path = ''/admin''\<rparr>, as_BaseURL = cf_BaseURL cfg,
      as_DAVPrefix = davPrefix, as_CalDAVEnabled = cf_CalDAVEnabled cfg, as_CardDAVEnabled = cf_CardDAVEnabled cfg,
      as_templates = [], as_ext = px_admin X\<rparr>"

definition healthz :: "bool \<Rightarrow> rw \<Rightarrow> rw" where
  "healthz ping w =
     (if \<not> ping then http_Error ''database unavailable'' 503 w
      else Write (Text (''ok'' @ [LF])) (WriteHeader StatusOK (header_Set ''Content-Type'' ''text/plain; charset=utf-8'' w)))"

definition commonHeaders :: "rw \<Rightarrow> rw" where
  "commonHeaders w =
     (let w = header_Set ''X-Content-Type-Options'' ''nosniff'' w
      in if header_Get ''Referrer-Policy'' w = [] then header_Set ''Referrer-Policy'' ''no-referrer'' w else w)"

text \<open>The mux: a path that is not clean is redirected, whatever it leads to.\<close>

datatype root_target = Health | ToAdmin | AdminPages "string list" | DavPages | RootRedirect string | RootMethods | RootNotFound

definition root_mux :: "(string \<times> mounted) list \<Rightarrow> string \<Rightarrow> string \<Rightarrow> root_target" where
  "root_mux routes m reqPath =
     (let path = (if m = ''CONNECT'' then reqPath else mux_clean reqPath); get = method_matches ''GET'' m in
      if path = ''/admin'' \<or> HasPrefix path ''/admin/'' then
        (let segs = (if path = ''/admin'' then [] else Split (CHR ''/'') (drop 7 path)) in
         if admin_mux m segs = AddSlash then RootRedirect (path @ ''/'')
         else if path \<noteq> reqPath then RootRedirect path else AdminPages segs)
      else if mux_match routes path \<noteq> None \<or> list_ex (\<lambda>x. fst x = path @ ''/'') routes then DavPages
      else if path \<noteq> reqPath then RootRedirect path
      else if path = ''/healthz'' then (if get then Health else RootMethods)
      else if path = ''/'' then (if get then ToAdmin else RootMethods)
      else RootNotFound)"

section \<open>The process\<close>

record running =
  rn_admin :: admin_server
  rn_auth :: auth_state
  rn_logins :: throttle

definition root_answer :: "process_ext \<Rightarrow> Config \<Rightarrow> nat \<Rightarrow> arrival \<Rightarrow> rw \<Rightarrow> root_target \<Rightarrow> db \<times> running \<Rightarrow> (rw \<times> db \<times> running) option" where
  "root_answer X cfg muxStatus q w target st =
     (case st of (db, p) \<Rightarrow>
      case target of
        Health \<Rightarrow> Some (healthz (hq_Ping q) w, db, p)
      | ToAdmin \<Rightarrow> Some (http_Redirect (ax_env (px_admin X)) (hq_Request q) ''/admin/'' 302 w, db, p)
      | RootRedirect path \<Rightarrow> Some (http_Redirect (ax_env (px_admin X)) (hq_Request q) path muxStatus w, db, p)
      | RootMethods \<Rightarrow>
          Some (http_Error ''Method Not Allowed'' StatusMethodNotAllowed (header_Set ''Allow'' ''GET, HEAD'' w), db, p)
      | RootNotFound \<Rightarrow> Some (http_NotFound w, db, p)
      | DavPages \<Rightarrow>
          (case dav_handle (ax_idkey (px_admin X)) (px_mac X) (dav_of X cfg (dw_Now (hq_Draws q))) muxStatus (basic_of q)
                  (with_context None (hq_Request q)) w (db, rn_auth p) of
             (w, db, s) \<Rightarrow> Some (w, db, p\<lparr>rn_auth := s\<rparr>))
      | AdminPages segs \<Rightarrow>
          (case admin_answer (rn_admin p) muxStatus (hq_Draws q) segs (with_context (hq_Context q) (hq_Request q)) w (db, rn_logins p) of
             None \<Rightarrow> None
           | Some (w, db, t) \<Rightarrow> Some (w, db, p\<lparr>rn_logins := t\<rparr>)))"

definition root_serve :: "process_ext \<Rightarrow> Config \<Rightarrow> nat \<Rightarrow> arrival \<Rightarrow> db \<times> running \<Rightarrow> (rw \<times> db \<times> running) option" where
  "root_serve X cfg muxStatus q st =
     root_answer X cfg muxStatus q (commonHeaders new_rw)
       (root_mux (dav_routes X cfg) (rq_Method (hq_Request q)) (rq_Path (hq_Request q))) st"

definition seedAdmin :: "idkey \<Rightarrow> instant \<Rightarrow> string \<Rightarrow> Config \<Rightarrow> db \<Rightarrow> (serror + user) \<times> db" where
  "seedAdmin idk now salt cfg db = EnsureAdmin (unix now) (cf_AdminUsername cfg) (HashPassword idk salt (cf_AdminPassword cfg)) db"

text \<open>The part of \<open>run\<close> before the process listens: it stops where the administrator cannot be seeded or a template does not parse.\<close>

definition start_process :: "process_ext \<Rightarrow> Config \<Rightarrow> instant \<Rightarrow> string \<Rightarrow> db \<Rightarrow> db \<times> running option" where
  "start_process X cfg now salt db =
     (case seedAdmin (ax_idkey (px_admin X)) now salt cfg db of
        (Inl e, db) \<Rightarrow> (db, None)
      | (Inr u, db) \<Rightarrow>
          (case register_admin (admin_of X cfg) of
             None \<Rightarrow> (db, None)
           | Some (A, t) \<Rightarrow> (db, Some \<lparr>rn_admin = A, rn_auth = fresh_auth, rn_logins = t\<rparr>)))"

datatype event = Arrive arrival | SweepSessions instant | Restart Config instant string

text \<open>The configuration is that of the last start.\<close>

type_synonym life = "db \<times> (Config \<times> running) option"

definition process_step :: "process_ext \<Rightarrow> nat \<Rightarrow> life \<Rightarrow> event \<Rightarrow> life" where
  "process_step X muxStatus st e =
     (case e of
        Restart cfg now salt \<Rightarrow> (case start_process X cfg now salt (fst st) of (db, p) \<Rightarrow> (db, map_option (Pair cfg) p))
      | Arrive q \<Rightarrow>
          (case st of
             (db, None) \<Rightarrow> (db, None)
           | (db, Some (cfg, p)) \<Rightarrow>
               (case root_serve X cfg muxStatus q (db, p) of
                  None \<Rightarrow> (db, Some (cfg, p))
                | Some (w, db, p) \<Rightarrow> (db, Some (cfg, p))))
      | SweepSessions now \<Rightarrow>
          (case st of
             (db, None) \<Rightarrow> (db, None)
           | (db, Some x) \<Rightarrow> (snd (DeleteExpiredSessions (unix now) db), Some x)))"

definition process_run :: "process_ext \<Rightarrow> nat \<Rightarrow> event list \<Rightarrow> life \<Rightarrow> life" where
  "process_run X muxStatus es st = foldl (process_step X muxStatus) st es"

text \<open>The health check of a container, with the answer of a GET: the status, if there is an answer.\<close>

definition healthcheck_url :: "string \<Rightarrow> string option" where
  "healthcheck_url addr =
     (case SplitHostPort (if addr = [] then '':8080'' else addr) of
        None \<Rightarrow> None
      | Some (host, port) \<Rightarrow>
          let host = (if host \<in> set [[], ''0.0.0.0'', ''::''] then ''127.0.0.1'' else host)
          in Some (''http://'' @ JoinHostPort host port @ ''/healthz''))"

definition healthcheck :: "(string \<Rightarrow> nat option) \<Rightarrow> string \<Rightarrow> bool" where
  "healthcheck http_get addr =
     (case healthcheck_url addr of None \<Rightarrow> False | Some url \<Rightarrow> http_get url = Some StatusOK)"

lemma root_mux_samples:
  "root_mux both_routes ''GET'' ''/healthz'' = Health" "root_mux both_routes ''POST'' ''/healthz'' = RootMethods"
  "root_mux both_routes ''GET'' ''/'' = ToAdmin" "root_mux both_routes ''GET'' ''/admin'' = RootRedirect ''/admin/''"
  "root_mux both_routes ''POST'' ''/admin/users/2/delete'' = AdminPages [''users'', ''2'', ''delete'']"
  "root_mux both_routes ''PROPFIND'' ''/dav/calendars/ada/'' = DavPages" "root_mux both_routes ''PROPFIND'' ''/dav'' = DavPages"
  "root_mux both_routes ''GET'' ''/dav/../admin/'' = RootRedirect ''/admin/''" "root_mux [] ''GET'' ''/dav/'' = RootNotFound"
  "healthcheck_url [] = Some ''http://127.0.0.1:8080/healthz''" "healthcheck_url ''[::]:80'' = Some ''http://127.0.0.1:80/healthz''"
  "healthcheck_url ''[fe80::1]:80'' = Some ''http://[fe80::1]:80/healthz''"
  by code_simp+

end
