(* ===== verification/Process_Facts.thy ===== *)
theory Process_Facts
  imports Process
begin

text \<open>
  What holds of the process whatever comes in: there is a consistent database with an administrator as long as it runs; the
  seeded administrator signs in; and a name the configuration accepts that nothing else does.
\<close>

section \<open>Seeding\<close>

lemma UserByUsername_mem: "UserByUsername n db = Inr u \<Longrightarrow> u \<in> set (users db) \<and> nocase_eq (u_Username u) n"
  by (auto simp: UserByUsername_def split: option.splits dest: find_SomeD)

lemma CreateUser_Inr:
  assumes "CreateUser now u db = (Inr v, db')"
  shows "\<exists>i. users db' = users db @ [u\<lparr>u_ID := i, u_CreatedAt := now, u_UpdatedAt := now\<rparr>]"
  using assms by (auto simp: CreateUser_def Let_def split: if_splits)

lemma EnsureAdmin_Inr:
  assumes "EnsureAdmin now n h db = (Inr u, db')"
  shows "\<exists>v \<in> set (users db'). u_IsAdmin v"
proof (cases "UserByUsername n db")
  case (Inl e)
  then show ?thesis using assms CreateUser_Inr by (fastforce simp: EnsureAdmin_def split: serror.splits)
next
  case (Inr v)
  have v: "v \<in> set (users db)" using UserByUsername_mem [OF Inr] by simp
  show ?thesis
  proof (cases "u_IsAdmin v")
    case False
    let ?v = "v\<lparr>u_IsAdmin := True\<rparr>"
    obtain y where "UpdateUser now ?v db = (Inr y, db')"
      using assms Inr False by (auto simp: EnsureAdmin_def split: prod.splits sum.splits)
    moreover define f where "f = (\<lambda>r :: user. if u_ID r = u_ID v
        then r\<lparr>u_Username := u_Username v, u_DisplayName := u_DisplayName v, u_Email := u_Email v, u_IsAdmin := True, u_UpdatedAt := now\<rparr>
        else r)"
    ultimately have "users db' = map f (users db)" by (auto simp: UpdateUser_def split: if_splits)
    moreover have "u_IsAdmin (f v)" by (simp add: f_def)
    ultimately show ?thesis using v by auto
  qed (use assms Inr v in \<open>auto simp: EnsureAdmin_def\<close>)
qed

text \<open>
  C20. The first start seeds an administrator who signs in with the configured password; a later start under that name changes
  nothing, whatever password it is configured with.
\<close>

theorem administrator_is_seeded:
  assumes ok: "db_ok hash db" and free: "UserByUsername (cf_AdminUsername cfg) db = Inl ErrNotFound"
    and seed: "seedAdmin idk now salt cfg db = (Inr v, db')"
    and salt: "acceptable DefaultParams salt (idk (cf_AdminPassword cfg) salt (p_Time DefaultParams) (p_Memory DefaultParams)
      (p_Parallelism DefaultParams) (p_KeyLength DefaultParams))"
  shows "\<exists>u. Authenticate idk db' (cf_AdminUsername cfg) (cf_AdminPassword cfg) True = Inr u \<and> u_IsAdmin u \<and>
    (\<forall>now2 salt2 cfg2. cf_AdminUsername cfg2 = cf_AdminUsername cfg \<longrightarrow> seedAdmin idk now2 salt2 cfg2 db' = (Inr u, db'))"
proof -
  let ?n = "cf_AdminUsername cfg" and ?h = "HashPassword idk salt (cf_AdminPassword cfg)"
  have "CreateUser (unix now) \<lparr>u_ID = 0, u_Username = ?n, u_DisplayName = ?n, u_Email = [], u_PasswordHash = ?h, u_IsAdmin = True,
      u_CreatedAt = 0, u_UpdatedAt = 0\<rparr> db = (Inr v, db')"
    using seed free by (simp add: seedAdmin_def EnsureAdmin_def)
  from CreateUser_Inr [OF this] obtain i where i: "users db' = users db @ [\<lparr>u_ID = i, u_Username = ?n, u_DisplayName = ?n,
      u_Email = [], u_PasswordHash = ?h, u_IsAdmin = True, u_CreatedAt = unix now, u_UpdatedAt = unix now\<rparr>]" by auto
  define u where "u = last (users db')"
  have u: "u \<in> set (users db')" "u_Username u = ?n" "u_PasswordHash u = ?h" "u_IsAdmin u" by (simp_all add: u_def i)
  have "db' = snd (EnsureAdmin (unix now) ?n ?h db)" using seed by (simp add: seedAdmin_def)
  then have ok': "db_ok hash db'" using EnsureAdmin_ok [OF ok] by simp
  have f: "UserByUsername ?n db' = Inr u" using names_unique [OF ok' u(1)] u(2) by simp
  moreover have "VerifyPassword idk ?h (cf_AdminPassword cfg) = Inr ()"
    unfolding HashPassword_def by (rule hash_verifies [of DefaultParams salt idk "cf_AdminPassword cfg", OF salt])
  ultimately show ?thesis
    using u(3,4) by (auto simp: Authenticate_def withVerificationSlot_def seedAdmin_def EnsureAdmin_def)
qed

definition sample_cfg :: Config where
  "sample_cfg = \<lparr>cf_Addr = '':8080'', cf_DBPath = ''edav.db'', cf_BaseURL = [], cf_LogLevel = 0, cf_AdminUsername = ''admin'',
     cf_AdminPassword = ''first secret'', cf_CalDAVEnabled = True, cf_CardDAVEnabled = True, cf_SecureCookies = True\<rparr>"

theorem administrator_is_seeded_witness:
  "(case seedAdmin sample_idkey 0 (dw_Salt trial_draws) sample_cfg empty_db of
      (Inr v, db') \<Rightarrow> (\<exists>u. Authenticate sample_idkey db' ''admin'' ''first secret'' True = Inr u \<and> u_IsAdmin u \<and>
        seedAdmin sample_idkey 1 (dw_Salt trial_draws) (sample_cfg\<lparr>cf_AdminPassword := ''other secret''\<rparr>) db' = (Inr u, db'))
    | _ \<Rightarrow> False)"
proof -
  let ?s = "seedAdmin sample_idkey 0 (dw_Salt trial_draws) sample_cfg empty_db"
  have salt: "acceptable DefaultParams (dw_Salt trial_draws) (sample_idkey (cf_AdminPassword sample_cfg) (dw_Salt trial_draws)
      (p_Time DefaultParams) (p_Memory DefaultParams) (p_Parallelism DefaultParams) (p_KeyLength DefaultParams))"
    by (simp add: acceptable_def DefaultParams_def sample_idkey_def maxMemory_def maxTime_def maxParallelism_def
        maxSaltLength_def maxKeyLength_def trial_draws_def sample_cfg_def)
  have free: "UserByUsername (cf_AdminUsername sample_cfg) empty_db = Inl ErrNotFound"
    by (simp add: UserByUsername_def empty_db_def)
  then obtain v db' where s: "?s = (Inr v, db')"
    by (auto simp: seedAdmin_def EnsureAdmin_def CreateUser_def empty_db_def UserByID_def Let_def)
  obtain u where "Authenticate sample_idkey db' (cf_AdminUsername sample_cfg) (cf_AdminPassword sample_cfg) True = Inr u" "u_IsAdmin u"
    "seedAdmin sample_idkey 1 (dw_Salt trial_draws) (sample_cfg\<lparr>cf_AdminPassword := ''other secret''\<rparr>) db' = (Inr u, db')"
    using administrator_is_seeded [OF db_ok_empty free s salt] by fastforce
  then show ?thesis using s by (simp add: sample_cfg_def)
qed

section \<open>Whatever comes in\<close>

lemma dav_handle_db:
  assumes ok: "db_ok (l_hash (sv_lib (ds_Server D))) db" and w0: "rw_Status w0 = None"
    and s: "dav_handle idk mac D ms br r w0 (db, c) = (w, db', c')"
  shows "db_ok (l_hash (sv_lib (ds_Server D))) db' \<and> users db' = users db"
proof (cases "mux_Handler (Register D) (rq_Method r) (rq_Path r)")
  case (MuxHandler h)
  obtain a c1 where a: "RequireBasicAuth idk mac db br c = (a, c1)" by (metis prod.collapse)
  show ?thesis
  proof (cases "\<exists>u. a = ServeNext u \<and> (\<forall>x. h \<noteq> WellKnown x)")
    case True
    then obtain u where u: "a = ServeNext u" "\<And>x. h \<noteq> WellKnown x" by blast
    have p: "serve_protocol D h (r\<lparr>rq_Context := Some u\<rparr>) w0 db = (w, db')"
      using s u a MuxHandler by (cases h; auto simp: dav_handle_def split: prod.splits)
    from protocol_step(1) [OF ok p w0] have o: "owner_step (l_hash (sv_lib (ds_Server D))) (sv_now (ds_Server D)) u db db'"
      by (simp add: ctx_step_def)
    show ?thesis using owner_step_ok [OF o ok] owner_step_kept [OF o ok] by (simp add: others_kept_def)
  next
    case False
    then have "db' = db" using s a MuxHandler by (cases h; cases a) (auto simp: dav_handle_def serve_protocol_def)
    then show ?thesis using ok by simp
  qed
qed (use s ok in \<open>auto simp: dav_handle_def\<close>)

text \<open>The state of a life of the process: consistent, and administered while it runs.\<close>

fun life_ok :: "process_ext \<Rightarrow> life \<Rightarrow> bool" where
  "life_ok X (db, None) = db_ok (l_hash (ax_lib (px_admin X))) db"
| "life_ok X (db, Some (cfg, p)) = (governed (l_hash (ax_lib (px_admin X))) db \<and> as_ext (rn_admin p) = px_admin X)"

lemma common_open [simp]: "rw_Status (commonHeaders new_rw) = None"
  by (simp add: commonHeaders_def Let_def)

lemma dav_of_lib [simp]: "sv_lib (ds_Server (dav_of X cfg now)) = ax_lib (px_admin X)"
  by (simp add: dav_of_def)

lemma root_answer_effects:
  assumes "root_answer X cfg ms q w0 target (db, p) = Some (w, db', p')"
  shows "(db', p') = (db, p) \<or>
    (\<exists>s. dav_handle (ax_idkey (px_admin X)) (px_mac X) (dav_of X cfg (dw_Now (hq_Draws q))) ms (basic_of q)
       (with_context None (hq_Request q)) w0 (db, rn_auth p) = (w, db', s) \<and> p' = p\<lparr>rn_auth := s\<rparr>) \<or>
    (\<exists>segs t. admin_answer (rn_admin p) ms (hq_Draws q) segs (with_context (hq_Context q) (hq_Request q))
       w0 (db, rn_logins p) = Some (w, db', t) \<and> p' = p\<lparr>rn_logins := t\<rparr>)"
proof (cases target)
  case DavPages
  obtain w1 db1 s where d: "dav_handle (ax_idkey (px_admin X)) (px_mac X) (dav_of X cfg (dw_Now (hq_Draws q))) ms (basic_of q)
       (with_context None (hq_Request q)) w0 (db, rn_auth p) = (w1, db1, s)" by (metis prod.collapse)
  then have "w1 = w" "db1 = db'" "p' = p\<lparr>rn_auth := s\<rparr>" using assms DavPages by (simp_all add: root_answer_def)
  then show ?thesis using d by blast
next
  case (AdminPages segs)
  then show ?thesis using assms by (simp add: root_answer_def split: option.split_asm prod.split_asm) blast
qed (use assms in \<open>simp_all add: root_answer_def\<close>)

lemma root_serve_ok:
  assumes l: "life_ok X (db, Some (cfg, p))" and s: "root_serve X cfg ms q (db, p) = Some (w, db', p')"
  shows "life_ok X (db', Some (cfg, p'))"
  using root_answer_effects [OF s [unfolded root_serve_def]]
proof (elim disjE exE conjE)
  fix s
  assume dav: "dav_handle (ax_idkey (px_admin X)) (px_mac X) (dav_of X cfg (dw_Now (hq_Draws q))) ms (basic_of q)
    (with_context None (hq_Request q)) (commonHeaders new_rw) (db, rn_auth p) = (w, db', s)" "p' = p\<lparr>rn_auth := s\<rparr>"
  have "db_ok (l_hash (ax_lib (px_admin X))) db' \<and> users db' = users db"
    using dav_handle_db [OF _ common_open dav(1)] l by (simp add: governed_def)
  then show ?thesis using dav(2) l by (simp add: governed_def)
next
  fix segs t
  assume admin: "admin_answer (rn_admin p) ms (hq_Draws q) segs (with_context (hq_Context q) (hq_Request q))
    (commonHeaders new_rw) (db, rn_logins p) = Some (w, db', t)" "p' = p\<lparr>rn_logins := t\<rparr>"
  have e: "as_ext (rn_admin p) = px_admin X" "governed (l_hash (ax_lib (as_ext (rn_admin p)))) db" using l by simp_all
  from answer_governed [OF e(2) admin(1) common_open] show ?thesis using admin(2) e(1) by simp
qed (use l in simp)

lemma start_ok:
  assumes ok: "db_ok (l_hash (ax_lib (px_admin X))) db" and s: "start_process X cfg now salt db = (db', p)"
  shows "life_ok X (db', map_option (Pair cfg) p)"
proof -
  obtain r db1 where e: "seedAdmin (ax_idkey (px_admin X)) now salt cfg db = (r, db1)" by fastforce
  have ok1: "db_ok (l_hash (ax_lib (px_admin X))) db1"
    using EnsureAdmin_ok [OF ok] e unfolding seedAdmin_def by (metis snd_conv)
  show ?thesis
  proof (cases r)
    case (Inr u)
    then have "\<exists>v \<in> set (users db1). u_IsAdmin v" using e EnsureAdmin_Inr unfolding seedAdmin_def by blast
    then show ?thesis
      using s e Inr ok1 by (auto simp: start_process_def register_admin_def admin_of_def governed_def split: option.splits)
  qed (use s e ok1 in \<open>auto simp: start_process_def\<close>)
qed

lemma sweep_governed: "governed hash db \<Longrightarrow> governed hash (snd (DeleteExpiredSessions n db))"
  using session_ops_ok by (auto simp: governed_def DeleteExpiredSessions_def)

lemma life_consistent: "life_ok X st \<Longrightarrow> db_ok (l_hash (ax_lib (px_admin X))) (fst st)"
  by (induction X st rule: life_ok.induct) (simp_all add: governed_def)

lemma process_step_ok:
  assumes l: "life_ok X st"
  shows "life_ok X (process_step X ms st e)"
proof (cases e)
  case (Restart cfg now salt)
  obtain db' p where s: "start_process X cfg now salt (fst st) = (db', p)" by fastforce
  from start_ok [OF life_consistent [OF l] this] show ?thesis using Restart s by (simp add: process_step_def)
next
  case (Arrive q)
  obtain db x where st: "st = (db, x)" by (cases st)
  show ?thesis
  proof (cases x)
    case (Some y)
    obtain cfg p where y: "y = (cfg, p)" by (cases y)
    show ?thesis
    proof (cases "root_serve X cfg ms q (db, p)")
      case None
      then show ?thesis using l Arrive st Some y by (simp add: process_step_def)
    next
      case (Some z)
      obtain w db' p' where z: "z = (w, db', p')" by (metis prod.collapse)
      have "life_ok X (db, Some (cfg, p))" using l st \<open>x = Some y\<close> y by simp
      from root_serve_ok [OF this Some [unfolded z]] show ?thesis
        using Some z Arrive st \<open>x = Some y\<close> y by (simp add: process_step_def)
    qed
  qed (use l Arrive st in \<open>simp add: process_step_def\<close>)
next
  case (SweepSessions now)
  obtain db x where st: "st = (db, x)" by (cases st)
  show ?thesis
  proof (cases x)
    case (Some y)
    then show ?thesis using l SweepSessions st sweep_governed by (cases y) (simp add: process_step_def)
  qed (use l SweepSessions st in \<open>simp add: process_step_def\<close>)
qed

text \<open>
  C8. However the process is started, restarted and used, by clients of either protocol, by administrators and by anyone else:
  the database is consistent, and as long as the process runs it has an administrator.
\<close>

theorem process_is_administered:
  assumes "db_ok (l_hash (ax_lib (px_admin X))) db"
  shows "db_ok (l_hash (ax_lib (px_admin X))) (fst (process_run X ms es (db, None))) \<and>
    (snd (process_run X ms es (db, None)) \<noteq> None \<longrightarrow> list_ex u_IsAdmin (users (fst (process_run X ms es (db, None)))))"
proof -
  have "life_ok X (process_run X ms es st)" if "life_ok X st" for st
    using that by (induction es arbitrary: st) (simp_all add: process_run_def process_step_ok)
  from this [of "(db, None)"] have "life_ok X (process_run X ms es (db, None))" using assms by simp
  then show ?thesis
    by (cases "(X, process_run X ms es (db, None))" rule: life_ok.cases) (auto simp: governed_def list_ex_iff)
qed

text \<open>A start on a database that has its administrator, a health check, and a sweep after the session has run out.\<close>

definition trial_ext :: process_ext where
  "trial_ext = \<lparr>px_admin = as_ext trial_admin, px_mac = (\<lambda>x. x), px_enc_cal = (\<lambda>_. None), px_enc_card = (\<lambda>_. None)\<rparr>"

definition root_cfg :: Config where
  "root_cfg = sample_cfg\<lparr>cf_AdminUsername := ''root''\<rparr>"

definition health_arrival :: arrival where
  "health_arrival = \<lparr>hq_Request = \<lparr>rq_Method = ''GET'', rq_Path = ''/healthz'', rq_Header = [], rq_Body = None, rq_Context = ()\<rparr>,
     hq_Credentials = None, hq_Context = rq_Context (trial_post []), hq_Draws = trial_draws, hq_Granted = True, hq_Ping = True\<rparr>"

definition trial_events :: "event list" where
  "trial_events = [Restart root_cfg 0 ''salt'', Arrive health_arrival, SweepSessions (200 * second)]"

theorem process_is_administered_witness:
  "sessions (fst (process_run trial_ext 301 trial_events (trial_db, None))) = [] \<and>
   list_ex u_IsAdmin (users (fst (process_run trial_ext 301 trial_events (trial_db, None))))"
proof -
  have "case UserByUsername ''root'' trial_db of Inl _ \<Rightarrow> False | Inr u \<Rightarrow> u_IsAdmin u" by code_simp
  then obtain u where u: "UserByUsername ''root'' trial_db = Inr u" "u_IsAdmin u" by (auto split: sum.splits)
  have "seedAdmin idk now salt root_cfg trial_db = (Inr u, trial_db)" for idk now salt
    using u by (simp add: seedAdmin_def EnsureAdmin_def root_cfg_def)
  moreover obtain A t where "register_admin (admin_of trial_ext root_cfg) = Some (A, t)"
    by (auto simp: register_admin_def parseTemplates_def trial_ext_def admin_of_def trial_admin_def list_all_iff)
  ultimately obtain p where s1: "process_step trial_ext 301 (trial_db, None) (Restart root_cfg 0 ''salt'') = (trial_db, Some (root_cfg, p))"
    by (simp add: process_step_def start_process_def)
  have "root_mux (dav_routes trial_ext root_cfg) ''GET'' ''/healthz'' = Health" by code_simp
  then have "\<exists>w. root_serve trial_ext root_cfg 301 health_arrival (trial_db, p) = Some (w, trial_db, p)"
    by (simp add: root_serve_def root_answer_def health_arrival_def)
  then have s2: "process_step trial_ext 301 (trial_db, Some (root_cfg, p)) (Arrive health_arrival) = (trial_db, Some (root_cfg, p))"
    by (auto simp: process_step_def)
  have r: "process_run trial_ext 301 trial_events (trial_db, None) =
      (snd (DeleteExpiredSessions (unix (200 * second)) trial_db), Some (root_cfg, p))"
    by (simp add: process_run_def trial_events_def s1 s2) (simp add: process_step_def)
  have "sessions (snd (DeleteExpiredSessions (unix (200 * second)) trial_db)) = []" by code_simp
  moreover have "db_ok (l_hash (ax_lib (px_admin trial_ext))) trial_db" using trial_db_ok by (simp add: trial_ext_def)
  from process_is_administered [OF this, of 301 trial_events] have "list_ex u_IsAdmin (users (fst (process_run trial_ext 301 trial_events (trial_db, None))))"
    by (simp add: r)
  ultimately show ?thesis by (simp add: r)
qed

section \<open>A name that only the configuration accepts\<close>

definition slash_env :: "string \<Rightarrow> string" where
  "slash_env key = (if key = ''EDAV_ADMIN_USERNAME'' then ''a/b'' else if key = ''EDAV_ADMIN_PASSWORD'' then ''long enough'' else [])"

text \<open>
  The configuration accepts a user name with a slash, which the administration refuses because the name is a segment of every
  path of the account: the paths of the seeded administrator are parsed as something else.
\<close>

theorem configured_name_unusable:
  "(case Load (\<lambda>_. True) slash_env of
      Inl _ \<Rightarrow> False
    | Inr cfg \<Rightarrow> validateUsername (cf_AdminUsername cfg) \<noteq> None \<and>
        parse_path \<lparr>Prefix = davPrefix\<rparr> (Principal \<lparr>Prefix = davPrefix\<rparr> (cf_AdminUsername cfg)) = None)"
  by code_simp

end
