(* ===== verification/File_Server.thy ===== *)
theory File_Server
  imports CardServer Webdav_Facts
begin

text \<open>
  \<open>internal/dav/webdav/server.go\<close>: a WebDAV server over a file system, which the program contains but does not mount. The
  file system is a record of functions on a state, as the interface \<open>FileSystem\<close> has them; \<open>http.ServeContent\<close>, which
  answers range requests on files that can seek, is an argument.
\<close>

section \<open>The file system\<close>

record FileInfo =
  fi_Path :: string
  fi_Size :: int
  fi_ModTime :: "time"
  fi_IsDir :: bool
  fi_MIMEType :: string
  fi_ETag :: string

text \<open>An error the file system reports: one that \<open>os.IsExist\<close> recognises, or any other.\<close>

datatype fs_error = FsExist | FsError http_error

definition as_http :: "fs_error \<Rightarrow> http_error" where
  "as_http e = (case e of FsExist \<Rightarrow> PlainError | FsError e \<Rightarrow> e)"

record 's FileSystem =
  fs_Open :: "string \<Rightarrow> 's \<Rightarrow> fs_error + string \<times> bool"
  fs_Stat :: "string \<Rightarrow> 's \<Rightarrow> fs_error + FileInfo"
  fs_ReadDir :: "string \<Rightarrow> bool \<Rightarrow> 's \<Rightarrow> fs_error + FileInfo list"
  fs_Create :: "string \<Rightarrow> string option \<Rightarrow> ConditionalMatch \<Rightarrow> ConditionalMatch \<Rightarrow> 's \<Rightarrow> (fs_error + FileInfo \<times> bool) \<times> 's"
  fs_RemoveAll :: "string \<Rightarrow> ConditionalMatch \<Rightarrow> ConditionalMatch \<Rightarrow> 's \<Rightarrow> (fs_error + unit) \<times> 's"
  fs_Mkdir :: "string \<Rightarrow> 's \<Rightarrow> (fs_error + unit) \<times> 's"
  fs_Copy :: "string \<Rightarrow> string \<Rightarrow> bool \<Rightarrow> bool \<Rightarrow> 's \<Rightarrow> (fs_error + bool) \<times> 's"
  fs_Move :: "string \<Rightarrow> string \<Rightarrow> bool \<Rightarrow> 's \<Rightarrow> (fs_error + bool) \<times> 's"

section \<open>The backend\<close>

definition fs_missing :: "fs_error \<Rightarrow> bool" where
  "fs_missing e = (case e of FsExist \<Rightarrow> False | FsError e \<Rightarrow> IsNotFound e)"

definition file_Options :: "'s FileSystem \<Rightarrow> 'c request \<Rightarrow> 's \<Rightarrow> http_error + string list \<times> string list" where
  "file_Options F r s =
     (case fs_Stat F (rq_Path r) s of
        Inl e \<Rightarrow> if fs_missing e then Inr ([], [''OPTIONS'', ''PUT'', ''MKCOL'']) else Inl (as_http e)
      | Inr fi \<Rightarrow>
          Inr ([], [''OPTIONS'', ''DELETE'', ''PROPFIND'', ''COPY'', ''MOVE''] @
                   (if fi_IsDir fi then [] else [''HEAD'', ''GET'', ''PUT''])))"

definition describe_file :: "FileInfo \<Rightarrow> rw \<Rightarrow> rw" where
  "describe_file fi w =
     set_if (fi_ETag fi \<noteq> []) ''Etag'' (ETag_String (fi_ETag fi))
       (set_if (\<not> IsZero (fi_ModTime fi)) ''Last-Modified'' (http_time (fi_ModTime fi))
         (set_if (fi_MIMEType fi \<noteq> []) ''Content-Type'' (fi_MIMEType fi) w))"

definition file_HeadGet ::
    "('c request \<Rightarrow> time \<Rightarrow> string \<Rightarrow> rw \<Rightarrow> rw) \<Rightarrow> 's FileSystem \<Rightarrow> 'c request \<Rightarrow> rw \<Rightarrow> 's \<Rightarrow> (http_error + unit) \<times> rw" where
  "file_HeadGet serveContent F r w s =
     (case fs_Stat F (rq_Path r) s of
        Inl e \<Rightarrow> (Inl (as_http e), w)
      | Inr fi \<Rightarrow>
          if fi_IsDir fi then (Inl (HTTPError StatusMethodNotAllowed), w)
          else case fs_Open F (rq_Path r) s of
                 Inl e \<Rightarrow> (Inl (as_http e), w)
               | Inr (content, seeks) \<Rightarrow>
                   let w = describe_file fi (header_Set ''Content-Length'' (FormatInt (fi_Size fi)) w)
                   in (Inr (), if seeks then serveContent r (fi_ModTime fi) content w
                               else if rq_Method r \<noteq> ''HEAD'' then Write (Text content) w else w))"

definition file_props :: "FileInfo \<Rightarrow> (xname \<times> PropFindFunc) list" where
  "file_props fi =
     (let types = [(ResourceTypeName, PropFindValue (NewResourceType (if fi_IsDir fi then [CollectionName] else [])))] in
      if fi_IsDir fi then types
      else set_prop (fi_ETag fi \<noteq> []) GetETagName (GetETag (fi_ETag fi))
          (set_prop (fi_MIMEType fi \<noteq> []) GetContentTypeName (GetContentType (fi_MIMEType fi))
          (set_prop (\<not> IsZero (fi_ModTime fi)) GetLastModifiedName (GetLastModified (fi_ModTime fi))
          (set_prop True GetContentLengthName (GetContentLength (fi_Size fi)) types))))"

definition propFindFile :: "PropFind \<Rightarrow> FileInfo \<Rightarrow> http_error + Response" where
  "propFindFile pf fi = NewPropFindResponse (fi_Path fi) pf (file_props fi)"

definition file_PropFind :: "'s FileSystem \<Rightarrow> 'c request \<Rightarrow> PropFind \<Rightarrow> Depth \<Rightarrow> 's \<Rightarrow> http_error + MultiStatus" where
  "file_PropFind F r pf depth s =
     (case fs_Stat F (rq_Path r) s of
        Inl e \<Rightarrow> Inl (as_http e)
      | Inr fi \<Rightarrow>
          if depth \<noteq> DepthZero \<and> fi_IsDir fi then
            (case fs_ReadDir F (rq_Path r) (depth = DepthInfinity) s of
               Inl e \<Rightarrow> Inl (as_http e)
             | Inr children \<Rightarrow> bindE (map_ok (propFindFile pf) children) (\<lambda>resps. Inr (NewMultiStatus resps)))
          else bindE (propFindFile pf fi) (\<lambda>resp. Inr (NewMultiStatus [resp])))"

text \<open>Every property a PROPPATCH names is refused; the text between the elements has no name.\<close>

definition refused_names :: "prop_fields list \<Rightarrow> xname list" where
  "refused_names ups = concat (map (\<lambda>p. List.map_filter XMLName (snd p)) ups)"

definition file_PropPatch :: "'s FileSystem \<Rightarrow> 'c request \<Rightarrow> PropertyUpdate \<Rightarrow> 's \<Rightarrow> http_error + Response" where
  "file_PropPatch F r update s =
     (case fs_Stat F (rq_Path r) s of
        Inl e \<Rightarrow> Inl (as_http e)
      | Inr fi \<Rightarrow>
          let resp = encode_all (map (\<lambda>n. (StatusForbidden, NewRawXMLElement n [] []))
                (refused_names (up_Set update) @ refused_names (up_Remove update))) (bare_response (fi_Path fi))
          in if rs_PropStats resp = [] then Inl (HTTPError StatusBadRequest) else Inr resp)"

definition file_Put :: "'s FileSystem \<Rightarrow> 'c request \<Rightarrow> rw \<Rightarrow> 's \<Rightarrow> ((http_error + unit) \<times> rw) \<times> 's" where
  "file_Put F r w s =
     (case fs_Create F (rq_Path r) (rq_Body r) (Get ''If-None-Match'' r) (Get ''If-Match'' r) s of
        (Inl e, s) \<Rightarrow> ((Inl (as_http e), w), s)
      | (Inr (fi, created), s) \<Rightarrow>
          ((Inr (), WriteHeader (if created then StatusCreated else StatusNoContent) (describe_file fi w)), s))"

definition file_Delete :: "'s FileSystem \<Rightarrow> 'c request \<Rightarrow> 's \<Rightarrow> (http_error + unit) \<times> 's" where
  "file_Delete F r s =
     (case fs_RemoveAll F (rq_Path r) (Get ''If-None-Match'' r) (Get ''If-Match'' r) s of
        (res, s) \<Rightarrow> (mapE as_http res, s))"

definition file_Mkcol :: "'s FileSystem \<Rightarrow> 'c request \<Rightarrow> 's \<Rightarrow> (http_error + unit) \<times> 's" where
  "file_Mkcol F r s =
     (if Get ''Content-Type'' r \<noteq> [] then (Inl (HTTPError StatusUnsupportedMediaType), s)
      else case fs_Mkdir F (rq_Path r) s of
             (Inl e, s) \<Rightarrow> (Inl (if fs_missing e then HTTPError StatusConflict else as_http e), s)
           | (Inr _, s) \<Rightarrow> (Inr (), s))"

text \<open>What is in the way of a copy or a move is a failed precondition.\<close>

definition exists_failed :: "(fs_error + bool) \<times> 's \<Rightarrow> (http_error + bool) \<times> 's" where
  "exists_failed x =
     (case x of
        (Inl e, s) \<Rightarrow> (Inl (if e = FsExist then HTTPError StatusPreconditionFailed else as_http e), s)
      | (Inr created, s) \<Rightarrow> (Inr created, s))"

definition file_Copy :: "'s FileSystem \<Rightarrow> 'c request \<Rightarrow> string \<Rightarrow> bool \<Rightarrow> bool \<Rightarrow> 's \<Rightarrow> (http_error + bool) \<times> 's" where
  "file_Copy F r dest recursive overwrite s = exists_failed (fs_Copy F (rq_Path r) dest (\<not> recursive) (\<not> overwrite) s)"

definition file_Move :: "'s FileSystem \<Rightarrow> 'c request \<Rightarrow> string \<Rightarrow> bool \<Rightarrow> 's \<Rightarrow> (http_error + bool) \<times> 's" where
  "file_Move F r dest overwrite s = exists_failed (fs_Move F (rq_Path r) dest (\<not> overwrite) s)"

definition file_backend :: "('c request \<Rightarrow> time \<Rightarrow> string \<Rightarrow> rw \<Rightarrow> rw) \<Rightarrow> 's FileSystem \<Rightarrow> ('c, 's) backend" where
  "file_backend serveContent F =
     \<lparr>b_Options = file_Options F, b_HeadGet = file_HeadGet serveContent F, b_PropFind = file_PropFind F,
      b_PropPatch = file_PropPatch F, b_Put = file_Put F, b_Delete = file_Delete F, b_Mkcol = file_Mkcol F,
      b_Copy = file_Copy F, b_Move = file_Move F\<rparr>"

definition file_ServeHTTP ::
    "env \<Rightarrow> ('c request \<Rightarrow> time \<Rightarrow> string \<Rightarrow> rw \<Rightarrow> rw) \<Rightarrow> 's FileSystem option \<Rightarrow> 'c request \<Rightarrow> rw \<Rightarrow> 's \<Rightarrow> rw \<times> 's" where
  "file_ServeHTTP E serveContent fs r w s =
     (case fs of
        None \<Rightarrow> (http_Error ''webdav: no filesystem available'' StatusInternalServerError w, s)
      | Some F \<Rightarrow> ServeHTTP E (Some (file_backend serveContent F)) r w s)"

section \<open>Principals\<close>

record ServePrincipalOptions =
  po_CurrentUserPrincipalPath :: string
  po_HomeSets :: "raw list"
  po_Capabilities :: "string list"

text \<open>A home set is what its element is written as, under the name of that element.\<close>

definition servePrincipalPropfind :: "env \<Rightarrow> ServePrincipalOptions \<Rightarrow> 'c request \<Rightarrow> rw \<Rightarrow> (http_error + unit) \<times> rw" where
  "servePrincipalPropfind E po r w =
     (case bindE (DecodeXMLRequest E PropFind_Unmarshal r) (\<lambda>pf.
             NewPropFindResponse (rq_Path r) pf
               (foldl (\<lambda>props hs. case XMLName hs of None \<Rightarrow> props | Some n \<Rightarrow> AList.update n (PropFindValue hs) props)
                 [(ResourceTypeName, PropFindValue (NewResourceType [PrincipalName])),
                  (CurrentUserPrincipalName, PropFindValue (CurrentUserPrincipal_el (po_CurrentUserPrincipalPath po)))]
                 (po_HomeSets po))) of
        Inl e \<Rightarrow> (Inl e, w)
      | Inr resp \<Rightarrow> ServeMultiStatus E (NewMultiStatus [resp]) w)"

definition ServePrincipal :: "env \<Rightarrow> ServePrincipalOptions \<Rightarrow> 'c request \<Rightarrow> rw \<Rightarrow> rw" where
  "ServePrincipal E po r w =
     (if rq_Method r = ''OPTIONS'' then
        WriteHeader StatusNoContent
          (header_Add ''Allow'' (Join '', '' [''OPTIONS'', ''PROPFIND'', ''REPORT'', ''DELETE'', ''MKCOL''])
            (header_Add ''DAV'' (Join '', '' ([''1'', ''3''] @ po_Capabilities po)) w))
      else if rq_Method r = ''PROPFIND'' then
        (case servePrincipalPropfind E po r w of (Inl e, w) \<Rightarrow> ServeError E e w | (Inr _, w) \<Rightarrow> w)
      else http_Error ''unsupported method'' StatusMethodNotAllowed w)"

section \<open>Overwriting\<close>

text \<open>What a file system owes a request that must not overwrite: it says so and has done nothing.\<close>

definition respects_existing :: "'s FileSystem \<Rightarrow> string \<Rightarrow> 's \<Rightarrow> bool" where
  "respects_existing F dest s =
     (\<forall>p b. fs_Copy F p dest b True s = (Inl FsExist, s) \<and> fs_Move F p dest True s = (Inl FsExist, s))"

lemma existing_refused:
  assumes "respects_existing F dest s"
  shows "file_Copy F r dest rec False s = (Inl (HTTPError StatusPreconditionFailed), s)"
    "file_Move F r dest False s = (Inl (HTTPError StatusPreconditionFailed), s)"
  using assms by (simp_all add: file_Copy_def file_Move_def respects_existing_def exists_failed_def)

lemma plain_error_status: "rw_Status w = None \<Longrightarrow> rw_Status (ServeError E (HTTPError code) w) = Some code"
  by (simp add: ServeError_def http_Error_def WriteHeader_def Write_def header_Set_def header_Add_def header_Del_def HTTPErrorFromError_def)

text \<open>
  A COPY or a MOVE with \<open>Overwrite: F\<close> whose destination exists is answered 412 and leaves the files as they are.
\<close>

theorem overwrite_refused:
  assumes m: "rq_Method r \<in> {''COPY'', ''MOVE''}" and o: "Get ''Overwrite'' r = ''F''" and d: "Get ''Depth'' r = []"
    and dest: "Get ''Destination'' r \<noteq> []" "url_Parse (e_authority E) (Get ''Destination'' r) = Some path"
    and fs: "respects_existing F path s" and w: "rw_Status w = None"
  shows "rw_Status (fst (file_ServeHTTP E sc (Some F) r w s)) = Some StatusPreconditionFailed \<and>
    snd (file_ServeHTTP E sc (Some F) r w s) = s"
proof -
  have "ParseOverwrite ''F'' = Some False" by code_simp
  then have "handleCopyMove E (file_backend sc F) r w s = ((Inl (HTTPError StatusPreconditionFailed), w), s)"
    using m o d dest existing_refused [OF fs, of r]
    by (auto simp: handleCopyMove_def parseDestination_def header_depth_def file_backend_def)
  then have "dispatch E (file_backend sc F) r w s = ((Inl (HTTPError StatusPreconditionFailed), w), s)"
    using m by (auto simp: dispatch_def)
  then show ?thesis using w by (simp add: file_ServeHTTP_def ServeHTTP_def plain_error_status)
qed

text \<open>A file system of names, to try it on.\<close>

definition name_fs :: "string list FileSystem" where
  "name_fs =
     \<lparr>fs_Open = (\<lambda>p s. if p \<in> set s then Inr ([], False) else Inl (FsError (HTTPError StatusNotFound))),
      fs_Stat = (\<lambda>p s. if p \<in> set s then Inr \<lparr>fi_Path = p, fi_Size = 0, fi_ModTime = 0, fi_IsDir = False, fi_MIMEType = [], fi_ETag = []\<rparr>
        else Inl (FsError (HTTPError StatusNotFound))),
      fs_ReadDir = (\<lambda>p b s. Inr []),
      fs_Create = (\<lambda>p body a b s. (Inl (FsError PlainError), s)),
      fs_RemoveAll = (\<lambda>p a b s. (Inr (), removeAll p s)),
      fs_Mkdir = (\<lambda>p s. (Inl (FsError PlainError), s)),
      fs_Copy = (\<lambda>p dest b keep s. if dest \<in> set s \<and> keep then (Inl FsExist, s) else (Inr (dest \<notin> set s), dest # removeAll dest s)),
      fs_Move = (\<lambda>p dest keep s. if dest \<in> set s \<and> keep then (Inl FsExist, s)
        else (Inr (dest \<notin> set s), dest # removeAll dest (removeAll p s)))\<rparr>"

definition move_request :: "unit request" where
  "move_request = \<lparr>rq_Method = ''MOVE'', rq_Path = ''/a'', rq_Header = [(''Destination'', ''/b''), (''Overwrite'', ''F'')],
     rq_Body = None, rq_Context = ()\<rparr>"

theorem overwrite_refused_witness:
  "rw_Status (fst (file_ServeHTTP sample_env (\<lambda>_ _ _ w. w) (Some name_fs) move_request new_rw [''/a'', ''/b''])) =
     Some StatusPreconditionFailed \<and>
   snd (file_ServeHTTP sample_env (\<lambda>_ _ _ w. w) (Some name_fs) move_request new_rw [''/a'', ''/b'']) = [''/a'', ''/b'']"
proof (rule overwrite_refused)
  show "url_Parse (e_authority sample_env) (Get ''Destination'' move_request) = Some ''/b''" by code_simp
  show "respects_existing name_fs ''/b'' [''/a'', ''/b'']" by (simp add: respects_existing_def name_fs_def)
qed (simp_all add: move_request_def Get_def new_rw_def)

end
