(* ===== verification/CalObject.thy ===== *)
theory CalObject
  imports Timezones
begin

text \<open>
  \<open>ValidateCalendarObject\<close> of \<open>internal/dav/caldav/caldav.go\<close>, a helper for stores of calendar objects which this server
  does not call. The text of a property is read by go-ical, an argument (\<open>x_Text\<close>).
\<close>

datatype calendar_fault = MethodPresent | ConflictingTypes | UnreadableUID | ConflictingUIDs

fun validate_children :: "ext \<Rightarrow> component list \<Rightarrow> string \<Rightarrow> string \<Rightarrow> calendar_fault + string \<times> string" where
  "validate_children X [] eventType uid = Inr (eventType, uid)"
| "validate_children X (c # cs) eventType uid =
     (let eventType = (if cn_Name c \<noteq> ''VTIMEZONE'' \<and> eventType = [] then cn_Name c else eventType) in
      if cn_Name c \<noteq> ''VTIMEZONE'' \<and> eventType \<noteq> cn_Name c then Inl ConflictingTypes
      else case x_Text X c ''UID'' of
             None \<Rightarrow> Inl UnreadableUID
           | Some compUID \<Rightarrow>
               let uid = (if uid = [] then compUID else uid) in
               if compUID \<noteq> [] \<and> uid \<noteq> compUID then Inl ConflictingUIDs
               else validate_children X cs eventType uid)"

definition ValidateCalendarObject :: "ext \<Rightarrow> component \<Rightarrow> calendar_fault + string \<times> string" where
  "ValidateCalendarObject X cal =
     (if prop_Get ''METHOD'' cal \<noteq> None then Inl MethodPresent else validate_children X (cn_Children cal) [] [])"

section \<open>What a valid object is\<close>

text \<open>The first that is given, or nothing.\<close>

definition first_given :: "string list \<Rightarrow> string" where
  "first_given xs = (case filter (\<lambda>x. x \<noteq> []) xs of [] \<Rightarrow> [] | x # _ \<Rightarrow> x)"

definition types_of :: "component list \<Rightarrow> string list" where
  "types_of cs = filter (\<lambda>n. n \<noteq> ''VTIMEZONE'') (map cn_Name cs)"

lemma first_given_simps [simp]: "first_given [] = []" "first_given (x # xs) = (if x = [] then first_given xs else x)"
  by (simp_all add: first_given_def)

text \<open>All one type, from the first that has a name.\<close>

definition one_type :: "string list \<Rightarrow> bool" where
  "one_type ns = (\<forall>n \<in> set (dropWhile (\<lambda>n. n = []) ns). n = first_given ns)"

lemma one_type_simps [simp]: "one_type []" "one_type ([] # ns) = one_type ns"
  "x \<noteq> [] \<Longrightarrow> one_type (x # ns) = (\<forall>n \<in> set ns. n = x)"
  by (simp_all add: one_type_def)

definition uid_of :: "ext \<Rightarrow> component \<Rightarrow> string" where
  "uid_of X c = the (x_Text X c ''UID'')"

definition one_uid :: "ext \<Rightarrow> component list \<Rightarrow> string \<Rightarrow> bool" where
  "one_uid X cs u = (\<forall>c \<in> set cs. x_Text X c ''UID'' = Some [] \<or> x_Text X c ''UID'' = Some u)"

lemma validate_children_Inr:
  "validate_children X cs t u = Inr (t', u') \<longleftrightarrow>
     one_type (t # types_of cs) \<and> t' = first_given (t # types_of cs) \<and>
     one_uid X cs u' \<and> u' = first_given (u # map (uid_of X) cs)"
proof (induction cs arbitrary: t u)
  case (Cons c cs)
  show ?case
  proof (cases "x_Text X c ''UID''")
    case (Some v)
    have n: "uid_of X c = v" by (simp add: uid_of_def Some)
    have o: "one_uid X (c # cs) u' = (one_uid X cs u' \<and> (v = [] \<or> v = u'))" by (auto simp: one_uid_def Some)
    show ?thesis
    proof (cases "cn_Name c = ''VTIMEZONE''")
      case True
      then have ty: "types_of (c # cs) = types_of cs" by (simp add: types_of_def)
      show ?thesis unfolding validate_children.simps ty o
        by (cases "u = []"; cases "v = []"; simp add: True Some n Cons.IH; auto)
    next
      case False
      then have ty: "types_of (c # cs) = cn_Name c # types_of cs" by (simp add: types_of_def)
      show ?thesis unfolding validate_children.simps ty o
        by (cases "u = []"; cases "v = []"; cases "t = []"; cases "cn_Name c = []"; simp add: False Some n Cons.IH; auto)
    qed
  qed (simp add: one_uid_def)
qed (simp add: types_of_def one_uid_def; auto)

text \<open>
  An object is accepted exactly when it names no METHOD, has components of one type beside its time zones, and no two
  different UIDs; the type and the UID returned are those.
\<close>

theorem valid_object_meaning:
  "ValidateCalendarObject X cal = Inr (t, u) \<longleftrightarrow>
     prop_Get ''METHOD'' cal = None \<and>
     one_type (types_of (cn_Children cal)) \<and> t = first_given (types_of (cn_Children cal)) \<and>
     one_uid X (cn_Children cal) u \<and> u = first_given (map (uid_of X) (cn_Children cal))"
  using validate_children_Inr [of X "cn_Children cal" "[]" "[]" t u] by (auto simp: ValidateCalendarObject_def)

end
