(* ===== verification/Spec2Isabelle.thy ===== *)
theory Spec2Isabelle
  imports Object_Store Session_Auth Server_Facts Webdav_Facts Recurrence_Facts ICal_Create VCard_Roundtrip Admin_Contacts Admin_Accounts Admin_Form_Facts
    Process_Facts File_Server CalObject
begin

text \<open>
  edav (\<open>src/\<close>, Go): a CalDAV and CardDAV server over one SQLite file, with an administration site. This library models
  the server from the bytes of a content line to the process as a whole, and proves what its parts and their composition
  promise.

  \<^bold>\<open>The program and its parts.\<close> \<open>cmd/dav/main.go\<close> reads the configuration (\<open>internal/config\<close>), opens the database and
  brings its schema up to date (\<open>internal/storage\<close>), seeds an administrator and serves three things on one mux: a health
  check, the DAV endpoints (\<open>internal/dav\<close>) and the administration pages (\<open>internal/admin\<close>). A DAV request passes Basic
  authentication (\<open>internal/auth\<close>: throttle, credential cache, password hashes), the mux of \<open>dav/server.go\<close> and the
  generic WebDAV handler (\<open>dav/internal\<close>), which calls the CalDAV or the CardDAV handler (\<open>dav/caldav\<close>, \<open>dav/carddav\<close>)
  through an interface, which calls the backends (\<open>dav/caldav.go\<close>, \<open>dav/carddav.go\<close>), which call the storage operations.
  An administration request passes the session middleware and the administrator check, and its handler calls the storage
  operations directly, editing stored objects byte by byte through \<open>internal/vcard\<close> and \<open>internal/ical\<close>, which rest on
  \<open>internal/contentline\<close>. Stored calendar objects are indexed by \<open>internal/recurrence\<close>.

  \<^bold>\<open>State.\<close> The database is the record \<open>db\<close> of \<open>Storage\<close>: one list of rows per table, in rowid order. Everything else that
  lives between requests is in memory: the throttle's table (\<open>throttle\<close>) and the credential cache (\<open>credentialCache\<close>);
  sessions are rows of the database. An operation takes the state and returns its result with the state it leaves; a
  handler of HTTP takes in addition the answer written so far (\<open>rw\<close>: header, status, body). Errors are values of sums, a
  panic or a loop that does not end is \<open>None\<close> where one can happen. Strings are lists of bytes. Integers are unbounded
  except where the code's width shows: times are whole seconds or nanoseconds, and durations saturate or wrap at 64 bits
  as Go's do (\<open>Sub\<close>, \<open>Recurrence\<close>), sequence numbers and tokens are parsed at 64 bits.

  \<^bold>\<open>Which theory models what.\<close>
  \<^item> \<open>Prelude\<close>: Go's \<open>strings\<close> and \<open>strconv\<close> as used here, errors over lists, the locale \<open>codec\<close>. \<open>GoTime\<close>,
    \<open>DateFormat\<close> (with \<open>DateFormat_Facts\<close>), \<open>NetUrl\<close>, \<open>Mime\<close>, \<open>Scan\<close>: what is used of the packages time, net/url,
    mime and fmt.
  \<^item> \<open>ContentLine\<close>: \<open>internal/contentline\<close>, parsing, folding, escaping, finding components and editing. \<open>ContentLine_Facts\<close>,
    \<open>ContentLine_Edit\<close>, \<open>ContentLine_Render\<close>, \<open>ContentLine_Reread\<close> and \<open>Document_Edit\<close> show that values survive escaping and
    folding, that a component is a balanced span, that setting, inserting and removing refine operations on the list of the
    component's own lines, and that an edited document is read back as it was left. \<open>others\<close> are the lines of a component that
    are not its own properties of given names, \<open>untouched\<close> their bytes and those of all lines outside it.
  \<^item> \<open>VCard_Edit\<close>, \<open>ICal_Edit\<close>: \<open>internal/vcard\<close> and \<open>internal/ical\<close>. \<open>VCard_Facts\<close>, \<open>VCard_Contact\<close>, \<open>VCard_Roundtrip\<close>,
    \<open>ICal_Times\<close>, \<open>ICal_Facts\<close>, \<open>ICal_Create\<close>: a contact or an event that is written is the one read back, everything else
    stays where it was, the edit returns.
  \<^item> \<open>Timezones\<close>, \<open>Recurrence\<close>: \<open>internal/recurrence\<close>. \<open>Recurrence_Facts\<close>: what an expansion is, and that the indexed
    bounds cover every instance.
  \<^item> \<open>Storage\<close>: \<open>users.go\<close>, \<open>collections.go\<close>, \<open>objects.go\<close>, \<open>sessions.go\<close> of \<open>internal/storage\<close>, an SQL statement being
    the list operation it denotes with the constraints and cascades of the schema. \<open>Storage_Facts\<close> has the invariant \<open>db_ok\<close>
    and one lemma per operation, \<open>Storage_Trace\<close> runs of operations, \<open>Storage_Queries\<close> what reads answer.
    \<open>Migrate\<close>: \<open>storage.go\<close> and \<open>migrate.go\<close>.
  \<^item> \<open>Sync\<close>, \<open>Paths\<close>, \<open>Http\<close>: \<open>dav/sync.go\<close>, \<open>dav/path.go\<close>, \<open>dav/internal/internal.go\<close>.
  \<^item> \<open>Xml\<close>, \<open>Elements\<close>, \<open>Webdav\<close> (with \<open>Webdav_Facts\<close>): \<open>dav/internal/xml.go\<close>, \<open>elements.go\<close>, \<open>server.go\<close>; a backend is a
    record of functions, as the Go interface is. \<open>File_Server\<close>: \<open>dav/webdav/server.go\<close>.
  \<^item> \<open>CardMatch\<close>, \<open>CalMatch\<close>, \<open>CalObject\<close>: \<open>match.go\<close> of both protocols and the check of a calendar object.
  \<^item> \<open>Backends\<close>, \<open>CalBackend\<close>: \<open>dav/carddav.go\<close>, \<open>vcard.go\<close>, \<open>caldav.go\<close>. \<open>Isolation\<close>: no user sees or changes another's
    rows through them. \<open>Object_Store\<close>: preconditions, ETags and errors of PUT, GET and DELETE.
  \<^item> \<open>CalElements\<close>, \<open>CardElements\<close>, \<open>ServerBase\<close>, \<open>CalServer\<close>, \<open>CardServer\<close>: \<open>elements.go\<close> and \<open>server.go\<close> of both protocols.
  \<^item> \<open>Throttle\<close>, \<open>Password\<close>, \<open>Basic_Auth\<close>, \<open>Session_Auth\<close>: \<open>internal/auth\<close>.
  \<^item> \<open>Routing\<close>, \<open>Server_Facts\<close>: \<open>dav/server.go\<close>, and what holds of any run of DAV requests.
  \<^item> \<open>Admin_Forms\<close>, \<open>Admin\<close>, \<open>Admin_Users\<close>, \<open>Admin_Objects\<close>, \<open>Admin_Server\<close>: \<open>internal/admin\<close>, from the forms to the routes.
    \<open>Admin_Facts\<close> has one lemma per page on what it stores, \<open>Admin_Guard\<close> and \<open>Admin_Accounts\<close> what follows for any run of
    requests, \<open>Admin_Form_Facts\<close> the forms, \<open>Admin_Contacts\<close> what the form of a contact stores, from the request to the row.
  \<^item> \<open>Config\<close>, \<open>Process\<close>, \<open>Process_Facts\<close>: \<open>internal/config\<close> and \<open>cmd/dav/main.go\<close>.

  \<^bold>\<open>Interfaces.\<close> \<open>codec\<close> (\<open>Prelude\<close>) is an encoder with its decoder, interpreted for the Depth and Overwrite headers, ETags,
  sync tokens, paths and base64. \<open>prop_store\<close> (\<open>ContentLine_Edit\<close>) is a component whose properties are set one by one,
  interpreted for raw and for escaped values. \<open>object_store\<close> (\<open>Object_Store\<close>) is the contract of a backend's object
  operations, interpreted for both backends. \<open>careful_backend\<close> (\<open>Server_Facts\<close>) is the contract of a WebDAV backend (a
  request moves the state by a step its context allows, one that fails leaves it alone, one that succeeds has its status),
  interpreted for both protocol handlers.

  \<^bold>\<open>Parameters.\<close> What is not under \<open>src/\<close> is an argument. \<open>lib\<close>: SHA-256, the decoders of go-ical and go-vcard, and the two
  answers about recurrence the backend takes (computed by \<open>Recurrence\<close> elsewhere). \<open>ext\<close>: the zone database, the values
  go-ical gives of a component, the occurrences rrule-go makes of a rule; \<open>Recurrence_Facts\<close> names what it relies on
  (occurrences in order and near their wall times). \<open>env\<close>: what the XML decoder makes of a body, the validity of the
  authority of a URL, status and error texts. \<open>idkey\<close> and \<open>mac\<close>: Argon2id and HMAC-SHA256. \<open>admin_env\<close>: running
  a template, the static files. \<open>'s executor\<close>: what the statements of a migration do. Clocks and random bytes are inputs
  of each request.

  \<^bold>\<open>Bounds and fuel.\<close> Folding a line is a \<open>partial_function\<close>: it does not return on long runs of continuation bytes, which
  is proved, as is that it returns where no four of them follow one another, which holds of valid UTF-8. The loop over media type parameters has fuel, the length of the header;
  more changes nothing (\<open>media_params_fuel\<close>). All other recursion is structural or has its measure. Nothing is bounded in
  size; the 64-bit limits that theorems mention (durations of at most \<open>2 ^ 63\<close> nanoseconds, years from 0 to 9999) are those
  of the code.

  \<^bold>\<open>Not modelled.\<close> Executing templates, serving static files, logging and the texts of errors; flags, listening, signals and
  shutdown; the SQL driver, its connection pool and a busy database; contexts that are cancelled. Requests are steps one
  after the other: SQLite takes one writer at a time, the throttle and the cache are behind a mutex, and the interleavings
  of whole operations are covered by quantifying over their sequences. Some operations are coarser than the code's: Basic
  authentication of a request (\<open>allow\<close>, the verification, \<open>fail\<close>) is one step, so that bounds on guesses are those of requests one
  after the other, and so are the check of a precondition and the write it guards. Branches for errors of the driver are left out.
  That a byte slice is not nil is taken as that it is not empty. Case mapping and white space are those of ASCII.
  Escapes in a URL that hide a slash or a dot are left out of the routing. \<open>dav/webdav/elements.go\<close> and
  \<open>NewPreconditionError\<close>, which nothing uses, are left out, and \<open>valueXMLName\<close>, which is reflection on the name of a Go type.
\<close>

end
